(* ===== verification/Pinos_Prelude.thy ===== *)
theory Pinos_Prelude
  imports Main "HOL-Library.Word"
begin

unbundle bit_operations_syntax

text \<open>
  Shared ground of the development: machine integer types at the width the C code has them, the
  result codes of \<^verbatim>\<open>spa/include/spa/defs.h\<close> with the macros that classify them, the
  rounding and pointer-tagging macros, memory blocks with checked \<^verbatim>\<open>memcpy\<close>, and
  the little-endian layout of 32-bit fields. A read or write outside a block is undefined in C; the
  model returns \<open>None\<close> there, so that every theorem that yields \<open>Some\<close> also shows that the access
  was in bounds.
\<close>

section \<open>Collections of rewrite rules\<close>

named_theorems spa_simps \<open>unfolding rules for the operations of the components\<close>
named_theorems spa_inv \<open>the unfolding rules of the components' invariants\<close>

section \<open>Machine integers\<close>

type_synonym u8 = "8 word"
type_synonym u32 = "32 word"
type_synonym u64 = "64 word"
type_synonym byte = "8 word"

type_synonym spa_result = "32 word"

abbreviation (input) SPA_ID_INVALID :: u32 where "SPA_ID_INVALID \<equiv> 0xffffffff"

abbreviation (input) SPA_RESULT_ASYNC :: spa_result where "SPA_RESULT_ASYNC \<equiv> 0x40000000"
abbreviation (input) SPA_RESULT_WAIT_SYNC :: spa_result where "SPA_RESULT_WAIT_SYNC \<equiv> 2"
abbreviation (input) SPA_RESULT_OK :: spa_result where "SPA_RESULT_OK \<equiv> 0"
abbreviation (input) SPA_RESULT_ERROR :: spa_result where "SPA_RESULT_ERROR \<equiv> - 1"
abbreviation (input) SPA_RESULT_NO_FORMAT :: spa_result where "SPA_RESULT_NO_FORMAT \<equiv> - 4"
abbreviation (input) SPA_RESULT_INVALID_COMMAND :: spa_result where "SPA_RESULT_INVALID_COMMAND \<equiv> - 5"
abbreviation (input) SPA_RESULT_INVALID_PORT :: spa_result where "SPA_RESULT_INVALID_PORT \<equiv> - 6"
abbreviation (input) SPA_RESULT_HAVE_BUFFER :: spa_result where "SPA_RESULT_HAVE_BUFFER \<equiv> - 7"
abbreviation (input) SPA_RESULT_NEED_BUFFER :: spa_result where "SPA_RESULT_NEED_BUFFER \<equiv> - 8"
abbreviation (input) SPA_RESULT_NOT_IMPLEMENTED :: spa_result where "SPA_RESULT_NOT_IMPLEMENTED \<equiv> - 12"
abbreviation (input) SPA_RESULT_ENUM_END :: spa_result where "SPA_RESULT_ENUM_END \<equiv> - 15"
abbreviation (input) SPA_RESULT_INVALID_MEDIA_TYPE :: spa_result
  where "SPA_RESULT_INVALID_MEDIA_TYPE \<equiv> - 18"
abbreviation (input) SPA_RESULT_INVALID_ARGUMENTS :: spa_result
  where "SPA_RESULT_INVALID_ARGUMENTS \<equiv> - 21"
abbreviation (input) SPA_RESULT_NO_BUFFERS :: spa_result where "SPA_RESULT_NO_BUFFERS \<equiv> - 27"
abbreviation (input) SPA_RESULT_INVALID_BUFFER_ID :: spa_result
  where "SPA_RESULT_INVALID_BUFFER_ID \<equiv> - 28"
abbreviation (input) SPA_RESULT_NO_MEMORY :: spa_result where "SPA_RESULT_NO_MEMORY \<equiv> - 32"
abbreviation (input) SPA_RESULT_NO_PERMISSION :: spa_result where "SPA_RESULT_NO_PERMISSION \<equiv> - 33"
abbreviation (input) SPA_RESULT_OUT_OF_BUFFERS :: spa_result where "SPA_RESULT_OUT_OF_BUFFERS \<equiv> - 35"
abbreviation (input) SPA_RESULT_INCOMPATIBLE_PROPS :: spa_result
  where "SPA_RESULT_INCOMPATIBLE_PROPS \<equiv> - 36"

definition SPA_RESULT_IS_OK :: "spa_result \<Rightarrow> bool" where
  "SPA_RESULT_IS_OK res \<longleftrightarrow> sint res \<ge> 0"

definition SPA_RESULT_IS_ERROR :: "spa_result \<Rightarrow> bool" where
  "SPA_RESULT_IS_ERROR res \<longleftrightarrow> sint res < 0"

definition SPA_RESULT_IS_ASYNC :: "spa_result \<Rightarrow> bool" where
  "SPA_RESULT_IS_ASYNC res \<longleftrightarrow> res AND push_bit 30 3 = SPA_RESULT_ASYNC"

definition SPA_RESULT_ASYNC_SEQ :: "spa_result \<Rightarrow> u32" where
  "SPA_RESULT_ASYNC_SEQ res = res AND (SPA_RESULT_ASYNC - 1)"

definition SPA_RESULT_RETURN_ASYNC :: "u32 \<Rightarrow> spa_result" where
  "SPA_RESULT_RETURN_ASYNC seq = SPA_RESULT_ASYNC OR (seq AND (SPA_RESULT_ASYNC - 1))"

definition SPA_ROUND_UP_N :: "'a::len word \<Rightarrow> 'a word \<Rightarrow> 'a word" where
  "SPA_ROUND_UP_N num align = (num + (align - 1)) AND NOT (align - 1)"

lemma result_ok_iff_not_error: "SPA_RESULT_IS_OK res \<longleftrightarrow> \<not> SPA_RESULT_IS_ERROR res"
  by (auto simp: SPA_RESULT_IS_OK_def SPA_RESULT_IS_ERROR_def)

lemma sint_less_0_iff_bit31: "sint (w :: u32) < 0 \<longleftrightarrow> bit w 31"
  using bit_last_iff [of w] by simp

lemma async_not_error: "SPA_RESULT_IS_ASYNC res \<Longrightarrow> \<not> SPA_RESULT_IS_ERROR res"
proof -
  assume "SPA_RESULT_IS_ASYNC res"
  then have "bit (res AND push_bit 30 3) 31 \<longleftrightarrow> bit (SPA_RESULT_ASYNC :: u32) 31"
    by (simp add: SPA_RESULT_IS_ASYNC_def)
  then have "\<not> bit res 31" by (simp add: bit_simps)
  then show ?thesis by (simp add: SPA_RESULT_IS_ERROR_def sint_less_0_iff_bit31)
qed

lemma is_async_return_async: "SPA_RESULT_IS_ASYNC (SPA_RESULT_RETURN_ASYNC seq)"
proof -
  have "(SPA_RESULT_ASYNC OR (seq AND 0x3fffffff)) AND 0xc0000000 = SPA_RESULT_ASYNC"
    by (rule bit_word_eqI) (auto simp: bit_simps bit_numeral_rec numeral_eq_Suc less_Suc_eq)
  then show ?thesis
    by (simp add: SPA_RESULT_IS_ASYNC_def SPA_RESULT_RETURN_ASYNC_def)
qed

lemma async_seq_return_async:
  "SPA_RESULT_ASYNC_SEQ (SPA_RESULT_RETURN_ASYNC seq) = seq AND 0x3fffffff"
  by (rule bit_word_eqI)
    (auto simp: SPA_RESULT_ASYNC_SEQ_def SPA_RESULT_RETURN_ASYNC_def bit_simps bit_numeral_rec
      numeral_eq_Suc less_Suc_eq)

lemma async_seq_not_invalid: "SPA_RESULT_ASYNC_SEQ res \<noteq> SPA_ID_INVALID"
proof
  assume "SPA_RESULT_ASYNC_SEQ res = SPA_ID_INVALID"
  then have "bit (SPA_RESULT_ASYNC_SEQ res) 31 \<longleftrightarrow> bit (SPA_ID_INVALID :: u32) 31" by simp
  then show False by (simp add: SPA_RESULT_ASYNC_SEQ_def bit_simps)
qed

section \<open>Memory blocks\<close>

definition mem_read :: "'a list \<Rightarrow> nat \<Rightarrow> nat \<Rightarrow> 'a list option" where
  "mem_read m off n = (if off + n \<le> length m then Some (take n (drop off m)) else None)"

definition mem_write :: "'a list \<Rightarrow> nat \<Rightarrow> 'a list \<Rightarrow> 'a list option" where
  "mem_write m off d =
     (if off + length d \<le> length m then Some (take off m @ d @ drop (off + length d) m) else None)"

lemma mem_write_length: "mem_write m off d = Some m' \<Longrightarrow> length m' = length m"
  by (auto simp: mem_write_def split: if_splits)

lemma mem_write_nth:
  assumes "mem_write m off d = Some m'" and "j < length m"
  shows "m' ! j = (if off \<le> j \<and> j < off + length d then d ! (j - off) else m ! j)"
  using assms by (auto simp: mem_write_def nth_append min_def split: if_splits)

lemma mem_read_write_same:
  "mem_write m off d = Some m' \<Longrightarrow> mem_read m' off (length d) = Some d"
  by (auto simp: mem_write_def mem_read_def split: if_splits)

lemma mem_read_write_disjoint:
  assumes w: "mem_write m off d = Some m'" and dis: "o' + n \<le> off \<or> off + length d \<le> o'"
  shows "mem_read m' o' n = mem_read m o' n"
proof (cases "o' + n \<le> length m")
  case True
  have "take n (drop o' m') = take n (drop o' m)"
    by (rule nth_equalityI)
      (use True dis in \<open>auto simp: mem_write_length [OF w] mem_write_nth [OF w]\<close>)
  then show ?thesis by (simp add: mem_read_def mem_write_length [OF w])
qed (simp add: mem_read_def mem_write_length [OF w])

text \<open>An \<^verbatim>\<open>int\<close> that is not negative keeps its value when it is widened.\<close>

lemma scast_small:
  assumes "unat (w :: u32) < 2 ^ 31"
  shows "(scast w :: u64) = ucast w"
proof -
  have "\<not> bit (unat w) 31" using assms by (simp add: bit_iff_odd)
  then have "\<not> bit w 31" by (simp add: bit_unsigned_iff)
  then have nb: "31 \<le> n \<Longrightarrow> \<not> bit w n" for n
    using bit_imp_le_length [of w n] by (cases "n = 31") auto
  show ?thesis by (rule bit_word_eqI) (use nb in \<open>auto simp: bit_simps min_def\<close>)
qed

lemma unat_scast_u64: "unat (w :: u32) < 2 ^ 31 \<Longrightarrow> unat (scast w :: u64) = unat w"
  by (simp add: scast_small unsigned_ucast_eq take_bit_nat_eq_self)

lemma unat_ucast_u64: "unat (ucast (w :: u32) :: u64) = unat w"
proof -
  have "unat w < 2 ^ 64" using unsigned_less [of w] by (rule less_le_trans) simp
  then show ?thesis by (simp add: unsigned_ucast_eq take_bit_nat_eq_self)
qed

section \<open>Running a partial operation over a list\<close>

primrec opt_fold :: "('a \<Rightarrow> 's \<Rightarrow> 's option) \<Rightarrow> 'a list \<Rightarrow> 's \<Rightarrow> 's option" where
  "opt_fold f [] s = Some s"
| "opt_fold f (x # xs) s = (case f x s of None \<Rightarrow> None | Some s' \<Rightarrow> opt_fold f xs s')"

lemma opt_fold_append:
  "opt_fold f (xs @ ys) s = (case opt_fold f xs s of None \<Rightarrow> None | Some s' \<Rightarrow> opt_fold f ys s')"
  by (induction xs arbitrary: s) (auto split: option.splits)

section \<open>Little-endian 32-bit fields\<close>

definition le32 :: "u32 \<Rightarrow> byte list" where
  "le32 w = [ucast w, ucast (drop_bit 8 w), ucast (drop_bit 16 w), ucast (drop_bit 24 w)]"

fun rd32 :: "byte list \<Rightarrow> u32" where
  "rd32 (a # b # c # d # _) =
     ucast a OR push_bit 8 (ucast b) OR push_bit 16 (ucast c) OR push_bit 24 (ucast d)"
| "rd32 _ = 0"

lemma length_le32 [simp]: "length (le32 w) = 4"
  by (simp add: le32_def)

lemma rd32_le32 [simp]: "rd32 (le32 w @ xs) = w"
proof -
  have "ucast (ucast w :: byte) OR push_bit 8 (ucast (ucast (drop_bit 8 w) :: byte)) OR
      push_bit 16 (ucast (ucast (drop_bit 16 w) :: byte)) OR
      push_bit 24 (ucast (ucast (drop_bit 24 w) :: byte)) = w"
  proof (rule bit_word_eqI, goal_cases)
    case (1 n)
    consider "n < 8" | "8 \<le> n \<and> n < 16" | "16 \<le> n \<and> n < 24" | "24 \<le> n" by linarith
    then show ?case using 1 by cases (auto simp: bit_simps)
  qed
  then show ?thesis by (simp add: le32_def)
qed

lemma rd32_take: "4 \<le> n \<Longrightarrow> rd32 (take n xs) = rd32 xs"
  by (cases xs rule: rd32.cases) (auto simp: take_Cons' numeral_eq_Suc)

section \<open>Masking with a power of two\<close>

lemma pow2_u32_exponent:
  assumes "unat (s :: u32) = 2 ^ k"
  shows "k < 32"
proof -
  have "unat s < 2 ^ 32" using unsigned_less [of s, where 'a = nat] by simp
  with assms have "(2 :: nat) ^ k < 2 ^ 32" by simp
  then show ?thesis by (rule power_less_imp_less_exp [rotated]) simp
qed

lemma unat_and_mask_pow2:
  assumes "unat (s :: u32) = 2 ^ k"
  shows "unat (w AND (s - 1)) = unat w mod unat s"
proof -
  have "s = 2 ^ k"
    using arg_cong [OF assms, of "of_nat :: nat \<Rightarrow> u32"] by simp
  then have "s - 1 = mask k" by (simp add: mask_eq_exp_minus_1)
  then have "w AND (s - 1) = take_bit k w" by (simp add: take_bit_eq_mask)
  then show ?thesis using assms by (simp add: unsigned_take_bit_eq take_bit_nat_def)
qed

lemma unat_add_mod_pow2:
  assumes "unat (s :: u32) = 2 ^ k"
  shows "unat (v + w :: u32) mod unat s = (unat v + unat w) mod unat s"
proof -
  have "k \<le> 32" using pow2_u32_exponent [OF assms] by simp
  then have "(2 :: nat) ^ k dvd 2 ^ 32" by (rule le_imp_power_dvd)
  then show ?thesis
    using assms by (simp add: unat_word_ariths mod_mod_cancel)
qed

section \<open>Rounding up\<close>

lemma and_not_mask_push_drop: "w AND NOT (mask k) = push_bit k (drop_bit k (w :: 'a::len word))"
  by (rule bit_word_eqI) (auto simp: bit_simps)

lemma unat_and_not_mask: "unat (w AND NOT (mask k) :: 'a::len word) = unat w div 2 ^ k * 2 ^ k"
proof -
  have "unat w div 2 ^ k * 2 ^ k \<le> unat w" by simp
  also have "\<dots> < 2 ^ LENGTH('a)" by (rule unsigned_less)
  finally have "take_bit LENGTH('a) (unat w div 2 ^ k * 2 ^ k) = unat w div 2 ^ k * 2 ^ k"
    by (rule take_bit_nat_eq_self)
  moreover have "unat (push_bit k (drop_bit k w)) = take_bit LENGTH('a) (push_bit k (drop_bit k (unat w)))"
    by (simp only: unsigned_push_bit_eq unsigned_drop_bit_eq) (simp add: take_bit_push_bit take_bit_nat_eq_self [OF unsigned_less])
  ultimately show ?thesis by (simp only: and_not_mask_push_drop push_bit_eq_mult drop_bit_eq_div)
qed

lemma unat_round_up:
  assumes "align = 2 ^ k" and "unat w + 2 ^ k \<le> 2 ^ LENGTH('a)"
  shows "unat (SPA_ROUND_UP_N (w :: 'a::len word) align) = (unat w + (2 ^ k - 1)) div 2 ^ k * 2 ^ k"
proof -
  have m: "align - 1 = mask k" using assms(1) by (simp add: mask_eq_exp_minus_1)
  have pos: "0 < (2 :: nat) ^ k" by simp
  then have k: "(2 :: nat) ^ k - 1 < 2 ^ LENGTH('a)" using assms(2) by linarith
  have "mask k = (of_nat (2 ^ k - 1) :: 'a word)" by (simp add: mask_eq_exp_minus_1 of_nat_diff)
  then have um: "unat (mask k :: 'a word) = 2 ^ k - 1" using k by (simp only: unat_of_nat mod_less)
  have "unat w + unat (mask k :: 'a word) < 2 ^ LENGTH('a)" using assms(2) um pos by linarith
  then have "unat (w + mask k) = unat w + (2 ^ k - 1)" using um by (subst unat_add_lem [THEN iffD1]) auto
  then show ?thesis by (simp add: SPA_ROUND_UP_N_def m unat_and_not_mask)
qed

end
