(* ===== verification/Spa_Ringbuffer.thy ===== *)
theory Spa_Ringbuffer
  imports Pinos_Prelude
begin

text \<open>
  The lock-free ring buffer of \<^verbatim>\<open>spa/include/spa/ringbuffer.h\<close>. The two indices are
  32-bit counters that run freely and wrap modulo \<open>2 ^ 32\<close>; the position in the data block is the
  index masked with \<open>size - 1\<close>. The data block is a separate argument of the copying operations, as
  in the code. The theory shows that, for a power-of-two size of at most \<open>2 ^ 30\<close>, the pair of
  descriptor and block is a bounded FIFO of bytes across every wrap of the indices and of the block
  (locale \<open>byte_fifo\<close> and its interpretation), and that a single writer and a single reader that
  interleave their index loads, copies and index stores in any order never lose, reorder or tear data.
\<close>

section \<open>The operations\<close>

record spa_ringbuffer =
  readindex :: u32
  writeindex :: u32
  rb_size :: u32
  rb_mask :: u32

definition spa_ringbuffer_init :: "spa_ringbuffer \<Rightarrow> u32 \<Rightarrow> spa_result \<times> spa_ringbuffer" where
  "spa_ringbuffer_init rbuf sz =
     (if sz AND (sz - 1) \<noteq> 0 then (SPA_RESULT_ERROR, rbuf)
      else (SPA_RESULT_OK,
            rbuf\<lparr>rb_size := sz, rb_mask := sz - 1, readindex := 0, writeindex := 0\<rparr>))"

definition spa_ringbuffer_clear :: "spa_ringbuffer \<Rightarrow> spa_ringbuffer" where
  "spa_ringbuffer_clear rbuf = rbuf\<lparr>readindex := 0, writeindex := 0\<rparr>"

definition spa_ringbuffer_get_read_index :: "spa_ringbuffer \<Rightarrow> u32 \<times> u32" where
  "spa_ringbuffer_get_read_index rbuf =
     (let index = readindex rbuf; avail = writeindex rbuf - index in (avail, index))"

definition spa_ringbuffer_read_data ::
  "spa_ringbuffer \<Rightarrow> 'a list \<Rightarrow> u32 \<Rightarrow> u32 \<Rightarrow> 'a list option" where
  "spa_ringbuffer_read_data rbuf buffer offset len =
     (let first = min len (rb_size rbuf - offset) in
      case mem_read buffer (unat offset) (unat first) of
        None \<Rightarrow> None
      | Some d1 \<Rightarrow>
          if len > first
          then (case mem_read buffer 0 (unat (len - first)) of
                  None \<Rightarrow> None
                | Some d2 \<Rightarrow> Some (d1 @ d2))
          else Some d1)"

definition spa_ringbuffer_read_update :: "spa_ringbuffer \<Rightarrow> u32 \<Rightarrow> spa_ringbuffer" where
  "spa_ringbuffer_read_update rbuf index = rbuf\<lparr>readindex := index\<rparr>"

definition spa_ringbuffer_get_write_index :: "spa_ringbuffer \<Rightarrow> u32 \<times> u32" where
  "spa_ringbuffer_get_write_index rbuf =
     (let index = writeindex rbuf; filled = index - readindex rbuf in (filled, index))"

definition spa_ringbuffer_write_data ::
  "spa_ringbuffer \<Rightarrow> 'a list \<Rightarrow> u32 \<Rightarrow> 'a list \<Rightarrow> u32 \<Rightarrow> 'a list option" where
  "spa_ringbuffer_write_data rbuf buffer offset data len =
     (let first = min len (rb_size rbuf - offset) in
      case mem_read data 0 (unat first) of
        None \<Rightarrow> None
      | Some d1 \<Rightarrow>
          (case mem_write buffer (unat offset) d1 of
             None \<Rightarrow> None
           | Some buffer1 \<Rightarrow>
               if len > first
               then (case mem_read data (unat first) (unat (len - first)) of
                       None \<Rightarrow> None
                     | Some d2 \<Rightarrow> mem_write buffer1 0 d2)
               else Some buffer1))"

definition spa_ringbuffer_write_update :: "spa_ringbuffer \<Rightarrow> u32 \<Rightarrow> spa_ringbuffer" where
  "spa_ringbuffer_write_update rbuf index = rbuf\<lparr>writeindex := index\<rparr>"

section \<open>Circular slices of a block\<close>

definition ring_slice :: "'a list \<Rightarrow> nat \<Rightarrow> nat \<Rightarrow> 'a list" where
  "ring_slice buf off n = map (\<lambda>i. buf ! ((off + i) mod length buf)) [0..<n]"

lemma length_ring_slice [simp]: "length (ring_slice buf off n) = n"
  by (simp add: ring_slice_def)

lemma ring_slice_0 [simp]: "ring_slice buf off 0 = []"
  by (simp add: ring_slice_def)

lemma nth_ring_slice [simp]:
  "i < n \<Longrightarrow> ring_slice buf off n ! i = buf ! ((off + i) mod length buf)"
  by (simp add: ring_slice_def)

lemma ring_slice_mod: "ring_slice buf (off mod length buf) n = ring_slice buf off n"
  by (simp add: ring_slice_def mod_add_left_eq)

lemma take_ring_slice: "m \<le> n \<Longrightarrow> take m (ring_slice buf off n) = ring_slice buf off m"
  by (simp add: ring_slice_def take_map)

lemma ring_slice_split:
  "ring_slice buf off (m + n) = ring_slice buf off m @ ring_slice buf (off + m) n"
  by (rule nth_equalityI) (auto simp: nth_append add.assoc)

lemma drop_ring_slice:
  "m \<le> n \<Longrightarrow> drop m (ring_slice buf off n) = ring_slice buf (off + m) (n - m)"
  using ring_slice_split [of buf off m "n - m"] by simp

lemma ring_slice_linear:
  assumes "off + n \<le> length buf"
  shows "ring_slice buf off n = take n (drop off buf)"
  using assms by (intro nth_equalityI) auto

text \<open>The two-part copy of the code reads a circular slice.\<close>

lemma ring_slice_two_parts:
  assumes "off < length buf" and "n \<le> length buf"
  shows "ring_slice buf off n =
    take (min n (length buf - off)) (drop off buf) @ take (n - min n (length buf - off)) buf"
proof (cases "off + n \<le> length buf")
  case True
  then show ?thesis using ring_slice_linear [OF True] by (simp add: min_def)
next
  case False
  define f where "f = length buf - off"
  have n: "n = f + (n - f)" and m: "min n f = f" and e: "off + f = length buf"
    using False assms by (auto simp: f_def)
  have "ring_slice buf off n = ring_slice buf off f @ ring_slice buf (off + f) (n - f)"
    using n ring_slice_split [of buf off f "n - f"] by simp
  also have "ring_slice buf (off + f) (n - f) = ring_slice buf 0 (n - f)"
    using ring_slice_mod [of buf "off + f"] e by simp
  also have "ring_slice buf 0 (n - f) = take (n - f) buf"
    using ring_slice_linear [of 0 "n - f" buf] assms by (simp add: f_def)
  also have "ring_slice buf off f = take f (drop off buf)"
    using ring_slice_linear [of off f buf] e by simp
  finally show ?thesis using m by (simp add: f_def [symmetric])
qed

text \<open>Storing a circular slice.\<close>

definition ring_store :: "'a list \<Rightarrow> nat \<Rightarrow> 'a list \<Rightarrow> 'a list" where
  "ring_store buf off d =
     (let f = min (length d) (length buf - off) in
      drop f d @ drop (length d - f) (take off buf) @ take f d @ drop (off + f) buf)"

lemma mod_add_small:
  assumes "(off::nat) < s" and "i < s"
  shows "(off + i) mod s = (if off + i < s then off + i else off + i - s)"
  using assms by (auto simp: mod_if)

lemma length_ring_store:
  "off < length buf \<Longrightarrow> length d \<le> length buf \<Longrightarrow> length (ring_store buf off d) = length buf"
  by (auto simp: ring_store_def Let_def min_def)

lemma ring_store_nth:
  assumes "off < length buf" and "length d \<le> length buf" and "i < length buf"
  shows "ring_store buf off d ! ((off + i) mod length buf) =
    (if i < length d then d ! i else buf ! ((off + i) mod length buf))"
proof (cases "length d \<le> length buf - off")
  case True
  then have "ring_store buf off d = take off buf @ d @ drop (off + length d) buf"
    by (simp add: ring_store_def Let_def)
  then show ?thesis
    using assms True by (cases "off + i < length buf") (auto simp: mod_add_small nth_append)
next
  case False
  define f where "f = length buf - off"
  have lb: "length buf = off + f" and f: "f < length d" using False assms by (auto simp: f_def)
  have "ring_store buf off d = drop f d @ drop (length d - f) (take off buf) @ take f d"
    using False by (simp add: ring_store_def Let_def f_def)
  then show ?thesis
    using assms f by (cases "i < f") (auto simp: mod_add_small nth_append lb)
qed

lemma ring_slice_store_same:
  assumes "off < length buf" and "length d \<le> length buf"
  shows "ring_slice (ring_store buf off d) off (length d) = d"
proof (rule nth_equalityI)
  fix i assume "i < length (ring_slice (ring_store buf off d) off (length d))"
  then show "ring_slice (ring_store buf off d) off (length d) ! i = d ! i"
    using assms ring_store_nth [OF assms, of i] by (simp add: length_ring_store)
qed simp

lemma ring_slice_store_before:
  assumes "off < length buf" and "length d + n \<le> length buf"
    and "off = (start + n) mod length buf"
  shows "ring_slice (ring_store buf off d) start n = ring_slice buf start n"
proof (rule nth_equalityI)
  define s where "s = length buf"
  fix i assume "i < length (ring_slice (ring_store buf off d) start n)"
  then have i: "i < n" by simp
  define k where "k = s - n + i"
  have k: "k < s" "\<not> k < length d" using assms i by (auto simp: k_def s_def)
  have "(off + k) mod s = (start + n + k) mod s"
    using assms(3) by (simp add: s_def mod_add_left_eq)
  also have "start + n + k = (start + i) + s" using i assms(2) by (simp add: k_def s_def)
  finally have pos: "(off + k) mod s = (start + i) mod s" by simp
  have "ring_store buf off d ! ((off + k) mod s) = buf ! ((off + k) mod s)"
    using ring_store_nth [of off buf d k] assms k by (simp add: s_def)
  then show "ring_slice (ring_store buf off d) start n ! i = ring_slice buf start n ! i"
    using i assms pos by (simp add: length_ring_store s_def)
qed simp

section \<open>The ring as a bounded queue\<close>

type_synonym ring = "spa_ringbuffer \<times> byte list"

fun rb_wf :: "ring \<Rightarrow> bool" where
  "rb_wf (rb, buf) \<longleftrightarrow>
     (\<exists>k \<le> 30. unat (rb_size rb) = 2 ^ k) \<and> rb_mask rb = rb_size rb - 1 \<and>
     length buf = unat (rb_size rb) \<and> unat (writeindex rb - readindex rb) \<le> length buf"

fun rb_contents :: "ring \<Rightarrow> byte list" where
  "rb_contents (rb, buf) =
     ring_slice buf (unat (readindex rb)) (unat (writeindex rb - readindex rb))"

fun rb_capacity :: "ring \<Rightarrow> nat" where
  "rb_capacity (rb, buf) = unat (rb_size rb)"

text \<open>A writer that appends a message, and a reader that looks at the first bytes and then drops
  them, exactly in the order of calls the code makes.\<close>

fun rb_put :: "byte list \<Rightarrow> ring \<Rightarrow> ring option" where
  "rb_put d (rb, buf) =
     (let (filled, index) = spa_ringbuffer_get_write_index rb in
      case spa_ringbuffer_write_data rb buf (index AND rb_mask rb) d (of_nat (length d)) of
        None \<Rightarrow> None
      | Some buf' \<Rightarrow> Some (spa_ringbuffer_write_update rb (index + of_nat (length d)), buf'))"

fun rb_peek :: "nat \<Rightarrow> ring \<Rightarrow> byte list option" where
  "rb_peek n (rb, buf) =
     (let (avail, index) = spa_ringbuffer_get_read_index rb in
      spa_ringbuffer_read_data rb buf (index AND rb_mask rb) (of_nat n))"

fun rb_skip :: "nat \<Rightarrow> ring \<Rightarrow> ring" where
  "rb_skip n (rb, buf) =
     (let (avail, index) = spa_ringbuffer_get_read_index rb in
      (spa_ringbuffer_read_update rb (index + of_nat n), buf))"

lemma pow2_le_30: "k \<le> 30 \<Longrightarrow> (2::nat) ^ k \<le> 1073741824"
  using power_increasing [of k 30 "2::nat"] by simp

lemma unat_u32_of_nat: "n < 4294967296 \<Longrightarrow> unat (of_nat n :: u32) = n"
  by (simp add: unat_of_nat)

lemma unat_u32_diff: "unat (v :: u32) \<le> unat w \<Longrightarrow> unat (w - v) = unat w - unat v"
  by (rule unat_sub) (simp add: word_le_nat_alt)

lemma first_part:
  assumes "unat (rb_size rb) = length buf" and "unat off < length buf"
  shows "unat (min len (rb_size rb - off)) = min (unat len) (length buf - unat off)"
    and "unat (len - min len (rb_size rb - off)) = unat len - min (unat len) (length buf - unat off)"
    and "min len (rb_size rb - off) < len \<longleftrightarrow> length buf - unat off < unat len"
proof -
  have d: "unat (rb_size rb - off) = length buf - unat off"
    using assms by (simp add: unat_u32_diff)
  show f: "unat (min len (rb_size rb - off)) = min (unat len) (length buf - unat off)"
    by (metis d min_def word_le_nat_alt)
  then show "unat (len - min len (rb_size rb - off)) =
      unat len - min (unat len) (length buf - unat off)"
    by (subst unat_u32_diff) simp_all
  show "min len (rb_size rb - off) < len \<longleftrightarrow> length buf - unat off < unat len"
    unfolding word_less_nat_alt f by auto
qed

lemma read_data_slice:
  assumes sz: "unat (rb_size rb) = length buf" and off: "unat off < length buf"
    and len: "unat len \<le> length buf"
  shows "spa_ringbuffer_read_data rb buf off len = Some (ring_slice buf (unat off) (unat len))"
proof (cases "length buf - unat off < unat len")
  case True
  then show ?thesis
    using assms ring_slice_two_parts [OF off len]
    by (simp add: spa_ringbuffer_read_data_def Let_def mem_read_def first_part [OF sz off])
next
  case False
  then show ?thesis
    using assms ring_slice_two_parts [OF off len]
    by (simp add: spa_ringbuffer_read_data_def Let_def mem_read_def first_part [OF sz off])
qed

lemma write_data_store:
  assumes sz: "unat (rb_size rb) = length buf" and off: "unat off < length buf"
    and len: "unat len = length d" and d: "length d \<le> length buf"
  shows "spa_ringbuffer_write_data rb buf off d len = Some (ring_store buf (unat off) d)"
proof (cases "length buf - unat off < length d")
  case True
  then have m: "min (length d) (length buf - unat off) = length buf - unat off" by simp
  have "length d + unat off - length buf = length d - (length buf - unat off)" using off by simp
  then show ?thesis
    using assms True
    by (simp add: spa_ringbuffer_write_data_def Let_def mem_read_def mem_write_def ring_store_def
        first_part [OF sz off] m)
next
  case False
  then have "min (length d) (length buf - unat off) = length d" by simp
  then show ?thesis
    using assms False
    by (simp add: spa_ringbuffer_write_data_def Let_def mem_read_def mem_write_def ring_store_def
        first_part [OF sz off])
qed

text \<open>Creating a ring: only a power of two is accepted, and the fresh ring is empty.\<close>

lemma init_rejects: "sz AND (sz - 1) \<noteq> 0 \<Longrightarrow> spa_ringbuffer_init rb sz = (SPA_RESULT_ERROR, rb)"
  by (simp add: spa_ringbuffer_init_def)

lemma pow2_and_pred: "unat (sz :: u32) = 2 ^ k \<Longrightarrow> sz AND (sz - 1) = 0"
  using unat_and_mask_pow2 [of sz k sz] by (simp add: unat_eq_0)

lemma init_wf:
  assumes "unat sz = 2 ^ k" and "k \<le> 30" and "length buf = unat sz"
  shows "\<exists>rb'. spa_ringbuffer_init rb sz = (SPA_RESULT_OK, rb') \<and> rb_wf (rb', buf) \<and>
    rb_contents (rb', buf) = [] \<and> rb_capacity (rb', buf) = unat sz"
  using assms pow2_and_pred [OF assms(1)] by (auto simp: spa_ringbuffer_init_def)

lemma rb_wf_pow2:
  assumes "rb_wf (rb, buf)"
  obtains k where "k \<le> 30" "unat (rb_size rb) = 2 ^ k" "length buf = 2 ^ k" "length buf \<le> 1073741824"
    "0 < length buf"
  using assms pow2_le_30 by auto

lemma masked_index:
  assumes "rb_wf (rb, buf)"
  shows "unat (index AND rb_mask rb) = unat index mod length buf"
    and "unat (index AND rb_mask rb) < length buf"
  using assms unat_and_mask_pow2 by (auto simp: rb_wf_pow2)

lemma write_position:
  assumes "rb_wf (rb, buf)"
  shows "unat (writeindex rb) mod length buf =
    (unat (readindex rb) + unat (writeindex rb - readindex rb)) mod length buf"
proof -
  obtain k where "unat (rb_size rb) = 2 ^ k" using assms by auto
  from unat_add_mod_pow2 [OF this, of "readindex rb" "writeindex rb - readindex rb"]
  show ?thesis using assms by simp
qed

lemma advance_write:
  assumes "unat (w - r :: u32) + n \<le> 1073741824"
  shows "unat (w + of_nat n - r) = unat (w - r) + n"
proof -
  have "w + of_nat n - r = (w - r) + of_nat n" by simp
  also have "unat \<dots> = unat (w - r) + n"
    using assms by (subst unat_add_lem [THEN iffD1]) (simp_all add: unat_u32_of_nat)
  finally show ?thesis .
qed

lemma advance_read:
  assumes "n \<le> unat (w - r :: u32)"
  shows "unat (w - (r + of_nat n)) = unat (w - r) - n"
proof -
  have n: "unat (of_nat n :: u32) = n"
    using assms unsigned_less [of "w - r", where 'a = nat] by (simp add: unat_u32_of_nat)
  have "w - (r + of_nat n) = (w - r) - of_nat n" by simp
  also have "unat \<dots> = unat (w - r) - n"
    using assms n by (subst unat_u32_diff) simp_all
  finally show ?thesis .
qed

lemma rb_put_ok:
  assumes wf: "rb_wf (rb, buf)"
    and room: "length (rb_contents (rb, buf)) + length d \<le> rb_capacity (rb, buf)"
  shows "\<exists>s'. rb_put d (rb, buf) = Some s' \<and> rb_wf s' \<and>
    rb_contents s' = rb_contents (rb, buf) @ d \<and> rb_capacity s' = rb_capacity (rb, buf)"
proof -
  let ?off = "writeindex rb AND rb_mask rb" and ?fill = "unat (writeindex rb - readindex rb)"
  obtain k where k: "length buf = 2 ^ k" "length buf \<le> 1073741824" using wf by (rule rb_wf_pow2)
  have sz: "unat (rb_size rb) = length buf" using wf by simp
  have fit: "?fill + length d \<le> length buf" using room sz by simp
  note off = masked_index [OF wf, of "writeindex rb"]
  have pos: "unat ?off = (unat (readindex rb) + ?fill) mod length buf"
    using off write_position [OF wf] by simp
  have len: "unat (of_nat (length d) :: u32) = length d"
    using fit k by (intro unat_u32_of_nat) simp
  let ?buf = "ring_store buf (unat ?off) d"
  have lb: "length ?buf = length buf" using off fit by (simp add: length_ring_store)
  have fill': "unat (writeindex rb + of_nat (length d) - readindex rb) = ?fill + length d"
    using fit k by (intro advance_write) simp
  have "rb_put d (rb, buf) = Some (rb\<lparr>writeindex := writeindex rb + of_nat (length d)\<rparr>, ?buf)"
    using write_data_store [OF sz off(2) len] fit
    by (simp add: Let_def spa_ringbuffer_get_write_index_def spa_ringbuffer_write_update_def)
  moreover have "ring_slice ?buf (unat (readindex rb)) (?fill + length d) =
      rb_contents (rb, buf) @ d"
  proof -
    have "ring_slice ?buf (unat (readindex rb) + ?fill) (length d) = ring_slice ?buf (unat ?off) (length d)"
      using ring_slice_mod [of ?buf "unat (readindex rb) + ?fill"] pos lb by simp
    also have "\<dots> = d" using off fit by (intro ring_slice_store_same) auto
    finally show ?thesis
      using ring_slice_store_before [of "unat ?off" buf d ?fill "unat (readindex rb)"] off fit pos
      by (simp add: ring_slice_split)
  qed
  ultimately show ?thesis using wf fit lb fill' by auto
qed

lemma rb_peek_ok:
  assumes wf: "rb_wf (rb, buf)" and n: "n \<le> length (rb_contents (rb, buf))"
  shows "rb_peek n (rb, buf) = Some (take n (rb_contents (rb, buf)))"
proof -
  obtain k where k: "length buf = 2 ^ k" "length buf \<le> 1073741824" using wf by (rule rb_wf_pow2)
  have sz: "unat (rb_size rb) = length buf" using wf by simp
  have len: "unat (of_nat n :: u32) = n" using wf n k by (intro unat_u32_of_nat) simp
  show ?thesis
    using read_data_slice [OF sz masked_index(2) [OF wf], of "of_nat n" "readindex rb"] n wf len
    by (simp add: Let_def spa_ringbuffer_get_read_index_def masked_index(1) [OF wf] ring_slice_mod
        take_ring_slice)
qed

lemma rb_skip_ok:
  assumes wf: "rb_wf (rb, buf)" and n: "n \<le> length (rb_contents (rb, buf))"
  shows "rb_wf (rb_skip n (rb, buf)) \<and>
    rb_contents (rb_skip n (rb, buf)) = drop n (rb_contents (rb, buf)) \<and>
    rb_capacity (rb_skip n (rb, buf)) = rb_capacity (rb, buf)"
proof -
  have n': "n \<le> unat (writeindex rb - readindex rb)" using n by simp
  obtain k where k: "unat (rb_size rb) = 2 ^ k" "length buf = 2 ^ k" using wf by (rule rb_wf_pow2)
  have "unat (of_nat n :: u32) = n"
    using n' unsigned_less [of "writeindex rb - readindex rb", where 'a = nat]
    by (simp add: unat_u32_of_nat)
  then have "unat (readindex rb + of_nat n) mod length buf = (unat (readindex rb) + n) mod length buf"
    using unat_add_mod_pow2 [OF k(1), of "readindex rb" "of_nat n"] k by simp
  then have "ring_slice buf (unat (readindex rb + of_nat n)) m = ring_slice buf (unat (readindex rb) + n) m" for m
    by (metis ring_slice_mod)
  then show ?thesis
    using wf advance_read [OF n'] n'
    by (auto simp: Let_def spa_ringbuffer_get_read_index_def spa_ringbuffer_read_update_def drop_ring_slice)
qed

section \<open>The interface: a bounded FIFO of bytes\<close>

locale byte_fifo =
  fixes wf :: "'s \<Rightarrow> bool"
    and contents :: "'s \<Rightarrow> byte list"
    and capacity :: "'s \<Rightarrow> nat"
    and put :: "byte list \<Rightarrow> 's \<Rightarrow> 's option"
    and peek :: "nat \<Rightarrow> 's \<Rightarrow> byte list option"
    and skip :: "nat \<Rightarrow> 's \<Rightarrow> 's"
  assumes bounded: "wf s \<Longrightarrow> length (contents s) \<le> capacity s"
    and put_ok: "wf s \<Longrightarrow> length (contents s) + length d \<le> capacity s \<Longrightarrow>
      \<exists>s'. put d s = Some s' \<and> wf s' \<and> contents s' = contents s @ d \<and> capacity s' = capacity s"
    and peek_ok: "wf s \<Longrightarrow> n \<le> length (contents s) \<Longrightarrow> peek n s = Some (take n (contents s))"
    and skip_ok: "wf s \<Longrightarrow> n \<le> length (contents s) \<Longrightarrow>
      wf (skip n s) \<and> contents (skip n s) = drop n (contents s) \<and> capacity (skip n s) = capacity s"
begin

lemma put_all:
  assumes "wf s" and "length (contents s) + length (concat ds) \<le> capacity s"
  shows "\<exists>s'. opt_fold put ds s = Some s' \<and> wf s' \<and> contents s' = contents s @ concat ds \<and>
    capacity s' = capacity s"
  using assms
proof (induction ds arbitrary: s)
  case (Cons d ds)
  then obtain s1 where "put d s = Some s1" "wf s1" "contents s1 = contents s @ d"
      "capacity s1 = capacity s"
    using put_ok [of s d] by auto
  with Cons show ?case using Cons.IH [of s1] by auto
qed simp

lemma peek_prefix:
  assumes "wf s" and "contents s = d @ rest" and "n \<le> length d"
  shows "peek n s = Some (take n d)"
  using assms peek_ok [of s n] by simp

lemma skip_prefix:
  assumes "wf s" and "contents s = d @ rest"
  shows "wf (skip (length d) s)" and "contents (skip (length d) s) = rest"
    and "capacity (skip (length d) s) = capacity s"
  using assms skip_ok [of s "length d"] by simp_all

end

interpretation ring: byte_fifo rb_wf rb_contents rb_capacity rb_put rb_peek rb_skip
proof
  fix s :: ring and d n
  obtain rb buf where [simp]: "s = (rb, buf)" by (cases s)
  assume wf: "rb_wf s"
  then show "length (rb_contents s) \<le> rb_capacity s" by auto
  show "length (rb_contents s) + length d \<le> rb_capacity s \<Longrightarrow>
      \<exists>s'. rb_put d s = Some s' \<and> rb_wf s' \<and> rb_contents s' = rb_contents s @ d \<and>
        rb_capacity s' = rb_capacity s"
    using rb_put_ok [of rb buf d] wf by simp
  show "n \<le> length (rb_contents s) \<Longrightarrow> rb_peek n s = Some (take n (rb_contents s))"
    using rb_peek_ok [of rb buf n] wf by simp
  show "n \<le> length (rb_contents s) \<Longrightarrow> rb_wf (rb_skip n s) \<and>
      rb_contents (rb_skip n s) = drop n (rb_contents s) \<and> rb_capacity (rb_skip n s) = rb_capacity s"
    using rb_skip_ok [of rb buf n] wf by simp
qed

section \<open>One writer and one reader, interleaved\<close>

text \<open>
  Each side works on the shared descriptor and block in three steps: it loads the indices, copies,
  and stores its own index. Between any two steps of one side the other may take any number of
  steps. \<open>sent\<close> and \<open>received\<close> are ghost histories: the bytes whose write index has been published
  and the bytes whose read index has been published.
\<close>

datatype writer_pc = W_idle | W_loaded u32 u32 | W_copied u32 "byte list"
datatype reader_pc = R_idle | R_loaded u32 u32 | R_copied u32 "byte list"

record rb_system =
  sys_rb :: spa_ringbuffer
  sys_block :: "byte list"
  sys_writer :: writer_pc
  sys_reader :: reader_pc
  sent :: "byte list"
  received :: "byte list"

inductive rb_step :: "rb_system \<Rightarrow> rb_system \<Rightarrow> bool" where
  writer_load:
    "sys_writer s = W_idle \<Longrightarrow> spa_ringbuffer_get_write_index (sys_rb s) = (filled, index) \<Longrightarrow>
     rb_step s (s\<lparr>sys_writer := W_loaded filled index\<rparr>)"
| writer_copy:
    "sys_writer s = W_loaded filled index \<Longrightarrow> length d < 2 ^ 32 \<Longrightarrow>
     of_nat (length d) \<le> rb_size (sys_rb s) - filled \<Longrightarrow>
     spa_ringbuffer_write_data (sys_rb s) (sys_block s) (index AND rb_mask (sys_rb s)) d
       (of_nat (length d)) = Some block' \<Longrightarrow>
     rb_step s (s\<lparr>sys_block := block', sys_writer := W_copied index d\<rparr>)"
| writer_publish:
    "sys_writer s = W_copied index d \<Longrightarrow>
     rb_step s (s\<lparr>sys_rb := spa_ringbuffer_write_update (sys_rb s) (index + of_nat (length d)),
                  sys_writer := W_idle, sent := sent s @ d\<rparr>)"
| reader_load:
    "sys_reader s = R_idle \<Longrightarrow> spa_ringbuffer_get_read_index (sys_rb s) = (avail, index) \<Longrightarrow>
     rb_step s (s\<lparr>sys_reader := R_loaded avail index\<rparr>)"
| reader_copy:
    "sys_reader s = R_loaded avail index \<Longrightarrow> len \<le> avail \<Longrightarrow>
     spa_ringbuffer_read_data (sys_rb s) (sys_block s) (index AND rb_mask (sys_rb s)) len = Some d \<Longrightarrow>
     rb_step s (s\<lparr>sys_reader := R_copied index d\<rparr>)"
| reader_publish:
    "sys_reader s = R_copied index d \<Longrightarrow>
     rb_step s (s\<lparr>sys_rb := spa_ringbuffer_read_update (sys_rb s) (index + of_nat (length d)),
                  sys_reader := R_idle, received := received s @ d\<rparr>)"

inductive rb_reachable :: "rb_system \<Rightarrow> bool" where
  start: "unat sz = 2 ^ k \<Longrightarrow> k \<le> 30 \<Longrightarrow> length block = unat sz \<Longrightarrow>
     spa_ringbuffer_init rb0 sz = (SPA_RESULT_OK, rb) \<Longrightarrow>
     rb_reachable \<lparr>sys_rb = rb, sys_block = block, sys_writer = W_idle, sys_reader = R_idle,
       sent = [], received = []\<rparr>"
| step: "rb_reachable s \<Longrightarrow> rb_step s t \<Longrightarrow> rb_reachable t"

definition sys_fill :: "rb_system \<Rightarrow> nat" where
  "sys_fill s = unat (writeindex (sys_rb s) - readindex (sys_rb s))"

definition writer_ok :: "rb_system \<Rightarrow> bool" where
  "writer_ok s \<longleftrightarrow> (case sys_writer s of
     W_idle \<Rightarrow> True
   | W_loaded filled index \<Rightarrow> index = writeindex (sys_rb s) \<and> sys_fill s \<le> unat filled \<and>
       unat filled \<le> length (sys_block s)
   | W_copied index d \<Rightarrow> index = writeindex (sys_rb s) \<and>
       sys_fill s + length d \<le> length (sys_block s) \<and>
       ring_slice (sys_block s) (unat index) (length d) = d)"

definition reader_ok :: "rb_system \<Rightarrow> bool" where
  "reader_ok s \<longleftrightarrow> (case sys_reader s of
     R_idle \<Rightarrow> True
   | R_loaded avail index \<Rightarrow> index = readindex (sys_rb s) \<and> unat avail \<le> sys_fill s
   | R_copied index d \<Rightarrow> index = readindex (sys_rb s) \<and> length d \<le> sys_fill s \<and>
       d = take (length d) (rb_contents (sys_rb s, sys_block s)))"

definition rb_system_inv :: "rb_system \<Rightarrow> bool" where
  "rb_system_inv s \<longleftrightarrow> rb_wf (sys_rb s, sys_block s) \<and>
     sent s = received s @ rb_contents (sys_rb s, sys_block s) \<and> writer_ok s \<and> reader_ok s"

lemma publish_write:
  assumes wf: "rb_wf (rb, buf)"
    and fit: "unat (writeindex rb - readindex rb) + length d \<le> length buf"
    and copied: "ring_slice buf (unat (writeindex rb)) (length d) = d"
  shows "rb_wf (spa_ringbuffer_write_update rb (writeindex rb + of_nat (length d)), buf) \<and>
    rb_contents (spa_ringbuffer_write_update rb (writeindex rb + of_nat (length d)), buf) =
      rb_contents (rb, buf) @ d"
proof -
  obtain k where k: "length buf \<le> 1073741824" using wf by (rule rb_wf_pow2)
  have fill: "unat (writeindex rb + of_nat (length d) - readindex rb) =
      unat (writeindex rb - readindex rb) + length d"
    using fit k by (intro advance_write) simp
  have "ring_slice buf (unat (readindex rb) + unat (writeindex rb - readindex rb)) (length d) = d"
    using copied write_position [OF wf] by (metis ring_slice_mod)
  then show ?thesis
    using wf fit fill by (auto simp: spa_ringbuffer_write_update_def ring_slice_split)
qed

lemma copy_write:
  assumes wf: "rb_wf (rb, buf)"
    and fit: "unat (writeindex rb - readindex rb) + length d \<le> length buf"
    and cp: "spa_ringbuffer_write_data rb buf (writeindex rb AND rb_mask rb) d (of_nat (length d)) =
      Some buf'"
  shows "rb_wf (rb, buf')" and "rb_contents (rb, buf') = rb_contents (rb, buf)"
    and "ring_slice buf' (unat (writeindex rb)) (length d) = d" and "length buf' = length buf"
proof -
  let ?off = "writeindex rb AND rb_mask rb"
  obtain k where k: "length buf \<le> 1073741824" using wf by (rule rb_wf_pow2)
  have sz: "unat (rb_size rb) = length buf" using wf by simp
  note off = masked_index [OF wf, of "writeindex rb"]
  have len: "unat (of_nat (length d) :: u32) = length d"
    using fit k by (intro unat_u32_of_nat) simp
  have buf': "buf' = ring_store buf (unat ?off) d"
    using cp write_data_store [OF sz off(2) len] fit by simp
  show lb: "length buf' = length buf" using off fit by (simp add: buf' length_ring_store)
  show "rb_wf (rb, buf')" using wf lb by simp
  have pos: "unat ?off = (unat (readindex rb) + unat (writeindex rb - readindex rb)) mod length buf"
    using off write_position [OF wf] by simp
  show "rb_contents (rb, buf') = rb_contents (rb, buf)"
    using ring_slice_store_before [OF off(2) _ pos, of d] fit by (simp add: buf')
  show "ring_slice buf' (unat (writeindex rb)) (length d) = d"
    using ring_slice_store_same [OF off(2), of d] fit off(1) lb
    by (metis add_leD2 buf' ring_slice_mod)
qed

lemma rb_step_inv: "rb_step s t \<Longrightarrow> rb_system_inv s \<Longrightarrow> rb_system_inv t"
proof (induction rule: rb_step.induct)
  case (writer_load s filled index)
  then show ?case
    by (auto simp: rb_system_inv_def writer_ok_def reader_ok_def sys_fill_def
        spa_ringbuffer_get_write_index_def Let_def split: reader_pc.splits)
next
  case (writer_copy s filled index d block')
  let ?rb = "sys_rb s" and ?buf = "sys_block s"
  have wf: "rb_wf (?rb, ?buf)" and idx: "index = writeindex ?rb"
    and lim: "sys_fill s \<le> unat filled" "unat filled \<le> length ?buf"
    using writer_copy by (auto simp: rb_system_inv_def writer_ok_def)
  have sz: "unat (rb_size ?rb) = length ?buf" using wf by simp
  have "length d \<le> unat (rb_size ?rb - filled)"
    using writer_copy.hyps(2,3) by (simp add: word_le_nat_alt unat_u32_of_nat)
  also have "\<dots> = length ?buf - unat filled" using lim sz by (simp add: unat_u32_diff)
  finally have fit: "unat (writeindex ?rb - readindex ?rb) + length d \<le> length ?buf"
    using lim by (simp add: sys_fill_def)
  note cp = copy_write [OF wf fit writer_copy.hyps(4) [unfolded idx]]
  show ?case
    using writer_copy.prems cp fit idx
    by (auto simp: rb_system_inv_def writer_ok_def reader_ok_def sys_fill_def
        split: reader_pc.splits)
next
  case (writer_publish s index d)
  let ?rb = "sys_rb s" and ?buf = "sys_block s"
  have wf: "rb_wf (?rb, ?buf)" and idx: "index = writeindex ?rb"
    and fit: "unat (writeindex ?rb - readindex ?rb) + length d \<le> length ?buf"
    and cp: "ring_slice ?buf (unat (writeindex ?rb)) (length d) = d"
    using writer_publish by (auto simp: rb_system_inv_def writer_ok_def sys_fill_def)
  obtain k where k: "length ?buf \<le> 1073741824" using wf by (rule rb_wf_pow2)
  have fill: "unat (writeindex ?rb + of_nat (length d) - readindex ?rb) =
      unat (writeindex ?rb - readindex ?rb) + length d"
    using fit k by (intro advance_write) simp
  show ?case
    using writer_publish.prems publish_write [OF wf fit cp] fill idx
    by (auto simp: rb_system_inv_def writer_ok_def reader_ok_def sys_fill_def
        spa_ringbuffer_write_update_def take_ring_slice split: reader_pc.splits)
next
  case (reader_load s avail index)
  then show ?case
    by (auto simp: rb_system_inv_def writer_ok_def reader_ok_def sys_fill_def
        spa_ringbuffer_get_read_index_def Let_def split: writer_pc.splits)
next
  case (reader_copy s avail index len d)
  let ?rb = "sys_rb s" and ?buf = "sys_block s"
  have wf: "rb_wf (?rb, ?buf)" and idx: "index = readindex ?rb"
    and n: "unat len \<le> length (rb_contents (?rb, ?buf))"
    using reader_copy by (auto simp: rb_system_inv_def reader_ok_def sys_fill_def word_le_nat_alt)
  have "d = take (unat len) (rb_contents (?rb, ?buf))"
    using rb_peek_ok [OF wf n] reader_copy.hyps(3) idx
    by (simp add: spa_ringbuffer_get_read_index_def Let_def)
  then show ?case
    using reader_copy.prems n idx
    by (auto simp: rb_system_inv_def writer_ok_def reader_ok_def sys_fill_def
        split: writer_pc.splits)
next
  case (reader_publish s index d)
  let ?rb = "sys_rb s" and ?buf = "sys_block s"
  have wf: "rb_wf (?rb, ?buf)" and idx: "index = readindex ?rb"
    and n: "length d \<le> length (rb_contents (?rb, ?buf))"
    and d: "d = take (length d) (rb_contents (?rb, ?buf))"
    using reader_publish by (auto simp: rb_system_inv_def reader_ok_def sys_fill_def)
  have upd: "rb_skip (length d) (?rb, ?buf) =
      (spa_ringbuffer_read_update ?rb (index + of_nat (length d)), ?buf)"
    by (simp add: idx spa_ringbuffer_get_read_index_def Let_def)
  note sk = rb_skip_ok [OF wf n, unfolded upd]
  have "rb_contents (?rb, ?buf) = d @ drop (length d) (rb_contents (?rb, ?buf))"
    using d by (metis append_take_drop_id)
  then have hist: "sent s = (received s @ d) @ drop (length d) (rb_contents (?rb, ?buf))"
    using reader_publish.prems by (simp add: rb_system_inv_def)
  have fill: "unat (writeindex ?rb - (index + of_nat (length d))) = sys_fill s - length d"
    using n idx by (simp add: advance_read sys_fill_def)
  show ?case
    using reader_publish.prems sk hist fill
    by (auto simp: rb_system_inv_def writer_ok_def reader_ok_def sys_fill_def
        spa_ringbuffer_read_update_def simp del: rb_contents.simps rb_wf.simps
        split: writer_pc.splits)
qed

lemma rb_reachable_inv: "rb_reachable s \<Longrightarrow> rb_system_inv s"
proof (induction rule: rb_reachable.induct)
  case (start sz k block rb0 rb)
  then show ?case
    using init_wf [of sz k block rb0]
    by (auto simp: rb_system_inv_def writer_ok_def reader_ok_def simp del: rb_wf.simps)
next
  case (step s t)
  then show ?case by (blast intro: rb_step_inv)
qed

section \<open>Properties\<close>

text \<open>C2. In every state that one writer and one reader can reach on a ring buffer of
  power-of-two size, by interleaving their index loads, copies and index stores in any order and for
  any number of wraps of the 32-bit indices, the bytes received are a prefix of the bytes sent, in
  order and unaltered, and the bytes still in flight never exceed the size of the buffer.\<close>

theorem rb_single_writer_single_reader_fifo:
  assumes "rb_reachable s"
  shows "\<exists>q. sent s = received s @ q \<and> length q \<le> unat (rb_size (sys_rb s))"
proof -
  have inv: "rb_system_inv s" using assms by (rule rb_reachable_inv)
  then have "length (rb_contents (sys_rb s, sys_block s)) \<le> rb_capacity (sys_rb s, sys_block s)"
    by (intro ring.bounded) (simp add: rb_system_inv_def)
  with inv show ?thesis by (auto simp: rb_system_inv_def)
qed

definition demo_ring :: spa_ringbuffer where
  "demo_ring = \<lparr>readindex = 0, writeindex = 0, rb_size = 4, rb_mask = 3\<rparr>"

definition demo_system :: rb_system where
  "demo_system = \<lparr>sys_rb = demo_ring\<lparr>writeindex := 3\<rparr>, sys_block = [7, 8, 9, 0],
     sys_writer = W_idle, sys_reader = R_copied 0 [7, 8], sent = [7, 8, 9], received = []\<rparr>"

lemma demo_system_reachable: "rb_reachable demo_system"
proof -
  let ?s0 = "\<lparr>sys_rb = demo_ring, sys_block = [0, 0, 0, 0], sys_writer = W_idle,
    sys_reader = R_idle, sent = [], received = []\<rparr>"
  have "rb_reachable ?s0"
    by (rule rb_reachable.start [where sz = 4 and k = 2 and rb0 = demo_ring])
      (simp_all add: spa_ringbuffer_init_def demo_ring_def)
  then have "rb_reachable (?s0\<lparr>sys_writer := W_loaded 0 0\<rparr>)"
    by (rule rb_reachable.step, intro rb_step.writer_load)
      (simp_all add: spa_ringbuffer_get_write_index_def demo_ring_def)
  then have "rb_reachable (?s0\<lparr>sys_writer := W_loaded 0 0, sys_block := [7, 8, 9, 0],
      sys_writer := W_copied 0 [7, 8, 9]\<rparr>)"
    by (rule rb_reachable.step, intro rb_step.writer_copy [where filled = 0])
      (simp_all add: spa_ringbuffer_write_data_def mem_read_def mem_write_def Let_def demo_ring_def)
  then have "rb_reachable (?s0\<lparr>sys_writer := W_loaded 0 0, sys_block := [7, 8, 9, 0],
      sys_writer := W_copied 0 [7, 8, 9], sys_reader := R_loaded 0 0, sys_reader := R_idle\<rparr>)"
    by simp
  then have "rb_reachable (?s0\<lparr>sys_block := [7, 8, 9, 0], sys_rb := demo_ring\<lparr>writeindex := 3\<rparr>,
      sent := [7, 8, 9]\<rparr>)" (is "rb_reachable ?s3")
    by (rule rb_reachable.step)
      (use rb_step.writer_publish [of "?s0\<lparr>sys_writer := W_copied 0 [7, 8, 9], sys_block := [7, 8, 9, 0]\<rparr>"
        0 "[7, 8, 9]"] in \<open>simp add: spa_ringbuffer_write_update_def demo_ring_def\<close>)
  then have "rb_reachable (?s3\<lparr>sys_reader := R_loaded 3 0\<rparr>)"
    by (rule rb_reachable.step, intro rb_step.reader_load)
      (simp_all add: spa_ringbuffer_get_read_index_def demo_ring_def)
  then have "rb_reachable (?s3\<lparr>sys_reader := R_loaded 3 0, sys_reader := R_copied 0 [7, 8]\<rparr>)"
    by (rule rb_reachable.step, intro rb_step.reader_copy [where avail = 3 and len = 2])
      (simp_all add: spa_ringbuffer_read_data_def mem_read_def Let_def demo_ring_def)
  then show ?thesis by (simp add: demo_system_def)
qed

theorem rb_single_writer_single_reader_fifo_witness:
  "rb_reachable demo_system \<and>
   (\<exists>q. sent demo_system = received demo_system @ q \<and> length q \<le> unat (rb_size (sys_rb demo_system)))"
  using demo_system_reachable rb_single_writer_single_reader_fifo [OF demo_system_reachable] by simp

text \<open>C14. The copying and index operations of the ring buffer together implement a bounded byte queue:
  when the free space suffices, writing any messages one after the other appends exactly their bytes to
  the queue, a reader that then peeks sees the oldest bytes, and advancing the read index by what was
  read drops exactly those bytes, whatever the position of the indices relative to the wrap-around.\<close>

theorem rb_queue_refinement:
  assumes "rb_wf s" and "length (rb_contents s) + length (concat ds) \<le> rb_capacity s"
    and "n \<le> length (rb_contents s @ concat ds)"
  shows "\<exists>s'. opt_fold rb_put ds s = Some s' \<and>
    rb_peek n s' = Some (take n (rb_contents s @ concat ds)) \<and>
    rb_contents (rb_skip n s') = drop n (rb_contents s @ concat ds) \<and> rb_wf (rb_skip n s')"
proof -
  obtain s' where s': "opt_fold rb_put ds s = Some s'" "rb_wf s'"
      "rb_contents s' = rb_contents s @ concat ds"
    using ring.put_all [OF assms(1,2)] by auto
  then show ?thesis
    using ring.peek_ok [of s' n] ring.skip_ok [of s' n] assms(3) by auto
qed

theorem rb_queue_refinement_witness:
  "\<exists>s'. opt_fold rb_put [[1, 2], [3]] (demo_ring\<lparr>readindex := 0xffffffff, writeindex := 0\<rparr>, [4, 4, 4, 9])
      = Some s' \<and> rb_peek 3 s' = Some [9, 1, 2] \<and> rb_contents (rb_skip 3 s') = [3] \<and>
    rb_wf (rb_skip 3 s')"
proof -
  let ?s = "(demo_ring\<lparr>readindex := 0xffffffff, writeindex := 0\<rparr>, [4, 4, 4, 9])"
  have "\<exists>k \<le> 30. (4 :: nat) = 2 ^ k" by (rule exI [of _ 2]) simp
  then have wf: "rb_wf ?s" by (simp add: demo_ring_def)
  have c: "rb_contents ?s = [9]" by (simp add: demo_ring_def ring_slice_def)
  have cap: "rb_capacity ?s = 4" by (simp add: demo_ring_def)
  show ?thesis
    using rb_queue_refinement [OF wf, of "[[1, 2], [3]]" 3, unfolded c cap]
    by (simp del: opt_fold.simps rb_put.simps rb_peek.simps rb_skip.simps rb_wf.simps
        rb_contents.simps)
qed

end
