(* ===== verification/Pinos_Transport.thy ===== *)
theory Pinos_Transport
  imports Spa_Ringbuffer
begin

text \<open>
  The client/server transport of \<^verbatim>\<open>pinos/client/transport.c\<close>: one shared block that holds
  the area header, the input and output port IO structures and two ring buffers with their data. The
  side that created the block sends events on the second ring and receives on the first; the side
  that maps the block from a \<^verbatim>\<open>PinosTransportInfo\<close> swaps the two. Pointers into the block
  are byte offsets; the block itself is a typed memory, one map per type of object stored in it
  (\<open>tm_area\<close>, \<open>tm_io\<close>, \<open>tm_rb\<close>, \<open>tm_data\<close>), which is sound because the layout computed by
  \<open>transport_setup_area\<close> is shown to keep the objects apart and inside the size computed by
  \<open>transport_area_get_size\<close>. Events are byte strings; their size is read from the first POD field.
\<close>

section \<open>Data\<close>

record transport_area =
  max_inputs :: u32
  n_inputs :: u32
  max_outputs :: u32
  n_outputs :: u32

record spa_port_io =
  io_status :: spa_result
  io_buffer_id :: u32
  io_range :: "u64 \<times> u32 \<times> u32"

record transport_mem =
  tm_area :: transport_area
  tm_io :: "nat \<Rightarrow> spa_port_io"
  tm_rb :: "nat \<Rightarrow> spa_ringbuffer"
  tm_data :: "nat \<Rightarrow> byte list"

record pinos_memblock =
  mb_fd :: int
  mb_offset :: nat
  mb_size :: nat

record transport_info =
  ti_memfd :: int
  ti_offset :: u32
  ti_size :: u32

record pinos_transport =
  tr_area :: nat
  tr_inputs :: nat
  tr_outputs :: nat
  input_buffer :: nat
  input_data :: nat
  output_buffer :: nat
  output_data :: nat
  tr_mem :: pinos_memblock
  tr_offset :: nat
  current :: "byte list"
  current_index :: u32

definition INPUT_BUFFER_SIZE :: nat where "INPUT_BUFFER_SIZE = 4096"
definition OUTPUT_BUFFER_SIZE :: nat where "OUTPUT_BUFFER_SIZE = 4096"

abbreviation (input) sizeof_PinosTransportArea :: nat where "sizeof_PinosTransportArea \<equiv> 16"
abbreviation (input) sizeof_SpaPortIO :: nat where "sizeof_SpaPortIO \<equiv> 24"
abbreviation (input) sizeof_SpaRingbuffer :: nat where "sizeof_SpaRingbuffer \<equiv> 16"
abbreviation (input) sizeof_SpaEvent :: nat where "sizeof_SpaEvent \<equiv> 16"

section \<open>Operations\<close>

definition transport_area_get_size :: "transport_area \<Rightarrow> nat" where
  "transport_area_get_size area =
     sizeof_PinosTransportArea + unat (max_inputs area) * sizeof_SpaPortIO +
     unat (max_outputs area) * sizeof_SpaPortIO + sizeof_SpaRingbuffer + INPUT_BUFFER_SIZE +
     sizeof_SpaRingbuffer + OUTPUT_BUFFER_SIZE"

definition transport_setup_area :: "nat \<Rightarrow> transport_mem \<Rightarrow> pinos_transport \<Rightarrow> pinos_transport" where
  "transport_setup_area p m tr =
     (let a = tm_area m;
          p1 = p + sizeof_PinosTransportArea;
          p2 = p1 + unat (max_inputs a) * sizeof_SpaPortIO;
          p3 = p2 + unat (max_outputs a) * sizeof_SpaPortIO;
          p4 = p3 + sizeof_SpaRingbuffer;
          p5 = p4 + INPUT_BUFFER_SIZE;
          p6 = p5 + sizeof_SpaRingbuffer
      in tr\<lparr>tr_area := p, tr_inputs := p1, tr_outputs := p2, input_buffer := p3,
               input_data := p4, output_buffer := p5, output_data := p6\<rparr>)"

definition reset_port_io :: "nat \<Rightarrow> nat \<Rightarrow> (nat \<Rightarrow> spa_port_io) \<Rightarrow> (nat \<Rightarrow> spa_port_io)" where
  "reset_port_io base n io =
     fold (\<lambda>i io. io(base + i * sizeof_SpaPortIO :=
             (io (base + i * sizeof_SpaPortIO))\<lparr>io_status := SPA_RESULT_OK,
               io_buffer_id := SPA_ID_INVALID\<rparr>)) [0..<n] io"

definition transport_reset_area :: "pinos_transport \<Rightarrow> transport_mem \<Rightarrow> transport_mem" where
  "transport_reset_area tr m =
     (let a = tm_area m;
          io1 = reset_port_io (tr_inputs tr) (unat (max_inputs a)) (tm_io m);
          io2 = reset_port_io (tr_outputs tr) (unat (max_outputs a)) io1;
          rb1 = (tm_rb m)(input_buffer tr :=
                  snd (spa_ringbuffer_init (tm_rb m (input_buffer tr)) (of_nat INPUT_BUFFER_SIZE)));
          rb2 = rb1(output_buffer tr :=
                  snd (spa_ringbuffer_init (rb1 (output_buffer tr)) (of_nat OUTPUT_BUFFER_SIZE)))
      in m\<lparr>tm_io := io2, tm_rb := rb2\<rparr>)"

text \<open>
  \<open>pinos_transport_new\<close>: \<open>impl\<close> is the zero-initialised structure or \<open>None\<close> when
  \<^verbatim>\<open>calloc\<close> fails; \<open>shm\<close> is what \<^verbatim>\<open>pinos_memblock_alloc\<close> delivers: the file
  descriptor and the mapped block, \<open>None\<close> when there is no block (its result is not checked, so the
  following copy is undefined). The inner option is the returned pointer.
\<close>

definition zero_transport :: pinos_transport where
  "zero_transport = \<lparr>tr_area = 0, tr_inputs = 0, tr_outputs = 0, input_buffer = 0, input_data = 0,
     output_buffer = 0, output_data = 0, tr_mem = \<lparr>mb_fd = 0, mb_offset = 0, mb_size = 0\<rparr>,
     tr_offset = 0, current = replicate sizeof_SpaEvent 0, current_index = 0\<rparr>"

definition pinos_transport_new ::
  "bool \<Rightarrow> (int \<times> transport_mem) option \<Rightarrow> u32 \<Rightarrow> u32 \<Rightarrow> (pinos_transport \<times> transport_mem) option option"
where
  "pinos_transport_new calloc_ok shm max_in max_out =
     (let area = \<lparr>max_inputs = max_in, n_inputs = 0, max_outputs = max_out, n_outputs = 0\<rparr> in
      if \<not> calloc_ok then Some None
      else case shm of
             None \<Rightarrow> None
           | Some (fd, m) \<Rightarrow>
               (let impl = zero_transport\<lparr>tr_offset := 0,
                      tr_mem := \<lparr>mb_fd = fd, mb_offset = 0, mb_size = transport_area_get_size area\<rparr>\<rparr>;
                    m1 = m\<lparr>tm_area := area\<rparr>;
                    tr = transport_setup_area 0 m1 impl;
                    m2 = transport_reset_area tr m1
                in Some (Some (tr, m2))))"

definition pinos_transport_new_from_info ::
  "bool \<Rightarrow> transport_mem option \<Rightarrow> transport_info \<Rightarrow> pinos_transport option" where
  "pinos_transport_new_from_info calloc_ok mapped info =
     (if \<not> calloc_ok then None
      else case mapped of
             None \<Rightarrow> None
           | Some m \<Rightarrow>
               (let impl = zero_transport\<lparr>tr_mem := \<lparr>mb_fd = ti_memfd info,
                      mb_offset = unat (ti_offset info), mb_size = unat (ti_size info)\<rparr>,
                      tr_offset := unat (ti_offset info)\<rparr>;
                    tr = transport_setup_area 0 m impl
                in Some (tr\<lparr>output_buffer := input_buffer tr, input_buffer := output_buffer tr,
                               output_data := input_data tr, input_data := output_data tr\<rparr>)))"

definition pinos_transport_get_info :: "pinos_transport \<Rightarrow> spa_result \<times> transport_info" where
  "pinos_transport_get_info tr =
     (SPA_RESULT_OK, \<lparr>ti_memfd = mb_fd (tr_mem tr), ti_offset = of_nat (tr_offset tr),
        ti_size = of_nat (mb_size (tr_mem tr))\<rparr>)"

definition SPA_POD_SIZE :: "byte list \<Rightarrow> u32" where
  "SPA_POD_SIZE pod = 8 + rd32 pod"

definition pinos_transport_add_event ::
  "pinos_transport option \<Rightarrow> byte list option \<Rightarrow> transport_mem \<Rightarrow> (spa_result \<times> transport_mem) option"
where
  "pinos_transport_add_event tr_p event_p m =
     (case (tr_p, event_p) of
        (Some tr, Some event) \<Rightarrow>
          (let rb = tm_rb m (output_buffer tr);
               (filled, index) = spa_ringbuffer_get_write_index rb;
               avail = rb_size rb - filled;
               sz = SPA_POD_SIZE event
           in if avail < sz then Some (SPA_RESULT_ERROR, m)
              else case spa_ringbuffer_write_data rb (tm_data m (output_data tr))
                          (index AND rb_mask rb) event sz of
                     None \<Rightarrow> None
                   | Some data' \<Rightarrow>
                       Some (SPA_RESULT_OK,
                         m\<lparr>tm_data := (tm_data m)(output_data tr := data'),
                           tm_rb := (tm_rb m)(output_buffer tr :=
                             spa_ringbuffer_write_update rb (index + sz))\<rparr>))
      | _ \<Rightarrow> Some (SPA_RESULT_INVALID_ARGUMENTS, m))"

text \<open>The comparison \<open>avail < sizeof (SpaEvent)\<close> converts the signed 32-bit count to the unsigned
  64-bit \<^verbatim>\<open>size_t\<close>.\<close>

definition pinos_transport_next_event ::
  "pinos_transport option \<Rightarrow> bool \<Rightarrow> transport_mem \<Rightarrow>
     (spa_result \<times> pinos_transport option \<times> byte list) option" where
  "pinos_transport_next_event tr_p event_nonnull m =
     (case tr_p of
        Some tr \<Rightarrow>
          if \<not> event_nonnull then Some (SPA_RESULT_INVALID_ARGUMENTS, tr_p, [])
          else
            (let rb = tm_rb m (input_buffer tr);
                 (avail, index) = spa_ringbuffer_get_read_index rb;
                 tr1 = tr\<lparr>current_index := index\<rparr>
             in if (scast avail :: u64) < of_nat sizeof_SpaEvent
                then Some (SPA_RESULT_ENUM_END, Some tr1, [])
                else case spa_ringbuffer_read_data rb (tm_data m (input_data tr1))
                            (current_index tr1 AND rb_mask rb) (of_nat sizeof_SpaEvent) of
                       None \<Rightarrow> None
                     | Some ev \<Rightarrow> Some (SPA_RESULT_OK, Some (tr1\<lparr>current := ev\<rparr>), ev))
      | None \<Rightarrow> Some (SPA_RESULT_INVALID_ARGUMENTS, None, []))"

definition pinos_transport_parse_event ::
  "pinos_transport option \<Rightarrow> bool \<Rightarrow> transport_mem \<Rightarrow> (spa_result \<times> transport_mem \<times> byte list) option"
where
  "pinos_transport_parse_event tr_p event_nonnull m =
     (case tr_p of
        Some tr \<Rightarrow>
          if \<not> event_nonnull then Some (SPA_RESULT_INVALID_ARGUMENTS, m, [])
          else
            (let rb = tm_rb m (input_buffer tr);
                 sz = SPA_POD_SIZE (current tr)
             in case spa_ringbuffer_read_data rb (tm_data m (input_data tr))
                       (current_index tr AND rb_mask rb) sz of
                  None \<Rightarrow> None
                | Some ev \<Rightarrow>
                    Some (SPA_RESULT_OK,
                      m\<lparr>tm_rb := (tm_rb m)(input_buffer tr :=
                          spa_ringbuffer_read_update rb (current_index tr + sz))\<rparr>, ev))
      | None \<Rightarrow> Some (SPA_RESULT_INVALID_ARGUMENTS, m, []))"

text \<open>The receive loop of \<^verbatim>\<open>on_rtsocket_condition\<close> in \<^verbatim>\<open>stream.c\<close> and of
  \<^verbatim>\<open>proxy_on_data_fd_events\<close> in \<^verbatim>\<open>client-node.c\<close>: events are taken until
  \<open>next_event\<close> stops returning OK. Each turn is one unit of fuel; the handled events are returned in
  order.\<close>

fun transport_drain ::
  "nat \<Rightarrow> pinos_transport \<Rightarrow> transport_mem \<Rightarrow> (byte list list \<times> pinos_transport \<times> transport_mem) option"
where
  "transport_drain 0 tr m = None"
| "transport_drain (Suc fuel) tr m =
     (case pinos_transport_next_event (Some tr) True m of
        Some (res, Some tr1, hd_ev) \<Rightarrow>
          if res = SPA_RESULT_OK
          then (case pinos_transport_parse_event (Some tr1) True m of
                  Some (_, m1, ev) \<Rightarrow>
                    (case transport_drain fuel tr1 m1 of
                       Some (evs, tr2, m2) \<Rightarrow> Some (ev # evs, tr2, m2)
                     | None \<Rightarrow> None)
                | None \<Rightarrow> None)
          else Some ([], tr1, m)
      | _ \<Rightarrow> None)"

section \<open>The rings as queues\<close>

definition out_ring :: "pinos_transport \<Rightarrow> transport_mem \<Rightarrow> ring" where
  "out_ring tr m = (tm_rb m (output_buffer tr), tm_data m (output_data tr))"

definition in_ring :: "pinos_transport \<Rightarrow> transport_mem \<Rightarrow> ring" where
  "in_ring tr m = (tm_rb m (input_buffer tr), tm_data m (input_data tr))"

text \<open>A complete event: at least the event header, and as long as its POD size field says.\<close>

definition event_ok :: "byte list \<Rightarrow> bool" where
  "event_ok ev \<longleftrightarrow> sizeof_SpaEvent \<le> length ev \<and> length ev < 2 ^ 32 \<and>
     length ev = 8 + unat (rd32 ev)"

lemma event_ok_size:
  assumes "event_ok ev"
  shows "unat (SPA_POD_SIZE ev) = length ev" and "SPA_POD_SIZE ev = of_nat (length ev)"
proof -
  have "unat (8 :: u32) + unat (rd32 ev) < 2 ^ LENGTH(32)" using assms by (simp add: event_ok_def)
  then have "unat (8 + rd32 ev) = 8 + unat (rd32 ev)"
    by (subst unat_add_lem [THEN iffD1]) simp_all
  then show *: "unat (SPA_POD_SIZE ev) = length ev" using assms by (simp add: SPA_POD_SIZE_def event_ok_def)
  then show "SPA_POD_SIZE ev = of_nat (length ev)" by (metis of_nat_unat unsigned_of_nat word_unat_eq_iff ucast_id)
qed

lemma SPA_POD_SIZE_take: "4 \<le> n \<Longrightarrow> SPA_POD_SIZE (take n ev) = SPA_POD_SIZE ev"
  by (simp add: SPA_POD_SIZE_def rd32_take)

lemma avail_small:
  assumes "rb_wf (rb, buf)"
  shows "(scast (writeindex rb - readindex rb) :: u64) < of_nat sizeof_SpaEvent \<longleftrightarrow>
    length (rb_contents (rb, buf)) < sizeof_SpaEvent"
proof -
  obtain k where "length buf \<le> 1073741824" using assms by (rule rb_wf_pow2)
  then have "unat (writeindex rb - readindex rb) < 2 ^ 31" using assms by auto
  then show ?thesis by (simp add: word_less_nat_alt unat_scast_u64)
qed

text \<open>Adding an event is one \<open>put\<close> on the outgoing ring when there is room, and an error that leaves
  the memory alone when there is not.\<close>

lemma add_event_room:
  assumes wf: "rb_wf (out_ring tr m)" and ev: "event_ok ev"
    and room: "length (rb_contents (out_ring tr m)) + length ev \<le> rb_capacity (out_ring tr m)"
  shows "\<exists>rb' data'. rb_put ev (out_ring tr m) = Some (rb', data') \<and>
    pinos_transport_add_event (Some tr) (Some ev) m =
      Some (SPA_RESULT_OK, m\<lparr>tm_data := (tm_data m)(output_data tr := data'),
        tm_rb := (tm_rb m)(output_buffer tr := rb')\<rparr>)"
proof -
  let ?rb = "tm_rb m (output_buffer tr)" and ?data = "tm_data m (output_data tr)"
  have fill: "unat (writeindex ?rb - readindex ?rb) \<le> unat (rb_size ?rb)"
    using wf by (simp add: out_ring_def)
  have "\<not> rb_size ?rb - (writeindex ?rb - readindex ?rb) < SPA_POD_SIZE ev"
    using room fill event_ok_size [OF ev]
    by (simp add: word_less_nat_alt unat_u32_diff out_ring_def)
  moreover obtain data' where "spa_ringbuffer_write_data ?rb ?data (writeindex ?rb AND rb_mask ?rb) ev
      (of_nat (length ev)) = Some data'"
    using ring.put_ok [OF wf room]
    by (auto simp: out_ring_def spa_ringbuffer_get_write_index_def Let_def split: option.splits)
  ultimately show ?thesis
    using event_ok_size [OF ev]
    by (simp add: pinos_transport_add_event_def out_ring_def Let_def
        spa_ringbuffer_get_write_index_def)
qed

lemma add_event_full:
  assumes wf: "rb_wf (out_ring tr m)" and ev: "event_ok ev"
    and full: "rb_capacity (out_ring tr m) < length (rb_contents (out_ring tr m)) + length ev"
  shows "pinos_transport_add_event (Some tr) (Some ev) m = Some (SPA_RESULT_ERROR, m)"
proof -
  let ?rb = "tm_rb m (output_buffer tr)"
  have fill: "unat (writeindex ?rb - readindex ?rb) \<le> unat (rb_size ?rb)"
    using wf by (simp add: out_ring_def)
  have "rb_size ?rb - (writeindex ?rb - readindex ?rb) < SPA_POD_SIZE ev"
    using full fill event_ok_size [OF ev]
    by (simp add: word_less_nat_alt unat_u32_diff out_ring_def)
  then show ?thesis
    by (simp add: pinos_transport_add_event_def Let_def spa_ringbuffer_get_write_index_def)
qed

lemma next_event_empty:
  assumes wf: "rb_wf (in_ring tr m)" and few: "length (rb_contents (in_ring tr m)) < sizeof_SpaEvent"
  shows "pinos_transport_next_event (Some tr) True m =
    Some (SPA_RESULT_ENUM_END,
      Some (tr\<lparr>current_index := readindex (tm_rb m (input_buffer tr))\<rparr>), [])"
  using few avail_small [OF wf [unfolded in_ring_def]]
  by (simp add: pinos_transport_next_event_def in_ring_def Let_def spa_ringbuffer_get_read_index_def)

lemma next_event_some:
  assumes wf: "rb_wf (in_ring tr m)" and c: "rb_contents (in_ring tr m) = ev @ rest"
    and ev: "event_ok ev"
  shows "pinos_transport_next_event (Some tr) True m =
    Some (SPA_RESULT_OK,
      Some (tr\<lparr>current_index := readindex (tm_rb m (input_buffer tr)),
               current := take sizeof_SpaEvent ev\<rparr>), take sizeof_SpaEvent ev)"
proof -
  have n: "sizeof_SpaEvent \<le> length ev" using ev by (simp add: event_ok_def)
  have "rb_peek sizeof_SpaEvent (in_ring tr m) = Some (take sizeof_SpaEvent ev)"
    using ring.peek_prefix [OF wf c n] .
  moreover have "\<not> length (rb_contents (in_ring tr m)) < sizeof_SpaEvent" using n c by simp
  ultimately show ?thesis
    using avail_small [OF wf [unfolded in_ring_def]]
    by (simp add: pinos_transport_next_event_def in_ring_def Let_def spa_ringbuffer_get_read_index_def)
qed

lemma parse_event_some:
  assumes wf: "rb_wf (in_ring tr m)" and c: "rb_contents (in_ring tr m) = ev @ rest"
    and ev: "event_ok ev" and idx: "current_index tr = readindex (tm_rb m (input_buffer tr))"
    and cur: "current tr = take sizeof_SpaEvent ev"
  shows "pinos_transport_parse_event (Some tr) True m =
    Some (SPA_RESULT_OK, m\<lparr>tm_rb := (tm_rb m)(input_buffer tr :=
        fst (rb_skip (length ev) (in_ring tr m)))\<rparr>, ev)"
proof -
  have "rb_peek (length ev) (in_ring tr m) = Some ev"
    using ring.peek_prefix [OF wf c, of "length ev"] by simp
  then show ?thesis
    using idx cur event_ok_size [OF ev]
    by (simp add: pinos_transport_parse_event_def in_ring_def Let_def SPA_POD_SIZE_take
        spa_ringbuffer_get_read_index_def)
qed

lemma in_ring_skip:
  "in_ring tr (m\<lparr>tm_rb := (tm_rb m)(input_buffer tr := fst (rb_skip n (in_ring tr m)))\<rparr>) =
     rb_skip n (in_ring tr m)"
  by (simp add: in_ring_def Let_def spa_ringbuffer_get_read_index_def)

lemma in_ring_cong [simp]:
  "in_ring (tr\<lparr>current_index := i\<rparr>) m = in_ring tr m" "in_ring (tr\<lparr>current := c\<rparr>) m = in_ring tr m"
  by (simp_all add: in_ring_def)

lemma drain_all:
  assumes "rb_wf (in_ring tr m)" and "rb_contents (in_ring tr m) = concat evs"
    and "\<forall>ev \<in> set evs. event_ok ev" and "length evs < fuel"
  shows "\<exists>tr' m'. transport_drain fuel tr m = Some (evs, tr', m') \<and>
    rb_contents (in_ring tr' m') = [] \<and> rb_wf (in_ring tr' m')"
  using assms
proof (induction evs arbitrary: fuel tr m)
  case Nil
  then obtain f where "fuel = Suc f" by (cases fuel) auto
  with Nil show ?case using next_event_empty [of tr m] by simp
next
  case (Cons ev evs)
  then obtain f where f: "fuel = Suc f" "length evs < f" by (cases fuel) auto
  have c: "rb_contents (in_ring tr m) = ev @ concat evs" and ok: "event_ok ev"
    using Cons.prems by simp_all
  let ?tr = "tr\<lparr>current_index := readindex (tm_rb m (input_buffer tr)),
    current := take sizeof_SpaEvent ev\<rparr>"
  let ?m = "m\<lparr>tm_rb := (tm_rb m)(input_buffer tr := fst (rb_skip (length ev) (in_ring tr m)))\<rparr>"
  have ring: "in_ring ?tr ?m = rb_skip (length ev) (in_ring tr m)" by (simp add: in_ring_skip)
  have "pinos_transport_parse_event (Some ?tr) True m = Some (SPA_RESULT_OK, ?m, ev)"
    using parse_event_some [of ?tr m ev "concat evs"] Cons.prems(1) c ok by simp
  moreover obtain tr' m' where "transport_drain f ?tr ?m = Some (evs, tr', m')"
      "rb_contents (in_ring tr' m') = []" "rb_wf (in_ring tr' m')"
    using Cons.IH [of ?tr ?m f] ring ring.skip_prefix [OF Cons.prems(1) c] Cons.prems(3) f
    by auto
  ultimately show ?case
    using next_event_some [OF Cons.prems(1) c ok] f by simp
qed

section \<open>Creation and the two ends\<close>

lemma reset_area_rings:
  assumes "input_buffer tr \<noteq> output_buffer tr"
    and "length (tm_data m (input_data tr)) = INPUT_BUFFER_SIZE"
    and "length (tm_data m (output_data tr)) = OUTPUT_BUFFER_SIZE"
  shows "rb_wf (in_ring tr (transport_reset_area tr m))"
    and "rb_wf (out_ring tr (transport_reset_area tr m))"
    and "rb_contents (in_ring tr (transport_reset_area tr m)) = []"
    and "rb_contents (out_ring tr (transport_reset_area tr m)) = []"
    and "rb_capacity (in_ring tr (transport_reset_area tr m)) = INPUT_BUFFER_SIZE"
    and "rb_capacity (out_ring tr (transport_reset_area tr m)) = OUTPUT_BUFFER_SIZE"
proof -
  have p: "unat (of_nat INPUT_BUFFER_SIZE :: u32) = 2 ^ 12"
      "unat (of_nat OUTPUT_BUFFER_SIZE :: u32) = 2 ^ 12"
    by (simp_all add: INPUT_BUFFER_SIZE_def OUTPUT_BUFFER_SIZE_def)
  have i: "\<exists>rb'. spa_ringbuffer_init rb (of_nat INPUT_BUFFER_SIZE) = (SPA_RESULT_OK, rb') \<and>
      rb_wf (rb', tm_data m (input_data tr)) \<and> rb_contents (rb', tm_data m (input_data tr)) = [] \<and>
      rb_capacity (rb', tm_data m (input_data tr)) = INPUT_BUFFER_SIZE" for rb
    using init_wf [OF p(1), of "tm_data m (input_data tr)" rb] assms(2) p
    by (simp add: INPUT_BUFFER_SIZE_def del: rb_wf.simps rb_contents.simps rb_capacity.simps)
  have o: "\<exists>rb'. spa_ringbuffer_init rb (of_nat OUTPUT_BUFFER_SIZE) = (SPA_RESULT_OK, rb') \<and>
      rb_wf (rb', tm_data m (output_data tr)) \<and> rb_contents (rb', tm_data m (output_data tr)) = [] \<and>
      rb_capacity (rb', tm_data m (output_data tr)) = OUTPUT_BUFFER_SIZE" for rb
    using init_wf [OF p(2), of "tm_data m (output_data tr)" rb] assms(3) p
    by (simp add: OUTPUT_BUFFER_SIZE_def del: rb_wf.simps rb_contents.simps rb_capacity.simps)
  note defs = in_ring_def out_ring_def transport_reset_area_def Let_def
  show "rb_wf (in_ring tr (transport_reset_area tr m))"
      "rb_contents (in_ring tr (transport_reset_area tr m)) = []"
      "rb_capacity (in_ring tr (transport_reset_area tr m)) = INPUT_BUFFER_SIZE"
    using i [of "tm_rb m (input_buffer tr)"] assms(1)
    by (auto simp: defs simp del: rb_wf.simps rb_contents.simps rb_capacity.simps)
  show "rb_wf (out_ring tr (transport_reset_area tr m))"
      "rb_contents (out_ring tr (transport_reset_area tr m)) = []"
      "rb_capacity (out_ring tr (transport_reset_area tr m)) = OUTPUT_BUFFER_SIZE"
    using o [of "tm_rb m (output_buffer tr)"] assms(1)
    by (auto simp: defs simp del: rb_wf.simps rb_contents.simps rb_capacity.simps)
qed

text \<open>The regions of the block, each with its length.\<close>

definition transport_regions :: "pinos_transport \<Rightarrow> transport_area \<Rightarrow> (nat \<times> nat) list" where
  "transport_regions tr a =
     [(tr_area tr, sizeof_PinosTransportArea),
      (tr_inputs tr, unat (max_inputs a) * sizeof_SpaPortIO),
      (tr_outputs tr, unat (max_outputs a) * sizeof_SpaPortIO),
      (input_buffer tr, sizeof_SpaRingbuffer), (input_data tr, INPUT_BUFFER_SIZE),
      (output_buffer tr, sizeof_SpaRingbuffer), (output_data tr, OUTPUT_BUFFER_SIZE)]"

definition region_before :: "nat \<times> nat \<Rightarrow> nat \<times> nat \<Rightarrow> bool" where
  "region_before r1 r2 \<longleftrightarrow> fst r1 + snd r1 \<le> fst r2"

text \<open>Sending on one end.\<close>

definition send_event :: "pinos_transport \<Rightarrow> byte list \<Rightarrow> transport_mem \<Rightarrow> transport_mem option" where
  "send_event tr ev m =
     (case pinos_transport_add_event (Some tr) (Some ev) m of
        Some (res, m') \<Rightarrow> if res = SPA_RESULT_OK then Some m' else None
      | None \<Rightarrow> None)"

lemma send_all:
  assumes "rb_wf (out_ring tr m)" and "\<forall>ev \<in> set evs. event_ok ev"
    and "length (rb_contents (out_ring tr m)) + length (concat evs) \<le> rb_capacity (out_ring tr m)"
  shows "\<exists>m'. opt_fold (send_event tr) evs m = Some m' \<and> rb_wf (out_ring tr m') \<and>
    rb_contents (out_ring tr m') = rb_contents (out_ring tr m) @ concat evs"
  using assms
proof (induction evs arbitrary: m)
  case (Cons ev evs)
  have room: "length (rb_contents (out_ring tr m)) + length ev \<le> rb_capacity (out_ring tr m)"
    and ok: "event_ok ev" using Cons.prems by auto
  obtain rb' data' where put: "rb_put ev (out_ring tr m) = Some (rb', data')"
    and add: "send_event tr ev m = Some (m\<lparr>tm_data := (tm_data m)(output_data tr := data'),
        tm_rb := (tm_rb m)(output_buffer tr := rb')\<rparr>)" (is "_ = Some ?m")
    using add_event_room [OF Cons.prems(1) ok room] by (auto simp: send_event_def)
  have o: "out_ring tr ?m = (rb', data')" by (simp add: out_ring_def)
  have "rb_wf (rb', data') \<and> rb_contents (rb', data') = rb_contents (out_ring tr m) @ ev \<and>
      rb_capacity (rb', data') = rb_capacity (out_ring tr m)"
    using ring.put_ok [OF Cons.prems(1) room] put by auto
  then show ?case using Cons.IH [of ?m] Cons.prems o add by auto
qed simp

lemma new_transport_ends:
  assumes new: "pinos_transport_new True (Some (fd, m0)) max_in max_out = Some (Some (server, m))"
    and info: "pinos_transport_new_from_info True (Some m) info = Some client"
    and data: "\<And>a. length (tm_data m0 a) = 4096"
  shows "in_ring client m' = out_ring server m'" and "out_ring client m' = in_ring server m'"
    and "rb_wf (in_ring server m)" and "rb_contents (in_ring server m) = []"
    and "rb_capacity (in_ring server m) = 4096"
    and "rb_wf (out_ring server m)" and "rb_contents (out_ring server m) = []"
    and "rb_capacity (out_ring server m) = 4096"
proof -
  let ?area = "\<lparr>max_inputs = max_in, n_inputs = 0, max_outputs = max_out, n_outputs = 0\<rparr>"
  let ?m1 = "m0\<lparr>tm_area := ?area\<rparr>"
  have m: "m = transport_reset_area server ?m1"
    and ends: "input_buffer server \<noteq> output_buffer server"
    using new by (auto simp: pinos_transport_new_def transport_setup_area_def Let_def)
  have area: "tm_area m = ?area" by (simp add: m transport_reset_area_def Let_def)
  have "input_buffer client = output_buffer server \<and> input_data client = output_data server \<and>
      output_buffer client = input_buffer server \<and> output_data client = input_data server"
    using new info area
    by (auto simp: pinos_transport_new_def pinos_transport_new_from_info_def
        transport_setup_area_def Let_def)
  then show "in_ring client m' = out_ring server m'" "out_ring client m' = in_ring server m'"
    by (simp_all add: in_ring_def out_ring_def)
  have d: "length (tm_data ?m1 (input_data server)) = INPUT_BUFFER_SIZE"
      "length (tm_data ?m1 (output_data server)) = OUTPUT_BUFFER_SIZE"
    using data by (simp_all add: INPUT_BUFFER_SIZE_def OUTPUT_BUFFER_SIZE_def)
  show "rb_wf (in_ring server m)" "rb_contents (in_ring server m) = []"
      "rb_capacity (in_ring server m) = 4096" "rb_wf (out_ring server m)"
      "rb_contents (out_ring server m) = []" "rb_capacity (out_ring server m) = 4096"
    using reset_area_rings [OF ends d]
    by (simp_all add: m INPUT_BUFFER_SIZE_def OUTPUT_BUFFER_SIZE_def)
qed

lemma send_then_drain:
  assumes peer: "\<And>m. in_ring receiver m = out_ring sender m"
    and wf: "rb_wf (out_ring sender m)" and empty: "rb_contents (out_ring sender m) = []"
    and cap: "rb_capacity (out_ring sender m) = 4096"
    and evs: "\<forall>ev \<in> set evs. event_ok ev" "length (concat evs) \<le> 4096"
  shows "\<exists>m1 tr' m2. opt_fold (send_event sender) evs m = Some m1 \<and>
    transport_drain (Suc (length evs)) receiver m1 = Some (evs, tr', m2)"
proof -
  obtain m1 where m1: "opt_fold (send_event sender) evs m = Some m1" "rb_wf (out_ring sender m1)"
      "rb_contents (out_ring sender m1) = concat evs"
    using send_all [OF wf evs(1)] evs(2) empty cap by auto
  then show ?thesis
    using drain_all [of receiver m1 evs "Suc (length evs)"] peer evs by auto
qed

section \<open>Properties\<close>

text \<open>C11. After a server creates a transport and a client maps it from the transport information,
  any sequence of complete events that fits the ring and that one end adds is taken out by the
  receive loop of the other end as exactly the same events in the same order, in both directions;
  the loop stops after one turn more than there are events.\<close>

theorem transport_events_roundtrip:
  assumes "pinos_transport_new True (Some (fd, m0)) max_in max_out = Some (Some (server, m))"
    and "pinos_transport_new_from_info True (Some m) info = Some client"
    and "\<And>a. length (tm_data m0 a) = 4096"
    and "\<forall>ev \<in> set evs. event_ok ev" and "length (concat evs) \<le> 4096"
  shows "(\<exists>m1 tr' m2. opt_fold (send_event server) evs m = Some m1 \<and>
      transport_drain (Suc (length evs)) client m1 = Some (evs, tr', m2)) \<and>
    (\<exists>m1 tr' m2. opt_fold (send_event client) evs m = Some m1 \<and>
      transport_drain (Suc (length evs)) server m1 = Some (evs, tr', m2))"
  using new_transport_ends [OF assms(1-3)] assms(4,5)
    send_then_drain [of client server m evs] send_then_drain [of server client m evs]
  by simp

definition demo_event :: "byte list" where
  "demo_event = le32 8 @ le32 16 @ le32 0 @ le32 77"

definition demo_mem :: transport_mem where
  "demo_mem = \<lparr>tm_area = \<lparr>max_inputs = 0, n_inputs = 0, max_outputs = 0, n_outputs = 0\<rparr>,
     tm_io = (\<lambda>_. \<lparr>io_status = 0, io_buffer_id = 0, io_range = (0, 0, 0)\<rparr>),
     tm_rb = (\<lambda>_. demo_ring), tm_data = (\<lambda>_. replicate 4096 0)\<rparr>"

lemma demo_event_ok: "event_ok demo_event"
  by (simp add: event_ok_def demo_event_def)

theorem transport_events_roundtrip_witness:
  "\<exists>server m client m1 tr' m2.
     pinos_transport_new True (Some (7, demo_mem)) 2 3 = Some (Some (server, m)) \<and>
     pinos_transport_new_from_info True (Some m) (snd (pinos_transport_get_info server)) = Some client \<and>
     opt_fold (send_event server) [demo_event, demo_event] m = Some m1 \<and>
     transport_drain 3 client m1 = Some ([demo_event, demo_event], tr', m2)"
proof -
  obtain server m where new: "pinos_transport_new True (Some (7, demo_mem)) 2 3 = Some (Some (server, m))"
    by (simp add: pinos_transport_new_def Let_def)
  obtain client where info: "pinos_transport_new_from_info True (Some m)
      (snd (pinos_transport_get_info server)) = Some client"
    by (simp add: pinos_transport_new_from_info_def Let_def)
  have len: "length demo_event = 16" by (simp add: demo_event_def)
  show ?thesis
    using transport_events_roundtrip [OF new info, of "[demo_event, demo_event]"] new info
      demo_event_ok len
    by (simp add: demo_mem_def numeral_eq_Suc del: transport_drain.simps opt_fold.simps)
qed

text \<open>An event that does not fit the free space of the outgoing ring is refused with
  \<open>SPA_RESULT_ERROR\<close> and nothing in the shared memory changes, so the events queued before it stay
  readable.\<close>

theorem transport_add_event_no_room:
  assumes "rb_wf (out_ring tr m)" and "event_ok ev"
    and "rb_capacity (out_ring tr m) < length (rb_contents (out_ring tr m)) + length ev"
  shows "pinos_transport_add_event (Some tr) (Some ev) m = Some (SPA_RESULT_ERROR, m)"
  using assms by (rule add_event_full)

definition demo_transport :: pinos_transport where
  "demo_transport = transport_setup_area 0 demo_mem zero_transport"

theorem transport_add_event_no_room_witness:
  "pinos_transport_add_event (Some demo_transport) (Some demo_event) (demo_mem\<lparr>tm_data := \<lambda>_. [0, 0, 0, 0]\<rparr>) =
     Some (SPA_RESULT_ERROR, demo_mem\<lparr>tm_data := \<lambda>_. [0, 0, 0, 0]\<rparr>)"
proof (rule transport_add_event_no_room)
  let ?m = "demo_mem\<lparr>tm_data := \<lambda>_. [0, 0, 0, 0]\<rparr>"
  have "\<exists>k \<le> 30. (4 :: nat) = 2 ^ k" by (rule exI [of _ 2]) simp
  then show "rb_wf (out_ring demo_transport ?m)"
    by (simp add: out_ring_def demo_mem_def demo_ring_def)
  show "event_ok demo_event" by (rule demo_event_ok)
  show "rb_capacity (out_ring demo_transport ?m) <
      length (rb_contents (out_ring demo_transport ?m)) + length demo_event"
    by (simp add: out_ring_def demo_mem_def demo_ring_def demo_event_def)
qed

text \<open>C21. The layout that \<open>transport_setup_area\<close> gives to the shared block keeps the header, the two
  IO arrays, both ring descriptors and both data areas pairwise disjoint (each one ends before the
  next begins) and inside the block, and together they fill
  exactly the number of bytes that \<open>transport_area_get_size\<close> requests.\<close>

theorem transport_layout:
  "let tr = transport_setup_area p m tr0; rs = transport_regions tr (tm_area m) in
     sorted_wrt region_before rs \<and>
     list_all (\<lambda>r. p \<le> fst r \<and> fst r + snd r \<le> p + transport_area_get_size (tm_area m)) rs \<and>
     sum_list (map snd rs) = transport_area_get_size (tm_area m)"
  by (simp add: transport_setup_area_def transport_regions_def Let_def transport_area_get_size_def
      region_before_def)

end
