(* ===== verification/Spa_Pod.thy ===== *)
theory Spa_Pod
  imports Pinos_Prelude
begin

text \<open>
  The serialised values of SPA: the builder of \<^verbatim>\<open>spa/include/spa/pod-builder.h\<close>, which writes
  headers, bodies and padding and patches the sizes of the enclosing containers, and the iterator of
  \<^verbatim>\<open>spa/include/spa/pod-iter.h\<close> with the collecting macro of
  \<^verbatim>\<open>spa/include/spa/pod-utils.h\<close>. Memory is a list of bytes in little-endian order. Sizes
  and offsets are 32-bit words, as in the structs. An access outside the memory is \<open>None\<close> in the builder
  and \<open>Fault\<close> in the reader, which is different from the failures the code reports itself.
\<close>

section \<open>Layout\<close>

abbreviation (input) SPA_POD_TYPE_NONE :: u32 where "SPA_POD_TYPE_NONE \<equiv> 1"
abbreviation (input) SPA_POD_TYPE_BOOL :: u32 where "SPA_POD_TYPE_BOOL \<equiv> 2"
abbreviation (input) SPA_POD_TYPE_ID :: u32 where "SPA_POD_TYPE_ID \<equiv> 3"
abbreviation (input) SPA_POD_TYPE_INT :: u32 where "SPA_POD_TYPE_INT \<equiv> 4"
abbreviation (input) SPA_POD_TYPE_LONG :: u32 where "SPA_POD_TYPE_LONG \<equiv> 5"
abbreviation (input) SPA_POD_TYPE_FLOAT :: u32 where "SPA_POD_TYPE_FLOAT \<equiv> 6"
abbreviation (input) SPA_POD_TYPE_DOUBLE :: u32 where "SPA_POD_TYPE_DOUBLE \<equiv> 7"
abbreviation (input) SPA_POD_TYPE_STRING :: u32 where "SPA_POD_TYPE_STRING \<equiv> 8"
abbreviation (input) SPA_POD_TYPE_BYTES :: u32 where "SPA_POD_TYPE_BYTES \<equiv> 9"
abbreviation (input) SPA_POD_TYPE_POINTER :: u32 where "SPA_POD_TYPE_POINTER \<equiv> 10"
abbreviation (input) SPA_POD_TYPE_RECTANGLE :: u32 where "SPA_POD_TYPE_RECTANGLE \<equiv> 11"
abbreviation (input) SPA_POD_TYPE_FRACTION :: u32 where "SPA_POD_TYPE_FRACTION \<equiv> 12"
abbreviation (input) SPA_POD_TYPE_BITMASK :: u32 where "SPA_POD_TYPE_BITMASK \<equiv> 13"
abbreviation (input) SPA_POD_TYPE_ARRAY :: u32 where "SPA_POD_TYPE_ARRAY \<equiv> 14"
abbreviation (input) SPA_POD_TYPE_STRUCT :: u32 where "SPA_POD_TYPE_STRUCT \<equiv> 15"
abbreviation (input) SPA_POD_TYPE_OBJECT :: u32 where "SPA_POD_TYPE_OBJECT \<equiv> 16"
abbreviation (input) SPA_POD_TYPE_PROP :: u32 where "SPA_POD_TYPE_PROP \<equiv> 17"
abbreviation (input) SPA_POD_TYPE_POD :: u32 where "SPA_POD_TYPE_POD \<equiv> 18"

type_synonym cstr = "byte list"

definition pod_header :: "u32 \<Rightarrow> u32 \<Rightarrow> byte list" where
  "pod_header sz type = le32 sz @ le32 type"

definition le64 :: "u64 \<Rightarrow> byte list" where
  "le64 w = le32 (ucast w) @ le32 (ucast (drop_bit 32 w))"

definition rd64 :: "byte list \<Rightarrow> u64" where
  "rd64 bs = ucast (rd32 bs) OR push_bit 32 (ucast (rd32 (drop 4 bs)))"

definition pod_padding :: "u32 \<Rightarrow> u32" where
  "pod_padding sz = SPA_ROUND_UP_N sz 8 - sz"

section \<open>The builder\<close>

record pod_frame =
  f_size :: u32
  f_type :: u32
  f_ref :: u32

text \<open>\<open>b_data\<close> is the memory written so far; \<open>b_write\<close> tells whether the builder has the callback
  \<^verbatim>\<open>write_pod\<close> of the native protocol or writes into a buffer of fixed size.\<close>

record spa_pod_builder =
  b_data :: "byte list"
  b_size :: u32
  b_offset :: u32
  b_stack :: "pod_frame list"
  b_write :: bool
  b_in_array :: bool
  b_first :: bool

definition put_bytes :: "byte list \<Rightarrow> u32 \<Rightarrow> byte list \<Rightarrow> u32 \<Rightarrow> byte list option" where
  "put_bytes mem ref bs cap =
     (if unat ref \<le> length mem \<and> unat ref + length bs \<le> unat cap
      then Some (take (unat ref) mem @ bs @ drop (unat ref + length bs) mem) else None)"

text \<open>The callback: it asks the connection for memory when the offset has reached the size it asked for
  before, and copies to the reference.\<close>

definition write_pod :: "spa_pod_builder \<Rightarrow> u32 \<Rightarrow> byte list \<Rightarrow> (u32 \<times> spa_pod_builder) option" where
  "write_pod b ref bs =
     (let ref' = (if ref = - 1 then b_offset b else ref);
          sz = (if b_size b \<le> b_offset b
                then SPA_ROUND_UP_N (b_offset b + of_nat (length bs)) 4096 else b_size b) in
      case put_bytes (b_data b) ref' bs sz of
        None \<Rightarrow> None
      | Some mem \<Rightarrow> Some (ref', b\<lparr>b_data := mem, b_size := sz\<rparr>))"

definition spa_pod_builder_raw :: "spa_pod_builder \<Rightarrow> byte list \<Rightarrow> (u32 \<times> spa_pod_builder) option" where
  "spa_pod_builder_raw b bs =
     (let n = of_nat (length bs) :: u32 in
      case (if b_write b then write_pod b (- 1) bs
            else if b_offset b + n > b_size b then Some (- 1, b)
            else map_option (\<lambda>mem. (b_offset b, b\<lparr>b_data := mem\<rparr>)) (put_bytes (b_data b) (b_offset b) bs (b_size b))) of
        None \<Rightarrow> None
      | Some (ref, b') \<Rightarrow>
          Some (ref, b'\<lparr>b_offset := b_offset b' + n,
                        b_stack := map (\<lambda>f. f\<lparr>f_size := f_size f + n\<rparr>) (b_stack b')\<rparr>))"

definition is_array_type :: "u32 \<Rightarrow> bool" where
  "is_array_type t \<longleftrightarrow> t = SPA_POD_TYPE_ARRAY \<or> t = SPA_POD_TYPE_PROP"

definition spa_pod_builder_push :: "spa_pod_builder \<Rightarrow> u32 \<Rightarrow> u32 \<Rightarrow> u32 \<Rightarrow> spa_pod_builder" where
  "spa_pod_builder_push b sz type ref =
     b\<lparr>b_stack := \<lparr>f_size = sz, f_type = type, f_ref = ref\<rparr> # b_stack b,
       b_in_array := is_array_type type, b_first := is_array_type type\<rparr>"

definition spa_pod_builder_pad :: "spa_pod_builder \<Rightarrow> u32 \<Rightarrow> spa_pod_builder option" where
  "spa_pod_builder_pad b sz =
     (let n = pod_padding sz in
      if n = 0 then Some b else map_option snd (spa_pod_builder_raw b (replicate (unat n) 0)))"

definition spa_pod_builder_pop :: "spa_pod_builder \<Rightarrow> spa_pod_builder option" where
  "spa_pod_builder_pop b =
     (case b_stack b of
        [] \<Rightarrow> None
      | f # fs \<Rightarrow>
          (case (if f_ref f = - 1 then Some b
                 else if b_write b then map_option snd (write_pod b (f_ref f) (pod_header (f_size f) (f_type f)))
                 else map_option (\<lambda>mem. b\<lparr>b_data := mem\<rparr>)
                        (put_bytes (b_data b) (f_ref f) (pod_header (f_size f) (f_type f)) (b_size b))) of
             None \<Rightarrow> None
           | Some b' \<Rightarrow>
               let b'' = b'\<lparr>b_stack := fs,
                            b_in_array := (case fs of [] \<Rightarrow> False | g # _ \<Rightarrow> is_array_type (f_type g))\<rparr> in
               spa_pod_builder_pad b'' (b_offset b'')))"

text \<open>The argument list of \<^verbatim>\<open>spa_pod_builder_add\<close>. Floating-point values are given by their bits; the padding
  inside a pointer body is not written by the code and is the first word of \<open>A_Pointer\<close>. \<open>A_Pop\<close> stands for the
  negated container types.\<close>

datatype pod_arg =
    A_None
  | A_Bool u32 | A_Id u32 | A_Int u32
  | A_Long u64
  | A_Float u32
  | A_Double u64
  | A_String "cstr option"
  | A_String_len "byte list"
  | A_Bytes "byte list"
  | A_Pointer u32 u32 u64
  | A_Rectangle u32 u32
  | A_Fraction u32 u32
  | A_Bitmask
  | A_Array
  | A_Struct
  | A_Object u32 u32
  | A_Prop u32 u32
  | A_Pop
  | A_Pod "byte list option"

text \<open>Header bytes, body bytes and whether a container is opened, by type.\<close>

fun arg_parts :: "pod_arg \<Rightarrow> (byte list \<times> byte list option \<times> bool) option" where
  "arg_parts (A_Bool v) = Some (pod_header 4 SPA_POD_TYPE_BOOL, Some (le32 v), False)"
| "arg_parts (A_Id v) = Some (pod_header 4 SPA_POD_TYPE_ID, Some (le32 v), False)"
| "arg_parts (A_Int v) = Some (pod_header 4 SPA_POD_TYPE_INT, Some (le32 v), False)"
| "arg_parts (A_Long v) = Some (pod_header 4 SPA_POD_TYPE_LONG, Some (take 4 (le64 v)), False)"
| "arg_parts (A_Float v) = Some (pod_header 4 SPA_POD_TYPE_FLOAT, Some (le32 v), False)"
| "arg_parts (A_Double v) = Some (pod_header 8 SPA_POD_TYPE_DOUBLE, Some (le64 v), False)"
| "arg_parts (A_String s) =
     (let body = (case s of Some str \<Rightarrow> str @ [0] | None \<Rightarrow> [0]) in
      Some (pod_header (of_nat (length body)) SPA_POD_TYPE_STRING, Some body, False))"
| "arg_parts (A_String_len bs) = Some (pod_header (of_nat (length bs)) SPA_POD_TYPE_STRING, Some bs, False)"
| "arg_parts (A_Bytes bs) = Some (pod_header (of_nat (length bs)) SPA_POD_TYPE_BYTES, Some bs, False)"
| "arg_parts (A_Pointer junk t v) = Some (pod_header 16 SPA_POD_TYPE_POINTER, Some (le32 t @ le32 junk @ le64 v), False)"
| "arg_parts (A_Rectangle w h) = Some (pod_header 8 SPA_POD_TYPE_RECTANGLE, Some (le32 w @ le32 h), False)"
| "arg_parts (A_Fraction n d) = Some (pod_header 8 SPA_POD_TYPE_FRACTION, Some (le32 n @ le32 d), False)"
| "arg_parts A_Array = Some (pod_header 0 SPA_POD_TYPE_ARRAY, None, True)"
| "arg_parts A_Struct = Some (pod_header 0 SPA_POD_TYPE_STRUCT, None, True)"
| "arg_parts (A_Object i t) = Some (pod_header 8 SPA_POD_TYPE_OBJECT @ le32 i @ le32 t, None, True)"
| "arg_parts (A_Prop key flags) = Some (pod_header 8 SPA_POD_TYPE_PROP @ le32 key @ le32 flags, None, True)"
| "arg_parts _ = None"

text \<open>The copying loop over the pieces; the container is pushed after the first one.\<close>

fun builder_pieces :: "byte list list \<Rightarrow> bool \<Rightarrow> spa_pod_builder \<Rightarrow> spa_pod_builder option" where
  "builder_pieces [] push b = Some b"
| "builder_pieces (p # ps) push b =
     (case spa_pod_builder_raw b p of
        None \<Rightarrow> None
      | Some (ref, b') \<Rightarrow>
          builder_pieces ps False
            (if push then spa_pod_builder_push b' (rd32 p) (rd32 (drop 4 p)) ref else b'))"

definition body_pieces :: "bool \<Rightarrow> byte list \<Rightarrow> byte list list" where
  "body_pieces in_array body =
     body # (if in_array then [] else [replicate (unat (pod_padding (of_nat (length body)))) 0])"

text \<open>From the label \<^verbatim>\<open>primitive\<close> on.\<close>

definition builder_primitive ::
  "byte list \<Rightarrow> byte list option \<Rightarrow> bool \<Rightarrow> spa_pod_builder \<Rightarrow> spa_pod_builder option" where
  "builder_primitive head body push b =
     (let with_head = (\<not> b_in_array b \<or> b_first b);
          b' = (if with_head then b\<lparr>b_first := False\<rparr> else b) in
      builder_pieces ((if with_head then [head] else []) @
        (case body of None \<Rightarrow> [] | Some bs \<Rightarrow> body_pieces (b_in_array b) bs)) push b')"

text \<open>The bytes of a value passed by pointer: \<^verbatim>\<open>SPA_POD_SIZE\<close> of them, a value of type none for the null pointer.\<close>

definition pod_bytes :: "byte list option \<Rightarrow> byte list option" where
  "pod_bytes p =
     (case p of
        None \<Rightarrow> Some (pod_header 0 SPA_POD_TYPE_NONE)
      | Some bs \<Rightarrow>
          if 8 \<le> length bs \<and> 8 + unat (rd32 bs) \<le> length bs then Some (take (8 + unat (rd32 bs)) bs) else None)"

definition spa_pod_builder_arg :: "pod_arg \<Rightarrow> spa_pod_builder \<Rightarrow> spa_pod_builder option" where
  "spa_pod_builder_arg a b =
     (case a of
        A_Pop \<Rightarrow> spa_pod_builder_pop b
      | A_Pod p \<Rightarrow>
          (case pod_bytes p of
             None \<Rightarrow> None
           | Some body \<Rightarrow> builder_pieces (body_pieces (b_in_array b) body) False b)
      | _ \<Rightarrow>
          (case arg_parts a of
             None \<Rightarrow> Some b
           | Some (head, body, push) \<Rightarrow> builder_primitive head body push b))"

definition spa_pod_builder_add :: "pod_arg list \<Rightarrow> spa_pod_builder \<Rightarrow> spa_pod_builder option" where
  "spa_pod_builder_add args b = opt_fold spa_pod_builder_arg args b"

definition spa_pod_builder_init :: "u32 \<Rightarrow> spa_pod_builder" where
  "spa_pod_builder_init sz = \<lparr>b_data = [], b_size = sz, b_offset = 0, b_stack = [], b_write = False,
     b_in_array = False, b_first = False\<rparr>"

text \<open>The initialiser \<^verbatim>\<open>{ { NULL, 0, 0, NULL, write_pod }, connection }\<close>.\<close>

definition native_builder :: spa_pod_builder where
  "native_builder = \<lparr>b_data = [], b_size = 0, b_offset = 0, b_stack = [], b_write = True,
     b_in_array = False, b_first = False\<rparr>"

section \<open>What the builder appends\<close>

definition b_append :: "spa_pod_builder \<Rightarrow> byte list \<Rightarrow> spa_pod_builder" where
  "b_append b bs = b\<lparr>b_data := b_data b @ bs, b_offset := b_offset b + of_nat (length bs),
     b_stack := map (\<lambda>f. f\<lparr>f_size := f_size f + of_nat (length bs)\<rparr>) (b_stack b)\<rparr>"

text \<open>A builder outside any array or property, aligned, with room for \<open>n\<close> more bytes and one to spare.\<close>

definition b_ready :: "spa_pod_builder \<Rightarrow> nat \<Rightarrow> bool" where
  "b_ready b n \<longleftrightarrow> unat (b_offset b) = length (b_data b) \<and> length (b_data b) + n < unat (b_size b) \<and>
     \<not> b_in_array b \<and> \<not> b_first b \<and> unat (b_size b) \<le> 2 ^ 31 \<and>
     list_all (\<lambda>f. \<not> is_array_type (f_type f)) (b_stack b)"

definition appends :: "pod_arg list \<Rightarrow> byte list \<Rightarrow> bool" where
  "appends args bs \<longleftrightarrow> 8 dvd length bs \<and>
     (\<forall>b. b_ready b (length bs) \<longrightarrow> 8 dvd length (b_data b) \<longrightarrow>
        spa_pod_builder_add args b = Some (b_append b bs))"

lemma b_append_nil [simp]: "b_append b [] = b"
  by (simp add: b_append_def)

lemma b_append_append: "b_append (b_append b xs) ys = b_append b (xs @ ys)"
  by (simp add: b_append_def add.assoc)

lemma ready_offset:
  assumes "b_ready b n" and "m \<le> n"
  shows "unat (b_offset b + of_nat m) = unat (b_offset b) + m"
proof -
  have "unat (b_offset b) + m < 2 ^ 31" using assms by (simp add: b_ready_def)
  then show ?thesis by (simp add: unat_word_ariths unat_of_nat)
qed

lemma ready_append:
  assumes "b_ready b n" and "length bs + m \<le> n"
  shows "b_ready (b_append b bs) m"
  using assms ready_offset [of b n "length bs"] by (auto simp: b_ready_def b_append_def list_all_iff)

lemma raw_ready:
  assumes "b_ready b n" and "length bs \<le> n"
  shows "spa_pod_builder_raw b bs = Some (b_offset b, b_append b bs)"
proof -
  have r: "unat (b_offset b) = length (b_data b)" "length (b_data b) + length bs < unat (b_size b)"
    using assms by (auto simp: b_ready_def)
  then have "\<not> b_size b \<le> b_offset b" by (simp add: word_le_nat_alt)
  moreover have "\<not> b_offset b + of_nat (length bs) > b_size b"
    using ready_offset [OF assms(1), of "length bs"] assms(2) r by (simp add: word_less_nat_alt)
  moreover have "put_bytes (b_data b) (b_offset b) bs (b_size b) = Some (b_data b @ bs)"
    using r by (simp add: put_bytes_def)
  ultimately show ?thesis
    by (simp add: spa_pod_builder_raw_def write_pod_def Let_def b_append_def)
qed

lemma pieces_ready:
  assumes "b_ready b (length (concat ps))"
  shows "builder_pieces ps False b = Some (b_append b (concat ps))"
  using assms
proof (induction ps arbitrary: b)
  case (Cons p ps)
  then have "spa_pod_builder_raw b p = Some (b_offset b, b_append b p)" by (intro raw_ready) auto
  then show ?case using Cons ready_append [of b _ p "length (concat ps)"] by (simp add: b_append_append)
qed simp

lemma appends_Nil: "appends [] []"
  by (simp add: appends_def spa_pod_builder_add_def)

lemma appends_append:
  assumes "appends as xs" and "appends bs ys"
  shows "appends (as @ bs) (xs @ ys)"
  unfolding appends_def
proof (intro conjI allI impI)
  show "8 dvd length (xs @ ys)" using assms by (simp add: appends_def)
  fix b assume r: "b_ready b (length (xs @ ys))" and al: "8 dvd length (b_data b)"
  have "b_ready b (length xs)" using ready_append [OF r, of "[]" "length xs"] by simp
  then have "spa_pod_builder_add as b = Some (b_append b xs)" using assms(1) al by (simp add: appends_def)
  moreover have "b_ready (b_append b xs) (length ys)" using ready_append [OF r] by simp
  moreover have "8 dvd length (b_data (b_append b xs))" using assms(1) al by (simp add: appends_def b_append_def)
  ultimately show "spa_pod_builder_add (as @ bs) b = Some (b_append b (xs @ ys))"
    using assms(2) by (simp add: appends_def spa_pod_builder_add_def opt_fold_append b_append_append)
qed

lemma appends_Cons: "appends [a] xs \<Longrightarrow> appends as ys \<Longrightarrow> appends (a # as) (xs @ ys)"
  using appends_append [of "[a]" xs as ys] by simp

lemma unat_pod_padding:
  assumes "n < 2147483648"
  shows "unat (pod_padding (of_nat n)) = (n + 7) div 8 * 8 - n"
proof -
  have u: "unat (of_nat n :: u32) = n" using assms by (simp add: unat_of_nat)
  have r: "unat (SPA_ROUND_UP_N (of_nat n :: u32) 8) = (n + 7) div 8 * 8"
    using assms u by (subst unat_round_up [of _ 3]) simp_all
  have "n \<le> (n + 7) div 8 * 8" by presburger
  then have "(of_nat n :: u32) \<le> SPA_ROUND_UP_N (of_nat n) 8" using r u by (simp add: word_le_nat_alt)
  then show ?thesis using r u by (simp add: pod_padding_def unat_sub)
qed

definition zero_pad :: "nat \<Rightarrow> byte list" where
  "zero_pad n = replicate ((n + 7) div 8 * 8 - n) 0"

lemma padded_length: "8 dvd n + length (zero_pad n)"
proof -
  have "n \<le> (n + 7) div 8 * 8" by presburger
  then have "n + length (zero_pad n) = (n + 7) div 8 * 8" by (simp add: zero_pad_def)
  then show ?thesis by simp
qed

lemma length_pod_header [simp]: "length (pod_header sz t) = 8"
  by (simp add: pod_header_def)

lemma body_pieces_concat:
  "length bs < 2147483648 \<Longrightarrow> concat (body_pieces False bs) = bs @ zero_pad (length bs)"
  by (simp add: body_pieces_def unat_pod_padding zero_pad_def)

lemma appends_prim:
  assumes "arg_parts a = Some (head, Some body, False)" and "length head = 8" and "length body < 2147483648"
  shows "appends [a] (head @ body @ zero_pad (length body))"
  unfolding appends_def
proof (intro conjI allI impI)
  have "8 dvd 8 + (length body + length (zero_pad (length body)))"
    using padded_length [of "length body"] by (metis dvd_add_times_triv_left_iff mult.right_neutral dvd_add dvd_refl)
  then show "8 dvd length (head @ body @ zero_pad (length body))" by (simp add: assms(2))
  fix b assume r: "b_ready b (length (head @ body @ zero_pad (length body)))"
  have f: "\<not> b_in_array b" "b\<lparr>b_first := False\<rparr> = b" using r by (simp_all add: b_ready_def)
  have c: "concat ([head] @ body_pieces False body) = head @ body @ zero_pad (length body)"
    using assms(3) by (simp add: body_pieces_concat)
  have "spa_pod_builder_arg a b = builder_primitive head (Some body) False b"
    using assms(1) by (cases a) (auto simp: spa_pod_builder_arg_def Let_def)
  then have "spa_pod_builder_arg a b = builder_pieces ([head] @ body_pieces False body) False b"
    using f by (simp add: builder_primitive_def Let_def)
  then show "spa_pod_builder_add [a] b = Some (b_append b (head @ body @ zero_pad (length body)))"
    using pieces_ready [of b "[head] @ body_pieces False body"] r unfolding c
    by (simp add: spa_pod_builder_add_def)
qed

lemma appends_pod:
  assumes "pod_bytes p = Some body" and "length body < 2147483648"
  shows "appends [A_Pod p] (body @ zero_pad (length body))"
  unfolding appends_def
proof (intro conjI allI impI)
  show "8 dvd length (body @ zero_pad (length body))" using padded_length [of "length body"] by simp
  fix b assume r: "b_ready b (length (body @ zero_pad (length body)))"
  have f: "\<not> b_in_array b" using r by (simp add: b_ready_def)
  have "spa_pod_builder_arg (A_Pod p) b = Some (b_append b (body @ zero_pad (length body)))"
    using pieces_ready [of b "body_pieces False body"] r f assms
    by (simp add: spa_pod_builder_arg_def body_pieces_concat)
  then show "spa_pod_builder_add [A_Pod p] b = Some (b_append b (body @ zero_pad (length body)))"
    by (simp add: spa_pod_builder_add_def)
qed

lemma rd32_header [simp]:
  "rd32 (pod_header sz t @ xs) = sz" "rd32 (drop 4 (pod_header sz t @ xs)) = t"
  "rd32 (pod_header sz t) = sz" "rd32 (drop 4 (pod_header sz t)) = t"
proof -
  show a: "rd32 (pod_header sz t @ xs) = sz" "rd32 (drop 4 (pod_header sz t @ xs)) = t" for xs
    by (simp_all add: pod_header_def)
  show "rd32 (pod_header sz t) = sz" "rd32 (drop 4 (pod_header sz t)) = t"
    using a [of "[]"] by simp_all
qed

lemma pad_aligned:
  assumes "8 dvd unat w" and "unat w < 2147483648"
  shows "pod_padding w = 0"
proof -
  have "unat (pod_padding w) = (unat w + 7) div 8 * 8 - unat w"
    using unat_pod_padding [OF assms(2)] by simp
  then have "unat (pod_padding w) = 0" using assms(1) by (auto elim!: dvdE)
  then show ?thesis by (simp add: word_unat_eq_iff)
qed

text \<open>Opening a struct, adding its members and closing it appends one value whose size was patched in.\<close>

lemma appends_struct:
  assumes "appends args bs" and "length bs < 2147483648"
  shows "appends (A_Struct # args @ [A_Pop]) (pod_header (of_nat (length bs)) SPA_POD_TYPE_STRUCT @ bs)"
  unfolding appends_def
proof (intro conjI allI impI)
  let ?hd = "pod_header 0 SPA_POD_TYPE_STRUCT" and ?n = "of_nat (length bs) :: u32"
  show "8 dvd length (pod_header ?n SPA_POD_TYPE_STRUCT @ bs)" using assms(1) by (simp add: appends_def)
  fix b assume r: "b_ready b (length (pod_header ?n SPA_POD_TYPE_STRUCT @ bs))" and al: "8 dvd length (b_data b)"
  define b1 where "b1 = spa_pod_builder_push (b_append b ?hd) 0 SPA_POD_TYPE_STRUCT (b_offset b)"
  have f: "\<not> b_in_array b" "b\<lparr>b_first := False\<rparr> = b" using r by (simp_all add: b_ready_def)
  have open1: "spa_pod_builder_arg A_Struct b = Some b1"
    using raw_ready [OF r, of ?hd] f by (simp add: spa_pod_builder_arg_def builder_primitive_def Let_def b1_def)
  have ra: "b_ready (b_append b ?hd) (length bs)" using ready_append [OF r, of ?hd "length bs"] by simp
  have r1: "b_ready b1 (length bs)"
    using ra by (auto simp: b1_def b_ready_def spa_pod_builder_push_def is_array_type_def)
  have "8 dvd length (b_data b1)" using al by (simp add: b1_def spa_pod_builder_push_def b_append_def)
  then have mid: "spa_pod_builder_add args b1 = Some (b_append b1 bs)" using assms(1) r1 by (simp add: appends_def)
  have off: "unat (b_offset b) = length (b_data b)" "length (b_data b) + (8 + length bs) < unat (b_size b)"
      "unat (b_size b) \<le> 2147483648" using r by (auto simp: b_ready_def)
  have ref: "b_offset b \<noteq> - 1"
  proof
    assume "b_offset b = - 1"
    then have "unat (b_offset b) = 4294967295" by (simp add: unsigned_minus_1_eq_mask mask_eq_exp_minus_1)
    with off show False by simp
  qed
  let ?fs = "map (\<lambda>f. f\<lparr>f_size := f_size f + of_nat (8 + length bs)\<rparr>) (b_stack b)"
  have ne: "\<not> b_size b \<le> b_offset b + 8 + ?n"
    using ready_offset [OF r, of "8 + length bs"] off by (simp add: word_le_nat_alt add.assoc)
  have fin: "unat (b_offset b + of_nat (8 + length bs)) = length (b_data b) + (8 + length bs)"
    using ready_offset [OF r, of "8 + length bs"] off(1) by simp
  have pad: "pod_padding (b_offset b + of_nat (8 + length bs)) = 0"
    by (rule pad_aligned) (use fin off al assms(1) in \<open>auto simp: appends_def\<close>)
  have arr: "(case ?fs of [] \<Rightarrow> False | g # _ \<Rightarrow> is_array_type (f_type g)) = False"
    using r by (cases "b_stack b") (auto simp: b_ready_def)
  have put: "put_bytes (b_data b @ ?hd @ bs) (b_offset b) (pod_header ?n SPA_POD_TYPE_STRUCT) (b_size b) =
      Some (b_data b @ pod_header ?n SPA_POD_TYPE_STRUCT @ bs)"
    using off by (simp add: put_bytes_def)
  have "spa_pod_builder_pop (b_append b1 bs) = Some (b_append b (pod_header ?n SPA_POD_TYPE_STRUCT @ bs))"
  proof -
    have w: "write_pod (b_append b1 bs) (b_offset b) (pod_header ?n SPA_POD_TYPE_STRUCT) =
        Some (b_offset b, (b_append b1 bs)\<lparr>b_data := b_data b @ pod_header ?n SPA_POD_TYPE_STRUCT @ bs\<rparr>)"
      using put ne ref
      by (simp add: write_pod_def Let_def b1_def spa_pod_builder_push_def b_append_def)
    have st: "b_stack (b_append b1 bs) = \<lparr>f_size = ?n, f_type = SPA_POD_TYPE_STRUCT, f_ref = b_offset b\<rparr> # ?fs"
      by (simp add: b1_def spa_pod_builder_push_def b_append_def add.assoc)
    have sz: "b_size (b_append b1 bs) = b_size b" "b_data (b_append b1 bs) = b_data b @ ?hd @ bs"
        "b_offset (b_append b1 bs) = b_offset b + of_nat (8 + length bs)"
      by (simp_all add: b1_def spa_pod_builder_push_def b_append_def add.assoc)
    show ?thesis
      using w put ref arr pad f
      by (simp add: spa_pod_builder_pop_def st sz Let_def spa_pod_builder_pad_def)
        (rule spa_pod_builder.equality,
          use r in \<open>auto simp: b1_def spa_pod_builder_push_def b_append_def add.assoc is_array_type_def b_ready_def\<close>)
  qed
  then show "spa_pod_builder_add (A_Struct # args @ [A_Pop]) b =
      Some (b_append b (pod_header ?n SPA_POD_TYPE_STRUCT @ bs))"
    using open1 mid by (simp add: spa_pod_builder_add_def opt_fold_append spa_pod_builder_arg_def [of A_Pop])
qed

text \<open>A whole message of the native protocol: the struct around its arguments.\<close>

definition build_struct :: "pod_arg list \<Rightarrow> byte list option" where
  "build_struct args =
     (case spa_pod_builder_add (A_Struct # args @ [A_Pop]) native_builder of
        None \<Rightarrow> None
      | Some b \<Rightarrow> Some (take (unat (b_offset b)) (b_data b)))"

lemma native_open:
  "spa_pod_builder_arg A_Struct native_builder = Some
    (spa_pod_builder_push ((b_append native_builder (pod_header 0 SPA_POD_TYPE_STRUCT))\<lparr>b_size := 4096\<rparr>)
      0 SPA_POD_TYPE_STRUCT 0)"
proof -
  have "SPA_ROUND_UP_N (8 :: u32) 4096 = 4096" by (simp add: SPA_ROUND_UP_N_def)
  then show ?thesis
    by (simp add: spa_pod_builder_arg_def builder_primitive_def Let_def native_builder_def spa_pod_builder_raw_def
        write_pod_def put_bytes_def b_append_def)
qed

lemma build_struct_appends:
  assumes "appends args bs" and "length bs < 4088"
  shows "build_struct args = Some (pod_header (of_nat (length bs)) SPA_POD_TYPE_STRUCT @ bs)"
proof -
  let ?hd = "pod_header 0 SPA_POD_TYPE_STRUCT" and ?n = "of_nat (length bs) :: u32"
  define b1 where "b1 = spa_pod_builder_push ((b_append native_builder ?hd)\<lparr>b_size := 4096\<rparr>) 0 SPA_POD_TYPE_STRUCT 0"
  have b1: "b_ready b1 (length bs)" "8 dvd length (b_data b1)"
    using assms(2) by (simp_all add: b1_def b_ready_def spa_pod_builder_push_def b_append_def native_builder_def
        is_array_type_def)
  then have mid: "spa_pod_builder_add args b1 = Some (b_append b1 bs)" using assms(1) by (simp add: appends_def)
  have u: "unat (8 + ?n) = 8 + length bs" using assms(2) by (simp add: unat_word_ariths unat_of_nat)
  then have ne: "\<not> 4096 \<le> 8 + ?n" using assms(2) by (simp add: word_le_nat_alt)
  have pad: "pod_padding (8 + ?n) = 0"
    by (rule pad_aligned) (use u assms in \<open>auto simp: appends_def\<close>)
  have "\<exists>b. spa_pod_builder_pop (b_append b1 bs) = Some b \<and> b_offset b = 8 + ?n \<and>
      b_data b = pod_header ?n SPA_POD_TYPE_STRUCT @ bs"
    using ne pad assms(2)
    by (simp add: spa_pod_builder_pop_def b1_def b_append_def spa_pod_builder_push_def native_builder_def
        write_pod_def put_bytes_def spa_pod_builder_pad_def Let_def)
  then show ?thesis
    using mid u native_open
    by (auto simp: build_struct_def spa_pod_builder_add_def opt_fold_append b1_def [symmetric]
        spa_pod_builder_arg_def [of A_Pop])
qed

section \<open>The iterator\<close>

text \<open>\<open>Fault\<close>: a read outside the message; \<open>Fail\<close>: the code reports failure; \<open>Got\<close>: success.\<close>

datatype 'a rd = Fault | Fail | Got 'a

datatype pod_val =
    V_Int u32
  | V_Long u64
  | V_Str cstr
  | V_Bytes "byte list"
  | V_Pair u32 u32
  | V_Pod "byte list option"

record spa_pod_iter =
  it_data :: "byte list"
  it_size :: u32
  it_offset :: u32

definition SPA_POD_SIZE_at :: "byte list \<Rightarrow> nat" where
  "SPA_POD_SIZE_at mem = 8 + unat (rd32 mem)"

definition spa_pod_iter_contents :: "byte list \<Rightarrow> u32 \<Rightarrow> spa_pod_iter" where
  "spa_pod_iter_contents data sz = \<lparr>it_data = data, it_size = sz, it_offset = 0\<rparr>"

definition spa_pod_iter_struct :: "byte list \<Rightarrow> u32 \<Rightarrow> spa_pod_iter rd" where
  "spa_pod_iter_struct data sz =
     (if sz < 8 then Fail
      else if length data < 8 then Fault
      else if SPA_POD_SIZE_at data > unat sz \<or> rd32 (drop 4 data) \<noteq> SPA_POD_TYPE_STRUCT then Fail
      else Got (spa_pod_iter_contents (drop 8 data) (rd32 data)))"

text \<open>Iteration over a struct or an object given by its bytes.\<close>

definition spa_pod_iter_pod :: "byte list \<Rightarrow> spa_pod_iter rd" where
  "spa_pod_iter_pod pod =
     (if length pod < 8 then Fault
      else if rd32 (drop 4 pod) = SPA_POD_TYPE_STRUCT then Got (spa_pod_iter_contents (drop 8 pod) (rd32 pod))
      else if rd32 (drop 4 pod) = SPA_POD_TYPE_OBJECT then Got (spa_pod_iter_contents (drop 16 pod) (rd32 pod - 8))
      else Fail)"

definition spa_pod_iter_has_next :: "spa_pod_iter \<Rightarrow> bool rd" where
  "spa_pod_iter_has_next it =
     (if it_offset it + 8 \<le> it_size it
      then if unat (it_offset it) + 8 \<le> length (it_data it)
           then Got (SPA_POD_SIZE_at (drop (unat (it_offset it)) (it_data it)) \<le> unat (it_size it))
           else Fault
      else Got False)"

definition spa_pod_iter_next :: "spa_pod_iter \<Rightarrow> byte list \<times> spa_pod_iter" where
  "spa_pod_iter_next it =
     (let pod = drop (unat (it_offset it)) (it_data it) in
      (pod, it\<lparr>it_offset := it_offset it + of_nat ((SPA_POD_SIZE_at pod + 7) div 8 * 8)\<rparr>))"

definition rd_bytes :: "byte list \<Rightarrow> nat \<Rightarrow> nat \<Rightarrow> (byte list \<Rightarrow> 'a) \<Rightarrow> 'a rd" where
  "rd_bytes mem off n f = (if off + n \<le> length mem then Got (f (take n (drop off mem))) else Fault)"

text \<open>\<open>SPA_POD_COLLECT\<close> on the value at the head of \<open>pod\<close>; the negated types are the optional containers. The copying
  string collector \<^verbatim>\<open>-SPA_POD_TYPE_STRING\<close> takes the size of its destination.\<close>

datatype pod_want = Want u32 | Want_copy u32

definition rd_cstr :: "byte list \<Rightarrow> cstr rd" where
  "rd_cstr mem = (if 0 \<in> set mem then Got (takeWhile (\<lambda>c. c \<noteq> 0) mem) else Fault)"

definition spa_pod_collect :: "pod_want \<Rightarrow> byte list \<Rightarrow> pod_val rd" where
  "spa_pod_collect w pod =
     (let ptype = rd32 (drop 4 pod); psize = unat (rd32 pod); whole = V_Pod (Some (take (8 + psize) pod)) in
      case w of
        Want_copy maxlen \<Rightarrow>
          if ptype = SPA_POD_TYPE_STRING \<or> ptype = - SPA_POD_TYPE_STRING
          then (case rd_cstr (drop 8 pod) of Got s \<Rightarrow> Got (V_Str (take (unat (maxlen - 1)) s)) | Fault \<Rightarrow> Fault | Fail \<Rightarrow> Fail)
          else Fail
      | Want t \<Rightarrow>
          if t = SPA_POD_TYPE_POD then Got whole
          else if ptype = SPA_POD_TYPE_NONE
          then if t \<in> {- SPA_POD_TYPE_ARRAY, - SPA_POD_TYPE_STRUCT, - SPA_POD_TYPE_OBJECT, - SPA_POD_TYPE_PROP}
               then Got (V_Pod None) else Fail
          else if ptype = t \<or> ptype = - t
          then if t \<in> {SPA_POD_TYPE_BOOL, SPA_POD_TYPE_ID, SPA_POD_TYPE_INT, SPA_POD_TYPE_FLOAT}
               then rd_bytes pod 8 4 (\<lambda>bs. V_Int (rd32 bs))
               else if t \<in> {SPA_POD_TYPE_LONG, SPA_POD_TYPE_DOUBLE} then rd_bytes pod 8 8 (\<lambda>bs. V_Long (rd64 bs))
               else if t = SPA_POD_TYPE_STRING
               then (case rd_cstr (drop 8 pod) of Got s \<Rightarrow> Got (V_Str s) | Fault \<Rightarrow> Fault | Fail \<Rightarrow> Fail)
               else if t \<in> {SPA_POD_TYPE_BYTES, SPA_POD_TYPE_BITMASK} then rd_bytes pod 8 psize V_Bytes
               else if t = SPA_POD_TYPE_POINTER then rd_bytes pod 16 8 (\<lambda>bs. V_Long (rd64 bs))
               else if t \<in> {SPA_POD_TYPE_RECTANGLE, SPA_POD_TYPE_FRACTION}
               then rd_bytes pod 8 8 (\<lambda>bs. V_Pair (rd32 bs) (rd32 (drop 4 bs)))
               else if t \<in> {SPA_POD_TYPE_ARRAY, SPA_POD_TYPE_STRUCT, SPA_POD_TYPE_OBJECT, SPA_POD_TYPE_PROP,
                        - SPA_POD_TYPE_ARRAY, - SPA_POD_TYPE_STRUCT, - SPA_POD_TYPE_OBJECT, - SPA_POD_TYPE_PROP}
               then Got whole
               else Fail
          else Fail)"

fun spa_pod_iter_get :: "pod_want list \<Rightarrow> spa_pod_iter \<Rightarrow> (pod_val list \<times> spa_pod_iter) rd" where
  "spa_pod_iter_get [] it = Got ([], it)"
| "spa_pod_iter_get (w # ws) it =
     (case spa_pod_iter_has_next it of
        Fault \<Rightarrow> Fault
      | Fail \<Rightarrow> Fail
      | Got False \<Rightarrow> Fail
      | Got True \<Rightarrow>
          (case spa_pod_iter_next it of (pod, it') \<Rightarrow>
             (case spa_pod_collect w pod of
                Fault \<Rightarrow> Fault
              | Fail \<Rightarrow> Fail
              | Got v \<Rightarrow>
                  (case spa_pod_iter_get ws it' of
                     Got (vs, it'') \<Rightarrow> Got (v # vs, it'')
                   | Fault \<Rightarrow> Fault | Fail \<Rightarrow> Fail))))"

section \<open>Reading what was built\<close>

definition iter_rest :: "spa_pod_iter \<Rightarrow> byte list \<Rightarrow> bool" where
  "iter_rest it bs \<longleftrightarrow> unat (it_offset it) + length bs = unat (it_size it) \<and> unat (it_size it) < 2147483648 \<and>
     (\<exists>post. drop (unat (it_offset it)) (it_data it) = bs @ post)"

text \<open>One encoded value and what the collector makes of it, whatever follows.\<close>

definition reads_as :: "pod_want \<Rightarrow> byte list \<Rightarrow> pod_val \<Rightarrow> bool" where
  "reads_as w e v \<longleftrightarrow> 8 \<le> length e \<and> (SPA_POD_SIZE_at e + 7) div 8 * 8 = length e \<and>
     (\<forall>post. spa_pod_collect w (e @ post) = Got v)"

lemma rd32_prefix: "4 \<le> length e \<Longrightarrow> rd32 (e @ post) = rd32 e"
  using rd32_take [of "length e" "e @ post"] by simp

lemma iter_get_step:
  assumes e: "reads_as w e v" and it: "iter_rest it (e @ rest)"
  shows "\<exists>it'. iter_rest it' rest \<and> spa_pod_iter_get (w # ws) it =
    (case spa_pod_iter_get ws it' of Got (vs, it'') \<Rightarrow> Got (v # vs, it'') | Fault \<Rightarrow> Fault | Fail \<Rightarrow> Fail)"
proof -
  let ?o = "unat (it_offset it)"
  obtain post where d: "drop ?o (it_data it) = (e @ rest) @ post" using it by (auto simp: iter_rest_def)
  have sz: "?o + length e + length rest = unat (it_size it)" "unat (it_size it) < 2147483648"
    using it by (auto simp: iter_rest_def)
  have e8: "8 \<le> length e" and esz: "(SPA_POD_SIZE_at e + 7) div 8 * 8 = length e"
    using e by (auto simp: reads_as_def)
  have pe: "SPA_POD_SIZE_at (e @ rest @ post) = SPA_POD_SIZE_at e"
    using e8 by (simp add: SPA_POD_SIZE_at_def rd32_prefix)
  have u8: "unat (it_offset it + 8) = ?o + 8"
    using sz e8 by (simp add: unat_word_ariths)
  have ul: "unat (it_offset it + of_nat (length e)) = ?o + length e"
    using sz by (simp add: unat_word_ariths unat_of_nat)
  have ld: "?o + 8 \<le> length (it_data it)"
  proof -
    have "8 \<le> length (drop ?o (it_data it))" using e8 by (simp add: d)
    then show ?thesis by simp
  qed
  have "SPA_POD_SIZE_at e \<le> length e" using esz by presburger
  then have hn: "spa_pod_iter_has_next it = Got True"
    using u8 ld sz e8 pe by (simp add: spa_pod_iter_has_next_def word_le_nat_alt d)
  let ?it = "it\<lparr>it_offset := it_offset it + of_nat (length e)\<rparr>"
  have nx: "spa_pod_iter_next it = (e @ rest @ post, ?it)"
    by (simp add: spa_pod_iter_next_def d pe Let_def esz del: of_nat_mult)
  have "drop (length e) (drop ?o (it_data it)) = rest @ post" by (simp add: d)
  then have "drop (?o + length e) (it_data it) = rest @ post" by (simp add: add.commute)
  then have "iter_rest ?it rest" using sz ul by (auto simp: iter_rest_def)
  then show ?thesis using e hn nx by (intro exI [of _ ?it]) (simp add: reads_as_def)
qed

section \<open>Reading in sequence\<close>

text \<open>A call of \<^verbatim>\<open>spa_pod_iter_get\<close> with several types reads one value after the other; the readers below are
  composed the same way, the first failure ends the whole.\<close>

type_synonym 'a reader = "spa_pod_iter \<Rightarrow> ('a \<times> spa_pod_iter) rd"

definition r_return :: "'a \<Rightarrow> 'a reader" where
  "r_return a it = Got (a, it)"

definition r_bind :: "'a reader \<Rightarrow> ('a \<Rightarrow> 'b reader) \<Rightarrow> 'b reader" where
  "r_bind p f it = (case p it of Fault \<Rightarrow> Fault | Fail \<Rightarrow> Fail | Got (a, it') \<Rightarrow> f a it')"

definition r_get :: "pod_want \<Rightarrow> (pod_val \<Rightarrow> 'a option) \<Rightarrow> 'a reader" where
  "r_get w f it =
     (case spa_pod_iter_get [w] it of
        Got ([v], it') \<Rightarrow> (case f v of Some a \<Rightarrow> Got (a, it') | None \<Rightarrow> Fault)
      | Fail \<Rightarrow> Fail
      | _ \<Rightarrow> Fault)"

definition get_int :: "u32 reader" where
  "get_int = r_get (Want SPA_POD_TYPE_INT) (\<lambda>v. case v of V_Int i \<Rightarrow> Some i | _ \<Rightarrow> None)"

definition get_id :: "u32 reader" where
  "get_id = r_get (Want SPA_POD_TYPE_ID) (\<lambda>v. case v of V_Int i \<Rightarrow> Some i | _ \<Rightarrow> None)"

definition get_long :: "u64 reader" where
  "get_long = r_get (Want SPA_POD_TYPE_LONG) (\<lambda>v. case v of V_Long i \<Rightarrow> Some i | _ \<Rightarrow> None)"

definition get_string :: "cstr reader" where
  "get_string = r_get (Want SPA_POD_TYPE_STRING) (\<lambda>v. case v of V_Str s \<Rightarrow> Some s | _ \<Rightarrow> None)"

definition get_bytes :: "byte list reader" where
  "get_bytes = r_get (Want SPA_POD_TYPE_BYTES) (\<lambda>v. case v of V_Bytes s \<Rightarrow> Some s | _ \<Rightarrow> None)"

definition get_object :: "byte list reader" where
  "get_object = r_get (Want SPA_POD_TYPE_OBJECT) (\<lambda>v. case v of V_Pod (Some p) \<Rightarrow> Some p | _ \<Rightarrow> None)"

definition get_opt :: "u32 \<Rightarrow> byte list option reader" where
  "get_opt t = r_get (Want (- t)) (\<lambda>v. case v of V_Pod p \<Rightarrow> Some p | _ \<Rightarrow> None)"

fun r_repeat :: "nat \<Rightarrow> 'a reader \<Rightarrow> 'a list reader" where
  "r_repeat 0 p = r_return []"
| "r_repeat (Suc n) p = r_bind p (\<lambda>a. r_bind (r_repeat n p) (\<lambda>as. r_return (a # as)))"

definition parses :: "'a reader \<Rightarrow> byte list \<Rightarrow> 'a \<Rightarrow> bool" where
  "parses p bs a \<longleftrightarrow> (\<forall>it rest. iter_rest it (bs @ rest) \<longrightarrow> (\<exists>it'. p it = Got (a, it') \<and> iter_rest it' rest))"

lemma parses_return [intro]: "parses (r_return a) [] a"
  by (simp add: parses_def r_return_def)

lemma parses_bind: "parses p bs a \<Longrightarrow> parses (f a) cs b \<Longrightarrow> parses (r_bind p f) (bs @ cs) b"
  unfolding parses_def r_bind_def
  by (metis (no_types, lifting) append.assoc case_prod_conv rd.simps(10))

lemma parses_get:
  assumes "reads_as w e v" and "f v = Some a"
  shows "parses (r_get w f) e a"
  unfolding parses_def
proof (intro allI impI)
  fix it rest assume "iter_rest it (e @ rest)"
  from iter_get_step [OF assms(1) this, of "[]"] assms(2)
  show "\<exists>it'. r_get w f it = Got (a, it') \<and> iter_rest it' rest" by (auto simp: r_get_def)
qed

lemma parses_repeat:
  assumes "list_all2 (parses p) bss as"
  shows "parses (r_repeat (length as) p) (concat bss) as"
  using assms
proof (induction rule: list_all2_induct)
  case Nil
  then show ?case by auto
next
  case (Cons bs bss a as)
  have "parses (r_bind (r_repeat (length as) p) (\<lambda>as. r_return (a # as))) (concat bss @ []) (a # as)"
    by (rule parses_bind [OF Cons(3)]) auto
  then show ?case using parses_bind [OF Cons(1), of "\<lambda>a. r_bind (r_repeat (length as) p) (\<lambda>as. r_return (a # as))"]
    by simp
qed

subsection \<open>Encodings\<close>

text \<open>The bytes of one argument; \<open>enc_ok\<close> bounds its size.\<close>

definition enc :: "pod_arg \<Rightarrow> byte list" where
  "enc a = (case a of
       A_Pod p \<Rightarrow> (case pod_bytes p of None \<Rightarrow> [] | Some bs \<Rightarrow> bs @ zero_pad (length bs))
     | _ \<Rightarrow> (case arg_parts a of
               Some (head, Some body, False) \<Rightarrow> head @ body @ zero_pad (length body)
             | _ \<Rightarrow> []))"

definition enc_ok :: "pod_arg \<Rightarrow> bool" where
  "enc_ok a \<longleftrightarrow> (case a of
       A_Int _ \<Rightarrow> True | A_Id _ \<Rightarrow> True | A_Long _ \<Rightarrow> True
     | A_String s \<Rightarrow> (case s of None \<Rightarrow> True | Some str \<Rightarrow> length str < 1073741824)
     | A_Bytes bs \<Rightarrow> length bs < 1073741824
     | A_Pod p \<Rightarrow> (case pod_bytes p of None \<Rightarrow> False | Some bs \<Rightarrow> length bs < 1073741824)
     | _ \<Rightarrow> False)"

lemma enc_prim: "arg_parts a = Some (head, Some body, False) \<Longrightarrow> enc a = head @ body @ zero_pad (length body)"
  by (cases a) (auto simp: enc_def)

lemma enc_ok_parts:
  assumes "enc_ok a" and "\<And>p. a \<noteq> A_Pod p"
  shows "\<exists>sz t body. arg_parts a = Some (pod_header sz t, Some body, False) \<and> sz = of_nat (length body) \<and>
    length body < 2147483648"
  using assms by (cases a) (auto simp: enc_ok_def le64_def split: option.splits)

lemma appends_enc:
  assumes "enc_ok a"
  shows "appends [a] (enc a)"
proof (cases "\<exists>p. a = A_Pod p")
  case True
  then show ?thesis
    using assms by (auto simp: enc_ok_def enc_def split: option.splits intro!: appends_pod)
next
  case False
  then obtain sz t body where "arg_parts a = Some (pod_header sz t, Some body, False)" "length body < 2147483648"
    using enc_ok_parts [OF assms] by blast
  then show ?thesis using appends_prim [of a "pod_header sz t" body] by (simp add: enc_prim)
qed

lemma appends_encs: "list_all enc_ok as \<Longrightarrow> appends as (concat (map enc as))"
  by (induction as) (auto intro: appends_Nil appends_Cons appends_enc)

lemma reads_prim:
  assumes "arg_parts a = Some (pod_header sz t, Some body, False)" and "sz = of_nat (length body)"
    and "length body < 2147483648"
    and "\<And>post. spa_pod_collect w (pod_header sz t @ body @ zero_pad (length body) @ post) = Got v"
  shows "reads_as w (enc a) v"
proof -
  have "unat (of_nat (length body) :: u32) = length body" using assms(3) by (simp add: unat_of_nat)
  moreover have "(8 + length body + 7) div 8 * 8 = 8 + ((length body + 7) div 8 * 8)" by presburger
  moreover have "length body \<le> (length body + 7) div 8 * 8" by presburger
  ultimately show ?thesis
    using assms(4) by (simp add: reads_as_def enc_prim [OF assms(1)] SPA_POD_SIZE_at_def assms(2) zero_pad_def)
qed

lemma rd32_header_type [simp]: "rd32 (drop 4 (pod_header sz t) @ xs) = t"
  using rd32_header(2) [of sz t xs] by simp

lemma rd32_le32_only [simp]: "rd32 (le32 w) = w"
  using rd32_le32 [of w "[]"] by simp

lemma drop_header [simp]: "drop 8 (pod_header sz t @ xs) = xs"
  by (simp add: pod_header_def)

lemma rd_cstr_terminated: "0 \<notin> set s \<Longrightarrow> rd_cstr (s @ 0 # post) = Got s"
  by (auto simp: rd_cstr_def takeWhile_append2 takeWhile_tail)

lemma rd64_low:
  "rd64 (le32 w @ [0, 0, 0, 0] @ post) = ucast w"
proof -
  have z: "[0, 0, 0, 0] = le32 0" by (simp add: le32_def)
  show ?thesis unfolding z by (simp add: rd64_def)
qed

lemma reads_int: "reads_as (Want SPA_POD_TYPE_INT) (enc (A_Int v)) (V_Int v)"
  by (rule reads_prim [of _ 4 SPA_POD_TYPE_INT "le32 v"]) (simp_all add: spa_pod_collect_def rd_bytes_def Let_def)

lemma reads_id: "reads_as (Want SPA_POD_TYPE_ID) (enc (A_Id v)) (V_Int v)"
  by (rule reads_prim [of _ 4 SPA_POD_TYPE_ID "le32 v"]) (simp_all add: spa_pod_collect_def rd_bytes_def Let_def)

text \<open>A 64-bit value is written with a body of four bytes and read back with eight, of which four are padding.\<close>

lemma reads_long: "reads_as (Want SPA_POD_TYPE_LONG) (enc (A_Long v)) (V_Long (ucast (ucast v :: u32)))"
proof (rule reads_prim [of _ 4 SPA_POD_TYPE_LONG "take 4 (le64 v)"])
  fix post
  have "zero_pad 4 = [0, 0, 0, 0]" by (simp add: zero_pad_def) (simp add: numeral_eq_Suc)
  moreover have "length (take 4 (le64 v)) = 4" by (simp add: le64_def)
  ultimately have zp: "zero_pad (length (take 4 (le64 v))) = [0, 0, 0, 0]" by (simp only:)
  have "take 8 (le32 (ucast v) @ [0, 0, 0, 0] @ post) = le32 (ucast v) @ [0, 0, 0, 0] @ []" by simp
  then have "rd64 (take 8 (le32 (ucast v) @ [0, 0, 0, 0] @ post)) = ucast (ucast v :: u32)"
    by (simp only: rd64_low)
  then show "spa_pod_collect (Want SPA_POD_TYPE_LONG)
      (pod_header 4 SPA_POD_TYPE_LONG @ take 4 (le64 v) @ zero_pad (length (take 4 (le64 v))) @ post) =
      Got (V_Long (ucast (ucast v :: u32)))"
    unfolding zp by (simp add: spa_pod_collect_def rd_bytes_def le64_def Let_def)
qed (simp_all add: le64_def)

lemma reads_string:
  assumes "0 \<notin> set s" and "length s < 1073741824"
  shows "reads_as (Want SPA_POD_TYPE_STRING) (enc (A_String (Some s))) (V_Str s)"
  by (rule reads_prim [of _ "of_nat (Suc (length s))" SPA_POD_TYPE_STRING "s @ [0]"])
    (use assms in \<open>simp_all add: spa_pod_collect_def rd_cstr_terminated Let_def\<close>)

lemma reads_string_null: "reads_as (Want SPA_POD_TYPE_STRING) (enc (A_String None)) (V_Str [])"
  by (rule reads_prim [of _ 1 SPA_POD_TYPE_STRING "[0]"])
    (simp_all add: spa_pod_collect_def rd_cstr_terminated [of "[]", simplified] Let_def)

lemma reads_bytes:
  assumes "length bs < 1073741824"
  shows "reads_as (Want SPA_POD_TYPE_BYTES) (enc (A_Bytes bs)) (V_Bytes bs)"
  by (rule reads_prim [of _ "of_nat (length bs)" SPA_POD_TYPE_BYTES bs])
    (use assms in \<open>simp_all add: spa_pod_collect_def rd_bytes_def unat_of_nat Let_def\<close>)

text \<open>Values passed by pointer: an object comes back as its bytes, a null pointer as an absent container.\<close>

definition pod_of_type :: "u32 \<Rightarrow> byte list \<Rightarrow> bool" where
  "pod_of_type t bs \<longleftrightarrow> 8 \<le> length bs \<and> length bs = 8 + unat (rd32 bs) \<and> rd32 (drop 4 bs) = t \<and> length bs < 1073741824"

lemma pod_bytes_of_type: "pod_of_type t bs \<Longrightarrow> pod_bytes (Some bs) = Some bs"
  by (auto simp: pod_of_type_def pod_bytes_def)

lemma pod_collect_head:
  assumes "pod_of_type t bs"
  shows "rd32 (bs @ post) = rd32 bs" and "rd32 (drop 4 (bs @ post)) = t" and "take (8 + unat (rd32 bs)) (bs @ post) = bs"
  using assms rd32_prefix [of bs post] rd32_prefix [of "drop 4 bs" post] by (auto simp: pod_of_type_def)

lemma reads_pod_size:
  assumes "pod_of_type t bs"
  shows "8 \<le> length (bs @ zero_pad (length bs))"
    and "(SPA_POD_SIZE_at (bs @ zero_pad (length bs)) + 7) div 8 * 8 = length (bs @ zero_pad (length bs))"
proof -
  have "length bs \<le> (length bs + 7) div 8 * 8" by presburger
  then show "8 \<le> length (bs @ zero_pad (length bs))"
      "(SPA_POD_SIZE_at (bs @ zero_pad (length bs)) + 7) div 8 * 8 = length (bs @ zero_pad (length bs))"
    using assms pod_collect_head(1) [OF assms, of "zero_pad (length bs)"]
    by (auto simp: pod_of_type_def SPA_POD_SIZE_at_def zero_pad_def)
qed

lemma reads_object:
  assumes "pod_of_type SPA_POD_TYPE_OBJECT bs"
  shows "reads_as (Want SPA_POD_TYPE_OBJECT) (enc (A_Pod (Some bs))) (V_Pod (Some bs))"
  using reads_pod_size [OF assms] pod_collect_head [OF assms]
  by (simp add: reads_as_def enc_def pod_bytes_of_type [OF assms] spa_pod_collect_def Let_def del: drop_append take_append)

lemma reads_opt_some:
  assumes "pod_of_type t bs" and "t = SPA_POD_TYPE_OBJECT \<or> t = SPA_POD_TYPE_STRUCT"
  shows "reads_as (Want (- t)) (enc (A_Pod (Some bs))) (V_Pod (Some bs))"
  using reads_pod_size [OF assms(1)] pod_collect_head [OF assms(1)] assms(2)
  by (auto simp: reads_as_def enc_def pod_bytes_of_type [OF assms(1)] spa_pod_collect_def Let_def
      simp del: drop_append take_append)

lemma reads_opt_none:
  assumes "t = SPA_POD_TYPE_OBJECT \<or> t = SPA_POD_TYPE_STRUCT"
  shows "reads_as (Want (- t)) (enc (A_Pod None)) (V_Pod None)"
  using assms by (auto simp: reads_as_def enc_def pod_bytes_def spa_pod_collect_def Let_def SPA_POD_SIZE_at_def zero_pad_def)

lemma parses_int: "parses get_int (enc (A_Int v)) v"
  unfolding get_int_def by (rule parses_get [OF reads_int]) simp

lemma parses_id: "parses get_id (enc (A_Id v)) v"
  unfolding get_id_def by (rule parses_get [OF reads_id]) simp

lemma parses_long: "parses get_long (enc (A_Long v)) (ucast (ucast v :: u32))"
  unfolding get_long_def by (rule parses_get [OF reads_long]) simp

definition str_ok :: "cstr option \<Rightarrow> bool" where
  "str_ok s \<longleftrightarrow> (case s of None \<Rightarrow> True | Some str \<Rightarrow> 0 \<notin> set str \<and> length str < 1073741824)"

definition str_val :: "cstr option \<Rightarrow> cstr" where
  "str_val s = (case s of None \<Rightarrow> [] | Some str \<Rightarrow> str)"

lemma parses_string: "str_ok s \<Longrightarrow> parses get_string (enc (A_String s)) (str_val s)"
  unfolding get_string_def
  by (cases s) (auto simp: str_ok_def str_val_def intro: parses_get [OF reads_string] parses_get [OF reads_string_null])

lemma parses_bytes: "length bs < 1073741824 \<Longrightarrow> parses get_bytes (enc (A_Bytes bs)) bs"
  unfolding get_bytes_def by (rule parses_get [OF reads_bytes]) simp_all

lemma parses_object: "pod_of_type SPA_POD_TYPE_OBJECT bs \<Longrightarrow> parses get_object (enc (A_Pod (Some bs))) bs"
  unfolding get_object_def by (rule parses_get [OF reads_object]) simp_all

definition opt_pod_ok :: "u32 \<Rightarrow> byte list option \<Rightarrow> bool" where
  "opt_pod_ok t p \<longleftrightarrow> (case p of None \<Rightarrow> True | Some bs \<Rightarrow> pod_of_type t bs)"

lemma parses_opt:
  assumes "opt_pod_ok t p" and "t = SPA_POD_TYPE_OBJECT \<or> t = SPA_POD_TYPE_STRUCT"
  shows "parses (get_opt t) (enc (A_Pod p)) p"
  unfolding get_opt_def
  using assms by (cases p) (auto simp: opt_pod_ok_def intro: parses_get [OF reads_opt_some] parses_get [OF reads_opt_none])

end
