(* ===== verification/Pinos_Map.thy ===== *)
theory Pinos_Map
  imports Pinos_Prelude
begin

text \<open>
  The growing array of \<^verbatim>\<open>pinos/client/array.h\<close> and the id map of
  \<^verbatim>\<open>pinos/client/map.h\<close> that is built on it and that hands out the ids of globals, of client
  objects and of types. An item of the map is a 64-bit union of a data pointer and of the 32-bit link
  of the free list, kept here as the 64-bit cell it is in memory, so that writing the link leaves the
  upper half of the pointer in place. Sizes are \<^verbatim>\<open>size_t\<close>, 64-bit words. Whether
  \<^verbatim>\<open>realloc\<close> succeeds is a parameter. \<open>None\<close> stands for a growth loop that does not
  return or for an access outside the items.
\<close>

section \<open>PinosArray\<close>

record pinos_array =
  arr_size :: u64
  arr_alloc :: u64
  arr_extend :: u64

definition pinos_array_init :: "u64 \<Rightarrow> pinos_array" where
  "pinos_array_init ext = \<lparr>arr_size = 0, arr_alloc = 0, arr_extend = ext\<rparr>"

partial_function (option) array_grow :: "u64 \<Rightarrow> u64 \<Rightarrow> u64 option" where
  "array_grow alloc need = (if alloc < need then array_grow (alloc * 2) need else Some alloc)"

definition pinos_array_ensure_size ::
  "(u64 \<Rightarrow> bool) \<Rightarrow> pinos_array \<Rightarrow> u64 \<Rightarrow> (bool \<times> pinos_array) option" where
  "pinos_array_ensure_size realloc_ok arr sz =
     (let alloc = arr_alloc arr; need = arr_size arr + sz in
      if alloc < need
      then case array_grow (max alloc (arr_extend arr)) need of
             None \<Rightarrow> None
           | Some alloc' \<Rightarrow>
               if realloc_ok alloc' then Some (True, arr\<lparr>arr_alloc := alloc'\<rparr>)
               else Some (False, arr)
      else Some (True, arr))"

text \<open>\<open>pinos_array_add\<close> returns the byte offset of the new element, \<open>None\<close> for a null pointer.\<close>

definition pinos_array_add ::
  "(u64 \<Rightarrow> bool) \<Rightarrow> pinos_array \<Rightarrow> u64 \<Rightarrow> (u64 option \<times> pinos_array) option" where
  "pinos_array_add realloc_ok arr sz =
     (case pinos_array_ensure_size realloc_ok arr sz of
        None \<Rightarrow> None
      | Some (ok, arr') \<Rightarrow>
          if \<not> ok then Some (None, arr')
          else Some (Some (arr_size arr'), arr'\<lparr>arr_size := arr_size arr' + sz\<rparr>))"

definition pinos_array_add_fixed :: "pinos_array \<Rightarrow> u64 \<Rightarrow> u64 option \<times> pinos_array" where
  "pinos_array_add_fixed arr sz =
     (if arr_alloc arr < arr_size arr + sz then (None, arr)
      else (Some (arr_size arr), arr\<lparr>arr_size := arr_size arr + sz\<rparr>))"

subsection \<open>The growth loop\<close>

lemma array_grow_done: "\<not> alloc < need \<Longrightarrow> array_grow alloc need = Some alloc"
  by (subst array_grow.simps) simp

lemma array_grow_step: "alloc < need \<Longrightarrow> array_grow alloc need = array_grow (alloc * 2) need"
  by (subst array_grow.simps) simp

lemma unat_double_u64:
  assumes "unat (a :: u64) < 2 ^ 63"
  shows "unat (a * 2) = 2 * unat a"
  using assms by (subst unat_mult_lem [THEN iffD1]) (simp_all add: mult.commute)

lemma array_grow_returns:
  assumes "0 < alloc" and "unat need \<le> 2 ^ 63"
  shows "\<exists>a. array_grow alloc need = Some a \<and> need \<le> a \<and>
    (alloc < need \<longrightarrow> unat a < 2 * unat need) \<and> (\<not> alloc < need \<longrightarrow> a = alloc)"
  using assms(1)
proof (induction "unat need - unat alloc" arbitrary: alloc rule: less_induct)
  case less
  show ?case
  proof (cases "alloc < need")
    case True
    then have lt: "unat alloc < unat need" by (simp add: word_less_nat_alt)
    then have d: "unat (alloc * 2) = 2 * unat alloc" using assms(2) by (intro unat_double_u64) simp
    have pos: "0 < unat alloc" using less.prems by (simp add: word_less_nat_alt)
    have "0 < alloc * 2" using d pos by (simp add: word_less_nat_alt)
    moreover have "unat need - unat (alloc * 2) < unat need - unat alloc" using lt d pos by simp
    ultimately obtain a where a: "array_grow (alloc * 2) need = Some a" "need \<le> a"
        "alloc * 2 < need \<longrightarrow> unat a < 2 * unat need" "\<not> alloc * 2 < need \<longrightarrow> a = alloc * 2"
      using less.hyps [of "alloc * 2"] by auto
    have "unat a < 2 * unat need"
      using a(3,4) d lt by (cases "alloc * 2 < need") auto
    with a True show ?thesis by (auto simp: array_grow_step)
  next
    case False
    then show ?thesis by (auto simp: array_grow_done)
  qed
qed

text \<open>With neither memory nor an extension step the loop doubles zero for ever.\<close>

lemma array_grow_zero:
  assumes "0 < need"
  shows "array_grow 0 need = None"
proof (rule ccontr)
  assume "array_grow 0 need \<noteq> None"
  then obtain a where ret: "array_grow 0 need = Some a" by auto
  have "(0 :: u64) = 0 \<longrightarrow> need = 0"
    by (rule array_grow.raw_induct [where P = "\<lambda>x n y. x = 0 \<longrightarrow> n = 0", OF _ ret])
      (auto split: if_splits simp: word_gt_0)
  with assms show False by simp
qed

definition array_ok :: "pinos_array \<Rightarrow> bool" where
  "array_ok arr \<longleftrightarrow> arr_size arr \<le> arr_alloc arr \<and> unat (arr_alloc arr) \<le> 2 ^ 62 \<and>
     (0 < arr_alloc arr \<or> 0 < arr_extend arr) \<and> unat (arr_extend arr) \<le> 2 ^ 62"

lemma array_add_ok:
  assumes ok: "array_ok arr" and sz: "unat (arr_size arr) + unat sz \<le> 2 ^ 61"
    and mem: "\<And>n. realloc_ok n"
  shows "\<exists>arr'. pinos_array_add realloc_ok arr sz = Some (Some (arr_size arr), arr') \<and> array_ok arr' \<and>
    arr_size arr' = arr_size arr + sz \<and> unat (arr_size arr') = unat (arr_size arr) + unat sz \<and>
    arr_extend arr' = arr_extend arr"
proof -
  let ?need = "arr_size arr + sz" and ?start = "max (arr_alloc arr) (arr_extend arr)"
  have need: "unat ?need = unat (arr_size arr) + unat sz"
    using sz by (subst unat_add_lem [THEN iffD1]) simp_all
  have start: "0 < ?start" "unat ?start \<le> 2 ^ 62"
    using ok by (auto simp: array_ok_def max_def)
  obtain a where a: "array_grow ?start ?need = Some a" "?need \<le> a"
      "?start < ?need \<longrightarrow> unat a < 2 * unat ?need" "\<not> ?start < ?need \<longrightarrow> a = ?start"
    using array_grow_returns [OF start(1), of ?need] need sz by auto
  have lim: "unat a \<le> 2 ^ 62" using a(3,4) start(2) need sz by (cases "?start < ?need") auto
  have "0 < a" if "arr_alloc arr < ?need" using that a(2) by (metis less_le_trans word_gt_0 word_not_simps(1))
  then show ?thesis
    using ok mem a(1,2) lim need
    by (auto simp: pinos_array_add_def pinos_array_ensure_size_def Let_def array_ok_def)
qed

section \<open>PinosMap\<close>

record pinos_map =
  items :: pinos_array
  cells :: "u64 list"
  free_list :: u32

abbreviation (input) sizeof_PinosMapItem :: u64 where "sizeof_PinosMapItem \<equiv> 8"

text \<open>The two members of the union: the link is the lower half of the cell.\<close>

definition item_next :: "u64 \<Rightarrow> u32" where
  "item_next c = ucast c"

definition set_item_next :: "u64 \<Rightarrow> u32 \<Rightarrow> u64" where
  "set_item_next c n = (c AND 0xffffffff00000000) OR ucast n"

definition pinos_map_item_is_free :: "u64 \<Rightarrow> bool" where
  "pinos_map_item_is_free c \<longleftrightarrow> item_next c AND 1 \<noteq> 0"

definition pinos_map_get_size :: "pinos_map \<Rightarrow> u64" where
  "pinos_map_get_size m = arr_size (items m) div sizeof_PinosMapItem"

definition pinos_map_check_id :: "pinos_map \<Rightarrow> u32 \<Rightarrow> bool" where
  "pinos_map_check_id m ident \<longleftrightarrow> (ucast ident :: u64) < pinos_map_get_size m"

definition pinos_map_get_item :: "pinos_map \<Rightarrow> u32 \<Rightarrow> u64 option" where
  "pinos_map_get_item m ident = (if unat ident < length (cells m) then Some (cells m ! unat ident) else None)"

definition PINOS_MAP_ID_TO_PTR :: "u32 \<Rightarrow> u64" where
  "PINOS_MAP_ID_TO_PTR ident = ucast (push_bit 1 ident)"

definition PINOS_MAP_PTR_TO_ID :: "u64 \<Rightarrow> u32" where
  "PINOS_MAP_PTR_TO_ID p = drop_bit 1 (ucast p)"

definition pinos_map_init :: "(u64 \<Rightarrow> bool) \<Rightarrow> u64 \<Rightarrow> u64 \<Rightarrow> pinos_map option" where
  "pinos_map_init realloc_ok sz ext =
     (case pinos_array_ensure_size realloc_ok (pinos_array_init ext) (sz * sizeof_PinosMapItem) of
        None \<Rightarrow> None
      | Some (_, arr) \<Rightarrow> Some \<lparr>items = arr, cells = [], free_list = 0\<rparr>)"

definition pinos_map_insert_new :: "(u64 \<Rightarrow> bool) \<Rightarrow> pinos_map \<Rightarrow> u64 \<Rightarrow> (u32 \<times> pinos_map) option" where
  "pinos_map_insert_new realloc_ok m data =
     (if free_list m \<noteq> 0
      then let i = unat (drop_bit 1 (free_list m)) in
           if i < length (cells m)
           then Some (of_nat i, m\<lparr>free_list := item_next (cells m ! i), cells := (cells m)[i := data]\<rparr>)
           else None
      else case pinos_array_add realloc_ok (items m) sizeof_PinosMapItem of
             None \<Rightarrow> None
           | Some (None, arr) \<Rightarrow> Some (SPA_ID_INVALID, m\<lparr>items := arr\<rparr>)
           | Some (Some off, arr) \<Rightarrow>
               if unat off = 8 * length (cells m)
               then Some (ucast (off div sizeof_PinosMapItem), m\<lparr>items := arr, cells := cells m @ [data]\<rparr>)
               else None)"

definition pinos_map_insert_at ::
  "(u64 \<Rightarrow> bool) \<Rightarrow> pinos_map \<Rightarrow> u32 \<Rightarrow> u64 \<Rightarrow> (bool \<times> pinos_map) option" where
  "pinos_map_insert_at realloc_ok m ident data =
     (let sz = pinos_map_get_size m in
      if (ucast ident :: u64) > sz then Some (False, m)
      else if ucast ident = sz
      then (case pinos_array_add realloc_ok (items m) sizeof_PinosMapItem of
              Some (Some off, arr) \<Rightarrow>
                if unat off = 8 * length (cells m)
                then Some (True, m\<lparr>items := arr, cells := cells m @ [data]\<rparr>) else None
            | _ \<Rightarrow> None)
      else if unat ident < length (cells m)
      then Some (True, m\<lparr>cells := (cells m)[unat ident := data]\<rparr>)
      else None)"

definition pinos_map_remove :: "pinos_map \<Rightarrow> u32 \<Rightarrow> pinos_map option" where
  "pinos_map_remove m ident =
     (case pinos_map_get_item m ident of
        None \<Rightarrow> None
      | Some c \<Rightarrow> Some (m\<lparr>cells := (cells m)[unat ident := set_item_next c (free_list m)],
                          free_list := push_bit 1 ident OR 1\<rparr>))"

text \<open>\<open>pinos_map_lookup\<close> returns the data pointer, \<open>0\<close> for the null pointer.\<close>

definition pinos_map_lookup :: "pinos_map \<Rightarrow> u32 \<Rightarrow> u64 option" where
  "pinos_map_lookup m ident =
     (if pinos_map_check_id m ident
      then case pinos_map_get_item m ident of
             None \<Rightarrow> None
           | Some c \<Rightarrow> Some (if \<not> pinos_map_item_is_free c then c else 0)
      else Some 0)"

fun pinos_map_for_each :: "('d \<Rightarrow> u64 \<Rightarrow> 'd) \<Rightarrow> u64 list \<Rightarrow> 'd \<Rightarrow> 'd" where
  "pinos_map_for_each func [] d = d"
| "pinos_map_for_each func (c # cs) d =
     pinos_map_for_each func cs (if c \<noteq> 0 \<and> \<not> pinos_map_item_is_free c then func d c else d)"

subsection \<open>Words of the free list\<close>

definition free_link :: "nat \<Rightarrow> u32" where
  "free_link i = push_bit 1 (of_nat i) OR 1"

lemma not_bit31: "i < 2147483648 \<Longrightarrow> \<not> bit (of_nat i :: u32) 31"
proof -
  assume "i < 2147483648"
  then have "\<not> bit i 31" by (simp add: bit_iff_odd)
  then show ?thesis by (simp add: bit_of_nat_iff)
qed

lemma drop_push_or:
  assumes "\<not> bit (w :: u32) 31"
  shows "drop_bit 1 (push_bit 1 w OR 1) = w"
proof (rule bit_word_eqI)
  fix n assume "n < LENGTH(32)"
  then show "bit (drop_bit 1 (push_bit 1 w OR 1)) n \<longleftrightarrow> bit w n"
    using assms by (cases "n = 31") (auto simp: bit_simps simp del: push_bit_Suc)
qed

lemma free_link_nonzero [simp]: "free_link i \<noteq> 0"
proof
  assume "free_link i = 0"
  then have "bit (free_link i) 0 \<longleftrightarrow> bit (0 :: u32) 0" by simp
  then show False by (simp add: free_link_def bit_simps)
qed

lemma drop_bit_free_link:
  assumes "i < 2147483648"
  shows "drop_bit 1 (free_link i) = of_nat i"
  unfolding free_link_def by (rule drop_push_or) (rule not_bit31 [OF assms])

lemma unat_free_link: "i < 2147483648 \<Longrightarrow> unat (drop_bit (Suc 0) (free_link i)) = i"
  using drop_bit_free_link [of i] by (simp add: unat_of_nat)

lemma item_next_set [simp]: "item_next (set_item_next c n) = n"
  by (rule bit_word_eqI) (auto simp: item_next_def set_item_next_def bit_simps bit_numeral_rec
      numeral_eq_Suc less_Suc_eq)

lemma is_free_set_next: "pinos_map_item_is_free (set_item_next c n) \<longleftrightarrow> odd n"
  by (simp add: pinos_map_item_is_free_def and_one_eq odd_iff_mod_2_eq_one)

lemma odd_free_link: "odd (free_link i)"
  by (simp add: free_link_def bit_0 [symmetric] bit_simps del: bit_0)

lemma is_free_iff_odd: "pinos_map_item_is_free c \<longleftrightarrow> odd c"
proof -
  have "pinos_map_item_is_free c \<longleftrightarrow> odd (ucast c :: u32)"
    by (simp add: pinos_map_item_is_free_def item_next_def and_one_eq odd_iff_mod_2_eq_one)
  also have "\<dots> \<longleftrightarrow> bit c 0" by (simp only: bit_0 [symmetric]) (simp add: bit_simps del: bit_0)
  finally show ?thesis by (simp add: bit_0)
qed

lemma set_item_next_parity: "even (set_item_next c n) \<longleftrightarrow> even n"
  using is_free_set_next [of c n] by (simp add: is_free_iff_odd)

lemma set_item_next_0: "set_item_next c 0 = c AND 0xffffffff00000000"
  by (simp add: set_item_next_def)

subsection \<open>Invariant and abstraction\<close>

fun free_chain :: "u64 list \<Rightarrow> u32 \<Rightarrow> nat list \<Rightarrow> bool" where
  "free_chain cs fl [] \<longleftrightarrow> fl = 0"
| "free_chain cs fl (i # is) \<longleftrightarrow>
     fl = free_link i \<and> i < length cs \<and> free_chain cs (item_next (cs ! i)) is"

fun free_walk :: "nat \<Rightarrow> u64 list \<Rightarrow> u32 \<Rightarrow> nat list" where
  "free_walk 0 cs fl = []"
| "free_walk (Suc n) cs fl =
     (if fl = 0 then []
      else let i = unat (drop_bit 1 fl) in i # free_walk n cs (item_next (cs ! i)))"

definition map_free_ids :: "pinos_map \<Rightarrow> nat list" where
  "map_free_ids m = free_walk (length (cells m)) (cells m) (free_list m)"

definition map_live :: "pinos_map \<Rightarrow> nat set" where
  "map_live m = {..<length (cells m)} - set (map_free_ids m)"

definition map_wf :: "pinos_map \<Rightarrow> bool" where
  "map_wf m \<longleftrightarrow> array_ok (items m) \<and> unat (arr_size (items m)) = 8 * length (cells m) \<and>
     length (cells m) < 2147483648 \<and> distinct (map_free_ids m) \<and>
     free_chain (cells m) (free_list m) (map_free_ids m)"

lemma free_chain_bound: "free_chain cs fl is \<Longrightarrow> set is \<subseteq> {..<length cs}"
  by (induction cs fl "is" rule: free_chain.induct) auto

lemma free_walk_chain:
  assumes "free_chain cs fl is" and "length is \<le> n" and "length cs < 2147483648"
  shows "free_walk n cs fl = is"
  using assms
proof (induction cs fl "is" arbitrary: n rule: free_chain.induct)
  case (1 cs fl)
  then show ?case by (cases n) auto
next
  case (2 cs fl i "is")
  then obtain k where "n = Suc k" by (cases n) auto
  with 2 show ?case by (auto simp: Let_def unat_free_link)
qed

lemma free_chain_update:
  "free_chain cs fl is \<Longrightarrow> j \<notin> set is \<Longrightarrow> free_chain (cs[j := c]) fl is"
  by (induction cs fl "is" rule: free_chain.induct) auto

lemma free_chain_append: "free_chain cs fl is \<Longrightarrow> free_chain (cs @ ds) fl is"
  by (induction cs fl "is" rule: free_chain.induct) (auto simp: nth_append)

lemma map_wfI:
  assumes "free_chain (cells m) (free_list m) is" and "distinct is"
    and "length (cells m) < 2147483648" and "array_ok (items m)"
    and "unat (arr_size (items m)) = 8 * length (cells m)"
  shows "map_wf m" and "map_free_ids m = is"
proof -
  have "card (set is) \<le> card {..<length (cells m)}"
    using free_chain_bound [OF assms(1)] by (intro card_mono) auto
  then have "length is \<le> length (cells m)" using assms(2) by (simp add: distinct_card)
  then show *: "map_free_ids m = is" using free_walk_chain assms by (simp add: map_free_ids_def)
  show "map_wf m" using assms * by (simp add: map_wf_def)
qed

lemma map_wf_size:
  assumes "map_wf m"
  shows "unat (pinos_map_get_size m) = length (cells m)"
  using assms by (simp add: map_wf_def pinos_map_get_size_def unat_div)

lemma check_id_iff:
  assumes "map_wf m"
  shows "pinos_map_check_id m i \<longleftrightarrow> unat i < length (cells m)"
proof -
  have "unat (ucast i :: u64) = unat i"
    using unsigned_less [of i, where 'a = nat] by (simp add: unsigned_ucast_eq take_bit_nat_eq_self)
  then show ?thesis using map_wf_size [OF assms] by (simp add: pinos_map_check_id_def word_less_nat_alt)
qed

lemma lookup_cell:
  assumes "map_wf m" and "unat i < length (cells m)"
  shows "pinos_map_lookup m i = Some (if even (cells m ! unat i) then cells m ! unat i else 0)"
  using assms by (simp add: pinos_map_lookup_def check_id_iff pinos_map_get_item_def is_free_iff_odd)

lemma map_live_lookup:
  assumes "map_wf m" and "i \<in> map_live m" and "even (cells m ! i)"
  shows "pinos_map_lookup m (of_nat i) = Some (cells m ! i)"
proof -
  have i: "i < length (cells m)" using assms(2) by (simp add: map_live_def)
  then have "unat (of_nat i :: u32) = i" using assms(1) by (simp add: map_wf_def unat_of_nat)
  then show ?thesis using lookup_cell [OF assms(1), of "of_nat i"] i assms(3) by simp
qed

subsection \<open>The operations on the invariant\<close>

lemma map_init_wf:
  assumes "0 < ext" and "unat ext \<le> 2 ^ 62" and "unat sz \<le> 2 ^ 32" and "\<And>n. realloc_ok n"
  shows "\<exists>m. pinos_map_init realloc_ok sz ext = Some m \<and> map_wf m \<and> map_live m = {} \<and> cells m = []"
proof -
  have sz8: "unat (sz * 8) = 8 * unat sz"
    using assms(3) by (subst unat_mult_lem [THEN iffD1]) simp_all
  obtain a where a: "array_grow ext (sz * 8) = Some a" "sz * 8 \<le> a"
      "ext < sz * 8 \<longrightarrow> unat a < 2 * unat (sz * 8)" "\<not> ext < sz * 8 \<longrightarrow> a = ext"
    using array_grow_returns [OF assms(1), of "sz * 8"] sz8 assms(3) by auto
  have "unat a \<le> 2 ^ 62" using a(3,4) assms(2,3) sz8 by (cases "ext < sz * 8") auto
  with a show ?thesis
    using assms
    by (auto simp: pinos_map_init_def pinos_array_ensure_size_def pinos_array_init_def Let_def
        max_def map_wf_def map_live_def map_free_ids_def array_ok_def)
qed

lemma unat_word_ucast_u32: "unat (w :: u64) = n \<Longrightarrow> (ucast w :: u32) = of_nat n"
  by (metis of_nat_unat ucast_id)

lemma map_insert_new_reuse:
  assumes wf: "map_wf m" and fl: "map_free_ids m = i # is"
    and m': "m' = m\<lparr>free_list := item_next (cells m ! i), cells := (cells m)[i := v]\<rparr>"
  shows "pinos_map_insert_new ro m v = Some (of_nat i, m')"
    and "map_wf m'" and "map_free_ids m' = is" and "i < length (cells m)"
proof -
  have c: "free_list m = free_link i" "i < length (cells m)" "free_chain (cells m) (item_next (cells m ! i)) is"
    and d: "i \<notin> set is" "distinct is" and len: "length (cells m) < 2147483648"
    using wf fl by (auto simp: map_wf_def)
  show "pinos_map_insert_new ro m v = Some (of_nat i, m')"
    using c len by (simp add: pinos_map_insert_new_def unat_free_link m')
  show "map_wf m'" "map_free_ids m' = is"
    using map_wfI [of m' "is"] free_chain_update [OF c(3) d(1), of v] d len wf
    by (auto simp: map_wf_def m')
  show "i < length (cells m)" by (rule c)
qed

lemma map_insert_new_grow:
  assumes wf: "map_wf m" and fl: "map_free_ids m = []" and room: "length (cells m) < 2147483647"
    and mem: "\<And>n. ro n"
  shows "\<exists>arr. pinos_map_insert_new ro m v =
      Some (of_nat (length (cells m)), m\<lparr>items := arr, cells := cells m @ [v]\<rparr>) \<and>
    map_wf (m\<lparr>items := arr, cells := cells m @ [v]\<rparr>) \<and>
    map_free_ids (m\<lparr>items := arr, cells := cells m @ [v]\<rparr>) = []"
proof -
  have c: "free_list m = 0" and sz: "unat (arr_size (items m)) = 8 * length (cells m)"
    and ok: "array_ok (items m)" using wf fl by (auto simp: map_wf_def)
  obtain arr where arr: "pinos_array_add ro (items m) 8 = Some (Some (arr_size (items m)), arr)"
      "array_ok arr" "unat (arr_size arr) = unat (arr_size (items m)) + 8"
    using array_add_ok [OF ok, of 8 ro] sz room mem by auto
  have "unat (arr_size (items m) div 8) = length (cells m)" using sz by (simp add: unat_div)
  then have "(ucast (arr_size (items m) div 8) :: u32) = of_nat (length (cells m))"
    by (simp add: unat_word_ucast_u32)
  then show ?thesis
    using arr c sz room map_wfI [of "m\<lparr>items := arr, cells := cells m @ [v]\<rparr>" "[]"]
    by (auto simp: pinos_map_insert_new_def)
qed

lemma map_remove_live:
  assumes wf: "map_wf m" and live: "unat i \<in> map_live m"
    and m': "m' = m\<lparr>cells := (cells m)[unat i := set_item_next (cells m ! unat i) (free_list m)],
      free_list := free_link (unat i)\<rparr>"
  shows "pinos_map_remove m i = Some m'"
    and "map_wf m'" and "map_free_ids m' = unat i # map_free_ids m"
proof -
  have i: "unat i < length (cells m)" "unat i \<notin> set (map_free_ids m)"
    using live by (auto simp: map_live_def)
  show "pinos_map_remove m i = Some m'"
    using i by (simp add: pinos_map_remove_def pinos_map_get_item_def free_link_def m')
  have "free_chain (cells m') (free_list m') (unat i # map_free_ids m)"
    using wf i free_chain_update [of "cells m" "free_list m" "map_free_ids m" "unat i"]
    by (simp add: map_wf_def m')
  then show "map_wf m'" "map_free_ids m' = unat i # map_free_ids m"
    using map_wfI [of m' "unat i # map_free_ids m"] wf i by (auto simp: map_wf_def m')
qed

section \<open>The interface: an allocator of ids\<close>

primrec alloc_all :: "('v \<Rightarrow> 'm \<Rightarrow> (nat \<times> 'm) option) \<Rightarrow> 'v list \<Rightarrow> 'm \<Rightarrow> (nat list \<times> 'm) option" where
  "alloc_all ins [] m = Some ([], m)"
| "alloc_all ins (v # vs) m =
     (case ins v m of
        None \<Rightarrow> None
      | Some (i, m1) \<Rightarrow>
          (case alloc_all ins vs m1 of None \<Rightarrow> None | Some (is, m2) \<Rightarrow> Some (i # is, m2)))"

datatype 'v alloc_op = Ins 'v | Del nat

text \<open>A run of insertions and removals next to the partial map it stands for; the run stops with
  \<open>None\<close> when an operation fails or when an id is handed out twice. Ids that are not in use are not
  removed.\<close>

fun alloc_run :: "('v \<Rightarrow> 'm \<Rightarrow> (nat \<times> 'm) option) \<Rightarrow> (nat \<Rightarrow> 'm \<Rightarrow> 'm option) \<Rightarrow>
    'v alloc_op list \<Rightarrow> 'm \<Rightarrow> (nat \<rightharpoonup> 'v) \<Rightarrow> ('m \<times> (nat \<rightharpoonup> 'v)) option" where
  "alloc_run ins del [] m A = Some (m, A)"
| "alloc_run ins del (Ins v # ops) m A =
     (case ins v m of
        None \<Rightarrow> None
      | Some (i, m') \<Rightarrow> if A i \<noteq> None then None else alloc_run ins del ops m' (A(i \<mapsto> v)))"
| "alloc_run ins del (Del i # ops) m A =
     (if A i = None then alloc_run ins del ops m A
      else case del i m of None \<Rightarrow> None | Some m' \<Rightarrow> alloc_run ins del ops m' (A(i := None)))"

locale id_allocator =
  fixes wf :: "'m \<Rightarrow> bool"
    and live :: "'m \<Rightarrow> nat set"
    and room :: "'m \<Rightarrow> nat"
    and val :: "'m \<Rightarrow> nat \<Rightarrow> 'v"
    and ins :: "'v \<Rightarrow> 'm \<Rightarrow> (nat \<times> 'm) option"
    and del :: "nat \<Rightarrow> 'm \<Rightarrow> 'm option"
  assumes ins_ok: "wf m \<Longrightarrow> 0 < room m \<Longrightarrow>
      \<exists>i m'. ins v m = Some (i, m') \<and> wf m' \<and> i \<notin> live m \<and> live m' = insert i (live m) \<and>
        val m' i = v \<and> (\<forall>j \<in> live m. val m' j = val m j) \<and> room m \<le> Suc (room m')"
    and del_ok: "wf m \<Longrightarrow> i \<in> live m \<Longrightarrow>
      \<exists>m'. del i m = Some m' \<and> wf m' \<and> live m' = live m - {i} \<and>
        (\<forall>j \<in> live m'. val m' j = val m j) \<and> room m \<le> room m'"
begin

lemma alloc_all_fresh:
  assumes "wf m" and "length vs \<le> room m"
  shows "\<exists>is m'. alloc_all ins vs m = Some (is, m') \<and> wf m' \<and> distinct is \<and>
    set is \<inter> live m = {} \<and> live m' = live m \<union> set is \<and> map (val m') is = vs \<and>
    (\<forall>j \<in> live m. val m' j = val m j)"
  using assms
proof (induction vs arbitrary: m)
  case (Cons v vs)
  obtain i m1 where 1: "ins v m = Some (i, m1)" "wf m1" "i \<notin> live m" "live m1 = insert i (live m)"
      "val m1 i = v" "\<forall>j \<in> live m. val m1 j = val m j" "room m \<le> Suc (room m1)"
    using ins_ok [of m v] Cons.prems by auto
  obtain "is" m2 where 2: "alloc_all ins vs m1 = Some (is, m2)" "wf m2" "distinct is"
      "set is \<inter> live m1 = {}" "live m2 = live m1 \<union> set is" "map (val m2) is = vs"
      "\<forall>j \<in> live m1. val m2 j = val m1 j"
    using Cons.IH [of m1] 1 Cons.prems(2) by auto
  have "alloc_all ins (v # vs) m = Some (i # is, m2)" using 1 2 by simp
  moreover have "distinct (i # is)" "set (i # is) \<inter> live m = {}"
      "live m2 = live m \<union> set (i # is)" "map (val m2) (i # is) = v # vs"
      "\<forall>j \<in> live m. val m2 j = val m j"
    using 1 2 by auto
  ultimately show ?case using 2(2) by (intro exI [of _ "i # is"] exI [of _ m2]) simp
qed auto

lemma alloc_run_refines:
  assumes "wf m" and "length ops \<le> room m" and "live m = dom A" and "\<And>i v. A i = Some v \<Longrightarrow> val m i = v"
  shows "\<exists>m' A'. alloc_run ins del ops m A = Some (m', A') \<and> wf m' \<and> live m' = dom A' \<and>
    (\<forall>i v. A' i = Some v \<longrightarrow> val m' i = v) \<and> ran A' \<subseteq> ran A \<union> {v. Ins v \<in> set ops}"
  using assms
proof (induction ops arbitrary: m A)
  case Nil
  then show ?case by auto
next
  case (Cons a ops)
  show ?case
  proof (cases a)
    case (Ins v)
    obtain i m1 where 1: "ins v m = Some (i, m1)" "wf m1" "i \<notin> live m" "live m1 = insert i (live m)"
        "val m1 i = v" "\<forall>j \<in> live m. val m1 j = val m j" "room m \<le> Suc (room m1)"
      using ins_ok [of m v] Cons.prems(1,2) by auto
    have none: "A i = None" using 1(3) Cons.prems(3) by auto
    have step: "alloc_run ins del (a # ops) m A = alloc_run ins del ops m1 (A(i \<mapsto> v))"
      using Ins 1(1) none by simp
    have d: "live m1 = dom (A(i \<mapsto> v))" "length ops \<le> room m1" using 1 Cons.prems by auto
    have "val m1 j = w" if "(A(i \<mapsto> v)) j = Some w" for j w
      using that 1(5,6) Cons.prems(3,4) by (metis domI map_upd_Some_unfold)
    from Cons.IH [OF 1(2) d(2,1) this] show ?thesis
      unfolding step using Ins none by (fastforce simp: ran_map_upd)
  next
    case (Del i)
    show ?thesis
    proof (cases "A i")
      case None
      then have step: "alloc_run ins del (a # ops) m A = alloc_run ins del ops m A" using Del by simp
      show ?thesis unfolding step using Cons.IH [of m A] Cons.prems Del by fastforce
    next
      case (Some v)
      have "i \<in> live m" using Some Cons.prems(3) by auto
      from del_ok [OF Cons.prems(1) this]
      obtain m1 where 1: "del i m = Some m1" "wf m1" "live m1 = live m - {i}"
          "\<forall>j \<in> live m1. val m1 j = val m j" "room m \<le> room m1"
        by blast
      have step: "alloc_run ins del (a # ops) m A = alloc_run ins del ops m1 (A(i := None))"
        using Del 1(1) Some by simp
      have "live m1 = dom (A(i := None))" "length ops \<le> room m1" using 1 Cons.prems by auto
      moreover have "val m1 j = w" if "(A(i := None)) j = Some w" for j w
      proof -
        have "j \<in> live m1" "A j = Some w" using that 1(3) Cons.prems(3) by (auto split: if_splits)
        then show ?thesis using 1(4) Cons.prems(4) by simp
      qed
      moreover have "ran (A(i := None)) \<subseteq> ran A" by (auto simp: ran_def)
      ultimately show ?thesis
        unfolding step using Cons.IH [OF 1(2), of "A(i := None)"] Del by fastforce
    qed
  qed
qed

lemma realloc_after_free:
  assumes "wf m" and "i \<in> live m" and "0 < room m"
  shows "\<exists>m1 k m2. del i m = Some m1 \<and> ins v m1 = Some (k, m2) \<and> k \<notin> live m - {i} \<and> val m2 k = v \<and>
    (\<forall>j \<in> live m - {i}. val m2 j = val m j)"
proof -
  obtain m1 where 1: "del i m = Some m1" "wf m1" "live m1 = live m - {i}"
      "\<forall>j \<in> live m1. val m1 j = val m j" "room m \<le> room m1"
    using del_ok [OF assms(1,2)] by auto
  then show ?thesis using ins_ok [of m1 v] assms(3) by fastforce
qed

end

definition map_ins :: "u64 \<Rightarrow> pinos_map \<Rightarrow> (nat \<times> pinos_map) option" where
  "map_ins v m = map_option (\<lambda>(i, m'). (unat i, m')) (pinos_map_insert_new (\<lambda>_. True) m v)"

definition map_del :: "nat \<Rightarrow> pinos_map \<Rightarrow> pinos_map option" where
  "map_del i m = pinos_map_remove m (of_nat i)"

interpretation pmap: id_allocator map_wf map_live "\<lambda>m. 2147483647 - length (cells m)"
  "\<lambda>m i. cells m ! i" map_ins map_del
proof
  fix m :: pinos_map and v :: u64
  assume wf: "map_wf m" and room: "0 < 2147483647 - length (cells m)"
  show "\<exists>i m'. map_ins v m = Some (i, m') \<and> map_wf m' \<and> i \<notin> map_live m \<and>
      map_live m' = insert i (map_live m) \<and> cells m' ! i = v \<and>
      (\<forall>j \<in> map_live m. cells m' ! j = cells m ! j) \<and>
      2147483647 - length (cells m) \<le> Suc (2147483647 - length (cells m'))"
  proof (cases "map_free_ids m")
    case Nil
    then obtain arr where "pinos_map_insert_new (\<lambda>_. True) m v =
          Some (of_nat (length (cells m)), m\<lparr>items := arr, cells := cells m @ [v]\<rparr>)"
        "map_wf (m\<lparr>items := arr, cells := cells m @ [v]\<rparr>)"
        "map_free_ids (m\<lparr>items := arr, cells := cells m @ [v]\<rparr>) = []"
      using map_insert_new_grow [OF wf Nil, of "\<lambda>_. True" v] room by auto
    then show ?thesis
      using Nil room by (auto simp: map_ins_def map_live_def nth_append unat_of_nat)
  next
    case (Cons i "is")
    have "distinct (i # is)" using wf Cons by (simp add: map_wf_def)
    moreover note re = map_insert_new_reuse [OF wf Cons refl]
    ultimately show ?thesis
      using re(1) [of "\<lambda>_. True" v] re(2,3) [of v] re(4) Cons room
      by (auto simp: map_ins_def map_live_def unat_of_nat)
  qed
next
  fix m :: pinos_map and i
  assume wf: "map_wf m" and i: "i \<in> map_live m"
  have u: "unat (of_nat i :: u32) = i" using wf i by (auto simp: map_live_def map_wf_def unat_of_nat)
  show "\<exists>m'. map_del i m = Some m' \<and> map_wf m' \<and> map_live m' = map_live m - {i} \<and>
      (\<forall>j \<in> map_live m'. cells m' ! j = cells m ! j) \<and>
      2147483647 - length (cells m) \<le> 2147483647 - length (cells m')"
    using map_remove_live [OF wf _ refl, where i = "of_nat i"] i u by (auto simp: map_del_def map_live_def)
qed

section \<open>Correctness of the map\<close>

text \<open>C9. Whatever sequence of \<open>pinos_map_insert_new\<close> and \<open>pinos_map_remove\<close> is run on an initialised
  map, no operation fails, no id is handed out while it is in use, and every id in use looks up to the
  pointer it was inserted with: on the ids in use the map with its intrusive free list agrees with a partial map from ids
  to pointers. Of ids that are not in use nothing is said here; a lookup of one that was removed need not give the null pointer
  (shown below). Pointers are even, as the free-list tag needs, and memory is available.\<close>

theorem map_implements_partial_map:
  assumes init: "pinos_map_init (\<lambda>_. True) sz ext = Some m0" "0 < ext" "unat ext \<le> 2 ^ 62" "unat sz \<le> 2 ^ 32"
    and few: "length ops < 2147483648" and aligned: "\<And>v. Ins v \<in> set ops \<Longrightarrow> even v"
  shows "\<exists>m A. alloc_run map_ins map_del ops m0 Map.empty = Some (m, A) \<and>
    (\<forall>i v. A i = Some v \<longrightarrow> pinos_map_lookup m (of_nat i) = Some v)"
proof -
  have m0: "map_wf m0" "map_live m0 = {}" "cells m0 = []"
    using map_init_wf [of ext sz "\<lambda>_. True"] init by auto
  obtain m A where r: "alloc_run map_ins map_del ops m0 Map.empty = Some (m, A)" "map_wf m"
      "map_live m = dom A" "\<forall>i v. A i = Some v \<longrightarrow> cells m ! i = v" "ran A \<subseteq> {v. Ins v \<in> set ops}"
    using pmap.alloc_run_refines [of m0 ops Map.empty] m0 few by auto
  have "pinos_map_lookup m (of_nat i) = Some v" if "A i = Some v" for i v
  proof -
    have "i \<in> map_live m" "cells m ! i = v" "even v"
      using that r(3,4,5) aligned by (auto simp: ranI subset_iff)
    then show ?thesis using map_live_lookup [OF r(2), of i] by simp
  qed
  with r(1) show ?thesis by blast
qed

theorem map_implements_partial_map_witness:
  "\<exists>m A. alloc_run map_ins map_del [Ins 16, Ins 32, Del 0, Ins 64]
      \<lparr>items = \<lparr>arr_size = 0, arr_alloc = 64, arr_extend = 64\<rparr>, cells = [], free_list = 0\<rparr> Map.empty = Some (m, A) \<and>
    (\<forall>i v. A i = Some v \<longrightarrow> pinos_map_lookup m (of_nat i) = Some v)"
  by (rule map_implements_partial_map [of 8 64])
    (auto simp: pinos_map_init_def pinos_array_ensure_size_def pinos_array_init_def array_grow_done Let_def)

text \<open>C25. What a lookup of a removed id returns: the null pointer when another id was free before it, but
  when the free list was empty the link written over the pointer is \<open>0\<close>, which does not carry the
  tag of a free item, and the lookup returns what is left of the old pointer, its upper half.\<close>

theorem map_lookup_removed:
  assumes "map_wf m" and "unat i \<in> map_live m" and "pinos_map_remove m i = Some m'"
  shows "pinos_map_lookup m' i =
    Some (if map_free_ids m = [] then cells m ! unat i AND 0xffffffff00000000 else 0)"
proof -
  note rm = map_remove_live [OF assms(1,2) refl]
  have m': "m' = m\<lparr>cells := (cells m)[unat i := set_item_next (cells m ! unat i) (free_list m)],
      free_list := free_link (unat i)\<rparr>" and wf: "map_wf m'"
    using rm assms(3) by auto
  have i: "unat i < length (cells m)" using assms(2) by (simp add: map_live_def)
  have fl: "free_list m = 0 \<or> odd (free_list m)" "free_list m = 0 \<longleftrightarrow> map_free_ids m = []"
    using assms(1) by (cases "map_free_ids m"; auto simp: map_wf_def odd_free_link)+
  have l: "pinos_map_lookup m' i =
      Some (if odd (free_list m) then 0 else set_item_next (cells m ! unat i) (free_list m))"
    using lookup_cell [OF wf, of i] i m'
    by (simp add: set_item_next_parity)
  show ?thesis
    using fl by (cases "map_free_ids m = []") (auto simp: l set_item_next_0)
qed

definition one_item_map :: pinos_map where
  "one_item_map = \<lparr>items = \<lparr>arr_size = 8, arr_alloc = 64, arr_extend = 64\<rparr>,
     cells = [0x7f0012345670], free_list = 0\<rparr>"

theorem map_lookup_removed_witness:
  "pinos_map_lookup (the (pinos_map_remove one_item_map 0)) 0 = Some 0x7f0000000000"
proof -
  have "map_wf one_item_map" "unat (0 :: u32) \<in> map_live one_item_map" "map_free_ids one_item_map = []"
    by (simp_all add: one_item_map_def map_wf_def map_live_def map_free_ids_def array_ok_def)
  then show ?thesis
    using map_lookup_removed [of one_item_map 0 "the (pinos_map_remove one_item_map 0)"]
    by (simp add: one_item_map_def pinos_map_remove_def pinos_map_get_item_def)
qed

text \<open>C24. Growing an array whose capacity is too small returns, with room for the request and with a capacity of at most twice
  the memory needed or at most the extension step, whichever is more; with a capacity and an extension step of 0 it never
  returns.\<close>

theorem array_ensure_size_returns:
  assumes "unat (arr_size arr) + unat sz \<le> 2 ^ 63" and "arr_alloc arr < arr_size arr + sz"
  shows "(\<exists>arr'. pinos_array_ensure_size (\<lambda>_. True) arr sz = Some (True, arr') \<and>
      arr_size arr + sz \<le> arr_alloc arr' \<and> arr_size arr' = arr_size arr \<and>
      unat (arr_alloc arr') \<le> max (unat (arr_extend arr)) (2 * unat (arr_size arr + sz))) \<longleftrightarrow>
    arr_alloc arr \<noteq> 0 \<or> arr_extend arr \<noteq> 0"
proof -
  let ?need = "arr_size arr + sz" and ?start = "max (arr_alloc arr) (arr_extend arr)"
  have "unat ?need \<le> unat (arr_size arr) + unat sz" by (simp add: unat_word_ariths)
  then have need: "unat ?need \<le> 2 ^ 63" using assms(1) by simp
  show ?thesis
  proof (cases "?start = 0")
    case True
    then have "arr_alloc arr = 0" "arr_extend arr = 0" by (auto simp: max_def split: if_splits)
    moreover have "array_grow 0 ?need = None" using assms(2) calculation by (intro array_grow_zero) simp
    ultimately show ?thesis using assms(2) by (simp add: pinos_array_ensure_size_def)
  next
    case False
    then have pos: "0 < ?start" by (simp add: word_gt_0)
    obtain a where a: "array_grow ?start ?need = Some a" "?need \<le> a"
        "?start < ?need \<longrightarrow> unat a < 2 * unat ?need" "\<not> ?start < ?need \<longrightarrow> a = ?start"
      using array_grow_returns [OF pos need] by blast
    have "unat a \<le> max (unat (arr_extend arr)) (2 * unat ?need)"
    proof (cases "?start < ?need")
      case False
      then have "a = arr_extend arr" using a(4) assms(2) by (auto simp: max_def split: if_splits)
      then show ?thesis by simp
    qed (use a(3) in simp)
    moreover have "arr_alloc arr \<noteq> 0 \<or> arr_extend arr \<noteq> 0" using False by (auto simp: max_def split: if_splits)
    ultimately show ?thesis using a(1,2) assms(2) by (simp add: pinos_array_ensure_size_def Let_def)
  qed
qed

theorem array_ensure_size_returns_witness:
  "\<exists>arr'. pinos_array_ensure_size (\<lambda>_. True) \<lparr>arr_size = 60, arr_alloc = 64, arr_extend = 64\<rparr> 8 = Some (True, arr') \<and>
      68 \<le> arr_alloc arr' \<and> arr_size arr' = 60 \<and> unat (arr_alloc arr') \<le> 136"
  using array_ensure_size_returns [of "\<lparr>arr_size = 60, arr_alloc = 64, arr_extend = 64\<rparr>" 8] by simp

end
