(* ===== verification/Pinos_Pod_Remap.thy ===== *)
theory Pinos_Pod_Remap
  imports Spa_Pod Pinos_Map
begin

text \<open>
  Translation of type ids inside a received message: \<^verbatim>\<open>pinos_pod_remap_data\<close> of
  \<^verbatim>\<open>pinos/client/type.c\<close>. Each peer numbers types on its own; the receiver keeps a map from the ids of
  the peer to its own and rewrites ids, object types and property keys in place. The message is a block
  of \<open>L\<close> bytes addressed by position. The result separates the failures the code reports
  (\<open>R_false\<close>) from reads outside the block (\<open>R_fault\<close>) and from a loop over alternatives that does not
  advance because the element size in the message is zero (\<open>R_stuck\<close>).
\<close>

datatype remap_result = R_fault | R_stuck | R_false | R_ok "byte list"

definition remap_id :: "pinos_map \<Rightarrow> nat \<Rightarrow> nat \<Rightarrow> byte list \<Rightarrow> remap_result" where
  "remap_id types L pos mem =
     (if pos + 4 \<le> L
      then case pinos_map_lookup types (rd32 (drop pos mem)) of
             None \<Rightarrow> R_fault
           | Some t \<Rightarrow>
               if t = 0 then R_false
               else R_ok (take pos mem @ le32 (PINOS_MAP_PTR_TO_ID t) @ drop (pos + 4) mem)
      else R_fault)"

function remap_alternatives :: "pinos_map \<Rightarrow> nat \<Rightarrow> nat \<Rightarrow> nat \<Rightarrow> nat \<Rightarrow> byte list \<Rightarrow> remap_result" where
  "remap_alternatives types L pos fin step mem =
     (if fin < pos then R_ok mem
      else if step = 0 then R_stuck
      else if L < pos + 4 then R_fault
      else case remap_id types L pos mem of
             R_ok mem' \<Rightarrow> remap_alternatives types L (pos + step) fin step mem'
           | r \<Rightarrow> r)"
  by pat_completeness auto
termination
  by (relation "measure (\<lambda>(types, L, pos, fin, step, mem). L - pos)") auto

function pinos_pod_remap_data :: "pinos_map \<Rightarrow> nat \<Rightarrow> u32 \<Rightarrow> nat \<Rightarrow> u32 \<Rightarrow> byte list \<Rightarrow> remap_result"
  and remap_pods :: "pinos_map \<Rightarrow> nat \<Rightarrow> nat \<Rightarrow> nat \<Rightarrow> byte list \<Rightarrow> remap_result" where
  "pinos_pod_remap_data types L type pos sz mem =
     (if type = SPA_POD_TYPE_ID then remap_id types L pos mem
      else if type = SPA_POD_TYPE_PROP
      then if L < pos + 16 then R_fault
           else case remap_id types L pos mem of
                  R_ok mem1 \<Rightarrow>
                    let vsize = rd32 (drop (pos + 8) mem1) in
                    if rd32 (drop (pos + 12) mem1) = SPA_POD_TYPE_ID
                    then case remap_id types L (pos + 16) mem1 of
                           R_ok mem2 \<Rightarrow>
                             remap_alternatives types L (pos + 16 + unat vsize) (pos + unat (sz - vsize))
                               (unat vsize) mem2
                         | r \<Rightarrow> r
                    else R_ok mem1
                | r \<Rightarrow> r
      else if type = SPA_POD_TYPE_OBJECT
      then if L < pos + 8 then R_fault
           else case remap_id types L (pos + 4) mem of
                  R_ok mem1 \<Rightarrow> remap_pods types L (pos + 8) (pos + unat sz) mem1
                | r \<Rightarrow> r
      else if type = SPA_POD_TYPE_STRUCT then remap_pods types L pos (pos + unat sz) mem
      else R_ok mem)"
| "remap_pods types L pos stop mem =
     (if stop \<le> pos then R_ok mem
      else if L < pos + 8 then R_fault
      else case pinos_pod_remap_data types L (rd32 (drop (pos + 4) mem)) (pos + 8) (rd32 (drop pos mem)) mem of
             R_ok mem1 \<Rightarrow>
               remap_pods types L (pos + (SPA_POD_SIZE_at (drop pos mem1) + 7) div 8 * 8) stop mem1
           | r \<Rightarrow> r)"
  by pat_completeness auto
termination
  by (relation "measure (\<lambda>x. case x of
        Inl (types, L, type, pos, sz, mem) \<Rightarrow> 2 * (L - pos) + 1
      | Inr (types, L, pos, stop, mem) \<Rightarrow> 2 * (L - pos))")
    (auto simp: SPA_POD_SIZE_at_def)

declare remap_alternatives.simps [simp del] pinos_pod_remap_data.simps [simp del] remap_pods.simps [simp del]

section \<open>Locality\<close>

text \<open>What a successful translation does depends only on the block it runs in.\<close>

lemma rd32_at:
  assumes "pos + 4 \<le> length mem"
  shows "rd32 (drop (length pre + pos) (pre @ mem @ post)) = rd32 (drop pos mem)"
  using assms rd32_prefix [of "drop pos mem" post] by simp

lemma remap_id_local:
  assumes "remap_id types (length mem) pos mem = R_ok mem'"
  shows "length mem' = length mem \<and>
    remap_id types (length (pre @ mem @ post)) (length pre + pos) (pre @ mem @ post) = R_ok (pre @ mem' @ post)"
  using assms rd32_at [of pos mem pre post]
  by (auto simp: remap_id_def split: if_splits option.splits)

lemma remap_alternatives_local:
  assumes "remap_alternatives types (length mem) pos fin step mem = R_ok mem'"
  shows "length mem' = length mem \<and> remap_alternatives types (length (pre @ mem @ post)) (length pre + pos)
      (length pre + fin) step (pre @ mem @ post) = R_ok (pre @ mem' @ post)"
  using assms
proof (induction types "length mem" pos fin step mem rule: remap_alternatives.induct)
  case (1 types pos fin step mem)
  show ?case
  proof (cases "fin < pos")
    case True
    then show ?thesis using 1(2) by (simp add: remap_alternatives.simps)
  next
    case False
    then have st: "step \<noteq> 0" "\<not> length mem < pos + 4"
      using 1(2) by (subst (asm) remap_alternatives.simps; auto split: if_splits)+
    then obtain mem1 where m1: "remap_id types (length mem) pos mem = R_ok mem1"
      using 1(2) False by (subst (asm) remap_alternatives.simps) (auto split: remap_result.splits)
    note loc = remap_id_local [OF m1, of pre post]
    have "remap_alternatives types (length mem1) (pos + step) fin step mem1 = R_ok mem'"
      using 1(2) False st m1 loc by (subst (asm) remap_alternatives.simps) simp
    from 1(1) [OF False st m1 _ this] loc
    show ?thesis using False st by (subst remap_alternatives.simps) (simp add: add.assoc)
  qed
qed

lemma remap_local:
  "pinos_pod_remap_data types (length mem) type pos sz mem = R_ok mem' \<Longrightarrow>
    length mem' = length mem \<and> pinos_pod_remap_data types (length (pre @ mem @ post)) type (length pre + pos) sz
      (pre @ mem @ post) = R_ok (pre @ mem' @ post)"
  "remap_pods types (length mem) pos stop mem = R_ok mem' \<Longrightarrow>
    length mem' = length mem \<and> remap_pods types (length (pre @ mem @ post)) (length pre + pos) (length pre + stop)
      (pre @ mem @ post) = R_ok (pre @ mem' @ post)"
proof (induction types "length mem" type pos sz mem and types "length mem" pos stop mem
    arbitrary: mem' and mem' rule: pinos_pod_remap_data_remap_pods.induct)
  case (1 types type pos sz mem)
  note run = 1(3)
  consider (id) "type = SPA_POD_TYPE_ID" | (pr) "type = SPA_POD_TYPE_PROP" | (obj) "type = SPA_POD_TYPE_OBJECT"
    | (str) "type = SPA_POD_TYPE_STRUCT"
    | (other) "type \<noteq> SPA_POD_TYPE_ID" "type \<noteq> SPA_POD_TYPE_PROP" "type \<noteq> SPA_POD_TYPE_OBJECT" "type \<noteq> SPA_POD_TYPE_STRUCT"
    by blast
  then show ?case
  proof cases
    case id
    then show ?thesis using run remap_id_local [of types mem pos mem' pre post] by (simp add: pinos_pod_remap_data.simps)
  next
    case pr
    then have l: "\<not> length mem < pos + 16" using run by (auto simp: pinos_pod_remap_data.simps split: if_splits)
    obtain m1 where m1: "remap_id types (length mem) pos mem = R_ok m1"
      using run pr l by (auto simp: pinos_pod_remap_data.simps split: remap_result.splits)
    note loc1 = remap_id_local [OF m1, of pre post]
    have r: "rd32 (drop (length pre + pos + 8) (pre @ m1 @ post)) = rd32 (drop (pos + 8) m1)"
        "rd32 (drop (length pre + pos + 12) (pre @ m1 @ post)) = rd32 (drop (pos + 12) m1)"
      using rd32_at [of "pos + 8" m1 pre post] rd32_at [of "pos + 12" m1 pre post] l loc1 by (auto simp: add.assoc)
    show ?thesis
    proof (cases "rd32 (drop (pos + 12) m1) = SPA_POD_TYPE_ID")
      case True
      obtain m2 where m2: "remap_id types (length mem) (pos + 16) m1 = R_ok m2"
          "remap_alternatives types (length mem) (pos + 16 + unat (rd32 (drop (pos + 8) m1)))
            (pos + unat (sz - rd32 (drop (pos + 8) m1))) (unat (rd32 (drop (pos + 8) m1))) m2 = R_ok mem'"
        using run pr l m1 True by (auto simp: pinos_pod_remap_data.simps Let_def split: remap_result.splits)
      note loc2 = remap_id_local [of types m1 "pos + 16" m2 pre post]
      note loc3 = remap_alternatives_local [of types m2 _ _ _ mem' pre post]
      show ?thesis
        using pr l loc1 m2 loc2 loc3 [of "pos + 16 + unat (rd32 (drop (pos + 8) m1))"] r True
        by (simp add: pinos_pod_remap_data.simps Let_def add.assoc)
    next
      case False
      then show ?thesis using run pr l m1 loc1 r by (simp add: pinos_pod_remap_data.simps Let_def)
    qed
  next
    case obj
    then have l: "\<not> length mem < pos + 8" using run by (auto simp: pinos_pod_remap_data.simps split: if_splits)
    obtain m1 where m1: "remap_id types (length mem) (pos + 4) mem = R_ok m1"
      using run obj l by (auto simp: pinos_pod_remap_data.simps split: remap_result.splits)
    note loc1 = remap_id_local [OF m1, of pre post]
    have "remap_pods types (length m1) (pos + 8) (pos + unat sz) m1 = R_ok mem'"
      using run obj l m1 loc1 by (simp add: pinos_pod_remap_data.simps)
    from 1(1) [OF _ _ obj l m1 _ this] obj loc1 l show ?thesis
      by (simp add: pinos_pod_remap_data.simps add.assoc)
  next
    case str
    then have "remap_pods types (length mem) pos (pos + unat sz) mem = R_ok mem'"
      using run by (simp add: pinos_pod_remap_data.simps)
    from 1(2) [OF _ _ _ str this] str show ?thesis by (simp add: pinos_pod_remap_data.simps add.assoc)
  next
    case other
    then show ?thesis using run by (simp add: pinos_pod_remap_data.simps)
  qed
next
  case (2 types pos stop mem)
  show ?case
  proof (cases "stop \<le> pos")
    case True
    then show ?thesis using 2(3) by (simp add: remap_pods.simps)
  next
    case False
    then have l: "\<not> length mem < pos + 8" using 2(3) by (subst (asm) remap_pods.simps) (auto split: if_splits)
    let ?t = "rd32 (drop (pos + 4) mem)" and ?s = "rd32 (drop pos mem)"
    obtain m1 where m1: "pinos_pod_remap_data types (length mem) ?t (pos + 8) ?s mem = R_ok m1"
      using 2(3) False l by (subst (asm) remap_pods.simps) (auto split: remap_result.splits)
    note loc = 2(1) [OF False l m1]
    have nxt: "remap_pods types (length m1) (pos + (SPA_POD_SIZE_at (drop pos m1) + 7) div 8 * 8) stop m1 = R_ok mem'"
      using 2(3) False l m1 loc by (subst (asm) remap_pods.simps) simp
    note rest = 2(2) [OF False l m1 _ nxt]
    have r: "rd32 (drop (length pre + pos) (pre @ mem @ post)) = ?s"
        "rd32 (drop (length pre + pos + 4) (pre @ mem @ post)) = ?t"
        "rd32 (drop (length pre + pos) (pre @ m1 @ post)) = rd32 (drop pos m1)"
      using rd32_at [of pos mem pre post] rd32_at [of "pos + 4" mem pre post] rd32_at [of pos m1 pre post] l loc
      by (auto simp: add.assoc)
    show ?thesis
      using False l loc rest r by (subst remap_pods.simps) (simp add: SPA_POD_SIZE_at_def add.assoc)
  qed
qed

section \<open>Translating a message\<close>

text \<open>One encoded value and its translation, in any surroundings.\<close>

definition remaps :: "pinos_map \<Rightarrow> byte list \<Rightarrow> byte list \<Rightarrow> bool" where
  "remaps types e e' \<longleftrightarrow> 8 \<le> length e \<and> length e' = length e \<and> (SPA_POD_SIZE_at e + 7) div 8 * 8 = length e \<and>
     rd32 e' = rd32 e \<and>
     (\<forall>pre post. pinos_pod_remap_data types (length (pre @ e @ post)) (rd32 (drop 4 e)) (length pre + 8) (rd32 e)
        (pre @ e @ post) = R_ok (pre @ e' @ post))"

lemma remap_pods_step:
  assumes "remaps types e e'" and "length pre < stop"
  shows "remap_pods types (length (pre @ e @ post)) (length pre) stop (pre @ e @ post) =
    remap_pods types (length ((pre @ e') @ post)) (length (pre @ e')) stop ((pre @ e') @ post)"
proof -
  have e: "8 \<le> length e" "length e' = length e" "(SPA_POD_SIZE_at e + 7) div 8 * 8 = length e" "rd32 e' = rd32 e"
    using assms(1) by (auto simp: remaps_def)
  have "rd32 (drop (length pre) (pre @ e @ post)) = rd32 e"
      "rd32 (drop (length pre + 4) (pre @ e @ post)) = rd32 (drop 4 e)"
      "rd32 (drop (length pre) (pre @ e' @ post)) = rd32 e"
    using rd32_at [of 0 e pre post] rd32_at [of 4 e pre post] rd32_at [of 0 e' pre post] e by auto
  then show ?thesis
    using assms e by (subst remap_pods.simps) (simp add: remaps_def SPA_POD_SIZE_at_def)
qed

lemma remap_pods_list:
  assumes "list_all2 (remaps types) es es'"
  shows "remap_pods types (length (pre @ concat es @ post)) (length pre) (length pre + length (concat es))
      (pre @ concat es @ post) = R_ok (pre @ concat es' @ post) \<and> length (concat es') = length (concat es)"
  using assms
proof (induction arbitrary: pre rule: list_all2_induct)
  case Nil
  then show ?case by (simp add: remap_pods.simps)
next
  case (Cons e es e' es')
  have e: "8 \<le> length e" "length e' = length e" "(SPA_POD_SIZE_at e + 7) div 8 * 8 = length e"
    using Cons(1) by (auto simp: remaps_def)
  from Cons(3) [of "pre @ e'"] have IH: "remap_pods types (length ((pre @ e') @ concat es @ post)) (length (pre @ e'))
      (length (pre @ e') + length (concat es)) ((pre @ e') @ concat es @ post) = R_ok ((pre @ e') @ concat es' @ post)"
      "length (concat es') = length (concat es)" by blast+
  have lt: "length pre < length pre + length (e @ concat es)" using e(1) by (cases e) auto
  have "remap_pods types (length (pre @ e @ concat es @ post)) (length pre) (length pre + length (e @ concat es))
      (pre @ e @ concat es @ post) = R_ok ((pre @ e') @ concat es' @ post)"
    using remap_pods_step [OF Cons(1) lt, of "concat es @ post"] e IH(1) by (simp add: add.assoc)
  then show ?case using IH(2) e(2) by simp
qed

lemma remaps_same:
  assumes "8 \<le> length e" and "(SPA_POD_SIZE_at e + 7) div 8 * 8 = length e"
    and "rd32 (drop 4 e) \<notin> {SPA_POD_TYPE_ID, SPA_POD_TYPE_PROP, SPA_POD_TYPE_OBJECT, SPA_POD_TYPE_STRUCT}"
  shows "remaps types e e"
  using assms by (auto simp: remaps_def pinos_pod_remap_data.simps)

text \<open>A struct of values that can be translated.\<close>

lemma remaps_struct:
  assumes "list_all2 (remaps types) es es'" and "length (concat es) < 2147483648" and "8 dvd length (concat es)"
  shows "remaps types (pod_header (of_nat (length (concat es))) SPA_POD_TYPE_STRUCT @ concat es)
    (pod_header (of_nat (length (concat es))) SPA_POD_TYPE_STRUCT @ concat es')"
proof -
  let ?n = "length (concat es)"
  let ?h = "pod_header (of_nat ?n) SPA_POD_TYPE_STRUCT"
  have u: "unat (of_nat ?n :: u32) = ?n" using assms(2) by (simp add: unat_of_nat)
  obtain k where k: "?n = 8 * k" using assms(3) by blast
  have "remap_pods types (length (pre @ ?h @ concat es @ post)) (length pre + 8) (length pre + 8 + ?n)
      (pre @ ?h @ concat es @ post) = R_ok (pre @ ?h @ concat es' @ post) \<and> length (concat es') = ?n" for pre post
  proof -
    have "remap_pods types (length ((pre @ ?h) @ concat es @ post)) (length (pre @ ?h)) (length (pre @ ?h) + ?n)
        ((pre @ ?h) @ concat es @ post) = R_ok ((pre @ ?h) @ concat es' @ post) \<and> length (concat es') = ?n"
      using remap_pods_list [OF assms(1)] by blast
    then show ?thesis by simp
  qed
  then show ?thesis
    using u k by (simp add: remaps_def SPA_POD_SIZE_at_def pinos_pod_remap_data.simps)
qed

text \<open>The arguments of a message before and after translation.\<close>

definition remaps_to :: "pinos_map \<Rightarrow> u32 \<Rightarrow> u32 \<Rightarrow> bool" where
  "remaps_to types i j \<longleftrightarrow> (\<exists>t. pinos_map_lookup types i = Some t \<and> t \<noteq> 0 \<and> PINOS_MAP_PTR_TO_ID t = j)"

definition pod_remaps :: "pinos_map \<Rightarrow> byte list \<Rightarrow> byte list \<Rightarrow> bool" where
  "pod_remaps types bs bs' \<longleftrightarrow> pod_of_type SPA_POD_TYPE_OBJECT bs \<and> pod_of_type SPA_POD_TYPE_OBJECT bs' \<and>
     pinos_pod_remap_data types (length bs) SPA_POD_TYPE_OBJECT 8 (rd32 bs) bs = R_ok bs'"

definition arg_remaps :: "pinos_map \<Rightarrow> pod_arg \<Rightarrow> pod_arg \<Rightarrow> bool" where
  "arg_remaps types a a' \<longleftrightarrow>
     (case a of
        A_Id i \<Rightarrow> (\<exists>j. a' = A_Id j \<and> remaps_to types i j)
      | A_Pod p \<Rightarrow>
          (case p of None \<Rightarrow> a' = a | Some bs \<Rightarrow> (\<exists>bs'. a' = A_Pod (Some bs') \<and> pod_remaps types bs bs'))
      | _ \<Rightarrow> enc_ok a \<and> a' = a)"

lemma remaps_prim:
  assumes "arg_parts a = Some (pod_header sz t, Some body, False)" and "sz = of_nat (length body)"
    and "length body < 2147483648" and "t \<notin> {SPA_POD_TYPE_ID, SPA_POD_TYPE_PROP, SPA_POD_TYPE_OBJECT, SPA_POD_TYPE_STRUCT}"
  shows "remaps types (enc a) (enc a)"
proof (rule remaps_same)
  have "unat (of_nat (length body) :: u32) = length body" using assms(3) by (simp add: unat_of_nat)
  moreover have "(8 + length body + 7) div 8 * 8 = 8 + ((length body + 7) div 8 * 8)" by presburger
  moreover have "length body \<le> (length body + 7) div 8 * 8" by presburger
  ultimately show "(SPA_POD_SIZE_at (enc a) + 7) div 8 * 8 = length (enc a)"
    by (simp add: enc_prim [OF assms(1)] SPA_POD_SIZE_at_def assms(2) zero_pad_def)
qed (use assms(4) in \<open>simp_all add: enc_prim [OF assms(1)]\<close>)

lemma enc_id: "enc (A_Id i) = pod_header 4 SPA_POD_TYPE_ID @ le32 i @ [0, 0, 0, 0]"
proof -
  have "zero_pad 4 = [0, 0, 0, 0]" by (simp add: zero_pad_def) (simp add: numeral_eq_Suc)
  then show ?thesis by (simp add: enc_def)
qed

lemma remaps_id:
  assumes "remaps_to types i j"
  shows "remaps types (enc (A_Id i)) (enc (A_Id j))"
proof -
  obtain t where t: "pinos_map_lookup types i = Some t" "t \<noteq> 0" "PINOS_MAP_PTR_TO_ID t = j"
    using assms by (auto simp: remaps_to_def)
  have "pinos_pod_remap_data types (length (pre @ enc (A_Id i) @ post)) SPA_POD_TYPE_ID (length pre + 8) 4
      (pre @ enc (A_Id i) @ post) = R_ok (pre @ enc (A_Id j) @ post)" for pre post
  proof -
    have "rd32 (drop (length pre + 8) (pre @ enc (A_Id i) @ post)) = i"
      by (simp add: enc_id)
    then show ?thesis using t by (simp add: pinos_pod_remap_data.simps remap_id_def enc_id)
  qed
  then show ?thesis by (simp add: remaps_def enc_id SPA_POD_SIZE_at_def)
qed

lemma remaps_pod:
  assumes "pod_remaps types bs bs'"
  shows "remaps types (enc (A_Pod (Some bs))) (enc (A_Pod (Some bs')))"
proof -
  have p: "pod_of_type SPA_POD_TYPE_OBJECT bs" "pod_of_type SPA_POD_TYPE_OBJECT bs'"
      "pinos_pod_remap_data types (length bs) SPA_POD_TYPE_OBJECT 8 (rd32 bs) bs = R_ok bs'"
    using assms by (auto simp: pod_remaps_def)
  note loc = remap_local(1) [OF p(3)]
  have len: "length bs' = length bs" using loc by blast
  then have "unat (rd32 bs') = unat (rd32 bs)" using p(1,2) by (simp add: pod_of_type_def)
  then have sz: "rd32 bs' = rd32 bs" by (simp add: word_unat_eq_iff)
  note h = pod_collect_head(1,2) [OF p(1)] pod_collect_head(1,2) [OF p(2)]
  have "pinos_pod_remap_data types (length (pre @ (bs @ zero_pad (length bs)) @ post)) SPA_POD_TYPE_OBJECT
      (length pre + 8) (rd32 bs) (pre @ (bs @ zero_pad (length bs)) @ post) =
      R_ok (pre @ (bs' @ zero_pad (length bs)) @ post)" for pre post
    using loc [of pre "zero_pad (length bs) @ post"] by simp
  then show ?thesis
    using reads_pod_size [OF p(1)] h len sz
    by (simp add: remaps_def enc_def pod_bytes_of_type [OF p(1)] pod_bytes_of_type [OF p(2)] del: drop_append)
qed

lemma remaps_null: "remaps types (enc (A_Pod None)) (enc (A_Pod None))"
  by (rule remaps_same) (simp_all add: enc_def pod_bytes_def SPA_POD_SIZE_at_def zero_pad_def)

lemma arg_remaps_enc:
  assumes "arg_remaps types a a'"
  shows "remaps types (enc a) (enc a')" and "enc_ok a"
proof -
  consider (i) i j where "a = A_Id i" "a' = A_Id j" "remaps_to types i j"
    | (p) bs bs' where "a = A_Pod (Some bs)" "a' = A_Pod (Some bs')" "pod_remaps types bs bs'"
    | (n) "a = A_Pod None" "a' = A_Pod None"
    | (o) "enc_ok a" "a' = a" "\<And>p. a \<noteq> A_Pod p" "\<And>i. a \<noteq> A_Id i"
    using assms by (cases a) (auto simp: arg_remaps_def split: option.splits)
  then have "remaps types (enc a) (enc a') \<and> enc_ok a"
  proof cases
    case i
    then show ?thesis using remaps_id by (simp add: enc_ok_def)
  next
    case p
    then show ?thesis
      using remaps_pod pod_bytes_of_type [of SPA_POD_TYPE_OBJECT bs]
      by (auto simp: enc_ok_def pod_remaps_def pod_of_type_def)
  next
    case n
    then show ?thesis using remaps_null by (simp add: enc_ok_def pod_bytes_def)
  next
    case o
    then have "\<exists>sz t body. arg_parts a = Some (pod_header sz t, Some body, False) \<and> sz = of_nat (length body) \<and>
        length body < 2147483648 \<and>
        t \<notin> {SPA_POD_TYPE_ID, SPA_POD_TYPE_PROP, SPA_POD_TYPE_OBJECT, SPA_POD_TYPE_STRUCT}"
      by (cases a) (auto simp: enc_ok_def le64_def split: option.splits)
    then obtain sz t body where "arg_parts a = Some (pod_header sz t, Some body, False)" "sz = of_nat (length body)"
        "length body < 2147483648"
        "t \<notin> {SPA_POD_TYPE_ID, SPA_POD_TYPE_PROP, SPA_POD_TYPE_OBJECT, SPA_POD_TYPE_STRUCT}" by blast
    from remaps_prim [OF this] o show ?thesis by simp
  qed
  then show "remaps types (enc a) (enc a')" "enc_ok a" by auto
qed

text \<open>The call of the receivers: the whole message as the contents of a struct.\<close>

definition remap_message :: "pinos_map \<Rightarrow> byte list \<Rightarrow> remap_result" where
  "remap_message types data =
     pinos_pod_remap_data types (length data) SPA_POD_TYPE_STRUCT 0 (of_nat (length data)) data"

lemma remap_message_struct:
  assumes "list_all2 (remaps types) es es'" and "length (concat es) < 1073741824" and "8 dvd length (concat es)"
  shows "remap_message types (pod_header (of_nat (length (concat es))) SPA_POD_TYPE_STRUCT @ concat es) =
    R_ok (pod_header (of_nat (length (concat es))) SPA_POD_TYPE_STRUCT @ concat es')"
proof -
  let ?h = "pod_header (of_nat (length (concat es))) SPA_POD_TYPE_STRUCT"
  have "list_all2 (remaps types) [?h @ concat es] [?h @ concat es']"
    using remaps_struct [OF assms(1) _ assms(3)] assms(2) by simp
  from remap_pods_list [OF this, of "[]" "[]"]
  have "remap_pods types (length (?h @ concat es)) 0 (length (?h @ concat es)) (?h @ concat es) = R_ok (?h @ concat es')"
    by simp
  moreover have "unat (of_nat (length (?h @ concat es)) :: u32) = length (?h @ concat es)"
    using assms(2) by (simp add: unat_of_nat unat_word_ariths)
  ultimately show ?thesis unfolding remap_message_def by (subst pinos_pod_remap_data.simps) simp
qed

end
