(* ===== verification/Pinos_Connection.thy ===== *)
theory Pinos_Connection
  imports Pinos_Prelude
begin

text \<open>
  The packet connection of \<^verbatim>\<open>pinos/client/connection.c\<close>: packets of a 32-bit destination id, a
  word holding an 8-bit opcode and a 24-bit length, and the payload, over a stream socket, with file
  descriptors passed beside the bytes. A buffer is the list of its valid bytes
  (\<^verbatim>\<open>buffer_data\<close> up to \<^verbatim>\<open>buffer_size\<close>) with the allocated size next to
  it; \<^verbatim>\<open>size_t\<close> values are natural numbers, the header word is a 32-bit word. The kernel
  side of the socket is a parameter: the bytes that are pending and a list of the outcomes of the
  successive \<^verbatim>\<open>recvmsg\<close> calls, each of which hands over as many bytes as it likes up to the room in
  the buffer. \<open>None\<close> is a call that does not return (the outcomes are used up: the call blocks).
\<close>

abbreviation (input) MAX_BUFFER_SIZE :: nat where "MAX_BUFFER_SIZE \<equiv> 4096"
abbreviation (input) MAX_FDS :: nat where "MAX_FDS \<equiv> 28"

record connection_buffer =
  buffer_data :: "byte list"
  buffer_maxsize :: nat
  fds :: "int list"
  cb_offset :: nat
  cb_size :: nat
  update :: bool

record pinos_connection =
  conn_in :: connection_buffer
  conn_out :: connection_buffer

definition round_up_nat :: "nat \<Rightarrow> nat \<Rightarrow> nat" where
  "round_up_nat n a = (n + (a - 1)) div a * a"

definition new_buffer :: "bool \<Rightarrow> connection_buffer" where
  "new_buffer upd = \<lparr>buffer_data = [], buffer_maxsize = MAX_BUFFER_SIZE, fds = [], cb_offset = 0,
     cb_size = 0, update = upd\<rparr>"

definition pinos_connection_new :: pinos_connection where
  "pinos_connection_new = \<lparr>conn_in = new_buffer True, conn_out = new_buffer False\<rparr>"

definition pinos_connection_get_fd :: "pinos_connection \<Rightarrow> u32 \<Rightarrow> int" where
  "pinos_connection_get_fd conn index =
     (if unat index \<ge> length (fds (conn_in conn)) then - 1 else fds (conn_in conn) ! unat index)"

fun find_fd :: "int list \<Rightarrow> nat \<Rightarrow> int \<Rightarrow> nat option" where
  "find_fd [] i fd = None"
| "find_fd (x # xs) i fd = (if x = fd then Some i else find_fd xs (Suc i) fd)"

definition pinos_connection_add_fd :: "pinos_connection \<Rightarrow> int \<Rightarrow> u32 \<times> pinos_connection" where
  "pinos_connection_add_fd conn fd =
     (let out = conn_out conn in
      case find_fd (fds out) 0 fd of
        Some i \<Rightarrow> (of_nat i, conn)
      | None \<Rightarrow>
          let index = length (fds out) in
          if index \<ge> MAX_FDS then (- 1, conn)
          else (of_nat index, conn\<lparr>conn_out := out\<lparr>fds := fds out @ [fd]\<rparr>\<rparr>))"

definition connection_ensure_size :: "connection_buffer \<Rightarrow> nat \<Rightarrow> connection_buffer" where
  "connection_ensure_size buf sz =
     (if length (buffer_data buf) + sz > buffer_maxsize buf
      then buf\<lparr>buffer_maxsize := round_up_nat (length (buffer_data buf) + sz) MAX_BUFFER_SIZE\<rparr>
      else buf)"

definition clear_buffer :: "connection_buffer \<Rightarrow> connection_buffer" where
  "clear_buffer buf = buf\<lparr>fds := [], cb_offset := 0, cb_size := 0, buffer_data := []\<rparr>"

section \<open>Receiving\<close>

text \<open>One outcome of \<^verbatim>\<open>recvmsg\<close>: interrupted, failed, or up to a number of bytes with the descriptors
  of an attached control message.\<close>

datatype recv_event = Recv_eintr | Recv_error | Recv nat "int list option"

record socket =
  pending :: "byte list"
  events :: "recv_event list"

fun refill_buffer :: "recv_event list \<Rightarrow> byte list \<Rightarrow> connection_buffer \<Rightarrow>
    (bool \<times> connection_buffer \<times> socket) option" where
  "refill_buffer [] pend buf = None"
| "refill_buffer (Recv_eintr # es) pend buf = refill_buffer es pend buf"
| "refill_buffer (Recv_error # es) pend buf = Some (False, buf, \<lparr>pending = pend, events = es\<rparr>)"
| "refill_buffer (Recv k cm # es) pend buf =
     (let n = min k (buffer_maxsize buf - length (buffer_data buf)) in
      Some (True, buf\<lparr>buffer_data := buffer_data buf @ take n pend,
                      fds := (case cm of None \<Rightarrow> fds buf | Some l \<Rightarrow> l)\<rparr>,
        \<lparr>pending = drop n pend, events = es\<rparr>))"

lemma refill_consumes:
  "refill_buffer es pend buf = Some (ok, buf', s) \<Longrightarrow> length (events s) < length es"
  by (induction es pend buf rule: refill_buffer.induct) (auto simp: Let_def)

text \<open>The loop from the label \<^verbatim>\<open>again\<close> of \<^verbatim>\<open>pinos_connection_get_next\<close>. Every turn after the first
  refills the buffer, hence uses up outcomes of \<^verbatim>\<open>recvmsg\<close>. The result is opcode, destination and payload.\<close>

datatype next_packet = Packet u8 u32 "byte list" | No_packet

definition read_packet :: "connection_buffer \<Rightarrow> next_packet option \<times> connection_buffer" where
  "read_packet buf =
     (if cb_offset buf \<ge> length (buffer_data buf)
      then (Some No_packet, (clear_buffer buf)\<lparr>update := True\<rparr>)
      else
        let data = drop (cb_offset buf) (buffer_data buf) in
        if length data < 8 then (None, (connection_ensure_size buf 8)\<lparr>update := True\<rparr>)
        else
          let dest_id = rd32 data; w = rd32 (drop 4 data); data' = drop 8 data;
              opcode = ucast (drop_bit 24 w) :: u8; len = unat (w AND 0xffffff) in
          if len > length data' then (None, (connection_ensure_size buf len)\<lparr>update := True\<rparr>)
          else (Some (Packet opcode dest_id (take len data')),
                buf\<lparr>cb_size := len, cb_offset := cb_offset buf + 8\<rparr>))"

function get_next_loop :: "connection_buffer \<Rightarrow> socket \<Rightarrow> (next_packet \<times> connection_buffer \<times> socket) option" where
  "get_next_loop buf s =
     (if update buf
      then case refill_buffer (events s) (pending s) buf of
             None \<Rightarrow> None
           | Some (False, buf1, s1) \<Rightarrow> Some (No_packet, buf1, s1)
           | Some (True, buf1, s1) \<Rightarrow>
               (case read_packet (buf1\<lparr>update := False\<rparr>) of
                  (Some r, buf2) \<Rightarrow> Some (r, buf2, s1)
                | (None, buf2) \<Rightarrow> get_next_loop buf2 s1)
      else case read_packet buf of
             (Some r, buf2) \<Rightarrow> Some (r, buf2, s)
           | (None, buf2) \<Rightarrow> if update buf2 then get_next_loop buf2 s else None)"
  by pat_completeness auto
termination
  by (relation "measure (\<lambda>(buf, s). 2 * length (events s) + (if update buf then 0 else 1))")
    (auto dest!: refill_consumes split: if_splits)

declare get_next_loop.simps [simp del]

lemma read_packet_update:
  "read_packet buf = (None, buf') \<Longrightarrow> update buf'"
  "read_packet buf = (Some No_packet, buf') \<Longrightarrow> update buf'"
  by (auto simp: read_packet_def Let_def split: if_splits)

lemma refill_failed: "refill_buffer es pend buf = Some (False, buf', s) \<Longrightarrow> buf' = buf"
  by (induction es pend buf rule: refill_buffer.induct) (auto simp: Let_def)

lemma get_next_loop_parse:
  assumes "\<not> update buf"
  shows "get_next_loop buf s = (case read_packet buf of (Some r, buf2) \<Rightarrow> Some (r, buf2, s)
    | (None, buf2) \<Rightarrow> get_next_loop buf2 s)"
  using assms by (subst get_next_loop.simps) (auto dest: read_packet_update split: prod.split option.split)

definition pinos_connection_get_next ::
  "pinos_connection \<Rightarrow> socket \<Rightarrow> (next_packet \<times> pinos_connection \<times> socket) option" where
  "pinos_connection_get_next conn s =
     (let buf = conn_in conn in
      case get_next_loop (buf\<lparr>cb_offset := cb_offset buf + cb_size buf\<rparr>) s of
        None \<Rightarrow> None
      | Some (r, buf', s') \<Rightarrow> Some (r, conn\<lparr>conn_in := buf'\<rparr>, s'))"

section \<open>Sending\<close>

definition pinos_connection_begin_write :: "pinos_connection \<Rightarrow> u32 \<Rightarrow> pinos_connection" where
  "pinos_connection_begin_write conn sz =
     conn\<lparr>conn_out := connection_ensure_size (conn_out conn) (unat (8 + sz))\<rparr>"

definition packet_header :: "u32 \<Rightarrow> u8 \<Rightarrow> u32 \<Rightarrow> byte list" where
  "packet_header dest_id opcode sz = le32 dest_id @ le32 (push_bit 24 (ucast opcode) OR (sz AND 0xffffff))"

text \<open>The payload is what the caller has stored behind the pointer returned by
  \<open>pinos_connection_begin_write\<close>; its length is the size argument of the call.\<close>

definition pinos_connection_end_write ::
  "pinos_connection \<Rightarrow> u32 \<Rightarrow> u8 \<Rightarrow> byte list \<Rightarrow> pinos_connection" where
  "pinos_connection_end_write conn dest_id opcode payload =
     (let out = connection_ensure_size (conn_out conn) (8 + length payload) in
      conn\<lparr>conn_out := out\<lparr>buffer_data :=
        buffer_data out @ packet_header dest_id opcode (of_nat (length payload)) @ payload\<rparr>\<rparr>)"

text \<open>An outcome of \<^verbatim>\<open>sendmsg\<close> and what it put on the wire: the first bytes of the buffer and
  the descriptors.\<close>

datatype send_event = Send_eintr | Send_error | Sent nat

fun pinos_connection_flush :: "send_event list \<Rightarrow> pinos_connection \<Rightarrow>
    (bool \<times> byte list \<times> int list \<times> pinos_connection) option" where
  "pinos_connection_flush es conn =
     (let out = conn_out conn in
      if buffer_data out = [] then Some (True, [], [], conn)
      else case dropWhile (\<lambda>e. e = Send_eintr) es of
             [] \<Rightarrow> None
           | Send_error # _ \<Rightarrow> Some (False, [], [], conn)
           | Sent n # _ \<Rightarrow>
               let len = min n (length (buffer_data out)) in
               Some (True, take len (buffer_data out), map abs (fds out),
                 conn\<lparr>conn_out := out\<lparr>buffer_data := take (length (buffer_data out) - len) (buffer_data out), fds := []\<rparr>\<rparr>)
           | Send_eintr # _ \<Rightarrow> None)"

definition pinos_connection_clear :: "pinos_connection \<Rightarrow> pinos_connection" where
  "pinos_connection_clear conn = conn\<lparr>conn_out := clear_buffer (conn_out conn),
     conn_in := (clear_buffer (conn_in conn))\<lparr>update := True\<rparr>\<rparr>"

section \<open>Framing\<close>

type_synonym packet = "u8 \<times> u32 \<times> byte list"

definition frame :: "packet \<Rightarrow> byte list" where
  "frame m = (case m of (opcode, dest_id, payload) \<Rightarrow>
     packet_header dest_id opcode (of_nat (length payload)) @ payload)"

definition packet_fits :: "packet \<Rightarrow> bool" where
  "packet_fits m \<longleftrightarrow> length (snd (snd m)) < 2 ^ 24"

lemma header_opcode:
  "(ucast (drop_bit 24 (push_bit 24 (ucast (opc :: u8)) OR (sz AND 0xffffff) :: u32)) :: u8) = opc"
proof -
  have m: "(0xffffff :: u32) = mask 24" by (simp add: mask_eq_exp_minus_1)
  show ?thesis unfolding m by (rule bit_word_eqI) (auto simp: bit_simps)
qed

lemma header_size:
  assumes "n < 2 ^ 24"
  shows "unat ((push_bit 24 (ucast (opc :: u8)) OR (of_nat n AND 0xffffff) :: u32) AND 0xffffff) = n"
proof -
  have m: "(0xffffff :: u32) = mask 24" by (simp add: mask_eq_exp_minus_1)
  have "(push_bit 24 (ucast opc) OR (of_nat n AND mask 24) :: u32) AND mask 24 = take_bit 24 (of_nat n)"
    by (rule bit_word_eqI) (auto simp: bit_simps)
  then show ?thesis using assms by (simp only: m unsigned_take_bit_eq unat_of_nat) (simp add: take_bit_nat_eq_self)
qed

lemma length_packet_header [simp]: "length (packet_header d opc sz) = 8"
  by (simp add: packet_header_def)

lemma length_frame: "length (frame m) = 8 + length (snd (snd m))"
  by (cases m) (simp add: frame_def)

lemma frame_fields:
  assumes "D @ P = frame (opc, d, payload) @ tail" and "8 \<le> length D"
  shows "rd32 D = d"
    and "rd32 (drop 4 D) = push_bit 24 (ucast opc) OR (of_nat (length payload) AND 0xffffff)"
    and "drop 8 D @ P = payload @ tail"
proof -
  have D: "D = take (length D) (frame (opc, d, payload) @ tail)" using assms(1) by (metis append_eq_conv_conj)
  have f: "frame (opc, d, payload) @ tail =
      le32 d @ le32 (push_bit 24 (ucast opc) OR (of_nat (length payload) AND 0xffffff)) @ payload @ tail"
    by (simp add: frame_def packet_header_def)
  show "rd32 D = d" using assms(2) by (subst D) (simp add: rd32_take f)
  have "drop 4 D = take (length D - 4) (drop 4 (frame (opc, d, payload) @ tail))" by (subst D) (simp only: drop_take)
  then show "rd32 (drop 4 D) = push_bit 24 (ucast opc) OR (of_nat (length payload) AND 0xffffff)"
    using assms(2) by (simp add: rd32_take f)
  have "drop 8 (D @ P) = payload @ tail" unfolding assms(1) by (simp add: frame_def)
  then show "drop 8 D @ P = payload @ tail" using assms(2) by simp
qed

lemma ensure_size_room: "0 < sz \<Longrightarrow> length (buffer_data buf) < buffer_maxsize (connection_ensure_size buf sz)"
proof -
  assume "0 < sz"
  let ?n = "length (buffer_data buf) + sz"
  have "?n + 4095 = (?n + 4095) div 4096 * 4096 + (?n + 4095) mod 4096" by simp
  moreover have "(?n + 4095) mod 4096 < 4096" by simp
  ultimately have "?n \<le> (?n + 4095) div 4096 * 4096" by linarith
  with \<open>0 < sz\<close> show ?thesis by (simp add: connection_ensure_size_def round_up_nat_def)
qed

lemma ensure_size_fields [simp]:
  "buffer_data (connection_ensure_size buf sz) = buffer_data buf"
  "cb_offset (connection_ensure_size buf sz) = cb_offset buf"
  "cb_size (connection_ensure_size buf sz) = cb_size buf"
  "fds (connection_ensure_size buf sz) = fds buf"
  by (simp_all add: connection_ensure_size_def)

lemma read_packet_incomplete:
  assumes D: "D = drop (cb_offset buf) (buffer_data buf)" "D @ P = frame m @ tail" "D \<noteq> []"
    and short: "length D < length (frame m)" and fits: "packet_fits m"
  shows "\<exists>sz > 0. read_packet buf = (None, (connection_ensure_size buf sz)\<lparr>update := True\<rparr>)"
proof -
  have off: "cb_offset buf < length (buffer_data buf)" using D(1,3) by auto
  show ?thesis
  proof (cases "length D < 8")
    case True
    then show ?thesis using off D(1) by (intro exI [of _ 8]) (simp add: read_packet_def Let_def)
  next
    case False
    obtain opc d payload where m: "m = (opc, d, payload)" by (cases m)
    have len: "unat (rd32 (drop 4 D) AND 0xffffff) = length payload"
      using frame_fields(2) [of D P opc d payload tail] D(2) False fits
      by (simp add: m header_size packet_fits_def)
    have "length payload > length (drop 8 D)" using short False by (simp add: m length_frame)
    then show ?thesis
      using off False len
      by (intro exI [of _ "length payload"]) (auto simp: read_packet_def Let_def D(1) simp del: drop_drop)
  qed
qed

lemma read_packet_complete:
  assumes D: "D = drop (cb_offset buf) (buffer_data buf)" "D @ P = frame (opc, d, payload) @ tail"
    and long: "length (frame (opc, d, payload)) \<le> length D" and fits: "packet_fits (opc, d, payload)"
  shows "read_packet buf = (Some (Packet opc d payload),
      buf\<lparr>cb_size := length payload, cb_offset := cb_offset buf + 8\<rparr>)"
    and "drop (cb_offset buf + 8 + length payload) (buffer_data buf) @ P = tail"
proof -
  have l: "8 + length payload \<le> length D" using long by (simp add: length_frame)
  then have off: "cb_offset buf < length (buffer_data buf)" using D(1) by auto
  note f = frame_fields [OF D(2)]
  have w: "rd32 D = d" "rd32 (drop 4 D) = push_bit 24 (ucast opc) OR (of_nat (length payload) AND 0xffffff)"
      "drop 8 D @ P = payload @ tail" using f l by auto
  have len: "unat (rd32 (drop 4 D) AND 0xffffff) = length payload"
    using fits by (simp add: w(2) header_size packet_fits_def)
  have pay: "take (length payload) (drop 8 D) = payload"
  proof -
    have "take (length payload) (drop 8 D @ P) = payload" by (simp add: w(3))
    then show ?thesis using l by simp
  qed
  have opc: "(ucast (drop_bit 24 (rd32 (drop 4 D))) :: u8) = opc" by (simp only: w(2) header_opcode)
  show "read_packet buf = (Some (Packet opc d payload),
      buf\<lparr>cb_size := length payload, cb_offset := cb_offset buf + 8\<rparr>)"
    using off l len pay opc w(1)
    by (simp add: read_packet_def Let_def D(1) [symmetric] del: drop_drop)
  have "drop (8 + length payload) (D @ P) = tail" by (simp add: D(2) frame_def)
  then show "drop (cb_offset buf + 8 + length payload) (buffer_data buf) @ P = tail"
    using l by (simp add: D(1) add.commute add.left_commute)
qed

section \<open>Receiving a stream of packets\<close>

text \<open>What the kernel promises here: every \<^verbatim>\<open>recvmsg\<close> that returns delivers at least a byte, and there
  are as many calls as pending bytes, enough for the most fragmented delivery.\<close>

definition is_recv :: "recv_event \<Rightarrow> bool" where
  "is_recv e \<longleftrightarrow> (case e of Recv k _ \<Rightarrow> 0 < k | _ \<Rightarrow> False)"

definition delivers :: "socket \<Rightarrow> bool" where
  "delivers s \<longleftrightarrow> list_all (\<lambda>e. e = Recv_eintr \<or> is_recv e) (events s) \<and>
     length (pending s) \<le> length (filter is_recv (events s))"

lemma refill_delivers:
  assumes "delivers \<lparr>pending = pend, events = es\<rparr>" and "pend \<noteq> []" and "length (buffer_data buf) < buffer_maxsize buf"
  shows "\<exists>n fd s. 0 < n \<and> refill_buffer es pend buf =
      Some (True, buf\<lparr>buffer_data := buffer_data buf @ take n pend, fds := fd\<rparr>, s) \<and>
    delivers s \<and> pending s = drop n pend \<and>
    length (buffer_data buf @ take n pend) \<le> buffer_maxsize buf"
  using assms
proof (induction es pend buf rule: refill_buffer.induct)
  case (4 k cm es pend buf)
  let ?n = "min k (buffer_maxsize buf - length (buffer_data buf))"
  have k: "0 < k" using 4(1) by (simp add: delivers_def is_recv_def)
  have "delivers \<lparr>pending = drop ?n pend, events = es\<rparr>"
    using 4 k by (auto simp: delivers_def is_recv_def)
  then show ?case
    using k 4(3) by (intro exI [of _ ?n]) (auto simp: Let_def)
qed (auto simp: delivers_def is_recv_def)

lemma get_next_loop_frame:
  assumes "drop (cb_offset buf) (buffer_data buf) @ pending s = frame (opc, d, payload) @ tail"
    and "packet_fits (opc, d, payload)" and "delivers s"
    and "cb_offset buf \<le> length (buffer_data buf)"
    and "length (buffer_data buf) \<le> buffer_maxsize buf"
    and "update buf \<Longrightarrow> length (buffer_data buf) < buffer_maxsize buf \<and>
      length (drop (cb_offset buf) (buffer_data buf)) < length (frame (opc, d, payload))"
    and "\<not> update buf \<Longrightarrow> cb_offset buf < length (buffer_data buf)"
  shows "\<exists>buf' s'. get_next_loop buf s = Some (Packet opc d payload, buf', s') \<and> delivers s' \<and>
    \<not> update buf' \<and> cb_offset buf' + cb_size buf' \<le> length (buffer_data buf') \<and>
    drop (cb_offset buf' + cb_size buf') (buffer_data buf') @ pending s' = tail \<and>
    length (buffer_data buf') \<le> buffer_maxsize buf' \<and> 0 < buffer_maxsize buf'"
  using assms
proof (induction buf s rule: get_next_loop.induct)
  case (1 buf s)
  let ?D = "drop (cb_offset buf) (buffer_data buf)" and ?f = "frame (opc, d, payload)"
  have parse: ?case
    if ex: "get_next_loop buf s = (case read_packet b1 of (Some r, b2) \<Rightarrow> Some (r, b2, s1)
         | (None, b2) \<Rightarrow> get_next_loop b2 s1)"
      and D1: "drop (cb_offset b1) (buffer_data b1) @ pending s1 = ?f @ tail" and dl: "delivers s1"
      and ne: "cb_offset b1 < length (buffer_data b1)" and mx: "length (buffer_data b1) \<le> buffer_maxsize b1"
      and nu: "\<not> update b1"
      and ih: "\<And>sz. 0 < sz \<Longrightarrow> read_packet b1 = (None, (connection_ensure_size b1 sz)\<lparr>update := True\<rparr>) \<Longrightarrow>
        length (drop (cb_offset b1) (buffer_data b1)) < length ?f \<Longrightarrow>
        \<exists>buf' s'. get_next_loop ((connection_ensure_size b1 sz)\<lparr>update := True\<rparr>) s1 = Some (Packet opc d payload, buf', s') \<and>
          delivers s' \<and> \<not> update buf' \<and> cb_offset buf' + cb_size buf' \<le> length (buffer_data buf') \<and>
          drop (cb_offset buf' + cb_size buf') (buffer_data buf') @ pending s' = tail \<and>
          length (buffer_data buf') \<le> buffer_maxsize buf' \<and> 0 < buffer_maxsize buf'" for b1 s1
  proof (cases "length ?f \<le> length (drop (cb_offset b1) (buffer_data b1))")
    case True
    note rp = read_packet_complete [OF refl D1 True 1(4)]
    have "cb_offset b1 + 8 + length payload \<le> length (buffer_data b1)" using True ne by (simp add: length_frame)
    then show ?thesis using rp ex nu dl mx by simp
  next
    case False
    then have short: "length (drop (cb_offset b1) (buffer_data b1)) < length ?f" by simp
    have "drop (cb_offset b1) (buffer_data b1) \<noteq> []" using ne by simp
    from read_packet_incomplete [OF refl D1 this short 1(4)]
    obtain sz where "0 < sz" "read_packet b1 = (None, (connection_ensure_size b1 sz)\<lparr>update := True\<rparr>)" by blast
    with ih [OF this short] ex show ?thesis by simp
  qed
  show ?case
  proof (cases "update buf")
    case True
    have sh: "length (buffer_data buf) < buffer_maxsize buf" "length ?D < length ?f" using 1(8) True by auto
    have "pending s \<noteq> []"
    proof
      assume "pending s = []"
      then have "length ?D = length (?f @ tail)" using 1(3) by (metis append_Nil2)
      with sh(2) show False by simp
    qed
    moreover have "delivers \<lparr>pending = pending s, events = events s\<rparr>" using 1(5) by (cases s) simp
    ultimately obtain n fd s1 where r: "0 < n" "refill_buffer (events s) (pending s) buf =
          Some (True, buf\<lparr>buffer_data := buffer_data buf @ take n (pending s), fds := fd\<rparr>, s1)"
        "delivers s1" "pending s1 = drop n (pending s)"
        "length (buffer_data buf @ take n (pending s)) \<le> buffer_maxsize buf"
      using refill_delivers [OF _ _ sh(1)] by blast
    define b1 where "b1 = buf\<lparr>buffer_data := buffer_data buf @ take n (pending s), fds := fd, update := False\<rparr>"
    have off: "cb_offset buf \<le> length (buffer_data buf)" by (rule 1(6))
    show ?thesis
    proof (rule parse [where ?b1.0 = b1 and ?s1.0 = s1])
      show "get_next_loop buf s = (case read_packet b1 of (Some r, b2) \<Rightarrow> Some (r, b2, s1)
         | (None, b2) \<Rightarrow> get_next_loop b2 s1)"
        using True r(2) by (subst get_next_loop.simps) (simp add: b1_def)
      show "drop (cb_offset b1) (buffer_data b1) @ pending s1 = ?f @ tail"
        using 1(3) off by (simp add: b1_def r(4))
      show "cb_offset b1 < length (buffer_data b1)"
        using off \<open>pending s \<noteq> []\<close> r(1) by (cases "pending s") (auto simp: b1_def min_def)
      show "length (buffer_data b1) \<le> buffer_maxsize b1" using r(5) by (simp add: b1_def)
      fix sz :: nat
      assume sz: "0 < sz" and rp: "read_packet b1 = (None, (connection_ensure_size b1 sz)\<lparr>update := True\<rparr>)"
        and short: "length (drop (cb_offset b1) (buffer_data b1)) < length ?f"
      have rp': "(None, (connection_ensure_size b1 sz)\<lparr>update := True\<rparr>) =
          read_packet ((buf\<lparr>buffer_data := buffer_data buf @ take n (pending s), fds := fd\<rparr>)\<lparr>update := False\<rparr>)"
        using rp by (simp add: b1_def)
      have "length (buffer_data b1) < buffer_maxsize (connection_ensure_size b1 sz)" by (rule ensure_size_room [OF sz])
      then show "\<exists>buf' s'. get_next_loop ((connection_ensure_size b1 sz)\<lparr>update := True\<rparr>) s1 = Some (Packet opc d payload, buf', s') \<and>
          delivers s' \<and> \<not> update buf' \<and> cb_offset buf' + cb_size buf' \<le> length (buffer_data buf') \<and>
          drop (cb_offset buf' + cb_size buf') (buffer_data buf') @ pending s' = tail \<and>
          length (buffer_data buf') \<le> buffer_maxsize buf' \<and> 0 < buffer_maxsize buf'"
        using 1(1) [OF True r(2) refl refl refl rp' refl] short r(3) off 1(4)
          \<open>drop (cb_offset b1) (buffer_data b1) @ pending s1 = ?f @ tail\<close>
        by (simp add: b1_def)
    qed (use r(3) in \<open>auto simp: b1_def\<close>)
  next
    case False
    show ?thesis
    proof (rule parse [where ?b1.0 = buf and ?s1.0 = s])
      fix sz :: nat
      assume sz: "0 < sz" and rp: "read_packet buf = (None, (connection_ensure_size buf sz)\<lparr>update := True\<rparr>)"
        and short: "length ?D < length ?f"
      have "length (buffer_data buf) < buffer_maxsize (connection_ensure_size buf sz)" by (rule ensure_size_room [OF sz])
      then show "\<exists>buf' s'. get_next_loop ((connection_ensure_size buf sz)\<lparr>update := True\<rparr>) s = Some (Packet opc d payload, buf', s') \<and>
          delivers s' \<and> \<not> update buf' \<and> cb_offset buf' + cb_size buf' \<le> length (buffer_data buf') \<and>
          drop (cb_offset buf' + cb_size buf') (buffer_data buf') @ pending s' = tail \<and>
          length (buffer_data buf') \<le> buffer_maxsize buf' \<and> 0 < buffer_maxsize buf'"
        using 1(2) [OF False rp [symmetric] refl, simplified] rp short 1(3-6) by simp
    qed (use 1(3-9) False get_next_loop_parse in auto)
  qed
qed

text \<open>The receiving side calls \<open>pinos_connection_get_next\<close> again whenever its event loop finds the
  socket readable, until it has the packets it waits for.\<close>

definition conn_work :: "pinos_connection \<Rightarrow> socket \<Rightarrow> nat" where
  "conn_work conn s = 2 * length (events s) + (if update (conn_in conn) then 0 else 1)"

lemma get_next_loop_work:
  "get_next_loop buf s = Some (r, buf', s') \<Longrightarrow>
    2 * length (events s') + (if update buf then 1 else 0) \<le> 2 * length (events s) \<and>
    (r = No_packet \<longrightarrow> update buf')"
proof (induction buf s rule: get_next_loop.induct)
  case (1 buf s)
  show ?case
  proof (cases "update buf")
    case True
    then obtain ok buf1 s1 where rf: "refill_buffer (events s) (pending s) buf = Some (ok, buf1, s1)"
      using 1(3) by (subst (asm) get_next_loop.simps) (auto split: option.splits)
    note less = refill_consumes [OF rf]
    show ?thesis
    proof (cases ok)
      case False
      then show ?thesis using 1(3) True rf less by (subst (asm) get_next_loop.simps) (auto dest: refill_failed)
    next
      case t: True
      obtain ro buf2 where rp: "read_packet (buf1\<lparr>update := False\<rparr>) = (ro, buf2)" by fastforce
      show ?thesis
      proof (cases ro)
        case None
        then have "get_next_loop buf2 s1 = Some (r, buf', s')"
          using 1(3) True rf t rp by (subst (asm) get_next_loop.simps) auto
        from 1(1) [OF True rf refl eqTrueI [OF t] refl rp [symmetric] None this] True less
        show ?thesis by (auto split: if_splits)
      next
        case (Some a)
        then show ?thesis using 1(3) True rf t rp less by (subst (asm) get_next_loop.simps) (auto dest: read_packet_update)
      qed
    qed
  next
    case False
    obtain ro buf2 where rp: "read_packet buf = (ro, buf2)" by fastforce
    show ?thesis
    proof (cases ro)
      case None
      then have "get_next_loop buf2 s = Some (r, buf', s')" "update buf2"
        using 1(3) rp read_packet_update(1) by (auto simp: get_next_loop_parse [OF False])
      with 1(2) [OF False rp [symmetric] None] False show ?thesis by auto
    next
      case (Some a)
      then show ?thesis using 1(3) False rp read_packet_update(2) by (auto simp: get_next_loop_parse [OF False])
    qed
  qed
qed

lemma get_next_work:
  assumes "pinos_connection_get_next conn s = Some (No_packet, conn', s')"
  shows "conn_work conn' s' < conn_work conn s"
  using assms get_next_loop_work
  by (fastforce simp: pinos_connection_get_next_def Let_def conn_work_def split: option.splits)

function recv_packets :: "nat \<Rightarrow> pinos_connection \<Rightarrow> socket \<Rightarrow> (packet list \<times> pinos_connection \<times> socket) option" where
  "recv_packets k conn s =
     (if k = 0 then Some ([], conn, s)
      else case pinos_connection_get_next conn s of
             None \<Rightarrow> None
           | Some (No_packet, conn', s') \<Rightarrow> recv_packets k conn' s'
           | Some (Packet opc d payload, conn', s') \<Rightarrow>
               (case recv_packets (k - 1) conn' s' of
                  None \<Rightarrow> None
                | Some (ms, conn2, s2) \<Rightarrow> Some ((opc, d, payload) # ms, conn2, s2)))"
  by pat_completeness auto
termination
  by (relation "measures [\<lambda>(k, conn, s). k, \<lambda>(k, conn, s). conn_work conn s]") (auto dest: get_next_work)

declare recv_packets.simps [simp del]

definition recv_inv :: "pinos_connection \<Rightarrow> socket \<Rightarrow> byte list \<Rightarrow> bool" where
  "recv_inv conn s rest \<longleftrightarrow> (let buf = conn_in conn; off = cb_offset buf + cb_size buf in
     off \<le> length (buffer_data buf) \<and> drop off (buffer_data buf) @ pending s = rest \<and>
     length (buffer_data buf) \<le> buffer_maxsize buf \<and> 0 < buffer_maxsize buf \<and> delivers s \<and>
     (update buf \<longrightarrow> buffer_data buf = []))"

lemma get_next_packet:
  assumes inv: "recv_inv conn s (frame (opc, d, payload) @ tail)" and fits: "packet_fits (opc, d, payload)"
    and more: "update (conn_in conn) \<or> cb_offset (conn_in conn) + cb_size (conn_in conn) < length (buffer_data (conn_in conn))"
  shows "\<exists>conn' s'. pinos_connection_get_next conn s = Some (Packet opc d payload, conn', s') \<and>
    recv_inv conn' s' tail \<and> conn_out conn' = conn_out conn"
proof -
  let ?buf = "(conn_in conn)\<lparr>cb_offset := cb_offset (conn_in conn) + cb_size (conn_in conn)\<rparr>"
  have "0 < length (frame (opc, d, payload))" by (simp add: length_frame)
  then obtain buf' s' where "get_next_loop ?buf s = Some (Packet opc d payload, buf', s')" "delivers s'"
      "\<not> update buf'" "cb_offset buf' + cb_size buf' \<le> length (buffer_data buf')"
      "drop (cb_offset buf' + cb_size buf') (buffer_data buf') @ pending s' = tail"
      "length (buffer_data buf') \<le> buffer_maxsize buf'" "0 < buffer_maxsize buf'"
    using get_next_loop_frame [of ?buf s opc d payload tail] inv fits more
    by (auto simp: recv_inv_def Let_def)
  then show ?thesis by (simp add: pinos_connection_get_next_def recv_inv_def Let_def)
qed

lemma get_next_exhausted:
  assumes inv: "recv_inv conn s rest" and "\<not> update (conn_in conn)"
    and "\<not> cb_offset (conn_in conn) + cb_size (conn_in conn) < length (buffer_data (conn_in conn))"
  shows "\<exists>conn'. pinos_connection_get_next conn s = Some (No_packet, conn', s) \<and>
    recv_inv conn' s rest \<and> update (conn_in conn') \<and> conn_out conn' = conn_out conn"
  using assms
  by (auto simp: pinos_connection_get_next_def Let_def get_next_loop_parse read_packet_def recv_inv_def clear_buffer_def)

lemma recv_packets_frames:
  assumes "recv_inv conn s (concat (map frame ms) @ tail)" and "list_all packet_fits ms"
  shows "\<exists>conn' s'. recv_packets (length ms) conn s = Some (ms, conn', s') \<and> recv_inv conn' s' tail"
  using assms
proof (induction ms arbitrary: conn s)
  case Nil
  then show ?case by (simp add: recv_packets.simps)
next
  case (Cons m ms)
  obtain opc d payload where m: "m = (opc, d, payload)" by (cases m)
  have inv: "recv_inv conn s (frame (opc, d, payload) @ concat (map frame ms) @ tail)"
    using Cons.prems(1) by (simp add: m)
  have fits: "packet_fits (opc, d, payload)" using Cons.prems(2) by (simp add: m)
  have main: ?case
    if i: "recv_inv c s (frame (opc, d, payload) @ concat (map frame ms) @ tail)"
      and more: "update (conn_in c) \<or> cb_offset (conn_in c) + cb_size (conn_in c) < length (buffer_data (conn_in c))"
      and eq: "recv_packets (length (m # ms)) conn s = recv_packets (length (m # ms)) c s" for c
  proof -
    obtain c' s' where g: "pinos_connection_get_next c s = Some (Packet opc d payload, c', s')"
        "recv_inv c' s' (concat (map frame ms) @ tail)"
      using get_next_packet [OF i fits more] by blast
    obtain c2 s2 where "recv_packets (length ms) c' s' = Some (ms, c2, s2)" "recv_inv c2 s2 tail"
      using Cons.IH [OF g(2)] Cons.prems(2) by auto
    then show ?thesis using g(1) unfolding eq by (subst recv_packets.simps) (simp add: m)
  qed
  show ?case
  proof (cases "update (conn_in conn) \<or> cb_offset (conn_in conn) + cb_size (conn_in conn) < length (buffer_data (conn_in conn))")
    case True
    then show ?thesis using main [OF inv] by simp
  next
    case False
    then obtain c where c: "pinos_connection_get_next conn s = Some (No_packet, c, s)"
        "recv_inv c s (frame (opc, d, payload) @ concat (map frame ms) @ tail)" "update (conn_in c)"
      using get_next_exhausted [OF inv] by blast
    have "recv_packets (length (m # ms)) conn s = recv_packets (length (m # ms)) c s"
      by (subst recv_packets.simps) (simp add: c(1))
    with main [OF c(2)] c(3) show ?thesis by simp
  qed
qed

section \<open>Correctness\<close>

definition send_packet :: "packet \<Rightarrow> pinos_connection \<Rightarrow> pinos_connection" where
  "send_packet m conn = (case m of (opcode, dest_id, payload) \<Rightarrow>
     pinos_connection_end_write (pinos_connection_begin_write conn (of_nat (length payload))) dest_id opcode payload)"

lemma send_packet_data:
  "buffer_data (conn_out (send_packet m conn)) = buffer_data (conn_out conn) @ frame m"
  by (cases m) (simp add: send_packet_def pinos_connection_end_write_def pinos_connection_begin_write_def frame_def Let_def)

lemma send_packets_data:
  "buffer_data (conn_out (fold send_packet ms conn)) = buffer_data (conn_out conn) @ concat (map frame ms)"
  by (induction ms arbitrary: conn) (simp_all add: send_packet_data)

text \<open>C8. Packets written on one connection and flushed are received on the other one unchanged and in order,
  however the kernel cuts the byte stream into pieces and however often \<^verbatim>\<open>recvmsg\<close> is interrupted, across
  buffer growth and the reset of the buffer between packets.\<close>

theorem connection_packets_roundtrip:
  assumes "list_all packet_fits ms"
    and "pinos_connection_flush [Sent n] (fold send_packet ms pinos_connection_new) = Some (True, wire, passed, sender)"
    and "length (concat (map frame ms)) \<le> n" and "delivers \<lparr>pending = wire, events = es\<rparr>"
  shows "\<exists>receiver s. recv_packets (length ms) pinos_connection_new \<lparr>pending = wire, events = es\<rparr> =
    Some (ms, receiver, s) \<and> pending s = [] \<and> buffer_data (conn_out sender) = []"
proof -
  let ?bytes = "concat (map frame ms)"
  have "wire = ?bytes \<and> buffer_data (conn_out sender) = []"
    using assms(2,3) send_packets_data [of ms pinos_connection_new]
    by (auto simp: Let_def pinos_connection_new_def new_buffer_def split: if_splits)
  moreover have "recv_inv pinos_connection_new \<lparr>pending = wire, events = es\<rparr> (?bytes @ [])"
    using assms(4) calculation by (simp add: recv_inv_def Let_def pinos_connection_new_def new_buffer_def)
  ultimately show ?thesis
    using recv_packets_frames [OF _ assms(1), of pinos_connection_new "\<lparr>pending = wire, events = es\<rparr>" "[]"]
    unfolding recv_inv_def [of _ _ "[]"] Let_def by blast
qed

definition demo_packets :: "packet list" where
  "demo_packets = [(1, 0, [1, 2, 3, 4]), (2, 7, []), (255, 3, [9])]"

theorem connection_packets_roundtrip_witness:
  "\<exists>receiver s. recv_packets 3 pinos_connection_new
      \<lparr>pending = concat (map frame demo_packets), events = replicate 40 (Recv 3 None)\<rparr> =
    Some (demo_packets, receiver, s) \<and> pending s = []"
proof -
  have fits: "list_all packet_fits demo_packets" by (simp add: demo_packets_def packet_fits_def)
  have len: "length (concat (map frame demo_packets)) = 29"
    by (simp add: demo_packets_def frame_def)
  then have ne: "concat (map frame demo_packets) \<noteq> []" by (metis list.size(3) zero_neq_numeral)
  have flush: "\<exists>sender. pinos_connection_flush [Sent 29] (fold send_packet demo_packets pinos_connection_new) =
      Some (True, concat (map frame demo_packets), [], sender)"
  proof -
    have "fds (conn_out (fold send_packet demo_packets pinos_connection_new)) = []"
      by (simp add: demo_packets_def send_packet_def pinos_connection_end_write_def pinos_connection_begin_write_def
          pinos_connection_new_def new_buffer_def Let_def)
    then show ?thesis
      using send_packets_data [of demo_packets pinos_connection_new] len ne
      by (simp add: Let_def pinos_connection_new_def new_buffer_def)
  qed
  have dl: "delivers \<lparr>pending = concat (map frame demo_packets), events = replicate 40 (Recv 3 None)\<rparr>"
    using len by (simp add: delivers_def is_recv_def list_all_length)
  have "length demo_packets = 3" by (simp add: demo_packets_def)
  moreover obtain sender where "pinos_connection_flush [Sent 29] (fold send_packet demo_packets pinos_connection_new) =
      Some (True, concat (map frame demo_packets), [], sender)" using flush by blast
  ultimately show ?thesis using connection_packets_roundtrip [OF fits _ eq_refl [OF len] dl] by metis
qed

text \<open>C26. A short \<^verbatim>\<open>sendmsg\<close> corrupts the stream: the flush subtracts the sent length from the buffer
  size and leaves the buffer as it is, so the next flush sends the head of the buffer once more instead of the
  bytes that were not sent.\<close>

theorem connection_partial_flush:
  assumes "buffer_data (conn_out conn) = bytes" and "0 < n" and "n < length bytes"
    and "pinos_connection_flush [Sent n] conn = Some (ok1, wire1, f1, conn1)"
    and "pinos_connection_flush [Sent (length bytes)] conn1 = Some (ok2, wire2, f2, conn2)"
  shows "wire1 @ wire2 = take n bytes @ take (length bytes - n) bytes \<and> buffer_data (conn_out conn2) = []"
  using assms by (auto simp: Let_def split: if_splits)

definition byte_conn :: pinos_connection where
  "byte_conn = pinos_connection_new\<lparr>conn_out := (new_buffer False)\<lparr>buffer_data := [1, 2, 3]\<rparr>\<rparr>"

theorem connection_partial_flush_witness:
  "\<exists>ok1 wire1 f1 conn1 ok2 wire2 f2 conn2. pinos_connection_flush [Sent 1] byte_conn = Some (ok1, wire1, f1, conn1) \<and>
    pinos_connection_flush [Sent 3] conn1 = Some (ok2, wire2, f2, conn2) \<and> wire1 @ wire2 = [1, 1, 2]"
proof -
  obtain ok1 wire1 f1 conn1 where 1: "pinos_connection_flush [Sent 1] byte_conn = Some (ok1, wire1, f1, conn1)"
    by (simp add: byte_conn_def Let_def)
  then have "buffer_data (conn_out conn1) \<noteq> []" by (auto simp: byte_conn_def Let_def)
  then obtain ok2 wire2 f2 conn2 where 2: "pinos_connection_flush [Sent 3] conn1 = Some (ok2, wire2, f2, conn2)"
    by (simp add: Let_def)
  have "wire1 @ wire2 = [1, 1, 2]"
    using connection_partial_flush [of byte_conn "[1, 2, 3]" 1, OF _ _ _ 1] 2
    by (simp add: byte_conn_def numeral_2_eq_2 numeral_3_eq_3)
  with 1 2 show ?thesis by blast
qed

text \<open>C27. When reading fails in the middle of a packet, be it in its header or in the payload that the header announces, the read
  position has already been moved over the previous packet and the size of that packet is kept, so the next call moves the
  position by it a second time and starts inside or behind the packet it has to return.\<close>

theorem connection_failed_read_skips:
  assumes "\<not> update (conn_in conn)" and "start = cb_offset (conn_in conn) + cb_size (conn_in conn)" and "part = drop start (buffer_data (conn_in conn))"
    and "part \<noteq> []" and "length part < 8 \<or> length part < 8 + unat (rd32 (drop 4 part) AND 0xffffff)"
  shows "\<exists>conn'. pinos_connection_get_next conn \<lparr>pending = pend, events = Recv_error # es\<rparr> =
      Some (No_packet, conn', \<lparr>pending = pend, events = es\<rparr>) \<and>
    cb_offset (conn_in conn') + cb_size (conn_in conn') = start + cb_size (conn_in conn) \<and>
    buffer_data (conn_in conn') = buffer_data (conn_in conn)"
proof -
  let ?buf = "(conn_in conn)\<lparr>cb_offset := start\<rparr>"
  have "start < length (buffer_data (conn_in conn))" using assms(3,4) by simp
  then have "\<exists>n. read_packet ?buf = (None, (connection_ensure_size ?buf n)\<lparr>update := True\<rparr>)"
    using assms(3,5) by (cases "length part < 8") (auto simp: read_packet_def Let_def add.commute)
  then obtain n where rp: "read_packet ?buf = (None, (connection_ensure_size ?buf n)\<lparr>update := True\<rparr>)" by blast
  have e: "cb_offset (connection_ensure_size ?buf n) = start" "cb_size (connection_ensure_size ?buf n) = cb_size (conn_in conn)"
    "buffer_data (connection_ensure_size ?buf n) = buffer_data (conn_in conn)"
    by (simp_all add: connection_ensure_size_def)
  have "get_next_loop ?buf \<lparr>pending = pend, events = Recv_error # es\<rparr> =
      Some (No_packet, (connection_ensure_size ?buf n)\<lparr>update := True\<rparr>, \<lparr>pending = pend, events = es\<rparr>)"
    using assms(1) by (simp add: get_next_loop_parse rp) (simp add: get_next_loop.simps)
  then show ?thesis using assms(2) e by (simp add: pinos_connection_get_next_def Let_def)
qed

definition cut_conn :: pinos_connection where
  "cut_conn = pinos_connection_new\<lparr>conn_in := (new_buffer False)\<lparr>buffer_data := frame (1, 0, replicate 8 0) @ [5, 0, 0],
     cb_offset := 8, cb_size := 8\<rparr>\<rparr>"

theorem connection_failed_read_skips_witness:
  "\<exists>conn'. pinos_connection_get_next cut_conn \<lparr>pending = [], events = [Recv_error]\<rparr> =
      Some (No_packet, conn', \<lparr>pending = [], events = []\<rparr>) \<and> cb_offset (conn_in conn') + cb_size (conn_in conn') = 24"
proof -
  have "drop 16 (buffer_data (conn_in cut_conn)) = [5, 0, 0]" by (simp add: cut_conn_def new_buffer_def length_frame)
  from connection_failed_read_skips [of cut_conn 16 "[5, 0, 0]" "[]" "[]", OF _ _ this [symmetric]]
  show ?thesis by (auto simp: cut_conn_def new_buffer_def)
qed

end
