(* ===== verification/Pinos_Type_Map.thy ===== *)
theory Pinos_Type_Map
  imports Pinos_Map
begin

text \<open>
  The two maps between type names and type ids: the one of the Pinos library
  (\<^verbatim>\<open>pinos/client/mapper.c\<close>), which copies names into one growing string block and numbers
  them with a \<^verbatim>\<open>PinosMap\<close> of offsets, and the one of the SPA library
  (\<^verbatim>\<open>spa/lib/mapper.c\<close>), a fixed array of \<^verbatim>\<open>MAX_TYPES\<close> pointers numbered
  from 1. Both sit behind the same vtable \<^verbatim>\<open>SpaTypeMap\<close>; its contract is the locale
  \<open>type_map\<close>. The outer option of an operation is \<open>None\<close> when it would read or write outside an object.
\<close>

section \<open>Strings in a block of bytes\<close>

abbreviation (input) NUL :: char where "NUL \<equiv> CHR 0x00"

definition c_str_at :: "char list \<Rightarrow> nat \<Rightarrow> string option" where
  "c_str_at mem off =
     (if NUL \<in> set (drop off mem) then Some (takeWhile (\<lambda>c. c \<noteq> NUL) (drop off mem)) else None)"

lemma c_str_at_append:
  "c_str_at mem off = Some s \<Longrightarrow> c_str_at (mem @ post) off = Some s"
  by (auto simp: c_str_at_def takeWhile_append1 split: if_splits)

lemma c_str_at_written:
  "NUL \<notin> set s \<Longrightarrow> c_str_at (mem @ s @ NUL # pad) (length mem) = Some s"
  by (auto simp: c_str_at_def takeWhile_append2 takeWhile_tail)

lemma c_str_at_no_nul: "c_str_at mem off = Some s \<Longrightarrow> NUL \<notin> set s"
  by (auto simp: c_str_at_def dest: set_takeWhileD split: if_splits)

section \<open>The type map of the Pinos library\<close>

record pinos_type_map =
  types :: pinos_map
  strings :: pinos_array
  str_data :: "char list"

text \<open>\<open>PINOS_MAP_INIT (128)\<close> and \<open>PINOS_ARRAY_INIT (4096)\<close>.\<close>

definition default_type_map :: pinos_type_map where
  "default_type_map = \<lparr>types = \<lparr>items = pinos_array_init 128, cells = [], free_list = 0\<rparr>,
     strings = pinos_array_init 4096, str_data = []\<rparr>"

text \<open>The search loop: \<open>Some None\<close> when no name matches.\<close>

fun type_map_find :: "char list \<Rightarrow> u64 list \<Rightarrow> u32 \<Rightarrow> string \<Rightarrow> u32 option option" where
  "type_map_find mem [] i type = Some None"
| "type_map_find mem (off # offs) i type =
     (case c_str_at mem (unat off) of
        None \<Rightarrow> None
      | Some s \<Rightarrow> if s = type then Some (Some i) else type_map_find mem offs (i + 1) type)"

text \<open>The padding byte that rounds a name up is not written by the code: it is the parameter \<open>junk\<close>.\<close>

definition type_map_get_id ::
  "(u64 \<Rightarrow> bool) \<Rightarrow> char \<Rightarrow> string option \<Rightarrow> pinos_type_map \<Rightarrow> (u32 \<times> pinos_type_map) option" where
  "type_map_get_id realloc_ok junk type this =
     (case type of
        None \<Rightarrow> Some (0, this)
      | Some s \<Rightarrow>
          (case type_map_find (str_data this) (cells (types this)) 0 s of
             None \<Rightarrow> None
           | Some (Some i) \<Rightarrow> Some (i, this)
           | Some None \<Rightarrow>
               (let len = of_nat (length s) :: u32; n = ucast (SPA_ROUND_UP_N (len + 1) 2) :: u64 in
                case pinos_array_add realloc_ok (strings this) n of
                  Some (Some off, arr) \<Rightarrow>
                    if unat off = length (str_data this) \<and> Suc (length s) \<le> unat n
                    then case pinos_map_insert_new realloc_ok (types this) off of
                           None \<Rightarrow> None
                         | Some (i, ts) \<Rightarrow>
                             Some (i, this\<lparr>types := ts, strings := arr,
                               str_data := str_data this @ s @ NUL # replicate (unat n - Suc (length s)) junk\<rparr>)
                    else None
                | _ \<Rightarrow> None)))"

definition type_map_get_type :: "pinos_type_map \<Rightarrow> u32 \<Rightarrow> string option option" where
  "type_map_get_type this ident =
     (if ident = SPA_ID_INVALID then Some None
      else if pinos_map_check_id (types this) ident
      then case pinos_map_get_item (types this) ident of
             None \<Rightarrow> None
           | Some off \<Rightarrow> (case c_str_at (str_data this) (unat off) of None \<Rightarrow> None | Some s \<Rightarrow> Some (Some s))
      else Some None)"

definition type_map_get_size :: "pinos_type_map \<Rightarrow> u64" where
  "type_map_get_size this = pinos_map_get_size (types this)"

section \<open>The type map of the SPA library\<close>

abbreviation (input) MAX_TYPES :: nat where "MAX_TYPES \<equiv> 4096"

record spa_type_map =
  type_slots :: "string option list"
  n_types :: u32

definition spa_default_type_map :: spa_type_map where
  "spa_default_type_map = \<lparr>type_slots = replicate MAX_TYPES None, n_types = 0\<rparr>"

text \<open>The loop \<^verbatim>\<open>for (i = 1; i <= n_types; i++)\<close>, on the slots from index \<open>i\<close> on with \<open>k\<close>
  slots left; it hands back the index it stopped at and whether it matched.\<close>

fun spa_type_map_find :: "string option list \<Rightarrow> nat \<Rightarrow> nat \<Rightarrow> string \<Rightarrow> (nat \<times> bool) option" where
  "spa_type_map_find slots i 0 type = Some (i, False)"
| "spa_type_map_find slots i (Suc k) type =
     (if i < length slots
      then case slots ! i of
             None \<Rightarrow> None
           | Some s \<Rightarrow> if s = type then Some (i, True) else spa_type_map_find slots (Suc i) k type
      else None)"

definition spa_type_map_get_id :: "string option \<Rightarrow> spa_type_map \<Rightarrow> (u32 \<times> spa_type_map) option" where
  "spa_type_map_get_id type this =
     (case type of
        None \<Rightarrow> Some (0, this)
      | Some s \<Rightarrow>
          (case spa_type_map_find (type_slots this) 1 (unat (n_types this)) s of
             None \<Rightarrow> None
           | Some (i, True) \<Rightarrow> Some (of_nat i, this)
           | Some (i, False) \<Rightarrow>
               if i < length (type_slots this)
               then Some (of_nat i, this\<lparr>type_slots := (type_slots this)[i := Some s], n_types := n_types this + 1\<rparr>)
               else None))"

definition spa_type_map_get_type :: "spa_type_map \<Rightarrow> u32 \<Rightarrow> string option option" where
  "spa_type_map_get_type this ident =
     (if ident \<le> n_types this
      then if unat ident < length (type_slots this) then Some (type_slots this ! unat ident) else None
      else Some None)"

definition spa_type_map_get_size :: "spa_type_map \<Rightarrow> u64" where
  "spa_type_map_get_size this = ucast (n_types this)"

section \<open>The contract of a type map\<close>

primrec get_ids :: "(string \<Rightarrow> 'm \<Rightarrow> (u32 \<times> 'm) option) \<Rightarrow> string list \<Rightarrow> 'm \<Rightarrow> (u32 list \<times> 'm) option" where
  "get_ids gid [] m = Some ([], m)"
| "get_ids gid (s # ss) m =
     (case gid s m of
        None \<Rightarrow> None
      | Some (i, m1) \<Rightarrow> (case get_ids gid ss m1 of None \<Rightarrow> None | Some (is, m2) \<Rightarrow> Some (i # is, m2)))"

text \<open>The names of a sequence in the order of their first use, and the place of a name among them.\<close>

definition add_new :: "string \<Rightarrow> string list \<Rightarrow> string list" where
  "add_new s xs = (if s \<in> set xs then xs else xs @ [s])"

definition first_uses :: "string list \<Rightarrow> string list" where
  "first_uses ss = fold add_new ss []"

definition place_in :: "string list \<Rightarrow> string \<Rightarrow> nat" where
  "place_in xs s = length (takeWhile (\<lambda>x. x \<noteq> s) xs)"

lemma place_in_nth: "distinct xs \<Longrightarrow> i < length xs \<Longrightarrow> place_in xs (xs ! i) = i"
  by (induction xs arbitrary: i) (auto simp: place_in_def nth_Cons split: nat.splits)

locale type_map =
  fixes wf :: "'m \<Rightarrow> bool"
    and names :: "'m \<Rightarrow> string list"
    and base :: nat
    and cost :: "string \<Rightarrow> nat"
    and room :: "'m \<Rightarrow> nat"
    and gid :: "string \<Rightarrow> 'm \<Rightarrow> (u32 \<times> 'm) option"
    and gtype :: "'m \<Rightarrow> u32 \<Rightarrow> string option option"
  assumes wf_names: "wf m \<Longrightarrow> distinct (names m) \<and> base + length (names m) < 2147483648"
    and gid_known: "wf m \<Longrightarrow> i < length (names m) \<Longrightarrow> gid (names m ! i) m = Some (of_nat (base + i), m)"
    and gid_new: "wf m \<Longrightarrow> s \<notin> set (names m) \<Longrightarrow> NUL \<notin> set s \<Longrightarrow> cost s \<le> room m \<Longrightarrow>
      \<exists>m'. gid s m = Some (of_nat (base + length (names m)), m') \<and> wf m' \<and> names m' = names m @ [s] \<and>
        room m \<le> room m' + cost s"
    and gtype_known: "wf m \<Longrightarrow> i < length (names m) \<Longrightarrow> gtype m (of_nat (base + i)) = Some (Some (names m ! i))"
begin

lemma gid_step:
  assumes "wf m" and "NUL \<notin> set s" and "cost s \<le> room m"
  shows "\<exists>m' i. gid s m = Some (of_nat (base + i), m') \<and> wf m' \<and> names m' = add_new s (names m) \<and>
    i < length (names m') \<and> names m' ! i = s \<and> room m \<le> room m' + cost s"
proof (cases "s \<in> set (names m)")
  case True
  then obtain i where "i < length (names m)" "names m ! i = s" by (auto simp: in_set_conv_nth)
  then show ?thesis using gid_known [OF assms(1), of i] assms(1) by (intro exI [of _ m] exI [of _ i]) (auto simp: add_new_def)
next
  case False
  then obtain m' where "gid s m = Some (of_nat (base + length (names m)), m')" "wf m'"
      "names m' = names m @ [s]" "room m \<le> room m' + cost s"
    using gid_new [OF assms(1)] assms(2,3) by blast
  then show ?thesis using False by (intro exI [of _ m'] exI [of _ "length (names m)"]) (auto simp: add_new_def)
qed

lemma get_ids_names:
  assumes "wf m" and "\<And>s. s \<in> set ss \<Longrightarrow> NUL \<notin> set s" and "sum_list (map cost ss) \<le> room m"
  shows "\<exists>ks m'. get_ids gid ss m = Some (map (\<lambda>i. of_nat (base + i)) ks, m') \<and> wf m' \<and>
    (\<exists>post. names m' = names m @ post) \<and> names m' = fold add_new ss (names m) \<and> (\<forall>i \<in> set ks. i < length (names m')) \<and>
    map (\<lambda>i. names m' ! i) ks = ss"
  using assms
proof (induction ss arbitrary: m)
  case (Cons s ss)
  obtain m1 i where 1: "gid s m = Some (of_nat (base + i), m1)" "wf m1" "names m1 = add_new s (names m)"
      "i < length (names m1)" "names m1 ! i = s" "room m \<le> room m1 + cost s"
    using gid_step [OF Cons.prems(1), of s] Cons.prems(2,3) by auto
  obtain ks m2 where 2: "get_ids gid ss m1 = Some (map (\<lambda>i. of_nat (base + i)) ks, m2)" "wf m2"
      "\<exists>post. names m2 = names m1 @ post" "names m2 = fold add_new ss (names m1)" "\<forall>i \<in> set ks. i < length (names m2)"
      "map (\<lambda>i. names m2 ! i) ks = ss"
    using Cons.IH [OF 1(2)] Cons.prems(2,3) 1(6) by auto
  have "i < length (names m2)" "names m2 ! i = s" using 1(4,5) 2(3) by (auto simp: nth_append)
  moreover have "\<exists>post. names m2 = names m @ post" using 1(3) 2(3) by (auto simp: add_new_def)
  ultimately show ?case using 1 2 by (intro exI [of _ "i # ks"] exI [of _ m2]) auto
qed auto

lemma id_inject:
  assumes "wf m" and "i < length (names m)" and "j < length (names m)"
  shows "(of_nat (base + i) :: u32) = of_nat (base + j) \<longleftrightarrow> names m ! i = names m ! j"
proof -
  have "unat (of_nat (base + k) :: u32) = base + k" if "k < length (names m)" for k
    using wf_names [OF assms(1)] that by (simp only: unat_of_nat) simp
  then have "(of_nat (base + i) :: u32) = of_nat (base + j) \<longleftrightarrow> i = j"
    using assms(2,3) by (metis add_left_cancel)
  then show ?thesis using wf_names [OF assms(1)] assms(2,3) by (simp add: nth_eq_iff_index_eq)
qed

text \<open>Asking a new map for the ids of any names: the ids count the names in the order of their first use, every id maps back to
  its name, and ids agree exactly when names do.\<close>

lemma get_ids_spec:
  assumes "wf m" and "\<And>s. s \<in> set ss \<Longrightarrow> NUL \<notin> set s" and "sum_list (map cost ss) \<le> room m" and "names m = []"
  shows "\<exists>is m'. get_ids gid ss m = Some (is, m') \<and> is = map (\<lambda>s. of_nat (base + place_in (first_uses ss) s)) ss \<and>
    map (gtype m') is = map (\<lambda>s. Some (Some s)) ss \<and>
    (\<forall>a < length ss. \<forall>b < length ss. is ! a = is ! b \<longleftrightarrow> ss ! a = ss ! b) \<and> length is = length ss"
proof -
  obtain ks m' where k: "get_ids gid ss m = Some (map (\<lambda>i. of_nat (base + i)) ks, m')" "wf m'"
      "\<forall>i \<in> set ks. i < length (names m')" "map (\<lambda>i. names m' ! i) ks = ss" "names m' = first_uses ss"
    using get_ids_names [OF assms(1-3), unfolded assms(4), folded first_uses_def] by blast
  have d: "distinct (first_uses ss)" "\<And>i. i \<in> set ks \<Longrightarrow> i < length (first_uses ss)"
    using wf_names [OF k(2)] k(3,5) by auto
  have "map (\<lambda>i. of_nat (base + i) :: u32) ks = map (\<lambda>i. of_nat (base + place_in (first_uses ss) (names m' ! i))) ks"
    by (rule map_cong [OF refl]) (simp only: k(5) place_in_nth [OF d(1) d(2)])
  also have "\<dots> = map (\<lambda>s. of_nat (base + place_in (first_uses ss) s)) (map (\<lambda>i. names m' ! i) ks)"
    by (simp only: map_map comp_def)
  finally have ord: "map (\<lambda>i. of_nat (base + i) :: u32) ks = map (\<lambda>s. of_nat (base + place_in (first_uses ss) s)) ss"
    by (simp only: k(4))
  have len: "length ks = length ss" using k(4) by auto
  have "map (gtype m') (map (\<lambda>i. of_nat (base + i)) ks) = map (\<lambda>s. Some (Some s)) (map (\<lambda>i. names m' ! i) ks)"
    using k(3) gtype_known [OF k(2)] by simp
  moreover have "map (\<lambda>i. of_nat (base + i) :: u32) ks ! a = map (\<lambda>i. of_nat (base + i)) ks ! b \<longleftrightarrow> ss ! a = ss ! b"
    if "a < length ss" "b < length ss" for a b
  proof -
    have "ss ! a = names m' ! (ks ! a)" "ss ! b = names m' ! (ks ! b)" using that len k(4) by (metis nth_map)+
    moreover have "ks ! a < length (names m')" "ks ! b < length (names m')" using that len k(3) by auto
    ultimately show ?thesis using id_inject [OF k(2)] that len by (simp del: of_nat_add)
  qed
  moreover have "map (\<lambda>s. Some (Some s)) (map (\<lambda>i. names m' ! i) ks) = map (\<lambda>s. Some (Some s)) ss" by (simp only: k(4))
  ultimately show ?thesis
    by (intro exI [of _ "map (\<lambda>i. of_nat (base + i)) ks"] exI [of _ m'] conjI allI impI k(1) ord) (simp_all only: len length_map)
qed

end

section \<open>Both maps satisfy the contract\<close>

subsection \<open>SPA library\<close>

definition spa_names :: "spa_type_map \<Rightarrow> string list" where
  "spa_names m = map (\<lambda>i. the (type_slots m ! Suc i)) [0..<unat (n_types m)]"

definition spa_tm_wf :: "spa_type_map \<Rightarrow> bool" where
  "spa_tm_wf m \<longleftrightarrow> length (type_slots m) = MAX_TYPES \<and> unat (n_types m) < MAX_TYPES \<and>
     (\<forall>i < unat (n_types m). type_slots m ! Suc i \<noteq> None) \<and> distinct (spa_names m)"

lemma spa_find_miss:
  assumes "\<And>j. j < k \<Longrightarrow> i + j < length slots \<and> slots ! (i + j) \<noteq> None \<and> slots ! (i + j) \<noteq> Some s"
  shows "spa_type_map_find slots i k s = Some (i + k, False)"
  using assms
proof (induction slots i k s rule: spa_type_map_find.induct)
  case (2 slots i k type)
  have "spa_type_map_find slots (Suc i) k type = Some (Suc i + k, False)" if "slots ! i = Some t" "t \<noteq> type" for t
    using 2(1) [of t] 2(2) that by (metis add_Suc add_Suc_right add.right_neutral not_less_eq zero_less_Suc)
  then show ?case using 2(2) [of 0] by auto
qed simp

lemma spa_find_hit:
  assumes "\<And>j. j < d \<Longrightarrow> i + j < length slots \<and> slots ! (i + j) \<noteq> None \<and> slots ! (i + j) \<noteq> Some s"
    and "d < k" and "i + d < length slots" and "slots ! (i + d) = Some s"
  shows "spa_type_map_find slots i k s = Some (i + d, True)"
  using assms
proof (induction slots i k s arbitrary: d rule: spa_type_map_find.induct)
  case (2 slots i k type)
  show ?case
  proof (cases d)
    case 0
    with 2(3-5) show ?thesis by simp
  next
    case (Suc e)
    obtain t where t: "slots ! i = Some t" "t \<noteq> type" "i < length slots" using 2(2) [of 0] Suc by auto
    have "spa_type_map_find slots (Suc i) k type = Some (Suc i + e, True)"
    proof (rule 2(1) [OF t(3,1,2)])
      show "Suc i + j < length slots \<and> slots ! (Suc i + j) \<noteq> None \<and> slots ! (Suc i + j) \<noteq> Some type"
        if "j < e" for j using 2(2) [of "Suc j"] that Suc by simp
    qed (use 2(3-5) Suc in auto)
    then show ?thesis using t Suc by simp
  qed
qed simp

lemma spa_slot_name:
  "spa_tm_wf m \<Longrightarrow> i < unat (n_types m) \<Longrightarrow> type_slots m ! Suc i = Some (spa_names m ! i)"
  by (auto simp: spa_tm_wf_def spa_names_def)

lemma length_spa_names [simp]: "length (spa_names m) = unat (n_types m)"
  by (simp add: spa_names_def)

interpretation spa_tm: type_map spa_tm_wf spa_names 1 "\<lambda>_. 1" "\<lambda>m. MAX_TYPES - 1 - unat (n_types m)"
  "\<lambda>s. spa_type_map_get_id (Some s)" spa_type_map_get_type
proof (unfold_locales, goal_cases)
  case (1 m)
  then show ?case by (simp add: spa_tm_wf_def)
next
  case (2 m i)
  have d: "distinct (spa_names m)" using 2(1) by (simp add: spa_tm_wf_def)
  have "spa_type_map_find (type_slots m) 1 (unat (n_types m)) (spa_names m ! i) = Some (1 + i, True)"
    by (rule spa_find_hit)
      (use 2 spa_slot_name [OF 2(1)] nth_eq_iff_index_eq [OF d] in \<open>auto simp: spa_tm_wf_def\<close>)
  then show ?case by (simp add: spa_type_map_get_id_def)
next
  case (3 m s)
  let ?n = "unat (n_types m)"
  let ?m = "m\<lparr>type_slots := (type_slots m)[Suc ?n := Some s], n_types := n_types m + 1\<rparr>"
  have n: "?n < 4095" "length (type_slots m) = 4096" using 3 by (auto simp: spa_tm_wf_def)
  then have n1: "unat (n_types m + 1) = Suc ?n" by (subst unat_add_lem [THEN iffD1]) simp_all
  have "spa_type_map_find (type_slots m) 1 ?n s = Some (1 + ?n, False)"
  proof (rule spa_find_miss)
    fix j assume j: "j < ?n"
    then have "spa_names m ! j \<noteq> s" using 3(2) nth_mem [of j "spa_names m"] by auto
    then show "1 + j < length (type_slots m) \<and> type_slots m ! (1 + j) \<noteq> None \<and> type_slots m ! (1 + j) \<noteq> Some s"
      using spa_slot_name [OF 3(1) j] j n by simp
  qed
  then have "spa_type_map_get_id (Some s) m = Some (of_nat (Suc ?n), ?m)"
    using n by (simp add: spa_type_map_get_id_def)
  moreover have nm: "spa_names ?m = spa_names m @ [s]"
    using n n1 by (auto simp: spa_names_def)
  moreover have "spa_tm_wf ?m"
    using 3(1,2) n n1 nm by (auto simp: spa_tm_wf_def nth_list_update less_Suc_eq)
  ultimately show ?case using n n1 by (intro exI [of _ ?m]) auto
next
  case (4 m i)
  then have i: "i < unat (n_types m)" "unat (n_types m) < 4096" by (auto simp: spa_tm_wf_def)
  then have "unat (of_nat (1 + i) :: u32) = Suc i" by (simp only: unat_of_nat) simp
  then show ?case
    using i spa_slot_name [OF 4(1)] 4(1) by (simp add: spa_type_map_get_type_def word_le_nat_alt spa_tm_wf_def)
qed

subsection \<open>Pinos library\<close>

definition ptm_names :: "pinos_type_map \<Rightarrow> string list" where
  "ptm_names m = map (\<lambda>off. the (c_str_at (str_data m) (unat off))) (cells (types m))"

definition ptm_wf :: "pinos_type_map \<Rightarrow> bool" where
  "ptm_wf m \<longleftrightarrow> map_wf (types m) \<and> map_free_ids (types m) = [] \<and> array_ok (strings m) \<and>
     unat (arr_size (strings m)) = length (str_data m) \<and> length (cells (types m)) \<le> length (str_data m) \<and>
     length (str_data m) < 2147483648 \<and>
     (\<forall>off \<in> set (cells (types m)). c_str_at (str_data m) (unat off) \<noteq> None) \<and> distinct (ptm_names m)"

lemma type_map_find_miss:
  assumes "\<And>off. off \<in> set offs \<Longrightarrow> c_str_at mem (unat off) \<noteq> None \<and> c_str_at mem (unat off) \<noteq> Some s"
  shows "type_map_find mem offs i s = Some None"
  using assms by (induction mem offs i s rule: type_map_find.induct) (auto split: option.splits)

lemma type_map_find_hit:
  assumes "k < length offs" and "c_str_at mem (unat (offs ! k)) = Some s"
    and "\<And>j. j < k \<Longrightarrow> c_str_at mem (unat (offs ! j)) \<noteq> None \<and> c_str_at mem (unat (offs ! j)) \<noteq> Some s"
  shows "type_map_find mem offs i s = Some (Some (i + of_nat k))"
  using assms
proof (induction mem offs i s arbitrary: k rule: type_map_find.induct)
  case (2 mem off offs i type)
  show ?case
  proof (cases k)
    case 0
    with 2(3) show ?thesis by simp
  next
    case (Suc l)
    obtain t where t: "c_str_at mem (unat off) = Some t" "t \<noteq> type" using 2(4) [of 0] Suc by auto
    have "type_map_find mem offs (i + 1) type = Some (Some (i + 1 + of_nat l))"
      by (rule 2(1) [OF t]) (use 2(2,3) 2(4) [of "Suc _"] Suc in auto)
    then show ?thesis using t Suc by (simp add: algebra_simps)
  qed
qed simp

lemma ptm_offset_name:
  "ptm_wf m \<Longrightarrow> i < length (cells (types m)) \<Longrightarrow>
    c_str_at (str_data m) (unat (cells (types m) ! i)) = Some (ptm_names m ! i)"
  by (auto simp: ptm_wf_def ptm_names_def)

lemma length_ptm_names [simp]: "length (ptm_names m) = length (cells (types m))"
  by (simp add: ptm_names_def)

lemma ptm_room_bytes:
  assumes "length s < 2147483648" and "n = (ucast (SPA_ROUND_UP_N (of_nat (length s) + 1 :: u32) 2) :: u64)"
  shows "Suc (length s) \<le> unat n" and "unat n \<le> length s + 2"
proof -
  have l: "unat (of_nat (length s) + 1 :: u32) = Suc (length s)"
    using assms(1) by (simp add: unat_of_nat unat_word_ariths)
  have "unat (SPA_ROUND_UP_N (of_nat (length s) + 1 :: u32) 2) = (Suc (length s) + (2 ^ 1 - 1)) div 2 ^ 1 * 2 ^ 1"
    using assms(1) l by (subst unat_round_up [of _ 1]) simp_all
  moreover have "unat n = unat (SPA_ROUND_UP_N (of_nat (length s) + 1 :: u32) 2)"
    using unsigned_less [of "SPA_ROUND_UP_N (of_nat (length s) + 1 :: u32) 2", where 'a = nat]
    by (simp add: assms(2) unsigned_ucast_eq take_bit_nat_eq_self)
  ultimately have "unat n = (Suc (length s) + 1) div 2 * 2" by simp
  then show "Suc (length s) \<le> unat n" "unat n \<le> length s + 2" by presburger+
qed

lemma ptm_get_id_new:
  assumes wf: "ptm_wf m" and s: "s \<notin> set (ptm_names m)" "NUL \<notin> set s"
    and room: "length s + 2 \<le> 2147483647 - length (str_data m)"
  shows "\<exists>m'. type_map_get_id (\<lambda>_. True) junk (Some s) m = Some (of_nat (length (cells (types m))), m') \<and>
    ptm_wf m' \<and> ptm_names m' = ptm_names m @ [s] \<and> length (str_data m') \<le> length (str_data m) + (length s + 2)"
proof -
  define n where "n = (ucast (SPA_ROUND_UP_N (of_nat (length s) + 1 :: u32) 2) :: u64)"
  define off where "off = arr_size (strings m)"
  have n: "Suc (length s) \<le> unat n" "unat n \<le> length s + 2"
    using ptm_room_bytes [OF _ n_def] room by auto
  have w: "map_wf (types m)" "map_free_ids (types m) = []" "array_ok (strings m)"
      "unat off = length (str_data m)" "length (cells (types m)) \<le> length (str_data m)"
    using wf by (auto simp: ptm_wf_def off_def)
  obtain arr where arr: "pinos_array_add (\<lambda>_. True) (strings m) n = Some (Some off, arr)" "array_ok arr"
      "unat (arr_size arr) = length (str_data m) + unat n"
  proof -
    have "unat (arr_size (strings m)) + unat n \<le> 2147483647" using w(4) n(2) room unfolding off_def by linarith
    then have "unat (arr_size (strings m)) + unat n \<le> 2 ^ 61" by simp
    then show ?thesis using array_add_ok [OF w(3), of n "\<lambda>_. True"] that w(4) by (auto simp: off_def)
  qed
  obtain ia where ins: "pinos_map_insert_new (\<lambda>_. True) (types m) off =
        Some (of_nat (length (cells (types m))), (types m)\<lparr>items := ia, cells := cells (types m) @ [off]\<rparr>)"
      "map_wf ((types m)\<lparr>items := ia, cells := cells (types m) @ [off]\<rparr>)"
      "map_free_ids ((types m)\<lparr>items := ia, cells := cells (types m) @ [off]\<rparr>) = []"
  proof -
    have "length (cells (types m)) < 2147483647" using w(5) room by linarith
    from map_insert_new_grow [OF w(1,2) this, of "\<lambda>_. True" off] show ?thesis using that by auto
  qed
  define d where "d = s @ NUL # replicate (unat n - Suc (length s)) junk"
  let ?m = "m\<lparr>types := (types m)\<lparr>items := ia, cells := cells (types m) @ [off]\<rparr>, strings := arr,
    str_data := str_data m @ d\<rparr>"
  have ld: "length d = unat n" using n(1) by (simp add: d_def)
  have "type_map_find (str_data m) (cells (types m)) 0 s = Some None"
  proof (rule type_map_find_miss)
    fix o' assume "o' \<in> set (cells (types m))"
    then obtain i where "i < length (cells (types m))" "cells (types m) ! i = o'" by (auto simp: in_set_conv_nth)
    then show "c_str_at (str_data m) (unat o') \<noteq> None \<and> c_str_at (str_data m) (unat o') \<noteq> Some s"
      using ptm_offset_name [OF wf, of i] s(1) nth_mem [of i "ptm_names m"] by auto
  qed
  then have get: "type_map_get_id (\<lambda>_. True) junk (Some s) m = Some (of_nat (length (cells (types m))), ?m)"
    using arr(1) ins(1) w(4) n(1) by (simp add: type_map_get_id_def n_def [symmetric] d_def Let_def)
  have old: "c_str_at (str_data m @ d) (unat o') = c_str_at (str_data m) (unat o')"
      "c_str_at (str_data m) (unat o') \<noteq> None" if "o' \<in> set (cells (types m))" for o'
    using wf that by (auto simp: ptm_wf_def c_str_at_append)
  have new: "c_str_at (str_data m @ d) (unat off) = Some s"
    using c_str_at_written [OF s(2)] by (simp add: w(4) d_def)
  have names: "ptm_names ?m = ptm_names m @ [s]" using old new by (simp add: ptm_names_def)
  have "ptm_wf ?m"
  proof -
    have "length (cells (types m)) + 1 \<le> length (str_data m) + unat n"
        "length (str_data m) + unat n < 2147483648" using n room w(5) by linarith+
    moreover have "distinct (ptm_names m @ [s])" using wf s(1) by (simp add: ptm_wf_def)
    moreover have "\<forall>o' \<in> set (cells (types m) @ [off]). c_str_at (str_data m @ d) (unat o') \<noteq> None"
      using old new by auto
    ultimately show ?thesis using ins(2,3) arr(2,3) ld unfolding ptm_wf_def names by simp
  qed
  with get names show ?thesis using ld n(2) by (intro exI [of _ ?m]) simp
qed

text \<open>For every content \<open>junk\<close> of the padding bytes.\<close>

lemma ptm_type_map:
  "type_map ptm_wf ptm_names 0 (\<lambda>s. length s + 2) (\<lambda>m. 2147483647 - length (str_data m))
    (\<lambda>s. type_map_get_id (\<lambda>_. True) junk (Some s)) type_map_get_type"
proof (unfold_locales, goal_cases)
  case (1 m)
  then show ?case by (simp add: ptm_wf_def)
next
  case (2 m i)
  have d: "distinct (ptm_names m)" using 2(1) by (simp add: ptm_wf_def)
  have "type_map_find (str_data m) (cells (types m)) 0 (ptm_names m ! i) = Some (Some (0 + of_nat i))"
    by (rule type_map_find_hit)
      (use 2 ptm_offset_name [OF 2(1)] nth_eq_iff_index_eq [OF d] in auto)
  then show ?case by (simp add: type_map_get_id_def)
next
  case (3 m s)
  then show ?case using ptm_get_id_new [of m s junk] by fastforce
next
  case (4 m i)
  have l: "i < length (cells (types m))" "length (cells (types m)) < 2147483648" "map_wf (types m)"
    using 4 by (auto simp: ptm_wf_def)
  then have u: "unat (of_nat i :: u32) = i" by (simp add: unat_of_nat)
  then have "of_nat i \<noteq> (SPA_ID_INVALID :: u32)" using l(1,2) by (auto simp: word_unat_eq_iff)
  then show ?case
    using ptm_offset_name [OF 4(1) l(1)] l u
    by (simp add: type_map_get_type_def check_id_iff pinos_map_get_item_def)
qed

interpretation ptm: type_map ptm_wf ptm_names 0 "\<lambda>s. length s + 2" "\<lambda>m. 2147483647 - length (str_data m)"
  "\<lambda>s. type_map_get_id (\<lambda>_. True) junk (Some s)" type_map_get_type
  for junk by (rule ptm_type_map)

section \<open>Correctness\<close>

text \<open>C22. Pinos library: starting from the empty default map, the ids returned for any sequence of names are given in the order
  of the first use of the names: a name has the number of different names that came before it. They map back to those names at
  the end, and two ids are equal exactly when the names are; whatever the uninitialised padding bytes hold, and as long as the
  names take less than \<open>2^31\<close> bytes.\<close>

theorem pinos_type_map_ids:
  assumes "list_all (\<lambda>s. NUL \<notin> set s) ss" and "sum_list (map (\<lambda>s. length s + 2) ss) \<le> 2147483647"
  shows "\<exists>is m'. get_ids (\<lambda>s. type_map_get_id (\<lambda>_. True) junk (Some s)) ss default_type_map = Some (is, m') \<and>
    is = map (\<lambda>s. of_nat (place_in (first_uses ss) s)) ss \<and>
    map (type_map_get_type m') is = map (\<lambda>s. Some (Some s)) ss \<and>
    (\<forall>a < length ss. \<forall>b < length ss. is ! a = is ! b \<longleftrightarrow> ss ! a = ss ! b) \<and> length is = length ss"
proof (rule ptm.get_ids_spec [simplified add_0])
  show "ptm_wf default_type_map"
    by (simp add: ptm_wf_def default_type_map_def map_wf_def map_free_ids_def array_ok_def
        pinos_array_init_def ptm_names_def)
qed (use assms in \<open>auto simp: list_all_iff default_type_map_def ptm_names_def\<close>)

theorem pinos_type_map_ids_witness:
  "\<exists>is m'. get_ids (\<lambda>s. type_map_get_id (\<lambda>_. True) CHR ''?'' (Some s)) [''Spa:Type'', ''Spa'', ''Spa:Type''] default_type_map = Some (is, m') \<and>
    map (type_map_get_type m') is = [Some (Some ''Spa:Type''), Some (Some ''Spa''), Some (Some ''Spa:Type'')] \<and>
    is = [0, 1, 0]"
  using pinos_type_map_ids [of "[''Spa:Type'', ''Spa'', ''Spa:Type'']" "CHR ''?''"]
  by (auto simp: first_uses_def add_new_def place_in_def)

text \<open>C23. SPA library: the same for its table of at most \<open>MAX_TYPES - 1\<close> names, whose ids start at 1: they are 1, 2, 3 and so on
  in the order in which the names are first used.\<close>

theorem spa_type_map_ids:
  assumes "list_all (\<lambda>s. NUL \<notin> set s) ss" and "length ss \<le> MAX_TYPES - 1"
  shows "\<exists>is m'. get_ids (\<lambda>s. spa_type_map_get_id (Some s)) ss spa_default_type_map = Some (is, m') \<and>
    is = map (\<lambda>s. of_nat (1 + place_in (first_uses ss) s)) ss \<and>
    map (spa_type_map_get_type m') is = map (\<lambda>s. Some (Some s)) ss \<and>
    (\<forall>a < length ss. \<forall>b < length ss. is ! a = is ! b \<longleftrightarrow> ss ! a = ss ! b) \<and> length is = length ss"
proof (rule spa_tm.get_ids_spec)
  show "spa_tm_wf spa_default_type_map"
    by (simp add: spa_tm_wf_def spa_default_type_map_def spa_names_def)
qed (use assms in \<open>auto simp: list_all_iff spa_default_type_map_def spa_names_def sum_list_triv\<close>)

theorem spa_type_map_ids_witness:
  "\<exists>is m'. get_ids (\<lambda>s. spa_type_map_get_id (Some s)) [''Spa:Type'', ''Spa'', ''Spa:Type''] spa_default_type_map = Some (is, m') \<and>
    map (spa_type_map_get_type m') is = [Some (Some ''Spa:Type''), Some (Some ''Spa''), Some (Some ''Spa:Type'')] \<and>
    is = [1, 2, 1]"
  using spa_type_map_ids [of "[''Spa:Type'', ''Spa'', ''Spa:Type'']"]
  by (auto simp: first_uses_def add_new_def place_in_def)

text \<open>C28. The table has no bound check: with \<open>MAX_TYPES - 1\<close> names registered, asking for a new name stores
  its pointer past the end of the array.\<close>

theorem spa_type_map_overflow:
  assumes "spa_tm_wf m" and "unat (n_types m) = MAX_TYPES - 1" and "s \<notin> set (spa_names m)"
  shows "spa_type_map_get_id (Some s) m = None"
proof -
  have len: "length (type_slots m) = MAX_TYPES" using assms(1) by (simp add: spa_tm_wf_def)
  have "spa_type_map_find (type_slots m) 1 (unat (n_types m)) s = Some (1 + unat (n_types m), False)"
  proof (rule spa_find_miss)
    fix j assume j: "j < unat (n_types m)"
    then have "spa_names m ! j \<noteq> s" using assms(3) nth_mem [of j "spa_names m"] by auto
    then show "1 + j < length (type_slots m) \<and> type_slots m ! (1 + j) \<noteq> None \<and> type_slots m ! (1 + j) \<noteq> Some s"
      using spa_slot_name [OF assms(1) j] j assms(2) len by simp
  qed
  then show ?thesis using assms(2) len by (simp add: spa_type_map_get_id_def)
qed

definition full_type_map :: spa_type_map where
  "full_type_map = \<lparr>type_slots = None # map (\<lambda>i. Some (replicate i CHR ''a'')) [0..<4095], n_types = 4095\<rparr>"

theorem spa_type_map_overflow_witness: "spa_type_map_get_id (Some ''b'') full_type_map = None"
proof (rule spa_type_map_overflow)
  have n: "spa_names full_type_map = map (\<lambda>i. replicate i CHR ''a'') [0..<4095]"
    by (rule nth_equalityI) (auto simp: spa_names_def full_type_map_def)
  show "''b'' \<notin> set (spa_names full_type_map)"
  proof -
    have "''b'' \<noteq> replicate k CHR ''a''" for k by (cases k) auto
    then show ?thesis by (auto simp: n)
  qed
  have "inj_on (\<lambda>i. replicate i CHR ''a'') {0..<4095}" by (rule inj_onI) (metis length_replicate)
  then have "distinct (spa_names full_type_map)" by (simp add: n distinct_map)
  then show "spa_tm_wf full_type_map" by (simp add: spa_tm_wf_def full_type_map_def)
qed (simp add: full_type_map_def)

end
