(* ===== verification/Pinos_Native.thy ===== *)
theory Pinos_Native
  imports Pinos_Pod_Remap Pinos_Connection Pinos_Type_Map
begin

text \<open>
  The native protocol: marshalling of method calls on the client side and of events on the server side
  (\<^verbatim>\<open>pinos/client/protocol-native.c\<close>, \<^verbatim>\<open>pinos/server/protocol-native.c\<close>) and the demarshalling
  functions of the other side. A marshalling function builds one struct in the output buffer of the connection and
  ends the packet; before it, the peer is told the types it does not know yet. A demarshalling function returns the
  call it makes on the implementation, or a failure. Strings are C strings as lists of non-zero bytes; a null
  pointer is \<open>None\<close>. Definitions starting with \<open>c_\<close> model the client's file, with \<open>s_\<close> the server's.
\<close>

section \<open>Messages\<close>

type_synonym dict = "(cstr option \<times> cstr option) list"
type_synonym pod = "byte list"

record port_info =
  pi_flags :: u32
  pi_rate :: u32
  pi_maxbuffering :: u64
  pi_latency :: u64
  pi_params :: "pod list"
  pi_extra :: "dict option"

datatype client_method =
    Core_client_update "dict option"
  | Core_sync u32
  | Core_get_registry u32
  | Core_create_node "cstr option" "cstr option" "dict option" u32
  | Core_create_client_node "cstr option" "dict option" u32
  | Core_update_types u32 "cstr option list"
  | Registry_bind u32 u32
  | Client_node_update u32 u32 u32 "pod option"
  | Client_node_port_update u32 u32 u32 "pod list" "pod option" "pod option" "port_info option"
  | Client_node_event pod
  | Client_node_destroy

record node_buffer =
  nb_mem_id :: u32
  nb_offset :: u32
  nb_size :: u32
  nb_id :: u32
  nb_metas :: "(u32 \<times> u32) list"
  nb_datas :: "(u32 \<times> u32 \<times> u32 \<times> u32 \<times> u32) list"

datatype server_event =
    Core_info u32 u64 "cstr option" "cstr option" "cstr option" "cstr option" u32 "dict option"
  | Core_done u32
  | Core_error u32 u32 "cstr option"
  | Core_remove_id u32
  | Core_types u32 "cstr option list"
  | Registry_global u32 "cstr option"
  | Registry_global_remove u32
  | Module_info u32 u64 "cstr option" "cstr option" "cstr option" "dict option"
  | Node_info u32 u64 "cstr option" u32 u32 "pod list" u32 u32 "pod list" u32 "cstr option" "dict option"
  | Client_info u32 u64 "dict option"
  | Link_info u32 u64 u32 u32 u32 u32
  | Node_done int int
  | Node_event pod
  | Node_add_port u32 u32 u32
  | Node_remove_port u32 u32 u32
  | Node_set_format u32 u32 u32 u32 "pod option"
  | Node_set_property u32 u32 "byte list"
  | Node_add_mem u32 u32 u32 u32 int u32 u32 u32
  | Node_use_buffers u32 u32 u32 "node_buffer list"
  | Node_node_command u32 pod
  | Node_port_command u32 pod
  | Node_transport int u32 u32

section \<open>Sending\<close>

record native_peer =
  np_conn :: "pinos_connection option"
  np_types :: pinos_type_map
  np_n_types :: u32
  np_core_id :: u32

definition str_bytes :: "string \<Rightarrow> cstr" where
  "str_bytes s = map of_char s"

text \<open>Building the struct behind \<open>pinos_connection_begin_write\<close> and ending the packet.\<close>

definition native_send :: "native_peer \<Rightarrow> u32 \<Rightarrow> u8 \<Rightarrow> pod_arg list \<Rightarrow> native_peer option" where
  "native_send peer ident opcode args =
     (case np_conn peer of
        None \<Rightarrow> None
      | Some conn \<Rightarrow>
          (case build_struct args of
             None \<Rightarrow> None
           | Some data \<Rightarrow> Some (peer\<lparr>np_conn := Some (pinos_connection_end_write conn ident opcode data)\<rparr>)))"

definition dict_args :: "dict option \<Rightarrow> pod_arg list" where
  "dict_args props =
     (let items = (case props of None \<Rightarrow> [] | Some d \<Rightarrow> d) in
      A_Int (of_nat (length items)) # concat (map (\<lambda>(k, v). [A_String k, A_String v]) items))"

definition type_args :: "u32 \<Rightarrow> cstr option list \<Rightarrow> pod_arg list" where
  "type_args first_id tps = A_Int first_id # A_Int (of_nat (length tps)) # map A_String tps"

text \<open>The names the type map gives to the ids from \<open>base\<close> on.\<close>

definition new_types :: "pinos_type_map \<Rightarrow> u32 \<Rightarrow> u32 \<Rightarrow> cstr option list option" where
  "new_types tm base diff =
     those (map (\<lambda>i. map_option (map_option str_bytes) (type_map_get_type tm (base + of_nat i))) [0..<unat diff])"

subsection \<open>Client side\<close>

definition c_core_marshal_update_types :: "native_peer \<Rightarrow> u32 \<Rightarrow> u32 \<Rightarrow> cstr option list \<Rightarrow> native_peer option" where
  "c_core_marshal_update_types peer ident first_id tps =
     (if np_conn peer = None then Some peer else native_send peer ident 5 (type_args first_id tps))"

definition c_core_update_map :: "native_peer \<Rightarrow> native_peer option" where
  "c_core_update_map peer =
     (let base = np_n_types peer; diff = ucast (type_map_get_size (np_types peer)) - base in
      if diff = 0 then Some peer
      else case new_types (np_types peer) base diff of
             None \<Rightarrow> None
           | Some tps \<Rightarrow>
               (case c_core_marshal_update_types peer (np_core_id peer) base tps of
                  None \<Rightarrow> None
                | Some peer' \<Rightarrow> Some (peer'\<lparr>np_n_types := base + diff\<rparr>)))"

definition client_call :: "native_peer \<Rightarrow> u32 \<Rightarrow> u8 \<Rightarrow> pod_arg list \<Rightarrow> native_peer option" where
  "client_call peer ident opcode args =
     (if np_conn peer = None then Some peer
      else case c_core_update_map peer of
             None \<Rightarrow> None
           | Some peer' \<Rightarrow> native_send peer' ident opcode args)"

definition c_core_marshal_client_update :: "native_peer \<Rightarrow> u32 \<Rightarrow> dict option \<Rightarrow> native_peer option" where
  "c_core_marshal_client_update peer ident props = client_call peer ident 0 (dict_args props)"

definition c_core_marshal_sync :: "native_peer \<Rightarrow> u32 \<Rightarrow> u32 \<Rightarrow> native_peer option" where
  "c_core_marshal_sync peer ident seq = client_call peer ident 1 [A_Int seq]"

definition c_core_marshal_get_registry :: "native_peer \<Rightarrow> u32 \<Rightarrow> u32 \<Rightarrow> native_peer option" where
  "c_core_marshal_get_registry peer ident new_id = client_call peer ident 2 [A_Int new_id]"

definition c_core_marshal_create_node ::
  "native_peer \<Rightarrow> u32 \<Rightarrow> cstr option \<Rightarrow> cstr option \<Rightarrow> dict option \<Rightarrow> u32 \<Rightarrow> native_peer option" where
  "c_core_marshal_create_node peer ident factory_name name props new_id =
     client_call peer ident 3 ([A_String factory_name, A_String name] @ dict_args props @ [A_Int new_id])"

definition c_core_marshal_create_client_node ::
  "native_peer \<Rightarrow> u32 \<Rightarrow> cstr option \<Rightarrow> dict option \<Rightarrow> u32 \<Rightarrow> native_peer option" where
  "c_core_marshal_create_client_node peer ident name props new_id =
     client_call peer ident 4 ([A_String name] @ dict_args props @ [A_Int new_id])"

definition c_registry_marshal_bind :: "native_peer \<Rightarrow> u32 \<Rightarrow> u32 \<Rightarrow> u32 \<Rightarrow> native_peer option" where
  "c_registry_marshal_bind peer ident i new_id = client_call peer ident 0 [A_Int i, A_Int new_id]"

definition c_client_node_marshal_update ::
  "native_peer \<Rightarrow> u32 \<Rightarrow> u32 \<Rightarrow> u32 \<Rightarrow> u32 \<Rightarrow> pod option \<Rightarrow> native_peer option" where
  "c_client_node_marshal_update peer ident change_mask max_input_ports max_output_ports props =
     client_call peer ident 0 [A_Int change_mask, A_Int max_input_ports, A_Int max_output_ports, A_Pod props]"

definition port_info_args :: "port_info \<Rightarrow> pod_arg list" where
  "port_info_args info =
     [A_Int (pi_flags info), A_Int (pi_rate info), A_Long (pi_maxbuffering info), A_Long (pi_latency info),
      A_Int (of_nat (length (pi_params info)))] @
     map (\<lambda>p. A_Pod (Some p)) (pi_params info) @ dict_args (pi_extra info)"

definition c_client_node_marshal_port_update ::
  "native_peer \<Rightarrow> u32 \<Rightarrow> u32 \<Rightarrow> u32 \<Rightarrow> u32 \<Rightarrow> pod list \<Rightarrow> pod option \<Rightarrow> pod option \<Rightarrow> port_info option \<Rightarrow>
    native_peer option" where
  "c_client_node_marshal_port_update peer ident direction port_id change_mask possible_formats format props info =
     client_call peer ident 1
       ([A_Int direction, A_Int port_id, A_Int change_mask, A_Int (of_nat (length possible_formats))] @
        map (\<lambda>f. A_Pod (Some f)) possible_formats @ [A_Pod format, A_Pod props] @
        (case info of
           Some i \<Rightarrow> A_Struct # port_info_args i @ [A_Pop]
         | None \<Rightarrow> [A_Pod None]))"

definition c_client_node_marshal_event :: "native_peer \<Rightarrow> u32 \<Rightarrow> pod \<Rightarrow> native_peer option" where
  "c_client_node_marshal_event peer ident event = client_call peer ident 2 [A_Pod (Some event)]"

definition c_client_node_marshal_destroy :: "native_peer \<Rightarrow> u32 \<Rightarrow> native_peer option" where
  "c_client_node_marshal_destroy peer ident = client_call peer ident 3 []"

definition c_marshal :: "native_peer \<Rightarrow> u32 \<Rightarrow> client_method \<Rightarrow> native_peer option" where
  "c_marshal peer ident m =
     (case m of
        Core_client_update props \<Rightarrow> c_core_marshal_client_update peer ident props
      | Core_sync seq \<Rightarrow> c_core_marshal_sync peer ident seq
      | Core_get_registry new_id \<Rightarrow> c_core_marshal_get_registry peer ident new_id
      | Core_create_node factory_name name props new_id \<Rightarrow>
          c_core_marshal_create_node peer ident factory_name name props new_id
      | Core_create_client_node name props new_id \<Rightarrow> c_core_marshal_create_client_node peer ident name props new_id
      | Core_update_types first_id tps \<Rightarrow> c_core_marshal_update_types peer ident first_id tps
      | Registry_bind i new_id \<Rightarrow> c_registry_marshal_bind peer ident i new_id
      | Client_node_update cmask n_in n_out props \<Rightarrow> c_client_node_marshal_update peer ident cmask n_in n_out props
      | Client_node_port_update dir port cmask fmts fmt props info \<Rightarrow>
          c_client_node_marshal_port_update peer ident dir port cmask fmts fmt props info
      | Client_node_event ev \<Rightarrow> c_client_node_marshal_event peer ident ev
      | Client_node_destroy \<Rightarrow> c_client_node_marshal_destroy peer ident)"

section \<open>Receiving on the server\<close>

definition run_reader :: "'a reader \<Rightarrow> spa_pod_iter \<Rightarrow> 'a rd" where
  "run_reader p it = (case p it of Got (a, _) \<Rightarrow> Got a | Fail \<Rightarrow> Fail | Fault \<Rightarrow> Fault)"

definition demarshal :: "'a reader \<Rightarrow> byte list \<Rightarrow> 'a rd" where
  "demarshal p data =
     (case spa_pod_iter_struct data (of_nat (length data)) of
        Got it \<Rightarrow> run_reader p it | Fail \<Rightarrow> Fail | Fault \<Rightarrow> Fault)"

text \<open>The variant that translates the type ids in the message first; the iterator is set up before.\<close>

definition demarshal_remap :: "pinos_map \<Rightarrow> 'a reader \<Rightarrow> byte list \<Rightarrow> 'a rd" where
  "demarshal_remap tps p data =
     (case spa_pod_iter_struct data (of_nat (length data)) of
        Got it \<Rightarrow>
          (case remap_message tps data of
             R_ok data' \<Rightarrow> run_reader p (it\<lparr>it_data := drop 8 data'\<rparr>)
           | R_false \<Rightarrow> Fail
           | _ \<Rightarrow> Fault)
      | Fail \<Rightarrow> Fail
      | Fault \<Rightarrow> Fault)"

definition get_dict_item :: "(cstr option \<times> cstr option) reader" where
  "get_dict_item = r_bind get_string (\<lambda>k. r_bind get_string (\<lambda>v. r_return (Some k, Some v)))"

definition get_dict :: "dict reader" where
  "get_dict = r_bind get_int (\<lambda>n. r_repeat (unat n) get_dict_item)"

definition get_types :: "(u32 \<times> cstr option list) reader" where
  "get_types = r_bind get_int (\<lambda>first_id. r_bind get_int (\<lambda>n.
     r_bind (r_repeat (unat n) get_string) (\<lambda>ts. r_return (first_id, map Some ts))))"

definition s_core_demarshal_client_update :: "byte list \<Rightarrow> client_method rd" where
  "s_core_demarshal_client_update =
     demarshal (r_bind get_dict (\<lambda>d. r_return (Core_client_update (Some d))))"

definition s_core_demarshal_sync :: "byte list \<Rightarrow> client_method rd" where
  "s_core_demarshal_sync = demarshal (r_bind get_int (\<lambda>seq. r_return (Core_sync seq)))"

definition s_core_demarshal_get_registry :: "byte list \<Rightarrow> client_method rd" where
  "s_core_demarshal_get_registry = demarshal (r_bind get_int (\<lambda>i. r_return (Core_get_registry i)))"

definition s_core_demarshal_create_node :: "byte list \<Rightarrow> client_method rd" where
  "s_core_demarshal_create_node =
     demarshal (r_bind get_string (\<lambda>f. r_bind get_string (\<lambda>n. r_bind get_dict (\<lambda>d.
       r_bind get_int (\<lambda>i. r_return (Core_create_node (Some f) (Some n) (Some d) i))))))"

definition s_core_demarshal_create_client_node :: "byte list \<Rightarrow> client_method rd" where
  "s_core_demarshal_create_client_node =
     demarshal (r_bind get_string (\<lambda>n. r_bind get_dict (\<lambda>d.
       r_bind get_int (\<lambda>i. r_return (Core_create_client_node (Some n) (Some d) i)))))"

definition s_core_demarshal_update_types :: "byte list \<Rightarrow> client_method rd" where
  "s_core_demarshal_update_types =
     demarshal (r_bind get_types (\<lambda>(f, ts). r_return (Core_update_types f ts)))"

definition s_registry_demarshal_bind :: "byte list \<Rightarrow> client_method rd" where
  "s_registry_demarshal_bind =
     demarshal (r_bind get_int (\<lambda>i. r_bind get_int (\<lambda>n. r_return (Registry_bind i n))))"

definition s_client_node_demarshal_update :: "pinos_map \<Rightarrow> byte list \<Rightarrow> client_method rd" where
  "s_client_node_demarshal_update tps =
     demarshal_remap tps (r_bind get_int (\<lambda>cmask. r_bind get_int (\<lambda>n_in. r_bind get_int (\<lambda>n_out.
       r_bind (get_opt SPA_POD_TYPE_OBJECT) (\<lambda>props. r_return (Client_node_update cmask n_in n_out props))))))"

text \<open>The nested struct with the port info is read through an iterator of its own.\<close>

definition get_port_info :: "port_info reader" where
  "get_port_info =
     r_bind get_int (\<lambda>flags. r_bind get_int (\<lambda>rate. r_bind get_long (\<lambda>maxbuf. r_bind get_long (\<lambda>latency.
     r_bind get_int (\<lambda>n. r_bind (r_repeat (unat n) get_object) (\<lambda>params. r_bind get_dict (\<lambda>extra.
       r_return \<lparr>pi_flags = flags, pi_rate = rate, pi_maxbuffering = maxbuf, pi_latency = latency,
                 pi_params = params, pi_extra = Some extra\<rparr>)))))))"

definition in_pod :: "'a reader \<Rightarrow> pod option \<Rightarrow> 'a option reader" where
  "in_pod p ipod it =
     (case ipod of
        None \<Rightarrow> Got (None, it)
      | Some bs \<Rightarrow>
          (case spa_pod_iter_pod bs of
             Got it2 \<Rightarrow> (case p it2 of Got (a, _) \<Rightarrow> Got (Some a, it) | Fail \<Rightarrow> Fail | Fault \<Rightarrow> Fault)
           | Fail \<Rightarrow> Fail
           | Fault \<Rightarrow> Fault))"

definition s_client_node_demarshal_port_update :: "pinos_map \<Rightarrow> byte list \<Rightarrow> client_method rd" where
  "s_client_node_demarshal_port_update tps =
     demarshal_remap tps
       (r_bind get_int (\<lambda>dir. r_bind get_int (\<lambda>port. r_bind get_int (\<lambda>cmask. r_bind get_int (\<lambda>n.
        r_bind (r_repeat (unat n) get_object) (\<lambda>fmts. r_bind (get_opt SPA_POD_TYPE_OBJECT) (\<lambda>fmt.
        r_bind (get_opt SPA_POD_TYPE_OBJECT) (\<lambda>props. r_bind (get_opt SPA_POD_TYPE_STRUCT) (\<lambda>ipod.
        r_bind (in_pod get_port_info ipod) (\<lambda>info.
          r_return (Client_node_port_update dir port cmask fmts fmt props info)))))))))))"

definition s_client_node_demarshal_event :: "pinos_map \<Rightarrow> byte list \<Rightarrow> client_method rd" where
  "s_client_node_demarshal_event tps =
     demarshal_remap tps (r_bind get_object (\<lambda>ev. r_return (Client_node_event ev)))"

definition s_client_node_demarshal_destroy :: "byte list \<Rightarrow> client_method rd" where
  "s_client_node_demarshal_destroy = demarshal (r_return Client_node_destroy)"

text \<open>The interfaces and their tables of functions, indexed by the opcode of a packet.\<close>

datatype native_iface = I_core | I_registry | I_module | I_node | I_client | I_client_node | I_link

definition server_dispatch :: "pinos_map \<Rightarrow> native_iface \<Rightarrow> u8 \<Rightarrow> (byte list \<Rightarrow> client_method rd) option" where
  "server_dispatch tps iface opcode =
     (let table = (case iface of
          I_core \<Rightarrow> [s_core_demarshal_client_update, s_core_demarshal_sync, s_core_demarshal_get_registry,
            s_core_demarshal_create_node, s_core_demarshal_create_client_node, s_core_demarshal_update_types]
        | I_registry \<Rightarrow> [s_registry_demarshal_bind]
        | I_client_node \<Rightarrow> [s_client_node_demarshal_update tps, s_client_node_demarshal_port_update tps,
            s_client_node_demarshal_event tps, s_client_node_demarshal_destroy]
        | _ \<Rightarrow> []) in
      if unat opcode < length table then Some (table ! unat opcode) else None)"

section \<open>Server side\<close>

definition s_core_marshal_update_types :: "native_peer \<Rightarrow> u32 \<Rightarrow> u32 \<Rightarrow> cstr option list \<Rightarrow> native_peer option" where
  "s_core_marshal_update_types peer ident first_id tps = native_send peer ident 4 (type_args first_id tps)"

definition s_core_update_map :: "native_peer \<Rightarrow> native_peer option" where
  "s_core_update_map peer =
     (let base = np_n_types peer; diff = ucast (type_map_get_size (np_types peer)) - base in
      if diff = 0 then Some peer
      else case new_types (np_types peer) base diff of
             None \<Rightarrow> None
           | Some tps \<Rightarrow>
               (case s_core_marshal_update_types peer (np_core_id peer) base tps of
                  None \<Rightarrow> None
                | Some peer' \<Rightarrow> Some (peer'\<lparr>np_n_types := base + diff\<rparr>)))"

definition server_notify :: "native_peer \<Rightarrow> u32 \<Rightarrow> u8 \<Rightarrow> pod_arg list \<Rightarrow> native_peer option" where
  "server_notify peer ident opcode args =
     (case s_core_update_map peer of
        None \<Rightarrow> None
      | Some peer' \<Rightarrow> native_send peer' ident opcode args)"

definition s_core_marshal_info ::
  "native_peer \<Rightarrow> u32 \<Rightarrow> u32 \<Rightarrow> u64 \<Rightarrow> cstr option \<Rightarrow> cstr option \<Rightarrow> cstr option \<Rightarrow> cstr option \<Rightarrow> u32 \<Rightarrow>
    dict option \<Rightarrow> native_peer option" where
  "s_core_marshal_info peer ident i change_mask user_name host_name version name cookie props =
     server_notify peer ident 0 ([A_Int i, A_Long change_mask, A_String user_name, A_String host_name,
       A_String version, A_String name, A_Int cookie] @ dict_args props)"

definition s_core_marshal_done :: "native_peer \<Rightarrow> u32 \<Rightarrow> u32 \<Rightarrow> native_peer option" where
  "s_core_marshal_done peer ident seq = server_notify peer ident 1 [A_Int seq]"

text \<open>The message is what \<^verbatim>\<open>vsnprintf\<close> leaves in a buffer of 128 bytes: \<open>error\<close> is the formatted text.\<close>

definition s_core_marshal_error :: "native_peer \<Rightarrow> u32 \<Rightarrow> u32 \<Rightarrow> u32 \<Rightarrow> cstr \<Rightarrow> native_peer option" where
  "s_core_marshal_error peer ident i res error =
     server_notify peer ident 2 [A_Int i, A_Int res, A_String (Some (take 127 error))]"

definition s_core_marshal_remove_id :: "native_peer \<Rightarrow> u32 \<Rightarrow> u32 \<Rightarrow> native_peer option" where
  "s_core_marshal_remove_id peer ident i = server_notify peer ident 3 [A_Int i]"

definition s_registry_marshal_global :: "native_peer \<Rightarrow> u32 \<Rightarrow> u32 \<Rightarrow> cstr option \<Rightarrow> native_peer option" where
  "s_registry_marshal_global peer ident i type = server_notify peer ident 0 [A_Int i, A_String type]"

definition s_registry_marshal_global_remove :: "native_peer \<Rightarrow> u32 \<Rightarrow> u32 \<Rightarrow> native_peer option" where
  "s_registry_marshal_global_remove peer ident i = server_notify peer ident 1 [A_Int i]"

definition s_module_marshal_info ::
  "native_peer \<Rightarrow> u32 \<Rightarrow> u32 \<Rightarrow> u64 \<Rightarrow> cstr option \<Rightarrow> cstr option \<Rightarrow> cstr option \<Rightarrow> dict option \<Rightarrow> native_peer option" where
  "s_module_marshal_info peer ident i change_mask name filename args props =
     server_notify peer ident 0 ([A_Int i, A_Long change_mask, A_String name, A_String filename, A_String args] @
       dict_args props)"

definition s_node_marshal_info ::
  "native_peer \<Rightarrow> u32 \<Rightarrow> u32 \<Rightarrow> u64 \<Rightarrow> cstr option \<Rightarrow> u32 \<Rightarrow> u32 \<Rightarrow> pod list \<Rightarrow> u32 \<Rightarrow> u32 \<Rightarrow> pod list \<Rightarrow> u32 \<Rightarrow>
    cstr option \<Rightarrow> dict option \<Rightarrow> native_peer option" where
  "s_node_marshal_info peer ident i change_mask name max_inputs n_inputs input_formats max_outputs n_outputs
       output_formats state error props =
     server_notify peer ident 0
       ([A_Int i, A_Long change_mask, A_String name, A_Int max_inputs, A_Int n_inputs,
         A_Int (of_nat (length input_formats))] @ map (\<lambda>f. A_Pod (Some f)) input_formats @
        [A_Int max_outputs, A_Int n_outputs, A_Int (of_nat (length output_formats))] @
        map (\<lambda>f. A_Pod (Some f)) output_formats @ [A_Int state, A_String error] @ dict_args props)"

definition s_client_marshal_info :: "native_peer \<Rightarrow> u32 \<Rightarrow> u32 \<Rightarrow> u64 \<Rightarrow> dict option \<Rightarrow> native_peer option" where
  "s_client_marshal_info peer ident i change_mask props =
     server_notify peer ident 0 ([A_Int i, A_Long change_mask] @ dict_args props)"

definition s_link_marshal_info ::
  "native_peer \<Rightarrow> u32 \<Rightarrow> u32 \<Rightarrow> u64 \<Rightarrow> u32 \<Rightarrow> u32 \<Rightarrow> u32 \<Rightarrow> u32 \<Rightarrow> native_peer option" where
  "s_link_marshal_info peer ident i change_mask out_node out_port in_node in_port =
     server_notify peer ident 0 [A_Int i, A_Long change_mask, A_Int out_node, A_Int out_port, A_Int in_node, A_Int in_port]"

text \<open>Descriptors are added to the connection before the struct is built, from left to right (C leaves the order of
  the two calls in one argument list open).\<close>

definition peer_add_fd :: "native_peer \<Rightarrow> int \<Rightarrow> (u32 \<times> native_peer) option" where
  "peer_add_fd peer fd =
     (case np_conn peer of
        None \<Rightarrow> None
      | Some conn \<Rightarrow>
          (case pinos_connection_add_fd conn fd of (i, conn') \<Rightarrow> Some (i, peer\<lparr>np_conn := Some conn'\<rparr>)))"

definition s_client_node_marshal_done :: "native_peer \<Rightarrow> u32 \<Rightarrow> int \<Rightarrow> int \<Rightarrow> native_peer option" where
  "s_client_node_marshal_done peer ident readfd writefd =
     (case s_core_update_map peer of
        None \<Rightarrow> None
      | Some p1 \<Rightarrow>
          (case peer_add_fd p1 readfd of
             None \<Rightarrow> None
           | Some (ridx, p2) \<Rightarrow>
               (case peer_add_fd p2 writefd of
                  None \<Rightarrow> None
                | Some (widx, p3) \<Rightarrow> native_send p3 ident 0 [A_Int ridx, A_Int widx])))"

definition s_client_node_marshal_event :: "native_peer \<Rightarrow> u32 \<Rightarrow> pod \<Rightarrow> native_peer option" where
  "s_client_node_marshal_event peer ident event = server_notify peer ident 1 [A_Pod (Some event)]"

definition s_client_node_marshal_add_port :: "native_peer \<Rightarrow> u32 \<Rightarrow> u32 \<Rightarrow> u32 \<Rightarrow> u32 \<Rightarrow> native_peer option" where
  "s_client_node_marshal_add_port peer ident seq direction port_id =
     server_notify peer ident 2 [A_Int seq, A_Int direction, A_Int port_id]"

definition s_client_node_marshal_remove_port :: "native_peer \<Rightarrow> u32 \<Rightarrow> u32 \<Rightarrow> u32 \<Rightarrow> u32 \<Rightarrow> native_peer option" where
  "s_client_node_marshal_remove_port peer ident seq direction port_id =
     server_notify peer ident 3 [A_Int seq, A_Int direction, A_Int port_id]"

definition s_client_node_marshal_set_format ::
  "native_peer \<Rightarrow> u32 \<Rightarrow> u32 \<Rightarrow> u32 \<Rightarrow> u32 \<Rightarrow> u32 \<Rightarrow> pod option \<Rightarrow> native_peer option" where
  "s_client_node_marshal_set_format peer ident seq direction port_id flags format =
     server_notify peer ident 4 [A_Int seq, A_Int direction, A_Int port_id, A_Int flags, A_Pod format]"

definition s_client_node_marshal_set_property ::
  "native_peer \<Rightarrow> u32 \<Rightarrow> u32 \<Rightarrow> u32 \<Rightarrow> byte list \<Rightarrow> native_peer option" where
  "s_client_node_marshal_set_property peer ident seq i bs =
     server_notify peer ident 5 [A_Int seq, A_Int i, A_Bytes bs]"

definition s_client_node_marshal_add_mem ::
  "native_peer \<Rightarrow> u32 \<Rightarrow> u32 \<Rightarrow> u32 \<Rightarrow> u32 \<Rightarrow> u32 \<Rightarrow> int \<Rightarrow> u32 \<Rightarrow> u32 \<Rightarrow> u32 \<Rightarrow> native_peer option" where
  "s_client_node_marshal_add_mem peer ident direction port_id mem_id type memfd flags off sz =
     (case s_core_update_map peer of
        None \<Rightarrow> None
      | Some p1 \<Rightarrow>
          (case peer_add_fd p1 memfd of
             None \<Rightarrow> None
           | Some (idx, p2) \<Rightarrow>
               native_send p2 ident 6 [A_Int direction, A_Int port_id, A_Int mem_id, A_Id type, A_Int idx, A_Int flags,
                 A_Int off, A_Int sz]))"

definition buffer_args :: "node_buffer \<Rightarrow> pod_arg list" where
  "buffer_args b =
     [A_Int (nb_mem_id b), A_Int (nb_offset b), A_Int (nb_size b), A_Int (nb_id b), A_Int (of_nat (length (nb_metas b)))] @
     concat (map (\<lambda>(t, sz). [A_Id t, A_Int sz]) (nb_metas b)) @
     A_Int (of_nat (length (nb_datas b))) #
     concat (map (\<lambda>(t, d, fl, off, mx). [A_Id t, A_Int d, A_Int fl, A_Int off, A_Int mx]) (nb_datas b))"

definition s_client_node_marshal_use_buffers ::
  "native_peer \<Rightarrow> u32 \<Rightarrow> u32 \<Rightarrow> u32 \<Rightarrow> u32 \<Rightarrow> node_buffer list \<Rightarrow> native_peer option" where
  "s_client_node_marshal_use_buffers peer ident seq direction port_id buffers =
     server_notify peer ident 7 ([A_Int seq, A_Int direction, A_Int port_id, A_Int (of_nat (length buffers))] @
       concat (map buffer_args buffers))"

definition s_client_node_marshal_node_command :: "native_peer \<Rightarrow> u32 \<Rightarrow> u32 \<Rightarrow> pod \<Rightarrow> native_peer option" where
  "s_client_node_marshal_node_command peer ident seq command =
     server_notify peer ident 8 [A_Int seq, A_Pod (Some command)]"

definition s_client_node_marshal_port_command :: "native_peer \<Rightarrow> u32 \<Rightarrow> u32 \<Rightarrow> pod \<Rightarrow> native_peer option" where
  "s_client_node_marshal_port_command peer ident port_id command =
     server_notify peer ident 9 [A_Int port_id, A_Pod (Some command)]"

definition s_client_node_marshal_transport :: "native_peer \<Rightarrow> u32 \<Rightarrow> int \<Rightarrow> u32 \<Rightarrow> u32 \<Rightarrow> native_peer option" where
  "s_client_node_marshal_transport peer ident memfd off sz =
     (case s_core_update_map peer of
        None \<Rightarrow> None
      | Some p1 \<Rightarrow>
          (case peer_add_fd p1 memfd of
             None \<Rightarrow> None
           | Some (idx, p2) \<Rightarrow> native_send p2 ident 10 [A_Int idx, A_Int off, A_Int sz]))"

section \<open>Receiving on the client\<close>

definition c_core_demarshal_info :: "byte list \<Rightarrow> server_event rd" where
  "c_core_demarshal_info =
     demarshal (r_bind get_int (\<lambda>i. r_bind get_long (\<lambda>cm. r_bind get_string (\<lambda>u. r_bind get_string (\<lambda>h.
       r_bind get_string (\<lambda>v. r_bind get_string (\<lambda>n. r_bind get_int (\<lambda>c. r_bind get_dict (\<lambda>d.
         r_return (Core_info i cm (Some u) (Some h) (Some v) (Some n) c (Some d)))))))))))"

definition c_core_demarshal_done :: "byte list \<Rightarrow> server_event rd" where
  "c_core_demarshal_done = demarshal (r_bind get_int (\<lambda>seq. r_return (Core_done seq)))"

definition c_core_demarshal_error :: "byte list \<Rightarrow> server_event rd" where
  "c_core_demarshal_error =
     demarshal (r_bind get_int (\<lambda>i. r_bind get_int (\<lambda>res. r_bind get_string (\<lambda>e. r_return (Core_error i res (Some e))))))"

definition c_core_demarshal_remove_id :: "byte list \<Rightarrow> server_event rd" where
  "c_core_demarshal_remove_id = demarshal (r_bind get_int (\<lambda>i. r_return (Core_remove_id i)))"

definition c_core_demarshal_update_types :: "byte list \<Rightarrow> server_event rd" where
  "c_core_demarshal_update_types = demarshal (r_bind get_types (\<lambda>(f, ts). r_return (Core_types f ts)))"

definition c_registry_demarshal_global :: "byte list \<Rightarrow> server_event rd" where
  "c_registry_demarshal_global =
     demarshal (r_bind get_int (\<lambda>i. r_bind get_string (\<lambda>t. r_return (Registry_global i (Some t)))))"

definition c_registry_demarshal_global_remove :: "byte list \<Rightarrow> server_event rd" where
  "c_registry_demarshal_global_remove = demarshal (r_bind get_int (\<lambda>i. r_return (Registry_global_remove i)))"

definition c_module_demarshal_info :: "byte list \<Rightarrow> server_event rd" where
  "c_module_demarshal_info =
     demarshal (r_bind get_int (\<lambda>i. r_bind get_long (\<lambda>cm. r_bind get_string (\<lambda>n. r_bind get_string (\<lambda>f.
       r_bind get_string (\<lambda>a. r_bind get_dict (\<lambda>d. r_return (Module_info i cm (Some n) (Some f) (Some a) (Some d)))))))))"

definition c_node_demarshal_info :: "pinos_map \<Rightarrow> byte list \<Rightarrow> server_event rd" where
  "c_node_demarshal_info tps =
     demarshal_remap tps (r_bind get_int (\<lambda>i. r_bind get_long (\<lambda>cm. r_bind get_string (\<lambda>n. r_bind get_int (\<lambda>mi.
       r_bind get_int (\<lambda>ni. r_bind get_int (\<lambda>nif. r_bind (r_repeat (unat nif) get_object) (\<lambda>ifs.
       r_bind get_int (\<lambda>mo. r_bind get_int (\<lambda>no. r_bind get_int (\<lambda>nof. r_bind (r_repeat (unat nof) get_object) (\<lambda>ofs.
       r_bind get_int (\<lambda>st. r_bind get_string (\<lambda>er. r_bind get_dict (\<lambda>d.
         r_return (Node_info i cm (Some n) mi ni ifs mo no ofs st (Some er) (Some d)))))))))))))))))"

definition c_client_demarshal_info :: "byte list \<Rightarrow> server_event rd" where
  "c_client_demarshal_info =
     demarshal (r_bind get_int (\<lambda>i. r_bind get_long (\<lambda>cm. r_bind get_dict (\<lambda>d. r_return (Client_info i cm (Some d))))))"

definition c_link_demarshal_info :: "byte list \<Rightarrow> server_event rd" where
  "c_link_demarshal_info =
     demarshal (r_bind get_int (\<lambda>i. r_bind get_long (\<lambda>cm. r_bind get_int (\<lambda>on. r_bind get_int (\<lambda>op.
       r_bind get_int (\<lambda>inn. r_bind get_int (\<lambda>ip. r_return (Link_info i cm on op inn ip))))))))"

text \<open>Index to descriptor, on the receiving connection.\<close>

definition get_fd :: "pinos_connection \<Rightarrow> int reader" where
  "get_fd conn = r_bind get_int (\<lambda>i. r_return (pinos_connection_get_fd conn i))"

definition c_client_node_demarshal_done :: "pinos_connection \<Rightarrow> byte list \<Rightarrow> server_event rd" where
  "c_client_node_demarshal_done conn =
     demarshal (r_bind (get_fd conn) (\<lambda>readfd. r_bind (get_fd conn) (\<lambda>writefd.
       if readfd = - 1 \<or> writefd = - 1 then (\<lambda>it. Fail) else r_return (Node_done readfd writefd))))"

definition c_client_node_demarshal_event :: "pinos_map \<Rightarrow> byte list \<Rightarrow> server_event rd" where
  "c_client_node_demarshal_event tps = demarshal_remap tps (r_bind get_object (\<lambda>ev. r_return (Node_event ev)))"

definition c_client_node_demarshal_add_port :: "byte list \<Rightarrow> server_event rd" where
  "c_client_node_demarshal_add_port =
     demarshal (r_bind get_int (\<lambda>seq. r_bind get_int (\<lambda>d. r_bind get_int (\<lambda>p. r_return (Node_add_port seq d p)))))"

definition c_client_node_demarshal_remove_port :: "byte list \<Rightarrow> server_event rd" where
  "c_client_node_demarshal_remove_port =
     demarshal (r_bind get_int (\<lambda>seq. r_bind get_int (\<lambda>d. r_bind get_int (\<lambda>p. r_return (Node_remove_port seq d p)))))"

definition c_client_node_demarshal_set_format :: "pinos_map \<Rightarrow> byte list \<Rightarrow> server_event rd" where
  "c_client_node_demarshal_set_format tps =
     demarshal_remap tps (r_bind get_int (\<lambda>seq. r_bind get_int (\<lambda>d. r_bind get_int (\<lambda>p. r_bind get_int (\<lambda>fl.
       r_bind (get_opt SPA_POD_TYPE_OBJECT) (\<lambda>f. r_return (Node_set_format seq d p fl f)))))))"

definition c_client_node_demarshal_set_property :: "byte list \<Rightarrow> server_event rd" where
  "c_client_node_demarshal_set_property =
     demarshal (r_bind get_int (\<lambda>seq. r_bind get_int (\<lambda>i. r_bind get_bytes (\<lambda>bs. r_return (Node_set_property seq i bs)))))"

definition c_client_node_demarshal_add_mem :: "pinos_connection \<Rightarrow> pinos_map \<Rightarrow> byte list \<Rightarrow> server_event rd" where
  "c_client_node_demarshal_add_mem conn tps =
     demarshal_remap tps (r_bind get_int (\<lambda>d. r_bind get_int (\<lambda>p. r_bind get_int (\<lambda>m. r_bind get_id (\<lambda>t.
       r_bind (get_fd conn) (\<lambda>fd. r_bind get_int (\<lambda>fl. r_bind get_int (\<lambda>off. r_bind get_int (\<lambda>sz.
         r_return (Node_add_mem d p m t fd fl off sz))))))))))"

definition get_meta :: "(u32 \<times> u32) reader" where
  "get_meta = r_bind get_id (\<lambda>t. r_bind get_int (\<lambda>sz. r_return (t, sz)))"

definition get_data :: "(u32 \<times> u32 \<times> u32 \<times> u32 \<times> u32) reader" where
  "get_data = r_bind get_id (\<lambda>t. r_bind get_int (\<lambda>d. r_bind get_int (\<lambda>fl. r_bind get_int (\<lambda>off.
     r_bind get_int (\<lambda>mx. r_return (t, d, fl, off, mx))))))"

definition get_buffer :: "node_buffer reader" where
  "get_buffer = r_bind get_int (\<lambda>m. r_bind get_int (\<lambda>off. r_bind get_int (\<lambda>sz. r_bind get_int (\<lambda>i. r_bind get_int (\<lambda>nm.
     r_bind (r_repeat (unat nm) get_meta) (\<lambda>metas. r_bind get_int (\<lambda>nd. r_bind (r_repeat (unat nd) get_data) (\<lambda>datas.
       r_return \<lparr>nb_mem_id = m, nb_offset = off, nb_size = sz, nb_id = i, nb_metas = metas, nb_datas = datas\<rparr>))))))))"

definition c_client_node_demarshal_use_buffers :: "pinos_map \<Rightarrow> byte list \<Rightarrow> server_event rd" where
  "c_client_node_demarshal_use_buffers tps =
     demarshal_remap tps (r_bind get_int (\<lambda>seq. r_bind get_int (\<lambda>d. r_bind get_int (\<lambda>p. r_bind get_int (\<lambda>n.
       r_bind (r_repeat (unat n) get_buffer) (\<lambda>bs. r_return (Node_use_buffers seq d p bs)))))))"

definition c_client_node_demarshal_node_command :: "pinos_map \<Rightarrow> byte list \<Rightarrow> server_event rd" where
  "c_client_node_demarshal_node_command tps =
     demarshal_remap tps (r_bind get_int (\<lambda>seq. r_bind get_object (\<lambda>c. r_return (Node_node_command seq c))))"

definition c_client_node_demarshal_port_command :: "pinos_map \<Rightarrow> byte list \<Rightarrow> server_event rd" where
  "c_client_node_demarshal_port_command tps =
     demarshal_remap tps (r_bind get_int (\<lambda>p. r_bind get_object (\<lambda>c. r_return (Node_port_command p c))))"

definition c_client_node_demarshal_transport :: "pinos_connection \<Rightarrow> byte list \<Rightarrow> server_event rd" where
  "c_client_node_demarshal_transport conn =
     demarshal (r_bind (get_fd conn) (\<lambda>fd. r_bind get_int (\<lambda>off. r_bind get_int (\<lambda>sz.
       r_return (Node_transport fd off sz)))))"

definition client_dispatch ::
  "pinos_connection \<Rightarrow> pinos_map \<Rightarrow> native_iface \<Rightarrow> u8 \<Rightarrow> (byte list \<Rightarrow> server_event rd) option" where
  "client_dispatch conn tps iface opcode =
     (let table = (case iface of
          I_core \<Rightarrow> [c_core_demarshal_info, c_core_demarshal_done, c_core_demarshal_error, c_core_demarshal_remove_id,
            c_core_demarshal_update_types]
        | I_registry \<Rightarrow> [c_registry_demarshal_global, c_registry_demarshal_global_remove]
        | I_client_node \<Rightarrow> [c_client_node_demarshal_done conn, c_client_node_demarshal_event tps,
            c_client_node_demarshal_add_port, c_client_node_demarshal_remove_port,
            c_client_node_demarshal_set_format tps, c_client_node_demarshal_set_property,
            c_client_node_demarshal_add_mem conn tps, c_client_node_demarshal_use_buffers tps,
            c_client_node_demarshal_node_command tps, c_client_node_demarshal_port_command tps,
            c_client_node_demarshal_transport conn]
        | I_module \<Rightarrow> [c_module_demarshal_info]
        | I_node \<Rightarrow> [c_node_demarshal_info tps]
        | I_client \<Rightarrow> [c_client_demarshal_info]
        | I_link \<Rightarrow> [c_link_demarshal_info]) in
      if unat opcode < length table then Some (table ! unat opcode) else None)"

end
