(* ===== verification/Pinos_Native_Correct.thy ===== *)
theory Pinos_Native_Correct
  imports Pinos_Native
begin

text \<open>
  Round trips of the native protocol: what one side marshals the other side demarshals, for every method of the
  client and every event of the server. Null strings arrive as empty strings and a missing dictionary as an empty
  one, 64-bit values lose their upper half, and type ids and values that carry them arrive translated.
\<close>

section \<open>Reading an argument list\<close>

definition parses_args :: "'a reader \<Rightarrow> pod_arg list \<Rightarrow> 'a \<Rightarrow> bool" where
  "parses_args p args v \<longleftrightarrow> parses p (concat (map enc args)) v"

definition low32 :: "u64 \<Rightarrow> u64" where
  "low32 v = ucast (ucast v :: u32)"

definition norm_str :: "cstr option \<Rightarrow> cstr option" where
  "norm_str s = Some (str_val s)"

definition dict_items :: "dict option \<Rightarrow> dict" where
  "dict_items d = (case d of None \<Rightarrow> [] | Some xs \<Rightarrow> xs)"

definition norm_dict :: "dict option \<Rightarrow> dict option" where
  "norm_dict d = Some (map (\<lambda>(k, v). (norm_str k, norm_str v)) (dict_items d))"

definition dict_ok :: "dict option \<Rightarrow> bool" where
  "dict_ok d \<longleftrightarrow> list_all (\<lambda>(k, v). str_ok k \<and> str_ok v) (dict_items d)"

lemma pa_return: "parses_args (r_return v) [] v"
  by (auto simp: parses_args_def)

lemma pa_bind:
  "parses p (concat (map enc as)) a \<Longrightarrow> parses_args (f a) bs v \<Longrightarrow> parses_args (r_bind p f) (as @ bs) v"
  using parses_bind [of p "concat (map enc as)" a f "concat (map enc bs)" v] by (simp add: parses_args_def)

lemma pa_one:
  "parses p (enc a) x \<Longrightarrow> parses_args (f x) bs v \<Longrightarrow> parses_args (r_bind p f) (a # bs) v"
  using pa_bind [of p "[a]"] by simp

lemma pa_int: "parses_args (f i) bs v \<Longrightarrow> parses_args (r_bind get_int f) (A_Int i # bs) v"
  by (rule pa_one [OF parses_int])

lemma pa_id: "parses_args (f i) bs v \<Longrightarrow> parses_args (r_bind get_id f) (A_Id i # bs) v"
  by (rule pa_one [OF parses_id])

lemma pa_long: "parses_args (f (low32 i)) bs v \<Longrightarrow> parses_args (r_bind get_long f) (A_Long i # bs) v"
  unfolding low32_def by (rule pa_one [OF parses_long])

lemma pa_string:
  "str_ok s \<Longrightarrow> parses_args (f (str_val s)) bs v \<Longrightarrow> parses_args (r_bind get_string f) (A_String s # bs) v"
  by (rule pa_one [OF parses_string])

lemma pa_bytes:
  "length s < 1073741824 \<Longrightarrow> parses_args (f s) bs v \<Longrightarrow> parses_args (r_bind get_bytes f) (A_Bytes s # bs) v"
  by (rule pa_one [OF parses_bytes])

lemma pa_object:
  "pod_of_type SPA_POD_TYPE_OBJECT p \<Longrightarrow> parses_args (f p) bs v \<Longrightarrow>
    parses_args (r_bind get_object f) (A_Pod (Some p) # bs) v"
  by (rule pa_one [OF parses_object])

lemma pa_opt_object:
  "opt_pod_ok SPA_POD_TYPE_OBJECT p \<Longrightarrow> parses_args (f p) bs v \<Longrightarrow>
    parses_args (r_bind (get_opt SPA_POD_TYPE_OBJECT) f) (A_Pod p # bs) v"
  by (rule pa_one [OF parses_opt]) auto

lemma pa_opt_struct:
  "opt_pod_ok SPA_POD_TYPE_STRUCT p \<Longrightarrow> parses_args (f p) bs v \<Longrightarrow>
    parses_args (r_bind (get_opt SPA_POD_TYPE_STRUCT) f) (A_Pod p # bs) v"
  by (rule pa_one [OF parses_opt]) auto

text \<open>Loops: one group of arguments per element.\<close>

lemma concat_map_enc: "concat (map enc (concat (map g xs))) = concat (map (\<lambda>x. concat (map enc (g x))) xs)"
  by (induction xs) auto

lemma pa_repeat:
  assumes "\<And>x. x \<in> set xs \<Longrightarrow> parses_args p (g x) (h x)" and "length xs < 4294967296"
    and "parses_args (f (map h xs)) bs v"
  shows "parses_args (r_bind (r_repeat (unat (of_nat (length xs) :: u32)) p) f) (concat (map g xs) @ bs) v"
proof (rule pa_bind [where a = "map h xs" and f = f, OF _ assms(3)])
  have "list_all2 (parses p) (map (\<lambda>x. concat (map enc (g x))) xs) (map h xs)"
    using assms(1) by (auto simp: list_all2_conv_all_nth parses_args_def)
  from parses_repeat [OF this]
  show "parses (r_repeat (unat (of_nat (length xs) :: u32)) p) (concat (map enc (concat (map g xs)))) (map h xs)"
    using assms(2) by (simp add: concat_map_enc unat_of_nat)
qed

lemma pa_repeat_one:
  assumes "\<And>x. x \<in> set xs \<Longrightarrow> parses p (enc (g x)) (h x)" and "length xs < 4294967296"
    and "parses_args (f (map h xs)) bs v"
  shows "parses_args (r_bind (r_repeat (unat (of_nat (length xs) :: u32)) p) f) (map g xs @ bs) v"
proof -
  have "concat (map (\<lambda>x. [g x]) xs) = map g xs" by (induction xs) auto
  then show ?thesis
    using pa_repeat [of xs p "\<lambda>x. [g x]" h f bs v] assms by (simp add: parses_args_def)
qed

lemma bind_assoc: "r_bind (r_bind p f) g = r_bind p (\<lambda>a. r_bind (f a) g)"
  by (rule ext) (auto simp: r_bind_def split: rd.split)

lemma return_bind: "r_bind (r_return a) f = f a"
  by (rule ext) (simp add: r_bind_def r_return_def)

lemma pa_dict:
  assumes "dict_ok d" and "length (dict_items d) < 4294967296" and "parses_args (f (the (norm_dict d))) bs v"
  shows "parses_args (r_bind get_dict f) (dict_args d @ bs) v"
proof -
  let ?items = "dict_items d"
  have "parses_args get_dict_item (case x of (k, v) \<Rightarrow> [A_String k, A_String v]) (case x of (k, v) \<Rightarrow> (norm_str k, norm_str v))"
    if "x \<in> set ?items" for x
    using that assms(1)
    by (cases x) (auto simp: get_dict_item_def dict_ok_def list_all_iff norm_str_def intro!: pa_string pa_return)
  from pa_repeat [where f = f and bs = bs and v = v, OF this assms(2)] assms(3)
  have "parses_args (r_bind (r_repeat (unat (of_nat (length ?items) :: u32)) get_dict_item) f)
      (concat (map (\<lambda>(k, v). [A_String k, A_String v]) ?items) @ bs) v"
    by (simp add: norm_dict_def case_prod_unfold)
  from pa_int [where f = "\<lambda>n. r_bind (r_repeat (unat n) get_dict_item) f", OF this]
  show ?thesis
    by (simp add: get_dict_def bind_assoc dict_args_def Let_def dict_items_def)
qed

lemma pa_objects:
  assumes "list_all (pod_of_type SPA_POD_TYPE_OBJECT) ps" and "length ps < 4294967296" and "parses_args (f ps) bs v"
  shows "parses_args (r_bind (r_repeat (unat (of_nat (length ps) :: u32)) get_object) f)
    (map (\<lambda>p. A_Pod (Some p)) ps @ bs) v"
  using pa_repeat_one [of ps get_object "\<lambda>p. A_Pod (Some p)" id f bs v] assms parses_object
  by (auto simp: list_all_iff)

lemma pa_types:
  assumes "list_all str_ok ts" and "length ts < 4294967296" and "parses_args (f (i, map norm_str ts)) bs v"
  shows "parses_args (r_bind get_types f) (type_args i ts @ bs) v"
  using pa_repeat_one [of ts get_string A_String str_val "\<lambda>ts. f (i, map Some ts)" bs v] assms parses_string
  by (auto simp: get_types_def bind_assoc return_bind type_args_def list_all_iff norm_str_def [abs_def]
      comp_def intro!: pa_int)

section \<open>A message arrives\<close>

definition arrives :: "pod_arg list \<Rightarrow> (byte list \<Rightarrow> 'a rd) \<Rightarrow> 'a \<Rightarrow> bool" where
  "arrives args f v \<longleftrightarrow> (\<exists>data. build_struct args = Some data \<and> length data < 4096 \<and> f data = Got v)"

lemma iter_struct_rest:
  assumes "length bs < 4088"
  shows "\<exists>it. spa_pod_iter_struct (pod_header (of_nat (length bs)) SPA_POD_TYPE_STRUCT @ bs)
      (of_nat (length (pod_header (of_nat (length bs)) SPA_POD_TYPE_STRUCT @ bs))) = Got it \<and>
    (\<forall>bs'. length bs' = length bs \<longrightarrow> iter_rest (it\<lparr>it_data := bs'\<rparr>) bs') \<and> it_data it = bs"
proof -
  have u: "unat (of_nat (length bs) :: u32) = length bs" "unat (8 + of_nat (length bs) :: u32) = 8 + length bs"
    using assms by (simp_all add: unat_of_nat unat_word_ariths)
  have "\<not> 8 + of_nat (length bs) < (8 :: u32)" using u by (simp add: word_less_nat_alt)
  then show ?thesis
    using u assms by (simp add: spa_pod_iter_struct_def SPA_POD_SIZE_at_def spa_pod_iter_contents_def iter_rest_def)
qed

lemma arrives_appends:
  assumes "appends args bs" and "length bs < 4088" and "parses p bs v"
  shows "arrives args (demarshal p) v"
proof -
  obtain it where it: "spa_pod_iter_struct (pod_header (of_nat (length bs)) SPA_POD_TYPE_STRUCT @ bs)
      (of_nat (length (pod_header (of_nat (length bs)) SPA_POD_TYPE_STRUCT @ bs))) = Got it"
      "iter_rest (it\<lparr>it_data := bs\<rparr>) bs" "it_data it = bs"
    using iter_struct_rest [OF assms(2)] by blast
  have "it\<lparr>it_data := bs\<rparr> = it" using it(3) by simp
  then have "iter_rest it (bs @ [])" using it(2) by simp
  then obtain it' where "p it = Got (v, it')" using assms(3) unfolding parses_def by blast
  then show ?thesis
    using build_struct_appends [OF assms(1,2)] it(1) assms(2)
    by (simp add: arrives_def demarshal_def run_reader_def)
qed

lemma arrives_args:
  assumes "parses_args p args v" and "list_all enc_ok args" and "length (concat (map enc args)) < 4088"
  shows "arrives args (demarshal p) v"
  by (rule arrives_appends [OF appends_encs [OF assms(2)] assms(3)]) (use assms(1) in \<open>simp add: parses_args_def\<close>)

lemma arrives_remapped:
  assumes "appends args (concat es)" and "list_all2 (remaps tps) es es'" and "parses p (concat es') v"
    and "length (concat es) < 4088"
  shows "arrives args (demarshal_remap tps p) v"
proof -
  let ?bs = "concat es" and ?bs' = "concat es'"
  obtain it where it: "spa_pod_iter_struct (pod_header (of_nat (length ?bs)) SPA_POD_TYPE_STRUCT @ ?bs)
      (of_nat (length (pod_header (of_nat (length ?bs)) SPA_POD_TYPE_STRUCT @ ?bs))) = Got it"
      "\<And>bs'. length bs' = length ?bs \<Longrightarrow> iter_rest (it\<lparr>it_data := bs'\<rparr>) bs'"
    using iter_struct_rest [OF assms(4)] by blast
  have al: "8 dvd length ?bs" using assms(1) by (simp add: appends_def)
  have rm: "remap_message tps (pod_header (of_nat (length ?bs)) SPA_POD_TYPE_STRUCT @ ?bs) =
      R_ok (pod_header (of_nat (length ?bs)) SPA_POD_TYPE_STRUCT @ ?bs')"
    using assms(4) by (intro remap_message_struct [OF assms(2) _ al]) simp
  have "length ?bs' = length ?bs" using remap_pods_list [OF assms(2)] by blast
  from it(2) [OF this] have "iter_rest (it\<lparr>it_data := ?bs'\<rparr>) (?bs' @ [])" by simp
  then obtain it' where "p (it\<lparr>it_data := ?bs'\<rparr>) = Got (v, it')" using assms(3) unfolding parses_def by blast
  then show ?thesis
    using build_struct_appends [OF assms(1,4)] it(1) rm assms(4)
    by (simp add: arrives_def demarshal_remap_def run_reader_def)
qed

lemma arg_remaps_list:
  assumes "list_all2 (arg_remaps tps) args args'"
  shows "list_all2 (remaps tps) (map enc args) (map enc args')" and "list_all enc_ok args"
  using assms by (induction rule: list_all2_induct) (auto intro: arg_remaps_enc)

lemma arrives_remap_args:
  assumes "list_all2 (arg_remaps tps) args args'" and "parses_args p args' v"
    and "length (concat (map enc args)) < 4088"
  shows "arrives args (demarshal_remap tps p) v"
  using arrives_remapped [OF appends_encs [OF arg_remaps_list(2) [OF assms(1)]] arg_remaps_list(1) [OF assms(1)] _ assms(3)]
    assms(2) by (simp add: parses_args_def)

text \<open>A message of this size has few arguments, so that the counts in it do not wrap.\<close>

lemma enc_size: "enc_ok a \<Longrightarrow> 8 \<le> length (enc a)"
  using arg_remaps_def enc_ok_parts [of a] enc_prim [of a]
  by (cases a) (fastforce simp: enc_ok_def enc_def pod_bytes_def split: option.splits if_splits)+

lemma few_args:
  assumes "list_all enc_ok args"
  shows "8 * length args \<le> length (concat (map enc args))"
  using assms by (induction args) (auto dest: enc_size)

lemma str_ok_enc: "str_ok s \<Longrightarrow> enc_ok (A_String s)"
  by (auto simp: enc_ok_def str_ok_def split: option.splits)

lemma dict_args_ok:
  assumes "dict_ok d"
  shows "list_all enc_ok (dict_args d)"
proof -
  have "list_all enc_ok (concat (map (\<lambda>(k, v). [A_String k, A_String v]) xs))"
    if "list_all (\<lambda>(k, v). str_ok k \<and> str_ok v) xs" for xs :: dict
    using that by (induction xs) (auto intro: str_ok_enc)
  then show ?thesis using assms by (simp add: dict_args_def dict_ok_def dict_items_def Let_def enc_ok_def)
qed

lemma dict_args_length: "length (dict_items d) \<le> length (dict_args d)"
proof -
  have "length xs \<le> length (concat (map (\<lambda>(k, v). [A_String k, A_String v]) xs))" for xs :: dict
    by (induction xs) auto
  then show ?thesis by (simp add: dict_args_def dict_items_def Let_def le_SucI)
qed

lemma enc_ok_simps [simp]: "enc_ok (A_Int i)" "enc_ok (A_Id i)" "enc_ok (A_Long l)" "enc_ok (A_Pod None)"
  "enc_ok (A_Bytes bs) \<longleftrightarrow> length bs < 1073741824"
  by (simp_all add: enc_ok_def pod_bytes_def)

section \<open>Methods of the client\<close>

definition opt_pod_remaps :: "pinos_map \<Rightarrow> pod option \<Rightarrow> pod option \<Rightarrow> bool" where
  "opt_pod_remaps tps p p' \<longleftrightarrow>
     (case p of None \<Rightarrow> p' = None | Some bs \<Rightarrow> (\<exists>bs'. p' = Some bs' \<and> pod_remaps tps bs bs'))"

definition norm_port_info :: "port_info \<Rightarrow> pod list \<Rightarrow> port_info" where
  "norm_port_info i ps = i\<lparr>pi_maxbuffering := low32 (pi_maxbuffering i), pi_latency := low32 (pi_latency i),
     pi_params := ps, pi_extra := norm_dict (pi_extra i)\<rparr>"

definition method_iface :: "client_method \<Rightarrow> native_iface" where
  "method_iface m = (case m of
       Registry_bind _ _ \<Rightarrow> I_registry
     | Client_node_update _ _ _ _ \<Rightarrow> I_client_node | Client_node_port_update _ _ _ _ _ _ _ \<Rightarrow> I_client_node
     | Client_node_event _ \<Rightarrow> I_client_node | Client_node_destroy \<Rightarrow> I_client_node
     | _ \<Rightarrow> I_core)"

definition method_opcode :: "client_method \<Rightarrow> u8" where
  "method_opcode m = (case m of
       Core_client_update _ \<Rightarrow> 0 | Core_sync _ \<Rightarrow> 1 | Core_get_registry _ \<Rightarrow> 2 | Core_create_node _ _ _ _ \<Rightarrow> 3
     | Core_create_client_node _ _ _ \<Rightarrow> 4 | Core_update_types _ _ \<Rightarrow> 5 | Registry_bind _ _ \<Rightarrow> 0
     | Client_node_update _ _ _ _ \<Rightarrow> 0 | Client_node_port_update _ _ _ _ _ _ _ \<Rightarrow> 1 | Client_node_event _ \<Rightarrow> 2
     | Client_node_destroy \<Rightarrow> 3)"

definition method_args :: "client_method \<Rightarrow> pod_arg list" where
  "method_args m = (case m of
       Core_client_update d \<Rightarrow> dict_args d
     | Core_sync i \<Rightarrow> [A_Int i]
     | Core_get_registry i \<Rightarrow> [A_Int i]
     | Core_create_node f n d i \<Rightarrow> [A_String f, A_String n] @ dict_args d @ [A_Int i]
     | Core_create_client_node n d i \<Rightarrow> [A_String n] @ dict_args d @ [A_Int i]
     | Core_update_types i ts \<Rightarrow> type_args i ts
     | Registry_bind i n \<Rightarrow> [A_Int i, A_Int n]
     | Client_node_update a b c p \<Rightarrow> [A_Int a, A_Int b, A_Int c, A_Pod p]
     | Client_node_port_update d p c fs f pr info \<Rightarrow>
         [A_Int d, A_Int p, A_Int c, A_Int (of_nat (length fs))] @ map (\<lambda>f. A_Pod (Some f)) fs @ [A_Pod f, A_Pod pr] @
         (case info of Some i \<Rightarrow> A_Struct # port_info_args i @ [A_Pop] | None \<Rightarrow> [A_Pod None])
     | Client_node_event e \<Rightarrow> [A_Pod (Some e)]
     | Client_node_destroy \<Rightarrow> [])"

text \<open>Strings without embedded zero bytes, and what arrives for a method.\<close>

definition method_ok :: "client_method \<Rightarrow> bool" where
  "method_ok m = (case m of
       Core_client_update d \<Rightarrow> dict_ok d
     | Core_create_node f n d i \<Rightarrow> str_ok f \<and> str_ok n \<and> dict_ok d
     | Core_create_client_node n d i \<Rightarrow> str_ok n \<and> dict_ok d
     | Core_update_types i ts \<Rightarrow> list_all str_ok ts
     | Client_node_port_update d p c fs f pr info \<Rightarrow> (case info of None \<Rightarrow> True | Some i \<Rightarrow> dict_ok (pi_extra i))
     | _ \<Rightarrow> True)"

text \<open>What is received. Three things get lost on the way and are part of what is received here: a null string arrives as the empty
  string, a null dictionary as one without items, and of a 64-bit number only the lower half arrives.\<close>

definition method_received :: "pinos_map \<Rightarrow> client_method \<Rightarrow> client_method \<Rightarrow> bool" where
  "method_received tps m m' = (case m of
       Core_client_update d \<Rightarrow> m' = Core_client_update (norm_dict d)
     | Core_create_node f n d i \<Rightarrow> m' = Core_create_node (norm_str f) (norm_str n) (norm_dict d) i
     | Core_create_client_node n d i \<Rightarrow> m' = Core_create_client_node (norm_str n) (norm_dict d) i
     | Core_update_types i ts \<Rightarrow> m' = Core_update_types i (map norm_str ts)
     | Client_node_update a b c p \<Rightarrow> (\<exists>p'. m' = Client_node_update a b c p' \<and> opt_pod_remaps tps p p')
     | Client_node_port_update d p c fs f pr info \<Rightarrow>
         (\<exists>fs' f' pr' info'. m' = Client_node_port_update d p c fs' f' pr' info' \<and>
            list_all2 (pod_remaps tps) fs fs' \<and> opt_pod_remaps tps f f' \<and> opt_pod_remaps tps pr pr' \<and>
            (case info of None \<Rightarrow> info' = None
             | Some i \<Rightarrow> (\<exists>ps'. info' = Some (norm_port_info i ps') \<and> list_all2 (pod_remaps tps) (pi_params i) ps')))
     | Client_node_event e \<Rightarrow> (\<exists>e'. m' = Client_node_event e' \<and> pod_remaps tps e e')
     | _ \<Rightarrow> m' = m)"

definition method_handler :: "pinos_map \<Rightarrow> client_method \<Rightarrow> byte list \<Rightarrow> client_method rd" where
  "method_handler tps m = the (server_dispatch tps (method_iface m) (method_opcode m))"

lemmas handler_simps = method_handler_def server_dispatch_def method_iface_def method_opcode_def

lemma arg_remaps_simps:
  "arg_remaps tps (A_Int i) a \<longleftrightarrow> a = A_Int i" "arg_remaps tps (A_Long l) a \<longleftrightarrow> a = A_Long l"
  "arg_remaps tps (A_Id i) (A_Id j) \<longleftrightarrow> remaps_to tps i j"
  "arg_remaps tps (A_Pod (Some bs)) (A_Pod (Some bs')) \<longleftrightarrow> pod_remaps tps bs bs'"
  "arg_remaps tps (A_Pod p) (A_Pod p') \<longleftrightarrow> opt_pod_remaps tps p p'"
  "arg_remaps tps (A_String s) a \<longleftrightarrow> a = A_String s \<and> enc_ok (A_String s)"
  by (auto simp: arg_remaps_def opt_pod_remaps_def split: option.splits)

lemma arg_remaps_refl: "list_all enc_ok as \<Longrightarrow> list_all (\<lambda>a. \<not> (\<exists>i p. a = A_Id i \<or> a = A_Pod p)) as \<Longrightarrow>
    list_all2 (arg_remaps tps) as as"
proof (induction as)
  case (Cons a as)
  then show ?case by (cases a) (auto simp: arg_remaps_def)
qed simp

lemma dict_args_remap:
  assumes "dict_ok d"
  shows "list_all2 (arg_remaps tps) (dict_args d) (dict_args d)"
proof (rule arg_remaps_refl [OF dict_args_ok [OF assms]])
  have "list_all (\<lambda>a. \<not> (\<exists>i p. a = A_Id i \<or> a = A_Pod p)) (concat (map (\<lambda>(k, v). [A_String k, A_String v]) xs))"
    for xs :: dict by (induction xs) auto
  then show "list_all (\<lambda>a. \<not> (\<exists>i p. a = A_Id i \<or> a = A_Pod p)) (dict_args d)" by (simp add: dict_args_def Let_def)
qed

lemma opt_pod_remaps_ok: "opt_pod_remaps tps p p' \<Longrightarrow> opt_pod_ok SPA_POD_TYPE_OBJECT p'"
  by (auto simp: opt_pod_remaps_def opt_pod_ok_def pod_remaps_def split: option.splits)

lemma pods_remaps_ok: "list_all2 (pod_remaps tps) ps ps' \<Longrightarrow> list_all (pod_of_type SPA_POD_TYPE_OBJECT) ps'"
  by (induction rule: list_all2_induct) (auto simp: pod_remaps_def)

lemma pods_remaps_args:
  "list_all2 (pod_remaps tps) ps ps' \<Longrightarrow>
    list_all2 (arg_remaps tps) (map (\<lambda>p. A_Pod (Some p)) ps) (map (\<lambda>p. A_Pod (Some p)) ps')"
  by (simp add: list_all2_map1 list_all2_map2 arg_remaps_simps opt_pod_remaps_def)

text \<open>One lemma per method.\<close>

lemma dict_count:
  assumes "dict_ok d" and "length (concat (map enc (as @ dict_args d @ bs))) < 4088"
    and "list_all enc_ok as" and "list_all enc_ok bs"
  shows "length (dict_items d) < 4294967296"
proof -
  have "8 * length (as @ dict_args d @ bs) \<le> length (concat (map enc (as @ dict_args d @ bs)))"
    by (rule few_args) (use assms dict_args_ok in auto)
  then show ?thesis using assms(2) dict_args_length [of d] by simp
qed

lemma client_update_arrives:
  assumes "dict_ok d" and "length (concat (map enc (dict_args d))) < 4088"
  shows "arrives (dict_args d) s_core_demarshal_client_update (Core_client_update (norm_dict d))"
proof -
  have "parses_args (r_bind get_dict (\<lambda>d. r_return (Core_client_update (Some d)))) (dict_args d @ []) (Core_client_update (norm_dict d))"
    by (rule pa_dict) (use assms dict_count [of d "[]" "[]"] in \<open>auto simp: norm_dict_def intro: pa_return\<close>)
  then show ?thesis
    unfolding s_core_demarshal_client_update_def by (intro arrives_args dict_args_ok assms) simp
qed

lemma create_node_arrives:
  assumes ok: "str_ok f" "str_ok n" "dict_ok d"
    and len: "length (concat (map enc ([A_String f, A_String n] @ dict_args d @ [A_Int i]))) < 4088"
  shows "arrives ([A_String f, A_String n] @ dict_args d @ [A_Int i]) s_core_demarshal_create_node
    (Core_create_node (norm_str f) (norm_str n) (norm_dict d) i)"
proof -
  have e: "list_all enc_ok ([A_String f, A_String n] @ dict_args d @ [A_Int i])"
    using ok by (simp add: str_ok_enc dict_args_ok)
  have "length (dict_items d) < 4294967296" using dict_count [OF ok(3) len] e by simp
  then have "parses_args (r_bind get_string (\<lambda>f. r_bind get_string (\<lambda>n. r_bind get_dict (\<lambda>d.
       r_bind get_int (\<lambda>i. r_return (Core_create_node (Some f) (Some n) (Some d) i))))))
     (A_String f # A_String n # dict_args d @ [A_Int i]) (Core_create_node (norm_str f) (norm_str n) (norm_dict d) i)"
    using ok by (intro pa_string pa_dict pa_int) (auto simp: norm_str_def norm_dict_def intro: pa_return)
  then show ?thesis unfolding s_core_demarshal_create_node_def using arrives_args [OF _ e len] by simp
qed

lemma create_client_node_arrives:
  assumes ok: "str_ok n" "dict_ok d"
    and len: "length (concat (map enc ([A_String n] @ dict_args d @ [A_Int i]))) < 4088"
  shows "arrives ([A_String n] @ dict_args d @ [A_Int i]) s_core_demarshal_create_client_node
    (Core_create_client_node (norm_str n) (norm_dict d) i)"
proof -
  have e: "list_all enc_ok ([A_String n] @ dict_args d @ [A_Int i])"
    using ok by (simp add: str_ok_enc dict_args_ok)
  have "length (dict_items d) < 4294967296" using dict_count [OF ok(2) len] e by simp
  then have "parses_args (r_bind get_string (\<lambda>n. r_bind get_dict (\<lambda>d.
       r_bind get_int (\<lambda>i. r_return (Core_create_client_node (Some n) (Some d) i)))))
     (A_String n # dict_args d @ [A_Int i]) (Core_create_client_node (norm_str n) (norm_dict d) i)"
    using ok by (intro pa_string pa_dict pa_int) (auto simp: norm_str_def norm_dict_def intro: pa_return)
  then show ?thesis unfolding s_core_demarshal_create_client_node_def using arrives_args [OF _ e len] by simp
qed

lemma type_args_ok: "list_all str_ok ts \<Longrightarrow> list_all enc_ok (type_args i ts)"
  by (auto simp: type_args_def list_all_iff intro: str_ok_enc)

lemma types_arrive:
  assumes ok: "list_all str_ok ts" and len: "length (concat (map enc (type_args i ts))) < 4088"
    and v: "f (i, map norm_str ts) = r_return v"
  shows "arrives (type_args i ts) (demarshal (r_bind get_types f)) v"
proof -
  have "length ts < 4294967296" using few_args [OF type_args_ok [OF ok, of i]] len by (simp add: type_args_def)
  then have "parses_args (r_bind get_types f) (type_args i ts @ []) v"
    using ok by (intro pa_types) (auto simp: v intro: pa_return)
  then show ?thesis by (intro arrives_args type_args_ok assms) simp
qed

lemma small_args:
  "list_all (\<lambda>a. \<exists>i. a = A_Int i) as \<Longrightarrow> list_all enc_ok as"
  by (auto simp: list_all_iff enc_ok_def)

lemma client_node_update_arrives:
  assumes "opt_pod_remaps tps p p'" and "length (concat (map enc [A_Int a, A_Int b, A_Int c, A_Pod p])) < 4088"
  shows "arrives [A_Int a, A_Int b, A_Int c, A_Pod p] (s_client_node_demarshal_update tps) (Client_node_update a b c p')"
  unfolding s_client_node_demarshal_update_def
proof (rule arrives_remap_args [OF _ _ assms(2)])
  show "list_all2 (arg_remaps tps) [A_Int a, A_Int b, A_Int c, A_Pod p] [A_Int a, A_Int b, A_Int c, A_Pod p']"
    using assms(1) by (simp add: arg_remaps_simps)
qed (intro pa_int pa_opt_object pa_return opt_pod_remaps_ok [OF assms(1)])

lemma client_node_event_arrives:
  assumes "pod_remaps tps e e'" and "length (concat (map enc [A_Pod (Some e)])) < 4088"
  shows "arrives [A_Pod (Some e)] (s_client_node_demarshal_event tps) (Client_node_event e')"
  unfolding s_client_node_demarshal_event_def
proof (rule arrives_remap_args [OF _ _ assms(2)])
  show "list_all2 (arg_remaps tps) [A_Pod (Some e)] [A_Pod (Some e')]" using assms(1) by (simp add: arg_remaps_def)
qed (use assms(1) in \<open>auto simp: pod_remaps_def intro!: pa_object pa_return\<close>)

lemma ints_arrive:
  "arrives [A_Int i] s_core_demarshal_sync (Core_sync i)"
  "arrives [A_Int i] s_core_demarshal_get_registry (Core_get_registry i)"
  "arrives [A_Int i, A_Int n] s_registry_demarshal_bind (Registry_bind i n)"
  "arrives [] s_client_node_demarshal_destroy Client_node_destroy"
proof -
  have e: "length (enc (A_Int i)) = 16" for i
    by (simp add: enc_def zero_pad_def)
  show "arrives [A_Int i] s_core_demarshal_sync (Core_sync i)"
    "arrives [A_Int i] s_core_demarshal_get_registry (Core_get_registry i)"
    "arrives [A_Int i, A_Int n] s_registry_demarshal_bind (Registry_bind i n)"
    "arrives [] s_client_node_demarshal_destroy Client_node_destroy"
    unfolding s_core_demarshal_sync_def s_core_demarshal_get_registry_def s_registry_demarshal_bind_def
      s_client_node_demarshal_destroy_def
    by (intro arrives_args pa_int pa_return; simp add: e)+
qed

subsection \<open>The port update with its nested struct\<close>

definition struct_bytes :: "pod_arg list \<Rightarrow> byte list" where
  "struct_bytes args = pod_header (of_nat (length (concat (map enc args)))) SPA_POD_TYPE_STRUCT @ concat (map enc args)"

lemma struct_bytes_pod:
  assumes "list_all enc_ok args" and "length (concat (map enc args)) < 4088"
  shows "pod_of_type SPA_POD_TYPE_STRUCT (struct_bytes args)" and "enc (A_Pod (Some (struct_bytes args))) = struct_bytes args"
proof -
  let ?n = "length (concat (map enc args))"
  have u: "unat (of_nat ?n :: u32) = ?n" using assms(2) by (simp add: unat_of_nat)
  show p: "pod_of_type SPA_POD_TYPE_STRUCT (struct_bytes args)"
    using assms(2) u by (simp add: pod_of_type_def struct_bytes_def)
  have "8 dvd ?n" using appends_encs [OF assms(1)] by (simp add: appends_def)
  then have "zero_pad (length (struct_bytes args)) = []" by (auto simp: zero_pad_def struct_bytes_def elim!: dvdE)
  then show "enc (A_Pod (Some (struct_bytes args))) = struct_bytes args"
    by (simp add: enc_def pod_bytes_of_type [OF p])
qed

lemma pa_in_pod:
  assumes "list_all enc_ok args" and "length (concat (map enc args)) < 4088" and "parses_args p args x"
    and "parses_args (f (Some x)) bs v"
  shows "parses_args (r_bind (in_pod p (Some (struct_bytes args))) f) bs v"
proof -
  let ?bs = "concat (map enc args)"
  have u: "unat (of_nat (length ?bs) :: u32) = length ?bs" using assms(2) by (simp add: unat_of_nat)
  let ?it = "spa_pod_iter_contents ?bs (of_nat (length ?bs))"
  have "iter_rest ?it (?bs @ [])" using u assms(2) by (simp add: iter_rest_def spa_pod_iter_contents_def)
  then obtain it' where "p ?it = Got (x, it')" using assms(3) unfolding parses_args_def parses_def by blast
  then have "in_pod p (Some (struct_bytes args)) = r_return (Some x)"
    by (intro ext) (simp add: in_pod_def spa_pod_iter_pod_def struct_bytes_def r_return_def)
  then show ?thesis using assms(4) by (simp add: return_bind)
qed

lemma port_info_parses:
  assumes "dict_ok (pi_extra i)" and "list_all (pod_of_type SPA_POD_TYPE_OBJECT) (pi_params i)"
    and "length (pi_params i) < 4294967296" and "length (dict_items (pi_extra i)) < 4294967296"
  shows "parses_args get_port_info (port_info_args i) (norm_port_info i (pi_params i))"
proof -
  have "parses_args get_port_info
      (A_Int (pi_flags i) # A_Int (pi_rate i) # A_Long (pi_maxbuffering i) # A_Long (pi_latency i) #
       A_Int (of_nat (length (pi_params i))) # map (\<lambda>p. A_Pod (Some p)) (pi_params i) @ dict_args (pi_extra i) @ [])
      (norm_port_info i (pi_params i))"
    unfolding get_port_info_def
    by (intro pa_int pa_long pa_objects pa_dict assms)
      (cases i, simp add: norm_port_info_def norm_dict_def, rule pa_return)
  then show ?thesis by (simp add: port_info_args_def)
qed

definition port_update_reader :: "client_method reader" where
  "port_update_reader =
     (r_bind get_int (\<lambda>dir. r_bind get_int (\<lambda>port. r_bind get_int (\<lambda>cmask. r_bind get_int (\<lambda>n.
      r_bind (r_repeat (unat n) get_object) (\<lambda>fmts. r_bind (get_opt SPA_POD_TYPE_OBJECT) (\<lambda>fmt.
      r_bind (get_opt SPA_POD_TYPE_OBJECT) (\<lambda>props. r_bind (get_opt SPA_POD_TYPE_STRUCT) (\<lambda>ipod.
      r_bind (in_pod get_port_info ipod) (\<lambda>info.
        r_return (Client_node_port_update dir port cmask fmts fmt props info)))))))))))"

lemma port_update_demarshal: "s_client_node_demarshal_port_update tps = demarshal_remap tps port_update_reader"
  by (simp add: s_client_node_demarshal_port_update_def port_update_reader_def)

definition port_update_head :: "u32 \<Rightarrow> u32 \<Rightarrow> u32 \<Rightarrow> pod list \<Rightarrow> pod option \<Rightarrow> pod option \<Rightarrow> pod_arg list" where
  "port_update_head d p c fs f pr =
     A_Int d # A_Int p # A_Int c # A_Int (of_nat (length fs)) # map (\<lambda>f. A_Pod (Some f)) fs @ [A_Pod f, A_Pod pr]"

lemma port_update_head_remap:
  assumes "list_all2 (pod_remaps tps) fs fs'" and "opt_pod_remaps tps f f'" and "opt_pod_remaps tps pr pr'"
  shows "list_all2 (arg_remaps tps) (port_update_head d p c fs f pr) (port_update_head d p c fs' f' pr')"
  using assms pods_remaps_args [OF assms(1)]
  by (auto simp: port_update_head_def arg_remaps_simps list_all2_lengthD intro!: list_all2_appendI)

lemma port_update_parses:
  assumes "list_all2 (pod_remaps tps) fs fs'" and "opt_pod_remaps tps f f'" and "opt_pod_remaps tps pr pr'"
    and "length fs < 4294967296" and "opt_pod_ok SPA_POD_TYPE_STRUCT ip"
    and "parses_args (r_bind (in_pod get_port_info ip)
      (\<lambda>info. r_return (Client_node_port_update d p c fs' f' pr' info))) [] v"
  shows "parses_args port_update_reader (port_update_head d p c fs' f' pr' @ [A_Pod ip]) v"
proof -
  have l: "length fs' < 4294967296" using assms(1,4) by (simp add: list_all2_lengthD)
  have "parses_args port_update_reader (A_Int d # A_Int p # A_Int c # A_Int (of_nat (length fs')) #
      map (\<lambda>f. A_Pod (Some f)) fs' @ A_Pod f' # A_Pod pr' # A_Pod ip # []) v"
    unfolding port_update_reader_def
    by (intro pa_int pa_objects pa_opt_object pa_opt_struct opt_pod_remaps_ok [OF assms(2)] opt_pod_remaps_ok [OF assms(3)]
        pods_remaps_ok [OF assms(1)] l assms(5,6))
  then show ?thesis by (simp add: port_update_head_def)
qed

lemma port_update_none_arrives:
  assumes rm: "list_all2 (pod_remaps tps) fs fs'" "opt_pod_remaps tps f f'" "opt_pod_remaps tps pr pr'"
    and len: "length (concat (map enc (port_update_head d p c fs f pr @ [A_Pod None]))) < 4088"
  shows "arrives (port_update_head d p c fs f pr @ [A_Pod None]) (s_client_node_demarshal_port_update tps)
    (Client_node_port_update d p c fs' f' pr' None)"
  unfolding port_update_demarshal
proof (rule arrives_remap_args [OF _ _ len])
  have r: "list_all2 (arg_remaps tps) (port_update_head d p c fs f pr @ [A_Pod None]) (port_update_head d p c fs' f' pr' @ [A_Pod None])"
    using port_update_head_remap [OF rm] by (auto intro!: list_all2_appendI simp: arg_remaps_def)
  then show "list_all2 (arg_remaps tps) (port_update_head d p c fs f pr @ [A_Pod None]) (port_update_head d p c fs' f' pr' @ [A_Pod None])" .
  have "length fs < 4294967296"
    using few_args [OF arg_remaps_list(2) [OF r]] len by (simp add: port_update_head_def)
  moreover have "in_pod get_port_info None = r_return None" by (intro ext) (simp add: in_pod_def r_return_def)
  ultimately show "parses_args port_update_reader (port_update_head d p c fs' f' pr' @ [A_Pod None])
      (Client_node_port_update d p c fs' f' pr' None)"
    by (intro port_update_parses [OF rm]) (auto simp: opt_pod_ok_def return_bind intro: pa_return)
qed

lemma port_info_args_remap:
  assumes "dict_ok (pi_extra i)" and "list_all2 (pod_remaps tps) (pi_params i) ps'"
  shows "list_all2 (arg_remaps tps) (port_info_args i) (port_info_args (i\<lparr>pi_params := ps'\<rparr>))"
  using pods_remaps_args [OF assms(2)] dict_args_remap [OF assms(1)] list_all2_lengthD [OF assms(2)]
  by (auto simp: port_info_args_def arg_remaps_simps intro!: list_all2_appendI)

lemma remaps_lengths: "list_all2 (remaps tps) es es' \<Longrightarrow> length (concat es') = length (concat es)"
  using remap_pods_list by blast

lemma port_update_some_arrives:
  assumes rm: "list_all2 (pod_remaps tps) fs fs'" "opt_pod_remaps tps f f'" "opt_pod_remaps tps pr pr'"
    and info: "dict_ok (pi_extra i)" "list_all2 (pod_remaps tps) (pi_params i) ps'"
    and len: "length (concat (map enc (port_update_head d p c fs f pr @ A_Struct # port_info_args i @ [A_Pop]))) < 4080"
  shows "arrives (port_update_head d p c fs f pr @ A_Struct # port_info_args i @ [A_Pop])
    (s_client_node_demarshal_port_update tps)
    (Client_node_port_update d p c fs' f' pr' (Some (norm_port_info i ps')))"
proof -
  let ?hd = "port_update_head d p c fs f pr" and ?hd' = "port_update_head d p c fs' f' pr'"
  let ?in = "port_info_args i" and ?in' = "port_info_args (i\<lparr>pi_params := ps'\<rparr>)"
  have e0: "enc A_Struct = []" "enc A_Pop = []" by (simp_all add: enc_def)
  have l: "length (concat (map enc ?hd)) + length (concat (map enc ?in)) < 4080" using len by (simp add: e0)
  note rh = arg_remaps_list [OF port_update_head_remap [OF rm, of d p c]]
  note ri = arg_remaps_list [OF port_info_args_remap [OF info]]
  have okin': "list_all enc_ok ?in'"
  proof -
    have "list_all2 (arg_remaps tps) ?in ?in'" by (rule port_info_args_remap [OF info])
    then show ?thesis
    proof (induction rule: list_all2_induct)
      case (Cons a as b bs)
      then show ?case
        by (cases a) (auto simp: arg_remaps_def pod_remaps_def enc_ok_def pod_of_type_def pod_bytes_def split: option.splits)
    qed simp
  qed
  have leni: "length (concat (map enc ?in')) = length (concat (map enc ?in))" by (rule remaps_lengths [OF ri(1)])
  have lin: "length (concat (map enc ?in)) < 2147483648" "length (concat (map enc ?in)) < 4088"
      "length (concat (map enc ?in')) < 4088" using l leni by auto
  note app = appends_append [OF appends_encs [OF rh(2)] appends_struct [OF appends_encs [OF ri(2)] lin(1)]]
  have al: "8 dvd length (concat (map enc ?in))" using appends_encs [OF ri(2)] by (simp add: appends_def)
  let ?es = "map enc ?hd @ [struct_bytes ?in]" and ?es' = "map enc ?hd' @ [struct_bytes ?in']"
  have "remaps tps (struct_bytes ?in) (struct_bytes ?in')"
    using remaps_struct [OF ri(1) lin(1) al] unfolding struct_bytes_def leni .
  then have re: "list_all2 (remaps tps) ?es ?es'" using rh(1) by (auto intro!: list_all2_appendI)
  have few: "length fs < 4294967296"
    using few_args [OF rh(2)] l by (simp add: port_update_head_def)
  have fewi: "length (pi_params i) < 4294967296" "length (dict_items (pi_extra i)) < 4294967296"
    using few_args [OF ri(2)] l dict_args_length [of "pi_extra i"] by (auto simp: port_info_args_def)
  have "parses_args get_port_info ?in' (norm_port_info (i\<lparr>pi_params := ps'\<rparr>) (pi_params (i\<lparr>pi_params := ps'\<rparr>)))"
    by (rule port_info_parses) (use info fewi pods_remaps_ok [OF info(2)] list_all2_lengthD [OF info(2)] in simp_all)
  then have pin: "parses_args get_port_info ?in' (norm_port_info i ps')" by (simp add: norm_port_info_def)
  note sb = struct_bytes_pod [OF okin' lin(3)]
  have "parses_args port_update_reader (?hd' @ [A_Pod (Some (struct_bytes ?in'))])
      (Client_node_port_update d p c fs' f' pr' (Some (norm_port_info i ps')))"
    by (rule port_update_parses [OF rm few])
      (use sb(1) in \<open>auto simp: opt_pod_ok_def intro!: pa_in_pod [OF okin' lin(3) pin] pa_return\<close>)
  then have "parses port_update_reader (concat ?es') (Client_node_port_update d p c fs' f' pr' (Some (norm_port_info i ps')))"
    by (simp add: parses_args_def sb(2))
  from arrives_remapped [OF _ re this] app l show ?thesis
    unfolding port_update_demarshal by (simp add: struct_bytes_def)
qed

subsection \<open>All methods\<close>

lemma method_arrives:
  assumes ok: "method_ok m" and rc: "method_received tps m m'"
    and len: "length (concat (map enc (method_args m))) < 4080"
  shows "arrives (method_args m) (method_handler tps m) m'"
proof (cases m)
  case (Core_client_update d)
  then show ?thesis
    using client_update_arrives [of d] ok rc len
    by (simp add: handler_simps method_args_def method_ok_def method_received_def)
next
  case (Core_sync i)
  then show ?thesis using ints_arrive rc by (simp add: handler_simps method_args_def method_received_def)
next
  case (Core_get_registry i)
  then show ?thesis using ints_arrive rc by (simp add: handler_simps method_args_def method_received_def)
next
  case (Core_create_node f n d i)
  then show ?thesis
    using create_node_arrives [of f n d i] ok rc len
    by (simp add: handler_simps method_args_def method_ok_def method_received_def)
next
  case (Core_create_client_node n d i)
  then show ?thesis
    using create_client_node_arrives [of n d i] ok rc len
    by (simp add: handler_simps method_args_def method_ok_def method_received_def)
next
  case (Core_update_types i ts)
  then show ?thesis
    using types_arrive [of ts i "\<lambda>(f, ts). r_return (Core_update_types f ts)"] ok rc len
    by (simp add: handler_simps method_args_def method_ok_def method_received_def s_core_demarshal_update_types_def)
next
  case (Registry_bind i n)
  then show ?thesis using ints_arrive rc by (simp add: handler_simps method_args_def method_received_def)
next
  case (Client_node_update a b c p)
  then show ?thesis
    using client_node_update_arrives [of tps p] rc len
    by (auto simp: handler_simps method_args_def method_received_def)
next
  case (Client_node_port_update d p c fs f pr info)
  then obtain fs' f' pr' info' where m': "m' = Client_node_port_update d p c fs' f' pr' info'"
      "list_all2 (pod_remaps tps) fs fs'" "opt_pod_remaps tps f f'" "opt_pod_remaps tps pr pr'"
      "(case info of None \<Rightarrow> info' = None
        | Some i \<Rightarrow> (\<exists>ps'. info' = Some (norm_port_info i ps') \<and> list_all2 (pod_remaps tps) (pi_params i) ps'))"
    using rc by (auto simp: method_received_def)
  have h: "method_handler tps m = s_client_node_demarshal_port_update tps"
    using Client_node_port_update by (simp add: handler_simps)
  have a: "method_args m = port_update_head d p c fs f pr @
      (case info of Some i \<Rightarrow> A_Struct # port_info_args i @ [A_Pop] | None \<Rightarrow> [A_Pod None])"
    using Client_node_port_update by (simp add: method_args_def port_update_head_def)
  show ?thesis
  proof (cases info)
    case None
    with m'(5) have "info' = None" by simp
    with port_update_none_arrives [OF m'(2-4), of d p c] len None show ?thesis
      unfolding h a m'(1) by simp
  next
    case (Some i)
    then obtain ps' where i: "info' = Some (norm_port_info i ps')" "list_all2 (pod_remaps tps) (pi_params i) ps'"
      using m'(5) by auto
    have "dict_ok (pi_extra i)" using ok Client_node_port_update Some by (simp add: method_ok_def)
    from port_update_some_arrives [OF m'(2-4) this i(2), of d p c] len Some i(1) show ?thesis
      unfolding h a m'(1) by (simp only: option.case)
  qed
next
  case (Client_node_event e)
  then show ?thesis
    using client_node_event_arrives [of tps e] rc len
    by (auto simp: handler_simps method_args_def method_received_def)
next
  case Client_node_destroy
  then show ?thesis using ints_arrive rc by (simp add: handler_simps method_args_def method_received_def)
qed

text \<open>The peer after it has announced new types, which every method does except the announcement itself.\<close>

definition method_prelude :: "native_peer \<Rightarrow> client_method \<Rightarrow> native_peer option" where
  "method_prelude peer m = (case m of Core_update_types _ _ \<Rightarrow> Some peer | _ \<Rightarrow> c_core_update_map peer)"

lemma native_send_frame:
  assumes "np_conn peer = Some conn" and "build_struct args = Some data"
  shows "\<exists>conn'. native_send peer ident opcode args = Some (peer\<lparr>np_conn := Some conn'\<rparr>) \<and>
    buffer_data (conn_out conn') = buffer_data (conn_out conn) @ frame (opcode, ident, data)"
  using assms
  by (intro exI [of _ "pinos_connection_end_write conn ident opcode data"])
    (simp add: native_send_def pinos_connection_end_write_def frame_def Let_def)

lemma c_marshal_send:
  assumes "np_conn peer = Some conn0" and "method_prelude peer m = Some peer1"
  shows "c_marshal peer ident m = native_send peer1 ident (method_opcode m) (method_args m)"
  using assms
  by (cases m) (auto simp: c_marshal_def method_prelude_def method_opcode_def method_args_def client_call_def
      c_core_marshal_client_update_def c_core_marshal_sync_def c_core_marshal_get_registry_def
      c_core_marshal_create_node_def c_core_marshal_create_client_node_def c_core_marshal_update_types_def
      c_registry_marshal_bind_def c_client_node_marshal_update_def c_client_node_marshal_port_update_def
      c_client_node_marshal_event_def c_client_node_marshal_destroy_def)

text \<open>The calls of which nothing gets lost, and the call that the sender meant: the same, with the ids of types in its objects
  translated.\<close>

definition plain_dict :: "dict option \<Rightarrow> bool" where
  "plain_dict d \<longleftrightarrow> (case d of None \<Rightarrow> False | Some xs \<Rightarrow> list_all (\<lambda>(k, v). k \<noteq> None \<and> v \<noteq> None) xs)"

definition method_plain :: "client_method \<Rightarrow> bool" where
  "method_plain m = (case m of
       Core_client_update d \<Rightarrow> plain_dict d
     | Core_create_node f n d i \<Rightarrow> f \<noteq> None \<and> n \<noteq> None \<and> plain_dict d
     | Core_create_client_node n d i \<Rightarrow> n \<noteq> None \<and> plain_dict d
     | Core_update_types i ts \<Rightarrow> None \<notin> set ts
     | Client_node_port_update d p c fs f pr info \<Rightarrow>
         (case info of None \<Rightarrow> True
          | Some i \<Rightarrow> pi_maxbuffering i < 2 ^ 32 \<and> pi_latency i < 2 ^ 32 \<and> plain_dict (pi_extra i))
     | _ \<Rightarrow> True)"

definition same_method :: "pinos_map \<Rightarrow> client_method \<Rightarrow> client_method \<Rightarrow> bool" where
  "same_method tps m m' = (case m of
       Client_node_update a b c p \<Rightarrow> (\<exists>p'. m' = Client_node_update a b c p' \<and> opt_pod_remaps tps p p')
     | Client_node_port_update d p c fs f pr info \<Rightarrow>
         (\<exists>fs' f' pr' info'. m' = Client_node_port_update d p c fs' f' pr' info' \<and>
            list_all2 (pod_remaps tps) fs fs' \<and> opt_pod_remaps tps f f' \<and> opt_pod_remaps tps pr pr' \<and>
            (case info of None \<Rightarrow> info' = None
             | Some i \<Rightarrow> (\<exists>ps'. info' = Some (i\<lparr>pi_params := ps'\<rparr>) \<and> list_all2 (pod_remaps tps) (pi_params i) ps')))
     | Client_node_event e \<Rightarrow> (\<exists>e'. m' = Client_node_event e' \<and> pod_remaps tps e e')
     | _ \<Rightarrow> m' = m)"

lemma norm_str_plain: "s \<noteq> None \<Longrightarrow> norm_str s = s"
  by (cases s) (simp_all add: norm_str_def str_val_def)

lemma norm_dict_plain: "plain_dict d \<Longrightarrow> norm_dict d = d"
  by (auto simp: plain_dict_def norm_dict_def dict_items_def list_all_iff norm_str_plain intro!: map_idI split: option.splits)

lemma norm_strs_plain: "None \<notin> set ts \<Longrightarrow> map norm_str ts = ts"
  by (rule map_idI) (metis norm_str_plain)

lemma low32_plain:
  assumes "w < 2 ^ 32"
  shows "low32 w = w"
proof -
  have "unat w < 2 ^ 32" using assms by (simp add: word_less_nat_alt)
  then show ?thesis by (simp add: low32_def word_unat_eq_iff unsigned_ucast_eq unsigned_take_bit_eq take_bit_nat_eq_self)
qed

lemma method_plain_same:
  assumes "method_plain m" and "method_received tps m m'"
  shows "same_method tps m m'"
proof (cases m)
  case (Client_node_port_update d p c fs f pr info)
  then show ?thesis
    using assms by (auto simp: method_plain_def method_received_def same_method_def norm_port_info_def norm_dict_plain low32_plain
        split: option.splits) 
qed (use assms in \<open>auto simp: method_plain_def method_received_def same_method_def norm_dict_plain norm_strs_plain norm_str_plain\<close>)

text \<open>C5. Every method call of a client whose arguments take less than 4080 bytes is appended to the output as one packet, and the
  server's demarshalling function for the opcode of that packet makes the call \<open>m'\<close> of \<open>method_received\<close> on the
  implementation: counts, nested structs and loops agree on both sides and objects arrive with their type ids translated by the
  server's map for that client. When the call has no null string or dictionary and no 64-bit number of more than 32 bits it
  arrives as it was made; otherwise null strings become empty and 64-bit numbers keep their lower half. Longer calls are left
  out: the page that \<open>write_pod\<close> grows by is not enough for what is written behind it.\<close>

theorem client_methods_roundtrip:
  assumes "method_ok m" and "method_received tps m m'" and "length (concat (map enc (method_args m))) < 4080"
    and "np_conn peer = Some conn0" and "method_prelude peer m = Some peer1" and "np_conn peer1 = Some conn"
  shows "\<exists>peer2 conn2 data f. c_marshal peer ident m = Some peer2 \<and> np_conn peer2 = Some conn2 \<and>
    buffer_data (conn_out conn2) = buffer_data (conn_out conn) @ frame (method_opcode m, ident, data) \<and>
    packet_fits (method_opcode m, ident, data) \<and>
    server_dispatch tps (method_iface m) (method_opcode m) = Some f \<and> f data = Got m' \<and>
    (method_plain m \<longrightarrow> same_method tps m m')"
proof -
  obtain data where d: "build_struct (method_args m) = Some data" "length data < 4096" "method_handler tps m data = Got m'"
    using method_arrives [OF assms(1-3)] by (auto simp: arrives_def)
  obtain conn2 where s: "native_send peer1 ident (method_opcode m) (method_args m) = Some (peer1\<lparr>np_conn := Some conn2\<rparr>)"
      "buffer_data (conn_out conn2) = buffer_data (conn_out conn) @ frame (method_opcode m, ident, data)"
    using native_send_frame [OF assms(6) d(1)] by blast
  have "server_dispatch tps (method_iface m) (method_opcode m) = Some (method_handler tps m)"
    by (cases m) (simp_all add: handler_simps)
  moreover have "packet_fits (method_opcode m, ident, data)" using d(2) by (simp add: packet_fits_def)
  moreover have "c_marshal peer ident m = Some (peer1\<lparr>np_conn := Some conn2\<rparr>)"
    using s(1) c_marshal_send [OF assms(4,5)] by simp
  ultimately show ?thesis using d(3) s(2) method_plain_same [OF _ assms(2)]
    by (intro exI [of _ "peer1\<lparr>np_conn := Some conn2\<rparr>"] exI [of _ conn2] exI [of _ data]
        exI [of _ "method_handler tps m"]) simp
qed

definition idle_peer :: native_peer where
  "idle_peer = \<lparr>np_conn = Some pinos_connection_new, np_types = default_type_map, np_n_types = 0, np_core_id = 0\<rparr>"

definition empty_map :: pinos_map where
  "empty_map = \<lparr>items = pinos_array_init 64, cells = [], free_list = 0\<rparr>"

theorem client_methods_roundtrip_witness:
  "\<exists>peer2 conn2 data f. c_marshal idle_peer 0 (Core_create_client_node (Some [65, 66]) (Some [(Some [67], None)]) 7) = Some peer2 \<and>
    np_conn peer2 = Some conn2 \<and> buffer_data (conn_out conn2) = frame (4, 0, data) \<and>
    server_dispatch empty_map I_core 4 = Some f \<and>
    f data = Got (Core_create_client_node (Some [65, 66]) (Some [(Some [67], Some [])]) 7)"
proof -
  let ?m = "Core_create_client_node (Some [65, 66]) (Some [(Some [67], None)]) 7"
  let ?m' = "Core_create_client_node (Some [65, 66]) (Some [(Some [67], Some [])]) 7"
  have 1: "method_ok ?m" by (simp add: method_ok_def str_ok_def dict_ok_def dict_items_def)
  have 2: "method_received empty_map ?m ?m'"
    by (simp add: method_received_def norm_str_def norm_dict_def dict_items_def str_val_def)
  have 3: "length (concat (map enc (method_args ?m))) < 4080"
    by (simp add: method_args_def dict_args_def enc_def zero_pad_def)
  have 4: "np_conn idle_peer = Some pinos_connection_new" by (simp add: idle_peer_def)
  have 5: "method_prelude idle_peer ?m = Some idle_peer"
    by (simp add: method_prelude_def c_core_update_map_def idle_peer_def type_map_get_size_def default_type_map_def
        pinos_map_get_size_def pinos_array_init_def)
  show ?thesis
    using client_methods_roundtrip [OF 1 2 3 4 5 4, of 0]
    by (simp add: method_opcode_def method_iface_def pinos_connection_new_def new_buffer_def) blast
qed

end
