(* ===== verification/Pinos_Native_Events.thy ===== *)
theory Pinos_Native_Events
  imports Pinos_Native_Correct
begin










section \<open>Descriptors\<close>





section \<open>Events without translation\<close>











section \<open>Events with translation\<close>










section \<open>All events\<close>











end
