(* ===== verification/Spa_List.thy ===== *)
theory Spa_List
  imports Pinos_Prelude
begin

text \<open>
  The intrusive doubly linked lists of \<^verbatim>\<open>spa/include/spa/list.h\<close>, on an explicit store of the \<^verbatim>\<open>next\<close> and
  \<^verbatim>\<open>prev\<close> pointers of all nodes, and their abstraction to HOL lists of node addresses. The interface that the
  users of the lists rely on is the locale \<open>intrusive_lists\<close>.
\<close>

section \<open>Operations\<close>

record spa_links =
  l_next :: "nat \<Rightarrow> nat"
  l_prev :: "nat \<Rightarrow> nat"

definition spa_list_init :: "nat \<Rightarrow> spa_links \<Rightarrow> spa_links" where
  "spa_list_init lst h = h\<lparr>l_next := (l_next h)(lst := lst), l_prev := (l_prev h)(lst := lst)\<rparr>"

definition spa_list_insert :: "nat \<Rightarrow> nat \<Rightarrow> spa_links \<Rightarrow> spa_links" where
  "spa_list_insert lst elem h =
     (let h1 = h\<lparr>l_prev := (l_prev h)(elem := lst)\<rparr>;
          h2 = h1\<lparr>l_next := (l_next h1)(elem := l_next h1 lst)\<rparr>;
          h3 = h2\<lparr>l_next := (l_next h2)(lst := elem)\<rparr> in
      h3\<lparr>l_prev := (l_prev h3)(l_next h3 elem := elem)\<rparr>)"

definition spa_list_remove :: "nat \<Rightarrow> spa_links \<Rightarrow> spa_links" where
  "spa_list_remove elem h =
     (let h1 = h\<lparr>l_next := (l_next h)(l_prev h elem := l_next h elem)\<rparr> in
      h1\<lparr>l_prev := (l_prev h1)(l_next h1 elem := l_prev h1 elem)\<rparr>)"

definition spa_list_is_empty :: "nat \<Rightarrow> spa_links \<Rightarrow> bool" where
  "spa_list_is_empty lst h \<longleftrightarrow> l_next h lst = lst"

definition spa_list_first :: "nat \<Rightarrow> spa_links \<Rightarrow> nat" where
  "spa_list_first lst h = l_next h lst"

text \<open>The loop \<^verbatim>\<open>spa_list_for_each\<close> with a body that leaves the links alone.\<close>

partial_function (option) spa_list_for_each_from ::
  "spa_links \<Rightarrow> nat \<Rightarrow> (nat \<Rightarrow> 's \<Rightarrow> 's) \<Rightarrow> nat \<Rightarrow> 's \<Rightarrow> 's option" where
  "spa_list_for_each_from h lst body pos s =
     (if pos = lst then Some s else spa_list_for_each_from h lst body (l_next h pos) (body pos s))"

definition spa_list_for_each :: "spa_links \<Rightarrow> nat \<Rightarrow> (nat \<Rightarrow> 's \<Rightarrow> 's) \<Rightarrow> 's \<Rightarrow> 's option" where
  "spa_list_for_each h lst body s = spa_list_for_each_from h lst body (l_next h lst) s"

section \<open>Lists of nodes\<close>

text \<open>The nodes between \<open>x\<close> and \<open>z\<close>, linked in both directions.\<close>

fun linked :: "spa_links \<Rightarrow> nat \<Rightarrow> nat list \<Rightarrow> nat \<Rightarrow> bool" where
  "linked h x [] z \<longleftrightarrow> l_next h x = z \<and> l_prev h z = x"
| "linked h x (y # ys) z \<longleftrightarrow> l_next h x = y \<and> l_prev h y = x \<and> linked h y ys z"

definition is_list :: "spa_links \<Rightarrow> nat \<Rightarrow> nat list \<Rightarrow> bool" where
  "is_list h lst xs \<longleftrightarrow> distinct (lst # xs) \<and> linked h lst xs lst"

lemma linked_append: "linked h x (ys @ y # zs) z \<longleftrightarrow> linked h x ys y \<and> linked h y zs z"
  by (induction ys arbitrary: x) auto

lemma linked_cong:
  assumes "\<And>n. n \<in> set (x # ys) \<Longrightarrow> l_next h' n = l_next h n"
    and "\<And>n. n \<in> set (z # ys) \<Longrightarrow> l_prev h' n = l_prev h n"
  shows "linked h' x ys z \<longleftrightarrow> linked h x ys z"
  using assms by (induction ys arbitrary: x) auto

lemma linked_ends:
  assumes "linked h x ys z"
  shows "l_next h x = hd (ys @ [z]) \<and> l_prev h z = last (x # ys)"
  using assms by (induction ys arbitrary: x) (auto split: if_splits)

lemma linked_insert_last:
  assumes "linked h x ys z" and "distinct (x # ys)" and "z \<notin> set ys" and "e \<notin> set (x # ys)" and "e \<noteq> z"
  shows "linked (spa_list_insert (last (x # ys)) e h) x (ys @ [e]) z"
proof -
  let ?p = "last (x # ys)" and ?h = "spa_list_insert (last (x # ys)) e h"
  have p: "?p \<in> set (x # ys)" by (rule last_in_set) simp
  then have pe: "?p \<noteq> e" using assms(4) by blast
  have nz: "l_next h ?p = z"
    using assms(1) by (induction ys arbitrary: x) auto
  have h: "l_next ?h = (l_next h)(e := z, ?p := e)" "l_prev ?h = (l_prev h)(e := ?p, z := e)"
    using pe assms(5) nz by (auto simp: spa_list_insert_def Let_def)
  show ?thesis
  proof (cases ys rule: rev_cases)
    case Nil
    then show ?thesis using h assms by auto
  next
    case (snoc as y)
    have y: "?p = y" using snoc by simp
    have "linked h x as y" using assms(1) snoc by (simp add: linked_append)
    moreover have "linked ?h x as y \<longleftrightarrow> linked h x as y"
      using assms snoc y h by (intro linked_cong) auto
    ultimately show ?thesis using snoc y h assms(5) pe by (auto simp: linked_append)
  qed
qed

lemma linked_remove:
  assumes l: "linked h x (as @ e # bs) z" and d: "distinct (as @ e # bs)"
    and x: "x \<notin> set (as @ e # bs)" and z: "z \<notin> set (as @ e # bs)"
  shows "linked (spa_list_remove e h) x (as @ bs) z"
proof -
  let ?h = "spa_list_remove e h" and ?p = "last (x # as)" and ?n = "hd (bs @ [z])"
  have l1: "linked h x as e" and l2: "linked h e bs z" using l by (auto simp: linked_append)
  have p: "l_prev h e = ?p" using linked_ends [OF l1] by simp
  have n: "l_next h e = ?n" using linked_ends [OF l2] by simp
  have pm: "?p \<in> set (x # as)" by (rule last_in_set) simp
  have nm: "?n \<in> set (bs @ [z])" by (rule hd_in_set) simp
  have pe: "?p \<noteq> e" using pm d x by auto
  have h: "l_next ?h = (l_next h)(?p := ?n)" "l_prev ?h = (l_prev h)(?n := ?p)"
    using pe p n by (auto simp: spa_list_remove_def Let_def)
  show ?thesis
  proof (cases as rule: rev_cases)
    case Nil
    show ?thesis
    proof (cases bs)
      case Nil
      then show ?thesis using \<open>as = []\<close> h by simp
    next
      case (Cons b bs')
      have "linked ?h b bs' z \<longleftrightarrow> linked h b bs' z"
        using Cons \<open>as = []\<close> h d x z by (intro linked_cong) auto
      then show ?thesis using Cons \<open>as = []\<close> h l2 by simp
    qed
  next
    case (snoc as' a)
    have la: "linked h x as' a" using l1 snoc by (simp add: linked_append)
    have "linked ?h x as' a \<longleftrightarrow> linked h x as' a"
      using snoc h d x z nm by (intro linked_cong) auto
    moreover have "linked ?h a bs z"
    proof (cases bs)
      case Nil
      then show ?thesis using snoc h by simp
    next
      case (Cons b bs')
      have "linked ?h b bs' z \<longleftrightarrow> linked h b bs' z"
        using Cons snoc h d z by (intro linked_cong) auto
      then show ?thesis using Cons snoc h l2 by simp
    qed
    ultimately show ?thesis using snoc la by (simp add: linked_append)
  qed
qed

section \<open>The interface\<close>

text \<open>What the users of the lists rely on: a node is appended by inserting it behind the last one, a node is removed
  from the middle, and operations on one list leave the others alone.\<close>

locale intrusive_lists =
  fixes rep :: "'h \<Rightarrow> nat \<Rightarrow> nat list \<Rightarrow> bool"
    and ins :: "nat \<Rightarrow> nat \<Rightarrow> 'h \<Rightarrow> 'h"
    and rem :: "nat \<Rightarrow> 'h \<Rightarrow> 'h"
    and prev_of :: "'h \<Rightarrow> nat \<Rightarrow> nat"
  assumes rep_distinct: "rep h lst xs \<Longrightarrow> distinct (lst # xs)"
    and rep_append: "\<lbrakk>rep h lst xs; e \<notin> set (lst # xs)\<rbrakk> \<Longrightarrow> rep (ins (prev_of h lst) e h) lst (xs @ [e])"
    and rep_remove: "rep h lst (as @ e # bs) \<Longrightarrow> rep (rem e h) lst (as @ bs)"
    and rep_append_other: "\<lbrakk>rep h lst xs; rep h other ys; set (lst # xs) \<inter> set (other # ys) = {};
           e \<notin> set (other # ys)\<rbrakk> \<Longrightarrow> rep (ins (prev_of h lst) e h) other ys"
    and rep_remove_other: "\<lbrakk>rep h lst (as @ e # bs); rep h other ys; set (lst # as @ e # bs) \<inter> set (other # ys) = {}\<rbrakk>
           \<Longrightarrow> rep (rem e h) other ys"
begin

text \<open>Two lists that share no node.\<close>

definition two :: "'h \<Rightarrow> nat \<Rightarrow> nat list \<Rightarrow> nat \<Rightarrow> nat list \<Rightarrow> bool" where
  "two h a xs b ys \<longleftrightarrow> rep h a xs \<and> rep h b ys \<and> set (a # xs) \<inter> set (b # ys) = {}"

lemma two_sym: "two h a xs b ys \<Longrightarrow> two h b ys a xs"
  by (auto simp: two_def)

lemma two_append:
  "\<lbrakk>two h a xs b ys; e \<notin> set (a # xs); e \<notin> set (b # ys)\<rbrakk> \<Longrightarrow> two (ins (prev_of h a) e h) a (xs @ [e]) b ys"
  using rep_append rep_append_other by (auto simp: two_def)

lemma two_remove: "two h a (as @ e # bs) b ys \<Longrightarrow> two (rem e h) a (as @ bs) b ys"
  using rep_remove rep_remove_other by (auto simp: two_def)

text \<open>Taking a node out of one list and appending it to the other.\<close>

lemma two_move:
  assumes "two h a (as @ e # bs) b ys"
  shows "two (ins (prev_of (rem e h) b) e (rem e h)) a (as @ bs) b (ys @ [e])"
proof -
  have "two (rem e h) b ys a (as @ bs)" by (rule two_sym, rule two_remove, rule assms)
  moreover have "rep h a (as @ e # bs)" using assms by (simp add: two_def)
  then have "distinct (a # as @ e # bs)" by (rule rep_distinct)
  then have "e \<notin> set (a # as @ bs)" by auto
  moreover have "e \<notin> set (b # ys)" using assms by (auto simp: two_def)
  ultimately show ?thesis by (intro two_sym [OF two_append]) auto
qed

end

lemma is_list_prev: "is_list h lst xs \<Longrightarrow> l_prev h lst = last (lst # xs)"
  using linked_ends [of h lst xs lst] by (simp add: is_list_def)

lemma is_list_last_next: "is_list h lst xs \<Longrightarrow> l_next h (last (lst # xs)) = lst"
proof -
  have "linked h x xs z \<Longrightarrow> l_next h (last (x # xs)) = z" for x z
    by (induction xs arbitrary: x) auto
  then show "is_list h lst xs \<Longrightarrow> l_next h (last (lst # xs)) = lst" by (simp add: is_list_def)
qed

interpretation spa_lists: intrusive_lists is_list spa_list_insert spa_list_remove l_prev
proof
  show "distinct (lst # xs)" if "is_list h lst xs" for h lst xs using that by (simp add: is_list_def)
  show "is_list (spa_list_insert (l_prev h lst) e h) lst (xs @ [e])" if "is_list h lst xs" "e \<notin> set (lst # xs)" for h lst xs e
    using that linked_insert_last [of h lst xs lst e] by (auto simp: is_list_def is_list_prev)
  show "is_list (spa_list_remove e h) lst (as @ bs)" if "is_list h lst (as @ e # bs)" for h lst as e bs
    using that linked_remove [of h lst as e bs lst] by (auto simp: is_list_def)
  show "is_list (spa_list_insert (l_prev h lst) e h) other ys"
    if l: "is_list h lst xs" "is_list h other ys" "set (lst # xs) \<inter> set (other # ys) = {}" "e \<notin> set (other # ys)" for h lst xs other ys e
  proof -
    let ?p = "last (lst # xs)"
    have "?p \<in> set (lst # xs)" by (rule last_in_set) simp
    then have "?p \<notin> set (other # ys)" using l(3) by blast
    moreover have "l_next h ?p = lst" using l(1) by (rule is_list_last_next)
    moreover have "lst \<notin> set (other # ys)" using l(3) by auto
    ultimately have "linked (spa_list_insert ?p e h) other ys other \<longleftrightarrow> linked h other ys other"
      using l(4) by (intro linked_cong) (auto simp: spa_list_insert_def Let_def)
    then show ?thesis using l by (simp add: is_list_def is_list_prev [OF l(1)])
  qed
  show "is_list (spa_list_remove e h) other ys"
    if l: "is_list h lst (as @ e # bs)" "is_list h other ys" "set (lst # as @ e # bs) \<inter> set (other # ys) = {}"
    for h lst as e bs other ys
  proof -
    have l1: "linked h lst as e" and l2: "linked h e bs lst" using l(1) by (auto simp: is_list_def linked_append)
    have "last (lst # as) \<in> set (lst # as)" "hd (bs @ [lst]) \<in> set (bs @ [lst])"
      by (rule last_in_set, simp) (rule hd_in_set, simp)
    then have "l_prev h e \<notin> set (other # ys)" "l_next h e \<notin> set (other # ys)"
      using linked_ends [OF l1] linked_ends [OF l2] l(3) by auto
    moreover have "e \<notin> set (other # ys)" using l(3) by auto
    ultimately have "linked (spa_list_remove e h) other ys other \<longleftrightarrow> linked h other ys other"
      by (intro linked_cong) (auto simp: spa_list_remove_def Let_def)
    then show ?thesis using l by (simp add: is_list_def)
  qed
qed

section \<open>Reading a list\<close>

lemma is_list_init: "is_list (spa_list_init lst h) lst []"
  by (simp add: is_list_def spa_list_init_def)

lemma is_list_init_other:
  "\<lbrakk>is_list h other ys; lst \<notin> set (other # ys)\<rbrakk> \<Longrightarrow> is_list (spa_list_init lst h) other ys"
  unfolding is_list_def by (subst linked_cong [of other ys _ h]) (auto simp: spa_list_init_def)

lemma is_list_empty: "is_list h lst xs \<Longrightarrow> spa_list_is_empty lst h \<longleftrightarrow> xs = []"
  by (cases xs) (auto simp: is_list_def spa_list_is_empty_def)

lemma is_list_first: "is_list h lst (x # xs) \<Longrightarrow> spa_list_first lst h = x"
  by (simp add: is_list_def spa_list_first_def)

lemma is_list_next: "is_list h lst (as @ e # bs) \<Longrightarrow> l_next h e = (case bs of [] \<Rightarrow> lst | b # _ \<Rightarrow> b)"
  by (auto simp: is_list_def linked_append split: list.split)

lemma for_each_from_linked:
  assumes "linked h x ys lst" and "lst \<notin> set ys"
  shows "spa_list_for_each_from h lst body (l_next h x) s = Some (fold body ys s)"
  using assms
proof (induction ys arbitrary: x s)
  case Nil
  then show ?case by (simp add: spa_list_for_each_from.simps)
next
  case (Cons y ys)
  have "l_next h x = y" "y \<noteq> lst" "linked h y ys lst" using Cons.prems by auto
  then show ?case
    using Cons.IH [of y "body y s"] Cons.prems(2) by (simp add: spa_list_for_each_from.simps [of h lst body y])
qed

lemma for_each_is_list: "is_list h lst xs \<Longrightarrow> spa_list_for_each h lst body s = Some (fold body xs s)"
  using for_each_from_linked [of h lst xs lst] by (simp add: is_list_def spa_list_for_each_def)

end
