(* ===== verification/Pinos_Work_Queue.thy ===== *)
theory Pinos_Work_Queue
  imports Spa_List
begin

text \<open>
  The deferred work of the server, \<^verbatim>\<open>pinos/server/work-queue.c\<close>. Work items live in nodes of an intrusive list of
  pending work and, once used, in a list of free nodes. The function of an item may call back into the queue; what
  the callbacks do is a parameter \<open>cb\<close>, indexed by the number of functions called before. The event that
  \<^verbatim>\<open>pinos_loop_signal_event\<close> raises and the loop clears before it runs \<open>process_work_queue\<close> is the flag
  \<open>wq_wakeup\<close>.
\<close>

section \<open>State\<close>

record work_item =
  wi_id :: u32
  wi_obj :: u64
  wi_seq :: u32
  wi_res :: spa_result
  wi_func :: u64
  wi_data :: u64

record work_queue =
  wq_links :: spa_links
  wq_item :: "nat \<Rightarrow> work_item"
  wq_brk :: nat
  wq_wakeup :: bool
  wq_counter :: u32
  wq_n_queued :: u32
  wq_calls :: "work_item list"

text \<open>The addresses of the two list heads. Nodes are allocated from address 2 on; \<open>wq_brk\<close> is the first address
  that was never allocated. \<open>wq_calls\<close> logs the items whose function was called.\<close>

definition WORK_LIST :: nat where "WORK_LIST = 0"
definition FREE_LIST :: nat where "FREE_LIST = 1"

definition pinos_work_queue_new :: work_queue where
  "pinos_work_queue_new =
     \<lparr>wq_links = spa_list_init FREE_LIST (spa_list_init WORK_LIST \<lparr>l_next = (\<lambda>_. 0), l_prev = (\<lambda>_. 0)\<rparr>),
      wq_item = (\<lambda>_. \<lparr>wi_id = 0, wi_obj = 0, wi_seq = 0, wi_res = 0, wi_func = 0, wi_data = 0\<rparr>),
      wq_brk = 2, wq_wakeup = False, wq_counter = 0, wq_n_queued = 0, wq_calls = []\<rparr>"

section \<open>Operations\<close>

text \<open>A node from the free list, else from \<^verbatim>\<open>malloc\<close>, which may fail.\<close>

definition work_item_alloc :: "bool \<Rightarrow> work_queue \<Rightarrow> (nat \<times> work_queue) option" where
  "work_item_alloc malloc_ok q =
     (if \<not> spa_list_is_empty FREE_LIST (wq_links q)
      then let item = spa_list_first FREE_LIST (wq_links q) in
           Some (item, q\<lparr>wq_links := spa_list_remove item (wq_links q)\<rparr>)
      else if malloc_ok then Some (wq_brk q, q\<lparr>wq_brk := wq_brk q + 1\<rparr>)
      else None)"

definition work_item_seq :: "spa_result \<Rightarrow> u32" where
  "work_item_seq res = (if SPA_RESULT_IS_ASYNC res then SPA_RESULT_ASYNC_SEQ res else SPA_ID_INVALID)"

definition pinos_work_queue_add ::
  "bool \<Rightarrow> u64 \<Rightarrow> spa_result \<Rightarrow> u64 \<Rightarrow> u64 \<Rightarrow> work_queue \<Rightarrow> u32 \<times> work_queue" where
  "pinos_work_queue_add malloc_ok obj res func data q =
     (case work_item_alloc malloc_ok q of
        None \<Rightarrow> (SPA_ID_INVALID, q)
      | Some (item, q1) \<Rightarrow>
          let i = wq_counter q1 + 1 in
          (i, q1\<lparr>wq_counter := i,
               wq_item := (wq_item q1)(item := \<lparr>wi_id = i, wi_obj = obj, wi_seq = work_item_seq res, wi_res = res,
                 wi_func = func, wi_data = data\<rparr>),
               wq_links := spa_list_insert (l_prev (wq_links q1) WORK_LIST) item (wq_links q1),
               wq_n_queued := wq_n_queued q1 + 1,
               wq_wakeup := (wq_wakeup q1 \<or> \<not> SPA_RESULT_IS_ASYNC res)\<rparr>))"

definition cancel_matches :: "u64 \<Rightarrow> u32 \<Rightarrow> work_item \<Rightarrow> bool" where
  "cancel_matches obj i it \<longleftrightarrow> (i = SPA_ID_INVALID \<or> wi_id it = i) \<and> (obj = 0 \<or> wi_obj it = obj)"

definition cancel_item :: "u64 \<Rightarrow> u32 \<Rightarrow> work_item \<Rightarrow> work_item" where
  "cancel_item obj i it = (if cancel_matches obj i it then it\<lparr>wi_seq := SPA_ID_INVALID, wi_func := 0\<rparr> else it)"

definition complete_matches :: "u64 \<Rightarrow> u32 \<Rightarrow> work_item \<Rightarrow> bool" where
  "complete_matches obj seq it \<longleftrightarrow> wi_obj it = obj \<and> wi_seq it = seq"

definition complete_item :: "u64 \<Rightarrow> u32 \<Rightarrow> spa_result \<Rightarrow> work_item \<Rightarrow> work_item" where
  "complete_item obj seq res it =
     (if complete_matches obj seq it then it\<lparr>wi_seq := SPA_ID_INVALID, wi_res := res\<rparr> else it)"

text \<open>The loops of \<open>pinos_work_queue_cancel\<close> and \<open>pinos_work_queue_complete\<close>: the items and \<^verbatim>\<open>have_work\<close>.\<close>

definition update_items ::
  "(work_item \<Rightarrow> bool) \<Rightarrow> (work_item \<Rightarrow> work_item) \<Rightarrow> work_queue \<Rightarrow> (bool \<times> work_queue) option" where
  "update_items p f q =
     (case spa_list_for_each (wq_links q) WORK_LIST
             (\<lambda>pos (have_work, its). (have_work \<or> p (its pos), its(pos := f (its pos)))) (False, wq_item q) of
        None \<Rightarrow> None
      | Some (have_work, its) \<Rightarrow>
          Some (have_work, q\<lparr>wq_item := its, wq_wakeup := (wq_wakeup q \<or> have_work)\<rparr>))"

definition pinos_work_queue_cancel :: "u64 \<Rightarrow> u32 \<Rightarrow> work_queue \<Rightarrow> work_queue option" where
  "pinos_work_queue_cancel obj i q = map_option snd (update_items (cancel_matches obj i) (cancel_item obj i) q)"

definition pinos_work_queue_complete ::
  "u64 \<Rightarrow> u32 \<Rightarrow> spa_result \<Rightarrow> work_queue \<Rightarrow> (bool \<times> work_queue) option" where
  "pinos_work_queue_complete obj seq res q =
     update_items (complete_matches obj seq) (complete_item obj seq res) q"

text \<open>The calls that a client, or the function of a work item, makes.\<close>

datatype wq_op =
    Wq_add bool u64 spa_result u64 u64
  | Wq_cancel u64 u32
  | Wq_complete u64 u32 spa_result

definition wq_op_run :: "wq_op \<Rightarrow> work_queue \<Rightarrow> work_queue option" where
  "wq_op_run act q =
     (case act of
        Wq_add ok obj res func data \<Rightarrow> Some (snd (pinos_work_queue_add ok obj res func data q))
      | Wq_cancel obj i \<Rightarrow> pinos_work_queue_cancel obj i q
      | Wq_complete obj seq res \<Rightarrow> map_option snd (pinos_work_queue_complete obj seq res q))"

type_synonym wq_callbacks = "nat \<Rightarrow> work_item \<Rightarrow> wq_op list"

definition call_work_func :: "wq_callbacks \<Rightarrow> work_item \<Rightarrow> work_queue \<Rightarrow> work_queue option" where
  "call_work_func cb it q =
     (if wi_func it \<noteq> 0
      then opt_fold wq_op_run (cb (length (wq_calls q)) it) (q\<lparr>wq_calls := wq_calls q @ [it]\<rparr>)
      else Some q)"

definition process_work_item :: "wq_callbacks \<Rightarrow> nat \<Rightarrow> work_queue \<Rightarrow> work_queue option" where
  "process_work_item cb pos q =
     (let it = wq_item q pos in
      if wi_seq it \<noteq> SPA_ID_INVALID then Some q
      else if wi_res it = SPA_RESULT_WAIT_SYNC \<and> pos \<noteq> spa_list_first WORK_LIST (wq_links q) then Some q
      else
        case call_work_func cb it (q\<lparr>wq_links := spa_list_remove pos (wq_links q), wq_n_queued := wq_n_queued q - 1\<rparr>) of
          None \<Rightarrow> None
        | Some q' \<Rightarrow>
            Some (q'\<lparr>wq_links := spa_list_insert (l_prev (wq_links q') FREE_LIST) pos (wq_links q')\<rparr>))"

text \<open>The loop \<^verbatim>\<open>spa_list_for_each_safe\<close>: the next node is read before the body runs.\<close>

partial_function (option) process_work_items ::
  "wq_callbacks \<Rightarrow> nat \<Rightarrow> nat \<Rightarrow> work_queue \<Rightarrow> work_queue option" where
  "process_work_items cb pos tmp q =
     (if pos = WORK_LIST then Some q
      else case process_work_item cb pos q of
             None \<Rightarrow> None
           | Some q' \<Rightarrow> process_work_items cb tmp (l_next (wq_links q') tmp) q')"

definition process_work_queue :: "wq_callbacks \<Rightarrow> work_queue \<Rightarrow> work_queue option" where
  "process_work_queue cb q =
     (let q0 = q\<lparr>wq_wakeup := False\<rparr>; pos = l_next (wq_links q0) WORK_LIST in
      process_work_items cb pos (l_next (wq_links q0) pos) q0)"

text \<open>A run of the main loop: calls of clients and passes of the wakeup event.\<close>

datatype wq_step = Wq_do wq_op | Wq_process

definition wq_step_run :: "wq_callbacks \<Rightarrow> wq_step \<Rightarrow> work_queue \<Rightarrow> work_queue option" where
  "wq_step_run cb st q = (case st of Wq_do act \<Rightarrow> wq_op_run act q | Wq_process \<Rightarrow> process_work_queue cb q)"

section \<open>The queue as a list of items\<close>

record aqueue =
  aq_items :: "work_item list"
  aq_free :: nat
  aq_wakeup :: bool
  aq_counter :: u32
  aq_calls :: "work_item list"

definition aq_new :: aqueue where
  "aq_new = \<lparr>aq_items = [], aq_free = 0, aq_wakeup = False, aq_counter = 0, aq_calls = []\<rparr>"

definition aq_op_run :: "wq_op \<Rightarrow> aqueue \<Rightarrow> aqueue" where
  "aq_op_run act a =
     (case act of
        Wq_add ok obj res func data \<Rightarrow>
          if aq_free a = 0 \<and> \<not> ok then a
          else let i = aq_counter a + 1 in
               a\<lparr>aq_counter := i, aq_free := aq_free a - 1, aq_wakeup := (aq_wakeup a \<or> \<not> SPA_RESULT_IS_ASYNC res),
                 aq_items := aq_items a @ [\<lparr>wi_id = i, wi_obj = obj, wi_seq = work_item_seq res, wi_res = res,
                   wi_func = func, wi_data = data\<rparr>]\<rparr>
      | Wq_cancel obj i \<Rightarrow>
          a\<lparr>aq_items := map (cancel_item obj i) (aq_items a),
            aq_wakeup := (aq_wakeup a \<or> (\<exists>it\<in>set (aq_items a). cancel_matches obj i it))\<rparr>
      | Wq_complete obj seq res \<Rightarrow>
          a\<lparr>aq_items := map (complete_item obj seq res) (aq_items a),
            aq_wakeup := (aq_wakeup a \<or> (\<exists>it\<in>set (aq_items a). complete_matches obj seq it))\<rparr>)"

definition aq_call :: "wq_callbacks \<Rightarrow> work_item \<Rightarrow> aqueue \<Rightarrow> aqueue" where
  "aq_call cb it a =
     (if wi_func it \<noteq> 0 then fold aq_op_run (cb (length (aq_calls a)) it) (a\<lparr>aq_calls := aq_calls a @ [it]\<rparr>) else a)"

text \<open>An item stays in the queue while its asynchronous operation is pending, and a synchronising item until it is
  the first one.\<close>

definition item_waits :: "nat \<Rightarrow> work_item \<Rightarrow> bool" where
  "item_waits k it \<longleftrightarrow> wi_seq it \<noteq> SPA_ID_INVALID \<or> (wi_res it = SPA_RESULT_WAIT_SYNC \<and> k \<noteq> 0)"

definition aq_process_item :: "wq_callbacks \<Rightarrow> nat \<Rightarrow> aqueue \<Rightarrow> aqueue \<times> nat" where
  "aq_process_item cb k a =
     (let it = aq_items a ! k in
      if item_waits k it then (a, k + 1)
      else let a' = aq_call cb it (a\<lparr>aq_items := take k (aq_items a) @ drop (k + 1) (aq_items a)\<rparr>) in
           (a'\<lparr>aq_free := aq_free a' + 1\<rparr>, k))"

partial_function (option) aq_process_from :: "wq_callbacks \<Rightarrow> nat \<Rightarrow> aqueue \<Rightarrow> aqueue option" where
  "aq_process_from cb k a =
     (if k + 1 < length (aq_items a)
      then aq_process_from cb (snd (aq_process_item cb k a)) (fst (aq_process_item cb k a))
      else if k < length (aq_items a) then Some (fst (aq_process_item cb k a))
      else Some a)"

definition aq_step_run :: "wq_callbacks \<Rightarrow> wq_step \<Rightarrow> aqueue \<Rightarrow> aqueue option" where
  "aq_step_run cb st a =
     (case st of Wq_do act \<Rightarrow> Some (aq_op_run act a) | Wq_process \<Rightarrow> aq_process_from cb 0 (a\<lparr>aq_wakeup := False\<rparr>))"

section \<open>The lists of nodes implement it\<close>

text \<open>The nodes \<open>hs\<close> are in neither list: an item whose function is running.\<close>

definition wq_rel :: "nat set \<Rightarrow> nat list \<Rightarrow> nat list \<Rightarrow> work_queue \<Rightarrow> aqueue \<Rightarrow> bool" where
  "wq_rel hs xs fs q a \<longleftrightarrow>
     spa_lists.two (wq_links q) WORK_LIST xs FREE_LIST fs \<and>
     set xs \<union> set fs \<union> hs \<subseteq> {2..<wq_brk q} \<and> 2 \<le> wq_brk q \<and> hs \<inter> (set xs \<union> set fs) = {} \<and>
     map (wq_item q) xs = aq_items a \<and> length fs = aq_free a \<and> wq_n_queued q = of_nat (length xs) \<and>
     wq_wakeup q = aq_wakeup a \<and> wq_counter q = aq_counter a \<and> wq_calls q = aq_calls a"

lemma wq_relD:
  assumes "wq_rel hs xs fs q a"
  shows "is_list (wq_links q) WORK_LIST xs" "is_list (wq_links q) FREE_LIST fs" "distinct xs" "distinct fs"
    "set xs \<inter> set fs = {}" "0 \<notin> set xs" "1 \<notin> set xs" "0 \<notin> set fs" "1 \<notin> set fs"
    "length (aq_items a) = length xs"
  using assms by (auto simp: wq_rel_def spa_lists.two_def is_list_def WORK_LIST_def FREE_LIST_def dest: arg_cong [of _ _ length])

lemma wq_rel_items: "wq_rel hs xs fs q a \<Longrightarrow> aq_items a = map (wq_item q) xs"
  by (simp add: wq_rel_def)

lemma wq_new_rel: "wq_rel {} [] [] pinos_work_queue_new aq_new"
proof -
  have "is_list (wq_links pinos_work_queue_new) WORK_LIST []" "is_list (wq_links pinos_work_queue_new) FREE_LIST []"
    unfolding pinos_work_queue_new_def
    by (auto simp: WORK_LIST_def FREE_LIST_def intro!: is_list_init is_list_init_other)
  then show ?thesis
    by (auto simp: wq_rel_def spa_lists.two_def aq_new_def) (auto simp: pinos_work_queue_new_def WORK_LIST_def FREE_LIST_def)
qed

lemma alloc_rel:
  assumes r: "wq_rel hs xs fs q a"
  shows "(aq_free a = 0 \<and> \<not> ok \<and> work_item_alloc ok q = None) \<or>
    (\<exists>n q' fs'. \<not> (aq_free a = 0 \<and> \<not> ok) \<and> work_item_alloc ok q = Some (n, q') \<and> wq_rel hs xs fs' q' (a\<lparr>aq_free := aq_free a - 1\<rparr>) \<and>
      n \<notin> set xs \<union> set fs' \<union> hs \<and> n \<in> {2..<wq_brk q'})"
proof (cases fs)
  case Nil
  have "spa_list_is_empty FREE_LIST (wq_links q)" using is_list_empty wq_relD(2) [OF r] Nil by simp
  then show ?thesis using r Nil
    by (cases ok) (auto simp: work_item_alloc_def wq_rel_def)
next
  case (Cons n fs')
  have ne: "\<not> spa_list_is_empty FREE_LIST (wq_links q)" using is_list_empty wq_relD(2) [OF r] Cons by simp
  have f: "spa_list_first FREE_LIST (wq_links q) = n" using is_list_first wq_relD(2) [OF r] Cons by simp
  have "spa_lists.two (wq_links q) FREE_LIST ([] @ n # fs') WORK_LIST xs"
    using r Cons by (auto simp: wq_rel_def intro: spa_lists.two_sym)
  then have "spa_lists.two (spa_list_remove n (wq_links q)) FREE_LIST ([] @ fs') WORK_LIST xs"
    by (rule spa_lists.two_remove)
  then have t: "spa_lists.two (spa_list_remove n (wq_links q)) WORK_LIST xs FREE_LIST fs'"
    using spa_lists.two_sym by simp
  have "n \<notin> set fs'" "n \<notin> set xs" using wq_relD(4,5) [OF r] Cons by auto
  then show ?thesis using r Cons ne f t
    by (intro disjI2 exI [of _ n]) (auto simp: work_item_alloc_def wq_rel_def Let_def)
qed

lemma add_rel:
  assumes r: "wq_rel hs xs fs q a"
  shows "\<exists>new fs'. wq_rel hs (xs @ new) fs' (snd (pinos_work_queue_add ok obj res func data q))
           (aq_op_run (Wq_add ok obj res func data) a)"
  using alloc_rel [OF r, of ok]
proof (elim disjE exE conjE)
  assume "aq_free a = 0" "\<not> ok" "work_item_alloc ok q = None"
  then show ?thesis using r by (intro exI [of _ "[]"] exI [of _ fs]) (simp add: pinos_work_queue_add_def aq_op_run_def)
next
  fix n q' fs'
  assume ok: "\<not> (aq_free a = 0 \<and> \<not> ok)" and al: "work_item_alloc ok q = Some (n, q')"
    and r': "wq_rel hs xs fs' q' (a\<lparr>aq_free := aq_free a - 1\<rparr>)"
    and n: "n \<notin> set xs \<union> set fs' \<union> hs" "n \<in> {2..<wq_brk q'}"
  have "spa_lists.two (wq_links q') WORK_LIST xs FREE_LIST fs'" using r' by (simp add: wq_rel_def)
  then have "spa_lists.two (spa_list_insert (l_prev (wq_links q') WORK_LIST) n (wq_links q')) WORK_LIST (xs @ [n]) FREE_LIST fs'"
    using n by (intro spa_lists.two_append) (auto simp: WORK_LIST_def FREE_LIST_def)
  moreover have "map ((wq_item q')(n := it)) xs = map (wq_item q') xs" for it
    using n by (auto intro!: map_cong)
  ultimately have "wq_rel hs (xs @ [n]) fs' (snd (pinos_work_queue_add ok obj res func data q))
      (aq_op_run (Wq_add ok obj res func data) a)"
    using r' n ok al by (auto simp: pinos_work_queue_add_def aq_op_run_def wq_rel_def Let_def)
  then show ?thesis by blast
qed

lemma fold_update_items:
  "distinct xs \<Longrightarrow> fold (\<lambda>pos (w, its). (w \<or> p (its pos), its(pos := f (its pos)))) xs (w0, its0) =
     (w0 \<or> (\<exists>n\<in>set xs. p (its0 n)), \<lambda>n. if n \<in> set xs then f (its0 n) else its0 n)"
proof (induction xs arbitrary: w0 its0)
  case Nil
  then show ?case by simp
next
  case (Cons n xs)
  then show ?case by (auto simp: fun_eq_iff)
qed

lemma update_items_rel:
  assumes r: "wq_rel hs xs fs q a"
  shows "\<exists>q'. update_items p f q = Some ((\<exists>it\<in>set (aq_items a). p it), q') \<and>
    wq_rel hs xs fs q' (a\<lparr>aq_items := map f (aq_items a), aq_wakeup := (aq_wakeup a \<or> (\<exists>it\<in>set (aq_items a). p it))\<rparr>)"
proof -
  have i: "aq_items a = map (wq_item q) xs" using r by (simp add: wq_rel_def)
  have "map (\<lambda>n. if n \<in> set xs then f (wq_item q n) else wq_item q n) xs = map f (aq_items a)"
    by (auto simp: i)
  then show ?thesis
    using r wq_relD(3) [OF r]
    by (auto simp: update_items_def for_each_is_list [OF wq_relD(1) [OF r]] fold_update_items i wq_rel_def)
qed

lemma op_rel:
  assumes r: "wq_rel hs xs fs q a"
  shows "\<exists>q' new fs'. wq_op_run act q = Some q' \<and> wq_rel hs (xs @ new) fs' q' (aq_op_run act a)"
proof (cases act)
  case (Wq_add ok obj res func data)
  then show ?thesis using add_rel [OF r] by (simp add: wq_op_run_def)
next
  case (Wq_cancel obj i)
  obtain q' where "update_items (cancel_matches obj i) (cancel_item obj i) q = Some ((\<exists>it\<in>set (aq_items a). cancel_matches obj i it), q')"
    "wq_rel hs xs fs q' (aq_op_run act a)"
    using update_items_rel [OF r, of "cancel_matches obj i" "cancel_item obj i"] by (auto simp: aq_op_run_def Wq_cancel)
  then show ?thesis
    by (intro exI [of _ q'] exI [of _ "[]"] exI [of _ fs]) (simp add: Wq_cancel wq_op_run_def pinos_work_queue_cancel_def)
next
  case (Wq_complete obj seq res)
  obtain q' where "update_items (complete_matches obj seq) (complete_item obj seq res) q = Some ((\<exists>it\<in>set (aq_items a). complete_matches obj seq it), q')"
    "wq_rel hs xs fs q' (aq_op_run act a)"
    using update_items_rel [OF r, of "complete_matches obj seq" "complete_item obj seq res"] by (auto simp: aq_op_run_def Wq_complete)
  then show ?thesis
    by (intro exI [of _ q'] exI [of _ "[]"] exI [of _ fs]) (simp add: Wq_complete wq_op_run_def pinos_work_queue_complete_def)
qed

lemma ops_rel:
  "wq_rel hs xs fs q a \<Longrightarrow>
     \<exists>q' new fs'. opt_fold wq_op_run acts q = Some q' \<and> wq_rel hs (xs @ new) fs' q' (fold aq_op_run acts a)"
proof (induction acts arbitrary: q a xs fs)
  case Nil
  then show ?case by (intro exI [of _ q] exI [of _ "[]"] exI [of _ fs]) simp
next
  case (Cons act acts)
  obtain q1 new1 fs1 where "wq_op_run act q = Some q1" "wq_rel hs (xs @ new1) fs1 q1 (aq_op_run act a)"
    using op_rel [OF Cons.prems] by blast
  moreover from Cons.IH [OF this(2)] obtain q2 new2 fs2 where
    "opt_fold wq_op_run acts q1 = Some q2" "wq_rel hs ((xs @ new1) @ new2) fs2 q2 (fold aq_op_run acts (aq_op_run act a))"
    by blast
  ultimately show ?case by (intro exI [of _ q2] exI [of _ "new1 @ new2"] exI [of _ fs2]) simp
qed

lemma call_rel:
  assumes "wq_rel hs xs fs q a"
  shows "\<exists>q' new fs'. call_work_func cb it q = Some q' \<and> wq_rel hs (xs @ new) fs' q' (aq_call cb it a)"
proof (cases "wi_func it = 0")
  case True
  then show ?thesis using assms
    by (intro exI [of _ q] exI [of _ "[]"] exI [of _ fs]) (simp add: call_work_func_def aq_call_def)
next
  case False
  have "wq_rel hs xs fs (q\<lparr>wq_calls := wq_calls q @ [it]\<rparr>) (a\<lparr>aq_calls := aq_calls a @ [it]\<rparr>)"
    and "wq_calls q = aq_calls a" using assms by (auto simp: wq_rel_def)
  then show ?thesis using ops_rel False by (simp add: call_work_func_def aq_call_def)
qed

lemma process_item_rel:
  assumes r: "wq_rel {} xs fs q a" and k: "k < length xs"
  shows "\<exists>q' xs' fs' new. process_work_item cb (xs ! k) q = Some q' \<and>
    wq_rel {} xs' fs' q' (fst (aq_process_item cb k a)) \<and>
    drop (snd (aq_process_item cb k a)) xs' = drop (Suc k) xs @ new"
proof -
  let ?n = "xs ! k" and ?it = "wq_item q (xs ! k)"
  have it: "aq_items a ! k = ?it" using r k by (auto simp: wq_rel_def dest!: sym [of _ "aq_items a"])
  have xs: "xs = take k xs @ ?n # drop (Suc k) xs" using k by (rule id_take_nth_drop)
  have first: "?n \<noteq> spa_list_first WORK_LIST (wq_links q) \<longleftrightarrow> k \<noteq> 0"
  proof -
    obtain y ys where y: "xs = y # ys" using k by (cases xs) auto
    have "spa_list_first WORK_LIST (wq_links q) = y" using wq_relD(1) [OF r] y is_list_first by simp
    then show ?thesis using wq_relD(3) [OF r] k y by (cases k) (auto dest: nth_mem)
  qed
  show ?thesis
  proof (cases "item_waits k ?it")
    case True
    then have "process_work_item cb ?n q = Some q" "aq_process_item cb k a = (a, k + 1)"
      using first it by (auto simp: process_work_item_def aq_process_item_def item_waits_def Let_def)
    then show ?thesis using r by (intro exI [of _ q] exI [of _ xs] exI [of _ fs] exI [of _ "[]"]) simp
  next
    case False
    let ?q1 = "q\<lparr>wq_links := spa_list_remove ?n (wq_links q), wq_n_queued := wq_n_queued q - 1\<rparr>"
    let ?a1 = "a\<lparr>aq_items := take k (aq_items a) @ drop (k + 1) (aq_items a)\<rparr>"
    let ?xs = "take k xs @ drop (Suc k) xs"
    have "spa_lists.two (wq_links q) WORK_LIST (take k xs @ ?n # drop (Suc k) xs) FREE_LIST fs"
      using r xs by (simp add: wq_rel_def)
    then have t: "spa_lists.two (spa_list_remove ?n (wq_links q)) WORK_LIST ?xs FREE_LIST fs"
      by (rule spa_lists.two_remove)
    have "distinct (take k xs @ ?n # drop (Suc k) xs)" using wq_relD(3) [OF r] xs by simp
    then have nx: "?n \<notin> set ?xs" by auto
    have "?n \<in> set xs" using k by simp
    then have nf: "?n \<notin> set fs" "?n \<in> {2..<wq_brk q}" using wq_relD(5) [OF r] r unfolding wq_rel_def by blast+
    have sub: "set ?xs \<subseteq> set xs" by (auto dest: in_set_takeD in_set_dropD)
    have "map (wq_item q) ?xs = take k (aq_items a) @ drop (k + 1) (aq_items a)"
      by (simp add: wq_rel_items [OF r] take_map drop_map)
    moreover have "(of_nat (length xs) :: u32) - 1 = of_nat (length ?xs)" using k by (simp add: of_nat_diff)
    ultimately have r1: "wq_rel {?n} ?xs fs ?q1 ?a1" using r t nx nf sub by (auto simp: wq_rel_def)
    obtain q2 new fs2 where q2: "call_work_func cb ?it ?q1 = Some q2"
      and r2: "wq_rel {?n} (?xs @ new) fs2 q2 (aq_call cb ?it ?a1)"
      using call_rel [OF r1] by blast
    let ?q3 = "q2\<lparr>wq_links := spa_list_insert (l_prev (wq_links q2) FREE_LIST) ?n (wq_links q2)\<rparr>"
    have "spa_lists.two (wq_links q2) FREE_LIST fs2 WORK_LIST (?xs @ new)"
      using r2 by (auto simp: wq_rel_def intro: spa_lists.two_sym)
    then have "spa_lists.two (spa_list_insert (l_prev (wq_links q2) FREE_LIST) ?n (wq_links q2)) FREE_LIST (fs2 @ [?n])
        WORK_LIST (?xs @ new)"
      using r2 nf by (intro spa_lists.two_append) (auto simp: wq_rel_def WORK_LIST_def FREE_LIST_def)
    then have "wq_rel {} (?xs @ new) (fs2 @ [?n]) ?q3 ((aq_call cb ?it ?a1)\<lparr>aq_free := aq_free (aq_call cb ?it ?a1) + 1\<rparr>)"
      using r2 by (auto simp: wq_rel_def intro: spa_lists.two_sym)
    moreover have "process_work_item cb ?n q = Some ?q3"
      using q2 False first by (auto simp: process_work_item_def item_waits_def Let_def)
    moreover have "aq_process_item cb k a = ((aq_call cb ?it ?a1)\<lparr>aq_free := aq_free (aq_call cb ?it ?a1) + 1\<rparr>, k)"
      using False it by (simp add: aq_process_item_def Let_def)
    moreover have "drop k (?xs @ new) = drop (Suc k) xs @ new" using k by simp
    ultimately show ?thesis
      by (intro exI [of _ ?q3] exI [of _ "?xs @ new"] exI [of _ "fs2 @ [?n]"] exI [of _ new]) simp
  qed
qed

text \<open>The loop, in both directions.\<close>

definition wq_refines :: "work_queue \<Rightarrow> aqueue \<Rightarrow> bool" where
  "wq_refines q a \<longleftrightarrow> (\<exists>xs fs. wq_rel {} xs fs q a)"

lemma next_in_list:
  assumes "is_list h WORK_LIST xs" and "k < length xs"
  shows "l_next h (xs ! k) = (if Suc k < length xs then xs ! Suc k else WORK_LIST)"
proof -
  have "l_next h (xs ! k) = (case drop (Suc k) xs of [] \<Rightarrow> WORK_LIST | b # _ \<Rightarrow> b)"
    using is_list_next [of h WORK_LIST "take k xs" "xs ! k" "drop (Suc k) xs"] assms id_take_nth_drop [OF assms(2)] by simp
  then show ?thesis
    by (cases "Suc k < length xs") (simp_all add: Cons_nth_drop_Suc [symmetric])
qed

lemma drop_head:
  assumes "drop k' xs' = drop (Suc k) xs @ new" and "Suc k < length xs"
  shows "k' < length xs' \<and> xs' ! k' = xs ! Suc k"
proof -
  have d: "drop k' xs' = xs ! Suc k # (drop (Suc (Suc k)) xs @ new)" using assms by (simp add: Cons_nth_drop_Suc [symmetric])
  then have "k' < length xs'" by (metis drop_all leI list.distinct(1))
  then show ?thesis using d by (simp add: Cons_nth_drop_Suc [symmetric])
qed

lemma node_not_head: "wq_rel hs xs fs q a \<Longrightarrow> k < length xs \<Longrightarrow> xs ! k \<noteq> WORK_LIST"
  using wq_relD(6) [of hs xs fs q a] nth_mem [of k xs] by (metis WORK_LIST_def)

lemma process_from_sound:
  assumes "process_work_items cb pos tmp q = Some r"
  shows "(pos = WORK_LIST \<longrightarrow> r = q) \<and>
    (\<forall>xs fs a k. wq_rel {} xs fs q a \<and> k < length xs \<and> pos = xs ! k \<and> tmp = l_next (wq_links q) pos \<longrightarrow>
       (\<exists>a'. aq_process_from cb k a = Some a' \<and> wq_refines r a'))"
proof (induction rule: process_work_items.raw_induct [OF _ assms])
  case (1 f cb pos tmp q r)
  show ?case
  proof (intro conjI impI allI, goal_cases)
    case 1
    then show ?case using \<open>(if pos = WORK_LIST then _ else _) = Some r\<close> by simp
  next
    case (2 xs fs a k)
    then have r: "wq_rel {} xs fs q a" and k: "k < length xs" and pos: "pos = xs ! k" and tmp: "tmp = l_next (wq_links q) pos"
      by blast+
    have nz: "pos \<noteq> WORK_LIST" using node_not_head [OF r k] pos by simp
    have tmp': "tmp = (if Suc k < length xs then xs ! Suc k else WORK_LIST)"
      using next_in_list [OF wq_relD(1) [OF r] k] pos tmp by simp
    obtain q' xs' fs' new where p: "process_work_item cb pos q = Some q'"
      and r': "wq_rel {} xs' fs' q' (fst (aq_process_item cb k a))"
      and d: "drop (snd (aq_process_item cb k a)) xs' = drop (Suc k) xs @ new"
      using process_item_rel [OF r k] pos by blast
    have f: "f cb tmp (l_next (wq_links q') tmp) q' = Some r" using 1(2) nz p by simp
    note IH = 1(1) [OF f]
    show ?case
    proof (cases "Suc k < length xs")
      case True
      have "\<exists>a'. aq_process_from cb (snd (aq_process_item cb k a)) (fst (aq_process_item cb k a)) = Some a' \<and> wq_refines r a'"
        using IH r' drop_head [OF d True] tmp' True by (metis (no_types))
      then show ?thesis using True wq_relD(10) [OF r] by (simp add: aq_process_from.simps [of cb k])
    next
      case False
      have "r = q'" using IH tmp' False by simp
      then show ?thesis using False k wq_relD(10) [OF r] r'
        by (auto simp: aq_process_from.simps [of cb k] wq_refines_def)
    qed
  qed
qed

lemma process_from_complete:
  assumes "aq_process_from cb k a = Some a'"
  shows "\<forall>xs fs q. wq_rel {} xs fs q a \<and> k < length xs \<longrightarrow>
    (\<exists>r. process_work_items cb (xs ! k) (l_next (wq_links q) (xs ! k)) q = Some r)"
proof (induction rule: aq_process_from.raw_induct [OF _ assms])
  case (1 f cb k a a')
  show ?case
  proof (intro allI impI, goal_cases)
    case (1 xs fs q)
    then have r: "wq_rel {} xs fs q a" and k: "k < length xs" by blast+
    let ?tmp = "l_next (wq_links q) (xs ! k)"
    have tmp: "?tmp = (if Suc k < length xs then xs ! Suc k else WORK_LIST)"
      by (rule next_in_list [OF wq_relD(1) [OF r] k])
    obtain q' xs' fs' new where p: "process_work_item cb (xs ! k) q = Some q'"
      and r': "wq_rel {} xs' fs' q' (fst (aq_process_item cb k a))"
      and d: "drop (snd (aq_process_item cb k a)) xs' = drop (Suc k) xs @ new"
      using process_item_rel [OF r k] by blast
    have step: "process_work_items cb (xs ! k) ?tmp q = process_work_items cb ?tmp (l_next (wq_links q') ?tmp) q'"
      using node_not_head [OF r k] p by (simp add: process_work_items.simps [of cb "xs ! k"])
    show ?case
    proof (cases "Suc k < length xs")
      case True
      have "f cb (snd (aq_process_item cb k a)) (fst (aq_process_item cb k a)) = Some a'"
        using \<open>(if k + 1 < _ then _ else _) = Some a'\<close> True wq_relD(10) [OF r] by simp
      note IH = \<open>\<And>cb k a a'. f cb k a = Some a' \<Longrightarrow> _\<close> [OF this]
      have h: "snd (aq_process_item cb k a) < length xs'" "xs' ! snd (aq_process_item cb k a) = xs ! Suc k"
        using drop_head [OF d True] by blast+
      then have "\<exists>r. process_work_items cb (xs' ! snd (aq_process_item cb k a))
          (l_next (wq_links q') (xs' ! snd (aq_process_item cb k a))) q' = Some r"
        using IH r' by blast
      then show ?thesis using step tmp True h by simp
    next
      case False
      then show ?thesis using step tmp by (simp add: process_work_items.simps)
    qed
  qed
qed

lemma process_refines:
  assumes "wq_refines q a"
  shows "rel_option wq_refines (process_work_queue cb q) (aq_process_from cb 0 (a\<lparr>aq_wakeup := False\<rparr>))"
proof -
  let ?q = "q\<lparr>wq_wakeup := False\<rparr>" and ?a = "a\<lparr>aq_wakeup := False\<rparr>"
  obtain xs fs where r: "wq_rel {} xs fs ?q ?a" using assms by (auto simp: wq_refines_def wq_rel_def)
  show ?thesis
  proof (cases xs)
    case Nil
    have "l_next (wq_links ?q) WORK_LIST = WORK_LIST"
      using is_list_empty [OF wq_relD(1) [OF r]] Nil by (simp add: spa_list_is_empty_def)
    then have "process_work_queue cb q = Some ?q"
      by (simp add: process_work_queue_def process_work_items.simps)
    moreover have "aq_process_from cb 0 ?a = Some ?a"
      using wq_relD(10) [OF r] Nil by (simp add: aq_process_from.simps)
    ultimately show ?thesis using r by (auto simp: wq_refines_def)
  next
    case (Cons x xs')
    have n: "l_next (wq_links ?q) WORK_LIST = xs ! 0"
      using is_list_first [of "wq_links ?q" WORK_LIST x xs'] wq_relD(1) [OF r] Cons by (simp add: spa_list_first_def)
    then have p: "process_work_queue cb q = process_work_items cb (xs ! 0) (l_next (wq_links ?q) (xs ! 0)) ?q"
      by (simp add: process_work_queue_def Let_def)
    have k: "0 < length xs" using Cons by simp
    show ?thesis
    proof (cases "process_work_queue cb q")
      case None
      then have "aq_process_from cb 0 ?a = None"
        using process_from_complete [of cb 0 ?a] r k p by (cases "aq_process_from cb 0 ?a") fastforce+
      then show ?thesis using None by simp
    next
      case (Some q')
      obtain a' where "aq_process_from cb 0 ?a = Some a'" "wq_refines q' a'"
        using process_from_sound [OF Some [unfolded p]] r k by blast
      then show ?thesis using Some by simp
    qed
  qed
qed

section \<open>No wakeup is lost\<close>

text \<open>What an operation does to a queue whose event is not raised: it raises it or appends pending items.\<close>

definition aq_extends :: "aqueue \<Rightarrow> aqueue \<Rightarrow> bool" where
  "aq_extends a a' \<longleftrightarrow> aq_wakeup a' \<or>
     (\<not> aq_wakeup a \<and> (\<exists>new. aq_items a' = aq_items a @ new \<and> (\<forall>it\<in>set new. wi_seq it \<noteq> SPA_ID_INVALID)))"

lemma aq_extends_refl: "aq_extends a a"
  by (auto simp: aq_extends_def)

lemma aq_op_extends: "aq_extends a (aq_op_run act a)"
proof (cases act)
  case (Wq_add ok obj res func data)
  then show ?thesis using async_seq_not_invalid [of res]
    by (auto simp: aq_extends_def aq_op_run_def Let_def work_item_seq_def)
next
  case (Wq_cancel obj i)
  then show ?thesis by (auto simp: aq_extends_def aq_op_run_def cancel_item_def cong: map_cong)
next
  case (Wq_complete obj seq res)
  then show ?thesis by (auto simp: aq_extends_def aq_op_run_def complete_item_def cong: map_cong)
qed

lemma aq_op_wakeup: "aq_wakeup a \<Longrightarrow> aq_wakeup (aq_op_run act a)"
  by (cases act) (auto simp: aq_op_run_def Let_def)

lemma aq_ops_extend: "aq_extends a (fold aq_op_run acts a)"
proof (induction acts rule: rev_induct)
  case Nil
  show ?case by (simp add: aq_extends_refl)
next
  case (snoc act acts)
  let ?b = "fold aq_op_run acts a"
  have "aq_extends ?b (aq_op_run act ?b)" by (rule aq_op_extends)
  then show ?case using snoc aq_op_wakeup [of ?b act] by (auto simp: aq_extends_def)
qed

lemma aq_call_extends: "aq_extends a (aq_call cb it a)"
  using aq_ops_extend [of "a\<lparr>aq_calls := aq_calls a @ [it]\<rparr>"] aq_extends_refl
  by (auto simp: aq_call_def aq_extends_def)

definition aq_quiet :: "nat \<Rightarrow> aqueue \<Rightarrow> bool" where
  "aq_quiet n a \<longleftrightarrow> aq_wakeup a \<or> (\<forall>k < min n (length (aq_items a)). item_waits k (aq_items a ! k))"

lemma aq_extends_quiet:
  assumes e: "aq_extends a a'" and q: "aq_quiet n a" and m: "m \<le> n \<or> length (aq_items a) \<le> n"
  shows "aq_quiet m a'"
proof (cases "aq_wakeup a'")
  case False
  then obtain new where new: "\<not> aq_wakeup a" "aq_items a' = aq_items a @ new" "\<And>it. it \<in> set new \<Longrightarrow> wi_seq it \<noteq> SPA_ID_INVALID"
    using e by (auto simp: aq_extends_def)
  have "item_waits k (aq_items a' ! k)" if "k < m" "k < length (aq_items a')" for k
  proof (cases "k < length (aq_items a)")
    case True
    then show ?thesis using new(1,2) q m that by (auto simp: aq_quiet_def nth_append)
  next
    case False
    then have "aq_items a' ! k \<in> set new" using that new(2) by (simp add: nth_append)
    then show ?thesis using new(3) by (auto simp: item_waits_def)
  qed
  then show ?thesis by (simp add: aq_quiet_def)
qed (simp add: aq_quiet_def)

lemma aq_op_length: "length (aq_items a) \<le> length (aq_items (aq_op_run act a))"
  by (cases act) (auto simp: aq_op_run_def Let_def)

lemma aq_call_length: "length (aq_items a) \<le> length (aq_items (aq_call cb it a))"
proof -
  have "length (aq_items a) \<le> length (aq_items (fold aq_op_run acts a))" for acts a
  proof (induction acts arbitrary: a)
    case (Cons act acts)
    then show ?case using le_trans [OF aq_op_length Cons.IH] by simp
  qed simp
  from this [of "a\<lparr>aq_calls := aq_calls a @ [it]\<rparr>"] show ?thesis by (simp add: aq_call_def)
qed

lemma process_item_length:
  assumes "k < length (aq_items a)"
  shows "snd (aq_process_item cb k a) \<le> length (aq_items (fst (aq_process_item cb k a)))"
  using assms aq_call_length [of "a\<lparr>aq_items := take k (aq_items a) @ drop (k + 1) (aq_items a)\<rparr>" cb "aq_items a ! k"]
  by (auto simp: aq_process_item_def Let_def)

lemma process_item_quiet:
  assumes q: "aq_quiet k a" and k: "k < length (aq_items a)"
  shows "aq_quiet (if length (aq_items a) = Suc k then m else snd (aq_process_item cb k a)) (fst (aq_process_item cb k a))"
proof (cases "item_waits k (aq_items a ! k)")
  case True
  then have "aq_quiet (Suc k) a" using q by (auto simp: aq_quiet_def less_Suc_eq)
  then show ?thesis using True by (auto simp: aq_process_item_def aq_quiet_def min_def split: if_splits)
next
  case False
  let ?a1 = "a\<lparr>aq_items := take k (aq_items a) @ drop (k + 1) (aq_items a)\<rparr>"
  have q1: "aq_quiet k ?a1" using q k by (auto simp: aq_quiet_def nth_append)
  have "aq_quiet (if length (aq_items a) = Suc k then m else k) (aq_call cb (aq_items a ! k) ?a1)"
    by (rule aq_extends_quiet [OF aq_call_extends q1]) (use k in auto)
  then show ?thesis using False
    by (cases "length (aq_items a) = Suc k") (simp_all add: aq_process_item_def Let_def aq_quiet_def)
qed

lemma process_from_quiet:
  assumes "aq_process_from cb k a = Some a'"
  shows "aq_quiet k a \<longrightarrow> k \<le> length (aq_items a) \<longrightarrow> aq_quiet (length (aq_items a')) a'"
proof (induction rule: aq_process_from.raw_induct [OF _ assms])
  case (1 f cb k a a')
  show ?case
  proof (intro impI)
    assume q: "aq_quiet k a" and le: "k \<le> length (aq_items a)"
    note body = 1(2)
    show "aq_quiet (length (aq_items a')) a'"
    proof (cases "k + 1 < length (aq_items a)")
      case True
      then have "f cb (snd (aq_process_item cb k a)) (fst (aq_process_item cb k a)) = Some a'" using body by simp
      from 1(1) [OF this] show ?thesis
        using process_item_quiet [OF q, of _ cb] process_item_length [of k a cb] True by simp
    next
      case False
      then show ?thesis using body q le process_item_quiet [OF q, of "length (aq_items a')" cb]
        by (auto split: if_splits)
    qed
  qed
qed

lemma step_quiet:
  assumes "aq_step_run cb st a = Some a'" and "aq_quiet (length (aq_items a)) a"
  shows "aq_quiet (length (aq_items a')) a'"
proof (cases st)
  case (Wq_do act)
  then show ?thesis
    using assms aq_extends_quiet [OF aq_op_extends [of a act] assms(2)] by (auto simp: aq_step_run_def)
next
  case Wq_process
  then show ?thesis using assms(1) process_from_quiet [of cb 0 _ a'] by (simp add: aq_step_run_def aq_quiet_def)
qed

lemma run_quiet:
  "\<lbrakk>opt_fold (aq_step_run cb) steps a = Some a'; aq_quiet (length (aq_items a)) a\<rbrakk> \<Longrightarrow> aq_quiet (length (aq_items a')) a'"
  by (induction steps arbitrary: a) (auto split: option.splits dest: step_quiet)

lemma step_refines: "wq_refines q a \<Longrightarrow> rel_option wq_refines (wq_step_run cb st q) (aq_step_run cb st a)"
proof (cases st)
  case (Wq_do act)
  assume "wq_refines q a"
  then show ?thesis using op_rel [of "{}" _ _ q a act] Wq_do by (fastforce simp: wq_refines_def wq_step_run_def aq_step_run_def)
next
  case Wq_process
  assume "wq_refines q a"
  then show ?thesis using process_refines Wq_process by (simp add: wq_step_run_def aq_step_run_def)
qed

lemma run_refines:
  "wq_refines q a \<Longrightarrow> rel_option wq_refines (opt_fold (wq_step_run cb) steps q) (opt_fold (aq_step_run cb) steps a)"
proof (induction steps arbitrary: q a)
  case (Cons st steps)
  show ?case using step_refines [OF Cons.prems, of cb st] Cons.IH
    by (cases "wq_step_run cb st q"; cases "aq_step_run cb st a") auto
qed simp

lemma new_refines: "wq_refines pinos_work_queue_new aq_new"
  using wq_new_rel by (auto simp: wq_refines_def)

section \<open>Passes end\<close>

definition is_add :: "wq_op \<Rightarrow> bool" where
  "is_add act = (case act of Wq_add _ _ _ _ _ \<Rightarrow> True | _ \<Rightarrow> False)"

lemma op_keeps_length: "\<not> is_add act \<Longrightarrow> length (aq_items (aq_op_run act a)) = length (aq_items a)"
  by (cases act) (auto simp: is_add_def aq_op_run_def)

lemma ops_keep_length:
  "\<forall>act\<in>set acts. \<not> is_add act \<Longrightarrow> length (aq_items (fold aq_op_run acts a)) = length (aq_items a)"
  by (induction acts arbitrary: a) (auto simp: op_keeps_length)

lemma process_from_returns:
  assumes "\<forall>n it. \<forall>act\<in>set (cb n it). \<not> is_add act"
  shows "\<exists>a'. aq_process_from cb k a = Some a'"
proof (induction "length (aq_items a) - k" arbitrary: k a rule: less_induct)
  case less
  show ?case
  proof (cases "k + 1 < length (aq_items a)")
    case True
    have "length (aq_items (fst (aq_process_item cb k a))) - snd (aq_process_item cb k a) < length (aq_items a) - k"
      using True by (auto simp: aq_process_item_def Let_def aq_call_def ops_keep_length assms)
    from less [OF this] show ?thesis using True by (simp add: aq_process_from.simps [of cb k])
  qed (simp add: aq_process_from.simps)
qed

section \<open>Properties\<close>

text \<open>C10. The nodes, pointers and counters of the work queue implement a plain list of items: from the empty queue
  on, every sequence of calls and of passes of the wakeup event, with callbacks that use the queue themselves, gives
  the list of the abstract queue in its order, the same functions called in the same order, and returns exactly when
  the abstract run does.\<close>

theorem work_queue_refines:
  "rel_option wq_refines (opt_fold (wq_step_run cb) steps pinos_work_queue_new) (opt_fold (aq_step_run cb) steps aq_new)"
  by (rule run_refines [OF new_refines])

text \<open>C19. No wakeup is lost: whenever the event is not raised, every item in the work list waits, either for
  its asynchronous operation or, a synchronising item, for the items before it.\<close>

theorem work_queue_no_lost_wakeup:
  assumes "opt_fold (wq_step_run cb) steps pinos_work_queue_new = Some q" and "\<not> wq_wakeup q"
  shows "\<exists>xs. is_list (wq_links q) WORK_LIST xs \<and> (\<forall>k<length xs. item_waits k (wq_item q (xs ! k)))"
proof -
  have "rel_option wq_refines (Some q) (opt_fold (aq_step_run cb) steps aq_new)"
    using run_refines [OF new_refines, of cb steps] assms(1) by simp
  then obtain a xs fs where a: "opt_fold (aq_step_run cb) steps aq_new = Some a" and r: "wq_rel {} xs fs q a"
    by (cases "opt_fold (aq_step_run cb) steps aq_new") (auto simp: wq_refines_def)
  have "aq_quiet (length (aq_items a)) a" by (rule run_quiet [OF a]) (simp add: aq_quiet_def aq_new_def)
  moreover have "\<not> aq_wakeup a" using r assms(2) by (simp add: wq_rel_def)
  ultimately have "\<forall>k<length xs. item_waits k (wq_item q (xs ! k))"
    by (auto simp: aq_quiet_def wq_rel_items [OF r])
  then show ?thesis using wq_relD(1) [OF r] by blast
qed

definition no_callbacks :: wq_callbacks where "no_callbacks _ _ = []"

theorem work_queue_no_lost_wakeup_witness:
  "\<exists>q xs. opt_fold (wq_step_run no_callbacks) [Wq_do (Wq_add True 8 (SPA_RESULT_RETURN_ASYNC 5) 16 0)] pinos_work_queue_new
     = Some q \<and> is_list (wq_links q) WORK_LIST xs \<and> (\<forall>k<length xs. item_waits k (wq_item q (xs ! k)))"
proof -
  let ?steps = "[Wq_do (Wq_add True 8 (SPA_RESULT_RETURN_ASYNC 5) 16 0)]"
  obtain q where q: "opt_fold (wq_step_run no_callbacks) ?steps pinos_work_queue_new = Some q"
    by (simp add: wq_step_run_def wq_op_run_def)
  then have "\<not> wq_wakeup q"
    by (auto simp: wq_step_run_def wq_op_run_def pinos_work_queue_add_def work_item_alloc_def is_async_return_async
        pinos_work_queue_new_def spa_list_is_empty_def spa_list_init_def FREE_LIST_def WORK_LIST_def)
  from work_queue_no_lost_wakeup [OF q this] q show ?thesis by blast
qed

text \<open>A run returns when the functions of the items add no work: every pass of the wakeup event ends, whatever
  the functions cancel or complete.\<close>

theorem work_queue_passes_return:
  assumes "\<forall>n it. \<forall>act\<in>set (cb n it). \<not> is_add act"
  shows "\<exists>q. opt_fold (wq_step_run cb) steps pinos_work_queue_new = Some q"
proof -
  have "\<exists>a'. opt_fold (aq_step_run cb) steps a = Some a'" for a
  proof (induction steps arbitrary: a)
    case (Cons st steps)
    obtain a1 where "aq_step_run cb st a = Some a1"
      using process_from_returns [OF assms] by (cases st) (auto simp: aq_step_run_def)
    then show ?case using Cons.IH by simp
  qed simp
  then obtain a where "opt_fold (aq_step_run cb) steps aq_new = Some a" by blast
  moreover have "rel_option wq_refines (opt_fold (wq_step_run cb) steps pinos_work_queue_new) (opt_fold (aq_step_run cb) steps aq_new)"
    by (rule run_refines [OF new_refines])
  ultimately show ?thesis by (cases "opt_fold (wq_step_run cb) steps pinos_work_queue_new") auto
qed

theorem work_queue_passes_return_witness:
  "\<exists>q. opt_fold (wq_step_run no_callbacks) [Wq_do (Wq_add True 8 SPA_RESULT_WAIT_SYNC 16 0), Wq_process] pinos_work_queue_new
     = Some q"
  by (rule work_queue_passes_return) (simp add: no_callbacks_def)

end
