(* ===== verification/Spa_Props.thy ===== *)
theory Spa_Props
  imports Spa_Pod
begin

text \<open>
  Format negotiation: the filtering of a list of properties by another one (\<^verbatim>\<open>spa/lib/props.c\<close>) and of formats
  (\<^verbatim>\<open>spa/lib/format.c\<close>). A property is its decoded form: key, flags, the type and size of its values, and the
  values, the first of which is the value or default and the others are the alternatives. Reading behind the values
  is \<open>None\<close>. The difference of two floating-point numbers, converted to \<^verbatim>\<open>int\<close>, is the parameter \<open>fdiff\<close>.
\<close>

section \<open>Values and properties\<close>

datatype pod_value = Pv_word u32 | Pv_long u64 | Pv_string cstr | Pv_pair u32 u32

record spa_prop =
  sp_key :: u32
  sp_flags :: u32
  sp_type :: u32
  sp_size :: u32
  sp_values :: "pod_value list"

datatype pod_entry = Entry_prop spa_prop | Entry_other

definition SPA_POD_PROP_RANGE_NONE :: u32 where "SPA_POD_PROP_RANGE_NONE = 0"
definition SPA_POD_PROP_RANGE_MIN_MAX :: u32 where "SPA_POD_PROP_RANGE_MIN_MAX = 1"
definition SPA_POD_PROP_RANGE_STEP :: u32 where "SPA_POD_PROP_RANGE_STEP = 2"
definition SPA_POD_PROP_RANGE_ENUM :: u32 where "SPA_POD_PROP_RANGE_ENUM = 3"
definition SPA_POD_PROP_RANGE_FLAGS :: u32 where "SPA_POD_PROP_RANGE_FLAGS = 4"
definition SPA_POD_PROP_RANGE_MASK :: u32 where "SPA_POD_PROP_RANGE_MASK = 0xf"
definition SPA_POD_PROP_FLAG_UNSET :: u32 where "SPA_POD_PROP_FLAG_UNSET = 0x10"

lemmas prop_range_defs = SPA_POD_PROP_RANGE_NONE_def SPA_POD_PROP_RANGE_MIN_MAX_def SPA_POD_PROP_RANGE_STEP_def
  SPA_POD_PROP_RANGE_ENUM_def SPA_POD_PROP_RANGE_FLAGS_def SPA_POD_PROP_RANGE_MASK_def SPA_POD_PROP_FLAG_UNSET_def

definition prop_range :: "spa_prop \<Rightarrow> u32" where
  "prop_range p = sp_flags p AND SPA_POD_PROP_RANGE_MASK"

definition prop_unset :: "spa_prop \<Rightarrow> bool" where
  "prop_unset p \<longleftrightarrow> sp_flags p AND SPA_POD_PROP_FLAG_UNSET \<noteq> 0"

section \<open>Comparing values\<close>

fun cmp_cstr :: "cstr \<Rightarrow> cstr \<Rightarrow> int" where
  "cmp_cstr [] [] = 0"
| "cmp_cstr [] (y # ys) = - 1"
| "cmp_cstr (x # xs) [] = 1"
| "cmp_cstr (x # xs) (y # ys) = (if x < y then - 1 else if y < x then 1 else cmp_cstr xs ys)"

text \<open>The differences of integers are converted to a 32-bit \<^verbatim>\<open>int\<close>; values of another type than \<open>t\<close> do not
  occur in a property of type \<open>t\<close>.\<close>

definition compare_value :: "(u64 \<Rightarrow> u64 \<Rightarrow> int) \<Rightarrow> u32 \<Rightarrow> pod_value \<Rightarrow> pod_value \<Rightarrow> int" where
  "compare_value fdiff t r1 r2 =
     (if t = SPA_POD_TYPE_BOOL \<or> t = SPA_POD_TYPE_ID
      then (case (r1, r2) of (Pv_word a, Pv_word b) \<Rightarrow> if a = b then 0 else 1 | _ \<Rightarrow> 0)
      else if t = SPA_POD_TYPE_INT then (case (r1, r2) of (Pv_word a, Pv_word b) \<Rightarrow> sint (a - b) | _ \<Rightarrow> 0)
      else if t = SPA_POD_TYPE_LONG
      then (case (r1, r2) of (Pv_long a, Pv_long b) \<Rightarrow> sint (ucast (a - b) :: u32) | _ \<Rightarrow> 0)
      else if t = SPA_POD_TYPE_FLOAT
      then (case (r1, r2) of (Pv_word a, Pv_word b) \<Rightarrow> fdiff (ucast a) (ucast b) | _ \<Rightarrow> 0)
      else if t = SPA_POD_TYPE_DOUBLE then (case (r1, r2) of (Pv_long a, Pv_long b) \<Rightarrow> fdiff a b | _ \<Rightarrow> 0)
      else if t = SPA_POD_TYPE_STRING then (case (r1, r2) of (Pv_string a, Pv_string b) \<Rightarrow> cmp_cstr a b | _ \<Rightarrow> 0)
      else if t = SPA_POD_TYPE_RECTANGLE
      then (case (r1, r2) of
              (Pv_pair w1 h1, Pv_pair w2 h2) \<Rightarrow>
                if w1 = w2 \<and> h1 = h2 then 0 else if w1 < w2 \<or> h1 < h2 then - 1 else 1
            | _ \<Rightarrow> 0)
      else if t = SPA_POD_TYPE_FRACTION
      then (case (r1, r2) of
              (Pv_pair num1 denom1, Pv_pair num2 denom2) \<Rightarrow>
                (let n1 = ucast num1 * ucast denom2 :: u64; n2 = ucast num2 * ucast denom1 in
                 if n1 < n2 then - 1 else if n1 > n2 then 1 else 0)
            | _ \<Rightarrow> 0)
      else 0)"

section \<open>Filtering\<close>

definition nth_value :: "pod_value list \<Rightarrow> nat \<Rightarrow> pod_value option" where
  "nth_value vs i = (if i < length vs then Some (vs ! i) else None)"

text \<open>The default is moved into the range, or to the first alternative when it is none of them; a single
  alternative becomes the value.\<close>

definition fix_default_minmax :: "(u64 \<Rightarrow> u64 \<Rightarrow> int) \<Rightarrow> spa_prop \<Rightarrow> spa_prop option" where
  "fix_default_minmax fdiff p =
     (case sp_values p of
        v # lo # hi # rest \<Rightarrow>
          (let v1 = if compare_value fdiff (sp_type p) v lo < 0 then lo else v;
               v2 = if compare_value fdiff (sp_type p) v1 hi > 0 then hi else v1 in
           Some (p\<lparr>sp_values := v2 # lo # hi # rest\<rparr>))
      | _ \<Rightarrow> None)"

definition fix_default_enum :: "(u64 \<Rightarrow> u64 \<Rightarrow> int) \<Rightarrow> spa_prop \<Rightarrow> spa_prop option" where
  "fix_default_enum fdiff p =
     (case sp_values p of
        [] \<Rightarrow> None
      | v # alts \<Rightarrow>
          (let best = (case find (\<lambda>a. compare_value fdiff (sp_type p) v a = 0) alts of
                         Some a \<Rightarrow> a
                       | None \<Rightarrow> (case alts of [] \<Rightarrow> v | a # _ \<Rightarrow> a));
               flags = (if length alts = 1
                        then (sp_flags p AND NOT SPA_POD_PROP_FLAG_UNSET AND NOT SPA_POD_PROP_RANGE_MASK)
                               OR SPA_POD_PROP_RANGE_NONE
                        else sp_flags p) in
           Some (p\<lparr>sp_values := best # alts, sp_flags := flags\<rparr>)))"

definition fix_default :: "(u64 \<Rightarrow> u64 \<Rightarrow> int) \<Rightarrow> spa_prop \<Rightarrow> spa_prop option" where
  "fix_default fdiff p =
     (if prop_range p = SPA_POD_PROP_RANGE_MIN_MAX \<or> prop_range p = SPA_POD_PROP_RANGE_STEP then fix_default_minmax fdiff p
      else if prop_range p = SPA_POD_PROP_RANGE_ENUM then fix_default_enum fdiff p
      else Some p)"

fun find_prop :: "pod_entry list \<Rightarrow> u32 \<Rightarrow> spa_prop option" where
  "find_prop [] key = None"
| "find_prop (Entry_other # es) key = find_prop es key"
| "find_prop (Entry_prop p # es) key = (if sp_key p = key then Some p else find_prop es key)"

text \<open>The alternatives that count: behind the default when the property is unset, otherwise its value; and how many.\<close>

definition prop_alts :: "spa_prop \<Rightarrow> pod_value list" where
  "prop_alts p = (if prop_unset p then drop 1 (sp_values p) else sp_values p)"

definition prop_nalts :: "spa_prop \<Rightarrow> nat" where
  "prop_nalts p = (if prop_unset p then length (sp_values p) - 1 else 1)"

datatype filter_result = F_fault | F_error spa_result | F_ok "pod_value list" u32

definition range_enum_unset :: u32 where
  "range_enum_unset = SPA_POD_PROP_RANGE_ENUM OR SPA_POD_PROP_FLAG_UNSET"

text \<open>The alternatives of the result and its flags, by the kinds of the two ranges.\<close>

definition filter_equal :: "(u64 \<Rightarrow> u64 \<Rightarrow> int) \<Rightarrow> spa_prop \<Rightarrow> spa_prop \<Rightarrow> filter_result" where
  "filter_equal fdiff p1 p2 =
     (if length (prop_alts p1) < prop_nalts p1 \<or> (0 < prop_nalts p1 \<and> length (prop_alts p2) < prop_nalts p2)
      then F_fault
      else let vs = concat (map (\<lambda>a1. map (\<lambda>_. a1)
               (filter (\<lambda>a2. compare_value fdiff (sp_type p1) a1 a2 = 0) (take (prop_nalts p2) (prop_alts p2))))
               (take (prop_nalts p1) (prop_alts p1))) in
           if vs = [] then F_error SPA_RESULT_INCOMPATIBLE_PROPS else F_ok vs range_enum_unset)"

text \<open>The values of one property inside the range of another one; the types agree. Both bounds are read for every
  value here; the code reads the upper one only for a value that is not below the lower one.\<close>

definition filter_range :: "(u64 \<Rightarrow> u64 \<Rightarrow> int) \<Rightarrow> spa_prop \<Rightarrow> spa_prop \<Rightarrow> filter_result" where
  "filter_range fdiff p rng =
     (case (nth_value (prop_alts rng) 0, nth_value (prop_alts rng) 1) of
        (Some lo, Some hi) \<Rightarrow>
          if length (prop_alts p) < prop_nalts p then F_fault
          else let vs = filter (\<lambda>a. \<not> compare_value fdiff (sp_type p) a lo < 0 \<and> \<not> compare_value fdiff (sp_type p) a hi > 0)
                 (take (prop_nalts p) (prop_alts p)) in
               if vs = [] then F_error SPA_RESULT_INCOMPATIBLE_PROPS else F_ok vs range_enum_unset
      | _ \<Rightarrow> if prop_nalts p = 0 then F_error SPA_RESULT_INCOMPATIBLE_PROPS else F_fault)"

definition filter_ranges :: "(u64 \<Rightarrow> u64 \<Rightarrow> int) \<Rightarrow> spa_prop \<Rightarrow> spa_prop \<Rightarrow> filter_result" where
  "filter_ranges fdiff p1 p2 =
     (case (prop_alts p1, prop_alts p2) of
        (lo1 # hi1 # _, lo2 # hi2 # _) \<Rightarrow>
          F_ok [if compare_value fdiff (sp_type p1) lo1 lo2 < 0 then lo2 else lo1,
                if compare_value fdiff (sp_type p1) hi1 hi2 < 0 then hi1 else hi2]
               (SPA_POD_PROP_RANGE_MIN_MAX OR SPA_POD_PROP_FLAG_UNSET)
      | _ \<Rightarrow> F_fault)"

definition filter_alternatives :: "(u64 \<Rightarrow> u64 \<Rightarrow> int) \<Rightarrow> spa_prop \<Rightarrow> spa_prop \<Rightarrow> filter_result" where
  "filter_alternatives fdiff p1 p2 =
     (let rt1 = prop_range p1; rt2 = prop_range p2;
          listed = {SPA_POD_PROP_RANGE_NONE, SPA_POD_PROP_RANGE_ENUM};
          known = {SPA_POD_PROP_RANGE_NONE, SPA_POD_PROP_RANGE_MIN_MAX, SPA_POD_PROP_RANGE_STEP,
                   SPA_POD_PROP_RANGE_ENUM, SPA_POD_PROP_RANGE_FLAGS} in
      if rt1 \<in> listed \<and> rt2 \<in> listed then filter_equal fdiff p1 p2
      else if rt1 \<in> listed \<and> rt2 = SPA_POD_PROP_RANGE_MIN_MAX then filter_range fdiff p1 p2
      else if rt1 = SPA_POD_PROP_RANGE_MIN_MAX \<and> rt2 \<in> listed then filter_range fdiff p2 p1
      else if rt1 = SPA_POD_PROP_RANGE_MIN_MAX \<and> rt2 = SPA_POD_PROP_RANGE_MIN_MAX then filter_ranges fdiff p1 p2
      else if rt1 \<in> known \<and> rt2 \<in> known then F_error SPA_RESULT_NOT_IMPLEMENTED
      else F_ok [] 0)"

definition filter_prop :: "(u64 \<Rightarrow> u64 \<Rightarrow> int) \<Rightarrow> spa_prop \<Rightarrow> spa_prop \<Rightarrow> (spa_result + spa_prop) option" where
  "filter_prop fdiff p1 p2 =
     (if sp_type p1 \<noteq> sp_type p2 then Some (Inl SPA_RESULT_INCOMPATIBLE_PROPS)
      else case nth_value (sp_values p1) 0 of
        None \<Rightarrow> None
      | Some v \<Rightarrow>
          (case filter_alternatives fdiff p1 p2 of
             F_fault \<Rightarrow> None
           | F_error res \<Rightarrow> Some (Inl res)
           | F_ok vs flags \<Rightarrow>
               map_option Inr (fix_default fdiff
                 \<lparr>sp_key = sp_key p1, sp_flags = flags, sp_type = sp_type p1, sp_size = sp_size p1, sp_values = v # vs\<rparr>)))"

text \<open>The result and the properties that were completed in the builder.\<close>

fun spa_props_filter ::
  "(u64 \<Rightarrow> u64 \<Rightarrow> int) \<Rightarrow> pod_entry list \<Rightarrow> pod_entry list option \<Rightarrow> (spa_result \<times> spa_prop list) option" where
  "spa_props_filter fdiff [] flt = Some (SPA_RESULT_OK, [])"
| "spa_props_filter fdiff (Entry_other # es) flt = spa_props_filter fdiff es flt"
| "spa_props_filter fdiff (Entry_prop p1 # es) flt =
     (case (case flt of None \<Rightarrow> None | Some fs \<Rightarrow> find_prop fs (sp_key p1)) of
        None \<Rightarrow> map_option (map_prod id (Cons p1)) (spa_props_filter fdiff es flt)
      | Some p2 \<Rightarrow>
          (case filter_prop fdiff p1 p2 of
             None \<Rightarrow> None
           | Some (Inl res) \<Rightarrow> Some (res, [])
           | Some (Inr np) \<Rightarrow> map_option (map_prod id (Cons np)) (spa_props_filter fdiff es flt)))"

record spa_format =
  fmt_type :: u32
  fmt_media_type :: u32
  fmt_media_subtype :: u32
  fmt_props :: "pod_entry list"

definition spa_format_filter ::
  "(u64 \<Rightarrow> u64 \<Rightarrow> int) \<Rightarrow> spa_format option \<Rightarrow> spa_format option \<Rightarrow> bool \<Rightarrow> (spa_result \<times> spa_format option) option" where
  "spa_format_filter fdiff fmt flt has_result =
     (case fmt of
        None \<Rightarrow> Some (SPA_RESULT_INVALID_ARGUMENTS, None)
      | Some f \<Rightarrow>
          if \<not> has_result then Some (SPA_RESULT_INVALID_ARGUMENTS, None)
          else
            (case flt of
               None \<Rightarrow> Some (SPA_RESULT_OK, Some f)
             | Some g \<Rightarrow>
                 if fmt_media_type g \<noteq> fmt_media_type f \<or> fmt_media_subtype g \<noteq> fmt_media_subtype f
                 then Some (SPA_RESULT_INVALID_MEDIA_TYPE, None)
                 else map_option (\<lambda>(res, ps). (res, Some \<lparr>fmt_type = fmt_type g, fmt_media_type = fmt_media_type g,
                        fmt_media_subtype = fmt_media_subtype g, fmt_props = map Entry_prop ps\<rparr>))
                        (spa_props_filter fdiff (fmt_props f) (Some (fmt_props g)))))"

section \<open>Comparison as an order\<close>

locale value_equality =
  fixes cmp :: "'v \<Rightarrow> 'v \<Rightarrow> int" and ok :: "'v \<Rightarrow> bool"
  assumes eq_refl: "ok a \<Longrightarrow> cmp a a = 0"
    and eq_sym: "\<lbrakk>ok a; ok b; cmp a b = 0\<rbrakk> \<Longrightarrow> cmp b a = 0"
    and eq_trans: "\<lbrakk>ok a; ok b; ok c; cmp a b = 0; cmp b c = 0\<rbrakk> \<Longrightarrow> cmp a c = 0"
begin

lemma common_values:
  assumes "\<forall>a\<in>A. ok a" and "\<forall>b\<in>B. ok b" and "ok v"
  shows "(\<exists>a\<in>A. (\<exists>b\<in>B. cmp a b = 0) \<and> cmp a v = 0) \<longleftrightarrow> (\<exists>a\<in>A. cmp a v = 0) \<and> (\<exists>b\<in>B. cmp b v = 0)"
  using assms eq_sym eq_trans by meson

end

locale value_order =
  fixes cmp :: "'v \<Rightarrow> 'v \<Rightarrow> int" and ok :: "'v \<Rightarrow> bool"
  assumes less_greater: "\<lbrakk>ok a; ok b\<rbrakk> \<Longrightarrow> cmp a b > 0 \<longleftrightarrow> cmp b a < 0"
    and le_trans: "\<lbrakk>ok a; ok b; ok c; cmp a b \<le> 0; cmp b c \<le> 0\<rbrakk> \<Longrightarrow> cmp a c \<le> 0"
begin

lemma le_iff: "\<lbrakk>ok a; ok b\<rbrakk> \<Longrightarrow> \<not> cmp a b < 0 \<longleftrightarrow> cmp b a \<le> 0"
  using less_greater [of b a] by linarith

lemma range_values:
  assumes "\<forall>a\<in>A. ok a" and "ok v" and "ok lo" and "ok hi"
  shows "(\<exists>a\<in>A. (\<not> cmp a lo < 0 \<and> \<not> cmp a hi > 0) \<and> cmp a v = 0) \<longleftrightarrow>
    (\<exists>a\<in>A. cmp a v = 0) \<and> \<not> cmp v lo < 0 \<and> \<not> cmp v hi > 0"
proof -
  have "(\<not> cmp a lo < 0 \<and> \<not> cmp a hi > 0) \<longleftrightarrow> (\<not> cmp v lo < 0 \<and> \<not> cmp v hi > 0)" if "a \<in> A" "cmp a v = 0" for a
  proof -
    have a: "ok a" "cmp a v \<le> 0" "cmp v a \<le> 0" using assms(1) that less_greater [of v a] assms(2) by auto
    have "cmp lo a \<le> 0 \<longleftrightarrow> cmp lo v \<le> 0"
      using le_trans [of lo a v] le_trans [of lo v a] a assms(2,3) by blast
    moreover have "cmp a hi \<le> 0 \<longleftrightarrow> cmp v hi \<le> 0"
      using le_trans [of a v hi] le_trans [of v a hi] a assms(2,4) by blast
    ultimately show ?thesis using le_iff [of a lo] le_iff [of v lo] a(1) assms(2,3) by (simp add: not_less)
  qed
  then show ?thesis by blast
qed

lemma max_lower:
  assumes "ok v" and "ok a" and "ok b"
  shows "\<not> cmp v (if cmp a b < 0 then b else a) < 0 \<longleftrightarrow> \<not> cmp v a < 0 \<and> \<not> cmp v b < 0"
proof (cases "cmp a b < 0")
  case True
  then show ?thesis using le_iff [of v a] le_iff [of v b] le_trans [of a b v] assms by (auto simp: not_less)
next
  case False
  then have "cmp b a \<le> 0" using le_iff assms by blast
  then show ?thesis using False le_iff [of v a] le_iff [of v b] le_trans [of b a v] assms by (auto simp: not_less)
qed

text \<open>Moving a value into a range that is not empty.\<close>

lemma clamp_in_range:
  assumes "ok d" and "ok lo" and "ok hi" and "\<exists>v. ok v \<and> \<not> cmp v lo < 0 \<and> \<not> cmp v hi > 0"
  defines "v1 \<equiv> if cmp d lo < 0 then lo else d"
  defines "v2 \<equiv> if cmp v1 hi > 0 then hi else v1"
  shows "\<not> cmp v2 lo < 0 \<and> \<not> cmp v2 hi > 0"
proof -
  have le: "cmp lo hi \<le> 0" using assms(4) le_iff le_trans [of lo _ hi] assms(2,3) by (metis not_less)
  have "cmp lo lo \<le> 0" "cmp hi hi \<le> 0" using less_greater [of lo lo] less_greater [of hi hi] assms(2,3) by linarith+
  then have "ok v1" "\<not> cmp v1 lo < 0" using le_iff [of lo lo] assms(1,2) by (auto simp: v1_def)
  then show ?thesis using le le_iff [of hi lo] assms(2,3) \<open>cmp hi hi \<le> 0\<close> by (auto simp: v2_def)
qed

lemma min_upper:
  assumes "ok v" and "ok a" and "ok b"
  shows "\<not> cmp v (if cmp a b < 0 then a else b) > 0 \<longleftrightarrow> \<not> cmp v a > 0 \<and> \<not> cmp v b > 0"
proof (cases "cmp a b < 0")
  case True
  then show ?thesis using le_trans [of v a b] assms by (auto simp: not_less)
next
  case False
  then have "cmp b a \<le> 0" using le_iff assms by blast
  then show ?thesis using False le_trans [of v b a] assms by (auto simp: not_less)
qed

end

sublocale value_order \<subseteq> value_equality cmp ok
proof
  show refl: "cmp a a = 0" if "ok a" for a using less_greater [OF that that] by linarith
  show "cmp b a = 0" if "ok a" "ok b" "cmp a b = 0" for a b
    using that less_greater [of a b] less_greater [of b a] by linarith
  show "cmp a c = 0" if "ok a" "ok b" "ok c" "cmp a b = 0" "cmp b c = 0" for a b c
    using that le_trans [of a b c] le_trans [of c b a] less_greater [of a b] less_greater [of b a]
      less_greater [of b c] less_greater [of c b] less_greater [of c a] less_greater [of a c] by linarith
qed

text \<open>The values on which the comparison of a type is an equality test, and the types it orders. Integers below
  \<open>2 ^ 31\<close>, so that their difference does not overflow; fractions with a denominator.\<close>

definition value_ok :: "u32 \<Rightarrow> pod_value \<Rightarrow> bool" where
  "value_ok t v =
     (if t = SPA_POD_TYPE_BOOL \<or> t = SPA_POD_TYPE_ID then (\<exists>w. v = Pv_word w)
      else if t = SPA_POD_TYPE_INT then (\<exists>w. v = Pv_word w \<and> unat w < 2 ^ 31)
      else if t = SPA_POD_TYPE_STRING then (\<exists>s. v = Pv_string s)
      else if t = SPA_POD_TYPE_RECTANGLE then (\<exists>w h. v = Pv_pair w h)
      else t = SPA_POD_TYPE_FRACTION \<and> (\<exists>num denom. v = Pv_pair num denom \<and> denom \<noteq> 0))"

definition type_ordered :: "u32 \<Rightarrow> bool" where
  "type_ordered t \<longleftrightarrow> t = SPA_POD_TYPE_INT \<or> t = SPA_POD_TYPE_FRACTION"

lemma sint_diff:
  assumes "unat a < 2 ^ 31" and "unat b < 2 ^ 31"
  shows "sint (a - b :: u32) = int (unat a) - int (unat b)"
proof -
  have "a - b = word_of_int (int (unat a) - int (unat b))" by simp
  also have "sint (word_of_int (int (unat a) - int (unat b)) :: u32) = signed_take_bit 31 (int (unat a) - int (unat b))"
    by (subst sint_sbintrunc') simp
  also have "\<dots> = int (unat a) - int (unat b)"
  proof (rule signed_take_bit_int_eq_self)
    have "int (unat a) < 2 ^ 31" "int (unat b) < 2 ^ 31" using assms by (metis of_nat_less_iff of_nat_numeral of_nat_power)+
    then show "- (2 ^ 31) \<le> int (unat a) - int (unat b)" "int (unat a) - int (unat b) < 2 ^ 31" by linarith+
  qed
  finally show ?thesis .
qed

lemma pair_prod_less:
  "(ucast a * ucast b :: u64) < ucast c * ucast d \<longleftrightarrow> unat (a :: u32) * unat (b :: u32) < unat (c :: u32) * unat (d :: u32)"
proof -
  have "unat (ucast x * ucast y :: u64) = unat x * unat y" for x y :: u32
  proof -
    have "unat x * unat y < 2 ^ 32 * 2 ^ 32"
      using unsigned_less [of x, where 'a = nat] unsigned_less [of y, where 'a = nat] by (intro mult_strict_mono) auto
    moreover have "unat x < 2 ^ 64" "unat y < 2 ^ 64"
      using unsigned_less [of x, where 'a = nat] unsigned_less [of y, where 'a = nat] by simp_all
    ultimately show ?thesis by (simp add: unat_word_ariths unsigned_ucast_eq take_bit_nat_eq_self)
  qed
  then show ?thesis by (simp add: word_less_nat_alt)
qed

lemma compare_int:
  "\<lbrakk>unat a < 2 ^ 31; unat b < 2 ^ 31\<rbrakk> \<Longrightarrow>
     compare_value fdiff SPA_POD_TYPE_INT (Pv_word a) (Pv_word b) = int (unat a) - int (unat b)"
  by (simp add: compare_value_def sint_diff)

lemma compare_fraction:
  "compare_value fdiff SPA_POD_TYPE_FRACTION (Pv_pair n1 d1) (Pv_pair n2 d2) =
     (if unat n1 * unat d2 < unat n2 * unat d1 then - 1 else if unat n2 * unat d1 < unat n1 * unat d2 then 1 else 0)"
  by (simp add: compare_value_def Let_def pair_prod_less)

lemma fraction_le_trans:
  assumes "n1 * d2 \<le> n2 * d1" and "n2 * d3 \<le> n3 * d2" and "0 < d2"
  shows "n1 * d3 \<le> n3 * (d1 :: nat)"
proof -
  have "n1 * d2 * d3 \<le> n2 * d1 * d3" using assms(1) by (rule mult_le_mono1)
  moreover have "n2 * d3 * d1 \<le> n3 * d2 * d1" using assms(2) by (rule mult_le_mono1)
  ultimately have "d2 * (n1 * d3) \<le> d2 * (n3 * d1)" by (simp only: ac_simps)
  then show ?thesis using assms(3) by simp
qed

interpretation int_order: value_order "compare_value fdiff SPA_POD_TYPE_INT" "value_ok SPA_POD_TYPE_INT" for fdiff
  by standard (auto simp: value_ok_def compare_int)

interpretation fraction_order: value_order "compare_value fdiff SPA_POD_TYPE_FRACTION" "value_ok SPA_POD_TYPE_FRACTION" for fdiff
proof
  show "compare_value fdiff SPA_POD_TYPE_FRACTION a b > 0 \<longleftrightarrow> compare_value fdiff SPA_POD_TYPE_FRACTION b a < 0"
    if "value_ok SPA_POD_TYPE_FRACTION a" "value_ok SPA_POD_TYPE_FRACTION b" for a b
    using that by (auto simp: value_ok_def compare_fraction split: if_splits)
  show "compare_value fdiff SPA_POD_TYPE_FRACTION a c \<le> 0"
    if "value_ok SPA_POD_TYPE_FRACTION a" "value_ok SPA_POD_TYPE_FRACTION b" "value_ok SPA_POD_TYPE_FRACTION c"
      "compare_value fdiff SPA_POD_TYPE_FRACTION a b \<le> 0" "compare_value fdiff SPA_POD_TYPE_FRACTION b c \<le> 0" for a b c
  proof -
    note h = that
    obtain n1 d1 n2 d2 n3 d3 where v: "a = Pv_pair n1 d1" "b = Pv_pair n2 d2" "c = Pv_pair n3 d3" "d2 \<noteq> 0"
      using h(1-3) by (auto simp: value_ok_def)
    have "unat n1 * unat d2 \<le> unat n2 * unat d1" "unat n2 * unat d3 \<le> unat n3 * unat d2"
      using h(4,5) v by (auto simp: compare_fraction split: if_splits)
    moreover have "0 < unat d2" using v(4) by (simp add: unat_gt_0)
    ultimately have "unat n1 * unat d3 \<le> unat n3 * unat d1" by (rule fraction_le_trans)
    then show ?thesis using v by (simp add: compare_fraction)
  qed
qed

lemma cmp_cstr_0: "cmp_cstr xs ys = 0 \<longleftrightarrow> xs = ys"
  by (induction xs ys rule: cmp_cstr.induct) auto

text \<open>For the other types the comparison of two values is 0 just for equal ones.\<close>

lemma compare_eq_0:
  assumes "value_ok t a" and "value_ok t b" and "t \<noteq> SPA_POD_TYPE_INT" and "t \<noteq> SPA_POD_TYPE_FRACTION"
  shows "compare_value fdiff t a b = 0 \<longleftrightarrow> a = b"
proof -
  consider (word) "t = SPA_POD_TYPE_BOOL \<or> t = SPA_POD_TYPE_ID" | (str) "t = SPA_POD_TYPE_STRING" | (rect) "t = SPA_POD_TYPE_RECTANGLE"
    using assms(1,3,4) unfolding value_ok_def by meson
  then show ?thesis
  proof cases
    case word
    then obtain x y where "a = Pv_word x" "b = Pv_word y" using assms(1,2) by (auto simp: value_ok_def)
    then show ?thesis using word by (simp add: compare_value_def)
  next
    case str
    then obtain x y where "a = Pv_string x" "b = Pv_string y" using assms(1,2) by (auto simp: value_ok_def)
    then show ?thesis using str by (simp add: compare_value_def cmp_cstr_0)
  next
    case rect
    then obtain w h w' h' where "a = Pv_pair w h" "b = Pv_pair w' h'" using assms(1,2) by (auto simp: value_ok_def)
    then show ?thesis using rect by (simp add: compare_value_def)
  qed
qed

interpretation values_eq: value_equality "compare_value fdiff t" "value_ok t" for fdiff t
proof -
  show "value_equality (compare_value fdiff t) (value_ok t)"
  proof (cases "t = SPA_POD_TYPE_INT \<or> t = SPA_POD_TYPE_FRACTION")
    case True
    then show ?thesis using int_order.value_equality_axioms fraction_order.value_equality_axioms by auto
  next
    case False
    then show ?thesis by unfold_locales (auto simp: compare_eq_0)
  qed
qed

lemma ordered_value_order: "type_ordered t \<Longrightarrow> value_order (compare_value fdiff t) (value_ok t)"
  using int_order.value_order_axioms fraction_order.value_order_axioms by (auto simp: type_ordered_def)

section \<open>What a filtered property allows\<close>

text \<open>A property that is set allows its value, an unset one the values of its range or its alternatives.\<close>

definition prop_allows :: "(u64 \<Rightarrow> u64 \<Rightarrow> int) \<Rightarrow> spa_prop \<Rightarrow> pod_value \<Rightarrow> bool" where
  "prop_allows fdiff p v =
     (let cmp = compare_value fdiff (sp_type p) in
      if \<not> prop_unset p then \<exists>a\<in>set (take 1 (sp_values p)). cmp a v = 0
      else if prop_range p = SPA_POD_PROP_RANGE_MIN_MAX
      then (case drop 1 (sp_values p) of lo # hi # _ \<Rightarrow> \<not> cmp v lo < 0 \<and> \<not> cmp v hi > 0 | _ \<Rightarrow> False)
      else \<exists>a\<in>set (drop 1 (sp_values p)). cmp a v = 0)"

text \<open>The properties on which filtering is an intersection: lists of alternatives, or an unset range of numbers. Left out are the
  unset ranges of rectangles that the video nodes build: their comparison is no order (see \<open>filter_rectangle_ranges\<close>).\<close>

definition prop_ok :: "spa_prop \<Rightarrow> bool" where
  "prop_ok p \<longleftrightarrow> sp_values p \<noteq> [] \<and> (\<forall>v\<in>set (sp_values p). value_ok (sp_type p) v) \<and>
     (prop_range p = SPA_POD_PROP_RANGE_NONE \<or> prop_range p = SPA_POD_PROP_RANGE_ENUM \<or>
      (prop_range p = SPA_POD_PROP_RANGE_MIN_MAX \<and> prop_unset p \<and> length (sp_values p) = 3 \<and> type_ordered (sp_type p)))"

definition listed_values :: "spa_prop \<Rightarrow> pod_value list" where
  "listed_values p = take (prop_nalts p) (prop_alts p)"

lemma listed_allows:
  assumes "prop_ok p" and "prop_range p \<noteq> SPA_POD_PROP_RANGE_MIN_MAX"
  shows "prop_nalts p \<le> length (prop_alts p)"
    and "prop_allows fdiff p v \<longleftrightarrow> (\<exists>a\<in>set (listed_values p). compare_value fdiff (sp_type p) a v = 0)"
    and "\<forall>a\<in>set (listed_values p). value_ok (sp_type p) a"
  using assms by (auto simp: prop_ok_def prop_nalts_def prop_alts_def prop_allows_def listed_values_def Let_def Suc_le_eq
      dest: in_set_takeD in_set_dropD)

lemma range_allows:
  assumes "prop_ok p" and "prop_range p = SPA_POD_PROP_RANGE_MIN_MAX"
  shows "\<exists>d lo hi. sp_values p = [d, lo, hi] \<and> prop_alts p = [lo, hi] \<and> value_ok (sp_type p) lo \<and>
    value_ok (sp_type p) hi \<and> type_ordered (sp_type p) \<and>
    (\<forall>fdiff v. prop_allows fdiff p v \<longleftrightarrow>
       \<not> compare_value fdiff (sp_type p) v lo < 0 \<and> \<not> compare_value fdiff (sp_type p) v hi > 0)"
proof -
  obtain d lo hi where v: "sp_values p = [d, lo, hi]"
    using assms by (auto simp: prop_ok_def prop_range_defs length_Suc_conv numeral_3_eq_3)
  show ?thesis
    by (rule exI [of _ d], rule exI [of _ lo], rule exI [of _ hi])
      (use assms v in \<open>auto simp: prop_ok_def prop_alts_def prop_allows_def Let_def prop_range_defs\<close>)
qed

text \<open>The result for listed values, after the default was fixed.\<close>

lemma enum_result:
  assumes "vs \<noteq> []"
    and "fix_default fdiff \<lparr>sp_key = k, sp_flags = range_enum_unset, sp_type = t, sp_size = z, sp_values = d # vs\<rparr> = Some np"
  shows "prop_allows fdiff np v \<longleftrightarrow> (\<exists>a\<in>set vs. compare_value fdiff t a v = 0)"
    and "sp_key np = k" and "sp_type np = t" and "\<exists>best\<in>set vs. sp_values np = best # vs"
proof -
  obtain x xs where vs: "vs = x # xs" using assms(1) by (cases vs) auto
  define best where "best = (case find (\<lambda>a. compare_value fdiff t d a = 0) vs of Some a \<Rightarrow> a | None \<Rightarrow> x)"
  have b: "best \<in> set vs"
    using vs by (auto simp: best_def find_Some_iff split: option.splits)
  have np: "np = \<lparr>sp_key = k, sp_flags = (if length vs = 1 then 0 else range_enum_unset), sp_type = t, sp_size = z,
      sp_values = best # vs\<rparr>"
    using assms(2) vs
    by (simp add: fix_default_def fix_default_enum_def prop_range_def range_enum_unset_def prop_range_defs best_def Let_def
        split: if_splits option.splits)
  show "sp_key np = k" "sp_type np = t" "\<exists>best\<in>set vs. sp_values np = best # vs" using np b by auto
  show "prop_allows fdiff np v \<longleftrightarrow> (\<exists>a\<in>set vs. compare_value fdiff t a v = 0)"
  proof (cases "length vs = 1")
    case True
    then have "vs = [best]" using vs b by simp
    then show ?thesis using np by (simp add: prop_allows_def prop_unset_def)
  next
    case False
    then show ?thesis using np vs
      by (simp add: prop_allows_def prop_unset_def prop_range_def range_enum_unset_def prop_range_defs Let_def)
  qed
qed

lemma range_result:
  assumes "fix_default fdiff \<lparr>sp_key = k, sp_flags = SPA_POD_PROP_RANGE_MIN_MAX OR SPA_POD_PROP_FLAG_UNSET, sp_type = t,
      sp_size = z, sp_values = [d, lo, hi]\<rparr> = Some np"
  shows "prop_allows fdiff np v \<longleftrightarrow> \<not> compare_value fdiff t v lo < 0 \<and> \<not> compare_value fdiff t v hi > 0"
    and "sp_key np = k" and "sp_type np = t"
    and "sp_values np = [let v1 = if compare_value fdiff t d lo < 0 then lo else d in
      if compare_value fdiff t v1 hi > 0 then hi else v1, lo, hi]"
  using assms
  by (auto simp: fix_default_def fix_default_minmax_def prop_range_def prop_range_defs prop_allows_def prop_unset_def Let_def)

lemma range_result_some:
  "\<exists>np. fix_default fdiff \<lparr>sp_key = k, sp_flags = SPA_POD_PROP_RANGE_MIN_MAX OR SPA_POD_PROP_FLAG_UNSET, sp_type = t,
      sp_size = z, sp_values = [d, lo, hi]\<rparr> = Some np"
  by (simp add: fix_default_def fix_default_minmax_def prop_range_def prop_range_defs Let_def)


text \<open>The result as a list of alternatives that represents the common values, empty for incompatible properties.\<close>

definition common_list :: "(u64 \<Rightarrow> u64 \<Rightarrow> int) \<Rightarrow> spa_prop \<Rightarrow> spa_prop \<Rightarrow> pod_value list \<Rightarrow> bool" where
  "common_list fdiff p1 p2 vs \<longleftrightarrow>
     (\<forall>a\<in>set vs. value_ok (sp_type p1) a) \<and>
     (\<forall>v. value_ok (sp_type p1) v \<longrightarrow>
        ((\<exists>a\<in>set vs. compare_value fdiff (sp_type p1) a v = 0) \<longleftrightarrow> prop_allows fdiff p1 v \<and> prop_allows fdiff p2 v)) \<and>
     filter_alternatives fdiff p1 p2 =
       (if vs = [] then F_error SPA_RESULT_INCOMPATIBLE_PROPS else F_ok vs range_enum_unset)"

lemma listed_common:
  assumes "prop_ok p1" and "prop_ok p2" and t: "sp_type p1 = sp_type p2"
    and "prop_range p1 \<noteq> SPA_POD_PROP_RANGE_MIN_MAX" and "prop_range p2 \<noteq> SPA_POD_PROP_RANGE_MIN_MAX"
  shows "\<exists>vs. common_list fdiff p1 p2 vs"
proof -
  note l1 = listed_allows [OF assms(1,4)] and l2 = listed_allows [OF assms(2,5)]
  let ?cmp = "compare_value fdiff (sp_type p1)"
  let ?vs = "concat (map (\<lambda>a1. map (\<lambda>_. a1) (filter (\<lambda>a2. ?cmp a1 a2 = 0) (listed_values p2))) (listed_values p1))"
  have mem: "a \<in> set ?vs \<longleftrightarrow> a \<in> set (listed_values p1) \<and> (\<exists>b\<in>set (listed_values p2). ?cmp a b = 0)" for a
    by auto
  have listed: "prop_range p1 \<in> {SPA_POD_PROP_RANGE_NONE, SPA_POD_PROP_RANGE_ENUM}"
    "prop_range p2 \<in> {SPA_POD_PROP_RANGE_NONE, SPA_POD_PROP_RANGE_ENUM}"
    using assms by (auto simp: prop_ok_def)
  have f: "filter_alternatives fdiff p1 p2 = (if ?vs = [] then F_error SPA_RESULT_INCOMPATIBLE_PROPS else F_ok ?vs range_enum_unset)"
    unfolding filter_alternatives_def Let_def filter_equal_def listed_values_def
    using listed l1(1) l2(1) by auto
  have "(\<exists>a\<in>set ?vs. ?cmp a v = 0) \<longleftrightarrow> prop_allows fdiff p1 v \<and> prop_allows fdiff p2 v" if "value_ok (sp_type p1) v" for v
  proof -
    have "(\<exists>a\<in>set ?vs. ?cmp a v = 0) \<longleftrightarrow>
        (\<exists>a\<in>set (listed_values p1). (\<exists>b\<in>set (listed_values p2). ?cmp a b = 0) \<and> ?cmp a v = 0)"
      using mem by blast
    also have "\<dots> \<longleftrightarrow> (\<exists>a\<in>set (listed_values p1). ?cmp a v = 0) \<and> (\<exists>b\<in>set (listed_values p2). ?cmp b v = 0)"
      using l1(3) l2(3) t that by (intro values_eq.common_values) auto
    finally show ?thesis using l1(2) l2(2) t by simp
  qed
  then have "common_list fdiff p1 p2 ?vs" using f l1(3) mem unfolding common_list_def by blast
  then show ?thesis ..
qed

definition values_in_range :: "(u64 \<Rightarrow> u64 \<Rightarrow> int) \<Rightarrow> spa_prop \<Rightarrow> spa_prop \<Rightarrow> pod_value list" where
  "values_in_range fdiff p rng =
     (case prop_alts rng of
        lo # hi # _ \<Rightarrow> filter (\<lambda>a. \<not> compare_value fdiff (sp_type p) a lo < 0 \<and> \<not> compare_value fdiff (sp_type p) a hi > 0)
          (listed_values p)
      | _ \<Rightarrow> [])"

lemma ranged_common:
  fixes fdiff :: "u64 \<Rightarrow> u64 \<Rightarrow> int"
  assumes ok: "prop_ok p" "prop_ok rng" and t: "sp_type p = sp_type rng"
    and r: "prop_range p \<noteq> SPA_POD_PROP_RANGE_MIN_MAX" "prop_range rng = SPA_POD_PROP_RANGE_MIN_MAX"
  defines "vs \<equiv> values_in_range fdiff p rng"
  shows "filter_range fdiff p rng = (if vs = [] then F_error SPA_RESULT_INCOMPATIBLE_PROPS else F_ok vs range_enum_unset)"
    and "value_ok (sp_type p) v \<Longrightarrow> (\<exists>a\<in>set vs. compare_value fdiff (sp_type p) a v = 0) \<longleftrightarrow>
      prop_allows fdiff p v \<and> prop_allows fdiff rng v"
    and "\<forall>a\<in>set vs. value_ok (sp_type p) a"
proof -
  note l = listed_allows [OF ok(1) r(1)]
  obtain lo hi where rng: "prop_alts rng = [lo, hi]" "value_ok (sp_type rng) lo"
    "value_ok (sp_type rng) hi" "type_ordered (sp_type rng)"
    "\<forall>fdiff v. prop_allows fdiff rng v \<longleftrightarrow>
       \<not> compare_value fdiff (sp_type rng) v lo < 0 \<and> \<not> compare_value fdiff (sp_type rng) v hi > 0"
    using range_allows [OF ok(2) r(2)] by blast
  have vs: "vs = filter (\<lambda>a. \<not> compare_value fdiff (sp_type p) a lo < 0 \<and> \<not> compare_value fdiff (sp_type p) a hi > 0)
      (listed_values p)" using rng(1) by (simp add: vs_def values_in_range_def)
  note range_values = value_order.range_values [OF ordered_value_order, of "sp_type p" _ _ _ _ fdiff]
  show "filter_range fdiff p rng = (if vs = [] then F_error SPA_RESULT_INCOMPATIBLE_PROPS else F_ok vs range_enum_unset)"
    using rng(1) l(1) unfolding filter_range_def vs listed_values_def nth_value_def by (simp add: Let_def)
  show "(\<exists>a\<in>set vs. compare_value fdiff (sp_type p) a v = 0) \<longleftrightarrow> prop_allows fdiff p v \<and> prop_allows fdiff rng v"
    if "value_ok (sp_type p) v"
    using range_values [of "set (listed_values p)" v lo hi] l rng(2-5) t that by (auto simp: vs)
  show "\<forall>a\<in>set vs. value_ok (sp_type p) a" using l(3) by (auto simp: vs)
qed

lemma alternatives_common:
  assumes ok: "prop_ok p1" "prop_ok p2" and t: "sp_type p1 = sp_type p2"
    and r: "\<not> (prop_range p1 = SPA_POD_PROP_RANGE_MIN_MAX \<and> prop_range p2 = SPA_POD_PROP_RANGE_MIN_MAX)"
  shows "\<exists>vs. common_list fdiff p1 p2 vs"
proof -
  let ?mm = "SPA_POD_PROP_RANGE_MIN_MAX"
  consider (listed) "prop_range p1 \<noteq> ?mm" "prop_range p2 \<noteq> ?mm" | (left) "prop_range p1 \<noteq> ?mm" "prop_range p2 = ?mm"
    | (right) "prop_range p1 = ?mm" "prop_range p2 \<noteq> ?mm" using r by blast
  then show ?thesis
  proof cases
    case listed
    then show ?thesis by (rule listed_common [OF ok t])
  next
    case left
    have "filter_alternatives fdiff p1 p2 = filter_range fdiff p1 p2"
      using left ok(1) by (auto simp: filter_alternatives_def prop_ok_def prop_range_defs)
    then show ?thesis using ranged_common [OF ok t left, where fdiff = fdiff]
      by (intro exI [of _ "values_in_range fdiff p1 p2"]) (simp add: common_list_def)
  next
    case right
    have "filter_alternatives fdiff p1 p2 = filter_range fdiff p2 p1"
      using right ok(2) by (auto simp: filter_alternatives_def prop_ok_def prop_range_defs)
    then show ?thesis using ranged_common [OF ok(2,1) t [symmetric] right(2,1), where fdiff = fdiff] t
      by (intro exI [of _ "values_in_range fdiff p2 p1"]) (auto simp: common_list_def)
  qed
qed

lemma prop_ok_default: "prop_ok p \<Longrightarrow> \<exists>d. nth_value (sp_values p) 0 = Some d \<and> value_ok (sp_type p) d"
  by (auto simp: prop_ok_def nth_value_def)

lemma minmax_common:
  assumes ok: "prop_ok p1" "prop_ok p2" and t: "sp_type p1 = sp_type p2"
    and r: "prop_range p1 = SPA_POD_PROP_RANGE_MIN_MAX" "prop_range p2 = SPA_POD_PROP_RANGE_MIN_MAX"
  obtains lo hi where "filter_alternatives fdiff p1 p2 = F_ok [lo, hi] (SPA_POD_PROP_RANGE_MIN_MAX OR SPA_POD_PROP_FLAG_UNSET)"
    and "value_ok (sp_type p1) lo" and "value_ok (sp_type p1) hi" and "type_ordered (sp_type p1)"
    and "\<And>v. value_ok (sp_type p1) v \<Longrightarrow>
      \<not> compare_value fdiff (sp_type p1) v lo < 0 \<and> \<not> compare_value fdiff (sp_type p1) v hi > 0 \<longleftrightarrow>
        prop_allows fdiff p1 v \<and> prop_allows fdiff p2 v"
proof -
  obtain lo1 hi1 where p1: "prop_alts p1 = [lo1, hi1]" "value_ok (sp_type p1) lo1" "value_ok (sp_type p1) hi1"
    "type_ordered (sp_type p1)" "\<forall>fdiff v. prop_allows fdiff p1 v \<longleftrightarrow>
       \<not> compare_value fdiff (sp_type p1) v lo1 < 0 \<and> \<not> compare_value fdiff (sp_type p1) v hi1 > 0"
    using range_allows [OF ok(1) r(1)] by blast
  obtain lo2 hi2 where p2: "prop_alts p2 = [lo2, hi2]" "value_ok (sp_type p2) lo2" "value_ok (sp_type p2) hi2"
    "\<forall>fdiff v. prop_allows fdiff p2 v \<longleftrightarrow>
       \<not> compare_value fdiff (sp_type p2) v lo2 < 0 \<and> \<not> compare_value fdiff (sp_type p2) v hi2 > 0"
    using range_allows [OF ok(2) r(2)] by blast
  note vo = ordered_value_order [OF p1(4), of fdiff]
  let ?cmp = "compare_value fdiff (sp_type p1)"
  show ?thesis
  proof (rule that)
    show "filter_alternatives fdiff p1 p2 = F_ok [if ?cmp lo1 lo2 < 0 then lo2 else lo1, if ?cmp hi1 hi2 < 0 then hi1 else hi2]
        (SPA_POD_PROP_RANGE_MIN_MAX OR SPA_POD_PROP_FLAG_UNSET)"
      using r p1(1) p2(1) by (simp add: filter_alternatives_def filter_ranges_def prop_range_defs)
    show "\<not> ?cmp v (if ?cmp lo1 lo2 < 0 then lo2 else lo1) < 0 \<and> \<not> ?cmp v (if ?cmp hi1 hi2 < 0 then hi1 else hi2) > 0
        \<longleftrightarrow> prop_allows fdiff p1 v \<and> prop_allows fdiff p2 v" if "value_ok (sp_type p1) v" for v
      using value_order.max_lower [OF vo that, of lo1 lo2] value_order.min_upper [OF vo that, of hi1 hi2] p1 p2 t by auto
  qed (use p1 p2 t in auto)
qed



lemma filter_prop_allows:
  assumes ok: "prop_ok p1" "prop_ok p2" and f: "filter_prop fdiff p1 p2 = Some (Inr np)" and v: "value_ok (sp_type p1) v"
  shows "prop_allows fdiff np v \<longleftrightarrow> prop_allows fdiff p1 v \<and> prop_allows fdiff p2 v"
proof -
  have t: "sp_type p1 = sp_type p2" using f by (auto simp: filter_prop_def split: if_splits)
  obtain d where d: "nth_value (sp_values p1) 0 = Some d" using prop_ok_default [OF ok(1)] by blast
  show ?thesis
  proof (cases "prop_range p1 = SPA_POD_PROP_RANGE_MIN_MAX \<and> prop_range p2 = SPA_POD_PROP_RANGE_MIN_MAX")
    case True
    then obtain lo hi where m: "filter_alternatives fdiff p1 p2 = F_ok [lo, hi] (SPA_POD_PROP_RANGE_MIN_MAX OR SPA_POD_PROP_FLAG_UNSET)"
      "\<And>v. value_ok (sp_type p1) v \<Longrightarrow>
        \<not> compare_value fdiff (sp_type p1) v lo < 0 \<and> \<not> compare_value fdiff (sp_type p1) v hi > 0 \<longleftrightarrow>
          prop_allows fdiff p1 v \<and> prop_allows fdiff p2 v"
      using minmax_common [OF ok t] by metis
    have "fix_default fdiff \<lparr>sp_key = sp_key p1, sp_flags = SPA_POD_PROP_RANGE_MIN_MAX OR SPA_POD_PROP_FLAG_UNSET,
        sp_type = sp_type p1, sp_size = sp_size p1, sp_values = [d, lo, hi]\<rparr> = Some np"
      using f t d m(1) by (simp add: filter_prop_def)
    from range_result [OF this] show ?thesis using m(2) [OF v] by simp
  next
    case False
    then obtain vs where vs: "common_list fdiff p1 p2 vs" using alternatives_common [OF ok t] by blast
    then have "vs \<noteq> []" using f t d by (auto simp: filter_prop_def common_list_def)
    moreover from this have "fix_default fdiff \<lparr>sp_key = sp_key p1, sp_flags = range_enum_unset,
        sp_type = sp_type p1, sp_size = sp_size p1, sp_values = d # vs\<rparr> = Some np"
      using f t d vs by (simp add: filter_prop_def common_list_def)
    ultimately show ?thesis using enum_result [where fdiff = fdiff] vs v by (auto simp: common_list_def)
  qed
qed




section \<open>Properties\<close>


definition int_range :: "u32 \<Rightarrow> u32 \<Rightarrow> u32 \<Rightarrow> spa_prop" where
  "int_range d lo hi = \<lparr>sp_key = 7, sp_flags = 0x11, sp_type = SPA_POD_TYPE_INT, sp_size = 4,
     sp_values = [Pv_word d, Pv_word lo, Pv_word hi]\<rparr>"

definition int_enum :: "u32 list \<Rightarrow> spa_prop" where
  "int_enum ws = \<lparr>sp_key = 7, sp_flags = 0x13, sp_type = SPA_POD_TYPE_INT, sp_size = 4, sp_values = map Pv_word ws\<rparr>"

lemma demo_props_ok:
  "\<lbrakk>unat d < 2 ^ 31; unat lo < 2 ^ 31; unat hi < 2 ^ 31\<rbrakk> \<Longrightarrow> prop_ok (int_range d lo hi)"
  "\<lbrakk>ws \<noteq> []; \<forall>w\<in>set ws. unat w < 2 ^ 31\<rbrakk> \<Longrightarrow> prop_ok (int_enum ws)"
  by (auto simp: prop_ok_def int_range_def int_enum_def value_ok_def prop_range_def prop_unset_def prop_range_defs type_ordered_def)

definition zero_diff :: "u64 \<Rightarrow> u64 \<Rightarrow> int" where "zero_diff _ _ = 0"




text \<open>Two ranges are never found incompatible: disjoint ranges give a property that allows no value at all.\<close>

theorem filter_disjoint_ranges:
  assumes "prop_ok p1" and "prop_ok p2" and "sp_type p1 = sp_type p2"
    and "prop_range p1 = SPA_POD_PROP_RANGE_MIN_MAX" and "prop_range p2 = SPA_POD_PROP_RANGE_MIN_MAX"
    and "\<not> (\<exists>v. value_ok (sp_type p1) v \<and> prop_allows fdiff p1 v \<and> prop_allows fdiff p2 v)"
  shows "\<exists>np. filter_prop fdiff p1 p2 = Some (Inr np) \<and> \<not> (\<exists>v. value_ok (sp_type p1) v \<and> prop_allows fdiff np v)"
proof -
  obtain d where d: "nth_value (sp_values p1) 0 = Some d" using prop_ok_default [OF assms(1)] by blast
  obtain lo hi where "filter_alternatives fdiff p1 p2 = F_ok [lo, hi] (SPA_POD_PROP_RANGE_MIN_MAX OR SPA_POD_PROP_FLAG_UNSET)"
    by (rule minmax_common [OF assms(1-5)])
  moreover obtain np where "fix_default fdiff \<lparr>sp_key = sp_key p1, sp_flags = SPA_POD_PROP_RANGE_MIN_MAX OR SPA_POD_PROP_FLAG_UNSET,
      sp_type = sp_type p1, sp_size = sp_size p1, sp_values = [d, lo, hi]\<rparr> = Some np"
    using range_result_some by blast
  ultimately have np: "filter_prop fdiff p1 p2 = Some (Inr np)" using d assms(3) by (simp add: filter_prop_def)
  then show ?thesis using filter_prop_allows [OF assms(1,2) np] assms(6) by blast
qed

theorem filter_disjoint_ranges_witness:
  "\<exists>np. filter_prop zero_diff (int_range 8000 8000 16000) (int_range 48000 44100 48000) = Some (Inr np) \<and>
     \<not> (\<exists>v. value_ok SPA_POD_TYPE_INT v \<and> prop_allows zero_diff np v)"
proof -
  have "\<not> (\<exists>v. value_ok SPA_POD_TYPE_INT v \<and> prop_allows zero_diff (int_range 8000 8000 16000) v \<and>
      prop_allows zero_diff (int_range 48000 44100 48000) v)"
    by (auto simp: value_ok_def prop_allows_def int_range_def prop_unset_def prop_range_def prop_range_defs compare_int Let_def)
  moreover have "prop_ok (int_range 8000 8000 16000)" "prop_ok (int_range 48000 44100 48000)" by (auto intro!: demo_props_ok)
  moreover have "sp_type (int_range 8000 8000 16000) = SPA_POD_TYPE_INT" "sp_type (int_range 48000 44100 48000) = SPA_POD_TYPE_INT"
    "prop_range (int_range 8000 8000 16000) = SPA_POD_PROP_RANGE_MIN_MAX"
    "prop_range (int_range 48000 44100 48000) = SPA_POD_PROP_RANGE_MIN_MAX"
    by (simp_all add: int_range_def prop_range_def prop_range_defs)
  ultimately show ?thesis
    using filter_disjoint_ranges [of "int_range 8000 8000 16000" "int_range 48000 44100 48000" zero_diff] by auto
qed



section \<open>Ranges of rectangles\<close>

definition rectangle_range :: "u32 \<times> u32 \<Rightarrow> u32 \<times> u32 \<Rightarrow> u32 \<times> u32 \<Rightarrow> spa_prop" where
  "rectangle_range d lo hi = \<lparr>sp_key = 8, sp_flags = SPA_POD_PROP_RANGE_MIN_MAX OR SPA_POD_PROP_FLAG_UNSET, sp_type = SPA_POD_TYPE_RECTANGLE,
     sp_size = 8, sp_values = map (case_prod Pv_pair) [d, lo, hi]\<rparr>"

text \<open>Ranges of rectangles are not intersected: a rectangle is compared as the smaller one when it is smaller in one
  direction, so of two largest sizes, the first wider and the second higher, the filter keeps the first, which is wider than the
  other range allows, and keeps it as the value of the property.\<close>

theorem filter_rectangle_ranges:
  assumes "w2 < w1" and "h1 < h2" and "lw \<le> w1" and "lh \<le> h1"
  shows "\<exists>np. filter_prop fdiff (rectangle_range (w1, h1) (lw, lh) (w1, h1)) (rectangle_range d (lw, lh) (w2, h2)) = Some (Inr np) \<and>
    prop_range np = SPA_POD_PROP_RANGE_MIN_MAX \<and> prop_unset np \<and> sp_values np = [Pv_pair w1 h1, Pv_pair lw lh, Pv_pair w1 h1]"
proof -
  have r: "prop_range (rectangle_range d lo hi) = SPA_POD_PROP_RANGE_MIN_MAX" "prop_unset (rectangle_range d lo hi)" for d lo hi
    by (simp_all add: rectangle_range_def prop_range_def prop_unset_def prop_range_defs)
  have c: "compare_value fdiff SPA_POD_TYPE_RECTANGLE (Pv_pair w1 h1) (Pv_pair w2 h2) = - 1"
    "\<not> compare_value fdiff SPA_POD_TYPE_RECTANGLE (Pv_pair w1 h1) (Pv_pair lw lh) < 0"
    "compare_value fdiff SPA_POD_TYPE_RECTANGLE x x = 0" for x
    using assms by (auto simp: compare_value_def not_less split: pod_value.split)
  have "filter_alternatives fdiff (rectangle_range (w1, h1) (lw, lh) (w1, h1)) (rectangle_range d (lw, lh) (w2, h2)) =
      F_ok [Pv_pair lw lh, Pv_pair w1 h1] (SPA_POD_PROP_RANGE_MIN_MAX OR SPA_POD_PROP_FLAG_UNSET)"
    using c(1,3) by (simp add: filter_alternatives_def filter_ranges_def r prop_alts_def Let_def)
      (simp add: rectangle_range_def prop_range_defs)
  then show ?thesis
    using c by (simp add: filter_prop_def rectangle_range_def nth_value_def fix_default_def fix_default_minmax_def prop_range_def
        prop_unset_def prop_range_defs Let_def)
qed

theorem filter_rectangle_ranges_witness:
  "\<exists>np. filter_prop zero_diff (rectangle_range (1920, 1080) (1, 1) (1920, 1080)) (rectangle_range (640, 480) (1, 1) (1080, 1920)) = Some (Inr np) \<and>
     sp_values np = [Pv_pair 1920 1080, Pv_pair 1 1, Pv_pair 1920 1080]"
proof -
  have "(1080 :: u32) < 1920" "(1 :: u32) \<le> 1920" "(1 :: u32) \<le> 1080" by simp_all
  from filter_rectangle_ranges [OF this(1,1,2,3), of zero_diff "(640, 480)"] show ?thesis by blast
qed

end
