(* ===== verification/Spa_Node.thy ===== *)
theory Spa_Node
  imports Spa_Props Spa_List Spa_Ringbuffer "HOL-Library.Monad_Syntax"
begin

text \<open>
  What the nodes of the SPA plugins share: buffers and their metadata (\<^verbatim>\<open>spa/include/spa/buffer.h\<close>,
  \<^verbatim>\<open>meta.h\<close>), the memory a port exchanges with its peer (\<^verbatim>\<open>node.h\<close>), the audio format
  (\<^verbatim>\<open>audio/format-utils.h\<close>), the enumeration of a single format, and the array of buffers with its list
  of free ones that every node keeps. Buffers are memory shared with the peer: nodes refer to them by their address
  in a store. Calls with a null node or a null out-parameter, which the nodes refuse with
  \<^verbatim>\<open>SPA_RESULT_INVALID_ARGUMENTS\<close>, are not represented.
\<close>

section \<open>Buffers\<close>

record spa_chunk =
  ck_offset :: u32
  ck_size :: u32
  ck_stride :: u32

record spa_data =
  sd_type :: u32
  sd_maxsize :: u32
  sd_mem :: "byte list option"
  sd_chunk :: spa_chunk

record spa_meta_header =
  mh_flags :: u32
  mh_seq :: u32
  mh_pts :: u64
  mh_dts_offset :: u64

datatype spa_meta = Meta_header spa_meta_header | Meta_ringbuffer spa_ringbuffer | Meta_other

record spa_buffer =
  sb_id :: u32
  sb_metas :: "(u32 \<times> spa_meta) list"
  sb_datas :: "spa_data list"

type_synonym buffer_store = "nat \<Rightarrow> spa_buffer"

fun find_meta_from :: "(u32 \<times> spa_meta) list \<Rightarrow> nat \<Rightarrow> u32 \<Rightarrow> nat option" where
  "find_meta_from [] i t = None"
| "find_meta_from ((t', m) # ms) i t = (if t' = t then Some i else find_meta_from ms (i + 1) t)"

text \<open>A pointer to metadata is its position in the buffer.\<close>

definition spa_buffer_find_meta :: "spa_buffer \<Rightarrow> u32 \<Rightarrow> nat option" where
  "spa_buffer_find_meta b t = find_meta_from (sb_metas b) 0 t"

record spa_port_io =
  io_status :: spa_result
  io_buffer_id :: u32
  io_min_size :: u32
  io_max_size :: u32

datatype spa_direction = Dir_input | Dir_output

section \<open>Formats\<close>

text \<open>The property macros of the nodes.\<close>

definition prop_plain :: "u32 \<Rightarrow> u32 \<Rightarrow> pod_value \<Rightarrow> spa_prop" where
  "prop_plain key t v = \<lparr>sp_key = key, sp_flags = 0, sp_type = t, sp_size = 4, sp_values = [v]\<rparr>"

definition prop_u_mm :: "u32 \<Rightarrow> u32 \<Rightarrow> pod_value \<Rightarrow> pod_value \<Rightarrow> pod_value \<Rightarrow> spa_prop" where
  "prop_u_mm key t v lo hi =
     \<lparr>sp_key = key, sp_flags = SPA_POD_PROP_FLAG_UNSET OR SPA_POD_PROP_RANGE_MIN_MAX, sp_type = t, sp_size = 4,
      sp_values = [v, lo, hi]\<rparr>"

definition prop_u_en :: "u32 \<Rightarrow> u32 \<Rightarrow> pod_value list \<Rightarrow> spa_prop" where
  "prop_u_en key t vs =
     \<lparr>sp_key = key, sp_flags = SPA_POD_PROP_FLAG_UNSET OR SPA_POD_PROP_RANGE_ENUM, sp_type = t, sp_size = 4,
      sp_values = vs\<rparr>"

text \<open>One key of \<^verbatim>\<open>spa_format_query\<close>: the variable keeps its value when the property is missing or unset. A value of another
  type than the one asked for leaves the pointer argument of its key unread, so that the query goes on with that pointer as the
  next key, which is undefined (\<open>None\<close>).\<close>

definition spa_format_query_word :: "pod_entry list \<Rightarrow> u32 \<Rightarrow> u32 \<Rightarrow> u32 \<Rightarrow> u32 option" where
  "spa_format_query_word es key t old =
     (case find_prop es key of
        None \<Rightarrow> Some old
      | Some p \<Rightarrow>
          if prop_unset p then Some old
          else if sp_type p = t \<or> sp_type p = - t
               then (case sp_values p of Pv_word w # _ \<Rightarrow> Some w | _ \<Rightarrow> None)
               else None)"

record audio_raw =
  ar_format :: u32
  ar_flags :: u32
  ar_layout :: u32
  ar_rate :: u32
  ar_channels :: u32
  ar_channel_mask :: u32

record audio_keys =
  ak_format :: u32
  ak_flags :: u32
  ak_layout :: u32
  ak_rate :: u32
  ak_channels :: u32
  ak_channel_mask :: u32

definition zero_audio_raw :: audio_raw where
  "zero_audio_raw = \<lparr>ar_format = 0, ar_flags = 0, ar_layout = 0, ar_rate = 0, ar_channels = 0, ar_channel_mask = 0\<rparr>"

definition spa_format_audio_raw_parse :: "audio_keys \<Rightarrow> pod_entry list \<Rightarrow> audio_raw \<Rightarrow> (bool \<times> audio_raw) option" where
  "spa_format_audio_raw_parse k es info = do {
     format \<leftarrow> spa_format_query_word es (ak_format k) SPA_POD_TYPE_ID (ar_format info);
     flags \<leftarrow> spa_format_query_word es (ak_flags k) SPA_POD_TYPE_INT (ar_flags info);
     layout \<leftarrow> spa_format_query_word es (ak_layout k) SPA_POD_TYPE_INT (ar_layout info);
     rate \<leftarrow> spa_format_query_word es (ak_rate k) SPA_POD_TYPE_INT (ar_rate info);
     channels \<leftarrow> spa_format_query_word es (ak_channels k) SPA_POD_TYPE_INT (ar_channels info);
     channel_mask \<leftarrow> spa_format_query_word es (ak_channel_mask k) SPA_POD_TYPE_INT (ar_channel_mask info);
     Some (True, \<lparr>ar_format = format, ar_flags = flags, ar_layout = layout, ar_rate = rate, ar_channels = channels,
       ar_channel_mask = channel_mask\<rparr>) }"

lemma audio_raw_parse_ok: "spa_format_audio_raw_parse k es info = Some (ok, raw) \<Longrightarrow> ok"
  by (auto simp: spa_format_audio_raw_parse_def split: bind_splits)

text \<open>The loop of \<^verbatim>\<open>port_enum_formats\<close> in the nodes that know one format: \<open>count\<close> selects the format,
  \<open>matches\<close> counts the ones that passed the filter.\<close>

function enum_one_format_from ::
  "(u64 \<Rightarrow> u64 \<Rightarrow> int) \<Rightarrow> spa_format \<Rightarrow> spa_format option \<Rightarrow> u32 \<Rightarrow> u32 \<Rightarrow> u32 \<Rightarrow> (spa_result \<times> spa_format option) option"
where
  "enum_one_format_from fdiff fmt flt index count matches =
     (if count \<noteq> 0 then Some (SPA_RESULT_ENUM_END, None)
      else case spa_format_filter fdiff (Some fmt) flt True of
             None \<Rightarrow> None
           | Some (res, out) \<Rightarrow>
               if res \<noteq> SPA_RESULT_OK then enum_one_format_from fdiff fmt flt index (count + 1) matches
               else if matches \<noteq> index then enum_one_format_from fdiff fmt flt index (count + 1) (matches + 1)
               else Some (SPA_RESULT_OK, out))"
  by pat_completeness auto
termination
  by (relation "measure (\<lambda>(fdiff, fmt, flt, index, count, matches). if count = 0 then 1 else 0)") auto

definition enum_one_format ::
  "(u64 \<Rightarrow> u64 \<Rightarrow> int) \<Rightarrow> spa_format \<Rightarrow> spa_format option \<Rightarrow> u32 \<Rightarrow> (spa_result \<times> spa_format option) option" where
  "enum_one_format fdiff fmt flt index =
     (let start = (case flt of None \<Rightarrow> index | Some _ \<Rightarrow> 0) in enum_one_format_from fdiff fmt flt index start start)"

section \<open>The buffers of a port\<close>

text \<open>A fixed array of buffers, the number in use, and the list of the free ones by their position in the array. The
  list is a \<open>spa_list\<close> of the links inside the buffers: linking a node that is in the list already breaks it, so
  that appending a position twice is \<open>None\<close>.\<close>

record node_buf =
  nbf_outbuf :: nat
  nbf_outstanding :: bool
  nbf_h :: "nat option"
  nbf_rb :: "nat option"

record buffer_pool =
  bp_buffers :: "node_buf list"
  bp_n_buffers :: u32
  bp_list :: "nat list"

definition empty_buf :: node_buf where
  "empty_buf = \<lparr>nbf_outbuf = 0, nbf_outstanding = False, nbf_h = None, nbf_rb = None\<rparr>"

definition new_pool :: "nat \<Rightarrow> buffer_pool" where
  "new_pool maxbufs = \<lparr>bp_buffers = replicate maxbufs empty_buf, bp_n_buffers = 0, bp_list = []\<rparr>"

definition pool_append :: "nat \<Rightarrow> buffer_pool \<Rightarrow> buffer_pool option" where
  "pool_append i p = (if i \<in> set (bp_list p) then None else Some (p\<lparr>bp_list := bp_list p @ [i]\<rparr>))"

definition pool_set_out :: "nat \<Rightarrow> bool \<Rightarrow> buffer_pool \<Rightarrow> buffer_pool" where
  "pool_set_out i out p =
     p\<lparr>bp_buffers := (bp_buffers p)[i := (bp_buffers p ! i)\<lparr>nbf_outstanding := out\<rparr>]\<rparr>"

text \<open>Taking the first free buffer, and giving a buffer back when it is outstanding.\<close>

definition pool_take :: "buffer_pool \<Rightarrow> (nat \<times> buffer_pool) option" where
  "pool_take p = (case bp_list p of [] \<Rightarrow> None | i # rest \<Rightarrow> Some (i, pool_set_out i True (p\<lparr>bp_list := rest\<rparr>)))"

definition pool_give :: "nat \<Rightarrow> buffer_pool \<Rightarrow> (bool \<times> buffer_pool) option" where
  "pool_give i p =
     (if length (bp_buffers p) \<le> i then None
      else if \<not> nbf_outstanding (bp_buffers p ! i) then Some (False, p)
      else map_option (Pair True) (pool_append i (pool_set_out i False p)))"

definition pool_clear :: "buffer_pool \<Rightarrow> buffer_pool" where
  "pool_clear p = (if bp_n_buffers p > 0 then p\<lparr>bp_n_buffers := 0, bp_list := []\<rparr> else p)"

text \<open>Every buffer in use is either free, once, or outstanding.\<close>

definition pool_ok :: "buffer_pool \<Rightarrow> bool" where
  "pool_ok p \<longleftrightarrow> unat (bp_n_buffers p) \<le> length (bp_buffers p) \<and> distinct (bp_list p) \<and>
     set (bp_list p) = {i. i < unat (bp_n_buffers p) \<and> \<not> nbf_outstanding (bp_buffers p ! i)}"

locale pool_interface =
  fixes ok :: "'p \<Rightarrow> bool" and avail :: "'p \<Rightarrow> nat list" and out :: "'p \<Rightarrow> nat set"
    and take_one :: "'p \<Rightarrow> (nat \<times> 'p) option" and give_back :: "nat \<Rightarrow> 'p \<Rightarrow> (bool \<times> 'p) option"
  assumes avail_out: "ok p \<Longrightarrow> distinct (avail p) \<and> set (avail p) \<inter> out p = {}"
    and take_none: "ok p \<Longrightarrow> take_one p = None \<longleftrightarrow> avail p = []"
    and take_some: "\<lbrakk>ok p; take_one p = Some (i, p')\<rbrakk> \<Longrightarrow>
      ok p' \<and> avail p = i # avail p' \<and> out p' = insert i (out p)"
    and give_out: "\<lbrakk>ok p; i \<in> out p\<rbrakk> \<Longrightarrow>
      \<exists>p'. give_back i p = Some (True, p') \<and> ok p' \<and> avail p' = avail p @ [i] \<and> out p' = out p - {i}"
    and give_avail: "\<lbrakk>ok p; i \<in> set (avail p)\<rbrakk> \<Longrightarrow> give_back i p = Some (False, p)"
begin

lemma take_conserves: "\<lbrakk>ok p; take_one p = Some (i, p')\<rbrakk> \<Longrightarrow> set (avail p') \<union> out p' = set (avail p) \<union> out p"
  using take_some by fastforce

lemma take_fresh: "\<lbrakk>ok p; take_one p = Some (i, p')\<rbrakk> \<Longrightarrow> i \<notin> out p \<and> i \<in> out p' \<and> i \<notin> set (avail p')"
  using take_some avail_out by fastforce

lemma give_any:
  assumes "ok p" and "i \<in> set (avail p) \<union> out p"
  shows "\<exists>r p'. give_back i p = Some (r, p') \<and> ok p' \<and> set (avail p') \<union> out p' = set (avail p) \<union> out p"
  using assms give_out [of p i] give_avail [of p i] by (cases "i \<in> out p") auto

end

definition pool_out :: "buffer_pool \<Rightarrow> nat set" where
  "pool_out p = {i. i < unat (bp_n_buffers p) \<and> nbf_outstanding (bp_buffers p ! i)}"

lemma pool_set_out_simps [simp]:
  "bp_list (pool_set_out i b p) = bp_list p" "bp_n_buffers (pool_set_out i b p) = bp_n_buffers p"
  "length (bp_buffers (pool_set_out i b p)) = length (bp_buffers p)"
  "j < length (bp_buffers p) \<Longrightarrow> nbf_outstanding (bp_buffers (pool_set_out i b p) ! j) =
     (if i = j then b else nbf_outstanding (bp_buffers p ! j))"
  by (auto simp: pool_set_out_def nth_list_update)

lemma pool_change:
  assumes "bp_n_buffers p' = n" and "unat n \<le> length (bp_buffers p')"
    and "\<And>j. j < unat n \<Longrightarrow> nbf_outstanding (bp_buffers p' ! j) \<longleftrightarrow> Q j"
    and "distinct (bp_list p')" and "set (bp_list p') = {j. j < unat n \<and> \<not> Q j}"
  shows "pool_ok p' \<and> pool_out p' = {j. j < unat n \<and> Q j}"
proof -
  have "{j. j < unat n \<and> \<not> nbf_outstanding (bp_buffers p' ! j)} = {j. j < unat n \<and> \<not> Q j}"
    "{j. j < unat n \<and> nbf_outstanding (bp_buffers p' ! j)} = {j. j < unat n \<and> Q j}"
    using assms(3) by blast+
  then show ?thesis unfolding pool_ok_def pool_out_def using assms(1,2,4,5) by simp
qed

interpretation pool: pool_interface pool_ok bp_list pool_out pool_take pool_give
proof
  fix p i p'
  assume ok: "pool_ok p"
  show "distinct (bp_list p) \<and> set (bp_list p) \<inter> pool_out p = {}"
    using ok by (auto simp: pool_ok_def pool_out_def)
  show "pool_take p = None \<longleftrightarrow> bp_list p = []" by (auto simp: pool_take_def split: list.split)
  show "pool_ok p' \<and> bp_list p = i # bp_list p' \<and> pool_out p' = insert i (pool_out p)" if t: "pool_take p = Some (i, p')"
  proof -
    obtain rest where l: "bp_list p = i # rest" and p': "p' = pool_set_out i True (p\<lparr>bp_list := rest\<rparr>)"
      using t by (auto simp: pool_take_def split: list.splits)
    have i: "i < unat (bp_n_buffers p)" "i \<notin> set rest" "\<not> nbf_outstanding (bp_buffers p ! i)"
      using ok l by (auto simp: pool_ok_def)
    have n: "unat (bp_n_buffers p) \<le> length (bp_buffers p)" using ok by (simp add: pool_ok_def)
    have o: "nbf_outstanding (bp_buffers p' ! j) \<longleftrightarrow> i = j \<or> nbf_outstanding (bp_buffers p ! j)" if "j < unat (bp_n_buffers p)" for j
      using that n p' i(1) by (simp add: pool_set_out_def nth_list_update)
    have "set rest = {j. j < unat (bp_n_buffers p) \<and> \<not> nbf_outstanding (bp_buffers p ! j)} - {i}"
      using ok l i(2) by (auto simp: pool_ok_def)
    also have "\<dots> = {j. j < unat (bp_n_buffers p) \<and> \<not> nbf_outstanding (bp_buffers p' ! j)}" using o by blast
    finally have free: "set rest = {j. j < unat (bp_n_buffers p) \<and> \<not> nbf_outstanding (bp_buffers p' ! j)}" .
    have out: "pool_out p' = insert i (pool_out p)"
    proof -
      have "bp_n_buffers p' = bp_n_buffers p" using p' by simp
      then have "pool_out p' = {j. j < unat (bp_n_buffers p) \<and> nbf_outstanding (bp_buffers p' ! j)}"
        by (simp only: pool_out_def)
      also have "\<dots> = {j. j < unat (bp_n_buffers p) \<and> (i = j \<or> nbf_outstanding (bp_buffers p ! j))}"
        by (rule Collect_cong) (simp only: o cong: conj_cong)
      also have "\<dots> = insert i (pool_out p)" unfolding pool_out_def using i(1) by auto
      finally show ?thesis .
    qed
    have "pool_ok p'" unfolding pool_ok_def using free n ok l p' by (simp add: pool_ok_def)
    then show ?thesis using out l p' by simp
  qed
  show "\<exists>p'. pool_give i p = Some (True, p') \<and> pool_ok p' \<and> bp_list p' = bp_list p @ [i] \<and> pool_out p' = pool_out p - {i}"
    if "i \<in> pool_out p"
  proof -
    have i: "i < unat (bp_n_buffers p)" "nbf_outstanding (bp_buffers p ! i)" "i \<notin> set (bp_list p)"
      and n: "unat (bp_n_buffers p) \<le> length (bp_buffers p)"
      using that ok by (auto simp: pool_out_def pool_ok_def)
    let ?p = "(pool_set_out i False p)\<lparr>bp_list := bp_list p @ [i]\<rparr>"
    have "pool_give i p = Some (True, ?p)" using i n by (simp add: pool_give_def pool_append_def)
    moreover have "pool_ok ?p \<and> pool_out ?p = {j. j < unat (bp_n_buffers p) \<and> (i \<noteq> j \<and> nbf_outstanding (bp_buffers p ! j))}"
    proof (rule pool_change)
      show "nbf_outstanding (bp_buffers ?p ! j) \<longleftrightarrow> i \<noteq> j \<and> nbf_outstanding (bp_buffers p ! j)"
        if "j < unat (bp_n_buffers p)" for j
        using that n i(1) by (simp add: pool_set_out_def nth_list_update)
      show "set (bp_list ?p) = {j. j < unat (bp_n_buffers p) \<and> \<not> (i \<noteq> j \<and> nbf_outstanding (bp_buffers p ! j))}"
        using ok i(1) by (auto simp: pool_ok_def)
    qed (use ok i n in \<open>simp_all add: pool_ok_def\<close>)
    moreover have "{j. j < unat (bp_n_buffers p) \<and> (i \<noteq> j \<and> nbf_outstanding (bp_buffers p ! j))} = pool_out p - {i}"
      unfolding pool_out_def by blast
    ultimately show ?thesis by (intro exI [of _ ?p]) simp
  qed
  show "pool_give i p = Some (False, p)" if "i \<in> set (bp_list p)"
    using that ok by (auto simp: pool_give_def pool_ok_def)
qed

lemma pool_ok_new: "pool_ok (new_pool n)"
  by (simp add: pool_ok_def new_pool_def)

lemma pool_ok_clear: "pool_ok p \<Longrightarrow> pool_ok (pool_clear p)"
  by (auto simp: pool_ok_def pool_clear_def)

end
