(* ===== verification/Spa_Audiotestsrc.thy ===== *)
theory Spa_Audiotestsrc
  imports Spa_Node
begin

text \<open>
  The audio test source, \<^verbatim>\<open>spa/plugins/audiotestsrc/audiotestsrc.c\<close> and \<^verbatim>\<open>render.c\<close>: a node with
  one output port that renders a wave into the buffers of its peer, either when it is asked for output or from a
  timer. The samples of one frame are computed with floating-point sines; they and the next phase are the parameter
  \<open>frame\<close>. Memory accesses outside a block, uses of a null pointer and divisions by zero are \<open>None\<close>.
\<close>

section \<open>State\<close>

record ats_types =
  at_node :: u32
  at_clock :: u32
  at_format :: u32
  at_audio :: u32
  at_raw :: u32
  at_keys :: audio_keys
  at_S16 :: u32
  at_S32 :: u32
  at_F32 :: u32
  at_F64 :: u32
  at_wave_sine :: u32
  at_MemPtr :: u32
  at_MemFd :: u32
  at_DmaBuf :: u32
  at_Header :: u32
  at_Ringbuffer :: u32
  at_Start :: u32
  at_Pause :: u32

record ats_props =
  ap_live :: bool
  ap_wave :: u32
  ap_freq :: u64
  ap_volume :: u64

record 'a ats =
  ats_type :: ats_types
  ats_props :: ats_props
  ats_have_output :: bool
  ats_data_loop :: bool
  ats_timer :: "u64 \<times> u64"
  ats_flags :: u32
  ats_latency :: u64
  ats_io :: "spa_port_io option"
  ats_have_format :: bool
  ats_info :: audio_raw
  ats_bpf :: u64
  ats_render :: nat
  ats_acc :: 'a
  ats_pool :: buffer_pool
  ats_started :: bool
  ats_start_time :: u64
  ats_elapsed_time :: u64
  ats_sample_count :: u64
  ats_mem :: buffer_store

abbreviation (input) SPA_RESULT_WRONG_STATE :: spa_result where "SPA_RESULT_WRONG_STATE \<equiv> - 29"

definition SPA_NSEC_PER_SEC :: u64 where "SPA_NSEC_PER_SEC = 1000000000"
definition SPA_PORT_INFO_FLAG_CAN_USE_BUFFERS :: u32 where "SPA_PORT_INFO_FLAG_CAN_USE_BUFFERS = 8"
definition SPA_PORT_INFO_FLAG_NO_REF :: u32 where "SPA_PORT_INFO_FLAG_NO_REF = 32"
definition SPA_PORT_INFO_FLAG_LIVE :: u32 where "SPA_PORT_INFO_FLAG_LIVE = 64"

definition ATS_MAX_BUFFERS :: nat where "ATS_MAX_BUFFERS = 16"

definition ats_check_port :: "spa_direction \<Rightarrow> u32 \<Rightarrow> bool" where
  "ats_check_port d p \<longleftrightarrow> d = Dir_output \<and> p = 0"

text \<open>Doubles are given by their bits: 440.0 and 1.0.\<close>

definition reset_audiotestsrc_props :: "ats_types \<Rightarrow> ats_props" where
  "reset_audiotestsrc_props t =
     \<lparr>ap_live = True, ap_wave = at_wave_sine t, ap_freq = 0x407B800000000000, ap_volume = 0x3FF0000000000000\<rparr>"

definition audiotestsrc_init :: "ats_types \<Rightarrow> bool \<Rightarrow> 'a \<Rightarrow> buffer_store \<Rightarrow> 'a ats" where
  "audiotestsrc_init t data_loop acc mem =
     \<lparr>ats_type = t, ats_props = reset_audiotestsrc_props t, ats_have_output = False, ats_data_loop = data_loop,
      ats_timer = (0, 0),
      ats_flags = SPA_PORT_INFO_FLAG_CAN_USE_BUFFERS OR SPA_PORT_INFO_FLAG_NO_REF OR SPA_PORT_INFO_FLAG_LIVE,
      ats_latency = 0, ats_io = None, ats_have_format = False, ats_info = zero_audio_raw, ats_bpf = 0, ats_render = 0,
      ats_acc = acc, ats_pool = new_pool ATS_MAX_BUFFERS, ats_started = False, ats_start_time = 0, ats_elapsed_time = 0,
      ats_sample_count = 0, ats_mem = mem\<rparr>"

section \<open>Operations\<close>

text \<open>The new properties are \<open>None\<close> for a null pointer and otherwise list, in the order live, wave, frequency and
  volume, the values that were found.\<close>

definition spa_audiotestsrc_node_set_props ::
  "(bool option \<times> u32 option \<times> u64 option \<times> u64 option) option \<Rightarrow> 'a ats \<Rightarrow> spa_result \<times> 'a ats" where
  "spa_audiotestsrc_node_set_props props s =
     (let p = (case props of
                 None \<Rightarrow> reset_audiotestsrc_props (ats_type s)
               | Some (l, w, f, v) \<Rightarrow>
                   \<lparr>ap_live = (case l of Some b \<Rightarrow> b | None \<Rightarrow> ap_live (ats_props s)),
                    ap_wave = (case w of Some x \<Rightarrow> x | None \<Rightarrow> ap_wave (ats_props s)),
                    ap_freq = (case f of Some x \<Rightarrow> x | None \<Rightarrow> ap_freq (ats_props s)),
                    ap_volume = (case v of Some x \<Rightarrow> x | None \<Rightarrow> ap_volume (ats_props s))\<rparr>) in
      (SPA_RESULT_OK,
       s\<lparr>ats_props := p,
         ats_flags := (if ap_live p then ats_flags s OR SPA_PORT_INFO_FLAG_LIVE
                       else ats_flags s AND NOT SPA_PORT_INFO_FLAG_LIVE)\<rparr>))"

definition set_timer :: "bool \<Rightarrow> 'a ats \<Rightarrow> 'a ats" where
  "set_timer enabled s =
     (if ats_have_output s \<or> ap_live (ats_props s)
      then if enabled
           then if ap_live (ats_props s)
                then let next_time = ats_start_time s + ats_elapsed_time s in
                     s\<lparr>ats_timer := (next_time div SPA_NSEC_PER_SEC, next_time mod SPA_NSEC_PER_SEC)\<rparr>
                else s\<lparr>ats_timer := (0, 1)\<rparr>
           else s\<lparr>ats_timer := (0, 0)\<rparr>
      else s)"

type_synonym 'a frame_fun = "audio_raw \<Rightarrow> nat \<Rightarrow> u64 \<Rightarrow> u64 \<Rightarrow> 'a \<Rightarrow> byte list \<times> 'a"

text \<open>The loop of the render functions: so many frames, with the phase carried along.\<close>

fun render_frames :: "('a \<Rightarrow> byte list \<times> 'a) \<Rightarrow> nat \<Rightarrow> 'a \<Rightarrow> byte list \<times> 'a" where
  "render_frames fr 0 acc = ([], acc)"
| "render_frames fr (Suc n) acc =
     (let (bs, acc1) = fr acc; (rest, acc2) = render_frames fr n acc1 in (bs @ rest, acc2))"

definition ats_frame :: "'a frame_fun \<Rightarrow> 'a ats \<Rightarrow> 'a \<Rightarrow> byte list \<times> 'a" where
  "ats_frame frame s = frame (ats_info s) (ats_render s) (ap_freq (ats_props s)) (ap_volume (ats_props s))"

text \<open>Rendering \<open>n\<close> frames into the block of a buffer at an offset.\<close>

definition render_at :: "'a frame_fun \<Rightarrow> nat \<Rightarrow> nat \<Rightarrow> nat \<Rightarrow> 'a ats \<Rightarrow> 'a ats option" where
  "render_at frame addr off n s =
     (case sb_datas (ats_mem s addr) of
        [] \<Rightarrow> None
      | d # ds \<Rightarrow>
          (case sd_mem d of
             None \<Rightarrow> None
           | Some block \<Rightarrow>
               (let (bs, acc) = render_frames (ats_frame frame s) n (ats_acc s) in
                case mem_write block off bs of
                  None \<Rightarrow> None
                | Some block' \<Rightarrow>
                    Some (s\<lparr>ats_acc := acc,
                      ats_mem := (ats_mem s)(addr := (ats_mem s addr)\<lparr>sb_datas := d\<lparr>sd_mem := Some block'\<rparr> # ds\<rparr>)\<rparr>))))"

definition ats_n_bytes :: "u32 \<Rightarrow> spa_port_io \<Rightarrow> u32" where
  "ats_n_bytes maxsize io =
     (if io_min_size io \<noteq> 0
      then let n = min maxsize (io_min_size io) in if io_max_size io < n then io_max_size io else n
      else maxsize)"

definition set_meta :: "nat \<Rightarrow> nat \<Rightarrow> spa_meta \<Rightarrow> 'a ats \<Rightarrow> 'a ats" where
  "set_meta addr i m s =
     s\<lparr>ats_mem := (ats_mem s)(addr := (ats_mem s addr)\<lparr>sb_metas :=
       (sb_metas (ats_mem s addr))[i := (fst (sb_metas (ats_mem s addr) ! i), m)]\<rparr>)\<rparr>"

text \<open>Rendering into a buffer with a ring, in two parts when the free space wraps, and into a plain one. The result
  has the number of frames by which the sample count grows.\<close>

definition make_ring_buffer ::
  "'a frame_fun \<Rightarrow> nat \<Rightarrow> nat \<Rightarrow> spa_ringbuffer \<Rightarrow> u32 \<Rightarrow> 'a ats \<Rightarrow> (u32 \<times> 'a ats) option" where
  "make_ring_buffer frame addr i rb n_bytes0 s =
     (let (filled, index) = spa_ringbuffer_get_write_index rb;
          avail = rb_size rb - filled;
          n_bytes = (if sint avail < sint n_bytes0 then avail else n_bytes0);
          n_samples = ucast (scast n_bytes div ats_bpf s :: u64) :: u32;
          offset = index AND rb_mask rb;
          rendered =
            (if offset + n_bytes > rb_size rb
             then let l0 = rb_size rb - offset in
                  case render_at frame addr (unat offset) (unat (ucast l0 div ats_bpf s)) s of
                    None \<Rightarrow> None
                  | Some s1 \<Rightarrow> render_at frame addr 0 (unat (ucast (n_bytes - l0) div ats_bpf s)) s1
             else render_at frame addr (unat offset) (unat (scast n_samples :: u64)) s) in
      case rendered of
        None \<Rightarrow> None
      | Some s2 \<Rightarrow> Some (n_samples, set_meta addr i (Meta_ringbuffer (spa_ringbuffer_write_update rb (index + n_bytes))) s2))"

definition make_plain_buffer :: "'a frame_fun \<Rightarrow> nat \<Rightarrow> u32 \<Rightarrow> 'a ats \<Rightarrow> (u32 \<times> 'a ats) option" where
  "make_plain_buffer frame addr n_bytes s =
     (let n_samples = ucast (scast n_bytes div ats_bpf s :: u64) :: u32 in
      case render_at frame addr 0 (unat (scast n_samples :: u64)) s of
        None \<Rightarrow> None
      | Some s1 \<Rightarrow>
          (case sb_datas (ats_mem s1 addr) of
             [] \<Rightarrow> None
           | d # ds \<Rightarrow>
               Some (n_samples,
                 s1\<lparr>ats_mem := (ats_mem s1)(addr := (ats_mem s1 addr)\<lparr>sb_datas :=
                   d\<lparr>sd_chunk := \<lparr>ck_offset = 0, ck_size = n_bytes, ck_stride = 0\<rparr>\<rparr> # ds\<rparr>)\<rparr>)))"

definition stamp_header :: "nat \<Rightarrow> nat option \<Rightarrow> 'a ats \<Rightarrow> 'a ats option" where
  "stamp_header addr h s =
     (case h of
        None \<Rightarrow> Some s
      | Some i \<Rightarrow>
          if length (sb_metas (ats_mem s addr)) \<le> i then None
          else case snd (sb_metas (ats_mem s addr) ! i) of
                 Meta_header m \<Rightarrow>
                   Some (set_meta addr i (Meta_header (m\<lparr>mh_seq := ucast (ats_sample_count s),
                     mh_pts := ats_start_time s + ats_elapsed_time s, mh_dts_offset := 0\<rparr>)) s)
               | _ \<Rightarrow> None)"

definition audiotestsrc_make_buffer :: "'a frame_fun \<Rightarrow> 'a ats \<Rightarrow> (spa_result \<times> 'a ats) option" where
  "audiotestsrc_make_buffer frame s =
     (case pool_take (ats_pool s) of
        None \<Rightarrow> Some (SPA_RESULT_OUT_OF_BUFFERS, set_timer False s)
      | Some (i, pool') \<Rightarrow>
          let s1 = s\<lparr>ats_pool := pool'\<rparr>; b = bp_buffers pool' ! i; addr = nbf_outbuf b in
          case (ats_io s, sb_datas (ats_mem s addr)) of
            (Some io, d # _) \<Rightarrow>
              if ats_bpf s = 0 \<or> ar_rate (ats_info s) = 0 then None
              else
                let n_bytes = ats_n_bytes (sd_maxsize d) io in
                case (case nbf_rb b of
                        None \<Rightarrow> make_plain_buffer frame addr n_bytes s1
                      | Some m \<Rightarrow>
                          if length (sb_metas (ats_mem s addr)) \<le> m then None
                          else case snd (sb_metas (ats_mem s addr) ! m) of
                                 Meta_ringbuffer rb \<Rightarrow> make_ring_buffer frame addr m rb n_bytes s1
                               | _ \<Rightarrow> None) of
                  None \<Rightarrow> None
                | Some (n_samples, s2) \<Rightarrow>
                    (case stamp_header addr (nbf_h b) s2 of
                       None \<Rightarrow> None
                     | Some s3 \<Rightarrow>
                         let count = ats_sample_count s3 + scast n_samples;
                             s4 = s3\<lparr>ats_sample_count := count,
                                     ats_elapsed_time := count * SPA_NSEC_PER_SEC div ucast (ar_rate (ats_info s3))\<rparr> in
                         Some (SPA_RESULT_HAVE_BUFFER,
                           (set_timer True s4)\<lparr>ats_io := Some (io\<lparr>io_buffer_id := sb_id (ats_mem s addr),
                             io_status := SPA_RESULT_HAVE_BUFFER\<rparr>)\<rparr>))
          | _ \<Rightarrow> None)"

text \<open>The timer handler; the flag tells that \<^verbatim>\<open>have_output\<close> was called.\<close>

definition audiotestsrc_on_output :: "'a frame_fun \<Rightarrow> 'a ats \<Rightarrow> (bool \<times> 'a ats) option" where
  "audiotestsrc_on_output frame s =
     map_option (\<lambda>(res, s'). (res = SPA_RESULT_HAVE_BUFFER \<and> ats_have_output s', s')) (audiotestsrc_make_buffer frame s)"

definition spa_audiotestsrc_node_send_command :: "u32 \<Rightarrow> u64 \<Rightarrow> 'a ats \<Rightarrow> spa_result \<times> 'a ats" where
  "spa_audiotestsrc_node_send_command cmd now s =
     (if cmd = at_Start (ats_type s) then
        if \<not> ats_have_format s then (SPA_RESULT_NO_FORMAT, s)
        else if bp_n_buffers (ats_pool s) = 0 then (SPA_RESULT_NO_BUFFERS, s)
        else if ats_started s then (SPA_RESULT_OK, s)
        else (SPA_RESULT_OK,
              set_timer True (s\<lparr>ats_start_time := (if ap_live (ats_props s) then now else 0),
                ats_sample_count := 0, ats_elapsed_time := 0, ats_started := True\<rparr>))
      else if cmd = at_Pause (ats_type s) then
        if \<not> ats_have_format s then (SPA_RESULT_NO_FORMAT, s)
        else if bp_n_buffers (ats_pool s) = 0 then (SPA_RESULT_NO_BUFFERS, s)
        else if \<not> ats_started s then (SPA_RESULT_OK, s)
        else (SPA_RESULT_OK, set_timer False (s\<lparr>ats_started := False\<rparr>))
      else (SPA_RESULT_NOT_IMPLEMENTED, s))"

definition spa_audiotestsrc_node_set_callbacks :: "bool \<Rightarrow> 'a ats \<Rightarrow> spa_result \<times> 'a ats" where
  "spa_audiotestsrc_node_set_callbacks have_output s =
     (if \<not> ats_data_loop s \<and> have_output then (SPA_RESULT_ERROR, s)
      else (SPA_RESULT_OK, s\<lparr>ats_have_output := have_output\<rparr>))"

definition ats_enum_format :: "ats_types \<Rightarrow> spa_format" where
  "ats_enum_format t =
     \<lparr>fmt_type = at_format t, fmt_media_type = at_audio t, fmt_media_subtype = at_raw t,
      fmt_props = map Entry_prop
        [prop_u_en (ak_format (at_keys t)) SPA_POD_TYPE_ID
           [Pv_word (at_S16 t), Pv_word (at_S16 t), Pv_word (at_S32 t), Pv_word (at_F32 t), Pv_word (at_F64 t)],
         prop_u_mm (ak_rate (at_keys t)) SPA_POD_TYPE_INT (Pv_word 44100) (Pv_word 1) (Pv_word 0x7fffffff),
         prop_u_mm (ak_channels (at_keys t)) SPA_POD_TYPE_INT (Pv_word 2) (Pv_word 1) (Pv_word 0x7fffffff)]\<rparr>"

definition spa_audiotestsrc_node_port_enum_formats ::
  "(u64 \<Rightarrow> u64 \<Rightarrow> int) \<Rightarrow> spa_direction \<Rightarrow> u32 \<Rightarrow> spa_format option \<Rightarrow> u32 \<Rightarrow> 'a ats \<Rightarrow> (spa_result \<times> spa_format option) option" where
  "spa_audiotestsrc_node_port_enum_formats fdiff d p flt index s =
     (if \<not> ats_check_port d p then Some (SPA_RESULT_INVALID_PORT, None)
      else enum_one_format fdiff (ats_enum_format (ats_type s)) flt index)"

definition ats_clear_buffers :: "'a ats \<Rightarrow> 'a ats" where
  "ats_clear_buffers s =
     (if bp_n_buffers (ats_pool s) > 0
      then set_timer False (s\<lparr>ats_pool := pool_clear (ats_pool s), ats_started := False\<rparr>)
      else s)"

definition ats_format_index :: "ats_types \<Rightarrow> u32 \<Rightarrow> nat option" where
  "ats_format_index t f =
     (if f = at_S16 t then Some 0 else if f = at_S32 t then Some 1 else if f = at_F32 t then Some 2
      else if f = at_F64 t then Some 3 else None)"

definition sample_sizes :: "u32 list" where "sample_sizes = [2, 4, 4, 8]"

text \<open>The latency is the time of 1024 bytes.\<close>

definition spa_audiotestsrc_node_port_set_format ::
  "spa_direction \<Rightarrow> u32 \<Rightarrow> spa_format option \<Rightarrow> 'a ats \<Rightarrow> (spa_result \<times> 'a ats) option" where
  "spa_audiotestsrc_node_port_set_format d p fmt s =
     (if \<not> ats_check_port d p then Some (SPA_RESULT_INVALID_PORT, s)
      else case fmt of
        None \<Rightarrow> Some (SPA_RESULT_OK, ats_clear_buffers (s\<lparr>ats_have_format := False\<rparr>))
      | Some f \<Rightarrow>
          if fmt_media_type f \<noteq> at_audio (ats_type s) \<or> fmt_media_subtype f \<noteq> at_raw (ats_type s)
          then Some (SPA_RESULT_INVALID_MEDIA_TYPE, s)
          else case spa_format_audio_raw_parse (at_keys (ats_type s)) (fmt_props f) zero_audio_raw of
            None \<Rightarrow> None
          | Some (ok, info) \<Rightarrow>
              if \<not> ok then Some (SPA_RESULT_INVALID_MEDIA_TYPE, s)
              else case ats_format_index (ats_type s) (ar_format info) of
                None \<Rightarrow> Some (SPA_RESULT_INVALID_MEDIA_TYPE, s)
              | Some idx \<Rightarrow>
                  let bpf = ucast (sample_sizes ! idx * ar_channels info) :: u64;
                      s1 = s\<lparr>ats_bpf := bpf, ats_info := info, ats_have_format := True, ats_render := idx\<rparr> in
                  if bpf = 0 \<or> ar_rate info = 0 then None
                  else Some (SPA_RESULT_OK, s1\<lparr>ats_latency := (1024 div bpf) * SPA_NSEC_PER_SEC div ucast (ar_rate info)\<rparr>))"

definition spa_audiotestsrc_node_port_get_format :: "spa_direction \<Rightarrow> u32 \<Rightarrow> 'a ats \<Rightarrow> spa_result \<times> spa_format option" where
  "spa_audiotestsrc_node_port_get_format d p s =
     (if \<not> ats_check_port d p then (SPA_RESULT_INVALID_PORT, None)
      else if \<not> ats_have_format s then (SPA_RESULT_NO_FORMAT, None)
      else (SPA_RESULT_OK,
        Some \<lparr>fmt_type = at_format (ats_type s), fmt_media_type = at_audio (ats_type s), fmt_media_subtype = at_raw (ats_type s),
          fmt_props = map Entry_prop
            [prop_plain (ak_format (at_keys (ats_type s))) SPA_POD_TYPE_ID (Pv_word (ar_format (ats_info s))),
             prop_plain (ak_rate (at_keys (ats_type s))) SPA_POD_TYPE_INT (Pv_word (ar_rate (ats_info s))),
             prop_plain (ak_channels (at_keys (ats_type s))) SPA_POD_TYPE_INT (Pv_word (ar_channels (ats_info s)))]\<rparr>))"

text \<open>The loop over the new buffers; the error that it logs for missing memory changes nothing.\<close>

fun ats_use_buffers_from :: "nat \<Rightarrow> nat list \<Rightarrow> 'a ats \<Rightarrow> 'a ats option" where
  "ats_use_buffers_from i [] s = Some s"
| "ats_use_buffers_from i (addr # addrs) s =
     (if ATS_MAX_BUFFERS \<le> i \<or> sb_datas (ats_mem s addr) = [] then None
      else
        let b = \<lparr>nbf_outbuf = addr, nbf_outstanding = False,
                 nbf_h = spa_buffer_find_meta (ats_mem s addr) (at_Header (ats_type s)),
                 nbf_rb = spa_buffer_find_meta (ats_mem s addr) (at_Ringbuffer (ats_type s))\<rparr>;
            pool = ats_pool s in
        case pool_append i (pool\<lparr>bp_buffers := (bp_buffers pool)[i := b]\<rparr>) of
          None \<Rightarrow> None
        | Some pool' \<Rightarrow> ats_use_buffers_from (i + 1) addrs (s\<lparr>ats_pool := pool'\<rparr>))"

definition spa_audiotestsrc_node_port_use_buffers ::
  "spa_direction \<Rightarrow> u32 \<Rightarrow> nat list \<Rightarrow> 'a ats \<Rightarrow> (spa_result \<times> 'a ats) option" where
  "spa_audiotestsrc_node_port_use_buffers d p addrs s =
     (if \<not> ats_check_port d p then Some (SPA_RESULT_INVALID_PORT, s)
      else if \<not> ats_have_format s then Some (SPA_RESULT_NO_FORMAT, s)
      else case ats_use_buffers_from 0 addrs (ats_clear_buffers s) of
             None \<Rightarrow> None
           | Some s' \<Rightarrow> Some (SPA_RESULT_OK, s'\<lparr>ats_pool := (ats_pool s')\<lparr>bp_n_buffers := of_nat (length addrs)\<rparr>\<rparr>))"

definition spa_audiotestsrc_node_port_alloc_buffers :: "spa_direction \<Rightarrow> u32 \<Rightarrow> 'a ats \<Rightarrow> spa_result" where
  "spa_audiotestsrc_node_port_alloc_buffers d p s =
     (if \<not> ats_check_port d p then SPA_RESULT_INVALID_PORT
      else if \<not> ats_have_format s then SPA_RESULT_NO_FORMAT
      else SPA_RESULT_NOT_IMPLEMENTED)"

definition spa_audiotestsrc_node_port_set_io ::
  "spa_direction \<Rightarrow> u32 \<Rightarrow> spa_port_io option \<Rightarrow> 'a ats \<Rightarrow> spa_result \<times> 'a ats" where
  "spa_audiotestsrc_node_port_set_io d p io s =
     (if \<not> ats_check_port d p then (SPA_RESULT_INVALID_PORT, s) else (SPA_RESULT_OK, s\<lparr>ats_io := io\<rparr>))"

definition ats_reuse_buffer :: "u32 \<Rightarrow> 'a ats \<Rightarrow> 'a ats option" where
  "ats_reuse_buffer i s =
     (case pool_give (unat i) (ats_pool s) of
        None \<Rightarrow> None
      | Some (False, _) \<Rightarrow> Some s
      | Some (True, pool') \<Rightarrow>
          let s' = s\<lparr>ats_pool := pool'\<rparr> in
          Some (if \<not> ap_live (ats_props s') then set_timer True s' else s'))"

definition spa_audiotestsrc_node_port_reuse_buffer :: "u32 \<Rightarrow> u32 \<Rightarrow> 'a ats \<Rightarrow> (spa_result \<times> 'a ats) option" where
  "spa_audiotestsrc_node_port_reuse_buffer p i s =
     (if p \<noteq> 0 then Some (SPA_RESULT_INVALID_PORT, s)
      else if bp_n_buffers (ats_pool s) = 0 then Some (SPA_RESULT_NO_BUFFERS, s)
      else if \<not> i < bp_n_buffers (ats_pool s) then Some (SPA_RESULT_INVALID_BUFFER_ID, s)
      else map_option (Pair SPA_RESULT_OK) (ats_reuse_buffer i s))"

definition spa_audiotestsrc_node_process_output :: "'a frame_fun \<Rightarrow> 'a ats \<Rightarrow> (spa_result \<times> 'a ats) option" where
  "spa_audiotestsrc_node_process_output frame s =
     (case ats_io s of
        None \<Rightarrow> Some (SPA_RESULT_WRONG_STATE, s)
      | Some io \<Rightarrow>
          if io_status io = SPA_RESULT_HAVE_BUFFER then Some (SPA_RESULT_HAVE_BUFFER, s)
          else
            case (if io_buffer_id io \<noteq> SPA_ID_INVALID
                  then map_option (\<lambda>s'. s'\<lparr>ats_io := Some (io\<lparr>io_buffer_id := SPA_ID_INVALID\<rparr>)\<rparr>)
                         (ats_reuse_buffer (io_buffer_id io) s)
                  else Some s) of
              None \<Rightarrow> None
            | Some s1 \<Rightarrow>
                if \<not> ats_have_output s1 \<and> io_status io = SPA_RESULT_NEED_BUFFER
                then audiotestsrc_make_buffer frame s1
                else Some (SPA_RESULT_OK, s1))"

section \<open>Rendering stays inside the blocks\<close>

definition frame_ok :: "'a frame_fun \<Rightarrow> bool" where
  "frame_ok frame \<longleftrightarrow> (\<forall>info idx f v acc. idx < 4 \<longrightarrow> unat (ar_channels info) < 2 ^ 31 \<longrightarrow>
     length (fst (frame info idx f v acc)) = unat (sample_sizes ! idx) * unat (ar_channels info))"

lemma render_frames_length:
  assumes "\<And>acc. length (fst (fr acc)) = b"
  shows "length (fst (render_frames fr n acc)) = n * b"
proof (induction n arbitrary: acc)
  case (Suc n)
  obtain bs acc1 where f: "fr acc = (bs, acc1)" by force
  obtain rest acc2 where r: "render_frames fr n acc1 = (rest, acc2)" by force
  have "length bs = b" "length rest = n * b" using assms [of acc] Suc.IH [of acc1] f r by simp_all
  then show ?case using f r by simp
qed simp

lemma frames_of_bytes: "unat n < 2 ^ 31 \<Longrightarrow> unat (scast (n :: u32) div b :: u64) = unat n div unat b"
  by (simp add: unat_div unat_scast_u64)

lemma sample_count:
  assumes n: "unat n < 2 ^ 31"
  shows "unat (ucast (scast (n :: u32) div b :: u64) :: u32) = unat n div unat b" (is ?a)
    and "unat (scast (ucast (scast n div b :: u64) :: u32) :: u64) = unat n div unat b" (is ?b)
proof -
  let ?w = "ucast (scast n div b :: u64) :: u32"
  have le: "unat n div unat b < 2 ^ 31" using n by (meson div_le_dividend le_less_trans)
  have "unat ?w = take_bit 32 (unat (scast n div b :: u64))" by (simp only: unsigned_ucast_eq) simp
  then show a: ?a using frames_of_bytes [OF n, of b] le by (simp add: take_bit_nat_eq_self)
  show ?b using unat_scast_u64 [of ?w] a le by simp
qed

section \<open>Buffers and the invariant\<close>

definition ring_ok :: "spa_ringbuffer \<Rightarrow> nat \<Rightarrow> bool" where
  "ring_ok rb len \<longleftrightarrow> rb_size rb \<noteq> 0 \<and> unat (rb_size rb) \<le> 2 ^ 30 \<and> rb_mask rb = rb_size rb - 1 \<and>
     unat (rb_size rb) \<le> len \<and> writeindex rb - readindex rb \<le> rb_size rb"

definition header_meta_ok :: "ats_types \<Rightarrow> spa_buffer \<Rightarrow> bool" where
  "header_meta_ok t b \<longleftrightarrow>
     (case spa_buffer_find_meta b (at_Header t) of
        None \<Rightarrow> True
      | Some i \<Rightarrow> (case snd (sb_metas b ! i) of Meta_header _ \<Rightarrow> True | _ \<Rightarrow> False))"

definition ring_meta_ok :: "ats_types \<Rightarrow> spa_buffer \<Rightarrow> nat \<Rightarrow> bool" where
  "ring_meta_ok t b len \<longleftrightarrow>
     (case spa_buffer_find_meta b (at_Ringbuffer t) of
        None \<Rightarrow> True
      | Some i \<Rightarrow> (case snd (sb_metas b ! i) of Meta_ringbuffer rb \<Rightarrow> ring_ok rb len | _ \<Rightarrow> False))"

text \<open>A buffer that the host may give: its first block of memory is there and as large as it says, and its metadata
  have the contents of their type.\<close>

definition buffer_ok :: "ats_types \<Rightarrow> spa_buffer \<Rightarrow> bool" where
  "buffer_ok t b \<longleftrightarrow>
     (case sb_datas b of
        [] \<Rightarrow> False
      | d # _ \<Rightarrow>
          (case sd_mem d of
             None \<Rightarrow> False
           | Some block \<Rightarrow>
               unat (sd_maxsize d) \<le> length block \<and> unat (sd_maxsize d) < 2 ^ 31 \<and>
               header_meta_ok t b \<and> ring_meta_ok t b (length block)))"

definition info_ok :: "audio_raw \<Rightarrow> nat \<Rightarrow> bool" where
  "info_ok info idx \<longleftrightarrow> idx < 4 \<and> ar_rate info \<noteq> 0 \<and> ar_channels info \<noteq> 0 \<and>
     unat (sample_sizes ! idx) * unat (ar_channels info) < 2 ^ 31"

definition ats_inv :: "'a ats \<Rightarrow> bool" where
  "ats_inv s \<longleftrightarrow> pool_ok (ats_pool s) \<and> length (bp_buffers (ats_pool s)) = ATS_MAX_BUFFERS \<and>
     (ats_have_format s \<longrightarrow> info_ok (ats_info s) (ats_render s) \<and>
        ats_bpf s = ucast (sample_sizes ! ats_render s * ar_channels (ats_info s))) \<and>
     (bp_n_buffers (ats_pool s) \<noteq> 0 \<longrightarrow> ats_have_format s) \<and>
     (\<forall>i < unat (bp_n_buffers (ats_pool s)). let b = bp_buffers (ats_pool s) ! i; buf = ats_mem s (nbf_outbuf b) in
        buffer_ok (ats_type s) buf \<and> nbf_h b = spa_buffer_find_meta buf (at_Header (ats_type s)) \<and>
        nbf_rb b = spa_buffer_find_meta buf (at_Ringbuffer (ats_type s)))"

lemma find_meta_from_bound:
  "find_meta_from ms k t = Some i \<Longrightarrow> k \<le> i \<and> i < k + length ms \<and> fst (ms ! (i - k)) = t"
proof (induction ms k t rule: find_meta_from.induct)
  case (2 t' m ms k t)
  show ?case
  proof (cases "t' = t")
    case False
    then have f: "find_meta_from ms (k + 1) t = Some i" using 2(2) by simp
    from 2(1) [OF False f] have "k + 1 \<le> i" "i < k + 1 + length ms" "fst (ms ! (i - (k + 1))) = t" by auto
    moreover have "i - k = Suc (i - (k + 1))" using \<open>k + 1 \<le> i\<close> by simp
    ultimately show ?thesis by simp
  qed (use 2(2) in simp)
qed simp

lemma find_meta_bound: "spa_buffer_find_meta b t = Some i \<Longrightarrow> i < length (sb_metas b) \<and> fst (sb_metas b ! i) = t"
  using find_meta_from_bound [of "sb_metas b" 0 t i] by (simp add: spa_buffer_find_meta_def)

lemma find_meta_from_cong: "map fst ms = map fst ms' \<Longrightarrow> find_meta_from ms k t = find_meta_from ms' k t"
proof (induction ms arbitrary: ms' k)
  case (Cons m ms)
  then obtain m' ms'' where "ms' = m' # ms''" "fst m = fst m'" "map fst ms = map fst ms''" by (cases ms') auto
  then show ?case using Cons.IH by (cases m; cases m') simp
qed simp

lemma find_meta_cong:
  "map fst (sb_metas b) = map fst (sb_metas b') \<Longrightarrow> spa_buffer_find_meta b t = spa_buffer_find_meta b' t"
  unfolding spa_buffer_find_meta_def by (rule find_meta_from_cong)

text \<open>What the operations may do to a buffer.\<close>

definition same_shape :: "ats_types \<Rightarrow> spa_buffer \<Rightarrow> spa_buffer \<Rightarrow> bool" where
  "same_shape t b b' \<longleftrightarrow> map fst (sb_metas b') = map fst (sb_metas b) \<and> (buffer_ok t b \<longrightarrow> buffer_ok t b')"

definition mem_change :: "nat \<Rightarrow> 'a ats \<Rightarrow> 'a ats \<Rightarrow> bool" where
  "mem_change addr s s' \<longleftrightarrow> (\<exists>acc mem. s' = s\<lparr>ats_acc := acc, ats_mem := mem\<rparr> \<and>
     (\<forall>a. same_shape (ats_type s) (ats_mem s a) (mem a)) \<and> (\<forall>a. a \<noteq> addr \<longrightarrow> mem a = ats_mem s a))"

lemma same_shape_refl [simp]: "same_shape t b b"
  by (simp add: same_shape_def)

lemma same_shape_trans: "\<lbrakk>same_shape t b b'; same_shape t b' b''\<rbrakk> \<Longrightarrow> same_shape t b b''"
  by (simp add: same_shape_def)

lemma mem_change_refl [simp]: "mem_change addr s s"
  unfolding mem_change_def by (intro exI [of _ "ats_acc s"] exI [of _ "ats_mem s"]) simp

lemma mem_change_trans:
  assumes "mem_change addr s s'" and "mem_change addr s' s''"
  shows "mem_change addr s s''"
proof -
  obtain acc mem where 1: "s' = s\<lparr>ats_acc := acc, ats_mem := mem\<rparr>"
    and m1: "\<forall>a. same_shape (ats_type s) (ats_mem s a) (mem a)" "\<forall>a. a \<noteq> addr \<longrightarrow> mem a = ats_mem s a"
    using assms(1) unfolding mem_change_def by blast
  obtain acc' mem' where 2: "s'' = s'\<lparr>ats_acc := acc', ats_mem := mem'\<rparr>"
    and m2: "\<forall>a. same_shape (ats_type s') (ats_mem s' a) (mem' a)" "\<forall>a. a \<noteq> addr \<longrightarrow> mem' a = ats_mem s' a"
    using assms(2) unfolding mem_change_def by blast
  have t: "ats_type s' = ats_type s" and m: "ats_mem s' = mem" using 1 by simp_all
  have "s'' = s\<lparr>ats_acc := acc', ats_mem := mem'\<rparr>" using 1 2 by simp
  moreover have "\<forall>a. same_shape (ats_type s) (ats_mem s a) (mem' a)"
    using m1(1) m2(1) unfolding t m by (blast intro: same_shape_trans)
  moreover have "\<forall>a. a \<noteq> addr \<longrightarrow> mem' a = ats_mem s a" using m1(2) m2(2) unfolding m by simp
  ultimately show ?thesis unfolding mem_change_def by blast
qed

lemma mem_change_simps:
  assumes "mem_change addr s s'"
  shows "ats_type s' = ats_type s" "ats_info s' = ats_info s" "ats_render s' = ats_render s" "ats_bpf s' = ats_bpf s" "ats_pool s' = ats_pool s" "ats_io s' = ats_io s"
    "ats_props s' = ats_props s" "ats_have_output s' = ats_have_output s" "ats_start_time s' = ats_start_time s" "ats_elapsed_time s' = ats_elapsed_time s" "ats_sample_count s' = ats_sample_count s" "ats_have_format s' = ats_have_format s"
  using assms unfolding mem_change_def by (elim exE conjE, simp)+

section \<open>Rendering keeps the buffers\<close>

text \<open>A buffer in whose block only the contents have changed.\<close>

lemma metas_cong:
  assumes "sb_metas b' = sb_metas b"
  shows "header_meta_ok t b' = header_meta_ok t b" and "ring_meta_ok t b' len = ring_meta_ok t b len"
  using assms by (simp_all only: header_meta_ok_def ring_meta_ok_def spa_buffer_find_meta_def)

lemma same_shape_data:
  assumes "sb_metas b' = sb_metas b" and "sb_datas b = d # ds" and "sb_datas b' = d' # ds"
    and "sd_maxsize d' = sd_maxsize d" and "map_option length (sd_mem d') = map_option length (sd_mem d)"
  shows "same_shape t b b'"
  using assms metas_cong [OF assms(1)] by (cases "sd_mem d"; cases "sd_mem d'") (auto simp: same_shape_def buffer_ok_def)

lemma sample_size_pos:
  assumes "idx < 4"
  shows "0 < unat (sample_sizes ! idx)"
proof -
  consider "idx = 0" | "idx = 1" | "idx = 2" | "idx = 3" using assms by linarith
  then show ?thesis by cases (simp_all add: sample_sizes_def)
qed

lemma ats_frame_length:
  assumes "frame_ok frame" and "info_ok (ats_info s) (ats_render s)"
  shows "length (fst (ats_frame frame s acc)) = unat (sample_sizes ! ats_render s) * unat (ar_channels (ats_info s))"
proof -
  have i: "ats_render s < 4" and r: "unat (sample_sizes ! ats_render s) * unat (ar_channels (ats_info s)) < 2 ^ 31"
    using assms(2) by (simp_all add: info_ok_def)
  have "1 \<le> unat (sample_sizes ! ats_render s)" using sample_size_pos [OF i] by simp
  then have "unat (ar_channels (ats_info s)) \<le> unat (sample_sizes ! ats_render s) * unat (ar_channels (ats_info s))"
    by (metis mult.commute mult_le_mono2 mult.right_neutral)
  then have "unat (ar_channels (ats_info s)) < 2 ^ 31" using r by linarith
  then show ?thesis using assms(1) i unfolding frame_ok_def ats_frame_def by blast
qed

lemma bpf_bytes:
  assumes "info_ok info idx"
  shows "unat (ucast (sample_sizes ! idx * ar_channels info) :: u64) = unat (sample_sizes ! idx) * unat (ar_channels info)"
proof -
  have "unat (sample_sizes ! idx * ar_channels info) = unat (sample_sizes ! idx) * unat (ar_channels info)"
    using assms by (subst unat_mult_lem [THEN iffD1]) (auto simp: info_ok_def)
  then show ?thesis using assms by (simp add: unsigned_ucast_eq take_bit_nat_eq_self info_ok_def)
qed

lemma render_at_plain:
  assumes f: "frame_ok frame" and i: "info_ok (ats_info s) (ats_render s)"
    and d: "sb_datas (ats_mem s addr) = d # ds" and m: "sd_mem d = Some block"
    and fits: "off + n * (unat (sample_sizes ! ats_render s) * unat (ar_channels (ats_info s))) \<le> length block"
  obtains bs acc where "render_frames (ats_frame frame s) n (ats_acc s) = (bs, acc)"
    and "length bs = n * (unat (sample_sizes ! ats_render s) * unat (ar_channels (ats_info s)))"
    and "render_at frame addr off n s = Some (s\<lparr>ats_acc := acc, ats_mem := (ats_mem s)(addr := (ats_mem s addr)
      \<lparr>sb_datas := d\<lparr>sd_mem := Some (take off block @ bs @ drop (off + length bs) block)\<rparr> # ds\<rparr>)\<rparr>)"
proof -
  obtain bs acc where r: "render_frames (ats_frame frame s) n (ats_acc s) = (bs, acc)" by force
  have l: "length bs = n * (unat (sample_sizes ! ats_render s) * unat (ar_channels (ats_info s)))"
    using render_frames_length [where fr = "ats_frame frame s" and n = n and acc = "ats_acc s", OF ats_frame_length [OF f i]] r
    by simp
  show ?thesis by (rule that [OF r l]) (use d m fits l r in \<open>simp add: render_at_def mem_write_def\<close>)
qed

lemma render_at_change:
  assumes f: "frame_ok frame" and i: "info_ok (ats_info s) (ats_render s)"
    and d: "sb_datas (ats_mem s addr) = d # ds" and m: "sd_mem d = Some block"
    and fits: "off + n * (unat (sample_sizes ! ats_render s) * unat (ar_channels (ats_info s))) \<le> length block"
  obtains s' block' where "render_at frame addr off n s = Some s'" and "mem_change addr s s'"
    and "sb_datas (ats_mem s' addr) = d\<lparr>sd_mem := Some block'\<rparr> # ds" and "length block' = length block"
    and "sb_metas (ats_mem s' addr) = sb_metas (ats_mem s addr)" and "sb_id (ats_mem s' addr) = sb_id (ats_mem s addr)"
proof -
  from f i d m fits obtain bs acc where l: "length bs = n * (unat (sample_sizes ! ats_render s) * unat (ar_channels (ats_info s)))"
    and r: "render_at frame addr off n s = Some (s\<lparr>ats_acc := acc, ats_mem := (ats_mem s)(addr := (ats_mem s addr)
      \<lparr>sb_datas := d\<lparr>sd_mem := Some (take off block @ bs @ drop (off + length bs) block)\<rparr> # ds\<rparr>)\<rparr>)"
    by (rule render_at_plain)
  let ?block = "take off block @ bs @ drop (off + length bs) block"
  let ?mem = "(ats_mem s)(addr := (ats_mem s addr)\<lparr>sb_datas := d\<lparr>sd_mem := Some ?block\<rparr> # ds\<rparr>)"
  have len: "length ?block = length block" using fits l by simp
  have "same_shape (ats_type s) (ats_mem s a) (?mem a)" for a
    by (cases "a = addr") (simp_all add: same_shape_data [OF _ d] m l fits)
  then have "mem_change addr s (s\<lparr>ats_acc := acc, ats_mem := ?mem\<rparr>)"
    unfolding mem_change_def by (intro exI [of _ acc] exI [of _ ?mem]) auto
  from that [OF r this _ len] show ?thesis by simp
qed

text \<open>The two ways to fill a buffer.\<close>

lemma buffer_okD:
  assumes "buffer_ok t b"
  obtains d ds block where "sb_datas b = d # ds" and "sd_mem d = Some block"
    and "unat (sd_maxsize d) \<le> length block" and "unat (sd_maxsize d) < 2 ^ 31"
    and "header_meta_ok t b" and "ring_meta_ok t b (length block)"
proof (cases "sb_datas b")
  case (Cons d ds)
  then obtain block where "sd_mem d = Some block" using assms by (cases "sd_mem d") (auto simp: buffer_ok_def)
  with assms Cons that show ?thesis by (auto simp: buffer_ok_def)
qed (use assms in \<open>simp add: buffer_ok_def\<close>)

lemma buffer_ok_metas:
  assumes b: "buffer_ok t b" and d: "sb_datas b' = sb_datas b" and h: "header_meta_ok t b'"
    and r: "\<And>len. ring_meta_ok t b len \<Longrightarrow> ring_meta_ok t b' len"
  shows "buffer_ok t b'"
  using b d h r by (auto simp: buffer_ok_def split: list.splits option.splits)

lemma ats_n_bytes_le: "ats_n_bytes maxsize io \<le> maxsize"
  by (auto simp: ats_n_bytes_def Let_def min_def)

definition ats_fmt_ok :: "'a ats \<Rightarrow> bool" where
  "ats_fmt_ok s \<longleftrightarrow> info_ok (ats_info s) (ats_render s) \<and>
     ats_bpf s = ucast (sample_sizes ! ats_render s * ar_channels (ats_info s))"

lemma ats_fmt_ok_change: "mem_change addr s s' \<Longrightarrow> ats_fmt_ok s' = ats_fmt_ok s"
  by (simp add: ats_fmt_ok_def mem_change_simps)

lemma bpf_eq:
  "ats_fmt_ok s \<Longrightarrow> unat (sample_sizes ! ats_render s) * unat (ar_channels (ats_info s)) = unat (ats_bpf s)"
  by (simp add: ats_fmt_ok_def bpf_bytes)

lemma bpf_nonzero:
  assumes "ats_fmt_ok s"
  shows "ats_bpf s \<noteq> 0"
proof -
  have "ats_render s < 4" "ar_channels (ats_info s) \<noteq> 0" using assms by (simp_all add: ats_fmt_ok_def info_ok_def)
  then have "0 < unat (sample_sizes ! ats_render s) * unat (ar_channels (ats_info s))"
    using sample_size_pos [of "ats_render s"] unat_eq_zero [of "ar_channels (ats_info s)"] by simp
  then show ?thesis using bpf_eq [OF assms] by auto
qed

lemma render_bytes:
  assumes f: "frame_ok frame" and i: "ats_fmt_ok s"
    and d: "sb_datas (ats_mem s addr) = d # ds" and m: "sd_mem d = Some block"
    and fits: "off + n \<le> length block"
  obtains s' block' where "render_at frame addr off (n div unat (ats_bpf s)) s = Some s'" and "mem_change addr s s'"
    and "sb_datas (ats_mem s' addr) = d\<lparr>sd_mem := Some block'\<rparr> # ds" and "length block' = length block"
    and "sb_metas (ats_mem s' addr) = sb_metas (ats_mem s addr)" and "sb_id (ats_mem s' addr) = sb_id (ats_mem s addr)"
proof -
  have i': "info_ok (ats_info s) (ats_render s)" using i by (simp add: ats_fmt_ok_def)
  have "n div unat (ats_bpf s) * unat (ats_bpf s) \<le> n" by (rule div_times_less_eq_dividend)
  then have "off + n div unat (ats_bpf s) * (unat (sample_sizes ! ats_render s) * unat (ar_channels (ats_info s))) \<le> length block"
    using fits unfolding bpf_eq [OF i] by linarith
  from render_at_change [OF f i' d m this that] show thesis .
qed

lemma make_plain_buffer_change:
  assumes f: "frame_ok frame" and i: "ats_fmt_ok s" and b: "buffer_ok (ats_type s) (ats_mem s addr)"
    and d: "sb_datas (ats_mem s addr) = d # ds" and n: "n \<le> sd_maxsize d"
  obtains s' where "make_plain_buffer frame addr n s = Some (ucast (scast n div ats_bpf s :: u64), s')"
    and "mem_change addr s s'" and "sb_metas (ats_mem s' addr) = sb_metas (ats_mem s addr)"
    and "sb_id (ats_mem s' addr) = sb_id (ats_mem s addr)"
proof -
  from b obtain block where m: "sd_mem d = Some block" and l: "unat (sd_maxsize d) \<le> length block" "unat (sd_maxsize d) < 2 ^ 31"
    using d by (metis buffer_okD list.inject)
  have n': "unat n < 2 ^ 31" "0 + unat n \<le> length block" using n l by (simp_all add: word_le_nat_alt)
  from f i d m n'(2) obtain s1 block' where
    r: "render_at frame addr 0 (unat n div unat (ats_bpf s)) s = Some s1" and c: "mem_change addr s s1"
    and d1: "sb_datas (ats_mem s1 addr) = d\<lparr>sd_mem := Some block'\<rparr> # ds" and "length block' = length block"
    and m1: "sb_metas (ats_mem s1 addr) = sb_metas (ats_mem s addr)" and id: "sb_id (ats_mem s1 addr) = sb_id (ats_mem s addr)"
    by (rule render_bytes)
  let ?d = "d\<lparr>sd_mem := Some block', sd_chunk := \<lparr>ck_offset = 0, ck_size = n, ck_stride = 0\<rparr>\<rparr>"
  let ?b = "(ats_mem s1 addr)\<lparr>sb_datas := ?d # ds\<rparr>"
  let ?s = "s1\<lparr>ats_mem := (ats_mem s1)(addr := ?b)\<rparr>"
  have r': "render_at frame addr 0 (unat (scast (ucast (scast n div ats_bpf s :: u64) :: u32) :: u64)) s = Some s1"
    using r by (simp only: sample_count [OF n'(1)])
  have shape: "same_shape (ats_type s1) (ats_mem s1 addr) ?b"
    using d1 by (intro same_shape_data [OF _ d1, where d' = ?d]) simp_all
  have "mem_change addr s1 ?s"
    unfolding mem_change_def by (intro exI [of _ "ats_acc s1"] exI [of _ "(ats_mem s1)(addr := ?b)"]) (simp add: shape)
  then have "mem_change addr s ?s" by (rule mem_change_trans [OF c])
  moreover have "make_plain_buffer frame addr n s = Some (ucast (scast n div ats_bpf s :: u64), ?s)"
    using r' d1 by (simp add: make_plain_buffer_def Let_def)
  ultimately show ?thesis using that m1 id by simp
qed

lemma sint_small: "unat (w :: u32) < 2 ^ 31 \<Longrightarrow> sint w = int (unat w)"
  by (simp add: sint_uint signed_take_bit_int_eq_self uint_nat del: of_nat_unat)

lemma set_meta_fst: "map fst (ms[i := (fst (ms ! i), m)]) = map fst ms"
proof (rule nth_equalityI)
  show "map fst (ms[i := (fst (ms ! i), m)]) ! k = map fst ms ! k" if "k < length (map fst (ms[i := (fst (ms ! i), m)]))" for k
    using that by (cases "i = k") auto
qed simp

lemma set_meta_change:
  assumes i: "i < length (sb_metas (ats_mem s addr))"
    and ok: "buffer_ok (ats_type s) (ats_mem s addr) \<Longrightarrow>
      buffer_ok (ats_type s) ((ats_mem s addr)\<lparr>sb_metas := (sb_metas (ats_mem s addr))[i := (fst (sb_metas (ats_mem s addr) ! i), m)]\<rparr>)"
  shows "mem_change addr s (set_meta addr i m s)"
proof -
  let ?b = "(ats_mem s addr)\<lparr>sb_metas := (sb_metas (ats_mem s addr))[i := (fst (sb_metas (ats_mem s addr) ! i), m)]\<rparr>"
  have "same_shape (ats_type s) (ats_mem s addr) ?b" using ok by (simp add: same_shape_def set_meta_fst)
  then show ?thesis
    unfolding mem_change_def set_meta_def
    by (intro exI [of _ "ats_acc s"] exI [of _ "(ats_mem s)(addr := ?b)"]) simp
qed

lemma find_meta_update:
  "spa_buffer_find_meta (b\<lparr>sb_metas := (sb_metas b)[i := (fst (sb_metas b ! i), m)]\<rparr>) t = spa_buffer_find_meta b t"
  by (rule find_meta_cong) (simp add: set_meta_fst)

lemma buffer_ok_set_header:
  assumes b: "buffer_ok t b" and h: "spa_buffer_find_meta b (at_Header t) = Some i"
  shows "buffer_ok t (b\<lparr>sb_metas := (sb_metas b)[i := (fst (sb_metas b ! i), Meta_header mh)]\<rparr>)"
proof (rule buffer_ok_metas [OF b])
  have i: "i < length (sb_metas b)" using find_meta_bound [OF h] by simp
  show "header_meta_ok t (b\<lparr>sb_metas := (sb_metas b)[i := (fst (sb_metas b ! i), Meta_header mh)]\<rparr>)"
    using i h by (simp add: header_meta_ok_def find_meta_update)
  fix len
  assume r: "ring_meta_ok t b len"
  have "header_meta_ok t b" using b by (rule buffer_okD)
  then have "spa_buffer_find_meta b (at_Ringbuffer t) = Some i \<Longrightarrow> False"
    using r h by (auto simp: header_meta_ok_def ring_meta_ok_def split: spa_meta.splits)
  then show "ring_meta_ok t (b\<lparr>sb_metas := (sb_metas b)[i := (fst (sb_metas b ! i), Meta_header mh)]\<rparr>) len"
    using r i unfolding ring_meta_ok_def find_meta_update
    by (auto simp: nth_list_update split: option.splits)
qed simp

lemma buffer_ok_set_ring:
  assumes b: "buffer_ok t b" and h: "spa_buffer_find_meta b (at_Ringbuffer t) = Some i"
    and rb: "\<And>len. ring_meta_ok t b len \<Longrightarrow> ring_ok rb len"
  shows "buffer_ok t (b\<lparr>sb_metas := (sb_metas b)[i := (fst (sb_metas b ! i), Meta_ringbuffer rb)]\<rparr>)"
proof (rule buffer_ok_metas [OF b])
  have i: "i < length (sb_metas b)" using find_meta_bound [OF h] by simp
  show "ring_meta_ok t (b\<lparr>sb_metas := (sb_metas b)[i := (fst (sb_metas b ! i), Meta_ringbuffer rb)]\<rparr>) len"
    if "ring_meta_ok t b len" for len
    using i h rb [OF that] by (simp add: ring_meta_ok_def find_meta_update)
  obtain len where r: "ring_meta_ok t b len" using b by (rule buffer_okD)
  have hd: "header_meta_ok t b" using b by (rule buffer_okD)
  have "spa_buffer_find_meta b (at_Header t) = Some i \<Longrightarrow> False"
    using r h hd by (auto simp: header_meta_ok_def ring_meta_ok_def split: spa_meta.splits)
  then show "header_meta_ok t (b\<lparr>sb_metas := (sb_metas b)[i := (fst (sb_metas b ! i), Meta_ringbuffer rb)]\<rparr>)"
    using hd i unfolding header_meta_ok_def find_meta_update by (auto simp: nth_list_update split: option.splits)
qed simp

lemma stamp_header_change:
  assumes b: "buffer_ok (ats_type s) (ats_mem s addr)" and h: "h = spa_buffer_find_meta (ats_mem s addr) (at_Header (ats_type s))"
  obtains s' where "stamp_header addr h s = Some s'" and "mem_change addr s s'"
    and "sb_id (ats_mem s' addr) = sb_id (ats_mem s addr)"
proof (cases h)
  case None
  then show ?thesis using that [of s] by (simp add: stamp_header_def)
next
  case (Some i)
  have i: "i < length (sb_metas (ats_mem s addr))" using find_meta_bound Some h by metis
  have "header_meta_ok (ats_type s) (ats_mem s addr)" using b by (rule buffer_okD)
  then obtain m where m: "snd (sb_metas (ats_mem s addr) ! i) = Meta_header m"
    using Some h by (auto simp: header_meta_ok_def split: spa_meta.splits option.splits)
  let ?m = "Meta_header (m\<lparr>mh_seq := ucast (ats_sample_count s), mh_pts := ats_start_time s + ats_elapsed_time s, mh_dts_offset := 0\<rparr>)"
  have "mem_change addr s (set_meta addr i ?m s)"
    using h Some by (intro set_meta_change i) (auto intro: buffer_ok_set_header)
  then show ?thesis
    using that [of "set_meta addr i ?m s"] Some i m by (simp add: stamp_header_def set_meta_def)
qed

lemma make_ring_buffer_change:
  assumes f: "frame_ok frame" and i: "ats_fmt_ok s" and b: "buffer_ok (ats_type s) (ats_mem s addr)"
    and h: "spa_buffer_find_meta (ats_mem s addr) (at_Ringbuffer (ats_type s)) = Some k"
    and rb: "snd (sb_metas (ats_mem s addr) ! k) = Meta_ringbuffer rb" and n0: "unat n0 < 2 ^ 31"
  obtains n s' where "make_ring_buffer frame addr k rb n0 s = Some (n, s')" and "mem_change addr s s'"
    and "sb_id (ats_mem s' addr) = sb_id (ats_mem s addr)"
proof -
  obtain d ds block where d: "sb_datas (ats_mem s addr) = d # ds" and m: "sd_mem d = Some block"
    and rm: "ring_meta_ok (ats_type s) (ats_mem s addr) (length block)"
    using b by (rule buffer_okD)
  have ring: "ring_ok rb len" if "ring_meta_ok (ats_type s) (ats_mem s addr) len" for len
    using that h rb by (simp add: ring_meta_ok_def)
  have k: "k < length (sb_metas (ats_mem s addr))" using find_meta_bound [OF h] by simp
  define index filled avail n offset where "index = writeindex rb" and "filled = index - readindex rb"
    and "avail = rb_size rb - filled" and "n = (if sint avail < sint n0 then avail else n0)" and "offset = index AND rb_mask rb"
  have sz: "rb_size rb \<noteq> 0" "unat (rb_size rb) \<le> 2 ^ 30" "rb_mask rb = rb_size rb - 1" "unat (rb_size rb) \<le> length block"
    and fl: "filled \<le> rb_size rb" using ring [OF rm] by (simp_all add: ring_ok_def filled_def index_def)
  have av: "unat avail = unat (rb_size rb) - unat filled" using fl by (simp add: avail_def unat_sub)
  then have "unat avail < 2 ^ 31" using sz(2) by simp
  then have n: "unat n \<le> unat avail" "unat n < 2 ^ 31"
    using n0 by (auto simp: n_def sint_small uint_nat simp del: of_nat_unat)
  have "offset \<le> rb_size rb - 1" unfolding offset_def sz(3) by (rule word_and_le1)
  then have off: "unat offset < unat (rb_size rb)"
    using sz(1) by (metis word_le_nat_alt unat_minus_one le_less_trans less_numeral_extra(3) diff_less unat_gt_0 zero_less_one le_refl order_le_less_trans)
  have offn: "unat (offset + n) = unat offset + unat n"
    using off n(1) av sz(2) by (subst unat_add_lem [THEN iffD1]) auto
  let ?bpf = "unat (ats_bpf s)"
  define rendered where "rendered =
    (if offset + n > rb_size rb
     then let l0 = rb_size rb - offset in
          case render_at frame addr (unat offset) (unat (ucast l0 div ats_bpf s)) s of
            None \<Rightarrow> None
          | Some s1 \<Rightarrow> render_at frame addr 0 (unat (ucast (n - l0) div ats_bpf s)) s1
     else render_at frame addr (unat offset) (unat (scast (ucast (scast n div ats_bpf s :: u64) :: u32) :: u64)) s)"
  have "\<exists>s2. rendered = Some s2 \<and> mem_change addr s s2 \<and> sb_metas (ats_mem s2 addr) = sb_metas (ats_mem s addr) \<and>
    sb_id (ats_mem s2 addr) = sb_id (ats_mem s addr)"
  proof (cases "offset + n > rb_size rb")
    case False
    then have fits: "unat offset + unat n \<le> length block" using offn sz(4) by (simp add: word_less_nat_alt)
    from render_bytes [OF f i d m fits] show ?thesis
      unfolding rendered_def sample_count [OF n(2)] using False by (metis (no_types))
  next
    case True
    define l0 where "l0 = rb_size rb - offset"
    have l0: "unat l0 = unat (rb_size rb) - unat offset" using off by (simp add: l0_def unat_sub word_le_nat_alt)
    have nl0: "unat (n - l0) = unat n - unat l0"
      using True offn l0 off by (intro unat_sub) (simp add: word_le_nat_alt word_less_nat_alt)
    have u: "unat (ucast w div ats_bpf s :: u64) = unat w div ?bpf" for w :: u32
      by (simp add: unat_div unat_ucast_u64)
    have fits1: "unat offset + unat l0 \<le> length block" using l0 off sz(4) by simp
    from f i d m fits1 obtain s1 block1 where r1: "render_at frame addr (unat offset) (unat l0 div ?bpf) s = Some s1"
      and c1: "mem_change addr s s1" and d1: "sb_datas (ats_mem s1 addr) = d\<lparr>sd_mem := Some block1\<rparr> # ds"
      and l1: "length block1 = length block" and m1: "sb_metas (ats_mem s1 addr) = sb_metas (ats_mem s addr)"
      and id1: "sb_id (ats_mem s1 addr) = sb_id (ats_mem s addr)"
      by (rule render_bytes)
    have i1: "ats_fmt_ok s1" using i ats_fmt_ok_change [OF c1] by simp
    have fits2: "0 + (unat n - unat l0) \<le> length block1" using n(1) av sz(4) l1 by linarith
    have m1': "sd_mem (d\<lparr>sd_mem := Some block1\<rparr>) = Some block1" by simp
    from f i1 d1 m1' fits2 obtain s2 block2 where r2: "render_at frame addr 0 ((unat n - unat l0) div unat (ats_bpf s1)) s1 = Some s2"
      and c2: "mem_change addr s1 s2" and m2: "sb_metas (ats_mem s2 addr) = sb_metas (ats_mem s1 addr)"
      and id2: "sb_id (ats_mem s2 addr) = sb_id (ats_mem s1 addr)"
      by (rule render_bytes)
    have "rendered = Some s2"
      using True r1 r2 by (simp add: rendered_def l0_def [symmetric] Let_def u nl0 mem_change_simps [OF c1])
    then show ?thesis using mem_change_trans [OF c1 c2] m1 m2 id1 id2 by simp
  qed
  then obtain s2 where r: "rendered = Some s2" and c: "mem_change addr s s2"
    and ms: "sb_metas (ats_mem s2 addr) = sb_metas (ats_mem s addr)" and id: "sb_id (ats_mem s2 addr) = sb_id (ats_mem s addr)"
    by blast
  let ?rb = "spa_ringbuffer_write_update rb (index + n)"
  have "ring_ok ?rb len" if "ring_ok rb len" for len
  proof -
    have "unat (filled + n) = unat filled + unat n" using n(1) av sz(2) fl
      by (subst unat_add_lem [THEN iffD1]) (auto simp: word_le_nat_alt)
    then have "filled + n \<le> rb_size rb" using n(1) av fl by (simp add: word_le_nat_alt)
    also have "filled + n = index + n - readindex rb" by (simp add: index_def filled_def algebra_simps)
    finally show ?thesis using that by (simp add: ring_ok_def spa_ringbuffer_write_update_def)
  qed
  note rok = this
  have rm2: "ring_meta_ok (ats_type s2) (ats_mem s2 addr) len \<Longrightarrow> ring_ok ?rb len" for len
    using ring rok metas_cong(2) [OF ms] mem_change_simps(1) [OF c] by metis
  have "mem_change addr s2 (set_meta addr k (Meta_ringbuffer ?rb) s2)"
  proof (rule set_meta_change)
    show "k < length (sb_metas (ats_mem s2 addr))" using k ms by simp
    have h2: "spa_buffer_find_meta (ats_mem s2 addr) (at_Ringbuffer (ats_type s2)) = Some k"
      using h ms mem_change_simps(1) [OF c] by (simp add: spa_buffer_find_meta_def)
    show "buffer_ok (ats_type s2) ((ats_mem s2 addr)\<lparr>sb_metas := (sb_metas (ats_mem s2 addr))
        [k := (fst (sb_metas (ats_mem s2 addr) ! k), Meta_ringbuffer ?rb)]\<rparr>)"
      if "buffer_ok (ats_type s2) (ats_mem s2 addr)"
      by (rule buffer_ok_set_ring [OF that h2 rm2])
  qed
  then have "mem_change addr s (set_meta addr k (Meta_ringbuffer ?rb) s2)" by (rule mem_change_trans [OF c])
  moreover have "make_ring_buffer frame addr k rb n0 s =
    Some (ucast (scast n div ats_bpf s :: u64), set_meta addr k (Meta_ringbuffer ?rb) s2)"
    by (simp only: make_ring_buffer_def spa_ringbuffer_get_write_index_def Let_def prod.case filled_def [symmetric]
        index_def [symmetric] avail_def [symmetric] n_def [symmetric] offset_def [symmetric]
        rendered_def [unfolded Let_def, symmetric] r option.case)
  ultimately show ?thesis using that id by (simp add: set_meta_def)
qed

section \<open>The invariant\<close>

lemma ats_inv_mem:
  assumes inv: "ats_inv s" and c: "mem_change addr s s'"
  shows "ats_inv s'"
proof -
  obtain acc mem where s': "s' = s\<lparr>ats_acc := acc, ats_mem := mem\<rparr>"
    and sh: "\<And>a. same_shape (ats_type s) (ats_mem s a) (mem a)"
    using c unfolding mem_change_def by blast
  have m: "spa_buffer_find_meta (mem a) t = spa_buffer_find_meta (ats_mem s a) t" for a t
    using sh [of a] by (intro find_meta_cong) (simp add: same_shape_def)
  have b: "buffer_ok (ats_type s) (ats_mem s a) \<Longrightarrow> buffer_ok (ats_type s) (mem a)" for a
    using sh [of a] by (simp add: same_shape_def)
  show ?thesis using inv b unfolding s' ats_inv_def by (simp add: m Let_def)
qed

text \<open>Fields that the invariant does not read.\<close>

lemma ats_inv_cong:
  assumes "ats_type s' = ats_type s" "ats_pool s' = ats_pool s" "ats_have_format s' = ats_have_format s"
    "ats_info s' = ats_info s" "ats_render s' = ats_render s" "ats_bpf s' = ats_bpf s" "ats_mem s' = ats_mem s"
  shows "ats_inv s' = ats_inv s"
  by (simp only: ats_inv_def assms)

lemma set_timer_fields [simp]:
  "ats_type (set_timer e s) = ats_type s" "ats_pool (set_timer e s) = ats_pool s"
  "ats_have_format (set_timer e s) = ats_have_format s" "ats_info (set_timer e s) = ats_info s"
  "ats_render (set_timer e s) = ats_render s" "ats_bpf (set_timer e s) = ats_bpf s" "ats_mem (set_timer e s) = ats_mem s"
  "ats_io (set_timer e s) = ats_io s" "ats_sample_count (set_timer e s) = ats_sample_count s"
  "ats_elapsed_time (set_timer e s) = ats_elapsed_time s" "ats_start_time (set_timer e s) = ats_start_time s"
  "ats_props (set_timer e s) = ats_props s" "ats_have_output (set_timer e s) = ats_have_output s"
  by (simp_all add: set_timer_def Let_def)

text \<open>Taking and giving back buffers does not touch what is recorded of them.\<close>

lemma ats_inv_pool:
  assumes inv: "ats_inv s" and ok: "pool_ok p'" and n: "bp_n_buffers p' = bp_n_buffers (ats_pool s)"
    and l: "length (bp_buffers p') = length (bp_buffers (ats_pool s))"
    and same: "\<And>i. i < length (bp_buffers p') \<Longrightarrow>
      nbf_outbuf (bp_buffers p' ! i) = nbf_outbuf (bp_buffers (ats_pool s) ! i) \<and>
      nbf_h (bp_buffers p' ! i) = nbf_h (bp_buffers (ats_pool s) ! i) \<and>
      nbf_rb (bp_buffers p' ! i) = nbf_rb (bp_buffers (ats_pool s) ! i)"
  shows "ats_inv (s\<lparr>ats_pool := p'\<rparr>)"
proof -
  have le: "i < length (bp_buffers p')" if "i < unat (bp_n_buffers (ats_pool s))" for i
    using that ok n by (simp add: pool_ok_def)
  show ?thesis using inv ok n l same le unfolding ats_inv_def by (simp add: Let_def)
qed

lemma set_out_same:
  "i < length (bp_buffers p) \<Longrightarrow> bp_buffers (pool_set_out j b p) ! i = (bp_buffers p ! i)\<lparr>nbf_outstanding :=
     (if i = j then b else nbf_outstanding (bp_buffers p ! i))\<rparr>"
  by (auto simp: pool_set_out_def nth_list_update)

lemma pool_take_inv:
  assumes inv: "ats_inv s" and t: "pool_take (ats_pool s) = Some (i, p')"
  shows "ats_inv (s\<lparr>ats_pool := p'\<rparr>)" and "i < unat (bp_n_buffers (ats_pool s))"
    and "nbf_outbuf (bp_buffers p' ! i) = nbf_outbuf (bp_buffers (ats_pool s) ! i)"
    and "nbf_h (bp_buffers p' ! i) = nbf_h (bp_buffers (ats_pool s) ! i)"
    and "nbf_rb (bp_buffers p' ! i) = nbf_rb (bp_buffers (ats_pool s) ! i)"
proof -
  have ok: "pool_ok (ats_pool s)" using inv by (simp add: ats_inv_def)
  obtain rest where l: "bp_list (ats_pool s) = i # rest" and p': "p' = pool_set_out i True ((ats_pool s)\<lparr>bp_list := rest\<rparr>)"
    using t by (auto simp: pool_take_def split: list.splits)
  show i: "i < unat (bp_n_buffers (ats_pool s))" using ok l by (auto simp: pool_ok_def)
  then have il: "i < length (bp_buffers (ats_pool s))" using ok by (simp add: pool_ok_def)
  show "nbf_outbuf (bp_buffers p' ! i) = nbf_outbuf (bp_buffers (ats_pool s) ! i)"
    "nbf_h (bp_buffers p' ! i) = nbf_h (bp_buffers (ats_pool s) ! i)"
    "nbf_rb (bp_buffers p' ! i) = nbf_rb (bp_buffers (ats_pool s) ! i)"
    using il by (simp_all add: p' set_out_same)
  show "ats_inv (s\<lparr>ats_pool := p'\<rparr>)"
    by (rule ats_inv_pool [OF inv conjunct1 [OF pool.take_some [OF ok t]]]) (simp_all add: p' set_out_same)
qed

lemma pool_give_inv:
  assumes inv: "ats_inv s" and i: "i < unat (bp_n_buffers (ats_pool s))"
  obtains r p' where "pool_give i (ats_pool s) = Some (r, p')" and "ats_inv (s\<lparr>ats_pool := p'\<rparr>)"
proof -
  have ok: "pool_ok (ats_pool s)" using inv by (simp add: ats_inv_def)
  have "i \<in> set (bp_list (ats_pool s)) \<union> pool_out (ats_pool s)"
    using ok i by (auto simp: pool_ok_def pool_out_def)
  from pool.give_any [OF ok this] obtain r p' where g: "pool_give i (ats_pool s) = Some (r, p')" and ok': "pool_ok p'" by blast
  show ?thesis
  proof (rule that [OF g])
    show "ats_inv (s\<lparr>ats_pool := p'\<rparr>)"
      by (rule ats_inv_pool [OF inv ok'])
         (use g in \<open>auto simp: pool_give_def pool_append_def set_out_same split: if_splits\<close>)
  qed
qed

text \<open>The first free buffer and the format it is filled in.\<close>

lemma first_free:
  assumes inv: "ats_inv s" and t: "pool_take (ats_pool s) = Some (i, p')" and b: "b = bp_buffers p' ! i"
  shows "buffer_ok (ats_type s) (ats_mem s (nbf_outbuf b))"
    and "nbf_h b = spa_buffer_find_meta (ats_mem s (nbf_outbuf b)) (at_Header (ats_type s))"
    and "nbf_rb b = spa_buffer_find_meta (ats_mem s (nbf_outbuf b)) (at_Ringbuffer (ats_type s))"
    and "ats_fmt_ok s" and "ats_bpf s \<noteq> 0" and "ar_rate (ats_info s) \<noteq> 0"
proof -
  note tk = pool_take_inv [OF inv t]
  have "buffer_ok (ats_type s) (ats_mem s (nbf_outbuf (bp_buffers (ats_pool s) ! i))) \<and>
    nbf_h (bp_buffers (ats_pool s) ! i) = spa_buffer_find_meta (ats_mem s (nbf_outbuf (bp_buffers (ats_pool s) ! i))) (at_Header (ats_type s)) \<and>
    nbf_rb (bp_buffers (ats_pool s) ! i) = spa_buffer_find_meta (ats_mem s (nbf_outbuf (bp_buffers (ats_pool s) ! i))) (at_Ringbuffer (ats_type s))"
    using inv tk(2) unfolding ats_inv_def Let_def by blast
  then show "buffer_ok (ats_type s) (ats_mem s (nbf_outbuf b))"
    and "nbf_h b = spa_buffer_find_meta (ats_mem s (nbf_outbuf b)) (at_Header (ats_type s))"
    and "nbf_rb b = spa_buffer_find_meta (ats_mem s (nbf_outbuf b)) (at_Ringbuffer (ats_type s))"
    using tk(3-5) b by simp_all
  have "bp_n_buffers (ats_pool s) \<noteq> 0" using tk(2) by (metis not_less_zero unsigned_0)
  then show fmt: "ats_fmt_ok s" using inv by (auto simp: ats_fmt_ok_def ats_inv_def)
  show "ats_bpf s \<noteq> 0" by (rule bpf_nonzero [OF fmt])
  show "ar_rate (ats_info s) \<noteq> 0" using fmt by (simp add: ats_fmt_ok_def info_ok_def)
qed

text \<open>Making a buffer, when the host has set the io area.\<close>

lemma make_buffer_inv:
  assumes f: "frame_ok frame" and inv: "ats_inv s" and io: "ats_io s \<noteq> None"
  obtains res s' where "audiotestsrc_make_buffer frame s = Some (res, s')" and "ats_inv s'"
proof (cases "pool_take (ats_pool s)")
  case None
  then show ?thesis
    using that inv by (simp add: audiotestsrc_make_buffer_def ats_inv_cong [of "set_timer False s" s])
next
  case (Some ip)
  then obtain i p' where t: "pool_take (ats_pool s) = Some (i, p')" by (cases ip) auto
  define b addr s1 where "b = bp_buffers p' ! i" and "addr = nbf_outbuf b" and "s1 = s\<lparr>ats_pool := p'\<rparr>"
  have inv1: "ats_inv s1" using pool_take_inv [OF inv t] by (simp add: s1_def)
  note ff = first_free [OF inv t b_def]
  have ok: "buffer_ok (ats_type s1) (ats_mem s1 addr)"
    and h: "nbf_h b = spa_buffer_find_meta (ats_mem s1 addr) (at_Header (ats_type s1))"
    and r: "nbf_rb b = spa_buffer_find_meta (ats_mem s1 addr) (at_Ringbuffer (ats_type s1))"
    and fmt: "ats_fmt_ok s1" and nz: "ats_bpf s \<noteq> 0" "ar_rate (ats_info s) \<noteq> 0"
    using ff by (simp_all add: s1_def addr_def ats_fmt_ok_def)
  obtain d ds where d: "sb_datas (ats_mem s1 addr) = d # ds" and sz: "unat (sd_maxsize d) < 2 ^ 31"
    using ok by (rule buffer_okD)
  then have ds: "sb_datas (ats_mem s addr) = d # ds" by (simp add: s1_def)
  obtain io where io: "ats_io s = Some io" using io by blast
  define n_bytes where "n_bytes = ats_n_bytes (sd_maxsize d) io"
  have nb: "n_bytes \<le> sd_maxsize d" by (simp add: n_bytes_def ats_n_bytes_le)
  define filled where "filled = (case nbf_rb b of
      None \<Rightarrow> make_plain_buffer frame addr n_bytes s1
    | Some m \<Rightarrow>
        if length (sb_metas (ats_mem s addr)) \<le> m then None
        else case snd (sb_metas (ats_mem s addr) ! m) of
               Meta_ringbuffer rb \<Rightarrow> make_ring_buffer frame addr m rb n_bytes s1
             | _ \<Rightarrow> None)"
  have "\<exists>n s2. filled = Some (n, s2) \<and> mem_change addr s1 s2"
  proof (cases "nbf_rb b")
    case None
    obtain s' where "make_plain_buffer frame addr n_bytes s1 = Some (ucast (scast n_bytes div ats_bpf s1 :: u64), s')"
      and "mem_change addr s1 s'"
      using f fmt ok d nb by (rule make_plain_buffer_change)
    then show ?thesis using None unfolding filled_def by simp
  next
    case (Some m)
    have m: "m < length (sb_metas (ats_mem s1 addr))" using find_meta_bound Some r by metis
    have "ring_meta_ok (ats_type s1) (ats_mem s1 addr) len \<Longrightarrow>
      \<exists>rb. snd (sb_metas (ats_mem s1 addr) ! m) = Meta_ringbuffer rb" for len
      using Some r by (auto simp: ring_meta_ok_def split: spa_meta.splits option.splits)
    then obtain rb where rb: "snd (sb_metas (ats_mem s1 addr) ! m) = Meta_ringbuffer rb" using ok by (metis buffer_okD)
    have "unat n_bytes < 2 ^ 31" using nb sz by (simp add: word_le_nat_alt)
    from f fmt ok r [symmetric, unfolded Some] rb this
    obtain n s' where "make_ring_buffer frame addr m rb n_bytes s1 = Some (n, s')" and "mem_change addr s1 s'"
      by (rule make_ring_buffer_change)
    then show ?thesis using Some m rb unfolding filled_def by (simp add: s1_def)
  qed
  then obtain n s2 where f2: "filled = Some (n, s2)" and c2: "mem_change addr s1 s2" by blast
  have sh2: "same_shape (ats_type s1) (ats_mem s1 addr) (ats_mem s2 addr)"
    using c2 unfolding mem_change_def by (elim exE conjE) simp
  have ok2: "buffer_ok (ats_type s2) (ats_mem s2 addr)"
    using sh2 ok by (simp add: same_shape_def mem_change_simps(1) [OF c2])
  have "map fst (sb_metas (ats_mem s1 addr)) = map fst (sb_metas (ats_mem s2 addr))" using sh2 by (simp add: same_shape_def)
  from find_meta_cong [OF this] have h2: "nbf_h b = spa_buffer_find_meta (ats_mem s2 addr) (at_Header (ats_type s2))"
    using h by (simp add: mem_change_simps(1) [OF c2])
  obtain s3 where f3: "stamp_header addr (nbf_h b) s2 = Some s3" and c3: "mem_change addr s2 s3"
    using stamp_header_change [OF ok2 h2] by blast
  have inv3: "ats_inv s3" by (rule ats_inv_mem [OF ats_inv_mem [OF inv1 c2] c3])
  let ?s4 = "s3\<lparr>ats_sample_count := ats_sample_count s3 + scast n,
    ats_elapsed_time := (ats_sample_count s3 + scast n) * SPA_NSEC_PER_SEC div ucast (ar_rate (ats_info s3))\<rparr>"
  let ?s5 = "(set_timer True ?s4)\<lparr>ats_io := Some (io\<lparr>io_buffer_id := sb_id (ats_mem s addr), io_status := SPA_RESULT_HAVE_BUFFER\<rparr>)\<rparr>"
  have "audiotestsrc_make_buffer frame s = Some (SPA_RESULT_HAVE_BUFFER, ?s5)"
    by (simp only: audiotestsrc_make_buffer_def t io ds nz option.case prod.case list.case Let_def simp_thms if_False
        b_def [symmetric] addr_def [symmetric] s1_def [symmetric] n_bytes_def [symmetric] filled_def [symmetric] f2 f3)
  moreover have "ats_inv ?s5" by (rule ats_inv_cong [THEN iffD2, OF _ _ _ _ _ _ _ inv3]) simp_all
  ultimately show ?thesis using that by blast
qed

section \<open>A node and its host\<close>

text \<open>The calls of the host, the timer of the node, and what the host does to the shared memory.\<close>

datatype ats_op =
    Op_set_props "(bool option \<times> u32 option \<times> u64 option \<times> u64 option) option"
  | Op_command u32 u64
  | Op_set_callbacks bool
  | Op_set_format spa_direction u32 "spa_format option"
  | Op_use_buffers spa_direction u32 "nat list"
  | Op_set_io spa_direction u32 "spa_port_io option"
  | Op_reuse_buffer u32 u32
  | Op_process_output
  | Op_timer
  | Op_write_io spa_port_io
  | Op_write_memory buffer_store

fun ats_step :: "'a frame_fun \<Rightarrow> ats_op \<Rightarrow> 'a ats \<Rightarrow> (spa_result \<times> 'a ats) option" where
  "ats_step frame (Op_set_props p) s = Some (spa_audiotestsrc_node_set_props p s)"
| "ats_step frame (Op_command c now) s = Some (spa_audiotestsrc_node_send_command c now s)"
| "ats_step frame (Op_set_callbacks b) s = Some (spa_audiotestsrc_node_set_callbacks b s)"
| "ats_step frame (Op_set_format d p f) s = spa_audiotestsrc_node_port_set_format d p f s"
| "ats_step frame (Op_use_buffers d p as) s = spa_audiotestsrc_node_port_use_buffers d p as s"
| "ats_step frame (Op_set_io d p io) s = Some (spa_audiotestsrc_node_port_set_io d p io s)"
| "ats_step frame (Op_reuse_buffer p i) s = spa_audiotestsrc_node_port_reuse_buffer p i s"
| "ats_step frame Op_process_output s = spa_audiotestsrc_node_process_output frame s"
| "ats_step frame Op_timer s = map_option (Pair SPA_RESULT_OK \<circ> snd) (audiotestsrc_on_output frame s)"
| "ats_step frame (Op_write_io io) s = Some (SPA_RESULT_OK, s\<lparr>ats_io := Some io\<rparr>)"
| "ats_step frame (Op_write_memory mem) s = Some (SPA_RESULT_OK, s\<lparr>ats_mem := mem\<rparr>)"

text \<open>What the host has to keep to. The values of a format have the types that the node asks for, a format has a rate and
  channels, and a frame fits in an \<^verbatim>\<open>int\<close>; at most
  \<^verbatim>\<open>MAX_BUFFERS\<close> buffers are given, with memory and well-formed metadata; the id left in the io area
  names a buffer of the current set; the io area is there when the timer runs; memory that is in use keeps its
  form.\<close>

definition format_allowed :: "ats_types \<Rightarrow> spa_format option \<Rightarrow> bool" where
  "format_allowed t fmt \<longleftrightarrow>
     (case fmt of
        None \<Rightarrow> True
      | Some f \<Rightarrow>
          (case spa_format_audio_raw_parse (at_keys t) (fmt_props f) zero_audio_raw of
             None \<Rightarrow> False
           | Some (_, info) \<Rightarrow> (case ats_format_index t (ar_format info) of None \<Rightarrow> True | Some idx \<Rightarrow> info_ok info idx)))"

fun ats_allowed :: "ats_op \<Rightarrow> 'a ats \<Rightarrow> bool" where
  "ats_allowed (Op_set_format d p f) s = format_allowed (ats_type s) f"
| "ats_allowed (Op_use_buffers d p as) s =
     (length as \<le> ATS_MAX_BUFFERS \<and> list_all (\<lambda>a. buffer_ok (ats_type s) (ats_mem s a)) as)"
| "ats_allowed Op_process_output s =
     (case ats_io s of
        None \<Rightarrow> True
      | Some io \<Rightarrow> io_status io = SPA_RESULT_HAVE_BUFFER \<or> io_buffer_id io = SPA_ID_INVALID \<or>
          io_buffer_id io < bp_n_buffers (ats_pool s))"
| "ats_allowed Op_timer s = (ats_io s \<noteq> None)"
| "ats_allowed (Op_write_memory mem) s =
     list_all (\<lambda>b. same_shape (ats_type s) (ats_mem s (nbf_outbuf b)) (mem (nbf_outbuf b)))
       (take (unat (bp_n_buffers (ats_pool s))) (bp_buffers (ats_pool s)))"
| "ats_allowed _ s = True"

inductive ats_reach :: "'a frame_fun \<Rightarrow> 'a ats \<Rightarrow> bool" for frame where
  ats_start: "ats_reach frame (audiotestsrc_init t loop acc mem)"
| ats_next: "\<lbrakk>ats_reach frame s; ats_allowed op s; ats_step frame op s = Some (res, s')\<rbrakk> \<Longrightarrow> ats_reach frame s'"

lemma ats_inv_init: "ats_inv (audiotestsrc_init t loop acc mem)"
  by (simp add: ats_inv_def audiotestsrc_init_def pool_ok_new) (simp add: new_pool_def)

lemma pool_clear_n [simp]: "bp_n_buffers (pool_clear p) = 0"
  using word_gt_0 [of "bp_n_buffers p"] by (auto simp: pool_clear_def)

lemma pool_clear_length [simp]: "length (bp_buffers (pool_clear p)) = length (bp_buffers p)"
  by (simp add: pool_clear_def)

lemma ats_clear_pool [simp]: "ats_pool (ats_clear_buffers s) = pool_clear (ats_pool s)"
  by (simp add: ats_clear_buffers_def pool_clear_def)

lemma ats_clear_fields [simp]:
  "ats_type (ats_clear_buffers s) = ats_type s" "ats_have_format (ats_clear_buffers s) = ats_have_format s"
  "ats_mem (ats_clear_buffers s) = ats_mem s" "ats_info (ats_clear_buffers s) = ats_info s"
  "ats_render (ats_clear_buffers s) = ats_render s" "ats_bpf (ats_clear_buffers s) = ats_bpf s"
  by (simp_all add: ats_clear_buffers_def)

lemma ats_inv_clear:
  "ats_inv s \<Longrightarrow> ats_inv (ats_clear_buffers (s\<lparr>ats_have_format := f \<and> ats_have_format s\<rparr>))"
  by (auto simp: ats_inv_def pool_ok_clear)

lemma ats_inv_set_format:
  assumes inv: "ats_inv s" and a: "format_allowed (ats_type s) fmt"
  shows "\<exists>res s'. spa_audiotestsrc_node_port_set_format d p fmt s = Some (res, s') \<and> ats_inv s'"
proof (cases fmt)
  case None
  have "ats_inv (ats_clear_buffers (s\<lparr>ats_have_format := False\<rparr>))"
    using ats_inv_clear [OF inv, of False] by simp
  then show ?thesis using None inv by (simp add: spa_audiotestsrc_node_port_set_format_def)
next
  case (Some f)
  then obtain info where p: "spa_format_audio_raw_parse (at_keys (ats_type s)) (fmt_props f) zero_audio_raw = Some (True, info)"
    using a by (auto simp: format_allowed_def dest: audio_raw_parse_ok split: option.splits)
  show ?thesis
  proof (cases "ats_check_port d p \<and> fmt_media_type f = at_audio (ats_type s) \<and> fmt_media_subtype f = at_raw (ats_type s) \<and>
      ats_format_index (ats_type s) (ar_format info) \<noteq> None")
    case False
    then show ?thesis
      using Some inv p by (auto simp: spa_audiotestsrc_node_port_set_format_def)
  next
    case True
    then obtain idx where idx: "ats_format_index (ats_type s) (ar_format info) = Some idx" by blast
    have ok: "info_ok info idx" using a Some idx p by (simp add: format_allowed_def)
    let ?s = "s\<lparr>ats_bpf := ucast (sample_sizes ! idx * ar_channels info), ats_info := info, ats_have_format := True,
      ats_render := idx\<rparr>"
    have "ats_fmt_ok ?s" using ok by (simp add: ats_fmt_ok_def)
    from bpf_nonzero [OF this] have nz: "(ucast (sample_sizes ! idx * ar_channels info) :: u64) \<noteq> 0" by simp
    have "ats_inv (?s\<lparr>ats_latency := l\<rparr>)" for l using inv ok by (simp add: ats_inv_def)
    moreover have "ar_rate info \<noteq> 0" using ok by (simp add: info_ok_def)
    ultimately show ?thesis
      using Some True idx nz p
      by (simp add: spa_audiotestsrc_node_port_set_format_def Let_def)
  qed
qed

lemma pool_append_fresh:
  assumes "i = length (bp_list p)" and "bp_list p = [0..<i]"
  shows "pool_append i p = Some (p\<lparr>bp_list := [0..<Suc i]\<rparr>)"
  using assms by (simp add: pool_append_def)

text \<open>The buffers of a new set are free in their order.\<close>

definition ats_node_buf :: "ats_types \<Rightarrow> buffer_store \<Rightarrow> nat \<Rightarrow> node_buf" where
  "ats_node_buf t mem addr = \<lparr>nbf_outbuf = addr, nbf_outstanding = False,
     nbf_h = spa_buffer_find_meta (mem addr) (at_Header t), nbf_rb = spa_buffer_find_meta (mem addr) (at_Ringbuffer t)\<rparr>"

lemma use_buffers_from:
  assumes "i + length addrs \<le> ATS_MAX_BUFFERS" and "\<forall>a \<in> set addrs. sb_datas (ats_mem s a) \<noteq> []"
    and "bp_list (ats_pool s) = [0..<i]" and "length (bp_buffers (ats_pool s)) = ATS_MAX_BUFFERS"
  shows "ats_use_buffers_from i addrs s = Some (s\<lparr>ats_pool := (ats_pool s)\<lparr>
    bp_buffers := take i (bp_buffers (ats_pool s)) @ map (ats_node_buf (ats_type s) (ats_mem s)) addrs @
      drop (i + length addrs) (bp_buffers (ats_pool s)),
    bp_list := [0..<i + length addrs]\<rparr>\<rparr>)"
  using assms
proof (induction addrs arbitrary: i s)
  case (Cons a addrs)
  let ?p = "(ats_pool s)\<lparr>bp_buffers := (bp_buffers (ats_pool s))[i := ats_node_buf (ats_type s) (ats_mem s) a]\<rparr>"
  let ?s = "s\<lparr>ats_pool := ?p\<lparr>bp_list := [0..<Suc i]\<rparr>\<rparr>"
  have il: "i < ATS_MAX_BUFFERS" using Cons.prems(1) by simp
  have "pool_append i ?p = Some (?p\<lparr>bp_list := [0..<Suc i]\<rparr>)"
    using Cons.prems(3) by (intro pool_append_fresh) simp_all
  then have step: "ats_use_buffers_from i (a # addrs) s = ats_use_buffers_from (i + 1) addrs ?s"
    using il Cons.prems(2) by (simp add: Let_def ats_node_buf_def)
  have "ats_use_buffers_from (i + 1) addrs ?s = Some (?s\<lparr>ats_pool := (ats_pool ?s)\<lparr>
    bp_buffers := take (i + 1) (bp_buffers (ats_pool ?s)) @ map (ats_node_buf (ats_type ?s) (ats_mem ?s)) addrs @
      drop (i + 1 + length addrs) (bp_buffers (ats_pool ?s)),
    bp_list := [0..<i + 1 + length addrs]\<rparr>\<rparr>)"
    using Cons.prems by (intro Cons.IH) simp_all
  also have "take (i + 1) (bp_buffers (ats_pool ?s)) = take i (bp_buffers (ats_pool s)) @ [ats_node_buf (ats_type s) (ats_mem s) a]"
    using il Cons.prems(4) by (simp add: take_Suc_conv_app_nth)
  finally show ?case unfolding step by simp
qed simp

lemma ats_inv_use_buffers:
  assumes inv: "ats_inv s" and n: "length addrs \<le> ATS_MAX_BUFFERS"
    and ok: "list_all (\<lambda>a. buffer_ok (ats_type s) (ats_mem s a)) addrs"
  shows "\<exists>res s'. spa_audiotestsrc_node_port_use_buffers d p addrs s = Some (res, s') \<and> ats_inv s'"
proof (cases "ats_check_port d p \<and> ats_have_format s")
  case False
  then show ?thesis using inv by (auto simp: spa_audiotestsrc_node_port_use_buffers_def)
next
  case True
  let ?s = "ats_clear_buffers s" and ?n = "of_nat (length addrs) :: u32"
  have pool: "pool_ok (ats_pool s)" "length (bp_buffers (ats_pool s)) = ATS_MAX_BUFFERS" using inv by (simp_all add: ats_inv_def)
  have list: "bp_list (pool_clear (ats_pool s)) = []"
  proof (cases "bp_n_buffers (ats_pool s) = 0")
    case True
    then show ?thesis using pool(1) by (simp add: pool_clear_def pool_ok_def)
  qed (simp add: pool_clear_def word_gt_0)
  have datas: "\<forall>a \<in> set addrs. sb_datas (ats_mem ?s a) \<noteq> []" using ok by (auto simp: list_all_iff buffer_ok_def)
  let ?bufs = "map (ats_node_buf (ats_type s) (ats_mem s)) addrs @ drop (length addrs) (bp_buffers (pool_clear (ats_pool s)))"
  let ?p = "(pool_clear (ats_pool s))\<lparr>bp_buffers := ?bufs, bp_list := [0..<length addrs]\<rparr>"
  have use: "ats_use_buffers_from 0 addrs ?s = Some (?s\<lparr>ats_pool := ?p\<rparr>)"
    using use_buffers_from [of 0 addrs ?s] n datas list pool(2) by simp
  let ?s' = "?s\<lparr>ats_pool := ?p\<lparr>bp_n_buffers := ?n\<rparr>\<rparr>"
  have "length addrs < 2 ^ 32" using n by (simp add: ATS_MAX_BUFFERS_def)
  then have un: "unat ?n = length addrs" by (simp add: unsigned_of_nat take_bit_nat_eq_self)
  have nth: "?bufs ! i = ats_node_buf (ats_type s) (ats_mem s) (addrs ! i)" if "i < length addrs" for i
    using that by (simp add: nth_append)
  have "pool_ok (?p\<lparr>bp_n_buffers := ?n\<rparr>)"
    using n pool(2) by (auto simp: pool_ok_def un nth ats_node_buf_def)
  moreover have "buffer_ok (ats_type s) (ats_mem s (addrs ! i))" if "i < length addrs" for i
    using ok that by (simp add: list_all_length)
  ultimately have "ats_inv ?s'"
    using inv True n pool(2) unfolding ats_inv_def by (simp add: Let_def un nth ats_node_buf_def)
  then show ?thesis using True use by (simp add: spa_audiotestsrc_node_port_use_buffers_def)
qed

lemma ats_inv_reuse:
  assumes inv: "ats_inv s" and i: "unat i < unat (bp_n_buffers (ats_pool s))"
  shows "\<exists>s'. ats_reuse_buffer i s = Some s' \<and> ats_inv s'"
proof -
  obtain r p' where g: "pool_give (unat i) (ats_pool s) = Some (r, p')" and inv': "ats_inv (s\<lparr>ats_pool := p'\<rparr>)"
    using pool_give_inv [OF inv i] .
  have "ats_inv (set_timer True (s\<lparr>ats_pool := p'\<rparr>))" by (rule ats_inv_cong [THEN iffD2, OF _ _ _ _ _ _ _ inv']) simp_all
  then show ?thesis using g inv inv' by (cases r) (simp_all add: ats_reuse_buffer_def Let_def)
qed

lemma ats_inv_output:
  assumes f: "frame_ok frame" and inv: "ats_inv s" and a: "ats_allowed Op_process_output s"
  shows "\<exists>res s'. spa_audiotestsrc_node_process_output frame s = Some (res, s') \<and> ats_inv s'"
proof (cases "ats_io s")
  case None
  then show ?thesis using inv by (simp add: spa_audiotestsrc_node_process_output_def)
next
  case (Some io)
  have make: "\<exists>res s'. (if \<not> ats_have_output s1 \<and> io_status io = SPA_RESULT_NEED_BUFFER
      then audiotestsrc_make_buffer frame s1 else Some (SPA_RESULT_OK, s1)) = Some (res, s') \<and> ats_inv s'"
    if h: "ats_inv s1" "ats_io s1 \<noteq> None" for s1
  proof (cases "\<not> ats_have_output s1 \<and> io_status io = SPA_RESULT_NEED_BUFFER")
    case True
    obtain res s' where "audiotestsrc_make_buffer frame s1 = Some (res, s')" "ats_inv s'" using make_buffer_inv [OF f h] .
    then show ?thesis using True by simp
  next
    case False
    then show ?thesis using h(1) by (auto simp only: if_False)
  qed
  consider (have_buffer) "io_status io = SPA_RESULT_HAVE_BUFFER" | (plain) "io_status io \<noteq> SPA_RESULT_HAVE_BUFFER" "io_buffer_id io = SPA_ID_INVALID"
    | (reuse) "io_status io \<noteq> SPA_RESULT_HAVE_BUFFER" "io_buffer_id io \<noteq> SPA_ID_INVALID" "io_buffer_id io < bp_n_buffers (ats_pool s)"
    using a Some by auto
  then show ?thesis
  proof cases
    case have_buffer
    then show ?thesis using Some inv by (simp add: spa_audiotestsrc_node_process_output_def)
  next
    case plain
    then show ?thesis using Some make [OF inv] by (simp add: spa_audiotestsrc_node_process_output_def)
  next
    case reuse
    then obtain s1 where r: "ats_reuse_buffer (io_buffer_id io) s = Some s1" and inv1: "ats_inv s1"
      using ats_inv_reuse [OF inv, of "io_buffer_id io"] by (auto simp: word_less_nat_alt)
    let ?s = "s1\<lparr>ats_io := Some (io\<lparr>io_buffer_id := SPA_ID_INVALID\<rparr>)\<rparr>"
    have "ats_inv ?s" by (rule ats_inv_cong [THEN iffD2, OF _ _ _ _ _ _ _ inv1]) simp_all
    from make [OF this] show ?thesis using reuse Some r by (simp add: spa_audiotestsrc_node_process_output_def)
  qed
qed

lemma ats_inv_memory:
  assumes inv: "ats_inv s" and a: "ats_allowed (Op_write_memory mem) s"
  shows "ats_inv (s\<lparr>ats_mem := mem\<rparr>)"
proof -
  let ?n = "unat (bp_n_buffers (ats_pool s))"
  have le: "?n \<le> length (bp_buffers (ats_pool s))" using inv by (simp add: ats_inv_def pool_ok_def)
  have sh: "same_shape (ats_type s) (ats_mem s (nbf_outbuf (bp_buffers (ats_pool s) ! i))) (mem (nbf_outbuf (bp_buffers (ats_pool s) ! i)))"
    if "i < ?n" for i
    using a that le by (auto simp: list_all_length)
  have fm: "spa_buffer_find_meta (mem (nbf_outbuf (bp_buffers (ats_pool s) ! i))) t =
    spa_buffer_find_meta (ats_mem s (nbf_outbuf (bp_buffers (ats_pool s) ! i))) t" if "i < ?n" for i t
    using sh [OF that] by (intro find_meta_cong) (simp add: same_shape_def)
  have ok: "buffer_ok (ats_type s) (ats_mem s (nbf_outbuf (bp_buffers (ats_pool s) ! i))) \<Longrightarrow>
    buffer_ok (ats_type s) (mem (nbf_outbuf (bp_buffers (ats_pool s) ! i)))" if "i < ?n" for i
    using sh [OF that] by (simp add: same_shape_def)
  show ?thesis using inv ok unfolding ats_inv_def by (simp add: Let_def fm)
qed

lemma ats_inv_step:
  assumes f: "frame_ok frame" and inv: "ats_inv s" and a: "ats_allowed op s"
  shows "\<exists>res s'. ats_step frame op s = Some (res, s') \<and> ats_inv s'"
proof (cases op)
  case (Op_set_props p)
  have "ats_inv (snd (spa_audiotestsrc_node_set_props p s))"
    by (rule ats_inv_cong [THEN iffD2, OF _ _ _ _ _ _ _ inv]) (simp_all add: spa_audiotestsrc_node_set_props_def Let_def)
  then show ?thesis using Op_set_props by (cases "spa_audiotestsrc_node_set_props p s") simp
next
  case (Op_command c now)
  have "ats_inv (snd (spa_audiotestsrc_node_send_command c now s))"
    by (rule ats_inv_cong [THEN iffD2, OF _ _ _ _ _ _ _ inv]) (simp_all add: spa_audiotestsrc_node_send_command_def)
  then show ?thesis using Op_command by (cases "spa_audiotestsrc_node_send_command c now s") simp
next
  case (Op_set_callbacks b)
  have "ats_inv (snd (spa_audiotestsrc_node_set_callbacks b s))"
    by (rule ats_inv_cong [THEN iffD2, OF _ _ _ _ _ _ _ inv]) (simp_all add: spa_audiotestsrc_node_set_callbacks_def)
  then show ?thesis using Op_set_callbacks by (cases "spa_audiotestsrc_node_set_callbacks b s") simp
next
  case (Op_set_format d p fmt)
  then show ?thesis using ats_inv_set_format [OF inv] a by simp
next
  case (Op_use_buffers d p as)
  then show ?thesis using ats_inv_use_buffers [OF inv] a by simp
next
  case (Op_set_io d p io)
  have "ats_inv (snd (spa_audiotestsrc_node_port_set_io d p io s))"
    by (rule ats_inv_cong [THEN iffD2, OF _ _ _ _ _ _ _ inv]) (simp_all add: spa_audiotestsrc_node_port_set_io_def)
  then show ?thesis using Op_set_io by (cases "spa_audiotestsrc_node_port_set_io d p io s") simp
next
  case (Op_reuse_buffer p i)
  then show ?thesis
    using inv ats_inv_reuse [OF inv, of i] by (auto simp: spa_audiotestsrc_node_port_reuse_buffer_def word_less_nat_alt)
next
  case Op_process_output
  then show ?thesis using ats_inv_output [OF f inv] a by simp
next
  case Op_timer
  then have "ats_io s \<noteq> None" using a by simp
  from make_buffer_inv [OF f inv this] obtain res s' where "audiotestsrc_make_buffer frame s = Some (res, s')" "ats_inv s'" .
  then show ?thesis using Op_timer by (simp add: audiotestsrc_on_output_def)
next
  case (Op_write_io io)
  have "ats_inv (s\<lparr>ats_io := Some io\<rparr>)" by (rule ats_inv_cong [THEN iffD2, OF _ _ _ _ _ _ _ inv]) simp_all
  then show ?thesis using Op_write_io by simp
next
  case (Op_write_memory mem)
  then show ?thesis using ats_inv_memory [OF inv] a by simp
qed

lemma ats_reach_inv: "\<lbrakk>ats_reach frame s; frame_ok frame\<rbrakk> \<Longrightarrow> ats_inv s"
proof (induction rule: ats_reach.induct)
  case (ats_next s op res s')
  then show ?case using ats_inv_step [OF ats_next.prems ats_next.IH [OF ats_next.prems] ats_next.hyps(2)] by auto
qed (rule ats_inv_init)

lemma too_many_buffers: "\<lbrakk>i \<le> ATS_MAX_BUFFERS; ATS_MAX_BUFFERS < i + length addrs\<rbrakk> \<Longrightarrow> ats_use_buffers_from i addrs s = None"
proof (induction addrs arbitrary: i s)
  case (Cons a addrs)
  show ?case
  proof (cases "i = ATS_MAX_BUFFERS")
    case False
    then have "ats_use_buffers_from (i + 1) addrs s' = None" for s' :: "'a ats" using False Cons.prems by (intro Cons.IH) simp_all
    then show ?thesis by (simp add: Let_def split: option.split)
  qed simp
qed simp

section \<open>Properties\<close>

text \<open>A frame of silence, and a node that has been set up for it, for the examples.\<close>

definition silence :: "unit frame_fun" where
  "silence info idx f v acc =
     (replicate (if idx < 4 then unat (sample_sizes ! idx) * unat (ar_channels info) else 0) 0, ())"

lemma silence_ok: "frame_ok silence"
  by (simp add: frame_ok_def silence_def)

definition ex_types :: ats_types where
  "ex_types = \<lparr>at_node = 1, at_clock = 2, at_format = 3, at_audio = 4, at_raw = 5,
     at_keys = \<lparr>ak_format = 6, ak_flags = 7, ak_layout = 8, ak_rate = 9, ak_channels = 10, ak_channel_mask = 11\<rparr>,
     at_S16 = 12, at_S32 = 13, at_F32 = 14, at_F64 = 15, at_wave_sine = 16, at_MemPtr = 17, at_MemFd = 18, at_DmaBuf = 19,
     at_Header = 20, at_Ringbuffer = 21, at_Start = 22, at_Pause = 23\<rparr>"

definition ex_format :: spa_format where
  "ex_format = \<lparr>fmt_type = 3, fmt_media_type = 4, fmt_media_subtype = 5, fmt_props = map Entry_prop
     [prop_plain 6 SPA_POD_TYPE_ID (Pv_word 12), prop_plain 9 SPA_POD_TYPE_INT (Pv_word 44100),
      prop_plain 10 SPA_POD_TYPE_INT (Pv_word 2)]\<rparr>"

definition ex_memory :: buffer_store where
  "ex_memory a = \<lparr>sb_id = of_nat a, sb_metas = [(20, Meta_header \<lparr>mh_flags = 0, mh_seq = 0, mh_pts = 0, mh_dts_offset = 0\<rparr>)],
     sb_datas = [\<lparr>sd_type = 17, sd_maxsize = 10, sd_mem = Some (replicate 10 7),
       sd_chunk = \<lparr>ck_offset = 0, ck_size = 0, ck_stride = 0\<rparr>\<rparr>]\<rparr>"

definition ex_io :: spa_port_io where
  "ex_io = \<lparr>io_status = SPA_RESULT_NEED_BUFFER, io_buffer_id = SPA_ID_INVALID, io_min_size = 0, io_max_size = 0\<rparr>"

definition ex_start :: "unit ats" where "ex_start = audiotestsrc_init ex_types True () ex_memory"

lemma plain_buffer_contents:
  assumes f: "frame_ok frame" and i: "ats_fmt_ok s" and b: "buffer_ok (ats_type s) (ats_mem s addr)"
    and d: "sb_datas (ats_mem s addr) = d # ds" and m: "sd_mem d = Some block" and n: "n \<le> sd_maxsize d"
    and r: "render_frames (ats_frame frame s) (unat n div unat (ats_bpf s)) (ats_acc s) = (bs, acc)"
  shows "make_plain_buffer frame addr n s = Some (ucast (scast n div ats_bpf s :: u64),
    s\<lparr>ats_acc := acc, ats_mem := (ats_mem s)(addr := (ats_mem s addr)\<lparr>sb_datas :=
      d\<lparr>sd_mem := Some (bs @ drop (length bs) block), sd_chunk := \<lparr>ck_offset = 0, ck_size = n, ck_stride = 0\<rparr>\<rparr> # ds\<rparr>)\<rparr>)"
proof -
  from b have l: "unat (sd_maxsize d) \<le> length block" "unat (sd_maxsize d) < 2 ^ 31"
    using d m by (auto elim!: buffer_okD)
  have n': "unat n < 2 ^ 31" using n l by (simp add: word_le_nat_alt)
  have i': "info_ok (ats_info s) (ats_render s)" using i by (simp add: ats_fmt_ok_def)
  have "unat n div unat (ats_bpf s) * unat (ats_bpf s) \<le> unat n" by (rule div_times_less_eq_dividend)
  also have "\<dots> \<le> length block" using n l by (simp add: word_le_nat_alt)
  finally have "0 + unat n div unat (ats_bpf s) * (unat (sample_sizes ! ats_render s) * unat (ar_channels (ats_info s))) \<le> length block"
    unfolding bpf_eq [OF i] by simp
  from f i' d m this obtain bs' acc' where
    "render_frames (ats_frame frame s) (unat n div unat (ats_bpf s)) (ats_acc s) = (bs', acc')" and
    "render_at frame addr 0 (unat n div unat (ats_bpf s)) s = Some (s\<lparr>ats_acc := acc', ats_mem := (ats_mem s)(addr := (ats_mem s addr)
      \<lparr>sb_datas := d\<lparr>sd_mem := Some (take 0 block @ bs' @ drop (0 + length bs') block)\<rparr> # ds\<rparr>)\<rparr>)"
    by (rule render_at_plain)
  then have "render_at frame addr 0 (unat (scast (ucast (scast n div ats_bpf s :: u64) :: u32) :: u64)) s =
    Some (s\<lparr>ats_acc := acc, ats_mem := (ats_mem s)(addr := (ats_mem s addr)
      \<lparr>sb_datas := d\<lparr>sd_mem := Some (bs @ drop (length bs) block)\<rparr> # ds\<rparr>)\<rparr>)"
    using r by (simp only: sample_count [OF n'] prod.inject) simp
  then show ?thesis by (simp add: make_plain_buffer_def Let_def)
qed

fun ats_run :: "'a frame_fun \<Rightarrow> ats_op list \<Rightarrow> 'a ats \<Rightarrow> 'a ats option" where
  "ats_run frame [] s = Some s"
| "ats_run frame (op # ops) s =
     (if ats_allowed op s then (case ats_step frame op s of None \<Rightarrow> None | Some (res, s') \<Rightarrow> ats_run frame ops s') else None)"

lemma ats_reach_run: "\<lbrakk>ats_run frame ops s = Some s'; ats_reach frame s\<rbrakk> \<Longrightarrow> ats_reach frame s'"
proof (induction ops arbitrary: s)
  case (Cons op ops)
  then show ?case by (auto split: if_splits option.splits intro: ats_next)
qed simp

definition ex_node :: "unit ats" where
  "ex_node = ex_start\<lparr>ats_latency := 5804988, ats_have_format := True,
     ats_info := zero_audio_raw\<lparr>ar_format := 12, ar_rate := 44100, ar_channels := 2\<rparr>, ats_bpf := 4,
     ats_pool := \<lparr>bp_buffers = map (ats_node_buf ex_types ex_memory) [0, 1] @ replicate 14 empty_buf,
       bp_n_buffers = 2, bp_list = [0, 1]\<rparr>, ats_io := Some ex_io\<rparr>"

lemma ex_parse: "spa_format_audio_raw_parse (at_keys ex_types) (fmt_props ex_format) zero_audio_raw =
  Some (True, zero_audio_raw\<lparr>ar_format := 12, ar_rate := 44100, ar_channels := 2\<rparr>)"
  by (simp add: spa_format_audio_raw_parse_def spa_format_query_word_def ex_types_def ex_format_def prop_plain_def
      zero_audio_raw_def prop_unset_def SPA_POD_PROP_FLAG_UNSET_def)

lemma ex_set_format: "ats_step silence (Op_set_format Dir_output 0 (Some ex_format)) ex_start =
  Some (SPA_RESULT_OK, ex_start\<lparr>ats_latency := 5804988, ats_have_format := True,
    ats_info := zero_audio_raw\<lparr>ar_format := 12, ar_rate := 44100, ar_channels := 2\<rparr>, ats_bpf := 4\<rparr>)"
proof -
  have t: "ats_type ex_start = ex_types" "ats_render ex_start = 0" by (simp_all add: ex_start_def audiotestsrc_init_def)
  have f: "fmt_media_type ex_format = at_audio ex_types" "fmt_media_subtype ex_format = at_raw ex_types"
    "ats_format_index ex_types 12 = Some 0"
    by (simp_all add: ex_format_def ex_types_def ats_format_index_def)
  show ?thesis
    by (simp add: spa_audiotestsrc_node_port_set_format_def ats_check_port_def t f ex_parse sample_sizes_def Let_def
        SPA_NSEC_PER_SEC_def)
qed

lemma ex_buffer_ok: "buffer_ok ex_types (ex_memory a)"
  by (simp add: buffer_ok_def header_meta_ok_def ring_meta_ok_def ex_memory_def ex_types_def spa_buffer_find_meta_def)

lemma ex_node_reach: "ats_reach silence ex_node"
proof -
  let ?s0 = "ex_start :: unit ats" and ?info = "zero_audio_raw\<lparr>ar_format := 12, ar_rate := 44100, ar_channels := 2\<rparr>"
  have t: "ats_type ex_start = ex_types" "ats_mem ex_start = ex_memory" "bp_n_buffers (ats_pool ex_start) = 0"
    "bp_list (ats_pool ex_start) = []" "bp_buffers (ats_pool ex_start) = replicate 16 empty_buf" "ats_io ex_start = None"
    by (simp_all add: ex_start_def audiotestsrc_init_def new_pool_def ATS_MAX_BUFFERS_def)
  have "ats_format_index ex_types 12 = Some 0" by (simp add: ex_types_def ats_format_index_def)
  then have "ats_allowed (Op_set_format Dir_output 0 (Some ex_format)) ex_start"
    by (simp add: format_allowed_def t ex_parse Let_def info_ok_def sample_sizes_def)
  from ats_next [OF ats_start [of silence ex_types True "()" ex_memory, folded ex_start_def] this ex_set_format]
  have r1: "ats_reach silence (ex_start\<lparr>ats_latency := 5804988, ats_have_format := True, ats_info := ?info, ats_bpf := 4\<rparr>)"
    (is "ats_reach _ ?s1") .
  have "ats_allowed (Op_use_buffers Dir_output 0 [0, 1]) ?s1" by (simp add: t ex_buffer_ok ATS_MAX_BUFFERS_def)
  moreover have "ats_step silence (Op_use_buffers Dir_output 0 [0, 1]) ?s1 = Some (SPA_RESULT_OK, ?s1\<lparr>ats_pool :=
    \<lparr>bp_buffers = map (ats_node_buf ex_types ex_memory) [0, 1] @ replicate 14 empty_buf, bp_n_buffers = 2, bp_list = [0, 1]\<rparr>\<rparr>)"
    using use_buffers_from [of 0 "[0, 1]" ?s1]
    by (simp add: spa_audiotestsrc_node_port_use_buffers_def ats_check_port_def ats_clear_buffers_def t ATS_MAX_BUFFERS_def ex_memory_def
        numeral_eq_Suc)
  ultimately have "ats_reach silence (?s1\<lparr>ats_pool :=
    \<lparr>bp_buffers = map (ats_node_buf ex_types ex_memory) [0, 1] @ replicate 14 empty_buf, bp_n_buffers = 2, bp_list = [0, 1]\<rparr>\<rparr>)"
    (is "ats_reach _ ?s2") by (rule ats_next [OF r1])
  from ats_next [OF this, of "Op_set_io Dir_output 0 (Some ex_io)"] show ?thesis
    by (simp add: spa_audiotestsrc_node_port_set_io_def ats_check_port_def ex_node_def)
qed

text \<open>C4. A host that keeps to the rules of the node never makes it fail: in every state that the calls of the
  host, the timer and the writes of the host into the shared memory can lead to, every further call returns. No null
  pointer is used, no sample is written outside the block of a buffer, no array is overrun and nothing is divided by
  zero.\<close>

theorem audiotestsrc_never_fails:
  assumes "ats_reach frame s" and "frame_ok frame" and "ats_allowed op s"
  shows "\<exists>res s'. ats_step frame op s = Some (res, s')"
  using ats_inv_step [OF assms(2) ats_reach_inv [OF assms(1,2)] assms(3)] by blast

lemma audiotestsrc_never_fails_witness:
  "\<exists>res s'. ats_step silence Op_process_output ex_node = Some (res, s')"
  by (rule audiotestsrc_never_fails [OF ex_node_reach silence_ok]) (simp add: ex_node_def ex_io_def)

text \<open>C18. Every buffer of the current set is either free, and then once in the list of free buffers, or handed out;
  the list names no other buffer, and there are never more than \<^verbatim>\<open>MAX_BUFFERS\<close>.\<close>

theorem audiotestsrc_buffers_partition:
  assumes "ats_reach frame s" and "frame_ok frame"
  shows "distinct (bp_list (ats_pool s)) \<and> unat (bp_n_buffers (ats_pool s)) \<le> ATS_MAX_BUFFERS \<and>
    (\<forall>i. i \<in> set (bp_list (ats_pool s)) \<longleftrightarrow>
      i < unat (bp_n_buffers (ats_pool s)) \<and> \<not> nbf_outstanding (bp_buffers (ats_pool s) ! i))"
  using ats_reach_inv [OF assms] by (simp add: ats_inv_def pool_ok_def)

lemma audiotestsrc_buffers_partition_witness: "distinct (bp_list (ats_pool ex_node)) \<and> bp_list (ats_pool ex_node) = [0, 1]"
proof
  show "distinct (bp_list (ats_pool ex_node))"
    using audiotestsrc_buffers_partition [OF ex_node_reach silence_ok] by blast
  show "bp_list (ats_pool ex_node) = [0, 1]" by (simp add: ex_node_def)
qed

lemma set_meta_simps:
  "sb_datas (ats_mem (set_meta addr j m s) a) = sb_datas (ats_mem s a)" "a \<noteq> addr \<Longrightarrow> ats_mem (set_meta addr j m s) a = ats_mem s a"
  "j < length (sb_metas (ats_mem s addr)) \<Longrightarrow> snd (sb_metas (ats_mem (set_meta addr j m s) addr) ! j) = m"
  "ats_pool (set_meta addr j m s) = ats_pool s" "ats_acc (set_meta addr j m s) = ats_acc s"
  "ats_sample_count (set_meta addr j m s) = ats_sample_count s" "ats_info (set_meta addr j m s) = ats_info s"
  by (simp_all add: set_meta_def)

lemma set_timer_simps:
  "ats_pool (set_timer b s) = ats_pool s" "ats_mem (set_timer b s) = ats_mem s" "ats_acc (set_timer b s) = ats_acc s"
  "ats_sample_count (set_timer b s) = ats_sample_count s" "ats_elapsed_time (set_timer b s) = ats_elapsed_time s"
  by (simp_all add: set_timer_def Let_def)

text \<open>Stamping the header of a buffer of the node, and the steps of \<^verbatim>\<open>audiotestsrc_make_buffer\<close> for a plain buffer.\<close>

lemma stamp_header_at:
  assumes "buffer_ok t b" and "spa_buffer_find_meta b (at_Header t) = Some j" and "sb_metas (ats_mem s addr) = sb_metas b"
  obtains fl where "stamp_header addr (Some j) s = Some (set_meta addr j (Meta_header \<lparr>mh_flags = fl, mh_seq = ucast (ats_sample_count s),
    mh_pts = ats_start_time s + ats_elapsed_time s, mh_dts_offset = 0\<rparr>) s)"
proof -
  have j: "j < length (sb_metas (ats_mem s addr))" using find_meta_bound [OF assms(2)] assms(3) by simp
  obtain mh where "snd (sb_metas (ats_mem s addr) ! j) = Meta_header mh"
    using assms by (auto simp: header_meta_ok_def elim!: buffer_okD split: spa_meta.splits)
  then show thesis using j that [of "mh_flags mh"] by (cases mh) (simp add: stamp_header_def)
qed

lemma make_buffer_plain:
  assumes "pool_take (ats_pool s) = Some (i, p')" and "ats_io s = Some io" and "sb_datas (ats_mem s addr) = d # ds"
    and "ats_bpf s \<noteq> 0" "ar_rate (ats_info s) \<noteq> 0"
    and "nbf_outbuf (bp_buffers p' ! i) = addr" "nbf_h (bp_buffers p' ! i) = h" "nbf_rb (bp_buffers p' ! i) = None"
    and "make_plain_buffer frame addr (ats_n_bytes (sd_maxsize d) io) (s\<lparr>ats_pool := p'\<rparr>) = Some (m, s2)" and "stamp_header addr h s2 = Some s3"
    and "c = ats_sample_count s3 + scast m"
  shows "audiotestsrc_make_buffer frame s = Some (SPA_RESULT_HAVE_BUFFER,
    (set_timer True (s3\<lparr>ats_sample_count := c, ats_elapsed_time := c * SPA_NSEC_PER_SEC div ucast (ar_rate (ats_info s3))\<rparr>))
      \<lparr>ats_io := Some (io\<lparr>io_buffer_id := sb_id (ats_mem s addr), io_status := SPA_RESULT_HAVE_BUFFER\<rparr>)\<rparr>)"
  by (simp only: audiotestsrc_make_buffer_def assms option.case prod.case list.case Let_def simp_thms if_False)

text \<open>C20. Asked for output by a peer that needs a buffer, the node takes the first free one, renders as many whole
  frames as the requested bytes hold to the start of its block, leaves the rest of the block alone, describes the
  bytes in the chunk, and hands the buffer out. Its header is stamped with the time at which its first sample plays,
  and the sample count and the elapsed time move on by exactly the rendered frames, so that the next buffer follows
  without a gap.\<close>

theorem audiotestsrc_fills_buffer:
  assumes reach: "ats_reach frame s" and f: "frame_ok frame"
    and io: "ats_io s = Some io" "io_status io = SPA_RESULT_NEED_BUFFER" "io_buffer_id io = SPA_ID_INVALID"
    and sync: "\<not> ats_have_output s" and free: "bp_list (ats_pool s) = i # rest"
    and plain: "nbf_rb (bp_buffers (ats_pool s) ! i) = None" and h: "nbf_h (bp_buffers (ats_pool s) ! i) = Some j"
    and addr: "addr = nbf_outbuf (bp_buffers (ats_pool s) ! i)"
    and d: "sb_datas (ats_mem s addr) = d # ds" and m: "sd_mem d = Some block"
    and n: "n = ats_n_bytes (sd_maxsize d) io" and k: "k = unat n div unat (ats_bpf s)"
    and r: "render_frames (ats_frame frame s) k (ats_acc s) = (bs, acc)"
  shows "\<exists>s'. spa_audiotestsrc_node_process_output frame s = Some (SPA_RESULT_HAVE_BUFFER, s') \<and>
    bp_list (ats_pool s') = rest \<and> nbf_outstanding (bp_buffers (ats_pool s') ! i) \<and>
    ats_io s' = Some (io\<lparr>io_buffer_id := sb_id (ats_mem s addr), io_status := SPA_RESULT_HAVE_BUFFER\<rparr>) \<and>
    sb_datas (ats_mem s' addr) = d\<lparr>sd_mem := Some (bs @ drop (length bs) block),
      sd_chunk := \<lparr>ck_offset = 0, ck_size = n, ck_stride = 0\<rparr>\<rparr> # ds \<and>
    (\<exists>fl. snd (sb_metas (ats_mem s' addr) ! j) = Meta_header \<lparr>mh_flags = fl, mh_seq = ucast (ats_sample_count s),
      mh_pts = ats_start_time s + ats_elapsed_time s, mh_dts_offset = 0\<rparr>) \<and>
    ats_acc s' = acc \<and> ats_sample_count s' = ats_sample_count s + of_nat k \<and>
    ats_elapsed_time s' = (ats_sample_count s + of_nat k) * SPA_NSEC_PER_SEC div ucast (ar_rate (ats_info s)) \<and>
    (\<forall>a. a \<noteq> addr \<longrightarrow> ats_mem s' a = ats_mem s a)"
proof -
  have inv: "ats_inv s" by (rule ats_reach_inv [OF reach f])
  then have pok: "pool_ok (ats_pool s)" by (simp add: ats_inv_def)
  obtain p' where t: "pool_take (ats_pool s) = Some (i, p')" using free by (simp add: pool_take_def)
  note tk = pool_take_inv [OF inv t]
  define s1 where "s1 = s\<lparr>ats_pool := p'\<rparr>"
  note ff = first_free [OF inv t refl]
  have bb: "nbf_outbuf (bp_buffers p' ! i) = addr" "nbf_h (bp_buffers p' ! i) = Some j" "nbf_rb (bp_buffers p' ! i) = None"
    using tk(3-5) addr h plain by simp_all
  have ok: "buffer_ok (ats_type s1) (ats_mem s1 addr)" and fmt: "ats_fmt_ok s1" and nz: "ats_bpf s \<noteq> 0" "ar_rate (ats_info s) \<noteq> 0"
    and hj: "spa_buffer_find_meta (ats_mem s addr) (at_Header (ats_type s)) = Some j"
    using ff bb by (simp_all add: s1_def ats_fmt_ok_def)
  have d1: "sb_datas (ats_mem s1 addr) = d # ds" and r1: "render_frames (ats_frame frame s1) (unat n div unat (ats_bpf s1)) (ats_acc s1) = (bs, acc)"
    using d r k by (simp_all add: s1_def ats_frame_def)
  have nle: "n \<le> sd_maxsize d" by (simp add: n ats_n_bytes_le)
  have "unat (sd_maxsize d) < 2 ^ 31" using ok d1 by (auto elim!: buffer_okD)
  then have n31: "unat n < 2 ^ 31" using nle by (simp add: word_le_nat_alt)
  let ?d = "d\<lparr>sd_mem := Some (bs @ drop (length bs) block), sd_chunk := \<lparr>ck_offset = 0, ck_size = n, ck_stride = 0\<rparr>\<rparr>"
  define s2 where "s2 = s1\<lparr>ats_acc := acc, ats_mem := (ats_mem s1)(addr := (ats_mem s1 addr)\<lparr>sb_datas := ?d # ds\<rparr>)\<rparr>"
  have plain': "make_plain_buffer frame addr n s1 = Some (ucast (scast n div ats_bpf s1 :: u64), s2)"
    using plain_buffer_contents [OF f fmt ok d1 m nle r1] by (simp add: s2_def)
  have jl: "j < length (sb_metas (ats_mem s2 addr))" using find_meta_bound [OF hj] by (simp add: s2_def s1_def)
  obtain fl where stamp: "stamp_header addr (Some j) s2 = Some (set_meta addr j (Meta_header \<lparr>mh_flags = fl,
      mh_seq = ucast (ats_sample_count s), mh_pts = ats_start_time s + ats_elapsed_time s, mh_dts_offset = 0\<rparr>) s2)"
    using stamp_header_at [OF ok, of j s2 addr] hj by (auto simp: s2_def s1_def)
  have "unat (scast (ucast (scast n div ats_bpf s1 :: u64) :: u32) :: u64) = k"
    using sample_count(2) [OF n31, of "ats_bpf s1"] k by (simp add: s1_def)
  then have ck: "ats_sample_count s + of_nat k = ats_sample_count s + scast (ucast (scast n div ats_bpf s1 :: u64) :: u32)"
    by (metis of_nat_unat ucast_id)
  have il: "i < length (bp_buffers (ats_pool s))" using tk(2) pok by (simp add: pool_ok_def)
  have p': "p' = pool_set_out i True ((ats_pool s)\<lparr>bp_list := rest\<rparr>)" using t free by (simp add: pool_take_def)
  define s' where "s' = (set_timer True ((set_meta addr j (Meta_header \<lparr>mh_flags = fl, mh_seq = ucast (ats_sample_count s),
      mh_pts = ats_start_time s + ats_elapsed_time s, mh_dts_offset = 0\<rparr>) s2)\<lparr>ats_sample_count := ats_sample_count s + of_nat k,
      ats_elapsed_time := (ats_sample_count s + of_nat k) * SPA_NSEC_PER_SEC div ucast (ar_rate (ats_info s))\<rparr>))
    \<lparr>ats_io := Some (io\<lparr>io_buffer_id := sb_id (ats_mem s addr), io_status := SPA_RESULT_HAVE_BUFFER\<rparr>)\<rparr>"
  have "audiotestsrc_make_buffer frame s = Some (SPA_RESULT_HAVE_BUFFER, s')"
    using make_buffer_plain [OF t io(1) d nz bb plain' [unfolded n s1_def] stamp refl] ck
    by (simp add: s'_def set_meta_simps n s2_def s1_def)
  then have "spa_audiotestsrc_node_process_output frame s = Some (SPA_RESULT_HAVE_BUFFER, s')"
    using io sync by (simp add: spa_audiotestsrc_node_process_output_def)
  then show ?thesis
    using il jl by (intro exI [of _ s']) (simp add: s'_def set_timer_simps set_meta_simps s2_def s1_def p' set_out_same)
qed

lemma audiotestsrc_fills_buffer_witness:
  "\<exists>s'. spa_audiotestsrc_node_process_output silence ex_node = Some (SPA_RESULT_HAVE_BUFFER, s') \<and>
    sd_mem (hd (sb_datas (ats_mem s' 0))) = Some [0, 0, 0, 0, 0, 0, 0, 0, 7, 7] \<and> ats_sample_count s' = 2"
proof -
  let ?d = "\<lparr>sd_type = 17, sd_maxsize = 10, sd_mem = Some (replicate 10 7),
    sd_chunk = \<lparr>ck_offset = 0, ck_size = 0, ck_stride = 0\<rparr>\<rparr> :: spa_data"
  have "\<exists>s'. spa_audiotestsrc_node_process_output silence ex_node = Some (SPA_RESULT_HAVE_BUFFER, s') \<and>
    bp_list (ats_pool s') = [1] \<and> nbf_outstanding (bp_buffers (ats_pool s') ! 0) \<and>
    ats_io s' = Some (ex_io\<lparr>io_buffer_id := sb_id (ats_mem ex_node 0), io_status := SPA_RESULT_HAVE_BUFFER\<rparr>) \<and>
    sb_datas (ats_mem s' 0) = ?d\<lparr>sd_mem := Some (replicate 8 0 @ drop (length (replicate 8 (0 :: byte))) (replicate 10 7)),
      sd_chunk := \<lparr>ck_offset = 0, ck_size = 10, ck_stride = 0\<rparr>\<rparr> # [] \<and>
    (\<exists>fl. snd (sb_metas (ats_mem s' 0) ! 0) = Meta_header \<lparr>mh_flags = fl, mh_seq = ucast (ats_sample_count ex_node),
      mh_pts = ats_start_time ex_node + ats_elapsed_time ex_node, mh_dts_offset = 0\<rparr>) \<and>
    ats_acc s' = () \<and> ats_sample_count s' = ats_sample_count ex_node + of_nat 2 \<and>
    ats_elapsed_time s' = (ats_sample_count ex_node + of_nat 2) * SPA_NSEC_PER_SEC div ucast (ar_rate (ats_info ex_node)) \<and>
    (\<forall>a. a \<noteq> 0 \<longrightarrow> ats_mem s' a = ats_mem ex_node a)"
  proof (rule audiotestsrc_fills_buffer [OF ex_node_reach silence_ok])
    have "ats_frame silence ex_node a = (replicate 4 0, ())" for a
      by (simp add: ats_frame_def silence_def ex_node_def ex_start_def audiotestsrc_init_def sample_sizes_def)
    then show "render_frames (ats_frame silence ex_node) 2 (ats_acc ex_node) = (replicate 8 0, ())"
      by (simp add: numeral_2_eq_2 replicate_add [symmetric])
    show "nbf_h (bp_buffers (ats_pool ex_node) ! 0) = Some 0" "nbf_rb (bp_buffers (ats_pool ex_node) ! 0) = None"
      by (simp_all add: ex_node_def ats_node_buf_def ex_memory_def ex_types_def spa_buffer_find_meta_def)
  qed (simp_all add: ex_node_def ex_start_def audiotestsrc_init_def ex_io_def ex_memory_def ats_node_buf_def ats_n_bytes_def)
  then obtain s' where s': "spa_audiotestsrc_node_process_output silence ex_node = Some (SPA_RESULT_HAVE_BUFFER, s')"
    and c: "ats_sample_count s' = ats_sample_count ex_node + of_nat 2"
    and d: "sb_datas (ats_mem s' 0) = ?d\<lparr>sd_mem := Some (replicate 8 0 @ drop (length (replicate 8 (0 :: byte))) (replicate 10 7)),
      sd_chunk := \<lparr>ck_offset = 0, ck_size = 10, ck_stride = 0\<rparr>\<rparr> # []"
    by blast
  have "ats_sample_count ex_node = 0" by (simp add: ex_node_def ex_start_def audiotestsrc_init_def)
  moreover have "replicate 8 (0 :: byte) @ drop 8 (replicate 10 7) = [0, 0, 0, 0, 0, 0, 0, 0, 7, 7]" by (simp add: numeral_eq_Suc)
  ultimately show ?thesis using s' c d by (intro exI [of _ s']) simp
qed

text \<open>C31. The array of a node holds \<^verbatim>\<open>MAX_BUFFERS\<close>, 16, buffers, but their number is not checked and the
  node asks for up to 32: whenever it accepts more than 16 buffers it writes behind its array.\<close>

theorem audiotestsrc_too_many_buffers:
  assumes "ats_check_port d p" and "ats_have_format s" and "ATS_MAX_BUFFERS < length addrs"
  shows "spa_audiotestsrc_node_port_use_buffers d p addrs s = None"
  using assms too_many_buffers [of 0 addrs "ats_clear_buffers s"] by (simp add: spa_audiotestsrc_node_port_use_buffers_def)

lemma audiotestsrc_too_many_buffers_witness:
  "spa_audiotestsrc_node_port_use_buffers Dir_output 0 [0..<17] ex_node = None"
  by (rule audiotestsrc_too_many_buffers) (simp_all add: ats_check_port_def ex_node_def ATS_MAX_BUFFERS_def)

end
