(* ===== verification/Spa_Samples.thy ===== *)
theory Spa_Samples
  imports Spa_Node
begin

text \<open>
  Signed and unsigned 16-bit samples in the data blocks of buffers, and the loops of the audio nodes that combine
  the samples of one block with those of another, one after the other in memory.
\<close>

section \<open>Samples as bytes\<close>

type_synonym u16 = "16 word"

definition le16 :: "u16 \<Rightarrow> byte list" where
  "le16 w = [ucast w, ucast (drop_bit 8 w)]"

definition rd16 :: "byte \<Rightarrow> byte \<Rightarrow> u16" where
  "rd16 a b = ucast a OR push_bit 8 (ucast b)"

lemma length_le16 [simp]: "length (le16 w) = 2"
  by (simp add: le16_def)

lemma rd16_le16: "rd16 (ucast w) (ucast (drop_bit 8 w)) = w"
proof (rule bit_word_eqI)
  fix n :: nat
  assume "n < LENGTH(16)"
  then show "bit (rd16 (ucast w) (ucast (drop_bit 8 w))) n = bit w n"
    by (cases "n < 8") (auto simp: rd16_def bit_simps)
qed

text \<open>Sample by sample over two byte strings; what is behind the end of the shorter one stays.\<close>

fun combine_bytes :: "(u16 \<Rightarrow> u16 \<Rightarrow> u16) \<Rightarrow> byte list \<Rightarrow> byte list \<Rightarrow> byte list" where
  "combine_bytes f (o0 # o1 # os) (i0 # i1 # ins) = le16 (f (rd16 o0 o1) (rd16 i0 i1)) @ combine_bytes f os ins"
| "combine_bytes f os ins = os"

lemma length_combine_bytes [simp]: "length (combine_bytes f os ins) = length os"
  by (induction f os ins rule: combine_bytes.induct) (auto simp: le16_def)

lemma combine_bytes_Nil [simp]: "combine_bytes f os [] = os"
  by (cases "(f, os, [] :: byte list)" rule: combine_bytes.cases) auto

lemma combine_bytes_append:
  "\<lbrakk>length xs = length ys; even (length xs)\<rbrakk> \<Longrightarrow>
   combine_bytes f (xs @ os) (ys @ ins) = combine_bytes f xs ys @ combine_bytes f os ins"
proof (induction f xs ys rule: combine_bytes.induct, goal_cases)
  case (3 f x ys)
  then show ?case by (cases ys) auto
qed auto

section \<open>Blocks\<close>

text \<open>A place is a buffer, one of its data blocks, and a position in that block.\<close>

type_synonym place = "nat \<times> nat \<times> nat"

definition data_block :: "buffer_store \<Rightarrow> nat \<Rightarrow> nat \<Rightarrow> byte list option" where
  "data_block mem a k = (if k < length (sb_datas (mem a)) then sd_mem (sb_datas (mem a) ! k) else None)"

definition set_block :: "buffer_store \<Rightarrow> nat \<Rightarrow> nat \<Rightarrow> byte list \<Rightarrow> buffer_store" where
  "set_block mem a k block =
     mem(a := (mem a)\<lparr>sb_datas := (sb_datas (mem a))[k := (sb_datas (mem a) ! k)\<lparr>sd_mem := Some block\<rparr>]\<rparr>)"

fun data_read :: "buffer_store \<Rightarrow> place \<Rightarrow> nat \<Rightarrow> byte list option" where
  "data_read mem (a, k, pos) n = (case data_block mem a k of None \<Rightarrow> None | Some block \<Rightarrow> mem_read block pos n)"

fun data_write :: "buffer_store \<Rightarrow> place \<Rightarrow> byte list \<Rightarrow> buffer_store option" where
  "data_write mem (a, k, pos) bs =
     (case data_block mem a k of
        None \<Rightarrow> None
      | Some block \<Rightarrow> map_option (set_block mem a k) (mem_write block pos bs))"

definition step_place :: "place \<Rightarrow> place" where
  "step_place l = (case l of (a, k, pos) \<Rightarrow> (a, k, pos + 2))"

text \<open>The loop over the samples: every sample of the first place becomes a function of itself and of the sample at the
  second place.\<close>

fun combine_samples :: "(u16 \<Rightarrow> u16 \<Rightarrow> u16) \<Rightarrow> nat \<Rightarrow> place \<Rightarrow> place \<Rightarrow> buffer_store \<Rightarrow> buffer_store option" where
  "combine_samples f 0 dst src mem = Some mem"
| "combine_samples f (Suc n) dst src mem =
     (case (data_read mem dst 2, data_read mem src 2) of
        (Some [o0, o1], Some [i0, i1]) \<Rightarrow>
          (case data_write mem dst (le16 (f (rd16 o0 o1) (rd16 i0 i1))) of
             None \<Rightarrow> None
           | Some mem' \<Rightarrow> combine_samples f n (step_place dst) (step_place src) mem')
      | _ \<Rightarrow> None)"

section \<open>Laws of the blocks\<close>

lemma data_block_set_block:
  assumes "data_block mem a k = Some block"
  shows "data_block (set_block mem a k block') a' k' = (if a' = a \<and> k' = k then Some block' else data_block mem a' k')"
  using assms by (auto simp: data_block_def set_block_def nth_list_update split: if_splits)

lemma set_block_set_block: "set_block (set_block mem a k b) a k b' = set_block mem a k b'"
  by (cases "k < length (sb_datas (mem a))") (simp_all add: set_block_def list_update_beyond not_less)

lemma set_block_same: "data_block mem a k = Some block \<Longrightarrow> set_block mem a k block = mem"
proof -
  assume b: "data_block mem a k = Some block"
  then have "sb_datas (mem a) ! k = (sb_datas (mem a) ! k)\<lparr>sd_mem := Some block\<rparr>" by (simp add: data_block_def split: if_splits)
  then have "(sb_datas (mem a))[k := (sb_datas (mem a) ! k)\<lparr>sd_mem := Some block\<rparr>] = sb_datas (mem a)"
    by (metis list_update_id)
  then show ?thesis by (simp add: set_block_def)
qed

lemma mem_write_append:
  assumes "mem_write m p xs = Some m'"
  shows "mem_write m' (p + length xs) ys = mem_write m p (xs @ ys)"
proof (cases "p + length xs + length ys \<le> length m")
  case True
  have m': "m' = take p m @ xs @ drop (p + length xs) m" and l: "p + length xs \<le> length m"
    using assms by (auto simp: mem_write_def split: if_splits)
  then show ?thesis using True by (simp add: mem_write_def ac_simps)
next
  case False
  then show ?thesis using mem_write_length [OF assms] by (simp add: mem_write_def)
qed

lemma data_write_append:
  assumes "data_write mem (a, k, p) xs = Some mem'"
  shows "data_write mem' (a, k, p + length xs) ys = data_write mem (a, k, p) (xs @ ys)"
proof -
  obtain block block' where b: "data_block mem a k = Some block" and w: "mem_write block p xs = Some block'"
    and m: "mem' = set_block mem a k block'"
    using assms by (auto split: option.splits)
  show ?thesis
    using b by (simp add: m data_block_set_block [OF b] mem_write_append [OF w] set_block_set_block cong: map_option_cong)
qed

lemma data_read_split:
  assumes "data_read mem (a, k, p) (m + n) = Some bs"
  shows "data_read mem (a, k, p) m = Some (take m bs)" and "data_read mem (a, k, p + m) n = Some (drop m bs)"
  using assms by (auto simp: mem_read_def drop_take add.commute split: option.splits if_splits)

lemma data_read_other:
  assumes "data_write mem (a, k, p) xs = Some mem'" and "a' \<noteq> a"
  shows "data_read mem' (a', k', p') n = data_read mem (a', k', p') n"
proof -
  obtain block block' where b: "data_block mem a k = Some block" and m: "mem' = set_block mem a k block'"
    using assms(1) by (auto split: option.splits)
  show ?thesis using assms(2) by (simp add: m data_block_set_block [OF b])
qed

lemma data_read_behind:
  assumes "data_write mem (a, k, p) xs = Some mem'" and "p + length xs \<le> p'"
  shows "data_read mem' (a, k, p') n = data_read mem (a, k, p') n"
proof -
  obtain block block' where b: "data_block mem a k = Some block" and w: "mem_write block p xs = Some block'"
    and m: "mem' = set_block mem a k block'"
    using assms(1) by (auto split: option.splits)
  show ?thesis using mem_read_write_disjoint [OF w, of p' n] assms(2) by (simp add: b m data_block_set_block [OF b])
qed

lemma data_read_length: "data_read mem l n = Some bs \<Longrightarrow> length bs = n"
  by (cases l) (auto simp: mem_read_def split: option.splits if_splits)

lemma data_write_some:
  assumes "data_read mem (a, k, p) n = Some bs" and "length xs = n"
  obtains mem' where "data_write mem (a, k, p) xs = Some mem'"
  using assms by (auto simp: mem_read_def mem_write_def split: option.splits if_splits)

text \<open>The loop on two different buffers combines the bytes of the two places.\<close>

lemma combine_samples_eq:
  assumes "a \<noteq> a'" and "data_read mem (a, k, p) (2 * n) = Some os" and "data_read mem (a', k', p') (2 * n) = Some ins"
  shows "combine_samples f n (a, k, p) (a', k', p') mem = data_write mem (a, k, p) (combine_bytes f os ins)"
  using assms(2,3)
proof (induction n arbitrary: p p' os ins mem)
  case 0
  obtain block where b: "data_block mem a k = Some block" and p: "p \<le> length block"
    using 0 by (auto simp: mem_read_def split: option.splits if_splits)
  have "os = []" using data_read_length [OF 0(1)] by simp
  then show ?case using b p by (simp add: mem_write_def set_block_same)
next
  case (Suc n)
  have two: "2 * Suc n = 2 + 2 * n" by simp
  note o = data_read_split [OF Suc.prems(1) [unfolded two]] and i = data_read_split [OF Suc.prems(2) [unfolded two]]
  have "length os = 2 + 2 * n" "length ins = 2 + 2 * n"
    using data_read_length [OF Suc.prems(1)] data_read_length [OF Suc.prems(2)] by simp_all
  then obtain o0 o1 os' i0 i1 ins' where os: "os = o0 # o1 # os'" and ins: "ins = i0 # i1 # ins'"
    by (auto simp: length_Suc_conv)
  let ?w = "le16 (f (rd16 o0 o1) (rd16 i0 i1))"
  have r: "data_read mem (a, k, p) 2 = Some [o0, o1]" "data_read mem (a', k', p') 2 = Some [i0, i1]"
    using o(1) i(1) by (simp_all add: os ins numeral_2_eq_2)
  obtain mem' where w: "data_write mem (a, k, p) ?w = Some mem'" using data_write_some [OF r(1)] by (metis length_le16)
  have o': "data_read mem' (a, k, p + 2) (2 * n) = Some os'"
    using data_read_behind [OF w, of "p + 2" "2 * n"] o(2) by (simp add: os numeral_2_eq_2)
  have i': "data_read mem' (a', k', p' + 2) (2 * n) = Some ins'"
    using data_read_other [OF w assms(1) [symmetric], of k' "p' + 2" "2 * n"] i(2) by (simp add: ins numeral_2_eq_2)
  have "combine_samples f (Suc n) (a, k, p) (a', k', p') mem = combine_samples f n (a, k, p + 2) (a', k', p' + 2) mem'"
    using r w by (simp add: step_place_def)
  also have "\<dots> = data_write mem' (a, k, p + length ?w) (combine_bytes f os' ins')" using Suc.IH [OF o' i'] by simp
  also have "\<dots> = data_write mem (a, k, p) (combine_bytes f os ins)" unfolding data_write_append [OF w] by (simp add: os ins)
  finally show ?case .
qed

end
