(* ===== verification/Spa_Volume.thy ===== *)
theory Spa_Volume
  imports Spa_Samples
begin

text \<open>
  The volume node, \<^verbatim>\<open>spa/plugins/volume/volume.c\<close>: one input and one output port, buffers of 16-bit samples
  that are scaled from the input to the output, and the list of free output buffers on explicit links. Node 0 of the
  links of a port is the head of its list \<^verbatim>\<open>empty\<close>, node \<open>i + 1\<close> the link inside buffer \<open>i\<close>. The product of
  a sample and a \<^verbatim>\<open>double\<close>, converted back to a sample, is the parameter \<open>scale\<close>. Memory accesses outside
  a block or an array and calls of a null function are \<open>None\<close>.
\<close>

section \<open>State\<close>

record vol_types =
  vt_format :: u32
  vt_audio :: u32
  vt_raw :: u32
  vt_keys :: audio_keys
  vt_S16 :: u32
  vt_S32 :: u32
  vt_MemPtr :: u32
  vt_MemFd :: u32
  vt_DmaBuf :: u32
  vt_Header :: u32
  vt_Start :: u32
  vt_Pause :: u32

record vol_props =
  vp_volume :: u64
  vp_mute :: bool

record vol_buffer =
  vb_outbuf :: nat
  vb_outstanding :: bool
  vb_h :: "nat option"
  vb_ptr :: "nat option"
  vb_size :: u64

record vol_port =
  vpt_have_format :: bool
  vpt_buffers :: "vol_buffer list"
  vpt_n_buffers :: u32
  vpt_io :: "spa_port_io option"
  vpt_empty :: spa_links

record vol =
  v_type :: vol_types
  v_props :: vol_props
  v_reuse_buffer :: bool
  v_format :: audio_raw
  v_in :: vol_port
  v_out :: vol_port
  v_started :: bool
  v_mem :: buffer_store

definition VOL_MAX_BUFFERS :: nat where "VOL_MAX_BUFFERS = 16"

text \<open>1.0 as a \<^verbatim>\<open>double\<close>.\<close>

definition reset_volume_props :: vol_props where
  "reset_volume_props = \<lparr>vp_volume = 0x3FF0000000000000, vp_mute = False\<rparr>"

definition vol_new_port :: vol_port where
  "vol_new_port = \<lparr>vpt_have_format = False,
     vpt_buffers = replicate VOL_MAX_BUFFERS \<lparr>vb_outbuf = 0, vb_outstanding = False, vb_h = None, vb_ptr = None, vb_size = 0\<rparr>,
     vpt_n_buffers = 0, vpt_io = None, vpt_empty = spa_list_init 0 \<lparr>l_next = (\<lambda>_. 0), l_prev = (\<lambda>_. 0)\<rparr>\<rparr>"

definition volume_init :: "vol_types \<Rightarrow> buffer_store \<Rightarrow> vol" where
  "volume_init t mem =
     \<lparr>v_type = t, v_props = reset_volume_props, v_reuse_buffer = False, v_format = zero_audio_raw, v_in = vol_new_port,
      v_out = vol_new_port, v_started = False, v_mem = mem\<rparr>"

definition vol_port_of :: "spa_direction \<Rightarrow> vol \<Rightarrow> vol_port" where
  "vol_port_of d s = (case d of Dir_input \<Rightarrow> v_in s | Dir_output \<Rightarrow> v_out s)"

definition set_vol_port :: "spa_direction \<Rightarrow> vol_port \<Rightarrow> vol \<Rightarrow> vol" where
  "set_vol_port d p s = (case d of Dir_input \<Rightarrow> s\<lparr>v_in := p\<rparr> | Dir_output \<Rightarrow> s\<lparr>v_out := p\<rparr>)"

section \<open>Operations\<close>

definition spa_volume_node_set_props :: "(u64 option \<times> bool option) option \<Rightarrow> vol \<Rightarrow> spa_result \<times> vol" where
  "spa_volume_node_set_props props s =
     (case props of
        None \<Rightarrow> (SPA_RESULT_OK, s\<lparr>v_props := reset_volume_props\<rparr>)
      | Some (v, m) \<Rightarrow> (SPA_RESULT_OK, s\<lparr>v_props :=
          \<lparr>vp_volume = (case v of Some x \<Rightarrow> x | None \<Rightarrow> vp_volume (v_props s)),
           vp_mute = (case m of Some x \<Rightarrow> x | None \<Rightarrow> vp_mute (v_props s))\<rparr>\<rparr>))"

definition spa_volume_node_send_command :: "u32 \<Rightarrow> vol \<Rightarrow> spa_result \<times> vol" where
  "spa_volume_node_send_command cmd s =
     (if cmd = vt_Start (v_type s) then (SPA_RESULT_OK, s\<lparr>v_started := True\<rparr>)
      else if cmd = vt_Pause (v_type s) then (SPA_RESULT_OK, s\<lparr>v_started := False\<rparr>)
      else (SPA_RESULT_NOT_IMPLEMENTED, s))"

definition spa_volume_node_set_callbacks :: "bool \<Rightarrow> vol \<Rightarrow> spa_result \<times> vol" where
  "spa_volume_node_set_callbacks reuse_buffer s = (SPA_RESULT_OK, s\<lparr>v_reuse_buffer := reuse_buffer\<rparr>)"

definition vol_enum_format :: "vol_types \<Rightarrow> spa_format" where
  "vol_enum_format t =
     \<lparr>fmt_type = vt_format t, fmt_media_type = vt_audio t, fmt_media_subtype = vt_raw t,
      fmt_props = map Entry_prop
        [prop_u_en (ak_format (vt_keys t)) SPA_POD_TYPE_ID [Pv_word (vt_S16 t), Pv_word (vt_S16 t), Pv_word (vt_S32 t)],
         prop_u_mm (ak_rate (vt_keys t)) SPA_POD_TYPE_INT (Pv_word 44100) (Pv_word 1) (Pv_word 0x7fffffff),
         prop_u_mm (ak_channels (vt_keys t)) SPA_POD_TYPE_INT (Pv_word 2) (Pv_word 1) (Pv_word 0x7fffffff)]\<rparr>"

definition spa_volume_node_port_enum_formats ::
  "(u64 \<Rightarrow> u64 \<Rightarrow> int) \<Rightarrow> u32 \<Rightarrow> spa_format option \<Rightarrow> u32 \<Rightarrow> vol \<Rightarrow> (spa_result \<times> spa_format option) option" where
  "spa_volume_node_port_enum_formats fdiff p flt index s =
     (if p \<noteq> 0 then Some (SPA_RESULT_INVALID_PORT, None)
      else enum_one_format fdiff (vol_enum_format (v_type s)) flt index)"

definition vol_clear_buffers :: "vol_port \<Rightarrow> vol_port" where
  "vol_clear_buffers p =
     (if vpt_n_buffers p > 0 then p\<lparr>vpt_n_buffers := 0, vpt_empty := spa_list_init 0 (vpt_empty p)\<rparr> else p)"

definition spa_volume_node_port_set_format :: "spa_direction \<Rightarrow> u32 \<Rightarrow> spa_format option \<Rightarrow> vol \<Rightarrow> (spa_result \<times> vol) option" where
  "spa_volume_node_port_set_format d p fmt s =
     (if p \<noteq> 0 then Some (SPA_RESULT_INVALID_PORT, s)
      else let port = vol_port_of d s in
        case fmt of
          None \<Rightarrow> Some (SPA_RESULT_OK, set_vol_port d (vol_clear_buffers (port\<lparr>vpt_have_format := False\<rparr>)) s)
        | Some f \<Rightarrow>
            if fmt_media_type f \<noteq> vt_audio (v_type s) \<or> fmt_media_subtype f \<noteq> vt_raw (v_type s)
            then Some (SPA_RESULT_INVALID_MEDIA_TYPE, s)
            else case spa_format_audio_raw_parse (vt_keys (v_type s)) (fmt_props f) zero_audio_raw of
                None \<Rightarrow> None
              | Some (ok, info) \<Rightarrow>
                if \<not> ok then Some (SPA_RESULT_INVALID_MEDIA_TYPE, s)
                else Some (SPA_RESULT_OK, set_vol_port d (port\<lparr>vpt_have_format := True\<rparr>) (s\<lparr>v_format := info\<rparr>)))"

text \<open>The format is returned as a null pointer.\<close>

definition spa_volume_node_port_get_format :: "spa_direction \<Rightarrow> u32 \<Rightarrow> vol \<Rightarrow> spa_result \<times> spa_format option" where
  "spa_volume_node_port_get_format d p s =
     (if p \<noteq> 0 then (SPA_RESULT_INVALID_PORT, None)
      else if \<not> vpt_have_format (vol_port_of d s) then (SPA_RESULT_NO_FORMAT, None)
      else (SPA_RESULT_OK, None))"

text \<open>The loop over the new buffers; the flag tells that it ran to its end.\<close>

fun vol_use_buffers_from :: "vol_types \<Rightarrow> buffer_store \<Rightarrow> nat \<Rightarrow> nat list \<Rightarrow> vol_port \<Rightarrow> (bool \<times> vol_port) option" where
  "vol_use_buffers_from t mem i [] port = Some (True, port)"
| "vol_use_buffers_from t mem i (addr # addrs) port =
     (if VOL_MAX_BUFFERS \<le> i then None
      else case sb_datas (mem addr) of
        [] \<Rightarrow> None
      | d # _ \<Rightarrow>
          let b = (vpt_buffers port ! i)\<lparr>vb_outbuf := addr, vb_outstanding := True,
                     vb_h := spa_buffer_find_meta (mem addr) (vt_Header t)\<rparr> in
          if sd_type d \<in> {vt_MemPtr t, vt_MemFd t, vt_DmaBuf t} \<and> sd_mem d \<noteq> None
          then vol_use_buffers_from t mem (i + 1) addrs
                 (port\<lparr>vpt_buffers := (vpt_buffers port)[i := b\<lparr>vb_ptr := Some addr, vb_size := ucast (sd_maxsize d)\<rparr>],
                       vpt_empty := spa_list_insert (l_prev (vpt_empty port) 0) (i + 1) (vpt_empty port)\<rparr>)
          else Some (False, port\<lparr>vpt_buffers := (vpt_buffers port)[i := b]\<rparr>))"

definition spa_volume_node_port_use_buffers :: "spa_direction \<Rightarrow> u32 \<Rightarrow> nat list \<Rightarrow> vol \<Rightarrow> (spa_result \<times> vol) option" where
  "spa_volume_node_port_use_buffers d p addrs s =
     (if p \<noteq> 0 then Some (SPA_RESULT_INVALID_PORT, s)
      else if \<not> vpt_have_format (vol_port_of d s) then Some (SPA_RESULT_NO_FORMAT, s)
      else case vol_use_buffers_from (v_type s) (v_mem s) 0 addrs (vol_clear_buffers (vol_port_of d s)) of
             None \<Rightarrow> None
           | Some (False, port) \<Rightarrow> Some (SPA_RESULT_ERROR, set_vol_port d port s)
           | Some (True, port) \<Rightarrow> Some (SPA_RESULT_OK, set_vol_port d (port\<lparr>vpt_n_buffers := of_nat (length addrs)\<rparr>) s))"

definition spa_volume_node_port_set_io :: "spa_direction \<Rightarrow> u32 \<Rightarrow> spa_port_io option \<Rightarrow> vol \<Rightarrow> spa_result \<times> vol" where
  "spa_volume_node_port_set_io d p io s =
     (if p \<noteq> 0 then (SPA_RESULT_INVALID_PORT, s)
      else (SPA_RESULT_OK, set_vol_port d ((vol_port_of d s)\<lparr>vpt_io := io\<rparr>) s))"

definition spa_volume_node_port_reuse_buffer :: "u32 \<Rightarrow> u32 \<Rightarrow> vol \<Rightarrow> spa_result \<times> vol" where
  "spa_volume_node_port_reuse_buffer p i s =
     (if p \<noteq> 0 then (SPA_RESULT_INVALID_PORT, s)
      else let port = v_out s in
        if vpt_n_buffers port = 0 then (SPA_RESULT_NO_BUFFERS, s)
        else if i \<ge> vpt_n_buffers port then (SPA_RESULT_INVALID_BUFFER_ID, s)
        else let b = vpt_buffers port ! unat i in
          if \<not> vb_outstanding b then (SPA_RESULT_OK, s)
          else (SPA_RESULT_OK, s\<lparr>v_out := port\<lparr>
                  vpt_buffers := (vpt_buffers port)[unat i := b\<lparr>vb_outstanding := False\<rparr>],
                  vpt_empty := spa_list_insert (l_prev (vpt_empty port) 0) (unat i + 1) (vpt_empty port)\<rparr>\<rparr>))"

definition vol_find_free_buffer :: "vol_port \<Rightarrow> (nat \<times> vol_port) option" where
  "vol_find_free_buffer port =
     (if spa_list_is_empty 0 (vpt_empty port) then None
      else let i = spa_list_first 0 (vpt_empty port) - 1; b = vpt_buffers port ! i in
        Some (vb_outbuf b, port\<lparr>vpt_buffers := (vpt_buffers port)[i := b\<lparr>vb_outstanding := True\<rparr>],
                                vpt_empty := spa_list_remove (i + 1) (vpt_empty port)\<rparr>))"

section \<open>Scaling\<close>

lemma combine_samples_shape:
  "combine_samples f n dst src mem = Some mem' \<Longrightarrow> length (sb_datas (mem' a)) = length (sb_datas (mem a)) \<and>
     map sd_chunk (sb_datas (mem' a)) = map sd_chunk (sb_datas (mem a))"
proof (induction n arbitrary: dst src mem)
  case (Suc n)
  obtain b k p where dst: "dst = (b, k, p)" by (cases dst) auto
  from Suc.prems obtain o0 o1 i0 i1 m where r: "data_read mem dst 2 = Some [o0, o1]" "data_read mem src 2 = Some [i0, i1]"
    and w: "data_write mem dst (le16 (f (rd16 o0 o1) (rd16 i0 i1))) = Some m"
    and c: "combine_samples f n (step_place dst) (step_place src) m = Some mem'"
    by (auto split: option.splits list.splits)
  from w obtain block where m: "m = set_block mem b k block" by (auto simp: dst split: option.splits)
  have "map sd_chunk (sb_datas (m a)) = map sd_chunk (sb_datas (mem a))"
  proof (cases "a = b \<and> k < length (sb_datas (mem b))")
    case True
    have "map sd_chunk ((sb_datas (mem b))[k := (sb_datas (mem b) ! k)\<lparr>sd_mem := Some block\<rparr>]) = map sd_chunk (sb_datas (mem b))"
      using True by (intro nth_equalityI) (auto simp: nth_list_update)
    then show ?thesis using True by (simp add: m set_block_def)
  qed (auto simp: m set_block_def list_update_beyond)
  moreover have "length (sb_datas (m a)) = length (sb_datas (mem a))" by (simp add: m set_block_def)
  ultimately show ?case using Suc.IH [OF c] by simp
qed simp

text \<open>Every round ends a block of one of the buffers.\<close>

lemma volume_round:
  fixes sz dz so do' :: u32
  shows "sz \<le> so + min (sz - so) (dz - do') \<or> dz \<le> do' + min (sz - so) (dz - do')"
  by (auto simp: min_def)

text \<open>The loop of \<^verbatim>\<open>do_volume\<close>, with the names of its parameters: samples of \<open>dbuf\<close> are read, samples of
  \<open>sbuf\<close> are written.\<close>

function do_volume_from ::
  "(u16 \<Rightarrow> u16) \<Rightarrow> nat \<Rightarrow> nat \<Rightarrow> nat \<Rightarrow> nat \<Rightarrow> u32 \<Rightarrow> u32 \<Rightarrow> buffer_store \<Rightarrow> buffer_store option"
where
  "do_volume_from scale dbuf sbuf si di soff doff mem =
     (if si = length (sb_datas (mem sbuf)) \<or> di = length (sb_datas (mem dbuf)) then Some mem
      else if length (sb_datas (mem sbuf)) < si \<or> length (sb_datas (mem dbuf)) < di then None
      else
        let sc = sd_chunk (sb_datas (mem sbuf) ! si); dc = sd_chunk (sb_datas (mem dbuf) ! di);
            n_bytes = min (ck_size sc - soff) (ck_size dc - doff) in
        case combine_samples (\<lambda>_ x. scale x) (unat n_bytes div 2) (sbuf, si, unat (ck_offset sc) + unat soff)
               (dbuf, di, unat (ck_offset dc) + unat doff) mem of
          None \<Rightarrow> None
        | Some mem' \<Rightarrow>
            let soff' = soff + n_bytes; doff' = doff + n_bytes in
            do_volume_from scale dbuf sbuf (if soff' \<ge> ck_size sc then si + 1 else si) (if doff' \<ge> ck_size dc then di + 1 else di)
              (if soff' \<ge> ck_size sc then 0 else soff') (if doff' \<ge> ck_size dc then 0 else doff') mem')"
  by pat_completeness auto

termination
proof (relation "measure (\<lambda>(scale, dbuf, sbuf, si, di, soff, doff, mem).
    (length (sb_datas (mem sbuf)) - si) + (length (sb_datas (mem dbuf)) - di))", goal_cases)
  case (2 scale dbuf sbuf si di soff doff mem sc dc n_bytes mem' soff' doff')
  note sh = combine_samples_shape [OF 2(6)]
  have "si < length (sb_datas (mem sbuf))" "di < length (sb_datas (mem dbuf))" using 2(1,2) by auto
  moreover have "ck_size sc \<le> soff' \<or> ck_size dc \<le> doff'" using volume_round [of "ck_size sc" soff "ck_size dc" doff] 2 by simp
  ultimately show ?case using sh [of sbuf] sh [of dbuf] by auto
qed simp

definition do_volume :: "(u16 \<Rightarrow> u16) \<Rightarrow> nat \<Rightarrow> nat \<Rightarrow> buffer_store \<Rightarrow> buffer_store option" where
  "do_volume scale dbuf sbuf mem = do_volume_from scale dbuf sbuf 0 0 0 0 mem"

text \<open>The list of calls of \<^verbatim>\<open>reuse_buffer\<close> stands with the result.\<close>

definition spa_volume_node_process_input ::
  "(u64 \<Rightarrow> u16 \<Rightarrow> u16) \<Rightarrow> vol \<Rightarrow> (spa_result \<times> u32 list \<times> vol) option" where
  "spa_volume_node_process_input scale s =
     (case (vpt_io (v_in s), vpt_io (v_out s)) of
        (Some input, Some output) \<Rightarrow>
          if \<not> vpt_have_format (v_in s)
          then Some (SPA_RESULT_ERROR, [], s\<lparr>v_in := (v_in s)\<lparr>vpt_io := Some (input\<lparr>io_status := SPA_RESULT_NO_FORMAT\<rparr>)\<rparr>\<rparr>)
          else if io_buffer_id input \<ge> vpt_n_buffers (v_in s)
          then Some (SPA_RESULT_ERROR, [], s\<lparr>v_in := (v_in s)\<lparr>vpt_io := Some (input\<lparr>io_status := SPA_RESULT_INVALID_BUFFER_ID\<rparr>)\<rparr>\<rparr>)
          else
            (case (if io_buffer_id output \<ge> vpt_n_buffers (v_out s) then vol_find_free_buffer (v_out s)
                   else Some (vb_outbuf (vpt_buffers (v_out s) ! unat (io_buffer_id output)), v_out s)) of
               None \<Rightarrow> Some (SPA_RESULT_OUT_OF_BUFFERS, [], s)
             | Some (dbuf, out) \<Rightarrow>
                 let sbuf = vb_outbuf (vpt_buffers (v_in s) ! unat (io_buffer_id input)) in
                 (case do_volume (scale (vp_volume (v_props s))) sbuf dbuf (v_mem s) of
                    None \<Rightarrow> None
                  | Some mem \<Rightarrow>
                      let s' = s\<lparr>v_in := (v_in s)\<lparr>vpt_io := Some (input\<lparr>io_buffer_id := SPA_ID_INVALID, io_status := SPA_RESULT_OK\<rparr>)\<rparr>,
                                 v_out := out\<lparr>vpt_io := Some (output\<lparr>io_buffer_id := sb_id (mem dbuf), io_status := SPA_RESULT_OK\<rparr>)\<rparr>,
                                 v_mem := mem\<rparr> in
                      if sbuf = dbuf then Some (SPA_RESULT_HAVE_BUFFER, [], s')
                      else if v_reuse_buffer s then Some (SPA_RESULT_HAVE_BUFFER, [sb_id (mem sbuf)], s')
                      else None))
      | _ \<Rightarrow> Some (SPA_RESULT_ERROR, [], s))"

section \<open>The loop against its specification\<close>

text \<open>The valid bytes of a buffer: those that the chunks of its data blocks describe, in order.\<close>

definition chunk_window :: "spa_data \<Rightarrow> byte list" where
  "chunk_window d =
     (case sd_mem d of
        None \<Rightarrow> []
      | Some block \<Rightarrow> take (unat (ck_size (sd_chunk d))) (drop (unat (ck_offset (sd_chunk d))) block))"

definition valid_bytes :: "spa_buffer \<Rightarrow> byte list" where
  "valid_bytes b = concat (map chunk_window (sb_datas b))"

definition window_ok :: "spa_data \<Rightarrow> bool" where
  "window_ok d \<longleftrightarrow>
     (case sd_mem d of
        None \<Rightarrow> False
      | Some block \<Rightarrow> unat (ck_offset (sd_chunk d)) + unat (ck_size (sd_chunk d)) \<le> length block \<and>
          even (unat (ck_size (sd_chunk d))))"

definition windows_ok :: "spa_buffer \<Rightarrow> bool" where
  "windows_ok b \<longleftrightarrow> list_all window_ok (sb_datas b)"

lemma window_okE:
  assumes "window_ok d"
  obtains block where "sd_mem d = Some block"
    and "unat (ck_offset (sd_chunk d)) + unat (ck_size (sd_chunk d)) \<le> length block"
    and "even (unat (ck_size (sd_chunk d)))" and "length (chunk_window d) = unat (ck_size (sd_chunk d))"
    and "chunk_window d = take (unat (ck_size (sd_chunk d))) (drop (unat (ck_offset (sd_chunk d))) block)"
  using assms by (cases "sd_mem d") (auto simp: window_ok_def chunk_window_def)

text \<open>The position of a byte of a block among all valid bytes.\<close>

definition flat_pos :: "spa_data list \<Rightarrow> nat \<Rightarrow> nat \<Rightarrow> nat" where
  "flat_pos ds k off = length (concat (map chunk_window (take k ds))) + off"

lemma flat_split:
  assumes "k < length ds"
  shows "concat (map chunk_window ds) = concat (map chunk_window (take k ds)) @ chunk_window (ds ! k) @
    concat (map chunk_window (drop (Suc k) ds))"
  using arg_cong [OF id_take_nth_drop [OF assms], of "\<lambda>xs. concat (map chunk_window xs)"] by simp

lemma flat_pos_next: "k < length ds \<Longrightarrow> flat_pos ds (k + 1) 0 = flat_pos ds k (length (chunk_window (ds ! k)))"
  by (simp add: flat_pos_def take_Suc_conv_app_nth)

lemma flat_read:
  assumes "k < length ds" and "off + n \<le> length (chunk_window (ds ! k))"
  shows "take n (drop (flat_pos ds k off) (concat (map chunk_window ds))) = take n (drop off (chunk_window (ds ! k)))"
  using assms unfolding flat_split [OF assms(1)] flat_pos_def by simp

lemma window_write:
  assumes ok: "window_ok d" and m: "sd_mem d = Some block" and n: "off + length new \<le> unat (ck_size (sd_chunk d))"
    and w: "mem_write block (unat (ck_offset (sd_chunk d)) + off) new = Some block'"
  shows "chunk_window (d\<lparr>sd_mem := Some block'\<rparr>) =
    take off (chunk_window d) @ new @ drop (off + length new) (chunk_window d)"
proof (rule nth_equalityI)
  let ?o = "unat (ck_offset (sd_chunk d))" and ?s = "unat (ck_size (sd_chunk d))"
  have b: "?o + ?s \<le> length block" using ok m by (simp add: window_ok_def)
  have l': "length block' = length block" by (rule mem_write_length [OF w])
  show "length (chunk_window (d\<lparr>sd_mem := Some block'\<rparr>)) =
      length (take off (chunk_window d) @ new @ drop (off + length new) (chunk_window d))"
    using b l' m n by (simp add: chunk_window_def)
  fix i assume "i < length (chunk_window (d\<lparr>sd_mem := Some block'\<rparr>))"
  then have i: "i < ?s" using b l' by (simp add: chunk_window_def)
  then show "chunk_window (d\<lparr>sd_mem := Some block'\<rparr>) ! i =
      (take off (chunk_window d) @ new @ drop (off + length new) (chunk_window d)) ! i"
    using b l' m n mem_write_nth [OF w, of "?o + i"] by (auto simp: chunk_window_def nth_append)
qed

lemma flat_write:
  assumes k: "k < length ds" and ok: "window_ok (ds ! k)" and m: "sd_mem (ds ! k) = Some block"
    and n: "off + length new \<le> unat (ck_size (sd_chunk (ds ! k)))"
    and w: "mem_write block (unat (ck_offset (sd_chunk (ds ! k))) + off) new = Some block'"
  shows "concat (map chunk_window (ds[k := (ds ! k)\<lparr>sd_mem := Some block'\<rparr>])) =
    take (flat_pos ds k off) (concat (map chunk_window ds)) @ new @
    drop (flat_pos ds k off + length new) (concat (map chunk_window ds))"
proof -
  let ?d = "(ds ! k)\<lparr>sd_mem := Some block'\<rparr>"
  have l: "length (chunk_window (ds ! k)) = unat (ck_size (sd_chunk (ds ! k)))" using ok by (rule window_okE)
  have "concat (map chunk_window (ds[k := ?d])) = concat (map chunk_window (take k ds)) @ chunk_window ?d @
      concat (map chunk_window (drop (Suc k) ds))"
    using flat_split [of k "ds[k := ?d]"] k by simp
  also have "\<dots> = concat (map chunk_window (take k ds)) @ (take off (chunk_window (ds ! k)) @ new @
      drop (off + length new) (chunk_window (ds ! k))) @ concat (map chunk_window (drop (Suc k) ds))"
    by (simp only: window_write [OF ok m n w])
  finally show ?thesis using n l unfolding flat_split [OF k] flat_pos_def by simp
qed

lemma flat_pos_update:
  assumes "k < length ds" and "length (chunk_window d) = length (chunk_window (ds ! k))"
  shows "flat_pos (ds[k := d]) j off = flat_pos ds j off"
proof -
  have "map (length \<circ> chunk_window) (ds[k := d]) = map (length \<circ> chunk_window) ds"
    using assms by (intro nth_equalityI) (auto simp: nth_list_update)
  then have "map (length \<circ> chunk_window) (take j (ds[k := d])) = map (length \<circ> chunk_window) (take j ds)"
    by (metis take_map)
  then show ?thesis by (simp add: flat_pos_def length_concat)
qed

lemma window_read:
  assumes k: "k < length (sb_datas (mem a))" and ok: "window_ok (sb_datas (mem a) ! k)"
    and n: "off + n \<le> unat (ck_size (sd_chunk (sb_datas (mem a) ! k)))"
  shows "data_read mem (a, k, unat (ck_offset (sd_chunk (sb_datas (mem a) ! k))) + off) n =
    Some (take n (drop (flat_pos (sb_datas (mem a)) k off) (valid_bytes (mem a))))"
proof -
  obtain block where m: "sd_mem (sb_datas (mem a) ! k) = Some block"
    and b: "unat (ck_offset (sd_chunk (sb_datas (mem a) ! k))) + unat (ck_size (sd_chunk (sb_datas (mem a) ! k))) \<le> length block"
    and l: "length (chunk_window (sb_datas (mem a) ! k)) = unat (ck_size (sd_chunk (sb_datas (mem a) ! k)))"
    and w: "chunk_window (sb_datas (mem a) ! k) = take (unat (ck_size (sd_chunk (sb_datas (mem a) ! k))))
      (drop (unat (ck_offset (sd_chunk (sb_datas (mem a) ! k)))) block)"
    using ok by (rule window_okE)
  have "take n (drop off (chunk_window (sb_datas (mem a) ! k))) =
      take n (drop (unat (ck_offset (sd_chunk (sb_datas (mem a) ! k))) + off) block)"
    unfolding w using n by (simp add: drop_take min_def add.commute)
  then show ?thesis
    using k m b n flat_read [of k "sb_datas (mem a)" off n] l
    by (simp add: data_block_def mem_read_def valid_bytes_def)
qed

text \<open>One round of the loop on the valid bytes.\<close>

lemma volume_round_bytes:
  assumes ne: "sbuf \<noteq> dbuf" and s: "si < length (sb_datas (mem sbuf))" and d: "di < length (sb_datas (mem dbuf))"
    and oks: "windows_ok (mem sbuf)" and okd: "windows_ok (mem dbuf)"
    and sn: "soff + n \<le> unat (ck_size (sd_chunk (sb_datas (mem sbuf) ! si)))"
    and dn: "doff + n \<le> unat (ck_size (sd_chunk (sb_datas (mem dbuf) ! di)))" and ev: "even n"
    and p: "p = flat_pos (sb_datas (mem sbuf)) si soff" and q: "q = flat_pos (sb_datas (mem dbuf)) di doff"
  obtains mem' where
    "combine_samples f (n div 2) (sbuf, si, unat (ck_offset (sd_chunk (sb_datas (mem sbuf) ! si))) + soff)
       (dbuf, di, unat (ck_offset (sd_chunk (sb_datas (mem dbuf) ! di))) + doff) mem = Some mem'"
    and "\<forall>a. a \<noteq> sbuf \<longrightarrow> mem' a = mem a" and "windows_ok (mem' sbuf)"
    and "valid_bytes (mem' sbuf) = take p (valid_bytes (mem sbuf)) @
      combine_bytes f (take n (drop p (valid_bytes (mem sbuf)))) (take n (drop q (valid_bytes (mem dbuf)))) @
      drop (p + n) (valid_bytes (mem sbuf))"
    and "\<And>j off. flat_pos (sb_datas (mem' sbuf)) j off = flat_pos (sb_datas (mem sbuf)) j off"
    and "sb_id (mem' sbuf) = sb_id (mem sbuf)"
proof -
  let ?ds = "sb_datas (mem sbuf)" and ?d = "sb_datas (mem sbuf) ! si"
  have wok: "window_ok ?d" "window_ok (sb_datas (mem dbuf) ! di)"
    using oks okd s d by (simp_all add: windows_ok_def list_all_length)
  obtain block where m: "sd_mem ?d = Some block" and b: "unat (ck_offset (sd_chunk ?d)) + unat (ck_size (sd_chunk ?d)) \<le> length block"
    and l: "length (chunk_window ?d) = unat (ck_size (sd_chunk ?d))"
    using wok(1) by (rule window_okE)
  let ?old = "take n (drop p (valid_bytes (mem sbuf)))" and ?in = "take n (drop q (valid_bytes (mem dbuf)))"
  let ?new = "combine_bytes f ?old ?in"
  have two: "2 * (n div 2) = n" using ev by simp
  note rs = window_read [of si mem sbuf, OF s wok(1) sn, folded p] and rd = window_read [of di mem dbuf, OF d wok(2) dn, folded q]
  have ln: "length ?new = n" using data_read_length [OF rs] by simp
  obtain block' where w: "mem_write block (unat (ck_offset (sd_chunk ?d)) + soff) ?new = Some block'"
    using b sn ln by (simp add: mem_write_def)
  let ?m = "set_block mem sbuf si block'"
  have c: "combine_samples f (n div 2) (sbuf, si, unat (ck_offset (sd_chunk ?d)) + soff)
       (dbuf, di, unat (ck_offset (sd_chunk (sb_datas (mem dbuf) ! di))) + doff) mem = Some ?m"
    using combine_samples_eq [OF ne, of mem si _ "n div 2" _ di, unfolded two, OF rs rd] s m w by (simp add: data_block_def)
  have ds': "sb_datas (?m sbuf) = ?ds[si := ?d\<lparr>sd_mem := Some block'\<rparr>]" by (simp add: set_block_def)
  have lw: "length (chunk_window (?d\<lparr>sd_mem := Some block'\<rparr>)) = length (chunk_window ?d)"
    using window_write [OF wok(1) m _ w] sn ln l by simp
  have "window_ok (?d\<lparr>sd_mem := Some block'\<rparr>)"
    using wok(1) m mem_write_length [OF w] by (simp add: window_ok_def)
  then have "windows_ok (?m sbuf)" using oks s unfolding windows_ok_def ds' by (auto simp: list_all_length nth_list_update)
  moreover have "valid_bytes (?m sbuf) = take p (valid_bytes (mem sbuf)) @ ?new @ drop (p + n) (valid_bytes (mem sbuf))"
    using flat_write [OF s wok(1) m _ w] sn ln unfolding valid_bytes_def ds' p by simp
  moreover have "flat_pos (sb_datas (?m sbuf)) j off = flat_pos ?ds j off" for j off
    unfolding ds' by (rule flat_pos_update [OF s lw])
  moreover have "\<forall>a. a \<noteq> sbuf \<longrightarrow> ?m a = mem a" "sb_id (?m sbuf) = sb_id (mem sbuf)" by (simp_all add: set_block_def)
  ultimately show ?thesis using that c by blast
qed

text \<open>The offsets within the chunks stay inside them, and even.\<close>

definition offset_ok :: "spa_buffer \<Rightarrow> nat \<Rightarrow> u32 \<Rightarrow> bool" where
  "offset_ok b k off \<longleftrightarrow> k \<le> length (sb_datas b) \<and> even (unat off) \<and>
     (k < length (sb_datas b) \<longrightarrow> off \<le> ck_size (sd_chunk (sb_datas b ! k)))"

lemma offset_step:
  assumes off: "offset_ok b k off" and k: "k < length (sb_datas b)" and ok: "windows_ok b"
    and n: "unat off + unat n \<le> unat (ck_size (sd_chunk (sb_datas b ! k)))" and ev: "even (unat n)"
    and e: "e \<longleftrightarrow> off + n \<ge> ck_size (sd_chunk (sb_datas b ! k))"
  shows "offset_ok b (if e then k + 1 else k) (if e then 0 else off + n)"
    and "flat_pos (sb_datas b) (if e then k + 1 else k) (unat (if e then 0 else off + n)) = flat_pos (sb_datas b) k (unat off) + unat n"
proof -
  have add: "unat (off + n) = unat off + unat n"
    using n unsigned_less [of "ck_size (sd_chunk (sb_datas b ! k))", where ?'a = nat] by (subst unat_add_lem [THEN iffD1]) simp_all
  have w: "window_ok (sb_datas b ! k)" using ok k by (simp add: windows_ok_def list_all_length)
  have l: "length (chunk_window (sb_datas b ! k)) = unat (ck_size (sd_chunk (sb_datas b ! k)))" using w by (rule window_okE)
  show "offset_ok b (if e then k + 1 else k) (if e then 0 else off + n)"
    using off k ev e add by (auto simp: offset_ok_def)
  show "flat_pos (sb_datas b) (if e then k + 1 else k) (unat (if e then 0 else off + n)) = flat_pos (sb_datas b) k (unat off) + unat n"
  proof (cases e)
    case True
    then have "unat off + unat n = length (chunk_window (sb_datas b ! k))" using e n add l by (simp add: word_le_nat_alt)
    then show ?thesis using True flat_pos_next [OF k] by (simp add: flat_pos_def)
  qed (simp add: flat_pos_def add)
qed

lemma offset_ok_cong:
  assumes "map sd_chunk (sb_datas b') = map sd_chunk (sb_datas b)"
  shows "offset_ok b' k off = offset_ok b k off"
proof -
  have l: "length (sb_datas b') = length (sb_datas b)" using arg_cong [OF assms, of length] by simp
  have "sd_chunk (sb_datas b' ! k) = sd_chunk (sb_datas b ! k)" if "k < length (sb_datas b)"
    using arg_cong [OF assms, of "\<lambda>xs. xs ! k"] that l by simp
  then show ?thesis by (auto simp: offset_ok_def l)
qed

lemma flat_bound:
  assumes "k < length ds" and "window_ok (ds ! k)" and "off \<le> unat (ck_size (sd_chunk (ds ! k)))"
  shows "flat_pos ds k off \<le> length (concat (map chunk_window ds))"
proof -
  have "length (chunk_window (ds ! k)) = unat (ck_size (sd_chunk (ds ! k)))" using assms(2) by (rule window_okE)
  then show ?thesis unfolding flat_split [OF assms(1)] flat_pos_def using assms(3) by simp
qed

lemma do_volume_from_bytes:
  assumes "sbuf \<noteq> dbuf" and "windows_ok (mem sbuf)" and "windows_ok (mem dbuf)"
    and "offset_ok (mem sbuf) si soff" and "offset_ok (mem dbuf) di doff"
    and "p = flat_pos (sb_datas (mem sbuf)) si (unat soff)" and "q = flat_pos (sb_datas (mem dbuf)) di (unat doff)"
  shows "\<exists>mem'. do_volume_from scale dbuf sbuf si di soff doff mem = Some mem' \<and> (\<forall>a. a \<noteq> sbuf \<longrightarrow> mem' a = mem a) \<and>
    sb_id (mem' sbuf) = sb_id (mem sbuf) \<and>
    valid_bytes (mem' sbuf) = take p (valid_bytes (mem sbuf)) @
      combine_bytes (\<lambda>_ x. scale x) (drop p (valid_bytes (mem sbuf))) (drop q (valid_bytes (mem dbuf)))"
  using assms
proof (induction scale dbuf sbuf si di soff doff mem arbitrary: p q rule: do_volume_from.induct)
  case (1 scale dbuf sbuf si di soff doff mem)
  let ?f = "\<lambda>_ x. scale x" and ?A = "valid_bytes (mem sbuf)" and ?B = "valid_bytes (mem dbuf)"
  have le: "si \<le> length (sb_datas (mem sbuf))" "di \<le> length (sb_datas (mem dbuf))" using 1(5,6) by (simp_all add: offset_ok_def)
  show ?case
  proof (cases "si = length (sb_datas (mem sbuf)) \<or> di = length (sb_datas (mem dbuf))")
    case True
    then have "drop p ?A = [] \<or> drop q ?B = []" using 1(7,8) by (auto simp: flat_pos_def valid_bytes_def)
    then have "take p ?A @ combine_bytes ?f (drop p ?A) (drop q ?B) = ?A"
      by (metis append_take_drop_id combine_bytes.simps(2) combine_bytes_Nil)
    then show ?thesis using True by simp
  next
    case False
    then have s: "si < length (sb_datas (mem sbuf))" and d: "di < length (sb_datas (mem dbuf))" using le by auto
    let ?sc = "sd_chunk (sb_datas (mem sbuf) ! si)" and ?dc = "sd_chunk (sb_datas (mem dbuf) ! di)"
    define n where "n = min (ck_size ?sc - soff) (ck_size ?dc - doff)"
    define es ed where "es = (soff + n \<ge> ck_size ?sc)" and "ed = (doff + n \<ge> ck_size ?dc)"
    have le_s: "soff \<le> ck_size ?sc" "even (unat soff)" and le_d: "doff \<le> ck_size ?dc" "even (unat doff)"
      using 1(5,6) s d by (simp_all add: offset_ok_def)
    have "even (unat (ck_size ?sc))" "even (unat (ck_size ?dc))"
      using 1(3,4) s d unfolding windows_ok_def list_all_length by (meson window_okE)+
    then have "even (unat (ck_size ?sc - soff))" "even (unat (ck_size ?dc - doff))"
      using le_s le_d by (simp_all add: unat_sub word_le_nat_alt)
    then have ev: "even (unat n)" by (simp add: n_def min_def)
    have "n \<le> ck_size ?sc - soff" "n \<le> ck_size ?dc - doff" by (simp_all add: n_def)
    then have sn: "unat soff + unat n \<le> unat (ck_size ?sc)" and dn: "unat doff + unat n \<le> unat (ck_size ?dc)"
      using le_s(1) le_d(1) by (simp_all add: word_le_nat_alt unat_sub)
    obtain mem1 where c: "combine_samples ?f (unat n div 2) (sbuf, si, unat (ck_offset ?sc) + unat soff)
        (dbuf, di, unat (ck_offset ?dc) + unat doff) mem = Some mem1"
      and o1: "\<forall>a. a \<noteq> sbuf \<longrightarrow> mem1 a = mem a" and w1: "windows_ok (mem1 sbuf)"
      and v1: "valid_bytes (mem1 sbuf) = take p ?A @ combine_bytes ?f (take (unat n) (drop p ?A)) (take (unat n) (drop q ?B)) @ drop (p + unat n) ?A"
      and p1: "\<And>j off. flat_pos (sb_datas (mem1 sbuf)) j off = flat_pos (sb_datas (mem sbuf)) j off"
      and id1: "sb_id (mem1 sbuf) = sb_id (mem sbuf)"
      using volume_round_bytes [OF 1(2) s d 1(3,4) sn dn ev 1(7,8), where f = ?f] by blast
    have wok: "window_ok (sb_datas (mem sbuf) ! si)" "window_ok (sb_datas (mem dbuf) ! di)"
      using 1(3,4) s d by (simp_all add: windows_ok_def list_all_length)
    have len: "length (take (unat n) (drop p ?A)) = unat n" "length (take (unat n) (drop q ?B)) = unat n"
      using data_read_length [OF window_read [of si mem sbuf, OF s wok(1) sn]] data_read_length [OF window_read [of di mem dbuf, OF d wok(2) dn]] 1(7,8) by simp_all
    have pA: "p \<le> length ?A" using flat_bound [OF s wok(1)] le_s(1) 1(7) by (simp add: valid_bytes_def word_le_nat_alt)
    let ?new = "combine_bytes ?f (take (unat n) (drop p ?A)) (take (unat n) (drop q ?B))"
    have V: "take (p + unat n) (valid_bytes (mem1 sbuf)) = take p ?A @ ?new" "drop (p + unat n) (valid_bytes (mem1 sbuf)) = drop (p + unat n) ?A"
      unfolding v1 using pA len by simp_all
    have cut: "take m (drop i xs) @ drop (i + m) xs = drop i xs" for i m and xs :: "byte list"
      using append_take_drop_id [of m "drop i xs"] by (simp add: add.commute)
    have split: "combine_bytes ?f (drop p ?A) (drop q ?B) = ?new @ combine_bytes ?f (drop (p + unat n) ?A) (drop (q + unat n) ?B)"
      using combine_bytes_append [of "take (unat n) (drop p ?A)" "take (unat n) (drop q ?B)" ?f "drop (p + unat n) ?A" "drop (q + unat n) ?B"]
        len ev by (simp only: cut)
    have md: "mem1 dbuf = mem dbuf" using o1 1(2) by metis
    have oss: "offset_ok (mem1 sbuf) k off = offset_ok (mem sbuf) k off" for k off
      using combine_samples_shape [OF c, of sbuf] by (intro offset_ok_cong) simp
    let ?si = "if es then si + 1 else si" and ?di = "if ed then di + 1 else di"
      and ?so = "if es then 0 else soff + n" and ?do = "if ed then 0 else doff + n"
    have step: "do_volume_from scale dbuf sbuf si di soff doff mem = do_volume_from scale dbuf sbuf ?si ?di ?so ?do mem1"
      using False s d c unfolding es_def ed_def n_def by (subst do_volume_from.simps) (simp add: Let_def)
    have "\<exists>mem'. do_volume_from scale dbuf sbuf ?si ?di ?so ?do mem1 = Some mem' \<and> (\<forall>a. a \<noteq> sbuf \<longrightarrow> mem' a = mem1 a) \<and>
      sb_id (mem' sbuf) = sb_id (mem1 sbuf) \<and>
      valid_bytes (mem' sbuf) = take (p + unat n) (valid_bytes (mem1 sbuf)) @
        combine_bytes ?f (drop (p + unat n) (valid_bytes (mem1 sbuf))) (drop (q + unat n) (valid_bytes (mem1 dbuf)))"
      unfolding es_def ed_def
    proof (rule 1(1) [OF False _ refl refl n_def c refl refl 1(2) w1])
      show "\<not> (length (sb_datas (mem sbuf)) < si \<or> length (sb_datas (mem dbuf)) < di)" using s d by simp
      show "windows_ok (mem1 dbuf)" using 1(4) md by simp
      show "offset_ok (mem1 sbuf) (if ck_size ?sc \<le> soff + n then si + 1 else si) (if ck_size ?sc \<le> soff + n then 0 else soff + n)"
        unfolding oss by (rule offset_step(1) [OF 1(5) s 1(3) sn ev refl])
      show "offset_ok (mem1 dbuf) (if ck_size ?dc \<le> doff + n then di + 1 else di) (if ck_size ?dc \<le> doff + n then 0 else doff + n)"
        unfolding md by (rule offset_step(1) [OF 1(6) d 1(4) dn ev refl])
      show "p + unat n = flat_pos (sb_datas (mem1 sbuf)) (if ck_size ?sc \<le> soff + n then si + 1 else si) (unat (if ck_size ?sc \<le> soff + n then 0 else soff + n))"
        unfolding p1 using offset_step(2) [OF 1(5) s 1(3) sn ev refl] 1(7) by simp
      show "q + unat n = flat_pos (sb_datas (mem1 dbuf)) (if ck_size ?dc \<le> doff + n then di + 1 else di) (unat (if ck_size ?dc \<le> doff + n then 0 else doff + n))"
        unfolding md using offset_step(2) [OF 1(6) d 1(4) dn ev refl] 1(8) by simp
    qed
    then show ?thesis using o1 id1 unfolding step V split md by auto
  qed
qed

section \<open>The list of free buffers\<close>

lemma vol_find_free_first:
  assumes "is_list (vpt_empty port) 0 (Suc i # rest)"
  shows "vol_find_free_buffer port = Some (vb_outbuf (vpt_buffers port ! i),
      port\<lparr>vpt_buffers := (vpt_buffers port)[i := (vpt_buffers port ! i)\<lparr>vb_outstanding := True\<rparr>],
           vpt_empty := spa_list_remove (Suc i) (vpt_empty port)\<rparr>)"
    and "is_list (spa_list_remove (Suc i) (vpt_empty port)) 0 rest"
  using is_list_empty [OF assms] is_list_first [OF assms] spa_lists.rep_remove [of "vpt_empty port" 0 "[]" "Suc i" rest] assms
  by (simp_all add: vol_find_free_buffer_def Let_def)

lemma vol_use_buffers_links:
  assumes "vol_use_buffers_from t mem i addrs port = Some (True, port')"
    and "is_list (vpt_empty port) 0 [1..<i + 1]" and "length (vpt_buffers port) = VOL_MAX_BUFFERS"
  shows "is_list (vpt_empty port') 0 [1..<i + length addrs + 1] \<and> length (vpt_buffers port') = VOL_MAX_BUFFERS \<and>
    (\<forall>j < length addrs. vb_outbuf (vpt_buffers port' ! (i + j)) = addrs ! j \<and> vb_outstanding (vpt_buffers port' ! (i + j))) \<and>
    (\<forall>j < i. vpt_buffers port' ! j = vpt_buffers port ! j)"
  using assms
proof (induction addrs arbitrary: i port)
  case (Cons a addrs)
  obtain d ds where d: "sb_datas (mem a) = d # ds" and i: "i < VOL_MAX_BUFFERS"
    using Cons.prems(1) by (cases "sb_datas (mem a)") (auto split: if_splits)
  define b where "b = (vpt_buffers port ! i)\<lparr>vb_outbuf := a, vb_outstanding := True, vb_h := spa_buffer_find_meta (mem a) (vt_Header t),
    vb_ptr := Some a, vb_size := ucast (sd_maxsize d)\<rparr>"
  let ?port = "port\<lparr>vpt_buffers := (vpt_buffers port)[i := b],
    vpt_empty := spa_list_insert (l_prev (vpt_empty port) 0) (i + 1) (vpt_empty port)\<rparr>"
  have go: "vol_use_buffers_from t mem (i + 1) addrs ?port = Some (True, port')"
    using Cons.prems(1) d i by (auto simp: Let_def b_def split: if_splits)
  have "is_list (vpt_empty ?port) 0 ([1..<i + 1] @ [i + 1])"
    using spa_lists.rep_append [OF Cons.prems(2), of "i + 1"] by simp
  then have l: "is_list (vpt_empty ?port) 0 [1..<i + 1 + 1]" by simp
  have ih: "is_list (vpt_empty port') 0 [1..<i + 1 + length addrs + 1] \<and> length (vpt_buffers port') = VOL_MAX_BUFFERS \<and>
      (\<forall>j < length addrs. vb_outbuf (vpt_buffers port' ! (i + 1 + j)) = addrs ! j \<and> vb_outstanding (vpt_buffers port' ! (i + 1 + j))) \<and>
      (\<forall>j < i + 1. vpt_buffers port' ! j = vpt_buffers ?port ! j)"
    by (rule Cons.IH [OF go l]) (use Cons.prems(3) in simp)
  have bi: "vpt_buffers port' ! i = b" and old: "\<forall>j < i. vpt_buffers port' ! j = vpt_buffers port ! j"
    using ih i Cons.prems(3) by simp_all
  have "vb_outbuf (vpt_buffers port' ! (i + j)) = (a # addrs) ! j \<and> vb_outstanding (vpt_buffers port' ! (i + j))"
    if "j < length (a # addrs)" for j
  proof (cases j)
    case 0
    then show ?thesis using bi by (simp add: b_def)
  next
    case (Suc k)
    then show ?thesis using ih that by simp
  qed
  then show ?case using ih old by simp
qed simp

text \<open>Linking a node a second time: the head still points at it, before and after it is removed.\<close>

lemma insert_twice:
  assumes "is_list h 0 (1 # xs @ [y])"
  defines "h' \<equiv> spa_list_insert (l_prev h 0) 1 h"
  shows "l_next h' 0 = 1" and "l_next h' 1 = 0" and "l_prev h' 1 = y" and "y \<noteq> 0" and "y \<noteq> 1"
proof -
  have y: "l_prev h 0 = y" "y \<noteq> 0" "y \<noteq> 1" using is_list_prev [OF assms(1)] assms(1) by (auto simp: is_list_def)
  have n: "l_next h 0 = 1" using assms(1) by (simp add: is_list_def)
  have "linked h 1 (xs @ [y]) 0" using assms(1) by (simp add: is_list_def)
  then have "l_next h y = 0" by (simp add: linked_append)
  then show "l_next h' 0 = 1" and "l_next h' 1 = 0" and "l_prev h' 1 = y" and "y \<noteq> 0" and "y \<noteq> 1"
    using y n by (simp_all add: h'_def spa_list_insert_def Let_def)
qed

text \<open>Taking free buffers one after the other.\<close>

fun vol_take :: "nat \<Rightarrow> vol_port \<Rightarrow> nat list" where
  "vol_take 0 port = []"
| "vol_take (Suc k) port =
     (case vol_find_free_buffer port of None \<Rightarrow> [] | Some (b, port') \<Rightarrow> b # vol_take k port')"

lemma vol_take_stuck:
  assumes "l_next (vpt_empty port) 0 = 1" and "l_next (vpt_empty port) 1 = 0" and "l_prev (vpt_empty port) 1 = y"
    and "y \<noteq> 0" and "y \<noteq> 1" and "vb_outbuf (vpt_buffers port ! 0) = a" and "vpt_buffers port \<noteq> []"
  shows "vol_take k port = replicate k a"
  using assms
proof (induction k arbitrary: port)
  case (Suc k)
  let ?port = "port\<lparr>vpt_buffers := (vpt_buffers port)[0 := (vpt_buffers port ! 0)\<lparr>vb_outstanding := True\<rparr>],
    vpt_empty := spa_list_remove 1 (vpt_empty port)\<rparr>"
  have f: "vol_find_free_buffer port = Some (a, ?port)"
    using Suc.prems by (simp add: vol_find_free_buffer_def spa_list_is_empty_def spa_list_first_def Let_def)
  have "vol_take k ?port = replicate k a"
    by (rule Suc.IH) (use Suc.prems in \<open>simp_all add: spa_list_remove_def Let_def nth_list_update\<close>)
  then show ?case using f by simp
qed simp

lemma do_volume_bytes:
  assumes "sbuf \<noteq> dbuf" and "windows_ok (mem sbuf)" and "windows_ok (mem dbuf)"
  shows "\<exists>mem'. do_volume scale dbuf sbuf mem = Some mem' \<and> (\<forall>a. a \<noteq> sbuf \<longrightarrow> mem' a = mem a) \<and>
    sb_id (mem' sbuf) = sb_id (mem sbuf) \<and>
    valid_bytes (mem' sbuf) = combine_bytes (\<lambda>_ x. scale x) (valid_bytes (mem sbuf)) (valid_bytes (mem dbuf))"
  using do_volume_from_bytes [OF assms, of 0 0 0 0 0 0 scale] by (simp add: do_volume_def offset_ok_def flat_pos_def)

section \<open>Properties\<close>

text \<open>C12. The loop of \<^verbatim>\<open>do_volume\<close>, with its two running blocks and offsets, ends and does the same as scaling
  sample by sample over the valid bytes of the two buffers taken as one string each, whatever way they are cut into
  data blocks: as far as both reach, the samples of the written buffer become the scaled samples of the read one,
  the rest of its valid bytes stay, and so does every other buffer.\<close>

theorem do_volume_equivalent:
  assumes "sbuf \<noteq> dbuf" and "windows_ok (mem sbuf)" and "windows_ok (mem dbuf)"
  shows "\<exists>mem'. do_volume scale dbuf sbuf mem = Some mem' \<and> (\<forall>a. a \<noteq> sbuf \<longrightarrow> mem' a = mem a) \<and>
    sb_id (mem' sbuf) = sb_id (mem sbuf) \<and>
    valid_bytes (mem' sbuf) = combine_bytes (\<lambda>_ x. scale x) (valid_bytes (mem sbuf)) (valid_bytes (mem dbuf))"
  by (rule do_volume_bytes [OF assms])

text \<open>Two buffers for the examples: samples 1, 2, 3 in two blocks, and room for two samples.\<close>

definition ex_block :: "byte list \<Rightarrow> u32 \<Rightarrow> u32 \<Rightarrow> spa_data" where
  "ex_block bs off n = \<lparr>sd_type = 17, sd_maxsize = of_nat (length bs), sd_mem = Some bs,
     sd_chunk = \<lparr>ck_offset = off, ck_size = n, ck_stride = 0\<rparr>\<rparr>"

definition ex_vol_memory :: buffer_store where
  "ex_vol_memory a =
     (if a = 1 then \<lparr>sb_id = 0, sb_metas = [], sb_datas = [ex_block [9, 9, 1, 0, 2, 0] 2 4, ex_block [3, 0] 0 2]\<rparr>
      else \<lparr>sb_id = of_nat a, sb_metas = [], sb_datas = [ex_block [7, 7, 7, 7] 0 4]\<rparr>)"

lemma ex_windows: "windows_ok (ex_vol_memory a)" "valid_bytes (ex_vol_memory 1) = [1, 0, 2, 0, 3, 0]"
  "a \<noteq> 1 \<Longrightarrow> valid_bytes (ex_vol_memory a) = [7, 7, 7, 7]"
  by (simp_all add: ex_vol_memory_def ex_block_def windows_ok_def window_ok_def valid_bytes_def chunk_window_def)

lemma do_volume_equivalent_witness:
  "\<exists>mem'. do_volume (\<lambda>x. 2 * x) 1 2 ex_vol_memory = Some mem' \<and> valid_bytes (mem' 2) = [2, 0, 4, 0]"
proof -
  have "combine_bytes (\<lambda>_ x. 2 * x) [7, 7, 7, 7] [1, 0, 2, 0, 3, 0] = [2, 0, 4, 0]"
    by (simp add: rd16_def le16_def)
  then show ?thesis
    using do_volume_equivalent [of 2 1 ex_vol_memory "\<lambda>x. 2 * x"] ex_windows by auto
qed

text \<open>C32. Given an input buffer and no output buffer, \<^verbatim>\<open>process_input\<close> takes the first free output buffer,
  scales the samples of the input buffer into it, passes it on, consumes the input and gives the input buffer back to
  its owner.\<close>

theorem volume_process_input:
  assumes io: "vpt_io (v_in s) = Some input" "vpt_io (v_out s) = Some output" and fmt: "vpt_have_format (v_in s)"
    and i: "io_buffer_id input < vpt_n_buffers (v_in s)" and o: "\<not> io_buffer_id output < vpt_n_buffers (v_out s)"
    and free: "is_list (vpt_empty (v_out s)) 0 (Suc j # rest)" and cb: "v_reuse_buffer s"
    and src: "src = vb_outbuf (vpt_buffers (v_in s) ! unat (io_buffer_id input))"
    and dst: "dst = vb_outbuf (vpt_buffers (v_out s) ! j)" and ne: "dst \<noteq> src"
    and ok: "windows_ok (v_mem s src)" "windows_ok (v_mem s dst)"
  shows "\<exists>s'. spa_volume_node_process_input scale s = Some (SPA_RESULT_HAVE_BUFFER, [sb_id (v_mem s src)], s') \<and>
    valid_bytes (v_mem s' dst) =
      combine_bytes (\<lambda>_ x. scale (vp_volume (v_props s)) x) (valid_bytes (v_mem s dst)) (valid_bytes (v_mem s src)) \<and>
    vpt_io (v_in s') = Some (input\<lparr>io_buffer_id := SPA_ID_INVALID, io_status := SPA_RESULT_OK\<rparr>) \<and>
    vpt_io (v_out s') = Some (output\<lparr>io_buffer_id := sb_id (v_mem s dst), io_status := SPA_RESULT_OK\<rparr>) \<and>
    is_list (vpt_empty (v_out s')) 0 rest"
proof -
  obtain mem' where m: "do_volume (scale (vp_volume (v_props s))) src dst (v_mem s) = Some mem'"
    and same: "\<forall>a. a \<noteq> dst \<longrightarrow> mem' a = v_mem s a" and id: "sb_id (mem' dst) = sb_id (v_mem s dst)"
    and v: "valid_bytes (mem' dst) = combine_bytes (\<lambda>_ x. scale (vp_volume (v_props s)) x) (valid_bytes (v_mem s dst)) (valid_bytes (v_mem s src))"
    using do_volume_bytes [OF ne ok(2,1), of "scale (vp_volume (v_props s))"] by blast
  have src': "mem' src = v_mem s src" using same ne by metis
  have "\<not> vpt_n_buffers (v_in s) \<le> io_buffer_id input" "vpt_n_buffers (v_out s) \<le> io_buffer_id output" using i o by simp_all
  then show ?thesis
    using io fmt cb ne m v id src src' vol_find_free_first [OF free, folded dst]
    by (simp add: spa_volume_node_process_input_def Let_def)
qed

text \<open>An example of a node with one input buffer and two output buffers.\<close>

definition ex_vol :: vol where
  "ex_vol =
     (let t = \<lparr>vt_format = 1, vt_audio = 2, vt_raw = 3, vt_keys = \<lparr>ak_format = 4, ak_flags = 5, ak_layout = 6, ak_rate = 7,
                ak_channels = 8, ak_channel_mask = 9\<rparr>, vt_S16 = 10, vt_S32 = 11, vt_MemPtr = 17, vt_MemFd = 18, vt_DmaBuf = 19,
                vt_Header = 20, vt_Start = 21, vt_Pause = 22\<rparr>;
          io = \<lparr>io_status = SPA_RESULT_OK, io_buffer_id = SPA_ID_INVALID, io_min_size = 0, io_max_size = 0\<rparr>;
          s0 = volume_init t ex_vol_memory in
      s0\<lparr>v_reuse_buffer := True,
         v_in := (v_in s0)\<lparr>vpt_have_format := True, vpt_io := Some (io\<lparr>io_buffer_id := 0\<rparr>), vpt_n_buffers := 1,
           vpt_buffers := (vpt_buffers (v_in s0))[0 := (vpt_buffers (v_in s0) ! 0)\<lparr>vb_outbuf := 1\<rparr>]\<rparr>,
         v_out := (v_out s0)\<lparr>vpt_have_format := True, vpt_io := Some io\<rparr>\<rparr>)"

definition ex_vol_ready :: vol where
  "ex_vol_ready = snd (the (spa_volume_node_port_use_buffers Dir_output 0 [2, 3] ex_vol))"

lemma ex_vol_use:
  "spa_volume_node_port_use_buffers Dir_output 0 [2, 3] ex_vol = Some (SPA_RESULT_OK, ex_vol_ready)"
  "is_list (vpt_empty (v_out ex_vol)) 0 []" "length (vpt_buffers (v_out ex_vol)) = VOL_MAX_BUFFERS" "vpt_n_buffers (v_out ex_vol) = 0"
proof -
  have "\<exists>s'. spa_volume_node_port_use_buffers Dir_output 0 [2, 3] ex_vol = Some (SPA_RESULT_OK, s')"
    by (simp add: spa_volume_node_port_use_buffers_def ex_vol_def volume_init_def vol_port_of_def vol_clear_buffers_def vol_new_port_def
        VOL_MAX_BUFFERS_def ex_vol_memory_def ex_block_def Let_def)
  then show "spa_volume_node_port_use_buffers Dir_output 0 [2, 3] ex_vol = Some (SPA_RESULT_OK, ex_vol_ready)"
    by (auto simp: ex_vol_ready_def)
  show "is_list (vpt_empty (v_out ex_vol)) 0 []" "length (vpt_buffers (v_out ex_vol)) = VOL_MAX_BUFFERS" "vpt_n_buffers (v_out ex_vol) = 0"
    by (simp_all add: ex_vol_def Let_def volume_init_def vol_new_port_def is_list_init)
qed

lemma vol_use_buffers_io: "vol_use_buffers_from t mem i addrs port = Some (e, port') \<Longrightarrow> vpt_io port' = vpt_io port"
proof (induction addrs arbitrary: i port)
  case (Cons a addrs)
  from Cons.prems show ?case
    by (cases "sb_datas (mem a)") (auto simp: Let_def split: if_splits dest: Cons.IH)
qed simp

lemma use_output_buffers:
  assumes "spa_volume_node_port_use_buffers Dir_output 0 addrs s = Some (SPA_RESULT_OK, s')"
    and "is_list (vpt_empty (v_out s)) 0 []" and "length (vpt_buffers (v_out s)) = VOL_MAX_BUFFERS" and "vpt_n_buffers (v_out s) = 0"
  shows "is_list (vpt_empty (v_out s')) 0 [1..<length addrs + 1]" and "length (vpt_buffers (v_out s')) = VOL_MAX_BUFFERS"
    and "\<forall>j < length addrs. vb_outbuf (vpt_buffers (v_out s') ! j) = addrs ! j \<and> vb_outstanding (vpt_buffers (v_out s') ! j)"
    and "vpt_n_buffers (v_out s') = of_nat (length addrs)" and "v_in s' = v_in s" and "v_props s' = v_props s"
    and "v_mem s' = v_mem s" and "v_reuse_buffer s' = v_reuse_buffer s" and "vpt_io (v_out s') = vpt_io (v_out s)"
proof -
  obtain port where p: "vol_use_buffers_from (v_type s) (v_mem s) 0 addrs (v_out s) = Some (True, port)"
    and s': "s' = s\<lparr>v_out := port\<lparr>vpt_n_buffers := of_nat (length addrs)\<rparr>\<rparr>"
    using assms(1,4) by (auto simp: spa_volume_node_port_use_buffers_def vol_port_of_def vol_clear_buffers_def set_vol_port_def
        split: if_splits option.splits prod.splits bool.splits)
  have l: "is_list (vpt_empty port) 0 [1..<0 + length addrs + 1] \<and> length (vpt_buffers port) = VOL_MAX_BUFFERS \<and>
    (\<forall>j < length addrs. vb_outbuf (vpt_buffers port ! (0 + j)) = addrs ! j \<and> vb_outstanding (vpt_buffers port ! (0 + j))) \<and>
    (\<forall>j < 0. vpt_buffers port ! j = vpt_buffers (v_out s) ! j)"
    by (rule vol_use_buffers_links [OF p]) (use assms(2,3) in simp_all)
  have "vpt_io port = vpt_io (v_out s)" by (rule vol_use_buffers_io [OF p])
  then show "is_list (vpt_empty (v_out s')) 0 [1..<length addrs + 1]" "length (vpt_buffers (v_out s')) = VOL_MAX_BUFFERS"
    "\<forall>j < length addrs. vb_outbuf (vpt_buffers (v_out s') ! j) = addrs ! j \<and> vb_outstanding (vpt_buffers (v_out s') ! j)"
    "vpt_n_buffers (v_out s') = of_nat (length addrs)" "v_in s' = v_in s" "v_props s' = v_props s"
    "v_mem s' = v_mem s" "v_reuse_buffer s' = v_reuse_buffer s" "vpt_io (v_out s') = vpt_io (v_out s)"
    using l by (simp_all add: s')
qed

lemma volume_process_input_witness:
  "\<exists>s'. spa_volume_node_process_input (\<lambda>_ x. 2 * x) ex_vol_ready = Some (SPA_RESULT_HAVE_BUFFER, [0], s') \<and>
    valid_bytes (v_mem s' 2) = [2, 0, 4, 0]"
proof -
  note u = use_output_buffers [OF ex_vol_use]
  have bytes: "combine_bytes (\<lambda>_ x. 2 * x) [7, 7, 7, 7] [1, 0, 2, 0, 3, 0] = [2, 0, 4, 0]" by (simp add: rd16_def le16_def)
  let ?io = "\<lparr>io_status = SPA_RESULT_OK, io_buffer_id = SPA_ID_INVALID, io_min_size = 0, io_max_size = 0\<rparr>"
  have up: "[1..<length [2, 3 :: nat] + 1] = [1, 2]" by (simp add: upt_rec)
  have "\<exists>s'. spa_volume_node_process_input (\<lambda>_ x. 2 * x) ex_vol_ready = Some (SPA_RESULT_HAVE_BUFFER, [sb_id (v_mem ex_vol_ready 1)], s') \<and>
    valid_bytes (v_mem s' 2) =
      combine_bytes (\<lambda>_ x. 2 * x) (valid_bytes (v_mem ex_vol_ready 2)) (valid_bytes (v_mem ex_vol_ready 1)) \<and>
    vpt_io (v_in s') = Some ((?io\<lparr>io_buffer_id := 0\<rparr>)\<lparr>io_buffer_id := SPA_ID_INVALID, io_status := SPA_RESULT_OK\<rparr>) \<and>
    vpt_io (v_out s') = Some (?io\<lparr>io_buffer_id := sb_id (v_mem ex_vol_ready 2), io_status := SPA_RESULT_OK\<rparr>) \<and>
    is_list (vpt_empty (v_out s')) 0 [2]"
  proof (rule volume_process_input)
    show "is_list (vpt_empty (v_out ex_vol_ready)) 0 (Suc 0 # [2])" using u(1) unfolding up by simp
    show "2 = vb_outbuf (vpt_buffers (v_out ex_vol_ready) ! 0)" using u(3) by simp
    show "\<not> io_buffer_id ?io < vpt_n_buffers (v_out ex_vol_ready)" using u(4) by simp
    show "windows_ok (v_mem ex_vol_ready 1)" "windows_ok (v_mem ex_vol_ready 2)"
      by (simp_all add: u(7) ex_vol_def Let_def volume_init_def ex_windows)
  qed (simp_all add: u ex_vol_def Let_def volume_init_def vol_new_port_def VOL_MAX_BUFFERS_def)
  moreover have "v_mem ex_vol_ready = ex_vol_memory" by (simp add: u(7) ex_vol_def Let_def volume_init_def)
  moreover have "valid_bytes (ex_vol_memory 1) = [1, 0, 2, 0, 3, 0]" "valid_bytes (ex_vol_memory 2) = [7, 7, 7, 7]" "sb_id (ex_vol_memory 1) = 0"
    using ex_windows(2) ex_windows(3) [of 2] by (simp_all add: ex_vol_memory_def)
  ultimately show ?thesis by (metis bytes)
qed

text \<open>C33. New output buffers are marked as outstanding although they are in the list of free ones, so that giving
  back the first of two or more new buffers (id 0), before any was handed out, links it a second time: only this one is found
  from then on, again and again, and the others are lost.\<close>

theorem volume_reuse_before_handout:
  assumes use: "spa_volume_node_port_use_buffers Dir_output 0 (a # b # addrs) s = Some (SPA_RESULT_OK, s')"
    and fresh: "is_list (vpt_empty (v_out s)) 0 []" "length (vpt_buffers (v_out s)) = VOL_MAX_BUFFERS" "vpt_n_buffers (v_out s) = 0"
    and few: "length (a # b # addrs) < 2 ^ 32"
  shows "vol_take k (v_out (snd (spa_volume_node_port_reuse_buffer 0 0 s'))) = replicate k a"
proof -
  note u = use_output_buffers [OF use fresh]
  obtain xs y where l: "is_list (vpt_empty (v_out s')) 0 (1 # xs @ [y])"
  proof -
    have "[1..<length (a # b # addrs) + 1] = 1 # [2..<length addrs + 2] @ [length addrs + 2]"
      using upt_conv_Cons [of 1 "Suc (length addrs + 2)"] upt_Suc_append [of 2 "length addrs + 2"]
      by (simp add: numeral_2_eq_2 del: upt_Suc)
    then show ?thesis using that u(1) by metis
  qed
  have "unat (of_nat (length (a # b # addrs)) :: u32) = length (a # b # addrs)"
    using few by (simp only: unsigned_of_nat) (simp add: take_bit_nat_eq_self)
  then have n: "vpt_n_buffers (v_out s') \<noteq> 0" using u(4) by auto
  have out: "vb_outstanding (vpt_buffers (v_out s') ! 0)" "vb_outbuf (vpt_buffers (v_out s') ! 0) = a" using u(3) by simp_all
  have ne: "vpt_buffers (v_out s') \<noteq> []" using u(2) by (auto simp: VOL_MAX_BUFFERS_def)
  let ?port = "(v_out s')\<lparr>vpt_buffers := (vpt_buffers (v_out s'))[0 := (vpt_buffers (v_out s') ! 0)\<lparr>vb_outstanding := False\<rparr>],
    vpt_empty := spa_list_insert (l_prev (vpt_empty (v_out s')) 0) 1 (vpt_empty (v_out s'))\<rparr>"
  have "v_out (snd (spa_volume_node_port_reuse_buffer 0 0 s')) = ?port"
    using n out by (simp add: spa_volume_node_port_reuse_buffer_def Let_def word_gt_0)
  moreover have "vol_take k ?port = replicate k a"
    by (rule vol_take_stuck [where y = y]) (use insert_twice [OF l] out ne in \<open>simp_all add: nth_list_update\<close>)
  ultimately show ?thesis by simp
qed

lemma volume_reuse_before_handout_witness:
  "vol_take 3 (v_out (snd (spa_volume_node_port_reuse_buffer 0 0 ex_vol_ready))) = [2, 2, 2]"
proof -
  have "replicate 3 (2 :: nat) = [2, 2, 2]" by (simp add: numeral_eq_Suc)
  moreover have "vol_take 3 (v_out (snd (spa_volume_node_port_reuse_buffer 0 0 ex_vol_ready))) = replicate 3 2"
    by (rule volume_reuse_before_handout [OF ex_vol_use]) simp
  ultimately show ?thesis by simp
qed

end
