(* ===== verification/Spa_Audiomixer.thy ===== *)
theory Spa_Audiomixer
  imports Spa_Samples
begin

text \<open>
  The audio mixer, \<^verbatim>\<open>spa/plugins/audiomixer/audiomixer.c\<close>: up to 128 input ports whose queued buffers are
  added, sample by sample and with saturation, into the buffers of one output port. A queue is the list of the positions
  of its buffers in the array of the port; it is \<open>None\<close> while it has not been initialised. Accesses outside a
  block, an array or a list, and linking a buffer that is already in a queue, are \<open>None\<close>.
\<close>

section \<open>State\<close>

record mix_types =
  mt_format :: u32
  mt_audio :: u32
  mt_raw :: u32
  mt_keys :: audio_keys
  mt_S16 :: u32
  mt_MemPtr :: u32
  mt_MemFd :: u32
  mt_DmaBuf :: u32
  mt_Header :: u32
  mt_Start :: u32
  mt_Pause :: u32

record mixer_buffer =
  mb_outbuf :: nat
  mb_outstanding :: bool
  mb_h :: "nat option"

record mixer_port =
  mp_io :: "spa_port_io option"
  mp_have_format :: bool
  mp_buffers :: "mixer_buffer list"
  mp_n_buffers :: u32
  mp_queue :: "nat list option"
  mp_queued_offset :: u64
  mp_queued_bytes :: u64

record mixer =
  mx_type :: mix_types
  mx_port_count :: u32
  mx_port_queued :: u32
  mx_in :: "mixer_port list"
  mx_out :: mixer_port
  mx_format :: audio_raw
  mx_started :: bool
  mx_mem :: buffer_store

definition MIX_MAX_BUFFERS :: nat where "MIX_MAX_BUFFERS = 64"
definition MAX_PORTS :: nat where "MAX_PORTS = 128"

definition mix_new_port :: mixer_port where
  "mix_new_port = \<lparr>mp_io = None, mp_have_format = False,
     mp_buffers = replicate MIX_MAX_BUFFERS \<lparr>mb_outbuf = 0, mb_outstanding = False, mb_h = None\<rparr>,
     mp_n_buffers = 0, mp_queue = None, mp_queued_offset = 0, mp_queued_bytes = 0\<rparr>"

definition spa_audiomixer_init :: "mix_types \<Rightarrow> buffer_store \<Rightarrow> mixer" where
  "spa_audiomixer_init t mem =
     \<lparr>mx_type = t, mx_port_count = 0, mx_port_queued = 0, mx_in = replicate MAX_PORTS mix_new_port,
      mx_out = mix_new_port\<lparr>mp_queue := Some []\<rparr>, mx_format = zero_audio_raw, mx_started = False, mx_mem = mem\<rparr>"

definition mix_check_port_num :: "spa_direction \<Rightarrow> u32 \<Rightarrow> bool" where
  "mix_check_port_num d p \<longleftrightarrow> (case d of Dir_input \<Rightarrow> unat p < MAX_PORTS | Dir_output \<Rightarrow> p = 0)"

definition mix_check_in_port :: "spa_direction \<Rightarrow> u32 \<Rightarrow> mixer \<Rightarrow> bool" where
  "mix_check_in_port d p s \<longleftrightarrow> d = Dir_input \<and> unat p < MAX_PORTS \<and> mp_io (mx_in s ! unat p) \<noteq> None"

definition mix_check_port :: "spa_direction \<Rightarrow> u32 \<Rightarrow> mixer \<Rightarrow> bool" where
  "mix_check_port d p s \<longleftrightarrow> d = Dir_output \<and> p = 0 \<or> mix_check_in_port d p s"

definition mix_port_of :: "spa_direction \<Rightarrow> u32 \<Rightarrow> mixer \<Rightarrow> mixer_port" where
  "mix_port_of d p s = (case d of Dir_input \<Rightarrow> mx_in s ! unat p | Dir_output \<Rightarrow> mx_out s)"

definition set_mix_port :: "spa_direction \<Rightarrow> u32 \<Rightarrow> mixer_port \<Rightarrow> mixer \<Rightarrow> mixer" where
  "set_mix_port d p port s =
     (case d of Dir_input \<Rightarrow> s\<lparr>mx_in := (mx_in s)[unat p := port]\<rparr> | Dir_output \<Rightarrow> s\<lparr>mx_out := port\<rparr>)"

section \<open>Ports\<close>

definition spa_audiomixer_node_send_command :: "u32 \<Rightarrow> mixer \<Rightarrow> spa_result \<times> mixer" where
  "spa_audiomixer_node_send_command cmd s =
     (if cmd = mt_Start (mx_type s) then (SPA_RESULT_OK, s\<lparr>mx_started := True\<rparr>)
      else if cmd = mt_Pause (mx_type s) then (SPA_RESULT_OK, s\<lparr>mx_started := False\<rparr>)
      else (SPA_RESULT_NOT_IMPLEMENTED, s))"

text \<open>The ids of at most \<open>n\<close> ports in use.\<close>

definition spa_audiomixer_node_get_port_ids :: "nat \<Rightarrow> mixer \<Rightarrow> nat list" where
  "spa_audiomixer_node_get_port_ids n s = take n (filter (\<lambda>i. mp_io (mx_in s ! i) \<noteq> None) [0..<MAX_PORTS])"

definition spa_audiomixer_node_add_port :: "spa_direction \<Rightarrow> u32 \<Rightarrow> mixer \<Rightarrow> spa_result \<times> mixer" where
  "spa_audiomixer_node_add_port d p s =
     (if \<not> (d = Dir_input \<and> unat p < MAX_PORTS \<and> mp_io (mx_in s ! unat p) = None) then (SPA_RESULT_INVALID_PORT, s)
      else (SPA_RESULT_OK, s\<lparr>mx_port_count := mx_port_count s + 1,
              mx_in := (mx_in s)[unat p := (mx_in s ! unat p)\<lparr>mp_queue := Some []\<rparr>]\<rparr>))"

definition spa_audiomixer_node_remove_port :: "spa_direction \<Rightarrow> u32 \<Rightarrow> mixer \<Rightarrow> spa_result \<times> mixer" where
  "spa_audiomixer_node_remove_port d p s =
     (if \<not> mix_check_in_port d p s then (SPA_RESULT_INVALID_PORT, s)
      else case mp_io (mx_in s ! unat p) of
             None \<Rightarrow> (SPA_RESULT_INVALID_PORT, s)
           | Some io \<Rightarrow>
               (SPA_RESULT_OK, s\<lparr>mx_port_queued := (if io_buffer_id io \<noteq> 0 then mx_port_queued s - 1 else mx_port_queued s),
                 mx_port_count := mx_port_count s - 1,
                 mx_in := (mx_in s)[unat p := (mx_in s ! unat p)\<lparr>mp_io := None\<rparr>]\<rparr>))"

definition mix_enum_format :: "mix_types \<Rightarrow> spa_format" where
  "mix_enum_format t =
     \<lparr>fmt_type = mt_format t, fmt_media_type = mt_audio t, fmt_media_subtype = mt_raw t,
      fmt_props = map Entry_prop
        [prop_plain (ak_format (mt_keys t)) SPA_POD_TYPE_ID (Pv_word (mt_S16 t)),
         prop_u_mm (ak_rate (mt_keys t)) SPA_POD_TYPE_INT (Pv_word 44100) (Pv_word 1) (Pv_word 0x7fffffff),
         prop_u_mm (ak_channels (mt_keys t)) SPA_POD_TYPE_INT (Pv_word 2) (Pv_word 1) (Pv_word 0x7fffffff)]\<rparr>"

definition spa_audiomixer_node_port_enum_formats ::
  "(u64 \<Rightarrow> u64 \<Rightarrow> int) \<Rightarrow> spa_direction \<Rightarrow> u32 \<Rightarrow> spa_format option \<Rightarrow> u32 \<Rightarrow> mixer \<Rightarrow> (spa_result \<times> spa_format option) option" where
  "spa_audiomixer_node_port_enum_formats fdiff d p flt index s =
     (if \<not> mix_check_port d p s then Some (SPA_RESULT_INVALID_PORT, None)
      else enum_one_format fdiff (mix_enum_format (mx_type s)) flt index)"

definition mix_clear_buffers :: "mixer_port \<Rightarrow> mixer_port" where
  "mix_clear_buffers port =
     (if mp_n_buffers port > 0 then port\<lparr>mp_n_buffers := 0, mp_queue := Some []\<rparr> else port)"

definition spa_audiomixer_node_port_set_format :: "spa_direction \<Rightarrow> u32 \<Rightarrow> spa_format option \<Rightarrow> mixer \<Rightarrow> (spa_result \<times> mixer) option" where
  "spa_audiomixer_node_port_set_format d p fmt s =
     (if \<not> mix_check_port d p s then Some (SPA_RESULT_INVALID_PORT, s)
      else let port = mix_port_of d p s in
        case fmt of
          None \<Rightarrow> Some (SPA_RESULT_OK, set_mix_port d p (mix_clear_buffers (port\<lparr>mp_have_format := False\<rparr>)) s)
        | Some f \<Rightarrow>
            if fmt_media_type f \<noteq> mt_audio (mx_type s) \<or> fmt_media_subtype f \<noteq> mt_raw (mx_type s)
            then Some (SPA_RESULT_INVALID_MEDIA_TYPE, s)
            else case spa_format_audio_raw_parse (mt_keys (mx_type s)) (fmt_props f) zero_audio_raw of
                None \<Rightarrow> None
              | Some (ok, info) \<Rightarrow>
                if \<not> ok then Some (SPA_RESULT_INVALID_MEDIA_TYPE, s)
                else Some (SPA_RESULT_OK, set_mix_port d p (port\<lparr>mp_have_format := True\<rparr>) (s\<lparr>mx_format := info\<rparr>)))"

definition spa_audiomixer_node_port_get_format :: "spa_direction \<Rightarrow> u32 \<Rightarrow> mixer \<Rightarrow> spa_result \<times> spa_format option" where
  "spa_audiomixer_node_port_get_format d p s =
     (if \<not> mix_check_port d p s then (SPA_RESULT_INVALID_PORT, None)
      else if \<not> mp_have_format (mix_port_of d p s) then (SPA_RESULT_NO_FORMAT, None)
      else (SPA_RESULT_OK,
        Some \<lparr>fmt_type = mt_format (mx_type s), fmt_media_type = mt_audio (mx_type s), fmt_media_subtype = mt_raw (mx_type s),
          fmt_props = map Entry_prop
            [prop_plain (ak_format (mt_keys (mx_type s))) SPA_POD_TYPE_ID (Pv_word (ar_format (mx_format s))),
             prop_plain (ak_rate (mt_keys (mx_type s))) SPA_POD_TYPE_INT (Pv_word (ar_rate (mx_format s))),
             prop_plain (ak_channels (mt_keys (mx_type s))) SPA_POD_TYPE_INT (Pv_word (ar_channels (mx_format s)))]\<rparr>))"

definition mix_link :: "nat \<Rightarrow> mixer_port \<Rightarrow> mixer_port option" where
  "mix_link i port =
     (case mp_queue port of
        None \<Rightarrow> None
      | Some q \<Rightarrow> if i \<in> set q then None else Some (port\<lparr>mp_queue := Some (q @ [i])\<rparr>))"

text \<open>The loop over the new buffers; the flag tells that it ran to its end.\<close>

fun mix_use_buffers_from ::
  "mix_types \<Rightarrow> buffer_store \<Rightarrow> spa_direction \<Rightarrow> nat \<Rightarrow> nat list \<Rightarrow> mixer_port \<Rightarrow> (bool \<times> mixer_port) option" where
  "mix_use_buffers_from t mem d i [] port = Some (True, port)"
| "mix_use_buffers_from t mem d i (addr # addrs) port =
     (if MIX_MAX_BUFFERS \<le> i then None
      else case sb_datas (mem addr) of
        [] \<Rightarrow> None
      | dt # _ \<Rightarrow>
          let b = \<lparr>mb_outbuf = addr, mb_outstanding = (d = Dir_input), mb_h = spa_buffer_find_meta (mem addr) (mt_Header t)\<rparr>;
              port1 = port\<lparr>mp_buffers := (mp_buffers port)[i := b]\<rparr> in
          if \<not> (sd_type dt \<in> {mt_MemPtr t, mt_MemFd t, mt_DmaBuf t} \<and> sd_mem dt \<noteq> None) then Some (False, port1)
          else case (if \<not> mb_outstanding b then mix_link i port1 else Some port1) of
                 None \<Rightarrow> None
               | Some port2 \<Rightarrow> mix_use_buffers_from t mem d (i + 1) addrs port2)"

definition spa_audiomixer_node_port_use_buffers ::
  "spa_direction \<Rightarrow> u32 \<Rightarrow> nat list \<Rightarrow> mixer \<Rightarrow> (spa_result \<times> mixer) option" where
  "spa_audiomixer_node_port_use_buffers d p addrs s =
     (if \<not> mix_check_port d p s then Some (SPA_RESULT_INVALID_PORT, s)
      else if \<not> mp_have_format (mix_port_of d p s) then Some (SPA_RESULT_NO_FORMAT, s)
      else case mix_use_buffers_from (mx_type s) (mx_mem s) d 0 addrs (mix_clear_buffers (mix_port_of d p s)) of
             None \<Rightarrow> None
           | Some (False, port) \<Rightarrow> Some (SPA_RESULT_ERROR, set_mix_port d p port s)
           | Some (True, port) \<Rightarrow> Some (SPA_RESULT_OK, set_mix_port d p (port\<lparr>mp_n_buffers := of_nat (length addrs)\<rparr>) s))"

definition spa_audiomixer_node_port_set_io :: "spa_direction \<Rightarrow> u32 \<Rightarrow> spa_port_io option \<Rightarrow> mixer \<Rightarrow> spa_result \<times> mixer" where
  "spa_audiomixer_node_port_set_io d p io s =
     (if \<not> mix_check_port_num d p then (SPA_RESULT_INVALID_PORT, s)
      else (SPA_RESULT_OK, set_mix_port d p ((mix_port_of d p s)\<lparr>mp_io := io\<rparr>) s))"

definition recycle_buffer :: "u32 \<Rightarrow> mixer \<Rightarrow> mixer option" where
  "recycle_buffer i s =
     (let port = mx_out s in
      if length (mp_buffers port) \<le> unat i then None
      else let b = mp_buffers port ! unat i in
        if \<not> mb_outstanding b then Some s
        else map_option (\<lambda>port'. s\<lparr>mx_out := port'\<lparr>mp_buffers := (mp_buffers port')[unat i := b\<lparr>mb_outstanding := False\<rparr>]\<rparr>\<rparr>)
               (mix_link (unat i) port))"

definition spa_audiomixer_node_port_reuse_buffer :: "u32 \<Rightarrow> u32 \<Rightarrow> mixer \<Rightarrow> (spa_result \<times> mixer) option" where
  "spa_audiomixer_node_port_reuse_buffer p i s =
     (if p \<noteq> 0 then Some (SPA_RESULT_INVALID_PORT, s)
      else map_option (Pair SPA_RESULT_NOT_IMPLEMENTED) (recycle_buffer i s))"

section \<open>Mixing\<close>

text \<open>\<^verbatim>\<open>SPA_CLAMP\<close> of the sum of two signed samples.\<close>

definition mix_sample :: "u16 \<Rightarrow> u16 \<Rightarrow> u16" where
  "mix_sample a b = word_of_int (max (- 32768) (min 32767 (sint a + sint b)))"

definition set_in :: "nat \<Rightarrow> mixer_port \<Rightarrow> mixer \<Rightarrow> mixer" where
  "set_in i port s = s\<lparr>mx_in := (mx_in s)[i := port]\<rparr>"

text \<open>Adding the first queued buffer of input \<open>i\<close> to the block of the output buffer \<open>out\<close>.\<close>

definition add_port_data :: "nat \<Rightarrow> u64 \<Rightarrow> nat \<Rightarrow> nat \<Rightarrow> mixer \<Rightarrow> mixer option" where
  "add_port_data out outsize0 i layer s =
     (let port = mx_in s ! i in
      case mp_queue port of
        Some (j # rest) \<Rightarrow>
          let b = mp_buffers port ! j; addr = mb_outbuf b in
          (case sb_datas (mx_mem s addr) of
             [] \<Rightarrow> None
           | d # _ \<Rightarrow>
               let pos = unat (mp_queued_offset port) + unat (ck_offset (sd_chunk d));
                   insize = ucast (ck_size (sd_chunk d)) - mp_queued_offset port;
                   outsize = min outsize0 insize;
                   mixed = (if layer = 0
                            then (case data_read (mx_mem s) (addr, 0, pos) (unat outsize) of
                                    None \<Rightarrow> None
                                  | Some bs \<Rightarrow> data_write (mx_mem s) (out, 0, 0) bs)
                            else combine_samples mix_sample (unat (outsize div 2)) (out, 0, 0) (addr, 0, pos) (mx_mem s)) in
               (case mixed of
                  None \<Rightarrow> None
                | Some mem \<Rightarrow>
                    let port1 = port\<lparr>mp_queued_offset := mp_queued_offset port + outsize,
                                    mp_queued_bytes := mp_queued_bytes port - outsize\<rparr>;
                        s1 = s\<lparr>mx_mem := mem\<rparr> in
                    if outsize = insize
                    then (case mp_io port1 of
                            None \<Rightarrow> None
                          | Some io \<Rightarrow>
                              Some (set_in i (port1\<lparr>mp_io := Some (io\<lparr>io_buffer_id := sb_id (mem addr)\<rparr>),
                                mp_queue := Some rest, mp_buffers := (mp_buffers port)[j := b\<lparr>mb_outstanding := True\<rparr>],
                                mp_queued_offset := 0\<rparr>) s1))
                    else Some (set_in i port1 s1)))
      | _ \<Rightarrow> None)"

text \<open>The loop over the ports, with the number of layers so far.\<close>

fun mix_layers :: "nat \<Rightarrow> u64 \<Rightarrow> nat list \<Rightarrow> nat \<Rightarrow> mixer \<Rightarrow> mixer option" where
  "mix_layers out n_bytes [] layer s = Some s"
| "mix_layers out n_bytes (i # ports) layer s =
     (let port = mx_in s ! i in
      if mp_io port = None \<or> mp_n_buffers port = 0 then mix_layers out n_bytes ports layer s
      else if mp_queue port = Some []
      then mix_layers out n_bytes ports layer (set_in i (port\<lparr>mp_queued_bytes := 0, mp_queued_offset := 0\<rparr>) s)
      else case add_port_data out n_bytes i layer s of
             None \<Rightarrow> None
           | Some s' \<Rightarrow> mix_layers out n_bytes ports (layer + 1) s')"

definition mix_output :: "u64 \<Rightarrow> mixer \<Rightarrow> (spa_result \<times> mixer) option" where
  "mix_output n_bytes0 s =
     (let outport = mx_out s in
      case (mp_queue outport, mp_io outport) of
        (Some [], Some _) \<Rightarrow> Some (SPA_RESULT_OUT_OF_BUFFERS, s)
      | (Some (j # rest), Some output) \<Rightarrow>
          let b = mp_buffers outport ! j; addr = mb_outbuf b;
              outport' = outport\<lparr>mp_queue := Some rest, mp_buffers := (mp_buffers outport)[j := b\<lparr>mb_outstanding := True\<rparr>]\<rparr> in
          (case sb_datas (mx_mem s addr) of
             [] \<Rightarrow> None
           | d # ds \<Rightarrow>
               let n_bytes = min n_bytes0 (ucast (sd_maxsize d));
                   d' = d\<lparr>sd_chunk := \<lparr>ck_offset = 0, ck_size = ucast n_bytes, ck_stride = 0\<rparr>\<rparr>;
                   s1 = s\<lparr>mx_out := outport', mx_mem := (mx_mem s)(addr := (mx_mem s addr)\<lparr>sb_datas := d' # ds\<rparr>)\<rparr> in
               (case mix_layers addr n_bytes [0..<MAX_PORTS] 0 s1 of
                  None \<Rightarrow> None
                | Some s2 \<Rightarrow>
                    Some (SPA_RESULT_HAVE_BUFFER, s2\<lparr>mx_out := (mx_out s2)\<lparr>mp_io :=
                      Some (output\<lparr>io_buffer_id := sb_id (mx_mem s2 addr), io_status := SPA_RESULT_HAVE_BUFFER\<rparr>)\<rparr>\<rparr>)))
      | _ \<Rightarrow> None)"

text \<open>Queueing what the inputs offer, with the smallest number of queued bytes seen so far.\<close>

fun mix_queue_inputs :: "nat list \<Rightarrow> mixer \<Rightarrow> u64 \<Rightarrow> (mixer \<times> u64) option" where
  "mix_queue_inputs [] s least = Some (s, least)"
| "mix_queue_inputs (i # ports) s least =
     (let port = mx_in s ! i in
      case mp_io port of
        None \<Rightarrow> mix_queue_inputs ports s least
      | Some input \<Rightarrow>
          if mp_n_buffers port = 0 then mix_queue_inputs ports s least
          else if mp_queued_bytes port = 0 \<and> io_status input = SPA_RESULT_HAVE_BUFFER \<and> io_buffer_id input \<noteq> SPA_ID_INVALID
          then
            if length (mp_buffers port) \<le> unat (io_buffer_id input) then None
            else let k = unat (io_buffer_id input); b = mp_buffers port ! k in
              if \<not> mb_outstanding b
              then mix_queue_inputs ports (set_in i (port\<lparr>mp_io := Some (input\<lparr>io_status := SPA_RESULT_INVALID_BUFFER_ID\<rparr>)\<rparr>) s) least
              else (case (mix_link k (port\<lparr>mp_buffers := (mp_buffers port)[k := b\<lparr>mb_outstanding := False\<rparr>],
                           mp_io := Some (input\<lparr>io_buffer_id := SPA_ID_INVALID, io_status := SPA_RESULT_OK\<rparr>)\<rparr>),
                         sb_datas (mx_mem s (mb_outbuf b))) of
                      (Some port1, d # _) \<Rightarrow>
                        let queued = mp_queued_bytes port1 + ucast (ck_size (sd_chunk d)) in
                        mix_queue_inputs ports (set_in i (port1\<lparr>mp_queued_bytes := queued\<rparr>) s)
                          (if queued > 0 \<and> queued < least then queued else least)
                    | _ \<Rightarrow> None)
          else mix_queue_inputs ports s (if mp_queued_bytes port > 0 \<and> mp_queued_bytes port < least then mp_queued_bytes port else least))"

definition set_output :: "spa_result \<Rightarrow> mixer \<Rightarrow> mixer" where
  "set_output res s = s\<lparr>mx_out := (mx_out s)\<lparr>mp_io := map_option (io_status_update (\<lambda>_. res)) (mp_io (mx_out s))\<rparr>\<rparr>"

definition spa_audiomixer_node_process_input :: "mixer \<Rightarrow> (spa_result \<times> mixer) option" where
  "spa_audiomixer_node_process_input s =
     (case mp_io (mx_out s) of
        None \<Rightarrow> Some (SPA_RESULT_ERROR, s)
      | Some output \<Rightarrow>
          if io_status output = SPA_RESULT_HAVE_BUFFER then Some (SPA_RESULT_HAVE_BUFFER, s)
          else case mix_queue_inputs [0..<MAX_PORTS] s (- 1) of
                 None \<Rightarrow> None
               | Some (s1, least) \<Rightarrow>
                   if least \<noteq> - 1 \<and> least > 0
                   then map_option (\<lambda>(res, s2). (res, set_output res s2)) (mix_output least s1)
                   else Some (SPA_RESULT_NEED_BUFFER, set_output SPA_RESULT_NEED_BUFFER s1))"

definition mix_least_queued :: "mixer \<Rightarrow> u64" where
  "mix_least_queued s =
     fold (\<lambda>port least. if mp_io port = None \<or> mp_n_buffers port = 0 then least
                        else if mp_queued_bytes port < least then mp_queued_bytes port else least) (mx_in s) (- 1)"

definition mix_request :: "spa_port_io \<Rightarrow> mixer_port \<Rightarrow> mixer_port" where
  "mix_request output port =
     (case mp_io port of
        None \<Rightarrow> port
      | Some input \<Rightarrow>
          if mp_n_buffers port = 0 then port
          else if mp_queued_bytes port = 0
          then port\<lparr>mp_io := Some (input\<lparr>io_min_size := io_min_size output, io_max_size := io_max_size output,
                 io_status := SPA_RESULT_NEED_BUFFER\<rparr>)\<rparr>
          else port\<lparr>mp_io := Some (input\<lparr>io_status := SPA_RESULT_OK\<rparr>)\<rparr>)"

definition spa_audiomixer_node_process_output :: "mixer \<Rightarrow> (spa_result \<times> mixer) option" where
  "spa_audiomixer_node_process_output s =
     (case mp_io (mx_out s) of
        None \<Rightarrow> Some (SPA_RESULT_ERROR, s)
      | Some output \<Rightarrow>
          if io_status output = SPA_RESULT_HAVE_BUFFER then Some (SPA_RESULT_HAVE_BUFFER, s)
          else case (if io_buffer_id output \<noteq> SPA_ID_INVALID
                     then map_option (\<lambda>s1. s1\<lparr>mx_out := (mx_out s1)\<lparr>mp_io := Some (output\<lparr>io_buffer_id := SPA_ID_INVALID\<rparr>)\<rparr>\<rparr>)
                            (recycle_buffer (io_buffer_id output) s)
                     else Some s) of
                 None \<Rightarrow> None
               | Some s1 \<Rightarrow>
                   let least = mix_least_queued s1 in
                   if least \<noteq> - 1 \<and> least > 0
                   then map_option (\<lambda>(res, s2). (res, set_output res s2)) (mix_output least s1)
                   else Some (io_status output, s1\<lparr>mx_in := map (mix_request output) (mx_in s1)\<rparr>))"

section \<open>The sum of the layers\<close>

lemma sint_mix_sample: "sint (mix_sample a b) = max (- 32768) (min 32767 (sint a + sint b))"
proof -
  have "signed_take_bit 15 (max (- 32768) (min 32767 (sint a + sint b))) = max (- 32768) (min 32767 (sint a + sint b) :: int)"
    by (rule signed_take_bit_int_eq_self) simp_all
  then show ?thesis by (simp add: mix_sample_def signed_of_int)
qed

text \<open>The bytes of the first layer, with those of the others added one after the other.\<close>

definition mix_bytes :: "byte list list \<Rightarrow> byte list" where
  "mix_bytes bss = (case bss of [] \<Rightarrow> [] | b # bs \<Rightarrow> foldl (combine_bytes mix_sample) b bs)"

fun mix_acc :: "nat \<Rightarrow> byte list \<Rightarrow> byte list list \<Rightarrow> byte list" where
  "mix_acc layer cur [] = cur"
| "mix_acc layer cur (b # bs) = mix_acc (layer + 1) (if layer = 0 then b else combine_bytes mix_sample cur b) bs"

lemma mix_acc_foldl: "0 < layer \<Longrightarrow> mix_acc layer cur bs = foldl (combine_bytes mix_sample) cur bs"
  by (induction bs arbitrary: layer cur) auto

lemma mix_acc_bytes: "bss \<noteq> [] \<Longrightarrow> mix_acc 0 cur bss = mix_bytes bss"
  by (cases bss) (simp_all add: mix_bytes_def mix_acc_foldl)

text \<open>The same in samples, without the code's arithmetic: the samples of the layers are added as integers, one layer after the
  other, and every sum is limited to the range of a sample.\<close>

fun samples_of :: "byte list \<Rightarrow> int list" where
  "samples_of (lo # hi # bs) = sint (rd16 lo hi) # samples_of bs"
| "samples_of bs = []"

definition limited :: "int \<Rightarrow> int" where
  "limited x = (if x > 32767 then 32767 else if x < - 32768 then - 32768 else x)"

definition mixed_samples :: "int list list \<Rightarrow> int list" where
  "mixed_samples xss = (case xss of [] \<Rightarrow> [] | xs # rest \<Rightarrow> foldl (map2 (\<lambda>x y. limited (x + y))) xs rest)"

lemma samples_of_combine:
  "length xs = length ys \<Longrightarrow> even (length xs) \<Longrightarrow>
   samples_of (combine_bytes mix_sample xs ys) = map2 (\<lambda>x y. limited (x + y)) (samples_of xs) (samples_of ys)"
proof (induction xs arbitrary: ys rule: samples_of.induct)
  case (1 lo hi bs)
  then obtain a b zs where "ys = a # b # zs" by (metis (no_types, lifting) Suc_length_conv length_Cons)
  then show ?case using 1 by (simp add: le16_def rd16_le16 sint_mix_sample limited_def)
qed auto

lemma samples_of_mix_bytes:
  assumes "\<forall>b \<in> set bss. length b = n" and "even n" and "bss \<noteq> []"
  shows "samples_of (mix_bytes bss) = mixed_samples (map samples_of bss) \<and> length (mix_bytes bss) = n"
proof -
  have "samples_of (foldl (combine_bytes mix_sample) b bs) = foldl (map2 (\<lambda>x y. limited (x + y))) (samples_of b) (map samples_of bs) \<and>
      length (foldl (combine_bytes mix_sample) b bs) = n"
    if "\<forall>c \<in> set bs. length c = n" "length b = n" for b bs
    using that by (induction bs arbitrary: b) (simp_all add: samples_of_combine assms(2))
  then show ?thesis using assms by (auto simp: mix_bytes_def mixed_samples_def neq_Nil_conv)
qed

lemma rd16_bytes: "le16 (rd16 lo hi) = [lo, hi]"
  by (auto simp: le16_def rd16_def intro!: bit_word_eqI) (auto simp: bit_simps dest: bit_imp_le_length)

lemma samples_of_inject: "length xs = length ys \<Longrightarrow> even (length xs) \<Longrightarrow> samples_of xs = samples_of ys \<Longrightarrow> xs = ys"
proof (induction xs arbitrary: ys rule: samples_of.induct)
  case (1 lo hi bs)
  then obtain a b zs where ys: "ys = a # b # zs" by (metis (no_types, lifting) Suc_length_conv length_Cons)
  then have eq: "sint (rd16 lo hi) = sint (rd16 a b)" "bs = zs" using 1 by simp_all
  have "rd16 lo hi = rd16 a b" by (rule signed_word_eqI [OF eq(1)])
  then have "[lo, hi] = [a, b]" unfolding rd16_bytes [symmetric] by (rule arg_cong)
  then show ?case using eq(2) by (simp add: ys)
qed auto

text \<open>A port that takes part, with the bytes that it has left, and one that does not.\<close>

definition port_active :: "mixer_port \<Rightarrow> bool" where
  "port_active port \<longleftrightarrow> mp_io port \<noteq> None \<and> mp_n_buffers port \<noteq> 0"

definition port_loaded :: "nat \<Rightarrow> buffer_store \<Rightarrow> mixer_port \<Rightarrow> byte list \<Rightarrow> bool" where
  "port_loaded out mem port bs \<longleftrightarrow>
     (case mp_queue port of
        Some (k # rest) \<Rightarrow>
          mb_outbuf (mp_buffers port ! k) \<noteq> out \<and>
          (case sb_datas (mem (mb_outbuf (mp_buffers port ! k))) of
             [] \<Rightarrow> False
           | d # _ \<Rightarrow>
               unat (mp_queued_offset port) + length bs = unat (ck_size (sd_chunk d)) \<and>
               data_read mem (mb_outbuf (mp_buffers port ! k), 0, unat (mp_queued_offset port) + unat (ck_offset (sd_chunk d)))
                 (length bs) = Some bs)
      | _ \<Rightarrow> False)"

lemma port_loadedE:
  assumes "port_loaded out mem port bs"
  obtains k rest d ds where "mp_queue port = Some (k # rest)" and "mb_outbuf (mp_buffers port ! k) \<noteq> out"
    and "sb_datas (mem (mb_outbuf (mp_buffers port ! k))) = d # ds"
    and "unat (mp_queued_offset port) + length bs = unat (ck_size (sd_chunk d))"
    and "data_read mem (mb_outbuf (mp_buffers port ! k), 0, unat (mp_queued_offset port) + unat (ck_offset (sd_chunk d)))
      (length bs) = Some bs"
  using assms unfolding port_loaded_def by (auto split: option.splits list.splits)

lemma port_loaded_cong:
  assumes "port_loaded out mem port bs" and "\<And>a. a \<noteq> out \<Longrightarrow> mem' a = mem a"
  shows "port_loaded out mem' port bs"
  using assms by (auto simp: port_loaded_def data_block_def split: option.splits list.splits)

text \<open>Mixing in one port.\<close>

definition with_block :: "spa_buffer \<Rightarrow> byte list \<Rightarrow> spa_buffer" where
  "with_block b bs = b\<lparr>sb_datas := (hd (sb_datas b))\<lparr>sd_mem := Some bs\<rparr> # tl (sb_datas b)\<rparr>"

lemma data_write_first:
  assumes "sb_datas (mem out) = d # ds" and "sd_mem d = Some block" and "length xs \<le> length block"
  shows "data_write mem (out, 0, 0) xs = Some (mem(out := with_block (mem out) (xs @ drop (length xs) block)))"
  using assms by (simp add: data_block_def mem_write_def set_block_def with_block_def)

lemma add_port_data_loaded:
  assumes l: "port_loaded out (mx_mem s) (mx_in s ! i) bs" and io: "mp_io (mx_in s ! i) \<noteq> None"
    and n: "unat n \<le> length bs" and ev: "even (unat n)"
    and d: "sb_datas (mx_mem s out) = d # ds" and m: "sd_mem d = Some (cur @ rest)" and cur: "length cur = unat n"
    and i: "i < length (mx_in s)"
  obtains s' where "add_port_data out n i layer s = Some s'"
    and "mx_mem s' = (mx_mem s)(out := with_block (mx_mem s out)
      ((if layer = 0 then take (unat n) bs else combine_bytes mix_sample cur (take (unat n) bs)) @ rest))"
    and "\<And>k. k \<noteq> i \<Longrightarrow> mx_in s' ! k = mx_in s ! k" and "length (mx_in s') = length (mx_in s)" and "mx_out s' = mx_out s"
    and "mp_queued_bytes (mx_in s' ! i) = mp_queued_bytes (mx_in s ! i) - n"
proof -
  let ?port = "mx_in s ! i"
  obtain k r e es where q: "mp_queue ?port = Some (k # r)" and ne: "mb_outbuf (mp_buffers ?port ! k) \<noteq> out"
    and e: "sb_datas (mx_mem s (mb_outbuf (mp_buffers ?port ! k))) = e # es"
    and len: "unat (mp_queued_offset ?port) + length bs = unat (ck_size (sd_chunk e))"
    and rd: "data_read (mx_mem s) (mb_outbuf (mp_buffers ?port ! k), 0, unat (mp_queued_offset ?port) + unat (ck_offset (sd_chunk e)))
      (length bs) = Some bs"
    using l by (rule port_loadedE)
  let ?addr = "mb_outbuf (mp_buffers ?port ! k)" and ?pos = "unat (mp_queued_offset ?port) + unat (ck_offset (sd_chunk e))"
  let ?insize = "ucast (ck_size (sd_chunk e)) - mp_queued_offset ?port :: u64"
  have "unat ?insize = length bs" using len by (subst unat_sub) (simp_all add: word_le_nat_alt unat_ucast_u64)
  then have out: "min n ?insize = n" using n by (simp add: min_def word_le_nat_alt)
  have "length bs = unat n + (length bs - unat n)" using n by simp
  then have rd': "data_read (mx_mem s) (?addr, 0, ?pos) (unat n) = Some (take (unat n) bs)"
    using data_read_split(1) rd by metis
  have ro: "data_read (mx_mem s) (out, 0, 0) (unat n) = Some cur" using d m cur by (simp add: data_block_def mem_read_def)
  define new where "new = (if layer = 0 then take (unat n) bs else combine_bytes mix_sample cur (take (unat n) bs))"
  have ln: "length new = unat n" using n cur by (simp add: new_def)
  have w: "data_write (mx_mem s) (out, 0, 0) new = Some ((mx_mem s)(out := with_block (mx_mem s out) (new @ rest)))"
    using data_write_first [of "mx_mem s" out, OF d m, of new] ln cur by simp
  have two: "2 * unat (n div 2) = unat n" using ev by (simp add: unat_div)
  have c: "combine_samples mix_sample (unat (n div 2)) (out, 0, 0) (?addr, 0, ?pos) (mx_mem s) =
      data_write (mx_mem s) (out, 0, 0) (combine_bytes mix_sample cur (take (unat n) bs))"
    by (rule combine_samples_eq [OF ne [symmetric]]) (simp_all only: two ro rd')
  let ?mem = "(mx_mem s)(out := with_block (mx_mem s out) (new @ rest))"
  have mixed: "(if layer = 0
       then (case data_read (mx_mem s) (?addr, 0, ?pos) (unat n) of None \<Rightarrow> None | Some bs \<Rightarrow> data_write (mx_mem s) (out, 0, 0) bs)
       else combine_samples mix_sample (unat (n div 2)) (out, 0, 0) (?addr, 0, ?pos) (mx_mem s)) = Some ?mem"
  proof (cases "layer = 0")
    case True
    then show ?thesis using rd' w by (simp only: new_def if_True option.case simp_thms)
  next
    case False
    then show ?thesis using w c by (simp only: new_def if_False simp_thms)
  qed
  obtain io where "mp_io ?port = Some io" using io by blast
  then have "\<exists>port'. add_port_data out n i layer s = Some (set_in i port' (s\<lparr>mx_mem := ?mem\<rparr>)) \<and>
      mp_queued_bytes port' = mp_queued_bytes ?port - n"
  proof (cases "n = ?insize")
    case True
    show ?thesis
      unfolding add_port_data_def Let_def q e out option.case list.case mixed if_P [OF True]
      using \<open>mp_io ?port = Some io\<close> True by (auto intro!: exI)
  next
    case False
    show ?thesis
      unfolding add_port_data_def Let_def q e out option.case list.case mixed if_not_P [OF False] by (auto intro!: exI)
  qed
  then obtain port' where a: "add_port_data out n i layer s = Some (set_in i port' (s\<lparr>mx_mem := ?mem\<rparr>))"
    and qb: "mp_queued_bytes port' = mp_queued_bytes ?port - n" by blast
  show ?thesis by (rule that [OF a]) (use qb i in \<open>simp_all add: set_in_def new_def\<close>)
qed

lemma with_block_first:
  "sb_datas b = d # ds \<Longrightarrow> sb_datas (with_block b bs) = d\<lparr>sd_mem := Some bs\<rparr> # ds"
  by (simp add: with_block_def)

lemma with_block_twice [simp]: "with_block (with_block b bs) bs' = with_block b bs'"
  by (simp add: with_block_def)

lemma with_block_fields [simp]: "sb_id (with_block b bs) = sb_id b" "sb_metas (with_block b bs) = sb_metas b"
  by (simp_all add: with_block_def)

lemma mix_layers_bytes:
  assumes "distinct ports" and "\<forall>i \<in> set ports. i < length (mx_in s)"
    and "\<forall>i \<in> set ports. port_active (mx_in s ! i) \<longrightarrow> port_loaded out (mx_mem s) (mx_in s ! i) (bytes i) \<and> unat n \<le> length (bytes i)"
    and "even (unat n)" and "sb_datas (mx_mem s out) = d # ds" and "sd_mem d = Some (cur @ rest)" and "length cur = unat n"
  shows "\<exists>s'. mix_layers out n ports layer s = Some s' \<and> mx_out s' = mx_out s \<and>
    mx_mem s' = (mx_mem s)(out := with_block (mx_mem s out)
      (mix_acc layer cur (map (\<lambda>i. take (unat n) (bytes i)) (filter (\<lambda>i. port_active (mx_in s ! i)) ports)) @ rest)) \<and>
    (\<forall>i. i \<notin> set ports \<longrightarrow> mx_in s' ! i = mx_in s ! i) \<and>
    (\<forall>i \<in> set ports. mp_queued_bytes (mx_in s' ! i) =
       (if port_active (mx_in s ! i) then mp_queued_bytes (mx_in s ! i) - n else mp_queued_bytes (mx_in s ! i)))"
  using assms
proof (induction ports arbitrary: layer s d ds cur)
  case Nil
  have "with_block (mx_mem s out) (cur @ rest) = mx_mem s out"
    using Nil by (simp add: with_block_def)
  then show ?case by simp
next
  case (Cons i ports)
  show ?case
  proof (cases "port_active (mx_in s ! i)")
    case False
    then have "mix_layers out n (i # ports) layer s = mix_layers out n ports layer s" by (simp add: Let_def port_active_def)
    moreover obtain s' where "mix_layers out n ports layer s = Some s'" and "mx_out s' = mx_out s"
      and "mx_mem s' = (mx_mem s)(out := with_block (mx_mem s out)
        (mix_acc layer cur (map (\<lambda>i. take (unat n) (bytes i)) (filter (\<lambda>i. port_active (mx_in s ! i)) ports)) @ rest))"
      and same: "\<forall>k. k \<notin> set ports \<longrightarrow> mx_in s' ! k = mx_in s ! k"
      and "\<forall>k \<in> set ports. mp_queued_bytes (mx_in s' ! k) =
        (if port_active (mx_in s ! k) then mp_queued_bytes (mx_in s ! k) - n else mp_queued_bytes (mx_in s ! k))"
      using Cons.IH [OF _ _ _ Cons.prems(4,5,6,7), of layer] Cons.prems(1,2,3) by (simp only: distinct.simps list.set ball_simps simp_thms) blast
    moreover have "mx_in s' ! i = mx_in s ! i" using same Cons.prems(1) by simp
    ultimately show ?thesis using False by auto
  next
    case True
    have l: "port_loaded out (mx_mem s) (mx_in s ! i) (bytes i)" and n: "unat n \<le> length (bytes i)" and il: "i < length (mx_in s)"
      using Cons.prems(2,3) True by auto
    have io: "mp_io (mx_in s ! i) \<noteq> None" using True by (simp add: port_active_def)
    have q: "mp_queue (mx_in s ! i) \<noteq> Some []" using l by (auto simp: port_loaded_def)
    let ?new = "if layer = 0 then take (unat n) (bytes i) else combine_bytes mix_sample cur (take (unat n) (bytes i))"
    obtain s1 where a: "add_port_data out n i layer s = Some s1"
      and m1: "mx_mem s1 = (mx_mem s)(out := with_block (mx_mem s out) (?new @ rest))"
      and in1: "\<And>k. k \<noteq> i \<Longrightarrow> mx_in s1 ! k = mx_in s ! k" and len1: "length (mx_in s1) = length (mx_in s)"
      and out1: "mx_out s1 = mx_out s" and qb1: "mp_queued_bytes (mx_in s1 ! i) = mp_queued_bytes (mx_in s ! i) - n"
      using add_port_data_loaded [OF l io n Cons.prems(4,5,6,7) il, of layer] by metis
    have step: "mix_layers out n (i # ports) layer s = mix_layers out n ports (layer + 1) s1"
      using True q a io by (simp add: Let_def port_active_def del: not_None_eq)
    have ip: "i \<notin> set ports" using Cons.prems(1) by simp
    have act: "filter (\<lambda>k. port_active (mx_in s1 ! k)) ports = filter (\<lambda>k. port_active (mx_in s ! k)) ports"
      using in1 ip by (intro filter_cong refl) metis
    have d1: "sb_datas (mx_mem s1 out) = d\<lparr>sd_mem := Some (?new @ rest)\<rparr> # ds"
      using m1 with_block_first [OF Cons.prems(5)] by simp
    have ln: "length ?new = unat n" using n Cons.prems(7) by simp
    have loaded: "\<forall>k \<in> set ports. port_active (mx_in s1 ! k) \<longrightarrow> port_loaded out (mx_mem s1) (mx_in s1 ! k) (bytes k) \<and> unat n \<le> length (bytes k)"
    proof (intro ballI impI)
      fix k assume k: "k \<in> set ports" and ac: "port_active (mx_in s1 ! k)"
      then have eq: "mx_in s1 ! k = mx_in s ! k" using in1 ip by metis
      have "port_loaded out (mx_mem s) (mx_in s ! k) (bytes k) \<and> unat n \<le> length (bytes k)" using Cons.prems(3) k ac eq by auto
      then show "port_loaded out (mx_mem s1) (mx_in s1 ! k) (bytes k) \<and> unat n \<le> length (bytes k)"
        unfolding eq using m1 by (auto intro: port_loaded_cong)
    qed
    have dp: "distinct ports" and bl: "\<forall>k \<in> set ports. k < length (mx_in s1)" using Cons.prems(1,2) len1 by auto
    have sm: "sd_mem (d\<lparr>sd_mem := Some (?new @ rest)\<rparr>) = Some (?new @ rest)" by simp
    obtain s' where r: "mix_layers out n ports (layer + 1) s1 = Some s'" and o': "mx_out s' = mx_out s1"
      and m': "mx_mem s' = (mx_mem s1)(out := with_block (mx_mem s1 out)
        (mix_acc (layer + 1) ?new (map (\<lambda>i. take (unat n) (bytes i)) (filter (\<lambda>k. port_active (mx_in s1 ! k)) ports)) @ rest))"
      and same: "\<forall>k. k \<notin> set ports \<longrightarrow> mx_in s' ! k = mx_in s1 ! k"
      and qb: "\<forall>k \<in> set ports. mp_queued_bytes (mx_in s' ! k) =
        (if port_active (mx_in s1 ! k) then mp_queued_bytes (mx_in s1 ! k) - n else mp_queued_bytes (mx_in s1 ! k))"
      using Cons.IH [OF dp bl loaded Cons.prems(4) d1 sm ln, of "layer + 1"] by blast
    have mem: "mx_mem s' = (mx_mem s)(out := with_block (mx_mem s out)
        (mix_acc layer cur (map (\<lambda>i. take (unat n) (bytes i)) (filter (\<lambda>k. port_active (mx_in s ! k)) (i # ports))) @ rest))"
      using True by (simp add: m' m1 act)
    have "mp_queued_bytes (mx_in s' ! k) =
        (if port_active (mx_in s ! k) then mp_queued_bytes (mx_in s ! k) - n else mp_queued_bytes (mx_in s ! k))" if "k \<in> set (i # ports)" for k
      using that qb same qb1 True ip in1 by (cases "k = i") auto
    then show ?thesis unfolding step using r o' out1 mem same in1 by (intro exI [of _ s']) auto
  qed
qed


section \<open>One cycle of the mixer\<close>

text \<open>All ports that take part are loaded with an even number of bytes; the smallest of these numbers is mixed.\<close>

definition mix_ready :: "mixer \<Rightarrow> (nat \<Rightarrow> byte list) \<Rightarrow> bool" where
  "mix_ready s bytes \<longleftrightarrow>
     length (mx_in s) = MAX_PORTS \<and> (\<exists>i < MAX_PORTS. port_active (mx_in s ! i)) \<and>
     (\<forall>i < MAX_PORTS. port_active (mx_in s ! i) \<longrightarrow>
        (\<forall>j. mp_queue (mx_out s) = Some j \<longrightarrow> port_loaded (mb_outbuf (mp_buffers (mx_out s) ! hd j)) (mx_mem s) (mx_in s ! i) (bytes i)) \<and>
        unat (mp_queued_bytes (mx_in s ! i)) = length (bytes i) \<and> bytes i \<noteq> [] \<and> even (length (bytes i)))"

definition active_ports :: "mixer \<Rightarrow> nat list" where
  "active_ports s = filter (\<lambda>i. port_active (mx_in s ! i)) [0..<MAX_PORTS]"

lemma mix_least_fold:
  "fold (\<lambda>port least. if mp_io port = None \<or> mp_n_buffers port = 0 then least
       else if mp_queued_bytes port < least then mp_queued_bytes port else least) ports least =
   fold min (map mp_queued_bytes (filter port_active ports)) least"
proof (induction ports arbitrary: least)
  case (Cons p ports)
  have "(if mp_queued_bytes p < least then mp_queued_bytes p else least) = min (mp_queued_bytes p) least" by (auto simp: min_def)
  then show ?case using Cons.IH by (simp add: port_active_def del: not_None_eq)
qed simp

lemma fold_min_set: "fold min xs (y :: 'a :: linorder) = Min (insert y (set xs))"
  by (simp add: Min.set_eq_fold [symmetric])


lemma mix_least_eq:
  assumes "length (mx_in s) = MAX_PORTS" and "\<exists>i < MAX_PORTS. port_active (mx_in s ! i)"
  shows "mix_least_queued s = Min ((\<lambda>i. mp_queued_bytes (mx_in s ! i)) ` set (active_ports s))"
proof -
  have set_eq: "set (map mp_queued_bytes (filter port_active (mx_in s))) = (\<lambda>i. mp_queued_bytes (mx_in s ! i)) ` set (active_ports s)"
    (is "_ = ?B")
    using assms(1) by (force simp: active_ports_def in_set_conv_nth)
  have "finite ?B" and "?B \<noteq> {}" using assms(2) by (auto simp: active_ports_def)
  moreover have "Min ?B \<le> - 1" by (rule word_n1_ge)
  ultimately have "Min (insert (- 1) ?B) = Min ?B" by (simp add: min_absorb2)
  then show ?thesis unfolding mix_least_queued_def mix_least_fold fold_min_set set_eq .
qed

lemma mix_ready_least:
  assumes "mix_ready s bytes"
  shows "0 < mix_least_queued s" and "mix_least_queued s \<noteq> - 1" and "even (unat (mix_least_queued s))"
    and "i \<in> set (active_ports s) \<Longrightarrow> unat (mix_least_queued s) \<le> length (bytes i)"
proof -
  let ?q = "\<lambda>i. mp_queued_bytes (mx_in s ! i)"
  have r: "unat (?q i) = length (bytes i)" "bytes i \<noteq> []" "even (length (bytes i))" if "i \<in> set (active_ports s)" for i
    using assms that by (auto simp: mix_ready_def active_ports_def)
  have eq: "mix_least_queued s = Min (?q ` set (active_ports s))" using assms by (intro mix_least_eq) (auto simp: mix_ready_def)
  have ne: "?q ` set (active_ports s) \<noteq> {}" using assms by (auto simp: mix_ready_def active_ports_def)
  have "Min (?q ` set (active_ports s)) \<in> ?q ` set (active_ports s)" using ne by (intro Min_in) auto
  then obtain k where k: "k \<in> set (active_ports s)" and m: "mix_least_queued s = ?q k" using eq by auto
  have u: "unat (mix_least_queued s) = length (bytes k)" using r(1) [OF k] m by simp
  show "0 < mix_least_queued s" using r(2) [OF k] u by (auto simp: word_gt_0)
  show ev: "even (unat (mix_least_queued s))" using r(3) [OF k] u by simp
  show "mix_least_queued s \<noteq> - 1"
  proof
    assume "mix_least_queued s = - 1"
    then have "unat (mix_least_queued s) = 2 ^ 64 - 1" by (simp add: unsigned_minus_1_eq_mask mask_eq_exp_minus_1)
    then show False using ev by simp
  qed
  show "unat (mix_least_queued s) \<le> length (bytes i)" if "i \<in> set (active_ports s)"
  proof -
    have "mix_least_queued s \<le> ?q i" unfolding eq using that by (intro Min_le) auto
    then show ?thesis using r(1) [OF that] by (simp add: word_le_nat_alt)
  qed
qed


text \<open>The common part: what \<open>mix_output\<close> does when the loop over the ports succeeds.\<close>

definition chunk_of :: "u64 \<Rightarrow> spa_chunk" where
  "chunk_of n = \<lparr>ck_offset = 0, ck_size = ucast n, ck_stride = 0\<rparr>"

definition mix_taken :: "nat \<Rightarrow> nat list \<Rightarrow> u64 \<Rightarrow> mixer \<Rightarrow> mixer" where
  "mix_taken j rest n s =
     (let out = mx_out s; b = mp_buffers out ! j; addr = mb_outbuf b; m = mx_mem s addr in
      s\<lparr>mx_out := out\<lparr>mp_queue := Some rest, mp_buffers := (mp_buffers out)[j := b\<lparr>mb_outstanding := True\<rparr>]\<rparr>,
        mx_mem := (mx_mem s)(addr := m\<lparr>sb_datas := (hd (sb_datas m))\<lparr>sd_chunk := chunk_of n\<rparr> # tl (sb_datas m)\<rparr>)\<rparr>)"

lemma process_output_mixes:
  assumes "mp_io (mx_out s) = Some oio" and "io_status oio \<noteq> SPA_RESULT_HAVE_BUFFER" and "io_buffer_id oio = SPA_ID_INVALID"
    and "mix_least_queued s \<noteq> - 1" and "0 < mix_least_queued s" and "mp_queue (mx_out s) = Some (j # rest)"
    and "addr = mb_outbuf (mp_buffers (mx_out s) ! j)" and "sb_datas (mx_mem s addr) = d # ds"
    and "n = min (mix_least_queued s) (ucast (sd_maxsize d))"
    and "mix_layers addr n [0..<MAX_PORTS] 0 (mix_taken j rest n s) = Some s2"
  shows "spa_audiomixer_node_process_output s =
    Some (SPA_RESULT_HAVE_BUFFER, s2\<lparr>mx_out := (mx_out s2)\<lparr>mp_io :=
      Some (oio\<lparr>io_buffer_id := sb_id (mx_mem s2 addr), io_status := SPA_RESULT_HAVE_BUFFER\<rparr>)\<rparr>\<rparr>)"
proof -
  have "mix_output (mix_least_queued s) s =
      Some (SPA_RESULT_HAVE_BUFFER, s2\<lparr>mx_out := (mx_out s2)\<lparr>mp_io :=
        Some (oio\<lparr>io_buffer_id := sb_id (mx_mem s2 addr), io_status := SPA_RESULT_HAVE_BUFFER\<rparr>)\<rparr>\<rparr>)"
    using assms(1,6-10) unfolding mix_output_def Let_def by (simp add: mix_taken_def Let_def chunk_of_def)
  then show ?thesis
    using assms(1-5) by (simp add: spa_audiomixer_node_process_output_def Let_def set_output_def)
qed

lemma mix_taken_simps [simp]: "mx_in (mix_taken j rest n s) = mx_in s" "mp_queue (mx_out (mix_taken j rest n s)) = Some rest"
  by (simp_all add: mix_taken_def Let_def)

lemma mix_taken_mem:
  assumes "addr = mb_outbuf (mp_buffers (mx_out s) ! j)" and "sb_datas (mx_mem s addr) = d # ds"
  shows "mx_mem (mix_taken j rest n s) = (mx_mem s)(addr := (mx_mem s addr)\<lparr>sb_datas := d\<lparr>sd_chunk := chunk_of n\<rparr> # ds\<rparr>)"
  using assms by (simp add: mix_taken_def Let_def)

text \<open>C16. One cycle of the mixer. When every input that takes part has queued an even number of bytes and an output
  buffer is free, \<^verbatim>\<open>process_output\<close> takes the first free buffer and replaces its first \<open>n\<close> bytes, where \<open>n\<close> is the
  smallest number of queued bytes or the size of the buffer: as signed 16-bit samples they are the samples of the inputs that
  take part, added as integers one input after the other in the order of the ports, with every sum limited to -32768 to 32767.
  It leaves the bytes behind them alone, describes them in the chunk, passes the buffer on in the io area, and takes \<open>n\<close> bytes
  from every input.\<close>

theorem audiomixer_mixes:
  assumes ready: "mix_ready s bytes" and io: "mp_io (mx_out s) = Some oio" "io_status oio \<noteq> SPA_RESULT_HAVE_BUFFER"
      "io_buffer_id oio = SPA_ID_INVALID"
    and q: "mp_queue (mx_out s) = Some (j # rest)" and addr: "addr = mb_outbuf (mp_buffers (mx_out s) ! j)"
    and d: "sb_datas (mx_mem s addr) = d # ds" and blk: "sd_mem d = Some block" "unat (sd_maxsize d) \<le> length block" "even (unat (sd_maxsize d))"
    and n: "n = min (mix_least_queued s) (ucast (sd_maxsize d))"
  shows "\<exists>s' mixed. spa_audiomixer_node_process_output s = Some (SPA_RESULT_HAVE_BUFFER, s') \<and>
    length mixed = unat n \<and>
    samples_of mixed = mixed_samples (map (\<lambda>i. samples_of (take (unat n) (bytes i))) (active_ports s)) \<and>
    mx_mem s' = (mx_mem s)(addr := (mx_mem s addr)\<lparr>sb_datas := d\<lparr>sd_chunk := chunk_of n,
      sd_mem := Some (mixed @ drop (unat n) block)\<rparr> # ds\<rparr>) \<and>
    mp_queue (mx_out s') = Some rest \<and>
    mp_io (mx_out s') = Some (oio\<lparr>io_buffer_id := sb_id (mx_mem s addr), io_status := SPA_RESULT_HAVE_BUFFER\<rparr>) \<and>
    (\<forall>i \<in> set (active_ports s). mp_queued_bytes (mx_in s' ! i) = mp_queued_bytes (mx_in s ! i) - n)"
proof -
  let ?s1 = "mix_taken j rest n s" and ?d1 = "d\<lparr>sd_chunk := chunk_of n\<rparr>"
  have un: "unat n = min (unat (mix_least_queued s)) (unat (sd_maxsize d))"
    using n by (simp add: min_def word_le_nat_alt unat_ucast_u64)
  have ev: "even (unat n)" using un mix_ready_least(3) [OF ready] blk(3) by (auto simp: min_def)
  have mem: "mx_mem ?s1 = (mx_mem s)(addr := (mx_mem s addr)\<lparr>sb_datas := ?d1 # ds\<rparr>)" by (rule mix_taken_mem [OF addr d])
  have loaded: "\<forall>i \<in> set [0..<MAX_PORTS]. port_active (mx_in ?s1 ! i) \<longrightarrow>
      port_loaded addr (mx_mem ?s1) (mx_in ?s1 ! i) (bytes i) \<and> unat n \<le> length (bytes i)"
  proof (intro ballI impI)
    fix i assume i: "i \<in> set [0..<MAX_PORTS]" and "port_active (mx_in ?s1 ! i)"
    then have ac: "i \<in> set (active_ports s)" by (simp add: active_ports_def)
    then have "port_loaded addr (mx_mem s) (mx_in s ! i) (bytes i)" using ready q addr by (auto simp: mix_ready_def active_ports_def)
    then have "port_loaded addr (mx_mem ?s1) (mx_in ?s1 ! i) (bytes i)" unfolding mix_taken_simps by (rule port_loaded_cong) (simp add: mem)
    then show "port_loaded addr (mx_mem ?s1) (mx_in ?s1 ! i) (bytes i) \<and> unat n \<le> length (bytes i)"
      using mix_ready_least(4) [OF ready ac] un by simp
  qed
  have ports: "\<forall>i \<in> set [0..<MAX_PORTS]. i < length (mx_in ?s1)" using ready by (simp add: mix_ready_def)
  have d1: "sb_datas (mx_mem ?s1 addr) = ?d1 # ds" and b1: "sd_mem ?d1 = Some (take (unat n) block @ drop (unat n) block)"
    and l1: "length (take (unat n) block) = unat n" using mem blk un by simp_all
  obtain s2 where layers: "mix_layers addr n [0..<MAX_PORTS] 0 ?s1 = Some s2" and out2: "mx_out s2 = mx_out ?s1"
    and mem2: "mx_mem s2 = (mx_mem ?s1)(addr := with_block (mx_mem ?s1 addr)
      (mix_acc 0 (take (unat n) block) (map (\<lambda>i. take (unat n) (bytes i)) (filter (\<lambda>i. port_active (mx_in ?s1 ! i)) [0..<MAX_PORTS])) @
        drop (unat n) block))"
    and qb: "\<forall>i \<in> set [0..<MAX_PORTS]. mp_queued_bytes (mx_in s2 ! i) =
       (if port_active (mx_in ?s1 ! i) then mp_queued_bytes (mx_in ?s1 ! i) - n else mp_queued_bytes (mx_in ?s1 ! i))"
    using mix_layers_bytes [OF distinct_upt ports loaded ev d1 b1 l1] by blast
  have ne: "map (\<lambda>i. take (unat n) (bytes i)) (active_ports s) \<noteq> []" using ready by (auto simp: mix_ready_def active_ports_def filter_empty_conv)
  have m2: "mx_mem s2 = (mx_mem s)(addr := (mx_mem s addr)\<lparr>sb_datas := ?d1\<lparr>sd_mem :=
      Some (mix_bytes (map (\<lambda>i. take (unat n) (bytes i)) (active_ports s)) @ drop (unat n) block)\<rparr> # ds\<rparr>)"
    unfolding mem2 mem mix_taken_simps active_ports_def [symmetric] mix_acc_bytes [OF ne] by (simp add: with_block_def)
  have "length (take (unat n) (bytes i)) = unat n" if "i \<in> set (active_ports s)" for i
    using mix_ready_least(4) [OF ready that] un by simp
  then have mixed: "samples_of (mix_bytes (map (\<lambda>i. take (unat n) (bytes i)) (active_ports s))) =
      mixed_samples (map (\<lambda>i. samples_of (take (unat n) (bytes i))) (active_ports s)) \<and>
      length (mix_bytes (map (\<lambda>i. take (unat n) (bytes i)) (active_ports s))) = unat n"
    using samples_of_mix_bytes [OF _ ev ne] by (simp add: comp_def)
  show ?thesis
    using process_output_mixes [OF io mix_ready_least(2,1) [OF ready] q addr d n layers] m2 out2 qb
    by (intro exI [of _ "s2\<lparr>mx_out := (mx_out s2)\<lparr>mp_io :=
          Some (oio\<lparr>io_buffer_id := sb_id (mx_mem s addr), io_status := SPA_RESULT_HAVE_BUFFER\<rparr>)\<rparr>\<rparr>"]
        exI [of _ "mix_bytes (map (\<lambda>i. take (unat n) (bytes i)) (active_ports s))"] conjI)
       (auto simp: mixed, auto simp: active_ports_def)
qed


section \<open>Bytes counted for buffers that are gone\<close>

text \<open>With all queues empty the loop over the ports only resets their counters.\<close>

lemma mix_layers_empty:
  assumes "distinct ports" and "\<forall>i \<in> set ports. i < length (mx_in s)"
    and "\<forall>i \<in> set ports. port_active (mx_in s ! i) \<longrightarrow> mp_queue (mx_in s ! i) = Some []"
  shows "\<exists>ins. mix_layers out n ports layer s = Some (s\<lparr>mx_in := ins\<rparr>)"
  using assms
proof (induction ports arbitrary: s)
  case Nil
  show ?case by (intro exI [of _ "mx_in s"]) simp
next
  case (Cons i ports)
  show ?case
  proof (cases "port_active (mx_in s ! i)")
    case False
    then show ?thesis using Cons by (simp add: Let_def port_active_def)
  next
    case True
    let ?s1 = "set_in i ((mx_in s ! i)\<lparr>mp_queued_bytes := 0, mp_queued_offset := 0\<rparr>) s"
    have "\<forall>k \<in> set ports. mx_in ?s1 ! k = mx_in s ! k" using Cons.prems(1)
      by (metis distinct.simps(2) mixer.select_convs(4) mixer.surjective mixer.update_convs(4) nth_list_update_neq set_in_def)
    then have "\<exists>ins. mix_layers out n ports layer ?s1 = Some (?s1\<lparr>mx_in := ins\<rparr>)"
      using Cons.prems by (intro Cons.IH) (auto simp: set_in_def)
    then show ?thesis using True Cons.prems(3) by (auto simp: Let_def port_active_def set_in_def)
  qed
qed

lemma use_buffers_input_keeps:
  "mix_use_buffers_from t mem Dir_input i addrs port = Some (True, port') \<Longrightarrow>
   mp_queue port' = mp_queue port \<and> mp_queued_bytes port' = mp_queued_bytes port \<and> mp_io port' = mp_io port"
  by (induction t mem Dir_input i addrs port rule: mix_use_buffers_from.induct)
    (auto simp: Let_def split: if_splits list.splits)

lemma set_format_input:
  assumes "spa_audiomixer_node_port_set_format Dir_input p fmt s = Some (SPA_RESULT_OK, s')" and "unat p < length (mx_in s)"
  shows "mx_out s' = mx_out s" and "mx_mem s' = mx_mem s" and "length (mx_in s') = length (mx_in s)"
    and "i \<noteq> unat p \<Longrightarrow> mx_in s' ! i = mx_in s ! i"
    and "mp_io (mx_in s' ! unat p) = mp_io (mx_in s ! unat p)"
    and "mp_queued_bytes (mx_in s' ! unat p) = mp_queued_bytes (mx_in s ! unat p)"
    and "mp_queue (mx_in s' ! unat p) = (if fmt = None \<and> mp_n_buffers (mx_in s ! unat p) > 0 then Some [] else mp_queue (mx_in s ! unat p))"
    and "mp_io (mx_in s ! unat p) \<noteq> None"
    and "mp_have_format (mx_in s' ! unat p) \<longleftrightarrow> fmt \<noteq> None" and "mx_type s' = mx_type s"
  using assms
  by (auto simp: spa_audiomixer_node_port_set_format_def Let_def mix_check_port_def mix_check_in_port_def mix_port_of_def
      set_mix_port_def mix_clear_buffers_def split: option.splits if_splits prod.splits)

lemma use_buffers_input:
  assumes "spa_audiomixer_node_port_use_buffers Dir_input p addrs s = Some (SPA_RESULT_OK, s')" and "unat p < length (mx_in s)"
  shows "mx_out s' = mx_out s" and "mx_mem s' = mx_mem s" and "length (mx_in s') = length (mx_in s)"
    and "i \<noteq> unat p \<Longrightarrow> mx_in s' ! i = mx_in s ! i"
    and "mp_io (mx_in s' ! unat p) = mp_io (mx_in s ! unat p)" and "mp_n_buffers (mx_in s' ! unat p) = of_nat (length addrs)"
    and "mp_queued_bytes (mx_in s' ! unat p) = mp_queued_bytes (mx_in s ! unat p)"
    and "mp_queue (mx_in s ! unat p) = Some [] \<Longrightarrow> mp_queue (mx_in s' ! unat p) = Some []"
proof -
  have "\<exists>port. mix_use_buffers_from (mx_type s) (mx_mem s) Dir_input 0 addrs (mix_clear_buffers (mx_in s ! unat p)) = Some (True, port) \<and>
      s' = s\<lparr>mx_in := (mx_in s)[unat p := port\<lparr>mp_n_buffers := of_nat (length addrs)\<rparr>]\<rparr>"
    using assms by (auto simp: spa_audiomixer_node_port_use_buffers_def mix_port_of_def set_mix_port_def split: if_splits option.splits bool.splits)
  then obtain port where u: "mix_use_buffers_from (mx_type s) (mx_mem s) Dir_input 0 addrs (mix_clear_buffers (mx_in s ! unat p)) = Some (True, port)"
    and s': "s' = s\<lparr>mx_in := (mx_in s)[unat p := port\<lparr>mp_n_buffers := of_nat (length addrs)\<rparr>]\<rparr>" by blast
  note keep = use_buffers_input_keeps [OF u]
  show "mx_out s' = mx_out s" "mx_mem s' = mx_mem s" "length (mx_in s') = length (mx_in s)"
    "i \<noteq> unat p \<Longrightarrow> mx_in s' ! i = mx_in s ! i"
    "mp_io (mx_in s' ! unat p) = mp_io (mx_in s ! unat p)" "mp_n_buffers (mx_in s' ! unat p) = of_nat (length addrs)"
    "mp_queued_bytes (mx_in s' ! unat p) = mp_queued_bytes (mx_in s ! unat p)"
    "mp_queue (mx_in s ! unat p) = Some [] \<Longrightarrow> mp_queue (mx_in s' ! unat p) = Some []"
    using keep assms(2) s' by (auto simp: mix_clear_buffers_def)
qed

text \<open>C34. Clearing the buffers of an input empties its queue but not the count of its queued bytes. When the only
  connected input has bytes queued, its format is reset and set again and new buffers are used, the next
  \<^verbatim>\<open>process_output\<close> passes on an output buffer that it describes as containing that many bytes, though it
  has not written one of them.\<close>

theorem audiomixer_stale_count:
  assumes p: "unat p < MAX_PORTS" and len: "length (mx_in s) = MAX_PORTS"
    and only: "\<And>i. i < MAX_PORTS \<Longrightarrow> i \<noteq> unat p \<Longrightarrow> mp_io (mx_in s ! i) = None"
    and q: "mp_queued_bytes (mx_in s ! unat p) = queued" "0 < queued" "queued \<noteq> - 1" and nb: "0 < mp_n_buffers (mx_in s ! unat p)"
    and f1: "spa_audiomixer_node_port_set_format Dir_input p None s = Some (SPA_RESULT_OK, s1)"
    and f2: "spa_audiomixer_node_port_set_format Dir_input p (Some fmt) s1 = Some (SPA_RESULT_OK, s2)"
    and u: "spa_audiomixer_node_port_use_buffers Dir_input p addrs s2 = Some (SPA_RESULT_OK, s3)"
      "(of_nat (length addrs) :: u32) \<noteq> 0"
    and io: "mp_io (mx_out s) = Some oio" "io_status oio \<noteq> SPA_RESULT_HAVE_BUFFER" "io_buffer_id oio = SPA_ID_INVALID"
    and oq: "mp_queue (mx_out s) = Some (j # rest)" and addr: "addr = mb_outbuf (mp_buffers (mx_out s) ! j)"
    and d: "sb_datas (mx_mem s addr) = d # ds"
  shows "\<exists>s4. spa_audiomixer_node_process_output s3 = Some (SPA_RESULT_HAVE_BUFFER, s4) \<and>
    mx_mem s4 = (mx_mem s)(addr := (mx_mem s addr)\<lparr>sb_datas := d\<lparr>sd_chunk := chunk_of (min queued (ucast (sd_maxsize d)))\<rparr> # ds\<rparr>) \<and>
    mp_io (mx_out s4) = Some (oio\<lparr>io_buffer_id := sb_id (mx_mem s addr), io_status := SPA_RESULT_HAVE_BUFFER\<rparr>)"
proof -
  have lp: "unat p < length (mx_in s)" using p len by simp
  note s1 = set_format_input [OF f1 lp]
  have lp1: "unat p < length (mx_in s1)" using lp s1(3) by simp
  note s2 = set_format_input [OF f2 lp1]
  have lp2: "unat p < length (mx_in s2)" using lp1 s2(3) by simp
  note s3 = use_buffers_input [OF u(1) lp2]
  have out: "mx_out s3 = mx_out s" and mem: "mx_mem s3 = mx_mem s" and len3: "length (mx_in s3) = MAX_PORTS" using s1 s2 s3 len by auto
  have others: "mp_io (mx_in s3 ! i) = None" if "i < MAX_PORTS" "i \<noteq> unat p" for i
    using only [OF that] s1(4) [OF that(2)] s2(4) [OF that(2)] s3(4) [OF that(2)] by simp
  have ap: "port_active (mx_in s3 ! unat p)" using s1(5,8) s2(5) s3(5,6) u(2) by (simp add: port_active_def del: not_None_eq)
  have qe: "mp_queue (mx_in s3 ! unat p) = Some []" using s1(7) s2(7) s3(8) nb by simp
  have only_p: "set (active_ports s3) = {unat p}"
  proof -
    have uniq: "i = unat p" if "i < MAX_PORTS" "port_active (mx_in s3 ! i)" for i using others [OF that(1)] that(2) by (cases "i = unat p") (simp_all add: port_active_def)
    have "i \<in> set (active_ports s3) \<longleftrightarrow> i = unat p" for i
      using uniq [of i] ap p by (cases "i = unat p") (auto simp: active_ports_def)
    then show ?thesis by blast
  qed
  have least: "mix_least_queued s3 = queued"
    using mix_least_eq [OF len3] ap p only_p q(1) s1(6) s2(6) s3(7) by auto
  let ?n = "min queued (ucast (sd_maxsize d))"
  have "\<exists>ins. mix_layers addr ?n [0..<MAX_PORTS] 0 (mix_taken j rest ?n s3) = Some ((mix_taken j rest ?n s3)\<lparr>mx_in := ins\<rparr>)"
    using len3 qe others
    by (intro mix_layers_empty) (auto simp: port_active_def, metis option.distinct(1))
  then obtain ins where l: "mix_layers addr ?n [0..<MAX_PORTS] 0 (mix_taken j rest ?n s3) = Some ((mix_taken j rest ?n s3)\<lparr>mx_in := ins\<rparr>)" by blast
  have pre: "mp_io (mx_out s3) = Some oio" "mp_queue (mx_out s3) = Some (j # rest)" "addr = mb_outbuf (mp_buffers (mx_out s3) ! j)"
    "sb_datas (mx_mem s3 addr) = d # ds" "mix_least_queued s3 \<noteq> - 1" "0 < mix_least_queued s3"
    "?n = min (mix_least_queued s3) (ucast (sd_maxsize d))"
    using io oq addr d out mem least q by simp_all
  note po = process_output_mixes [OF pre(1) io(2,3) pre(5,6,2,3,4,7) l]
  show ?thesis
    using po mix_taken_mem [OF pre(3,4)] mem by (simp add: fun_upd_def)
qed


section \<open>Witnesses\<close>

definition ex_mix_types :: mix_types where
  "ex_mix_types = \<lparr>mt_format = 1, mt_audio = 2, mt_raw = 3, mt_keys = \<lparr>ak_format = 4, ak_flags = 5, ak_layout = 6, ak_rate = 7, ak_channels = 8, ak_channel_mask = 16\<rparr>,
     mt_S16 = 9, mt_MemPtr = 10, mt_MemFd = 11, mt_DmaBuf = 12, mt_Header = 13, mt_Start = 14, mt_Pause = 15\<rparr>"

definition ex_mix_buffer :: "nat \<Rightarrow> byte list \<Rightarrow> spa_buffer" where
  "ex_mix_buffer a bs = \<lparr>sb_id = of_nat a, sb_metas = [],
     sb_datas = [\<lparr>sd_type = 10, sd_maxsize = of_nat (length bs), sd_mem = Some bs, sd_chunk = \<lparr>ck_offset = 0, ck_size = of_nat (length bs), ck_stride = 0\<rparr>\<rparr>]\<rparr>"

definition ex_mix_mem :: buffer_store where
  "ex_mix_mem = (\<lambda>a. ex_mix_buffer a (if a = 1 then [1, 0, 2, 0] else if a = 2 then [3, 0, 255, 127] else [0, 0, 0, 0, 0, 0]))"

definition ex_mix_port :: "nat \<Rightarrow> bool \<Rightarrow> u64 \<Rightarrow> mixer_port" where
  "ex_mix_port a out queued = \<lparr>mp_io = Some \<lparr>io_status = SPA_RESULT_OK, io_buffer_id = SPA_ID_INVALID, io_min_size = 0, io_max_size = 0\<rparr>,
     mp_have_format = True, mp_buffers = [\<lparr>mb_outbuf = a, mb_outstanding = out, mb_h = None\<rparr>], mp_n_buffers = 1, mp_queue = Some [0],
     mp_queued_offset = 0, mp_queued_bytes = queued\<rparr>"

definition ex_mixer :: mixer where
  "ex_mixer = \<lparr>mx_type = ex_mix_types, mx_port_count = 2, mx_port_queued = 0,
     mx_in = (replicate MAX_PORTS mix_new_port)[0 := ex_mix_port 1 False 4, 1 := ex_mix_port 2 False 4],
     mx_out = ex_mix_port 7 False 0, mx_format = zero_audio_raw, mx_started = True, mx_mem = ex_mix_mem\<rparr>"

lemma ex_mixer_in: "i < MAX_PORTS \<Longrightarrow> mx_in ex_mixer ! i = (if i = 1 then ex_mix_port 2 False 4 else if i = 0 then ex_mix_port 1 False 4 else mix_new_port)"
  by (simp add: ex_mixer_def nth_list_update)

lemma ex_active_ports: "active_ports ex_mixer = [0, 1]"
proof -
  have "[0..<MAX_PORTS] = 0 # 1 # [2..<MAX_PORTS]" by (simp add: MAX_PORTS_def upt_conv_Cons numeral_2_eq_2)
  moreover have "filter (\<lambda>i. port_active (mx_in ex_mixer ! i)) [2..<MAX_PORTS] = []"
    by (auto simp: filter_empty_conv ex_mixer_in port_active_def mix_new_port_def)
  ultimately show ?thesis by (simp add: active_ports_def ex_mixer_in port_active_def ex_mix_port_def MAX_PORTS_def)
qed

lemma ex_mix_ready: "mix_ready ex_mixer (\<lambda>i. if i = 0 then [1, 0, 2, 0] else [3, 0, 255, 127])"
proof -
  have act: "port_active (mx_in ex_mixer ! i) \<longleftrightarrow> i = 0 \<or> i = 1" if "i < MAX_PORTS" for i
    using that by (simp add: ex_mixer_in port_active_def ex_mix_port_def mix_new_port_def)
  have len: "length (mx_in ex_mixer) = MAX_PORTS" by (simp add: ex_mixer_def)
  have "0 < MAX_PORTS" "1 < MAX_PORTS" by (simp_all add: MAX_PORTS_def)
  then show ?thesis unfolding mix_ready_def using act len
    by (auto simp: ex_mixer_in port_loaded_def ex_mix_port_def ex_mixer_def ex_mix_mem_def ex_mix_buffer_def data_block_def mem_read_def)
qed

lemma ex_least: "mix_least_queued ex_mixer = 4"
  using ex_mix_ready by (subst mix_least_eq) (auto simp: ex_active_ports mix_ready_def ex_mixer_in MAX_PORTS_def ex_mix_port_def)

definition ex_mix_io :: spa_port_io where
  "ex_mix_io = \<lparr>io_status = SPA_RESULT_OK, io_buffer_id = SPA_ID_INVALID, io_min_size = 0, io_max_size = 0\<rparr>"

definition ex_mix_data :: spa_data where
  "ex_mix_data = \<lparr>sd_type = 10, sd_maxsize = 6, sd_mem = Some [0, 0, 0, 0, 0, 0], sd_chunk = \<lparr>ck_offset = 0, ck_size = 6, ck_stride = 0\<rparr>\<rparr>"

lemma ex_mixer_out:
  "mp_io (mx_out ex_mixer) = Some ex_mix_io" "mp_queue (mx_out ex_mixer) = Some [0]" "7 = mb_outbuf (mp_buffers (mx_out ex_mixer) ! 0)"
  "sb_datas (mx_mem ex_mixer 7) = [ex_mix_data]"
  by (simp_all add: ex_mixer_def ex_mix_port_def ex_mix_mem_def ex_mix_buffer_def ex_mix_data_def ex_mix_io_def)

lemma ex_mix_io_simps: "io_status ex_mix_io \<noteq> SPA_RESULT_HAVE_BUFFER" "io_buffer_id ex_mix_io = SPA_ID_INVALID"
  by (simp_all add: ex_mix_io_def)

lemma ex_mix_data_simps: "sd_mem ex_mix_data = Some [0, 0, 0, 0, 0, 0]" "unat (sd_maxsize ex_mix_data) \<le> length [0, 0, 0, 0, 0, 0 :: byte]"
  "even (unat (sd_maxsize ex_mix_data))" "ucast (sd_maxsize ex_mix_data) = (6 :: u64)"
  by (simp_all add: ex_mix_data_def)

theorem audiomixer_mixes_witness:
  "\<exists>s'. spa_audiomixer_node_process_output ex_mixer = Some (SPA_RESULT_HAVE_BUFFER, s') \<and>
     data_read (mx_mem s') (7, 0, 0) 6 = Some [4, 0, 255, 127, 0, 0] \<and> mp_queued_bytes (mx_in s' ! 1) = 0"
proof -
  have n: "(4 :: u64) = min (mix_least_queued ex_mixer) (ucast (sd_maxsize ex_mix_data))" by (simp add: ex_least ex_mix_data_simps)
  obtain s' mixed where r: "spa_audiomixer_node_process_output ex_mixer = Some (SPA_RESULT_HAVE_BUFFER, s')"
    and len: "length mixed = unat (4 :: u64)"
    and sam: "samples_of mixed = mixed_samples (map (\<lambda>i. samples_of (take (unat (4 :: u64)) (if i = 0 then [1, 0, 2, 0] else [3, 0, 255, 127])))
      (active_ports ex_mixer))"
    and m: "mx_mem s' = (mx_mem ex_mixer)(7 := (mx_mem ex_mixer 7)\<lparr>sb_datas := [ex_mix_data\<lparr>sd_chunk := chunk_of 4,
      sd_mem := Some (mixed @ drop (unat (4 :: u64)) [0, 0, 0, 0, 0, 0])\<rparr>]\<rparr>)"
    and q: "\<forall>i \<in> set (active_ports ex_mixer). mp_queued_bytes (mx_in s' ! i) = mp_queued_bytes (mx_in ex_mixer ! i) - 4"
    using audiomixer_mixes [OF ex_mix_ready ex_mixer_out(1) ex_mix_io_simps ex_mixer_out(2-4) ex_mix_data_simps(1-3) n] by blast
  have "samples_of mixed = samples_of [4, 0, 255, 127]"
    unfolding sam ex_active_ports by (simp add: mixed_samples_def limited_def rd16_def)
  then have l: "mixed = [4, 0, 255, 127]" using len by (intro samples_of_inject) simp_all
  have "data_read (mx_mem s') (7, 0, 0) 6 = Some [4, 0, 255, 127, 0, 0]"
    unfolding m l by (simp add: data_block_def mem_read_def)
  moreover have "mp_queued_bytes (mx_in s' ! 1) = 0" using q by (simp add: ex_active_ports ex_mixer_in MAX_PORTS_def ex_mix_port_def)
  ultimately show ?thesis using r by blast
qed

definition ex_mixer_stale :: mixer where
  "ex_mixer_stale = ex_mixer\<lparr>mx_in := (replicate MAX_PORTS mix_new_port)[0 := ex_mix_port 1 False 4]\<rparr>"

definition ex_mix_format :: spa_format where
  "ex_mix_format = \<lparr>fmt_type = 1, fmt_media_type = 2, fmt_media_subtype = 3, fmt_props = []\<rparr>"

theorem audiomixer_stale_count_witness:
  "\<exists>s1 s2 s3 s4. spa_audiomixer_node_port_set_format Dir_input 0 None ex_mixer_stale = Some (SPA_RESULT_OK, s1) \<and>
    spa_audiomixer_node_port_set_format Dir_input 0 (Some ex_mix_format) s1 = Some (SPA_RESULT_OK, s2) \<and>
    spa_audiomixer_node_port_use_buffers Dir_input 0 [1] s2 = Some (SPA_RESULT_OK, s3) \<and>
    spa_audiomixer_node_process_output s3 = Some (SPA_RESULT_HAVE_BUFFER, s4) \<and>
    data_read (mx_mem s4) (7, 0, 0) 6 = Some [0, 0, 0, 0, 0, 0] \<and> ck_size (sd_chunk (hd (sb_datas (mx_mem s4 7)))) = 4"
proof -
  have i0: "mx_in ex_mixer_stale ! 0 = ex_mix_port 1 False 4" and len: "length (mx_in ex_mixer_stale) = MAX_PORTS"
    and pos: "0 < MAX_PORTS" by (simp_all add: ex_mixer_stale_def MAX_PORTS_def)
  have others: "mp_io (mx_in ex_mixer_stale ! i) = None" if "i < MAX_PORTS" "i \<noteq> unat (0 :: u32)" for i
    using that by (simp add: ex_mixer_stale_def nth_list_update mix_new_port_def)
  obtain s1 where f1: "spa_audiomixer_node_port_set_format Dir_input 0 None ex_mixer_stale = Some (SPA_RESULT_OK, s1)"
    by (simp add: spa_audiomixer_node_port_set_format_def mix_check_port_def mix_check_in_port_def i0 pos ex_mix_port_def Let_def)
  have l0: "unat (0 :: u32) < length (mx_in ex_mixer_stale)" using len pos by simp
  note q1 = set_format_input [OF f1 l0]
  have t0: "mx_type ex_mixer_stale = ex_mix_types" by (simp add: ex_mixer_stale_def ex_mixer_def)
  have "\<exists>s2. spa_audiomixer_node_port_set_format Dir_input 0 (Some ex_mix_format) s1 = Some (SPA_RESULT_OK, s2)"
    using q1(5,10) t0 i0 pos
    by (simp add: spa_audiomixer_node_port_set_format_def [of _ _ "Some _"] mix_check_port_def mix_check_in_port_def ex_mix_port_def
      Let_def ex_mix_format_def ex_mix_types_def spa_format_audio_raw_parse_def spa_format_query_word_def)
  then obtain s2 where f2: "spa_audiomixer_node_port_set_format Dir_input 0 (Some ex_mix_format) s1 = Some (SPA_RESULT_OK, s2)" by blast
  have l1: "unat (0 :: u32) < length (mx_in s1)" using l0 q1(3) by simp
  note q2 = set_format_input [OF f2 l1]
  have m2: "mx_mem s2 = ex_mix_mem" using q1(2) q2(2) by (simp add: ex_mixer_stale_def ex_mixer_def)
  have io2: "\<exists>io. mp_io (mx_in s2 ! 0) = Some io" using q2(5,8) by simp
  have t2: "mx_type s2 = ex_mix_types" and f: "mp_have_format (mx_in s2 ! 0)" using q2(9,10) q1(10) t0 by simp_all
  have "\<exists>s3. spa_audiomixer_node_port_use_buffers Dir_input 0 [1] s = Some (SPA_RESULT_OK, s3)"
    if "mx_mem s = ex_mix_mem" "\<exists>io. mp_io (mx_in s ! 0) = Some io" "mx_type s = ex_mix_types" "mp_have_format (mx_in s ! 0)" for s
    using that pos
    by (auto simp: spa_audiomixer_node_port_use_buffers_def mix_check_port_def mix_check_in_port_def mix_port_of_def Let_def MIX_MAX_BUFFERS_def
      ex_mix_mem_def ex_mix_buffer_def ex_mix_types_def)
  from this [OF m2 io2 t2 f]
  obtain s3 where u: "spa_audiomixer_node_port_use_buffers Dir_input 0 [1] s2 = Some (SPA_RESULT_OK, s3)" by blast
  have p0: "unat (0 :: u32) < MAX_PORTS" "mp_queued_bytes (mx_in ex_mixer_stale ! unat (0 :: u32)) = 4" "0 < mp_n_buffers (mx_in ex_mixer_stale ! unat (0 :: u32))"
    using i0 pos by (simp_all add: ex_mix_port_def)
  have out: "mx_out ex_mixer_stale = mx_out ex_mixer" "mx_mem ex_mixer_stale = mx_mem ex_mixer" by (simp_all add: ex_mixer_stale_def)
  note o = ex_mixer_out [folded out]
  have four: "0 < (4 :: u64)" "(4 :: u64) \<noteq> - 1" "(of_nat (length [1 :: nat]) :: u32) \<noteq> 0" by simp_all
  obtain s4 where r: "spa_audiomixer_node_process_output s3 = Some (SPA_RESULT_HAVE_BUFFER, s4)"
    and m: "mx_mem s4 = (mx_mem ex_mixer_stale)(7 := (mx_mem ex_mixer_stale 7)\<lparr>sb_datas := [ex_mix_data\<lparr>sd_chunk :=
      chunk_of (min 4 (ucast (sd_maxsize ex_mix_data)))\<rparr>]\<rparr>)"
    using audiomixer_stale_count [OF p0(1) len others p0(2) four(1,2) p0(3) f1 f2 u four(3) o(1) ex_mix_io_simps o(2-4)] by blast
  have "data_read (mx_mem s4) (7, 0, 0) 6 = Some [0, 0, 0, 0, 0, 0] \<and> ck_size (sd_chunk (hd (sb_datas (mx_mem s4 7)))) = 4"
    unfolding m ex_mix_data_simps by (simp add: data_block_def mem_read_def ex_mix_data_simps chunk_of_def)
  then show ?thesis using f1 f2 u r by blast
qed

end
