(* ===== verification/Pinos_Link_Alloc.thy ===== *)
theory Pinos_Link_Alloc
  imports Spa_Node "HOL-Library.Monad_Syntax"
begin

text \<open>
  The buffers of a link, \<^verbatim>\<open>alloc_buffers\<close> and the negotiation of their number and size in
  \<^verbatim>\<open>do_allocation\<close> of \<^verbatim>\<open>pinos/server/link.c\<close>: one block of shared memory that holds, buffer after
  buffer, the metadata, the chunk headers and the data. Offsets in the block are the C \<^verbatim>\<open>size_t\<close>; what is stored in
  32-bit fields is truncated. Writing behind an array, and using a variable that was not set, is \<open>None\<close>.
\<close>

section \<open>Parameters of a port\<close>

record alloc_param =
  ap_pod_type :: u32
  ap_object_type :: u32
  ap_props :: "pod_entry list"

record link_types =
  lt_MetaEnable :: u32
  lt_me_type :: u32
  lt_me_size :: u32
  lt_ringbufferSize :: u32
  lt_ringbufferStride :: u32
  lt_Buffers :: u32
  lt_size :: u32
  lt_stride :: u32
  lt_buffers :: u32
  lt_Shared :: u32
  lt_Ringbuffer :: u32
  lt_MemFd :: u32

definition spa_pod_is_object_type :: "alloc_param \<Rightarrow> u32 \<Rightarrow> bool" where
  "spa_pod_is_object_type ap t \<longleftrightarrow> ap_pod_type ap = SPA_POD_TYPE_OBJECT \<and> ap_object_type ap = t"

text \<open>One key of \<^verbatim>\<open>spa_alloc_param_query\<close>: the value, when it is counted as found. A value of another type than the one asked for
  leaves the pointer argument of its key unread, so that the query goes on with that pointer as the next key, which is undefined;
  this is the outer \<open>None\<close>.\<close>

definition alloc_param_query :: "alloc_param \<Rightarrow> u32 \<Rightarrow> u32 \<Rightarrow> u32 option option" where
  "alloc_param_query ap key t =
     (case find_prop (ap_props ap) key of
        None \<Rightarrow> Some None
      | Some p \<Rightarrow>
          if prop_unset p then Some None
          else if sp_type p = t \<or> sp_type p = - t
               then (case sp_values p of Pv_word w # _ \<Rightarrow> Some (Some w) | _ \<Rightarrow> None)
               else None)"

definition query_or :: "alloc_param \<Rightarrow> u32 \<Rightarrow> u32 \<Rightarrow> u32 option" where
  "query_or ap key old = map_option (\<lambda>v. case v of None \<Rightarrow> old | Some w \<Rightarrow> w) (alloc_param_query ap key SPA_POD_TYPE_INT)"

definition find_param :: "alloc_param list \<Rightarrow> u32 \<Rightarrow> alloc_param option" where
  "find_param params t = find (\<lambda>ap. spa_pod_is_object_type ap t) params"

fun find_meta_enable :: "link_types \<Rightarrow> alloc_param list \<Rightarrow> u32 \<Rightarrow> alloc_param option option" where
  "find_meta_enable lt [] t = Some None"
| "find_meta_enable lt (ap # aps) t =
     (if spa_pod_is_object_type ap (lt_MetaEnable lt)
      then do {
        qtype \<leftarrow> alloc_param_query ap (lt_me_type lt) SPA_POD_TYPE_ID;
        if qtype = Some t then Some (Some ap) else find_meta_enable lt aps t }
      else find_meta_enable lt aps t)"

section \<open>Number and size of the buffers\<close>

definition LINK_MAX_BUFFERS :: u32 where "LINK_MAX_BUFFERS = 16"

record alloc_request =
  rq_max_buffers :: u32
  rq_minsize :: u64
  rq_stride :: u64

text \<open>The block after \<^verbatim>\<open>find_param\<close>, the same for both ports; the 64-bit sizes pass through 32-bit variables.\<close>

definition apply_buffers_param :: "link_types \<Rightarrow> alloc_param \<Rightarrow> alloc_request \<Rightarrow> alloc_request option" where
  "apply_buffers_param lt ap rq = do {
     qminsize \<leftarrow> query_or ap (lt_size lt) (ucast (rq_minsize rq));
     qstride \<leftarrow> query_or ap (lt_stride lt) (ucast (rq_stride rq));
     qmax_buffers \<leftarrow> query_or ap (lt_buffers lt) (rq_max_buffers rq);
     Some \<lparr>rq_max_buffers = (if qmax_buffers = 0 then rq_max_buffers rq else min qmax_buffers (rq_max_buffers rq)),
       rq_minsize = max (rq_minsize rq) (ucast qminsize), rq_stride = max (rq_stride rq) (ucast qstride)\<rparr> }"

definition buffers_param_or :: "link_types \<Rightarrow> alloc_param list \<Rightarrow> alloc_request \<Rightarrow> alloc_request option" where
  "buffers_param_or lt params rq = (case find_param params (lt_Buffers lt) of None \<Rightarrow> Some rq | Some ap \<Rightarrow> apply_buffers_param lt ap rq)"

text \<open>Both queries of the ring buffer branch read the parameter of the input port.\<close>

definition ring_request :: "link_types \<Rightarrow> alloc_param \<Rightarrow> alloc_param \<Rightarrow> alloc_request option" where
  "ring_request lt in_me out_me = do {
     ms1 \<leftarrow> alloc_param_query in_me (lt_ringbufferSize lt) SPA_POD_TYPE_INT;
     s1 \<leftarrow> alloc_param_query in_me (lt_ringbufferStride lt) SPA_POD_TYPE_INT;
     ms2 \<leftarrow> alloc_param_query in_me (lt_ringbufferSize lt) SPA_POD_TYPE_INT;
     s2 \<leftarrow> alloc_param_query in_me (lt_ringbufferStride lt) SPA_POD_TYPE_INT;
     (case (ms1, s1, ms2, s2) of
        (Some a, Some b, Some c, Some d) \<Rightarrow> Some \<lparr>rq_max_buffers = 1, rq_minsize = ucast (max a c), rq_stride = ucast (max b d)\<rparr>
      | _ \<Rightarrow> Some \<lparr>rq_max_buffers = 1, rq_minsize = 1024, rq_stride = 0\<rparr>) }"

definition negotiate_request :: "link_types \<Rightarrow> alloc_param list \<Rightarrow> alloc_param list \<Rightarrow> alloc_request option" where
  "negotiate_request lt iparams oparams = do {
     in_me \<leftarrow> find_meta_enable lt iparams (lt_Ringbuffer lt);
     out_me \<leftarrow> find_meta_enable lt oparams (lt_Ringbuffer lt);
     (case (in_me, out_me) of
        (Some i, Some out) \<Rightarrow> ring_request lt i out
      | _ \<Rightarrow> do {
          rq \<leftarrow> buffers_param_or lt iparams \<lparr>rq_max_buffers = LINK_MAX_BUFFERS, rq_minsize = 0, rq_stride = 0\<rparr>;
          buffers_param_or lt oparams rq }) }"

section \<open>Layout\<close>

definition sizeof_SpaMetaShared :: u64 where "sizeof_SpaMetaShared = 16"
definition sizeof_SpaChunk :: u64 where "sizeof_SpaChunk = 12"
definition sizeof_SpaMeta :: u64 where "sizeof_SpaMeta = 24"

lemma sizeof_bytes: "unat sizeof_SpaMetaShared = 16" "unat sizeof_SpaChunk = 12" "unat sizeof_SpaMeta = 24"
  by (simp_all add: sizeof_SpaMetaShared_def sizeof_SpaChunk_def sizeof_SpaMeta_def)

record meta_desc =
  md_type :: u32
  md_size :: u32

record link_meta =
  lm_type :: u32
  lm_data :: u64
  lm_size :: u32

record meta_shared =
  msh_offset :: u32
  msh_size :: u32

record link_data =
  ld_type :: u32
  ld_mapoffset :: u32
  ld_maxsize :: u32
  ld_data :: "u64 option"
  ld_chunk :: u64
  ld_chunk_value :: "spa_chunk option"

record link_buffer =
  lb_id :: u32
  lb_metas :: "link_meta list"
  lb_shared :: "meta_shared list"
  lb_rings :: "spa_ringbuffer list"
  lb_datas :: "link_data list"

text \<open>The array \<^verbatim>\<open>metas\<close> has \<open>sizeof (SpaMeta) * n_params + 1\<close> bytes.\<close>

definition push_meta :: "nat \<Rightarrow> meta_desc \<Rightarrow> meta_desc list \<Rightarrow> meta_desc list option" where
  "push_meta n_params d ms =
     (if unat sizeof_SpaMeta * (length ms + 1) \<le> unat sizeof_SpaMeta * n_params + 1 then Some (ms @ [d]) else None)"

text \<open>The query asks for two values and goes on when their number is not one: then one of them was not set.\<close>

fun collect_metas :: "link_types \<Rightarrow> nat \<Rightarrow> alloc_param list \<Rightarrow> meta_desc list \<Rightarrow> meta_desc list option" where
  "collect_metas lt n_params [] ms = Some ms"
| "collect_metas lt n_params (ap # aps) ms =
     (if ap_pod_type ap = lt_MetaEnable lt
      then do {
        t \<leftarrow> alloc_param_query ap (lt_me_type lt) SPA_POD_TYPE_ID;
        sz \<leftarrow> alloc_param_query ap (lt_me_size lt) SPA_POD_TYPE_INT;
        if (t = None) = (sz = None) then collect_metas lt n_params aps ms else None }
      else collect_metas lt n_params aps ms)"

definition alloc_metas :: "link_types \<Rightarrow> alloc_param list \<Rightarrow> meta_desc list option" where
  "alloc_metas lt params = do {
     ms \<leftarrow> push_meta (length params) \<lparr>md_type = lt_Shared lt, md_size = ucast sizeof_SpaMetaShared\<rparr> [];
     collect_metas lt (length params) params ms }"

definition metas_size :: "meta_desc list \<Rightarrow> u64" where
  "metas_size ms = (\<Sum>d\<leftarrow>ms. ucast (md_size d))"

definition buffer_data_size :: "meta_desc list \<Rightarrow> u64 list \<Rightarrow> u64" where
  "buffer_data_size ms sizes = metas_size ms + (\<Sum>sz\<leftarrow>sizes. sizeof_SpaChunk + sz)"

text \<open>The metadata of one buffer; \<open>p\<close> runs over the block.\<close>

fun place_metas :: "u64 \<Rightarrow> meta_desc list \<Rightarrow> link_meta list \<times> u64" where
  "place_metas p [] = ([], p)"
| "place_metas p (d # ds) =
     (case place_metas (p + ucast (md_size d)) ds of
        (ms, p') \<Rightarrow> (\<lparr>lm_type = md_type d, lm_data = p, lm_size = md_size d\<rparr> # ms, p'))"

text \<open>The data blocks of one buffer, the chunk headers before them.\<close>

fun place_datas :: "link_types \<Rightarrow> u64 \<Rightarrow> u64 \<Rightarrow> (u64 \<times> u64) list \<Rightarrow> link_data list" where
  "place_datas lt cdp ddp [] = []"
| "place_datas lt cdp ddp ((sz, stride) # rest) =
     (if sz > 0
      then \<lparr>ld_type = lt_MemFd lt, ld_mapoffset = ucast ddp, ld_maxsize = ucast sz, ld_data = Some (ucast (ucast ddp :: u32)),
             ld_chunk = cdp, ld_chunk_value = Some \<lparr>ck_offset = 0, ck_size = ucast sz, ck_stride = ucast stride\<rparr>\<rparr>
           # place_datas lt (cdp + sizeof_SpaChunk) (ddp + sz) rest
      else \<lparr>ld_type = SPA_ID_INVALID, ld_mapoffset = 0, ld_maxsize = 0, ld_data = None, ld_chunk = cdp, ld_chunk_value = None\<rparr>
           # place_datas lt (cdp + sizeof_SpaChunk) ddp rest)"

text \<open>New shared memory is zero. A ring buffer whose size is not a power of two keeps that.\<close>

definition fresh_ringbuffer :: spa_ringbuffer where
  "fresh_ringbuffer = \<lparr>readindex = 0, writeindex = 0, rb_size = 0, rb_mask = 0\<rparr>"

definition place_buffer :: "link_types \<Rightarrow> meta_desc list \<Rightarrow> (u64 \<times> u64) list \<Rightarrow> u64 \<Rightarrow> u32 \<Rightarrow> link_buffer" where
  "place_buffer lt metas datas data_size i =
     (let p0 = data_size * ucast i in
      case place_metas p0 metas of
        (ms, p) \<Rightarrow>
          \<lparr>lb_id = i, lb_metas = ms,
           lb_shared = [\<lparr>msh_offset = ucast (data_size * ucast i), msh_size = ucast data_size\<rparr>. m \<leftarrow> ms, lm_type m = lt_Shared lt],
           lb_rings = [snd (spa_ringbuffer_init fresh_ringbuffer (ucast (fst (hd datas)))). m \<leftarrow> ms, lm_type m \<noteq> lt_Shared lt \<and> lm_type m = lt_Ringbuffer lt],
           lb_datas = place_datas lt p (p + sizeof_SpaChunk * of_nat (length datas)) datas\<rparr>)"

text \<open>The result of \<^verbatim>\<open>pinos_memblock_alloc\<close> is not looked at; without memory the writes that follow are undefined.\<close>

definition alloc_buffers :: "bool \<Rightarrow> link_types \<Rightarrow> u32 \<Rightarrow> alloc_param list \<Rightarrow> (u64 \<times> u64) list \<Rightarrow> (link_buffer list \<times> u64) option" where
  "alloc_buffers mem_ok lt n_buffers params datas = do {
     metas \<leftarrow> alloc_metas lt params;
     let data_size = buffer_data_size metas (map fst datas);
     if \<not> mem_ok \<and> n_buffers \<noteq> 0 then None
     else Some (map (place_buffer lt metas datas data_size) (map of_nat [0..<unat n_buffers]), ucast n_buffers * data_size) }"


section \<open>The request\<close>

lemma buffers_param_or_bounds:
  assumes "buffers_param_or lt params rq = Some rq'"
  shows "rq_max_buffers rq' \<le> rq_max_buffers rq" and "rq_minsize rq \<le> rq_minsize rq'" and "rq_stride rq \<le> rq_stride rq'"
    and "0 < rq_max_buffers rq \<Longrightarrow> 0 < rq_max_buffers rq'"
    and "find_param params (lt_Buffers lt) = Some ap \<Longrightarrow> alloc_param_query ap (lt_size lt) SPA_POD_TYPE_INT = Some (Some w) \<Longrightarrow>
      ucast w \<le> rq_minsize rq'"
    and "find_param params (lt_Buffers lt) = Some ap \<Longrightarrow> alloc_param_query ap (lt_buffers lt) SPA_POD_TYPE_INT = Some (Some w) \<Longrightarrow>
      w \<noteq> 0 \<Longrightarrow> rq_max_buffers rq' \<le> w"
  using assms by (auto simp: buffers_param_or_def apply_buffers_param_def query_or_def min_def word_gt_0 split: option.splits bind_splits if_splits)

section \<open>The layout tiles the block\<close>

text \<open>Regions that follow each other without gaps from \<open>a\<close> to \<open>b\<close>.\<close>

fun tiles :: "nat \<Rightarrow> (nat \<times> nat) list \<Rightarrow> nat \<Rightarrow> bool" where
  "tiles a [] b \<longleftrightarrow> a = b"
| "tiles a ((x, n) # rs) b \<longleftrightarrow> x = a \<and> tiles (a + n) rs b"

lemma tiles_append: "tiles a (xs @ ys) c \<longleftrightarrow> (\<exists>b. tiles a xs b \<and> tiles b ys c)"
  by (induction xs arbitrary: a) auto

lemma tiles_appendI: "tiles a xs b \<Longrightarrow> tiles b ys c \<Longrightarrow> tiles a (xs @ ys) c"
  by (auto simp: tiles_append)

lemma tiles_bounds: "tiles a rs b \<Longrightarrow> a \<le> b \<and> (\<forall>(x, n) \<in> set rs. a \<le> x \<and> x + n \<le> b)"
  by (induction a rs b rule: tiles.induct) force+

lemma tiles_disjoint:
  assumes "tiles a rs b" and "i < j" and "j < length rs"
  shows "fst (rs ! i) + snd (rs ! i) \<le> fst (rs ! j)"
  using assms
proof (induction a rs b arbitrary: i j rule: tiles.induct)
  case (2 a x n rs b)
  obtain k where j: "j = Suc k" using 2(3) by (cases j) auto
  show ?case
  proof (cases i)
    case 0
    have "rs ! k \<in> set rs" using 2(4) j by simp
    moreover obtain y m where "rs ! k = (y, m)" by fastforce
    ultimately have "a + n \<le> fst (rs ! k)" using tiles_bounds [of "a + n" rs b] 2(2) by auto
    then show ?thesis using 0 j 2(2) by simp
  next
    case (Suc i')
    then show ?thesis using 2 j by simp
  qed
qed simp

definition meta_region :: "link_meta \<Rightarrow> nat \<times> nat" where
  "meta_region m = (unat (lm_data m), unat (lm_size m))"

definition chunk_region :: "link_data \<Rightarrow> nat \<times> nat" where
  "chunk_region d = (unat (ld_chunk d), unat sizeof_SpaChunk)"

definition data_regions :: "link_data \<Rightarrow> (nat \<times> nat) list" where
  "data_regions d = (case ld_data d of None \<Rightarrow> [] | Some off \<Rightarrow> [(unat off, unat (ld_maxsize d))])"

definition buffer_regions :: "link_buffer \<Rightarrow> (nat \<times> nat) list" where
  "buffer_regions b = map meta_region (lb_metas b) @ map chunk_region (lb_datas b) @ concat (map data_regions (lb_datas b))"

definition data_bytes :: "(u64 \<times> u64) list \<Rightarrow> nat" where
  "data_bytes datas = sum_list (map (unat \<circ> fst) datas)"

lemma unat_add_u64: "unat (a :: u64) + unat b < 2 ^ 64 \<Longrightarrow> unat (a + b) = unat a + unat b"
  using unat_add_lem [of a b] by simp

lemma unat_scast_small: "unat (w :: u64) < 2 ^ 32 \<Longrightarrow> unat (ucast w :: u32) = unat w"
  by (simp add: unsigned_ucast_eq take_bit_nat_eq_self)

lemma place_chunks_tile:
  "unat cdp + 12 * length datas < 2 ^ 64 \<Longrightarrow>
   tiles (unat cdp) (map chunk_region (place_datas lt cdp ddp datas)) (unat cdp + 12 * length datas)"
proof (induction lt cdp ddp datas rule: place_datas.induct)
  case (2 lt cdp ddp sz stride rest)
  have "unat (cdp + sizeof_SpaChunk) = unat cdp + 12"
    using 2(3) by (subst unat_add_u64) (simp_all add: sizeof_bytes)
  then show ?case using 2 by (cases "sz > 0") (simp_all add: chunk_region_def sizeof_bytes add.assoc)
qed simp

lemma place_datas_tile:
  "unat ddp + data_bytes datas < 2 ^ 32 \<Longrightarrow>
   tiles (unat ddp) (concat (map data_regions (place_datas lt cdp ddp datas))) (unat ddp + data_bytes datas)"
proof (induction lt cdp ddp datas rule: place_datas.induct)
  case (2 lt cdp ddp sz stride rest)
  have b: "data_bytes ((sz, stride) # rest) = unat sz + data_bytes rest" by (simp add: data_bytes_def)
  have u: "unat (ucast ddp :: u32) = unat ddp" "unat (ucast sz :: u32) = unat sz" using 2(3) b by (simp_all add: unat_scast_small)
  have a: "unat (ddp + sz) = unat ddp + unat sz" using 2(3) b by (subst unat_add_u64) simp_all
  show ?case
  proof (cases "sz > 0")
    case True
    then show ?thesis using 2(1) 2(3) b u a by (simp add: data_regions_def unat_ucast_u64 add.assoc)
  next
    case False
    then show ?thesis using 2(2) 2(3) b by (simp add: data_regions_def word_gt_0)
  qed
qed (simp add: data_bytes_def)


text \<open>Whenever \<^verbatim>\<open>alloc_buffers\<close> returns, the only metadata is the description of the shared memory.\<close>

lemma collect_metas_same: "collect_metas lt n aps ms = Some ms' \<Longrightarrow> ms' = ms"
  by (induction lt n aps ms rule: collect_metas.induct) (auto split: if_splits bind_splits)

lemma alloc_metas_shared:
  "alloc_metas lt params = Some ms \<Longrightarrow> ms = [\<lparr>md_type = lt_Shared lt, md_size = ucast sizeof_SpaMetaShared\<rparr>]"
  by (auto simp: alloc_metas_def push_meta_def split: if_splits dest!: collect_metas_same)

lemma alloc_metas_no_params: "alloc_metas lt [] = None"
  by (simp add: alloc_metas_def push_meta_def sizeof_bytes)

lemma alloc_metas_object_params:
  "params \<noteq> [] \<Longrightarrow> \<forall>ap \<in> set params. ap_pod_type ap \<noteq> lt_MetaEnable lt \<Longrightarrow>
   alloc_metas lt params = Some [\<lparr>md_type = lt_Shared lt, md_size = ucast sizeof_SpaMetaShared\<rparr>]"
proof -
  have c: "\<forall>ap \<in> set aps. ap_pod_type ap \<noteq> lt_MetaEnable lt \<Longrightarrow> collect_metas lt n aps ms = Some ms" for aps n ms
    by (induction lt n aps ms rule: collect_metas.induct) auto
  assume "params \<noteq> []" and "\<forall>ap \<in> set params. ap_pod_type ap \<noteq> lt_MetaEnable lt"
  then show ?thesis by (cases params) (simp_all add: alloc_metas_def push_meta_def sizeof_bytes c del: collect_metas.simps)
qed

lemma buffer_data_size_bytes:
  assumes "16 + 12 * length datas + data_bytes datas < 2 ^ 64"
  shows "unat (buffer_data_size [\<lparr>md_type = t, md_size = ucast sizeof_SpaMetaShared\<rparr>] (map fst datas)) =
    16 + 12 * length datas + data_bytes datas"
proof -
  have "12 * length datas + data_bytes datas < 2 ^ 64 \<Longrightarrow>
    unat (\<Sum>sz\<leftarrow>map fst datas. sizeof_SpaChunk + sz) = 12 * length datas + data_bytes datas"
  proof (induction datas)
    case (Cons d ds)
    have l: "12 + unat (fst d) + (12 * length ds + data_bytes ds) < 2 ^ 64" using Cons.prems by (simp add: data_bytes_def)
    have "unat (sizeof_SpaChunk + fst d) = 12 + unat (fst d)" using l by (subst unat_add_u64) (simp_all add: sizeof_bytes)
    then show ?case using Cons.IH l by (simp add: unat_add_u64 data_bytes_def)
  qed (simp add: data_bytes_def)
  moreover have "unat (ucast (ucast sizeof_SpaMetaShared :: u32) :: u64) = 16" by (simp add: sizeof_SpaMetaShared_def)
  ultimately show ?thesis using assms by (simp add: buffer_data_size_def metas_size_def unat_add_u64)
qed


lemma place_buffer_tile:
  assumes bound: "unat i * d + d < 2 ^ 32" and d: "d = 16 + 12 * length datas + data_bytes datas" and u: "unat ds = d"
  shows "tiles (unat i * d) (buffer_regions (place_buffer lt [\<lparr>md_type = lt_Shared lt, md_size = ucast sizeof_SpaMetaShared\<rparr>] datas ds i))
    (unat i * d + d)"
proof -
  let ?p0 = "ds * ucast i :: u64"
  have p0: "unat ?p0 = unat i * d"
    using bound u by (simp add: unat_word_ariths(2) unat_ucast_u64 mult.commute)
  have m: "unat (ucast (ucast sizeof_SpaMetaShared :: u32) :: u64) = 16" "unat (ucast sizeof_SpaMetaShared :: u32) = 16"
    by (simp_all add: sizeof_SpaMetaShared_def)
  let ?p = "?p0 + ucast (ucast sizeof_SpaMetaShared :: u32)"
  have p: "unat ?p = unat i * d + 16" using p0 bound d by (subst unat_add_u64) (simp_all add: m)
  have len: "12 * length datas < 2 ^ 64" using bound d by simp
  have l: "unat (of_nat (length datas) :: u64) = length datas" using len by (simp add: unsigned_of_nat take_bit_nat_eq_self)
  have c: "unat (sizeof_SpaChunk * of_nat (length datas)) = 12 * length datas"
    using len l by (simp add: unat_word_ariths(2) sizeof_bytes)
  have q: "unat (?p + sizeof_SpaChunk * of_nat (length datas)) = unat i * d + 16 + 12 * length datas"
    using p c bound d by (subst unat_add_u64) simp_all
  have "tiles (unat ?p) (map chunk_region (place_datas lt ?p (?p + sizeof_SpaChunk * of_nat (length datas)) datas)) (unat ?p + 12 * length datas)"
    using p bound d by (intro place_chunks_tile) simp
  moreover have "tiles (unat (?p + sizeof_SpaChunk * of_nat (length datas)))
      (concat (map data_regions (place_datas lt ?p (?p + sizeof_SpaChunk * of_nat (length datas)) datas)))
      (unat (?p + sizeof_SpaChunk * of_nat (length datas)) + data_bytes datas)"
    using q bound d by (intro place_datas_tile) simp
  ultimately show ?thesis
    using p0 p q d by (auto simp: place_buffer_def Let_def buffer_regions_def meta_region_def tiles_append m add.assoc)
qed


text \<open>C13. The buffers of a link. When \<^verbatim>\<open>alloc_buffers\<close> returns, it made the asked number of buffers with
  consecutive ids, the only metadata of each is the description of its part of the shared block, and, as long as the
  block is smaller than 4 GiB, the metadata, chunk headers and data of the buffers follow each other without gap or
  overlap and fill the block.\<close>

theorem alloc_buffers_tiles:
  assumes r: "alloc_buffers True lt n params datas = Some (bufs, blen)"
    and bound: "unat n * (16 + 12 * length datas + data_bytes datas) < 2 ^ 32"
  shows "map lb_id bufs = map of_nat [0..<unat n] \<and> unat blen = unat n * (16 + 12 * length datas + data_bytes datas) \<and>
    tiles 0 (concat (map buffer_regions bufs)) (unat blen) \<and>
    (\<forall>b \<in> set bufs. map lm_type (lb_metas b) = [lt_Shared lt] \<and>
      map (unat \<circ> msh_offset) (lb_shared b) = [unat (lb_id b) * (16 + 12 * length datas + data_bytes datas)] \<and>
      map (unat \<circ> msh_size) (lb_shared b) = [16 + 12 * length datas + data_bytes datas])"
proof (cases "n = 0")
  case True
  then show ?thesis using r by (auto simp: alloc_buffers_def Let_def split: bind_splits)
next
  case False
  let ?d = "16 + 12 * length datas + data_bytes datas"
  let ?ms = "[\<lparr>md_type = lt_Shared lt, md_size = ucast sizeof_SpaMetaShared\<rparr>]"
  let ?ds = "buffer_data_size ?ms (map fst datas)" and ?ids = "map of_nat [0..<unat n] :: u32 list"
  have bufs: "bufs = map (place_buffer lt ?ms datas ?ds) ?ids" and blen: "blen = ucast n * ?ds"
    using r by (auto simp: alloc_buffers_def Let_def split: bind_splits dest!: alloc_metas_shared)
  have n1: "1 \<le> unat n" using False by (simp add: unat_gt_0 Suc_le_eq)
  have dn: "?d \<le> unat n * ?d" using n1 by simp
  then have d32: "?d < 2 ^ 32" using bound by linarith
  then have ds: "unat ?ds = ?d" by (intro buffer_data_size_bytes) simp
  have ids: "unat (of_nat k :: u32) = k" if "k < unat n" for k
    using less_trans [OF that unsigned_less [of n]] by (simp add: unsigned_of_nat take_bit_nat_eq_self)
  have each: "unat i * ?d + ?d < 2 ^ 32" if "unat i < unat n" for i :: u32
    using bound mult_le_mono1 [of "unat i + 1" "unat n" ?d] that by simp
  have "tiles 0 (concat (map buffer_regions (map (place_buffer lt ?ms datas ?ds) (map of_nat [0..<k])))) (k * ?d)" if "k \<le> unat n" for k
    using that
  proof (induction k)
    case (Suc k)
    have u: "unat (of_nat k :: u32) = k" using ids [of k] Suc.prems by simp
    have "tiles (unat (of_nat k :: u32) * ?d) (buffer_regions (place_buffer lt ?ms datas ?ds (of_nat k))) (unat (of_nat k :: u32) * ?d + ?d)"
      using each [of "of_nat k"] Suc.prems u ds by (intro place_buffer_tile) simp_all
    then have "tiles (k * ?d) (buffer_regions (place_buffer lt ?ms datas ?ds (of_nat k))) (Suc k * ?d)"
      unfolding u mult_Suc by (simp only: add.commute)
    moreover have "tiles 0 (concat (map buffer_regions (map (place_buffer lt ?ms datas ?ds) (map of_nat [0..<k])))) (k * ?d)"
      using Suc by simp
    ultimately show ?case by (simp only: upt_Suc_append [OF le0] map_append concat_append list.map concat.simps append_Nil2 tiles_appendI)
  qed simp
  from this [of "unat n"] have tiles: "tiles 0 (concat (map buffer_regions bufs)) (unat n * ?d)" by (simp add: bufs)
  have blen': "unat blen = unat n * ?d"
    using bound ds by (simp add: blen unat_word_ariths(2) unat_ucast_u64)
  have lb: "lb_id (place_buffer lt ?ms datas ?ds i) = i" "map lm_type (lb_metas (place_buffer lt ?ms datas ?ds i)) = [lt_Shared lt]"
    "lb_shared (place_buffer lt ?ms datas ?ds i) = [\<lparr>msh_offset = ucast (?ds * ucast i), msh_size = ucast ?ds\<rparr>]" for i
    by (simp_all add: place_buffer_def Let_def)
  have off: "unat (ucast (?ds * ucast i) :: u32) = unat i * ?d" if "unat i < unat n" for i :: u32
    using each [OF that] ds by (subst unat_scast_small) (simp_all add: unat_word_ariths(2) unat_ucast_u64 mult.commute)
  have "\<forall>b \<in> set bufs. map lm_type (lb_metas b) = [lt_Shared lt] \<and> map (unat \<circ> msh_offset) (lb_shared b) = [unat (lb_id b) * ?d] \<and>
      map (unat \<circ> msh_size) (lb_shared b) = [?d]"
    using off ids d32 ds by (auto simp: bufs lb unat_scast_small)
  moreover have "map lb_id bufs = ?ids" by (simp add: bufs lb comp_def)
  ultimately show ?thesis using tiles blen' by simp
qed


definition ex_link_types :: link_types where
  "ex_link_types = \<lparr>lt_MetaEnable = 101, lt_me_type = 102, lt_me_size = 103, lt_ringbufferSize = 104, lt_ringbufferStride = 105,
     lt_Buffers = 106, lt_size = 107, lt_stride = 108, lt_buffers = 109, lt_Shared = 110, lt_Ringbuffer = 111, lt_MemFd = 112\<rparr>"

definition ex_buffers_param :: alloc_param where
  "ex_buffers_param = \<lparr>ap_pod_type = SPA_POD_TYPE_OBJECT, ap_object_type = 106,
     ap_props = [Entry_prop \<lparr>sp_key = 107, sp_flags = 0, sp_type = SPA_POD_TYPE_INT, sp_size = 4, sp_values = [Pv_word 4096]\<rparr>,
       Entry_prop \<lparr>sp_key = 109, sp_flags = 0, sp_type = SPA_POD_TYPE_INT, sp_size = 4, sp_values = [Pv_word 2]\<rparr>]\<rparr>"

theorem alloc_buffers_tiles_witness:
  "\<exists>bufs blen. alloc_buffers True ex_link_types 2 [ex_buffers_param] [(4096, 4)] = Some (bufs, blen) \<and> unat blen = 8248 \<and>
     tiles 0 (concat (map buffer_regions bufs)) 8248"
proof -
  have "\<exists>bufs blen. alloc_buffers True ex_link_types 2 [ex_buffers_param] [(4096, 4)] = Some (bufs, blen)"
    by (simp add: alloc_buffers_def Let_def ex_link_types_def ex_buffers_param_def alloc_metas_object_params)
  then obtain bufs blen where r: "alloc_buffers True ex_link_types 2 [ex_buffers_param] [(4096, 4)] = Some (bufs, blen)" by blast
  have b: "unat (2 :: u32) * (16 + 12 * length [(4096 :: u64, 4 :: u64)] + data_bytes [(4096, 4)]) = 8248" by (simp add: data_bytes_def)
  have bound: "unat (2 :: u32) * (16 + 12 * length [(4096 :: u64, 4 :: u64)] + data_bytes [(4096, 4)]) < 2 ^ 32"
    unfolding b by simp
  show ?thesis using alloc_buffers_tiles [OF r bound] r unfolding b by auto
qed

text \<open>What the parameters of one port ask for is granted: not more buffers, not smaller ones.\<close>

lemma negotiate_request_bounds:
  assumes "find_meta_enable lt iparams (lt_Ringbuffer lt) = Some None \<or> find_meta_enable lt oparams (lt_Ringbuffer lt) = Some None"
    and "negotiate_request lt iparams oparams = Some rq"
  shows "0 < rq_max_buffers rq \<and> rq_max_buffers rq \<le> 16"
    and "find_param oparams (lt_Buffers lt) = Some ap \<Longrightarrow> alloc_param_query ap (lt_size lt) SPA_POD_TYPE_INT = Some (Some w) \<Longrightarrow>
      ucast w \<le> rq_minsize rq"
    and "find_param iparams (lt_Buffers lt) = Some ap \<Longrightarrow> alloc_param_query ap (lt_size lt) SPA_POD_TYPE_INT = Some (Some w) \<Longrightarrow>
      ucast w \<le> rq_minsize rq"
proof -
  obtain rq1 where 1: "buffers_param_or lt iparams \<lparr>rq_max_buffers = LINK_MAX_BUFFERS, rq_minsize = 0, rq_stride = 0\<rparr> = Some rq1"
    and 2: "buffers_param_or lt oparams rq1 = Some rq"
    using assms by (auto simp: negotiate_request_def split: bind_splits option.splits)
  note b1 = buffers_param_or_bounds [OF 1] and b2 = buffers_param_or_bounds [OF 2]
  show "0 < rq_max_buffers rq \<and> rq_max_buffers rq \<le> 16" using b1(1,4) b2(1,4) by (simp add: LINK_MAX_BUFFERS_def)
  show "find_param oparams (lt_Buffers lt) = Some ap \<Longrightarrow> alloc_param_query ap (lt_size lt) SPA_POD_TYPE_INT = Some (Some w) \<Longrightarrow>
      ucast w \<le> rq_minsize rq" by (rule b2(5))
  show "find_param iparams (lt_Buffers lt) = Some ap \<Longrightarrow> alloc_param_query ap (lt_size lt) SPA_POD_TYPE_INT = Some (Some w) \<Longrightarrow>
      ucast w \<le> rq_minsize rq" using b1(5) b2(2) order_trans by blast
qed

end
