(* ===== verification/Pinos_Graph.thy ===== *)
theory Pinos_Graph
  imports Pinos_Link_Alloc
begin

text \<open>
  The graph of the server: nodes with their ports and the links between them (\<^verbatim>\<open>pinos/server/node.c\<close>,
  \<^verbatim>\<open>port.c\<close>, \<^verbatim>\<open>link.c\<close> and \<^verbatim>\<open>pinos_core_find_format\<close> of \<^verbatim>\<open>core.c\<close>). Objects live at addresses; an access to
  an object that was freed, through a null pointer, or the removal of a list element that is not in the list, is
  \<open>None\<close>. The SPA nodes behind the interface of \<^verbatim>\<open>spa/node.h\<close> are the parameter \<open>env\<close> with a state \<open>'w\<close> of
  their own. What \<^verbatim>\<open>pinos_loop_invoke\<close> sends to the other thread waits in a queue: \<open>g_data\<close> for the data
  loop, \<open>g_main\<close> for the main loop.
\<close>

section \<open>States\<close>

datatype port_state = PORT_ERROR | PORT_INIT | PORT_CONFIGURE | PORT_READY | PORT_PAUSED | PORT_STREAMING

fun port_state_num :: "port_state \<Rightarrow> int" where
  "port_state_num PORT_ERROR = - 1"
| "port_state_num PORT_INIT = 0"
| "port_state_num PORT_CONFIGURE = 1"
| "port_state_num PORT_READY = 2"
| "port_state_num PORT_PAUSED = 3"
| "port_state_num PORT_STREAMING = 4"

lemma port_state_num_inj: "port_state_num a = port_state_num b \<longleftrightarrow> a = b"
  by (cases a; cases b) simp_all

instantiation port_state :: linorder
begin

definition less_eq_port_state :: "port_state \<Rightarrow> port_state \<Rightarrow> bool" where
  "a \<le> b \<longleftrightarrow> port_state_num a \<le> port_state_num b"

definition less_port_state :: "port_state \<Rightarrow> port_state \<Rightarrow> bool" where
  "a < b \<longleftrightarrow> port_state_num a < port_state_num b"

instance
  by standard (auto simp: less_eq_port_state_def less_port_state_def port_state_num_inj)

end

datatype node_state = NODE_ERROR | NODE_CREATING | NODE_SUSPENDED | NODE_IDLE | NODE_RUNNING

fun node_state_num :: "node_state \<Rightarrow> int" where
  "node_state_num NODE_ERROR = - 1"
| "node_state_num NODE_CREATING = 0"
| "node_state_num NODE_SUSPENDED = 1"
| "node_state_num NODE_IDLE = 2"
| "node_state_num NODE_RUNNING = 3"

lemma node_state_num_inj: "node_state_num a = node_state_num b \<longleftrightarrow> a = b"
  by (cases a; cases b) simp_all

instantiation node_state :: linorder
begin

definition less_eq_node_state :: "node_state \<Rightarrow> node_state \<Rightarrow> bool" where
  "a \<le> b \<longleftrightarrow> node_state_num a \<le> node_state_num b"

definition less_node_state :: "node_state \<Rightarrow> node_state \<Rightarrow> bool" where
  "a < b \<longleftrightarrow> node_state_num a < node_state_num b"

instance
  by standard (auto simp: less_eq_node_state_def less_node_state_def node_state_num_inj)

end

datatype link_state = LINK_ERROR | LINK_UNLINKED | LINK_INIT | LINK_NEGOTIATING | LINK_ALLOCATING | LINK_PAUSED | LINK_RUNNING

lemmas state_order = less_eq_port_state_def less_port_state_def less_eq_node_state_def less_node_state_def

section \<open>Objects\<close>

text \<open>The functions that are put into work queues, with their \<^verbatim>\<open>data\<close>, and the objects they belong to.\<close>

datatype work_obj = Obj_node nat | Obj_link nat

datatype work_func =
    Complete_ready nat
  | Complete_paused nat
  | Complete_streaming nat
  | Check_states nat
  | On_state_complete nat node_state
  | Init_complete nat

record graph_item =
  gi_obj :: work_obj
  gi_seq :: u32
  gi_res :: spa_result
  gi_func :: work_func

record graph_queue =
  gq_items :: "graph_item list"
  gq_wakeup :: bool

record server_port =
  po_node :: nat
  po_direction :: spa_direction
  po_port_id :: u32
  po_state :: port_state
  po_io :: spa_port_io
  po_allocated :: bool
  po_buffers :: "nat option"
  po_n_buffers :: u32
  po_links :: "nat list"
  po_rt_links :: "nat list"
  po_listeners :: "nat list"
  po_seq :: u32

record server_node =
  sn_state :: node_state
  sn_input_ports :: "nat list"
  sn_output_ports :: "nat list"
  sn_n_input_ports :: u32
  sn_n_output_ports :: u32
  sn_input_map :: "nat option list"
  sn_output_map :: "nat option list"
  sn_n_used_input_links :: u32
  sn_n_used_output_links :: u32
  sn_live :: bool
  sn_clock :: "nat option"
  sn_async_init :: bool
  sn_async_listeners :: "nat list"
  sn_work :: graph_queue

datatype buffer_owner = Owner_none | Owner_link | Owner_port nat

record server_link =
  lk_state :: link_state
  lk_output :: "nat option"
  lk_input :: "nat option"
  lk_rt_output :: "nat option"
  lk_rt_input :: "nat option"
  lk_refcount :: int
  lk_resources :: "nat list"
  lk_owner :: buffer_owner
  lk_buffers :: "nat option"
  lk_n_buffers :: u32
  lk_work :: graph_queue

text \<open>What the two loops are asked to run.\<close>

datatype invoke =
    Do_add_link nat nat
  | Do_remove_link nat nat
  | Do_remove_link_done nat nat
  | Do_clear_buffers nat
  | Do_clear_buffers_done nat
  | Do_link_remove nat
  | Do_link_remove_done nat
  | Do_node_remove nat
  | Do_node_remove_done nat

record 'w graph =
  g_nodes :: "nat \<Rightarrow> server_node option"
  g_ports :: "nat \<Rightarrow> server_port option"
  g_links :: "nat \<Rightarrow> server_link option"
  g_bufs :: "nat \<Rightarrow> link_buffer list"
  g_brk :: nat
  g_node_list :: "nat list"
  g_link_list :: "nat list"
  g_main :: "invoke list"
  g_data :: "invoke list"
  g_world :: 'w

section \<open>The nodes behind the interface\<close>

datatype node_command = Cmd_Start | Cmd_Pause | Cmd_ClockUpdate bool

record port_info =
  pi_flags :: u32
  pi_params :: "alloc_param list"

record 'w node_env =
  ne_types :: link_types
  ne_command :: "nat \<Rightarrow> node_command \<Rightarrow> 'w \<Rightarrow> spa_result \<times> 'w"
  ne_port_command :: "nat \<Rightarrow> spa_direction \<Rightarrow> u32 \<Rightarrow> node_command \<Rightarrow> 'w \<Rightarrow> spa_result \<times> 'w"
  ne_enum_formats :: "nat \<Rightarrow> spa_direction \<Rightarrow> u32 \<Rightarrow> spa_format option \<Rightarrow> u32 \<Rightarrow> 'w \<Rightarrow> (spa_result \<times> spa_format option) \<times> 'w"
  ne_set_format :: "nat \<Rightarrow> spa_direction \<Rightarrow> u32 \<Rightarrow> u32 \<Rightarrow> spa_format option \<Rightarrow> 'w \<Rightarrow> spa_result \<times> 'w"
  ne_get_format :: "nat \<Rightarrow> spa_direction \<Rightarrow> u32 \<Rightarrow> 'w \<Rightarrow> (spa_result \<times> spa_format option) \<times> 'w"
  ne_get_info :: "nat \<Rightarrow> spa_direction \<Rightarrow> u32 \<Rightarrow> 'w \<Rightarrow> (spa_result \<times> port_info) \<times> 'w"
  ne_use_buffers :: "nat \<Rightarrow> spa_direction \<Rightarrow> u32 \<Rightarrow> nat option \<Rightarrow> u32 \<Rightarrow> 'w \<Rightarrow> spa_result \<times> 'w"
  ne_alloc_buffers :: "nat \<Rightarrow> spa_direction \<Rightarrow> u32 \<Rightarrow> alloc_param list \<Rightarrow> nat option \<Rightarrow> u32 \<Rightarrow> 'w \<Rightarrow> (spa_result \<times> u32) \<times> 'w"
  ne_add_port :: "nat \<Rightarrow> spa_direction \<Rightarrow> u32 \<Rightarrow> 'w \<Rightarrow> spa_result \<times> 'w"
  ne_set_io :: "nat \<Rightarrow> spa_direction \<Rightarrow> u32 \<Rightarrow> nat \<Rightarrow> 'w \<Rightarrow> spa_result \<times> 'w"
  ne_get_n_ports :: "nat \<Rightarrow> 'w \<Rightarrow> (u32 \<times> u32) \<times> (u32 \<times> u32)"
  ne_get_port_ids :: "nat \<Rightarrow> 'w \<Rightarrow> u32 list \<times> u32 list"
  ne_memblock_ok :: "u64 \<Rightarrow> 'w \<Rightarrow> bool"

text \<open>Calls of the interface from the graph.\<close>

definition call_node :: "('w \<Rightarrow> 'a \<times> 'w) \<Rightarrow> 'w graph \<Rightarrow> 'a \<times> 'w graph" where
  "call_node f g = (case f (g_world g) of (res, w) \<Rightarrow> (res, g\<lparr>g_world := w\<rparr>))"

section \<open>Access to the objects\<close>

definition mod_node :: "nat \<Rightarrow> (server_node \<Rightarrow> server_node) \<Rightarrow> 'w graph \<Rightarrow> 'w graph option" where
  "mod_node n f g = (case g_nodes g n of None \<Rightarrow> None | Some x \<Rightarrow> Some (g\<lparr>g_nodes := (g_nodes g)(n \<mapsto> f x)\<rparr>))"

definition mod_port :: "nat \<Rightarrow> (server_port \<Rightarrow> server_port) \<Rightarrow> 'w graph \<Rightarrow> 'w graph option" where
  "mod_port p f g = (case g_ports g p of None \<Rightarrow> None | Some x \<Rightarrow> Some (g\<lparr>g_ports := (g_ports g)(p \<mapsto> f x)\<rparr>))"

definition mod_link :: "nat \<Rightarrow> (server_link \<Rightarrow> server_link) \<Rightarrow> 'w graph \<Rightarrow> 'w graph option" where
  "mod_link l f g = (case g_links g l of None \<Rightarrow> None | Some x \<Rightarrow> Some (g\<lparr>g_links := (g_links g)(l \<mapsto> f x)\<rparr>))"

definition list_remove :: "nat \<Rightarrow> nat list \<Rightarrow> nat list option" where
  "list_remove x xs = (if x \<in> set xs then Some (remove1 x xs) else None)"

definition invoke_data :: "invoke \<Rightarrow> 'w graph \<Rightarrow> 'w graph" where
  "invoke_data i g = g\<lparr>g_data := g_data g @ [i]\<rparr>"

definition invoke_main :: "invoke \<Rightarrow> 'w graph \<Rightarrow> 'w graph" where
  "invoke_main i g = g\<lparr>g_main := g_main g @ [i]\<rparr>"

text \<open>The work queues, in the form that the list of nodes refines: items in order and the flag of the wakeup event.\<close>

definition queue_add :: "work_obj \<Rightarrow> spa_result \<Rightarrow> work_func \<Rightarrow> graph_queue \<Rightarrow> graph_queue" where
  "queue_add obj res f q =
     \<lparr>gq_items = gq_items q @ [\<lparr>gi_obj = obj, gi_seq = (if SPA_RESULT_IS_ASYNC res then SPA_RESULT_ASYNC_SEQ res else SPA_ID_INVALID),
        gi_res = res, gi_func = f\<rparr>],
      gq_wakeup = (gq_wakeup q \<or> \<not> SPA_RESULT_IS_ASYNC res)\<rparr>"

definition queue_complete :: "work_obj \<Rightarrow> u32 \<Rightarrow> spa_result \<Rightarrow> graph_queue \<Rightarrow> graph_queue" where
  "queue_complete obj seq res q =
     (let hit = (\<lambda>it. gi_obj it = obj \<and> gi_seq it = seq) in
      \<lparr>gq_items = map (\<lambda>it. if hit it then it\<lparr>gi_seq := SPA_ID_INVALID, gi_res := res\<rparr> else it) (gq_items q),
       gq_wakeup = (gq_wakeup q \<or> (\<exists>it \<in> set (gq_items q). hit it))\<rparr>)"

definition link_work_add :: "nat \<Rightarrow> work_obj \<Rightarrow> spa_result \<Rightarrow> work_func \<Rightarrow> 'w graph \<Rightarrow> 'w graph option" where
  "link_work_add l obj res f = mod_link l (\<lambda>k. k\<lparr>lk_work := queue_add obj res f (lk_work k)\<rparr>)"

definition node_work_add :: "nat \<Rightarrow> spa_result \<Rightarrow> work_func \<Rightarrow> 'w graph \<Rightarrow> 'w graph option" where
  "node_work_add n res f = mod_node n (\<lambda>x. x\<lparr>sn_work := queue_add (Obj_node n) res f (sn_work x)\<rparr>)"

end
