(* ===== verification/Pinos_Graph_Ops.thy ===== *)
theory Pinos_Graph_Ops
  imports Pinos_Graph
begin

text \<open>
  The operations on the graph: the state of nodes, ports and links, negotiation of formats and buffers, the work
  queues, and the two-loop protocol by which links and nodes are taken out.
\<close>

section \<open>Nodes\<close>

definition pinos_node_update_state :: "nat \<Rightarrow> node_state \<Rightarrow> 'w graph \<Rightarrow> 'w graph option" where
  "pinos_node_update_state n st g = mod_node n (\<lambda>x. x\<lparr>sn_state := st\<rparr>) g"

definition pause_node :: "'w node_env \<Rightarrow> nat \<Rightarrow> 'w graph \<Rightarrow> (spa_result \<times> 'w graph) option" where
  "pause_node env n g = do {
     x \<leftarrow> g_nodes g n;
     if sn_state x \<le> NODE_IDLE then Some (SPA_RESULT_OK, g) else Some (call_node (ne_command env n Cmd_Pause) g) }"

definition start_node :: "'w node_env \<Rightarrow> nat \<Rightarrow> 'w graph \<Rightarrow> spa_result \<times> 'w graph" where
  "start_node env n = call_node (ne_command env n Cmd_Start)"

text \<open>Resetting the ports of one direction; the result is that of the last port.\<close>

fun suspend_ports :: "'w node_env \<Rightarrow> nat \<Rightarrow> spa_direction \<Rightarrow> nat list \<Rightarrow> spa_result \<Rightarrow> 'w graph \<Rightarrow> (spa_result \<times> 'w graph) option" where
  "suspend_ports env n d [] res g = Some (res, g)"
| "suspend_ports env n d (p # ps) res g = do {
     po \<leftarrow> g_ports g p;
     let (res', g1) = call_node (ne_set_format env n d (po_port_id po) 0 None) g;
     g2 \<leftarrow> mod_port p (\<lambda>po. po\<lparr>po_buffers := None, po_n_buffers := 0, po_allocated := False, po_state := PORT_CONFIGURE\<rparr>) g1;
     suspend_ports env n d ps res' g2 }"

definition suspend_node :: "'w node_env \<Rightarrow> nat \<Rightarrow> 'w graph \<Rightarrow> (spa_result \<times> 'w graph) option" where
  "suspend_node env n g = do {
     x \<leftarrow> g_nodes g n;
     (res, g1) \<leftarrow> suspend_ports env n Dir_input (sn_input_ports x) SPA_RESULT_OK g;
     suspend_ports env n Dir_output (sn_output_ports x) res g1 }"

definition send_clock_update :: "'w node_env \<Rightarrow> nat \<Rightarrow> 'w graph \<Rightarrow> 'w graph option" where
  "send_clock_update env n g = do {
     x \<leftarrow> g_nodes g n;
     Some (snd (call_node (ne_command env n (Cmd_ClockUpdate (sn_clock x \<noteq> None \<and> sn_live x))) g)) }"

definition pinos_link_activate :: "nat \<Rightarrow> 'w graph \<Rightarrow> 'w graph option" where
  "pinos_link_activate l = link_work_add l (Obj_link l) SPA_RESULT_WAIT_SYNC (Check_states l)"

fun activate_links :: "nat list \<Rightarrow> 'w graph \<Rightarrow> 'w graph option" where
  "activate_links [] g = Some g"
| "activate_links (l # ls) g = do { g1 \<leftarrow> pinos_link_activate l g; activate_links ls g1 }"

fun activate_ports :: "nat list \<Rightarrow> 'w graph \<Rightarrow> 'w graph option" where
  "activate_ports [] g = Some g"
| "activate_ports (p # ps) g = do { po \<leftarrow> g_ports g p; g1 \<leftarrow> activate_links (po_links po) g; activate_ports ps g1 }"

definition node_activate :: "nat \<Rightarrow> 'w graph \<Rightarrow> 'w graph option" where
  "node_activate n g = do {
     x \<leftarrow> g_nodes g n;
     g1 \<leftarrow> activate_ports (sn_input_ports x) g;
     activate_ports (sn_output_ports x) g1 }"

definition pinos_node_set_state :: "'w node_env \<Rightarrow> nat \<Rightarrow> node_state \<Rightarrow> 'w graph \<Rightarrow> (spa_result \<times> 'w graph) option" where
  "pinos_node_set_state env n st g =
     (if st = NODE_CREATING then Some (SPA_RESULT_ERROR, g)
      else do {
        (res, g1) \<leftarrow> (case st of
             NODE_SUSPENDED \<Rightarrow> suspend_node env n g
           | NODE_IDLE \<Rightarrow> pause_node env n g
           | NODE_RUNNING \<Rightarrow> do {
               ga \<leftarrow> node_activate n g;
               gb \<leftarrow> send_clock_update env n ga;
               Some (start_node env n gb) }
           | _ \<Rightarrow> Some (SPA_RESULT_OK, g));
        if SPA_RESULT_IS_ERROR res then Some (res, g1)
        else map_option (Pair res) (node_work_add n res (On_state_complete n st) g1) })"

definition on_state_complete :: "nat \<Rightarrow> node_state \<Rightarrow> spa_result \<Rightarrow> 'w graph \<Rightarrow> 'w graph option" where
  "on_state_complete n st res = pinos_node_update_state n (if SPA_RESULT_IS_ERROR res then NODE_ERROR else st)"

section \<open>Ports\<close>

definition pinos_port_new :: "nat \<Rightarrow> spa_direction \<Rightarrow> u32 \<Rightarrow> 'w graph \<Rightarrow> nat \<times> 'w graph" where
  "pinos_port_new n d i g =
     (g_brk g, g\<lparr>g_brk := g_brk g + 1,
        g_ports := (g_ports g)(g_brk g \<mapsto>
          \<lparr>po_node = n, po_direction = d, po_port_id = i, po_state = PORT_CONFIGURE,
           po_io = \<lparr>io_status = SPA_RESULT_OK, io_buffer_id = SPA_ID_INVALID, io_min_size = 0, io_max_size = 0\<rparr>,
           po_allocated = False, po_buffers = None, po_n_buffers = 0, po_links = [], po_rt_links = [], po_listeners = [],
           po_seq = 0\<rparr>)\<rparr>)"

definition pinos_port_pause_rt :: "'w node_env \<Rightarrow> nat \<Rightarrow> 'w graph \<Rightarrow> 'w graph option" where
  "pinos_port_pause_rt env p g = do {
     po \<leftarrow> g_ports g p;
     if po_state po \<le> PORT_PAUSED then Some g
     else mod_port p (\<lambda>po. po\<lparr>po_state := PORT_PAUSED\<rparr>)
       (snd (call_node (ne_port_command env (po_node po) (po_direction po) (po_port_id po) Cmd_Pause) g)) }"

text \<open>Taking back the buffers of a port.\<close>

definition clear_port :: "'w node_env \<Rightarrow> nat \<Rightarrow> 'w graph \<Rightarrow> 'w graph option" where
  "clear_port env p g = do {
     po \<leftarrow> g_ports g p;
     mod_port p (\<lambda>po. po\<lparr>po_buffers := None, po_n_buffers := 0, po_state := PORT_READY\<rparr>)
       (snd (call_node (ne_use_buffers env (po_node po) (po_direction po) (po_port_id po) None 0) g)) }"

definition do_add_link :: "nat \<Rightarrow> nat \<Rightarrow> 'w graph \<Rightarrow> 'w graph option" where
  "do_add_link p l g = do {
     po \<leftarrow> g_ports g p;
     g1 \<leftarrow> mod_port p (\<lambda>po. po\<lparr>po_rt_links := po_rt_links po @ [l]\<rparr>) g;
     mod_link l (\<lambda>k. case po_direction po of Dir_input \<Rightarrow> k\<lparr>lk_rt_input := Some p\<rparr> | Dir_output \<Rightarrow> k\<lparr>lk_rt_output := Some p\<rparr>) g1 }"

text \<open>Taking a link out of the list of a port, in the data loop and in the main loop.\<close>

definition rt_unlist :: "nat \<Rightarrow> nat \<Rightarrow> 'w graph \<Rightarrow> 'w graph option" where
  "rt_unlist p l g = do {
     po \<leftarrow> g_ports g p;
     ls \<leftarrow> list_remove l (po_rt_links po);
     mod_port p (\<lambda>po. po\<lparr>po_rt_links := ls\<rparr>) g }"

definition unlist :: "nat \<Rightarrow> nat \<Rightarrow> 'w graph \<Rightarrow> 'w graph option" where
  "unlist p l g = do {
     po \<leftarrow> g_ports g p;
     ls \<leftarrow> list_remove l (po_links po);
     mod_port p (\<lambda>po. po\<lparr>po_links := ls\<rparr>) g }"

definition do_remove_link :: "'w node_env \<Rightarrow> nat \<Rightarrow> nat \<Rightarrow> 'w graph \<Rightarrow> 'w graph option" where
  "do_remove_link env p l g = do {
     po \<leftarrow> g_ports g p;
     k \<leftarrow> g_links g l;
     g2 \<leftarrow> (case po_direction po of
         Dir_input \<Rightarrow> do {
           q \<leftarrow> lk_rt_input k;
           g1 \<leftarrow> pinos_port_pause_rt env q g;
           g2 \<leftarrow> rt_unlist q l g1;
           mod_link l (\<lambda>k. k\<lparr>lk_rt_input := None\<rparr>) g2 }
       | Dir_output \<Rightarrow> do {
           q \<leftarrow> lk_rt_output k;
           g1 \<leftarrow> pinos_port_pause_rt env q g;
           g2 \<leftarrow> rt_unlist q l g1;
           mod_link l (\<lambda>k. k\<lparr>lk_rt_output := None\<rparr>) g2 });
     Some (invoke_main (Do_remove_link_done p l) g2) }"

definition do_remove_link_done :: "'w node_env \<Rightarrow> nat \<Rightarrow> nat \<Rightarrow> 'w graph \<Rightarrow> 'w graph option" where
  "do_remove_link_done env p l g = do {
     po \<leftarrow> g_ports g p;
     k \<leftarrow> g_links g l;
     g1 \<leftarrow> (case po_direction po of
         Dir_output \<Rightarrow>
           (case lk_output k of
              None \<Rightarrow> Some g
            | Some q \<Rightarrow> do {
                g1 \<leftarrow> unlist q l g;
                g2 \<leftarrow> mod_node (po_node po) (\<lambda>x. x\<lparr>sn_n_used_output_links := sn_n_used_output_links x - 1\<rparr>) g1;
                mod_link l (\<lambda>k. k\<lparr>lk_output := None\<rparr>) g2 })
       | Dir_input \<Rightarrow>
           (case lk_input k of
              None \<Rightarrow> Some g
            | Some q \<Rightarrow> do {
                g1 \<leftarrow> unlist q l g;
                g2 \<leftarrow> mod_node (po_node po) (\<lambda>x. x\<lparr>sn_n_used_input_links := sn_n_used_input_links x - 1\<rparr>) g1;
                mod_link l (\<lambda>k. k\<lparr>lk_input := None\<rparr>) g2 }));
     g2 \<leftarrow> (if \<not> po_allocated po \<and> po_state po > PORT_READY then clear_port env p g1 else Some g1);
     x \<leftarrow> g_nodes g2 (po_node po);
     if sn_n_used_output_links x = 0 \<and> sn_n_used_input_links x = 0 then pinos_node_update_state (po_node po) NODE_IDLE g2 else Some g2 }"

definition pinos_port_unlink :: "nat \<Rightarrow> nat \<Rightarrow> 'w graph \<Rightarrow> 'w graph option" where
  "pinos_port_unlink p l g = map_option (invoke_data (Do_remove_link p l)) (mod_port p (\<lambda>po. po\<lparr>po_seq := po_seq po + 1\<rparr>) g)"

definition do_clear_buffers :: "'w node_env \<Rightarrow> nat \<Rightarrow> 'w graph \<Rightarrow> 'w graph option" where
  "do_clear_buffers env p g = map_option (invoke_main (Do_clear_buffers_done p)) (pinos_port_pause_rt env p g)"

definition do_clear_buffers_done :: "'w node_env \<Rightarrow> nat \<Rightarrow> 'w graph \<Rightarrow> 'w graph option" where
  "do_clear_buffers_done env p g = do {
     po \<leftarrow> g_ports g p;
     if po_state po \<le> PORT_READY then Some g else clear_port env p g }"

definition pinos_port_clear_buffers :: "nat \<Rightarrow> 'w graph \<Rightarrow> 'w graph option" where
  "pinos_port_clear_buffers p g = map_option (invoke_data (Do_clear_buffers p)) (mod_port p (\<lambda>po. po\<lparr>po_seq := po_seq po + 1\<rparr>) g)"


section \<open>Formats\<close>

definition spa_format_fixate :: "spa_format \<Rightarrow> spa_format" where
  "spa_format_fixate f = f\<lparr>fmt_props := map (\<lambda>e. case e of
       Entry_prop p \<Rightarrow> Entry_prop (p\<lparr>sp_flags := sp_flags p AND NOT SPA_POD_PROP_FLAG_UNSET\<rparr>) | Entry_other \<Rightarrow> Entry_other) (fmt_props f)\<rparr>"

text \<open>The loop \<^verbatim>\<open>again\<close>: the formats of the input are tried as filters for the output.\<close>

partial_function (option) search_format ::
  "'w node_env \<Rightarrow> server_port \<Rightarrow> server_port \<Rightarrow> spa_format option \<Rightarrow> u32 \<Rightarrow> 'w graph \<Rightarrow> (spa_format option \<times> 'w graph) option" where
  "search_format env op ip filter0 iidx g =
     (case call_node (ne_enum_formats env (po_node ip) Dir_input (po_port_id ip) None iidx) g of
        ((res, f), g1) \<Rightarrow>
          if SPA_RESULT_IS_ERROR res \<and> res = SPA_RESULT_ENUM_END \<and> iidx \<noteq> 0 then Some (None, g1)
          else
            (case call_node (ne_enum_formats env (po_node op) Dir_output (po_port_id op) (if SPA_RESULT_IS_ERROR res then filter0 else f) 0) g1 of
               ((res2, fmt), g2) \<Rightarrow>
                 if SPA_RESULT_IS_ERROR res2
                 then if res2 = SPA_RESULT_ENUM_END
                      then search_format env op ip (if SPA_RESULT_IS_ERROR res then filter0 else f) (iidx + 1) g2
                      else Some (None, g2)
                 else Some (map_option spa_format_fixate fmt, g2)))"

definition configured_or_idle :: "server_port \<Rightarrow> server_node \<Rightarrow> u32" where
  "configured_or_idle po x =
     (let st = word_of_int (port_state_num (po_state po)) in
      if st > 1 \<and> sn_state x = NODE_IDLE then 1 else st)"

definition pinos_core_find_format :: "'w node_env \<Rightarrow> nat \<Rightarrow> nat \<Rightarrow> 'w graph \<Rightarrow> (spa_format option \<times> 'w graph) option" where
  "pinos_core_find_format env outp inp g = do {
     op \<leftarrow> g_ports g outp;
     ip \<leftarrow> g_ports g inp;
     on \<leftarrow> g_nodes g (po_node op);
     inn \<leftarrow> g_nodes g (po_node ip);
     let out_state = configured_or_idle op on;
     let in_state = configured_or_idle ip inn;
     if in_state = 1 \<and> out_state > 1
     then (case call_node (ne_get_format env (po_node op) Dir_output (po_port_id op)) g of
             ((res, f), g1) \<Rightarrow> Some (if SPA_RESULT_IS_ERROR res then None else f, g1))
     else if out_state = 1 \<and> in_state > 1
     then (case call_node (ne_get_format env (po_node ip) Dir_input (po_port_id ip)) g of
             ((res, f), g1) \<Rightarrow> Some (if SPA_RESULT_IS_ERROR res then None else f, g1))
     else if in_state = 1 \<and> out_state = 1 then search_format env op ip None 0 g
     else Some (None, g) }"

section \<open>Links\<close>

definition pinos_link_update_state :: "nat \<Rightarrow> link_state \<Rightarrow> 'w graph \<Rightarrow> 'w graph option" where
  "pinos_link_update_state l st = mod_link l (\<lambda>k. k\<lparr>lk_state := st\<rparr>)"

abbreviation (input) ST_CONFIGURE :: u32 where "ST_CONFIGURE \<equiv> 1"
abbreviation (input) ST_READY :: u32 where "ST_READY \<equiv> 2"
abbreviation (input) ST_PAUSED :: u32 where "ST_PAUSED \<equiv> 3"
abbreviation (input) ST_STREAMING :: u32 where "ST_STREAMING \<equiv> 4"

text \<open>\<^verbatim>\<open>SPA_PORT_FORMAT_FLAG_NEAREST\<close>.\<close>

definition FORMAT_FLAG_NEAREST :: u32 where "FORMAT_FLAG_NEAREST = 4"

text \<open>A port of an idle node that has a format is reset first.\<close>

definition reset_idle :: "'w node_env \<Rightarrow> nat \<Rightarrow> u32 \<Rightarrow> 'w graph \<Rightarrow> (u32 \<times> 'w graph) option" where
  "reset_idle env n st g = do {
     x \<leftarrow> g_nodes g n;
     if st > ST_CONFIGURE \<and> sn_state x = NODE_IDLE
     then map_option (\<lambda>(_, g1). (ST_CONFIGURE, g1)) (pinos_node_set_state env n NODE_SUSPENDED g)
     else Some (st, g) }"

text \<open>Setting the format of one end, with the work that completes it; an error ends the negotiation.\<close>

definition link_set_format :: "'w node_env \<Rightarrow> nat \<Rightarrow> spa_direction \<Rightarrow> nat \<Rightarrow> spa_format \<Rightarrow> 'w graph \<Rightarrow> (spa_result \<times> 'w graph) option" where
  "link_set_format env l d p f g = do {
     po \<leftarrow> g_ports g p;
     let (res, g1) = call_node (ne_set_format env (po_node po) d (po_port_id po) FORMAT_FLAG_NEAREST (Some f)) g;
     if SPA_RESULT_IS_ERROR res then map_option (Pair res) (pinos_link_update_state l LINK_ERROR g1)
     else map_option (Pair res) (link_work_add l (Obj_node (po_node po)) res (Complete_ready p) g1) }"

definition do_negotiate :: "'w node_env \<Rightarrow> nat \<Rightarrow> u32 \<Rightarrow> u32 \<Rightarrow> 'w graph \<Rightarrow> (spa_result \<times> 'w graph) option" where
  "do_negotiate env l in_state out_state g =
     (if in_state \<noteq> ST_CONFIGURE \<and> out_state \<noteq> ST_CONFIGURE then Some (SPA_RESULT_OK, g)
      else do {
        g1 \<leftarrow> pinos_link_update_state l LINK_NEGOTIATING g;
        k \<leftarrow> g_links g1 l;
        outp \<leftarrow> lk_output k;
        inp \<leftarrow> lk_input k;
        op \<leftarrow> g_ports g1 outp;
        ip \<leftarrow> g_ports g1 inp;
        (fmt, g2) \<leftarrow> pinos_core_find_format env outp inp g1;
        case fmt of
          None \<Rightarrow> map_option (Pair SPA_RESULT_ERROR) (pinos_link_update_state l LINK_ERROR g2)
        | Some f \<Rightarrow> do {
            (out_state', g3) \<leftarrow> reset_idle env (po_node op) out_state g2;
            (in_state', g4) \<leftarrow> reset_idle env (po_node ip) in_state g3;
            (res, g5) \<leftarrow> (if out_state' = ST_CONFIGURE then link_set_format env l Dir_output outp f g4 else Some (SPA_RESULT_ERROR, g4));
            if out_state' = ST_CONFIGURE \<and> SPA_RESULT_IS_ERROR res then Some (res, g5)
            else if in_state' = ST_CONFIGURE
            then do {
              (res2, g6) \<leftarrow> link_set_format env l Dir_input inp f g5;
              Some (if SPA_RESULT_IS_ERROR res2 then res else if res2 \<noteq> SPA_RESULT_OK then res2 else res, g6) }
            else Some (res, g5) } })"


definition CAN_ALLOC_BUFFERS :: u32 where "CAN_ALLOC_BUFFERS = 4"
definition CAN_USE_BUFFERS :: u32 where "CAN_USE_BUFFERS = 8"
definition PORT_INFO_LIVE :: u32 where "PORT_INFO_LIVE = 64"

definition has_flag :: "u32 \<Rightarrow> u32 \<Rightarrow> bool" where
  "has_flag flags f \<longleftrightarrow> flags AND f \<noteq> 0"

text \<open>Who allocates and who uses: the flags of both ports, an error, or that it is too early.\<close>

datatype alloc_choice = Alloc_flags u32 u32 | Alloc_error | Alloc_delay

definition choose_alloc :: "u32 \<Rightarrow> u32 \<Rightarrow> u32 \<Rightarrow> u32 \<Rightarrow> alloc_choice" where
  "choose_alloc in_state out_state in_flags out_flags =
     (if in_state = ST_READY \<and> out_state = ST_READY
      then if has_flag out_flags CAN_ALLOC_BUFFERS \<and> has_flag in_flags CAN_USE_BUFFERS then Alloc_flags CAN_USE_BUFFERS CAN_ALLOC_BUFFERS
        else if has_flag out_flags CAN_USE_BUFFERS \<and> has_flag in_flags CAN_ALLOC_BUFFERS then Alloc_flags CAN_ALLOC_BUFFERS CAN_USE_BUFFERS
        else if has_flag out_flags CAN_USE_BUFFERS \<and> has_flag in_flags CAN_USE_BUFFERS then Alloc_flags CAN_USE_BUFFERS CAN_USE_BUFFERS
        else if has_flag out_flags CAN_ALLOC_BUFFERS \<and> has_flag in_flags CAN_ALLOC_BUFFERS then Alloc_flags CAN_ALLOC_BUFFERS CAN_ALLOC_BUFFERS
        else Alloc_error
      else if in_state = ST_READY \<and> out_state > ST_READY
      then Alloc_flags (in_flags AND NOT CAN_ALLOC_BUFFERS) (out_flags AND NOT CAN_USE_BUFFERS)
      else if out_state = ST_READY \<and> in_state > ST_READY
      then Alloc_flags (in_flags AND NOT CAN_USE_BUFFERS) (out_flags AND NOT CAN_ALLOC_BUFFERS)
      else Alloc_delay)"

text \<open>The label \<^verbatim>\<open>error\<close> of \<open>do_allocation\<close>.\<close>

definition alloc_failed :: "nat \<Rightarrow> nat \<Rightarrow> nat \<Rightarrow> spa_result \<Rightarrow> 'w graph \<Rightarrow> (spa_result \<times> 'w graph) option" where
  "alloc_failed l outp inp res g = do {
     g1 \<leftarrow> mod_port outp (\<lambda>po. po\<lparr>po_buffers := None, po_n_buffers := 0, po_allocated := False\<rparr>) g;
     g2 \<leftarrow> mod_port inp (\<lambda>po. po\<lparr>po_buffers := None, po_n_buffers := 0, po_allocated := False\<rparr>) g1;
     map_option (Pair res) (pinos_link_update_state l LINK_ERROR g2) }"

text \<open>Where the buffers come from: those of the output, those of the input, or new ones of the link.\<close>

definition link_take_buffers ::
  "'w node_env \<Rightarrow> nat \<Rightarrow> nat \<Rightarrow> nat \<Rightarrow> port_info \<Rightarrow> port_info \<Rightarrow> u32 \<Rightarrow> u32 \<Rightarrow> 'w graph \<Rightarrow> ((u32 \<times> u32) \<times> 'w graph) option" where
  "link_take_buffers env l outp inp iinfo oinfo in_flags out_flags g = do {
     op \<leftarrow> g_ports g outp;
     ip \<leftarrow> g_ports g inp;
     rq \<leftarrow> negotiate_request (ne_types env) (pi_params iinfo) (pi_params oinfo);
     let minsize = (if has_flag in_flags CAN_ALLOC_BUFFERS \<or> has_flag out_flags CAN_ALLOC_BUFFERS then 0 else rq_minsize rq);
     if po_n_buffers op \<noteq> 0
     then map_option (Pair (CAN_USE_BUFFERS, 0))
            (mod_link l (\<lambda>k. k\<lparr>lk_n_buffers := po_n_buffers op, lk_buffers := po_buffers op, lk_owner := Owner_port outp\<rparr>) g)
     else if po_n_buffers ip \<noteq> 0
     then map_option (Pair (0, CAN_USE_BUFFERS))
            (mod_link l (\<lambda>k. k\<lparr>lk_n_buffers := po_n_buffers ip, lk_buffers := po_buffers ip, lk_owner := Owner_port inp\<rparr>) g)
     else do {
       (bufs, blen) \<leftarrow> alloc_buffers True (ne_types env) (rq_max_buffers rq) (pi_params oinfo) [(minsize, rq_stride rq)];
       if \<not> ne_memblock_ok env blen (g_world g) then None
       else map_option (Pair (in_flags, out_flags))
         (mod_link l (\<lambda>k. k\<lparr>lk_n_buffers := rq_max_buffers rq, lk_buffers := Some (g_brk g), lk_owner := Owner_link\<rparr>)
           (g\<lparr>g_brk := g_brk g + 1, g_bufs := (g_bufs g)(g_brk g := bufs)\<rparr>)) } }"

text \<open>One end allocates the data of the buffers; \<open>Inl\<close> is the result of a failure.\<close>

definition link_alloc_port ::
  "'w node_env \<Rightarrow> nat \<Rightarrow> spa_direction \<Rightarrow> nat \<Rightarrow> alloc_param list \<Rightarrow> 'w graph \<Rightarrow> (spa_result \<times> 'w graph) option" where
  "link_alloc_port env l d p params g = do {
     po \<leftarrow> g_ports g p;
     k \<leftarrow> g_links g l;
     let ((res, n), g1) = call_node (ne_alloc_buffers env (po_node po) d (po_port_id po) params (lk_buffers k) (lk_n_buffers k)) g;
     g2 \<leftarrow> mod_link l (\<lambda>k. k\<lparr>lk_n_buffers := n\<rparr>) g1;
     if SPA_RESULT_IS_ERROR res then Some (res, g2)
     else do {
       g3 \<leftarrow> link_work_add l (Obj_node (po_node po)) res (Complete_paused p) g2;
       g4 \<leftarrow> mod_port p (\<lambda>po. po\<lparr>po_buffers := lk_buffers k, po_n_buffers := n, po_allocated := True\<rparr>) g3;
       map_option (Pair res) (mod_link l (\<lambda>k. k\<lparr>lk_owner := Owner_port p\<rparr>) g4) } }"

definition link_use_port :: "'w node_env \<Rightarrow> nat \<Rightarrow> spa_direction \<Rightarrow> nat \<Rightarrow> 'w graph \<Rightarrow> (spa_result \<times> 'w graph) option" where
  "link_use_port env l d p g = do {
     po \<leftarrow> g_ports g p;
     k \<leftarrow> g_links g l;
     let (res, g1) = call_node (ne_use_buffers env (po_node po) d (po_port_id po) (lk_buffers k) (lk_n_buffers k)) g;
     if SPA_RESULT_IS_ERROR res then Some (res, g1)
     else do {
       g2 \<leftarrow> link_work_add l (Obj_node (po_node po)) res (Complete_paused p) g1;
       map_option (Pair res)
         (mod_port p (\<lambda>po. po\<lparr>po_buffers := lk_buffers k, po_n_buffers := lk_n_buffers k, po_allocated := False\<rparr>) g2) } }"

text \<open>The use of the buffers, after they exist; \<open>res\<close> is the result so far.\<close>

definition link_use_buffers ::
  "'w node_env \<Rightarrow> nat \<Rightarrow> nat \<Rightarrow> nat \<Rightarrow> u32 \<Rightarrow> u32 \<Rightarrow> spa_result \<Rightarrow> 'w graph \<Rightarrow> (spa_result \<times> 'w graph) option" where
  "link_use_buffers env l outp inp in_flags out_flags res0 g =
     (if has_flag in_flags CAN_USE_BUFFERS
      then do { (res, g1) \<leftarrow> link_use_port env l Dir_input inp g;
                if SPA_RESULT_IS_ERROR res then alloc_failed l outp inp res g1 else Some (res, g1) }
      else if has_flag out_flags CAN_USE_BUFFERS
      then do { (res, g1) \<leftarrow> link_use_port env l Dir_output outp g;
                if SPA_RESULT_IS_ERROR res then alloc_failed l outp inp res g1 else Some (res, g1) }
      else alloc_failed l outp inp res0 g)"

definition set_nodes_live :: "nat \<Rightarrow> nat \<Rightarrow> 'w graph \<Rightarrow> 'w graph option" where
  "set_nodes_live a b g = do { g1 \<leftarrow> mod_node a (\<lambda>x. x\<lparr>sn_live := True\<rparr>) g; mod_node b (\<lambda>x. x\<lparr>sn_live := True\<rparr>) g1 }"

text \<open>The part after the choice: getting the buffers, when the link has none yet, and using them.\<close>

definition link_allocate ::
  "'w node_env \<Rightarrow> nat \<Rightarrow> nat \<Rightarrow> nat \<Rightarrow> port_info \<Rightarrow> port_info \<Rightarrow> spa_result \<Rightarrow> alloc_choice \<Rightarrow> 'w graph \<Rightarrow> (spa_result \<times> 'w graph) option" where
  "link_allocate env l outp inp iinfo oinfo res0 choice g =
     (case choice of
        Alloc_error \<Rightarrow> alloc_failed l outp inp SPA_RESULT_ERROR g
      | Alloc_delay \<Rightarrow> Some (SPA_RESULT_OK, g)
      | Alloc_flags in_flags0 out_flags0 \<Rightarrow> do {
          k \<leftarrow> g_links g l;
          if lk_buffers k \<noteq> None then link_use_buffers env l outp inp in_flags0 out_flags0 res0 g
          else do {
            ((in_flags, out_flags), g1) \<leftarrow> link_take_buffers env l outp inp iinfo oinfo in_flags0 out_flags0 g;
            (res, g2) \<leftarrow>
              (if has_flag out_flags CAN_ALLOC_BUFFERS then link_alloc_port env l Dir_output outp (pi_params iinfo) g1
               else if has_flag in_flags CAN_ALLOC_BUFFERS then link_alloc_port env l Dir_input inp (pi_params oinfo) g1
               else Some (res0, g1));
            if SPA_RESULT_IS_ERROR res then alloc_failed l outp inp res g2
            else link_use_buffers env l outp inp in_flags out_flags res g2 } })"

definition do_allocation :: "'w node_env \<Rightarrow> nat \<Rightarrow> u32 \<Rightarrow> u32 \<Rightarrow> 'w graph \<Rightarrow> (spa_result \<times> 'w graph) option" where
  "do_allocation env l in_state out_state g =
     (if in_state \<noteq> ST_READY \<and> out_state \<noteq> ST_READY then Some (SPA_RESULT_OK, g)
      else do {
        g1 \<leftarrow> pinos_link_update_state l LINK_ALLOCATING g;
        k \<leftarrow> g_links g1 l;
        outp \<leftarrow> lk_output k;
        inp \<leftarrow> lk_input k;
        op \<leftarrow> g_ports g1 outp;
        ip \<leftarrow> g_ports g1 inp;
        let ((ores, oinfo), g2) = call_node (ne_get_info env (po_node op) Dir_output (po_port_id op)) g1;
        if SPA_RESULT_IS_ERROR ores then alloc_failed l outp inp ores g2
        else do {
          let ((ires, iinfo), g3) = call_node (ne_get_info env (po_node ip) Dir_input (po_port_id ip)) g2;
          if SPA_RESULT_IS_ERROR ires then alloc_failed l outp inp ires g3
          else do {
            g4 \<leftarrow> (if has_flag (pi_flags oinfo) PORT_INFO_LIVE then set_nodes_live (po_node op) (po_node ip) g3 else Some g3);
            link_allocate env l outp inp iinfo oinfo ires (choose_alloc in_state out_state (pi_flags iinfo) (pi_flags oinfo)) g4 } } })"

definition link_start_port :: "'w node_env \<Rightarrow> nat \<Rightarrow> nat \<Rightarrow> 'w graph \<Rightarrow> (spa_result \<times> 'w graph) option" where
  "link_start_port env l p g = do {
     po \<leftarrow> g_ports g p;
     (res, g1) \<leftarrow> pinos_node_set_state env (po_node po) NODE_RUNNING g;
     map_option (Pair res) (link_work_add l (Obj_node (po_node po)) res (Complete_streaming p) g1) }"

definition do_start :: "'w node_env \<Rightarrow> nat \<Rightarrow> u32 \<Rightarrow> u32 \<Rightarrow> 'w graph \<Rightarrow> (spa_result \<times> 'w graph) option" where
  "do_start env l in_state out_state g =
     (if in_state < ST_PAUSED \<or> out_state < ST_PAUSED then Some (SPA_RESULT_OK, g)
      else if in_state = ST_STREAMING \<and> out_state = ST_STREAMING
      then map_option (Pair SPA_RESULT_OK) (pinos_link_update_state l LINK_RUNNING g)
      else do {
        g1 \<leftarrow> pinos_link_update_state l LINK_PAUSED g;
        k \<leftarrow> g_links g1 l;
        outp \<leftarrow> lk_output k;
        inp \<leftarrow> lk_input k;
        (res, g2) \<leftarrow> (if in_state = ST_PAUSED then link_start_port env l inp g1 else Some (SPA_RESULT_OK, g1));
        if out_state = ST_PAUSED then link_start_port env l outp g2 else Some (res, g2) })"

definition port_u32 :: "server_port \<Rightarrow> u32" where
  "port_u32 po = word_of_int (port_state_num (po_state po))"

definition check_states :: "'w node_env \<Rightarrow> nat \<Rightarrow> 'w graph \<Rightarrow> (spa_result \<times> 'w graph) option" where
  "check_states env l g = do {
     k \<leftarrow> g_links g l;
     if lk_state k = LINK_ERROR then Some (SPA_RESULT_ERROR, g)
     else case (lk_input k, lk_output k) of
       (Some inp, Some outp) \<Rightarrow> do {
         ip \<leftarrow> g_ports g inp;
         op \<leftarrow> g_ports g outp;
         inn \<leftarrow> g_nodes g (po_node ip);
         on \<leftarrow> g_nodes g (po_node op);
         if sn_state inn = NODE_ERROR \<or> sn_state on = NODE_ERROR then Some (SPA_RESULT_ERROR, g)
         else do {
           let in_state = port_u32 ip;
           let out_state = port_u32 op;
           if in_state = ST_STREAMING \<and> out_state = ST_STREAMING then Some (SPA_RESULT_OK, g)
           else do {
             (res1, g1) \<leftarrow> do_negotiate env l in_state out_state g;
             (res2, g2) \<leftarrow> (if res1 \<noteq> SPA_RESULT_OK then Some (res1, g1) else do_allocation env l in_state out_state g1);
             (res, g3) \<leftarrow> (if res2 \<noteq> SPA_RESULT_OK then Some (res2, g2) else do_start env l in_state out_state g2);
             if SPA_RESULT_IS_ERROR res then Some (res, g3)
             else map_option (Pair res) (pinos_link_activate l g3) } } }
     | _ \<Rightarrow> Some (SPA_RESULT_OK, g) }"


section \<open>Making and removing links\<close>

definition add_listener :: "nat \<Rightarrow> nat \<Rightarrow> 'w graph \<Rightarrow> 'w graph option" where
  "add_listener p l g = do {
     po \<leftarrow> g_ports g p;
     g1 \<leftarrow> mod_port p (\<lambda>po. po\<lparr>po_listeners := po_listeners po @ [l]\<rparr>) g;
     mod_node (po_node po) (\<lambda>x. x\<lparr>sn_async_listeners := sn_async_listeners x @ [l]\<rparr>) g1 }"

text \<open>The two listeners that a link has on one of its ports and on the node of that port.\<close>

definition remove_listener :: "nat \<Rightarrow> nat \<Rightarrow> 'w graph \<Rightarrow> 'w graph option" where
  "remove_listener p l g = do {
     po \<leftarrow> g_ports g p;
     ls \<leftarrow> list_remove l (po_listeners po);
     g1 \<leftarrow> mod_port p (\<lambda>po. po\<lparr>po_listeners := ls\<rparr>) g;
     x \<leftarrow> g_nodes g1 (po_node po);
     as \<leftarrow> list_remove l (sn_async_listeners x);
     mod_node (po_node po) (\<lambda>x. x\<lparr>sn_async_listeners := as\<rparr>) g1 }"

definition new_server_link :: "nat \<Rightarrow> nat \<Rightarrow> server_link" where
  "new_server_link outp inp =
     \<lparr>lk_state = LINK_INIT, lk_output = Some outp, lk_input = Some inp, lk_rt_output = None, lk_rt_input = None,
      lk_refcount = 1, lk_resources = [], lk_owner = Owner_none, lk_buffers = None, lk_n_buffers = 0,
      lk_work = \<lparr>gq_items = [], gq_wakeup = False\<rparr>\<rparr>"

definition pinos_link_new :: "nat \<Rightarrow> nat \<Rightarrow> 'w graph \<Rightarrow> (nat \<times> 'w graph) option" where
  "pinos_link_new outp inp g = do {
     let l = g_brk g;
     let g0 = g\<lparr>g_brk := l + 1, g_links := (g_links g)(l \<mapsto> new_server_link outp inp)\<rparr>;
     g1 \<leftarrow> add_listener inp l g0;
     g2 \<leftarrow> add_listener outp l g1;
     Some (l, g2\<lparr>g_link_list := g_link_list g2 @ [l]\<rparr>) }"

definition find_link :: "nat \<Rightarrow> nat list \<Rightarrow> 'w graph \<Rightarrow> nat option" where
  "find_link inp ls g = find (\<lambda>l. case g_links g l of None \<Rightarrow> False | Some k \<Rightarrow> lk_input k = Some inp) ls"

text \<open>The result \<open>None\<close> in the pair is the null pointer.\<close>

definition pinos_port_link :: "nat \<Rightarrow> nat \<Rightarrow> 'w graph \<Rightarrow> (nat option \<times> 'w graph) option" where
  "pinos_port_link outp inp g = do {
     op \<leftarrow> g_ports g outp;
     ip \<leftarrow> g_ports g inp;
     if po_node op = po_node ip then Some (None, g)
     else if po_links ip \<noteq> [] then Some (None, g)
     else case find_link inp (po_links op) g of
       Some l \<Rightarrow> Some (Some l, g)
     | None \<Rightarrow> do {
         on \<leftarrow> g_nodes g (po_node op);
         g1 \<leftarrow> mod_node (po_node ip) (\<lambda>x. x\<lparr>sn_live := sn_live on, sn_clock := (if sn_clock on \<noteq> None then sn_clock on else sn_clock x)\<rparr>) g;
         (l, g2) \<leftarrow> pinos_link_new outp inp g1;
         g3 \<leftarrow> mod_port outp (\<lambda>po. po\<lparr>po_links := po_links po @ [l]\<rparr>) g2;
         g4 \<leftarrow> mod_port inp (\<lambda>po. po\<lparr>po_links := po_links po @ [l]\<rparr>) g3;
         g5 \<leftarrow> mod_node (po_node op) (\<lambda>x. x\<lparr>sn_n_used_output_links := sn_n_used_output_links x + 1\<rparr>) g4;
         g6 \<leftarrow> mod_node (po_node ip) (\<lambda>x. x\<lparr>sn_n_used_input_links := sn_n_used_input_links x + 1\<rparr>) g5;
         Some (Some l, invoke_data (Do_add_link inp l) (invoke_data (Do_add_link outp l) g6)) } }"

definition pinos_link_free :: "nat \<Rightarrow> 'w graph \<Rightarrow> 'w graph" where
  "pinos_link_free l g = g\<lparr>g_links := (g_links g)(l := None)\<rparr>"

definition link_unref :: "nat \<Rightarrow> 'w graph \<Rightarrow> 'w graph option" where
  "link_unref l g = do {
     k \<leftarrow> g_links g l;
     if lk_refcount k - 1 = 0 then Some (pinos_link_free l g)
     else mod_link l (\<lambda>k. k\<lparr>lk_refcount := lk_refcount k - 1\<rparr>) g }"

definition link_bind_func :: "nat \<Rightarrow> nat \<Rightarrow> 'w graph \<Rightarrow> 'w graph option" where
  "link_bind_func l r = mod_link l (\<lambda>k. k\<lparr>lk_refcount := lk_refcount k + 1, lk_resources := lk_resources k @ [r]\<rparr>)"

definition link_unbind_func :: "nat \<Rightarrow> nat \<Rightarrow> 'w graph \<Rightarrow> 'w graph option" where
  "link_unbind_func l r g = do {
     k \<leftarrow> g_links g l;
     rs \<leftarrow> list_remove r (lk_resources k);
     g1 \<leftarrow> mod_link l (\<lambda>k. k\<lparr>lk_resources := rs\<rparr>) g;
     link_unref l g1 }"

fun unbind_all :: "nat \<Rightarrow> nat list \<Rightarrow> 'w graph \<Rightarrow> 'w graph option" where
  "unbind_all l [] g = Some g"
| "unbind_all l (r # rs) g = do { g1 \<leftarrow> link_unbind_func l r g; unbind_all l rs g1 }"

definition link_invoke_remove :: "nat \<Rightarrow> nat option \<Rightarrow> 'w graph \<Rightarrow> 'w graph option" where
  "link_invoke_remove l end g =
     (case end of
        None \<Rightarrow> Some g
      | Some p \<Rightarrow> do {
          g1 \<leftarrow> remove_listener p l g;
          g2 \<leftarrow> mod_link l (\<lambda>k. k\<lparr>lk_refcount := lk_refcount k + 1\<rparr>) g1;
          Some (invoke_data (Do_link_remove l) g2) })"

definition pinos_link_destroy :: "nat \<Rightarrow> 'w graph \<Rightarrow> 'w graph option" where
  "pinos_link_destroy l g = do {
     ls \<leftarrow> list_remove l (g_link_list g);
     k \<leftarrow> g_links g l;
     g1 \<leftarrow> unbind_all l (lk_resources k) (g\<lparr>g_link_list := ls\<rparr>);
     g2 \<leftarrow> link_invoke_remove l (lk_input k) g1;
     g3 \<leftarrow> link_invoke_remove l (lk_output k) g2;
     link_unref l g3 }"

definition do_link_remove :: "'w node_env \<Rightarrow> nat \<Rightarrow> 'w graph \<Rightarrow> 'w graph option" where
  "do_link_remove env l g = do {
     k \<leftarrow> g_links g l;
     g1 \<leftarrow> (case lk_rt_input k of
         None \<Rightarrow> Some g
       | Some p \<Rightarrow> do {
           ga \<leftarrow> pinos_port_pause_rt env p g;
           gb \<leftarrow> rt_unlist p l ga;
           mod_link l (\<lambda>k. k\<lparr>lk_rt_input := None\<rparr>) gb });
     g2 \<leftarrow> (case lk_rt_output k of
         None \<Rightarrow> Some g1
       | Some p \<Rightarrow> do {
           ga \<leftarrow> pinos_port_pause_rt env p g1;
           gb \<leftarrow> rt_unlist p l ga;
           mod_link l (\<lambda>k. k\<lparr>lk_rt_output := None\<rparr>) gb });
     Some (invoke_main (Do_link_remove_done l) g2) }"

definition clear_port_buffers :: "'w node_env \<Rightarrow> nat \<Rightarrow> nat \<Rightarrow> 'w graph \<Rightarrow> 'w graph option" where
  "clear_port_buffers env l p g = do {
     k \<leftarrow> g_links g l;
     po \<leftarrow> g_ports g p;
     if lk_owner k \<noteq> Owner_port p \<and> po_state po > PORT_READY then clear_port env p g else Some g }"

definition idle_if_unused :: "nat \<Rightarrow> 'w graph \<Rightarrow> 'w graph option" where
  "idle_if_unused n g = do {
     x \<leftarrow> g_nodes g n;
     if sn_n_used_input_links x = 0 \<and> sn_n_used_output_links x = 0 \<and> sn_state x > NODE_IDLE
     then pinos_node_update_state n NODE_IDLE g else Some g }"

definition do_link_remove_done :: "'w node_env \<Rightarrow> nat \<Rightarrow> 'w graph \<Rightarrow> 'w graph option" where
  "do_link_remove_done env l g = do {
     k \<leftarrow> g_links g l;
     g1 \<leftarrow> (case lk_input k of
         None \<Rightarrow> Some g
       | Some p \<Rightarrow> do {
           ga \<leftarrow> unlist p l g;
           po \<leftarrow> g_ports ga p;
           gb \<leftarrow> mod_node (po_node po) (\<lambda>x. x\<lparr>sn_n_used_input_links := sn_n_used_input_links x - 1\<rparr>) ga;
           gc \<leftarrow> clear_port_buffers env l p gb;
           gd \<leftarrow> idle_if_unused (po_node po) gc;
           mod_link l (\<lambda>k. k\<lparr>lk_input := None\<rparr>) gd });
     g2 \<leftarrow> (case lk_output k of
         None \<Rightarrow> Some g1
       | Some p \<Rightarrow> do {
           ga \<leftarrow> unlist p l g1;
           po \<leftarrow> g_ports ga p;
           gb \<leftarrow> mod_node (po_node po) (\<lambda>x. x\<lparr>sn_n_used_output_links := sn_n_used_output_links x - 1\<rparr>) ga;
           gc \<leftarrow> clear_port_buffers env l p gb;
           gd \<leftarrow> idle_if_unused (po_node po) gc;
           mod_link l (\<lambda>k. k\<lparr>lk_output := None\<rparr>) gd });
     link_unref l g2 }"

section \<open>Destroying ports and nodes\<close>

definition on_port_destroy :: "nat \<Rightarrow> nat \<Rightarrow> 'w graph \<Rightarrow> 'w graph option" where
  "on_port_destroy l p g = do {
     k \<leftarrow> g_links g l;
     if lk_input k \<noteq> Some p \<and> lk_output k \<noteq> Some p then Some g
     else do {
       g1 \<leftarrow> remove_listener p l g;
       let other = (if lk_input k = Some p then lk_output k else lk_input k);
       g2 \<leftarrow> mod_link l (\<lambda>k. if lk_input k = Some p then k\<lparr>lk_input := None\<rparr> else k\<lparr>lk_output := None\<rparr>) g1;
       g3 \<leftarrow> (if lk_owner k = Owner_port p
              then do {
                ga \<leftarrow> mod_link l (\<lambda>k. k\<lparr>lk_buffers := None, lk_n_buffers := 0\<rparr>) g2;
                q \<leftarrow> other;
                pinos_port_clear_buffers q ga }
              else Some g2);
       g4 \<leftarrow> pinos_link_update_state l LINK_UNLINKED g3;
       pinos_link_destroy l g4 } }"

fun notify_port_destroy :: "nat \<Rightarrow> nat list \<Rightarrow> 'w graph \<Rightarrow> 'w graph option" where
  "notify_port_destroy p [] g = Some g"
| "notify_port_destroy p (l # ls) g = do { g1 \<leftarrow> on_port_destroy l p g; notify_port_destroy p ls g1 }"

definition pinos_port_destroy :: "nat \<Rightarrow> 'w graph \<Rightarrow> 'w graph option" where
  "pinos_port_destroy p g = do {
     po \<leftarrow> g_ports g p;
     g1 \<leftarrow> notify_port_destroy p (po_listeners po) g;
     x \<leftarrow> g_nodes g1 (po_node po);
     g2 \<leftarrow> (case po_direction po of
         Dir_input \<Rightarrow> do { ps \<leftarrow> list_remove p (sn_input_ports x); mod_node (po_node po) (\<lambda>x. x\<lparr>sn_input_ports := ps\<rparr>) g1 }
       | Dir_output \<Rightarrow> do { ps \<leftarrow> list_remove p (sn_output_ports x); mod_node (po_node po) (\<lambda>x. x\<lparr>sn_output_ports := ps\<rparr>) g1 });
     Some (g2\<lparr>g_ports := (g_ports g2)(p := None)\<rparr>) }"

fun destroy_ports :: "nat list \<Rightarrow> 'w graph \<Rightarrow> 'w graph option" where
  "destroy_ports [] g = Some g"
| "destroy_ports (p # ps) g = do { g1 \<leftarrow> pinos_port_destroy p g; destroy_ports ps g1 }"

definition do_node_remove_done :: "nat \<Rightarrow> 'w graph \<Rightarrow> 'w graph option" where
  "do_node_remove_done n g = do {
     x \<leftarrow> g_nodes g n;
     g1 \<leftarrow> destroy_ports (sn_input_ports x) g;
     y \<leftarrow> g_nodes g1 n;
     g2 \<leftarrow> destroy_ports (sn_output_ports y) g1;
     Some (g2\<lparr>g_nodes := (g_nodes g2)(n := None)\<rparr>) }"

text \<open>The links of a port are paused and taken out of its list for the data loop.\<close>

fun rt_drop_links :: "'w node_env \<Rightarrow> spa_direction \<Rightarrow> nat list \<Rightarrow> 'w graph \<Rightarrow> 'w graph option" where
  "rt_drop_links env d [] g = Some g"
| "rt_drop_links env d (l # ls) g = do {
     k \<leftarrow> g_links g l;
     p \<leftarrow> (case d of Dir_input \<Rightarrow> lk_rt_input k | Dir_output \<Rightarrow> lk_rt_output k);
     g1 \<leftarrow> pinos_port_pause_rt env p g;
     g2 \<leftarrow> rt_unlist p l g1;
     g3 \<leftarrow> mod_link l (\<lambda>k. case d of Dir_input \<Rightarrow> k\<lparr>lk_rt_input := None\<rparr> | Dir_output \<Rightarrow> k\<lparr>lk_rt_output := None\<rparr>) g2;
     rt_drop_links env d ls g3 }"

fun rt_drop_ports :: "'w node_env \<Rightarrow> spa_direction \<Rightarrow> nat list \<Rightarrow> 'w graph \<Rightarrow> 'w graph option" where
  "rt_drop_ports env d [] g = Some g"
| "rt_drop_ports env d (p # ps) g = do {
     po \<leftarrow> g_ports g p;
     g1 \<leftarrow> rt_drop_links env d (po_rt_links po) g;
     rt_drop_ports env d ps g1 }"

definition do_node_remove :: "'w node_env \<Rightarrow> nat \<Rightarrow> 'w graph \<Rightarrow> 'w graph option" where
  "do_node_remove env n g = do {
     (_, g1) \<leftarrow> pause_node env n g;
     x \<leftarrow> g_nodes g1 n;
     g2 \<leftarrow> rt_drop_ports env Dir_input (sn_input_ports x) g1;
     g3 \<leftarrow> rt_drop_ports env Dir_output (sn_output_ports x) g2;
     Some (invoke_main (Do_node_remove_done n) g3) }"

definition pinos_node_destroy :: "nat \<Rightarrow> 'w graph \<Rightarrow> 'w graph option" where
  "pinos_node_destroy n g = do {
     x \<leftarrow> g_nodes g n;
     g1 \<leftarrow> (if sn_async_init x then Some g
            else do { ns \<leftarrow> list_remove n (g_node_list g); Some (g\<lparr>g_node_list := ns\<rparr>) });
     Some (invoke_data (Do_node_remove n) g1) }"


section \<open>Making nodes and ports\<close>

definition node_ports :: "spa_direction \<Rightarrow> server_node \<Rightarrow> nat list" where
  "node_ports d x = (case d of Dir_input \<Rightarrow> sn_input_ports x | Dir_output \<Rightarrow> sn_output_ports x)"

definition set_node_ports :: "spa_direction \<Rightarrow> nat list \<Rightarrow> server_node \<Rightarrow> server_node" where
  "set_node_ports d ps x = (case d of Dir_input \<Rightarrow> x\<lparr>sn_input_ports := ps\<rparr> | Dir_output \<Rightarrow> x\<lparr>sn_output_ports := ps\<rparr>)"

definition node_map :: "spa_direction \<Rightarrow> server_node \<Rightarrow> nat option list" where
  "node_map d x = (case d of Dir_input \<Rightarrow> sn_input_map x | Dir_output \<Rightarrow> sn_output_map x)"

definition set_node_map :: "spa_direction \<Rightarrow> nat option list \<Rightarrow> server_node \<Rightarrow> server_node" where
  "set_node_map d m x = (case d of Dir_input \<Rightarrow> x\<lparr>sn_input_map := m\<rparr> | Dir_output \<Rightarrow> x\<lparr>sn_output_map := m\<rparr>)"

definition write_node_map :: "nat \<Rightarrow> spa_direction \<Rightarrow> u32 \<Rightarrow> nat option \<Rightarrow> 'w graph \<Rightarrow> 'w graph option" where
  "write_node_map n d i v g = do {
     x \<leftarrow> g_nodes g n;
     if length (node_map d x) \<le> unat i then None
     else mod_node n (set_node_map d ((node_map d x)[unat i := v])) g }"

text \<open>\<^verbatim>\<open>spa_list_insert\<close> after the element before position \<open>i\<close>; position 0 follows the head.\<close>

definition insert_at :: "nat \<Rightarrow> 'a \<Rightarrow> 'a list \<Rightarrow> 'a list" where
  "insert_at i y xs = take i xs @ y # drop i xs"

text \<open>The loop of \<^verbatim>\<open>update_port_ids\<close> for one direction. The pointer \<open>ports\<close> is the number of the element it
  points to, counted from 1, and 0 for the head of the list.\<close>

definition port_at :: "nat \<Rightarrow> nat list \<Rightarrow> nat option" where
  "port_at c ps = (if c = 0 \<or> length ps < c then None else Some (ps ! (c - 1)))"

definition advance :: "nat \<Rightarrow> nat list \<Rightarrow> nat" where
  "advance c ps = (if c < length ps then c + 1 else 0)"

definition new_node_port :: "'w node_env \<Rightarrow> nat \<Rightarrow> spa_direction \<Rightarrow> u32 \<Rightarrow> nat \<Rightarrow> 'w graph \<Rightarrow> 'w graph option" where
  "new_node_port env n d i c g = do {
     let (p, g1) = pinos_port_new n d i g;
     let (_, g2) = call_node (ne_set_io env n d i p) g1;
     g3 \<leftarrow> mod_node n (\<lambda>x. set_node_ports d (insert_at c p (node_ports d x)) x) g2;
     write_node_map n d i (Some p) g3 }"

partial_function (option) update_ports :: "'w node_env \<Rightarrow> nat \<Rightarrow> spa_direction \<Rightarrow> u32 list \<Rightarrow> nat \<Rightarrow> 'w graph \<Rightarrow> 'w graph option" where
  "update_ports env n d ids c g =
     (case g_nodes g n of
        None \<Rightarrow> None
      | Some x \<Rightarrow>
          (case (port_at c (node_ports d x), ids) of
             (None, []) \<Rightarrow> Some g
           | (Some p, []) \<Rightarrow>
               (case g_ports g p of
                  None \<Rightarrow> None
                | Some po \<Rightarrow>
                    (case write_node_map n d (po_port_id po) None g of
                       None \<Rightarrow> None
                     | Some g1 \<Rightarrow>
                         (case pinos_port_destroy p g1 of
                            None \<Rightarrow> None
                          | Some g2 \<Rightarrow> update_ports env n d [] (if c < length (node_ports d x) then c else 0) g2)))
           | (Some p, i # rest) \<Rightarrow>
               (case g_ports g p of
                  None \<Rightarrow> None
                | Some po \<Rightarrow>
                    if po_port_id po = i
                    then (case write_node_map n d i (Some p) g of
                            None \<Rightarrow> None
                          | Some g1 \<Rightarrow> update_ports env n d rest (advance c (node_ports d x)) g1)
                    else (case new_node_port env n d i c g of
                            None \<Rightarrow> None
                          | Some g1 \<Rightarrow> update_ports env n d rest (if c < length (node_ports d x) then c + 2 else 0) g1))
           | (None, i # rest) \<Rightarrow>
               (case new_node_port env n d i c g of
                  None \<Rightarrow> None
                | Some g1 \<Rightarrow> update_ports env n d rest (if c < length (node_ports d x) then c + 2 else 0) g1)))"

text \<open>The arrays for the ids have the number of ports that the node reports.\<close>

definition update_port_ids :: "'w node_env \<Rightarrow> nat \<Rightarrow> 'w graph \<Rightarrow> 'w graph option" where
  "update_port_ids env n g =
     (case ne_get_n_ports env n (g_world g) of
        ((n_in, max_in), (n_out, max_out)) \<Rightarrow>
          (case ne_get_port_ids env n (g_world g) of
             (in_ids, out_ids) \<Rightarrow>
               if length in_ids \<noteq> unat n_in \<or> length out_ids \<noteq> unat n_out then None
               else do {
                 g1 \<leftarrow> mod_node n (\<lambda>x. x\<lparr>sn_n_input_ports := n_in, sn_n_output_ports := n_out,
                        sn_input_map := replicate (unat max_in) None, sn_output_map := replicate (unat max_out) None\<rparr>) g;
                 g2 \<leftarrow> update_ports env n Dir_input in_ids 0 g1;
                 update_ports env n Dir_output out_ids 0 g2 }))"

definition init_complete :: "'w node_env \<Rightarrow> nat \<Rightarrow> 'w graph \<Rightarrow> 'w graph option" where
  "init_complete env n g = do {
     g1 \<leftarrow> update_port_ids env n g;
     g2 \<leftarrow> mod_node n (\<lambda>x. x\<lparr>sn_async_init := False\<rparr>) g1;
     pinos_node_update_state n NODE_SUSPENDED (g2\<lparr>g_node_list := g_node_list g2 @ [n]\<rparr>) }"

text \<open>A node at a new address. A node with an info dictionary gets properties, and then the test for their absence
  leads to the label \<^verbatim>\<open>no_mem\<close>; the result is the null pointer.\<close>

definition pinos_node_new :: "'w node_env \<Rightarrow> bool \<Rightarrow> bool \<Rightarrow> nat option \<Rightarrow> 'w graph \<Rightarrow> (nat option \<times> 'w graph) option" where
  "pinos_node_new env async has_info clock g = (if has_info then Some (None, g) else do {
     let n = g_brk g;
     let g1 = g\<lparr>g_brk := n + 1, g_nodes := (g_nodes g)(n \<mapsto>
       \<lparr>sn_state = NODE_CREATING, sn_input_ports = [], sn_output_ports = [], sn_n_input_ports = 0, sn_n_output_ports = 0,
        sn_input_map = [], sn_output_map = [], sn_n_used_input_links = 0, sn_n_used_output_links = 0, sn_live = False,
        sn_clock = clock, sn_async_init = async, sn_async_listeners = [], sn_work = \<lparr>gq_items = [], gq_wakeup = False\<rparr>\<rparr>)\<rparr>;
     g2 \<leftarrow> (if async then node_work_add n (SPA_RESULT_RETURN_ASYNC 0) (Init_complete n) g1 else init_complete env n g1);
     Some (Some n, g2) })"

fun find_free :: "nat list \<Rightarrow> 'w graph \<Rightarrow> nat option option" where
  "find_free [] g = Some None"
| "find_free (p # ps) g = do { po \<leftarrow> g_ports g p; if po_links po = [] then Some (Some p) else find_free ps g }"

text \<open>A new port in the first free slot of the map; it is added to the front of the list.\<close>

definition create_port :: "'w node_env \<Rightarrow> nat \<Rightarrow> spa_direction \<Rightarrow> nat \<Rightarrow> 'w graph \<Rightarrow> (nat \<times> 'w graph) option" where
  "create_port env n d i g = do {
     let (p, g1) = pinos_port_new n d (of_nat i) g;
     g2 \<leftarrow> write_node_map n d (of_nat i) (Some p) g1;
     g3 \<leftarrow> mod_node n (\<lambda>x. case d of
         Dir_input \<Rightarrow> x\<lparr>sn_input_ports := p # sn_input_ports x, sn_n_input_ports := sn_n_input_ports x + 1\<rparr>
       | Dir_output \<Rightarrow> x\<lparr>sn_output_ports := p # sn_output_ports x, sn_n_output_ports := sn_n_output_ports x + 1\<rparr>) g2;
     let (res, g4) = call_node (ne_add_port env n d (of_nat i)) g3;
     Some (p, if SPA_RESULT_IS_ERROR res then g4 else snd (call_node (ne_set_io env n d (of_nat i) p) g4)) }"

definition pinos_node_get_free_port :: "'w node_env \<Rightarrow> nat \<Rightarrow> spa_direction \<Rightarrow> 'w graph \<Rightarrow> (nat option \<times> 'w graph) option" where
  "pinos_node_get_free_port env n d g = do {
     x \<leftarrow> g_nodes g n;
     free \<leftarrow> find_free (node_ports d x) g;
     case free of
       Some p \<Rightarrow> Some (Some p, g)
     | None \<Rightarrow>
         let n_ports = (case d of Dir_input \<Rightarrow> sn_n_input_ports x | Dir_output \<Rightarrow> sn_n_output_ports x) in
         if unat n_ports < length (node_map d x)
         then (case find (\<lambda>i. node_map d x ! i = None) [0..<length (node_map d x)] of
                 None \<Rightarrow> Some (None, g)
               | Some i \<Rightarrow> map_option (\<lambda>(p, g1). (Some p, g1)) (create_port env n d i g))
         else if d = Dir_output \<and> node_ports d x \<noteq> [] then Some (Some (hd (node_ports d x)), g)
         else Some (None, g) }"

section \<open>Work queues and loops\<close>

definition run_work :: "'w node_env \<Rightarrow> graph_item \<Rightarrow> 'w graph \<Rightarrow> 'w graph option" where
  "run_work env it g =
     (case gi_func it of
        Complete_ready p \<Rightarrow> if SPA_RESULT_IS_OK (gi_res it) then mod_port p (\<lambda>po. po\<lparr>po_state := PORT_READY\<rparr>) g else Some g
      | Complete_paused p \<Rightarrow> if SPA_RESULT_IS_OK (gi_res it) then mod_port p (\<lambda>po. po\<lparr>po_state := PORT_PAUSED\<rparr>) g else Some g
      | Complete_streaming p \<Rightarrow> if SPA_RESULT_IS_OK (gi_res it) then mod_port p (\<lambda>po. po\<lparr>po_state := PORT_STREAMING\<rparr>) g else Some g
      | Check_states l \<Rightarrow> map_option snd (check_states env l g)
      | On_state_complete n st \<Rightarrow> on_state_complete n st (gi_res it) g
      | Init_complete n \<Rightarrow> init_complete env n g)"

definition get_queue :: "work_obj \<Rightarrow> 'w graph \<Rightarrow> graph_queue option" where
  "get_queue ow g = (case ow of Obj_node n \<Rightarrow> map_option sn_work (g_nodes g n) | Obj_link l \<Rightarrow> map_option lk_work (g_links g l))"

definition mod_queue :: "work_obj \<Rightarrow> (graph_queue \<Rightarrow> graph_queue) \<Rightarrow> 'w graph \<Rightarrow> 'w graph option" where
  "mod_queue ow f g =
     (case ow of Obj_node n \<Rightarrow> mod_node n (\<lambda>x. x\<lparr>sn_work := f (sn_work x)\<rparr>) g
      | Obj_link l \<Rightarrow> mod_link l (\<lambda>k. k\<lparr>lk_work := f (lk_work k)\<rparr>) g)"

definition graph_item_waits :: "nat \<Rightarrow> graph_item \<Rightarrow> bool" where
  "graph_item_waits k it \<longleftrightarrow> gi_seq it \<noteq> SPA_ID_INVALID \<or> (gi_res it = SPA_RESULT_WAIT_SYNC \<and> k \<noteq> 0)"

definition process_item :: "'w node_env \<Rightarrow> work_obj \<Rightarrow> graph_queue \<Rightarrow> nat \<Rightarrow> 'w graph \<Rightarrow> ('w graph \<times> nat) option" where
  "process_item env ow q k g =
     (let it = gq_items q ! k in
      if graph_item_waits k it then Some (g, k + 1)
      else do {
        g1 \<leftarrow> mod_queue ow (\<lambda>q. q\<lparr>gq_items := take k (gq_items q) @ drop (k + 1) (gq_items q)\<rparr>) g;
        g2 \<leftarrow> run_work env it g1;
        Some (g2, k) })"

partial_function (option) process_from :: "'w node_env \<Rightarrow> work_obj \<Rightarrow> nat \<Rightarrow> 'w graph \<Rightarrow> 'w graph option" where
  "process_from env ow k g =
     (case get_queue ow g of
        None \<Rightarrow> None
      | Some q \<Rightarrow>
          if k + 1 < length (gq_items q)
          then (case process_item env ow q k g of None \<Rightarrow> None | Some (g', k') \<Rightarrow> process_from env ow k' g')
          else if k < length (gq_items q) then map_option fst (process_item env ow q k g)
          else Some g)"

text \<open>One run of the wakeup event of a queue.\<close>

definition process_queue :: "'w node_env \<Rightarrow> work_obj \<Rightarrow> 'w graph \<Rightarrow> 'w graph option" where
  "process_queue env ow g = do { g1 \<leftarrow> mod_queue ow (\<lambda>q. q\<lparr>gq_wakeup := False\<rparr>) g; process_from env ow 0 g1 }"

fun complete_links :: "nat \<Rightarrow> u32 \<Rightarrow> spa_result \<Rightarrow> nat list \<Rightarrow> 'w graph \<Rightarrow> 'w graph option" where
  "complete_links n seq res [] g = Some g"
| "complete_links n seq res (l # ls) g = do {
     g1 \<leftarrow> mod_link l (\<lambda>k. k\<lparr>lk_work := queue_complete (Obj_node n) seq res (lk_work k)\<rparr>) g;
     complete_links n seq res ls g1 }"

text \<open>The event \<^verbatim>\<open>AsyncComplete\<close> of a node.\<close>

definition on_node_async_complete :: "nat \<Rightarrow> u32 \<Rightarrow> spa_result \<Rightarrow> 'w graph \<Rightarrow> 'w graph option" where
  "on_node_async_complete n seq res g = do {
     g1 \<leftarrow> mod_node n (\<lambda>x. x\<lparr>sn_work := queue_complete (Obj_node n) seq res (sn_work x)\<rparr>) g;
     x \<leftarrow> g_nodes g1 n;
     complete_links n seq res (sn_async_listeners x) g1 }"

definition run_invoke :: "'w node_env \<Rightarrow> invoke \<Rightarrow> 'w graph \<Rightarrow> 'w graph option" where
  "run_invoke env i g =
     (case i of
        Do_add_link p l \<Rightarrow> do_add_link p l g
      | Do_remove_link p l \<Rightarrow> do_remove_link env p l g
      | Do_remove_link_done p l \<Rightarrow> do_remove_link_done env p l g
      | Do_clear_buffers p \<Rightarrow> do_clear_buffers env p g
      | Do_clear_buffers_done p \<Rightarrow> do_clear_buffers_done env p g
      | Do_link_remove l \<Rightarrow> do_link_remove env l g
      | Do_link_remove_done l \<Rightarrow> do_link_remove_done env l g
      | Do_node_remove n \<Rightarrow> do_node_remove env n g
      | Do_node_remove_done n \<Rightarrow> do_node_remove_done n g)"

text \<open>The next call that waits in a loop.\<close>

definition data_loop_run :: "'w node_env \<Rightarrow> 'w graph \<Rightarrow> 'w graph option" where
  "data_loop_run env g = (case g_data g of [] \<Rightarrow> Some g | i # is \<Rightarrow> run_invoke env i (g\<lparr>g_data := is\<rparr>))"

definition main_loop_run :: "'w node_env \<Rightarrow> 'w graph \<Rightarrow> 'w graph option" where
  "main_loop_run env g = (case g_main g of [] \<Rightarrow> Some g | i # is \<Rightarrow> run_invoke env i (g\<lparr>g_main := is\<rparr>))"

text \<open>What happens to the graph: calls of the modules, runs of the two loops and of the work queues, and events.\<close>

datatype graph_op =
    Op_node_new bool bool "nat option"
  | Op_get_free_port nat spa_direction
  | Op_port_link nat nat
  | Op_port_unlink nat nat
  | Op_activate nat
  | Op_link_bind nat nat
  | Op_link_unbind nat nat
  | Op_link_destroy nat
  | Op_node_set_state nat node_state
  | Op_node_destroy nat
  | Op_async_complete nat u32 spa_result
  | Op_queue work_obj
  | Op_data
  | Op_main

definition graph_step :: "'w node_env \<Rightarrow> graph_op \<Rightarrow> 'w graph \<Rightarrow> 'w graph option" where
  "graph_step env act g =
     (case act of
        Op_node_new async has_info clock \<Rightarrow> map_option snd (pinos_node_new env async has_info clock g)
      | Op_get_free_port n d \<Rightarrow> map_option snd (pinos_node_get_free_port env n d g)
      | Op_port_link outp inp \<Rightarrow> map_option snd (pinos_port_link outp inp g)
      | Op_port_unlink p l \<Rightarrow> pinos_port_unlink p l g
      | Op_activate l \<Rightarrow> pinos_link_activate l g
      | Op_link_bind l r \<Rightarrow> link_bind_func l r g
      | Op_link_unbind l r \<Rightarrow> link_unbind_func l r g
      | Op_link_destroy l \<Rightarrow> pinos_link_destroy l g
      | Op_node_set_state n st \<Rightarrow> map_option snd (pinos_node_set_state env n st g)
      | Op_node_destroy n \<Rightarrow> pinos_node_destroy n g
      | Op_async_complete n seq res \<Rightarrow> on_node_async_complete n seq res g
      | Op_queue ow \<Rightarrow> process_queue env ow g
      | Op_data \<Rightarrow> data_loop_run env g
      | Op_main \<Rightarrow> main_loop_run env g)"

definition empty_graph :: "'w \<Rightarrow> 'w graph" where
  "empty_graph w = \<lparr>g_nodes = (\<lambda>_. None), g_ports = (\<lambda>_. None), g_links = (\<lambda>_. None), g_bufs = (\<lambda>_. []), g_brk = 1,
     g_node_list = [], g_link_list = [], g_main = [], g_data = [], g_world = w\<rparr>"

fun graph_run :: "'w node_env \<Rightarrow> graph_op list \<Rightarrow> 'w graph \<Rightarrow> 'w graph option" where
  "graph_run env [] g = Some g"
| "graph_run env (act # acts) g = (case graph_step env act g of None \<Rightarrow> None | Some g' \<Rightarrow> graph_run env acts g')"

declare search_format.simps [code]
declare update_ports.simps [code]
declare process_from.simps [code]

end
