(* ===== verification/Pinos_Graph_Inv.thy ===== *)
theory Pinos_Graph_Inv
  imports Pinos_Graph_Ops
begin

text \<open>
  What all operations on the graph keep. \<open>ensures\<close> is partial and \<open>returns\<close> total correctness of a
  computation that may fail. The locale \<open>soft_invariant\<close> collects the steps that only touch states, buffers and
  queues, so that one proof over \<open>check_states\<close> and the other operations serves every invariant.
\<close>

section \<open>Correctness of computations that may fail\<close>

definition ensures :: "('a \<Rightarrow> bool) \<Rightarrow> 'a option \<Rightarrow> bool" where
  "ensures P x \<longleftrightarrow> (\<forall>y. x = Some y \<longrightarrow> P y)"

definition returns :: "('a \<Rightarrow> bool) \<Rightarrow> 'a option \<Rightarrow> bool" where
  "returns P x \<longleftrightarrow> (\<exists>y. x = Some y \<and> P y)"

named_theorems wp \<open>rules for the parts of a computation\<close>

lemma ensures_simps [simp]: "ensures P None" "ensures P (Some y) \<longleftrightarrow> P y"
  by (simp_all add: ensures_def)

lemma returns_simps [simp]: "\<not> returns P None" "returns P (Some y) \<longleftrightarrow> P y"
  by (simp_all add: returns_def)

lemma ensures_bind: "ensures (\<lambda>y. ensures P (f y)) m \<Longrightarrow> ensures P (m \<bind> f)"
  by (cases m) simp_all

lemma returns_bind: "returns (\<lambda>y. returns P (f y)) m \<Longrightarrow> returns P (m \<bind> f)"
  by (cases m) simp_all

lemma ensures_mono: "ensures P x \<Longrightarrow> (\<And>y. P y \<Longrightarrow> Q y) \<Longrightarrow> ensures Q x"
  by (simp add: ensures_def)

lemma returns_mono: "returns P x \<Longrightarrow> (\<And>y. P y \<Longrightarrow> Q y) \<Longrightarrow> returns Q x"
  by (auto simp: returns_def)

lemma ensures_map: "ensures (\<lambda>y. P (f y)) x \<Longrightarrow> ensures P (map_option f x)"
  by (cases x) simp_all

lemma returns_map: "returns (\<lambda>y. P (f y)) x \<Longrightarrow> returns P (map_option f x)"
  by (cases x) simp_all

lemma ensuresD: "ensures P x \<Longrightarrow> x = Some y \<Longrightarrow> P y"
  by (simp add: ensures_def)

lemma ensures_case: "ensures (\<lambda>y. ensures P (f y)) m \<Longrightarrow> ensures P (case m of None \<Rightarrow> None | Some y \<Rightarrow> f y)"
  by (cases m) simp_all

lemma ensures_case_any: "(\<And>y. ensures P (f y)) \<Longrightarrow> ensures P (case m of None \<Rightarrow> None | Some y \<Rightarrow> f y)"
  by (cases m) simp_all

lemma ensures_option:
  "(m = None \<Longrightarrow> ensures P a) \<Longrightarrow> (\<And>y. m = Some y \<Longrightarrow> ensures P (f y)) \<Longrightarrow> ensures P (case m of None \<Rightarrow> a | Some y \<Rightarrow> f y)"
  by (cases m) simp_all

lemma returns_ensures: "returns P x \<Longrightarrow> ensures P x"
  by (auto simp: returns_def ensures_def)

lemma ensures_any: "(\<And>y. P y) \<Longrightarrow> ensures P x"
  by (simp add: ensures_def)

lemma ensures_mod_node: "(\<And>x. g_nodes g n = Some x \<Longrightarrow> P (g\<lparr>g_nodes := (g_nodes g)(n \<mapsto> f x)\<rparr>)) \<Longrightarrow> ensures P (mod_node n f g)"
  by (auto simp: mod_node_def split: option.splits)

lemma ensures_mod_port: "(\<And>x. g_ports g p = Some x \<Longrightarrow> P (g\<lparr>g_ports := (g_ports g)(p \<mapsto> f x)\<rparr>)) \<Longrightarrow> ensures P (mod_port p f g)"
  by (auto simp: mod_port_def split: option.splits)

lemma ensures_mod_link: "(\<And>x. g_links g l = Some x \<Longrightarrow> P (g\<lparr>g_links := (g_links g)(l \<mapsto> f x)\<rparr>)) \<Longrightarrow> ensures P (mod_link l f g)"
  by (auto simp: mod_link_def split: option.splits)

lemma returns_mod_node:
  "g_nodes g n = Some x \<Longrightarrow> P (g\<lparr>g_nodes := (g_nodes g)(n \<mapsto> f x)\<rparr>) \<Longrightarrow> returns P (mod_node n f g)"
  by (simp add: mod_node_def)

lemma returns_mod_port:
  "g_ports g p = Some x \<Longrightarrow> P (g\<lparr>g_ports := (g_ports g)(p \<mapsto> f x)\<rparr>) \<Longrightarrow> returns P (mod_port p f g)"
  by (simp add: mod_port_def)

lemma returns_mod_link:
  "g_links g l = Some x \<Longrightarrow> P (g\<lparr>g_links := (g_links g)(l \<mapsto> f x)\<rparr>) \<Longrightarrow> returns P (mod_link l f g)"
  by (simp add: mod_link_def)

section \<open>Steps that leave the structure alone\<close>

definition same_node :: "server_node \<Rightarrow> server_node \<Rightarrow> bool" where
  "same_node x y \<longleftrightarrow> sn_input_ports y = sn_input_ports x \<and> sn_output_ports y = sn_output_ports x \<and>
     sn_n_used_input_links y = sn_n_used_input_links x \<and> sn_n_used_output_links y = sn_n_used_output_links x \<and>
     sn_async_listeners y = sn_async_listeners x \<and> sn_input_map y = sn_input_map x \<and> sn_output_map y = sn_output_map x"

definition same_port :: "server_port \<Rightarrow> server_port \<Rightarrow> bool" where
  "same_port x y \<longleftrightarrow> po_node y = po_node x \<and> po_direction y = po_direction x \<and> po_port_id y = po_port_id x \<and>
     po_links y = po_links x \<and> po_rt_links y = po_rt_links x \<and> po_listeners y = po_listeners x"

definition same_link :: "server_link \<Rightarrow> server_link \<Rightarrow> bool" where
  "same_link x y \<longleftrightarrow> lk_input y = lk_input x \<and> lk_output y = lk_output x \<and> lk_rt_input y = lk_rt_input x \<and>
     lk_rt_output y = lk_rt_output x \<and> lk_refcount y = lk_refcount x \<and> lk_resources y = lk_resources x \<and>
     (lk_state y = LINK_RUNNING \<longrightarrow> lk_state x = LINK_RUNNING)"

lemmas same_defs = same_node_def same_port_def same_link_def

locale soft_invariant =
  fixes I :: "'w graph \<Rightarrow> bool"
  assumes world: "I g \<Longrightarrow> I (g\<lparr>g_world := w\<rparr>)"
    and bufs: "I g \<Longrightarrow> I (g\<lparr>g_brk := g_brk g + 1, g_bufs := b\<rparr>)"
    and node: "I g \<Longrightarrow> g_nodes g n = Some x \<Longrightarrow> same_node x y \<Longrightarrow> I (g\<lparr>g_nodes := (g_nodes g)(n \<mapsto> y)\<rparr>)"
    and port: "I g \<Longrightarrow> g_ports g p = Some px \<Longrightarrow> same_port px py \<Longrightarrow> I (g\<lparr>g_ports := (g_ports g)(p \<mapsto> py)\<rparr>)"
    and link: "I g \<Longrightarrow> g_links g l = Some k \<Longrightarrow> same_link k k' \<Longrightarrow> I (g\<lparr>g_links := (g_links g)(l \<mapsto> k')\<rparr>)"
begin

lemma soft_mod_node: "I g \<Longrightarrow> (\<And>x. same_node x (f x)) \<Longrightarrow> ensures I (mod_node n f g)"
  by (rule ensures_mod_node) (rule node)

lemma soft_mod_port: "I g \<Longrightarrow> (\<And>x. same_port x (f x)) \<Longrightarrow> ensures I (mod_port p f g)"
  by (rule ensures_mod_port) (rule port)

lemma soft_mod_link: "I g \<Longrightarrow> (\<And>x. same_link x (f x)) \<Longrightarrow> ensures I (mod_link l f g)"
  by (rule ensures_mod_link) (rule link)

lemma soft_call: "I g \<Longrightarrow> I (snd (call_node f g))"
  by (simp add: call_node_def world split: prod.splits)

lemma soft_call': "call_node f g = (r, g') \<Longrightarrow> I g \<Longrightarrow> I g'"
  using soft_call [of g f] by simp

lemma soft_bind: "ensures I m \<Longrightarrow> (\<And>g. I g \<Longrightarrow> ensures P (f g)) \<Longrightarrow> ensures P (m \<bind> f)"
  by (rule ensures_bind) (erule ensures_mono)

lemma soft_bind2:
  "ensures (\<lambda>x. I (snd x)) m \<Longrightarrow> (\<And>r g. I g \<Longrightarrow> ensures P (f (r, g))) \<Longrightarrow> ensures P (m \<bind> f)"
  by (rule ensures_bind) (auto elim!: ensures_mono)

lemma soft_look: "(\<And>y. ensures P (f y)) \<Longrightarrow> ensures P (m \<bind> f)"
  by (rule ensures_bind) (rule ensures_any)

lemma soft_pair: "ensures I m \<Longrightarrow> ensures (\<lambda>x. I (snd x)) (map_option (Pair r) m)"
  by (rule ensures_map) simp

lemma update_node_soft: "I g \<Longrightarrow> ensures I (pinos_node_update_state n st g)"
  unfolding pinos_node_update_state_def by (rule soft_mod_node) (simp_all add: same_defs)

lemma link_work_soft: "I g \<Longrightarrow> ensures I (link_work_add l obj res f g)"
  unfolding link_work_add_def by (rule soft_mod_link) (simp_all add: same_defs)

lemma node_work_soft: "I g \<Longrightarrow> ensures I (node_work_add n res f g)"
  unfolding node_work_add_def by (rule soft_mod_node) (simp_all add: same_defs)

lemma suspend_ports_soft: "I g \<Longrightarrow> ensures (\<lambda>x. I (snd x)) (suspend_ports env n d ps res g)"
proof (induction ps arbitrary: res g)
  case (Cons p ps)
  show ?case
    unfolding suspend_ports.simps Let_def
    by (rule soft_look) (auto simp: same_defs split: prod.splits intro!: soft_bind Cons.IH soft_mod_port intro: soft_call' [OF _ Cons.prems])
qed simp

lemma suspend_node_soft: "I g \<Longrightarrow> ensures (\<lambda>x. I (snd x)) (suspend_node env n g)"
  unfolding suspend_node_def
  by (rule soft_look) (auto intro!: soft_bind2 [where m = "suspend_ports _ _ _ _ _ _"] suspend_ports_soft)

lemma pause_node_soft: "I g \<Longrightarrow> ensures (\<lambda>x. I (snd x)) (pause_node env n g)"
  unfolding pause_node_def by (rule soft_look) (auto intro: soft_call)

lemma clock_soft: "I g \<Longrightarrow> ensures I (send_clock_update env n g)"
  unfolding send_clock_update_def by (rule soft_look) (simp add: soft_call)

lemma activate_links_soft: "I g \<Longrightarrow> ensures I (activate_links ls g)"
  by (induction ls arbitrary: g) (auto simp: pinos_link_activate_def intro!: soft_bind link_work_soft)

lemma activate_ports_soft: "I g \<Longrightarrow> ensures I (activate_ports ps g)"
proof (induction ps arbitrary: g)
  case (Cons p ps)
  show ?case unfolding activate_ports.simps
    by (rule soft_look) (auto intro!: soft_bind activate_links_soft Cons)
qed simp

lemma node_activate_soft: "I g \<Longrightarrow> ensures I (node_activate n g)"
  unfolding node_activate_def by (rule soft_look) (auto intro!: soft_bind activate_ports_soft)

lemma set_state_soft: "I g \<Longrightarrow> ensures (\<lambda>x. I (snd x)) (pinos_node_set_state env n st g)"
  unfolding pinos_node_set_state_def start_node_def
  by (auto intro!: soft_bind soft_bind2 soft_pair node_work_soft suspend_node_soft pause_node_soft node_activate_soft clock_soft
      intro: soft_call' split: node_state.splits prod.splits)

lemma pause_rt_soft: "I g \<Longrightarrow> ensures I (pinos_port_pause_rt env p g)"
  unfolding pinos_port_pause_rt_def by (rule soft_look) (auto simp: same_defs intro!: soft_mod_port soft_call)

lemma clear_port_soft: "I g \<Longrightarrow> ensures I (clear_port env p g)"
  unfolding clear_port_def by (rule soft_look) (auto simp: same_defs intro!: soft_mod_port soft_call)

lemma search_format_soft: "I g \<Longrightarrow> ensures (\<lambda>x. I (snd x)) (search_format env op ip flt iidx g)"
proof -
  have "search_format env op ip flt iidx g = Some r \<Longrightarrow> I g \<longrightarrow> I (snd r)" for r
  proof (induction rule: search_format.raw_induct [rotated, consumes 1])
    case (1 rec env op ip flt iidx g r)
    obtain res f g1 where c1: "call_node (ne_enum_formats env (po_node ip) Dir_input (po_port_id ip) None iidx) g = ((res, f), g1)"
      by (metis prod.exhaust)
    let ?flt = "if SPA_RESULT_IS_ERROR res then flt else f"
    obtain res2 fmt g2 where c2: "call_node (ne_enum_formats env (po_node op) Dir_output (po_port_id op) ?flt 0) g1 = ((res2, fmt), g2)"
      by (metis prod.exhaust)
    have keep: "I g \<Longrightarrow> I g1" "I g1 \<Longrightarrow> I g2" by (rule soft_call' [OF c1], assumption, rule soft_call' [OF c2], assumption)
    show ?case
    proof
      assume "I g"
      then have "I g1" "I g2" using keep by blast+
      then show "I (snd r)" using 1(1) [of env op ip ?flt "iidx + 1" g2 r] 1(2) unfolding c1 prod.case c2 by (auto split: if_splits)
    qed
  qed
  then show "I g \<Longrightarrow> ensures (\<lambda>x. I (snd x)) (search_format env op ip flt iidx g)" by (simp add: ensures_def)
qed

lemma find_format_soft: "I g \<Longrightarrow> ensures (\<lambda>x. I (snd x)) (pinos_core_find_format env outp inp g)"
  unfolding pinos_core_find_format_def Let_def
  by (auto intro!: soft_look search_format_soft intro: soft_call' split: prod.splits)

lemma link_state_soft: "st \<noteq> LINK_RUNNING \<Longrightarrow> I g \<Longrightarrow> ensures I (pinos_link_update_state l st g)"
  unfolding pinos_link_update_state_def by (rule soft_mod_link) (simp_all add: same_defs)

lemma reset_idle_soft: "I g \<Longrightarrow> ensures (\<lambda>x. I (snd x)) (reset_idle env n st g)"
  unfolding reset_idle_def
  by (rule soft_look) (auto intro!: ensures_map ensures_mono [OF set_state_soft] split: prod.splits)

lemma link_set_format_soft: "I g \<Longrightarrow> ensures (\<lambda>x. I (snd x)) (link_set_format env l d p f g)"
  unfolding link_set_format_def Let_def
  by (rule soft_look) (auto intro!: soft_pair link_state_soft link_work_soft intro: soft_call' split: prod.splits)

lemma negotiate_soft: "I g \<Longrightarrow> ensures (\<lambda>x. I (snd x)) (do_negotiate env l a b g)"
  unfolding do_negotiate_def
  by (auto intro!: soft_bind [OF link_state_soft] soft_look [where m = "g_links _ _"] soft_look [where m = "g_ports _ _"]
      soft_look [where m = "lk_output _"] soft_look [where m = "lk_input _"]
      soft_bind2 find_format_soft soft_pair link_state_soft reset_idle_soft link_set_format_soft split: option.splits)

lemma soft_mod_link_bufs:
  "I g \<Longrightarrow> (\<And>x. same_link x (f x)) \<Longrightarrow> ensures I (mod_link l f (g\<lparr>g_brk := Suc (g_brk g), g_bufs := b\<rparr>))"
  using bufs [of g b] by (intro soft_mod_link) simp_all

lemma alloc_failed_soft: "I g \<Longrightarrow> ensures (\<lambda>x. I (snd x)) (alloc_failed l outp inp res g)"
  unfolding alloc_failed_def
  by (auto simp: same_defs intro!: soft_bind soft_mod_port soft_pair link_state_soft)

lemma take_buffers_soft: "I g \<Longrightarrow> ensures (\<lambda>x. I (snd x)) (link_take_buffers env l outp inp iinfo oinfo fi fo g)"
  unfolding link_take_buffers_def Let_def case_prod_beta
  by (auto simp: same_defs intro!: soft_look [where m = "g_ports _ _"] soft_look [where m = "negotiate_request _ _ _"]
      soft_look [where m = "alloc_buffers _ _ _ _ _"]
      ensures_map soft_mod_link soft_mod_link_bufs)

lemma alloc_port_soft: "I g \<Longrightarrow> ensures (\<lambda>x. I (snd x)) (link_alloc_port env l d p params g)"
  unfolding link_alloc_port_def Let_def case_prod_beta
  by (auto simp: same_defs intro!: soft_look [where m = "g_ports _ _"] soft_look [where m = "g_links _ _"]
      soft_bind link_work_soft soft_pair soft_mod_link soft_mod_port soft_call)

lemma use_port_soft: "I g \<Longrightarrow> ensures (\<lambda>x. I (snd x)) (link_use_port env l d p g)"
  unfolding link_use_port_def Let_def case_prod_beta
  by (auto simp: same_defs intro!: soft_look [where m = "g_ports _ _"] soft_look [where m = "g_links _ _"]
      soft_bind link_work_soft soft_pair soft_mod_port soft_call)

lemma use_buffers_soft: "I g \<Longrightarrow> ensures (\<lambda>x. I (snd x)) (link_use_buffers env l outp inp fi fo res g)"
  unfolding link_use_buffers_def by (auto intro!: soft_bind2 use_port_soft alloc_failed_soft)

lemma nodes_live_soft: "I g \<Longrightarrow> ensures I (set_nodes_live a b g)"
  unfolding set_nodes_live_def by (auto simp: same_defs intro!: soft_bind soft_mod_node)

lemma allocate_soft: "I g \<Longrightarrow> ensures (\<lambda>x. I (snd x)) (link_allocate env l outp inp iinfo oinfo res0 choice g)"
  unfolding link_allocate_def
  by (auto intro!: alloc_failed_soft soft_look [where m = "g_links _ _"] soft_bind2 take_buffers_soft alloc_port_soft use_buffers_soft
      split: alloc_choice.splits prod.splits)

lemma allocation_soft: "I g \<Longrightarrow> ensures (\<lambda>x. I (snd x)) (do_allocation env l a b g)"
  unfolding do_allocation_def Let_def case_prod_beta
  by (auto intro!: soft_bind [OF link_state_soft] soft_look [where m = "g_links _ _"] soft_look [where m = "g_ports _ _"]
      soft_look [where m = "lk_output _"] soft_look [where m = "lk_input _"] link_state_soft alloc_failed_soft soft_bind nodes_live_soft
      allocate_soft soft_call)

lemma start_port_soft: "I g \<Longrightarrow> ensures (\<lambda>x. I (snd x)) (link_start_port env l p g)"
  unfolding link_start_port_def
  by (rule soft_look) (auto intro!: soft_bind2 set_state_soft soft_pair link_work_soft)

lemma start_soft: "I g \<Longrightarrow> \<not> (a = ST_STREAMING \<and> b = ST_STREAMING) \<Longrightarrow> ensures (\<lambda>x. I (snd x)) (do_start env l a b g)"
  unfolding do_start_def
  by (auto intro!: soft_bind [OF link_state_soft] soft_look [where m = "g_links _ _"] soft_look [where m = "lk_output _"]
      soft_look [where m = "lk_input _"] soft_bind2 start_port_soft)

lemma check_states_soft: "I g \<Longrightarrow> ensures (\<lambda>x. I (snd x)) (check_states env l g)"
  unfolding check_states_def Let_def case_prod_beta
  by (auto intro!: soft_look [where m = "g_links _ _"] soft_look [where m = "g_ports _ _"] soft_look [where m = "g_nodes _ _"]
      soft_bind2 negotiate_soft allocation_soft start_soft soft_pair link_work_soft simp: pinos_link_activate_def
      split: option.splits)

end

section \<open>No link is ever running\<close>

definition quiet :: "'w graph \<Rightarrow> bool" where
  "quiet g \<longleftrightarrow> (\<forall>l k. g_links g l = Some k \<longrightarrow> lk_state k \<noteq> LINK_RUNNING)"

lemma quiet_links [simp]:
  "quiet (g\<lparr>g_nodes := a\<rparr>) = quiet g" "quiet (g\<lparr>g_ports := b\<rparr>) = quiet g" "quiet (g\<lparr>g_bufs := c\<rparr>) = quiet g"
  "quiet (g\<lparr>g_brk := d\<rparr>) = quiet g" "quiet (g\<lparr>g_node_list := e\<rparr>) = quiet g" "quiet (g\<lparr>g_link_list := e\<rparr>) = quiet g"
  "quiet (g\<lparr>g_main := m\<rparr>) = quiet g" "quiet (g\<lparr>g_data := m\<rparr>) = quiet g" "quiet (g\<lparr>g_world := w\<rparr>) = quiet g"
  by (simp_all add: quiet_def)

interpretation quiet: soft_invariant "quiet :: 'w graph \<Rightarrow> bool"
  by unfold_locales (auto simp: quiet_def same_link_def)

lemma quiet_mod [intro!]:
  "quiet g \<Longrightarrow> ensures quiet (mod_node n f g)" "quiet g \<Longrightarrow> ensures quiet (mod_port p h g)"
  by (rule ensures_mod_node, simp, rule ensures_mod_port, simp)

lemma quiet_mod_link [intro!]: "quiet g \<Longrightarrow> (\<And>k. lk_state (f k) = lk_state k) \<Longrightarrow> ensures quiet (mod_link l f g)"
  by (rule ensures_mod_link) (auto simp: quiet_def)

lemma quiet_invoke [simp]: "quiet (invoke_data i g) = quiet g" "quiet (invoke_main i g) = quiet g"
  by (simp_all add: invoke_data_def invoke_main_def)

lemma quiet_free [intro!]: "quiet g \<Longrightarrow> quiet (pinos_link_free l g)"
  by (simp add: quiet_def pinos_link_free_def)

lemmas quiet_looks = quiet.soft_look [where m = "g_links _ _"] quiet.soft_look [where m = "g_ports _ _"] quiet.soft_look [where m = "g_nodes _ _"]
  quiet.soft_look [where m = "list_remove _ _"] quiet.soft_look [where m = "lk_rt_input _"] quiet.soft_look [where m = "lk_rt_output _"]
  quiet.soft_look [where m = "case _ of Dir_input \<Rightarrow> lk_rt_input _ | Dir_output \<Rightarrow> lk_rt_output _"]

lemmas quiet_binds = quiet.soft_bind quiet.soft_bind2 ensures_map

lemma quiet_unlist: "quiet g \<Longrightarrow> ensures quiet (rt_unlist p l g)" "quiet g \<Longrightarrow> ensures quiet (unlist p l g)"
  by (auto simp: rt_unlist_def unlist_def intro!: quiet_looks)

lemma quiet_add_link: "quiet g \<Longrightarrow> ensures quiet (do_add_link p l g)"
  by (auto simp: do_add_link_def intro!: quiet_looks quiet_binds split: spa_direction.splits)

lemma quiet_remove_link: "quiet g \<Longrightarrow> ensures quiet (do_remove_link env p l g)"
  by (auto simp: do_remove_link_def intro!: quiet_looks quiet_binds quiet.pause_rt_soft quiet_unlist split: spa_direction.splits)

lemma quiet_clear_buffers:
  "quiet g \<Longrightarrow> ensures quiet (do_clear_buffers env p g)" "quiet g \<Longrightarrow> ensures quiet (do_clear_buffers_done env p g)"
  "quiet g \<Longrightarrow> ensures quiet (pinos_port_clear_buffers p g)" "quiet g \<Longrightarrow> ensures quiet (pinos_port_unlink p l g)"
  by (auto simp: do_clear_buffers_def do_clear_buffers_done_def pinos_port_clear_buffers_def pinos_port_unlink_def
      intro!: quiet_looks ensures_map quiet.clear_port_soft ensures_mono [OF quiet.pause_rt_soft] ensures_mono [OF quiet_mod(2)])

lemma quiet_listeners: "quiet g \<Longrightarrow> ensures quiet (add_listener p l g)" "quiet g \<Longrightarrow> ensures quiet (remove_listener p l g)"
  by (auto simp: add_listener_def remove_listener_def intro!: quiet_looks quiet_binds)

lemma quiet_unref: "quiet g \<Longrightarrow> ensures quiet (link_unref l g)"
  by (auto simp: link_unref_def intro!: quiet_looks)

lemma quiet_remove_link_done: "quiet g \<Longrightarrow> ensures quiet (do_remove_link_done env p l g)"
  by (auto simp: do_remove_link_done_def intro!: quiet_looks quiet_binds quiet_unlist quiet.clear_port_soft quiet.update_node_soft
      split: spa_direction.splits option.splits)

lemma quiet_link_new: "quiet g \<Longrightarrow> ensures (\<lambda>x. quiet (snd x)) (pinos_link_new outp inp g)"
proof -
  assume "quiet g"
  then have "quiet (g\<lparr>g_brk := b, g_links := (g_links g)(l \<mapsto> new_server_link outp inp)\<rparr>)" for b l
    by (simp add: quiet_def new_server_link_def)
  then show ?thesis by (auto simp: pinos_link_new_def Let_def intro!: quiet_binds quiet_listeners)
qed

lemma quiet_port_link: "quiet g \<Longrightarrow> ensures (\<lambda>x. quiet (snd x)) (pinos_port_link outp inp g)"
  by (auto simp: pinos_port_link_def intro!: quiet_looks quiet_binds quiet_link_new split: option.splits)

lemma quiet_unbind: "quiet g \<Longrightarrow> ensures quiet (link_unbind_func l r g)" "quiet g \<Longrightarrow> ensures quiet (unbind_all l rs g)"
proof -
  show u: "quiet g \<Longrightarrow> ensures quiet (link_unbind_func l r g)" for r g
    by (auto simp: link_unbind_func_def intro!: quiet_looks quiet_binds quiet_unref)
  show "quiet g \<Longrightarrow> ensures quiet (unbind_all l rs g)"
    by (induction rs arbitrary: g) (auto intro!: quiet_binds u)
qed

lemma quiet_link_destroy: "quiet g \<Longrightarrow> ensures quiet (pinos_link_destroy l g)"
proof -
  have inv: "quiet g \<Longrightarrow> ensures quiet (link_invoke_remove l e g)" for e g
    by (auto simp: link_invoke_remove_def intro!: quiet_binds quiet_listeners split: option.splits)
  show "quiet g \<Longrightarrow> ensures quiet (pinos_link_destroy l g)"
    by (auto simp: pinos_link_destroy_def intro!: quiet_looks quiet_binds quiet_unbind inv quiet_unref)
qed

lemma quiet_link_remove: "quiet g \<Longrightarrow> ensures quiet (do_link_remove env l g)"
  by (auto simp: do_link_remove_def intro!: quiet_looks quiet_binds quiet.pause_rt_soft quiet_unlist split: option.splits)

lemma quiet_link_remove_done: "quiet g \<Longrightarrow> ensures quiet (do_link_remove_done env l g)"
  by (auto simp: do_link_remove_done_def clear_port_buffers_def idle_if_unused_def
      intro!: quiet_looks quiet_binds quiet_unlist quiet.clear_port_soft quiet.update_node_soft quiet_unref split: option.splits)


lemma quiet_port_destroy: "quiet g \<Longrightarrow> ensures quiet (pinos_port_destroy p g)" "quiet g \<Longrightarrow> ensures quiet (destroy_ports ps g)"
proof -
  have on: "ensures quiet (on_port_destroy l p g)" if "quiet g" for l p g
    using that
    by (auto simp: on_port_destroy_def Let_def intro!: quiet_looks quiet_binds quiet_listeners quiet_clear_buffers
        quiet.link_state_soft quiet_link_destroy quiet.soft_look [where m = "lk_output _"] quiet.soft_look [where m = "lk_input _"] split: option.splits)
  have notify: "quiet g \<Longrightarrow> ensures quiet (notify_port_destroy p ls g)" for p ls g
    by (induction ls arbitrary: g) (auto intro!: quiet_binds on)
  show d: "quiet g \<Longrightarrow> ensures quiet (pinos_port_destroy p g)" for p g
    by (auto simp: pinos_port_destroy_def intro!: quiet_looks quiet_binds notify split: spa_direction.splits)
  show "quiet g \<Longrightarrow> ensures quiet (destroy_ports ps g)"
    by (induction ps arbitrary: g) (auto intro!: quiet_binds d)
qed

lemma quiet_node_remove: "quiet g \<Longrightarrow> ensures quiet (do_node_remove env n g)"
proof -
  have links: "quiet g \<Longrightarrow> ensures quiet (rt_drop_links env d ls g)" for d ls g
    by (induction ls arbitrary: g)
      (auto intro!: quiet_looks quiet_binds quiet.pause_rt_soft quiet_unlist split: spa_direction.splits)
  have ports: "quiet g \<Longrightarrow> ensures quiet (rt_drop_ports env d ps g)" for d ps g
    by (induction ps arbitrary: g) (auto intro!: quiet_looks quiet_binds links)
  show "quiet g \<Longrightarrow> ensures quiet (do_node_remove env n g)"
    by (auto simp: do_node_remove_def intro!: quiet_looks quiet_binds quiet.pause_node_soft ports)
qed

lemma quiet_node_destroy: "quiet g \<Longrightarrow> ensures quiet (pinos_node_destroy n g)" "quiet g \<Longrightarrow> ensures quiet (do_node_remove_done n g)"
  by (auto simp: pinos_node_destroy_def do_node_remove_done_def intro!: quiet_looks quiet_binds quiet_port_destroy)

lemma quiet_write_map: "quiet g \<Longrightarrow> ensures quiet (write_node_map n d i v g)"
  by (auto simp: write_node_map_def intro!: quiet_looks)

lemma quiet_port_new: "quiet g \<Longrightarrow> quiet (snd (pinos_port_new n d i g))"
  by (simp add: pinos_port_new_def quiet_def)

lemma quiet_new_node_port: "quiet g \<Longrightarrow> ensures quiet (new_node_port env n d i c g)"
  unfolding new_node_port_def Let_def case_prod_beta
  by (auto intro!: quiet_binds quiet_write_map quiet.soft_call quiet_port_new)

lemma quiet_update_ports: "quiet g \<Longrightarrow> ensures quiet (update_ports env n d ids c g)"
proof -
  have "update_ports env n d ids c g = Some r \<Longrightarrow> quiet g \<longrightarrow> quiet r" for r
  proof (induction rule: update_ports.raw_induct [rotated, consumes 1])
    case (1 rec env n d ids c g r)
    have r: "ensures quiet (rec env n d ids c g)" if "quiet g" for env :: "'a node_env" and n d ids c g
      using 1(1) that by (simp add: ensures_def)
    show ?case
    proof
      assume q: "quiet g"
      show "quiet r"
        by (rule ensuresD [OF _ 1(2)])
          (auto intro!: ensures_case_any [where m = "g_nodes _ _"] ensures_case_any [where m = "g_ports _ _"] ensures_option [where m = "port_at _ _"]
            ensures_case [where m = "write_node_map _ _ _ _ _"] ensures_case [where m = "pinos_port_destroy _ _"]
            ensures_case [where m = "new_node_port _ _ _ _ _ _"] ensures_mono [OF quiet_write_map] ensures_mono [OF quiet_port_destroy(1)]
            ensures_mono [OF quiet_new_node_port] r q split: list.splits option.split_asm prod.splits)
    qed
  qed
  then show "quiet g \<Longrightarrow> ensures quiet (update_ports env n d ids c g)" by (simp add: ensures_def)
qed

lemma quiet_init_complete: "quiet g \<Longrightarrow> ensures quiet (init_complete env n g)"
  by (auto simp: init_complete_def update_port_ids_def intro!: quiet_binds quiet_update_ports quiet.update_node_soft split: prod.splits)

lemma quiet_node_new: "quiet g \<Longrightarrow> ensures (\<lambda>x. quiet (snd x)) (pinos_node_new env async has_info clock g)"
  unfolding pinos_node_new_def Let_def
  by (auto intro!: quiet_binds quiet.node_work_soft quiet_init_complete)

lemma quiet_get_free_port: "quiet g \<Longrightarrow> ensures (\<lambda>x. quiet (snd x)) (pinos_node_get_free_port env n d g)"
proof -
  have c: "ensures (\<lambda>x. quiet (snd x)) (create_port env n d i g)" if "quiet g" for d i
    using that unfolding create_port_def Let_def case_prod_beta
    by (auto intro!: quiet_binds quiet_write_map quiet.soft_call quiet_port_new)
  show "quiet g \<Longrightarrow> ensures (\<lambda>x. quiet (snd x)) (pinos_node_get_free_port env n d g)"
    unfolding pinos_node_get_free_port_def Let_def
    by (auto intro!: quiet_looks quiet.soft_look [where m = "find_free _ _"] ensures_map ensures_mono [OF c]
        simp: case_prod_beta split: option.splits spa_direction.splits)
qed

lemma quiet_run_work: "quiet g \<Longrightarrow> ensures quiet (run_work env it g)"
  by (auto simp: run_work_def on_state_complete_def intro!: ensures_map quiet.check_states_soft quiet.update_node_soft quiet_init_complete
      split: work_func.splits)

lemma quiet_process_item: "quiet g \<Longrightarrow> ensures (\<lambda>x. quiet (fst x)) (process_item env ow q k g)"
  by (auto simp: process_item_def Let_def mod_queue_def intro!: quiet.soft_bind quiet_run_work split: work_obj.splits)

lemma quiet_process_from: "quiet g \<Longrightarrow> ensures quiet (process_from env ow k g)"
proof -
  have "process_from env ow k g = Some r \<Longrightarrow> quiet g \<longrightarrow> quiet r" for r
  proof (induction rule: process_from.raw_induct [rotated, consumes 1])
    case (1 rec env ow k g r)
    show ?case
    proof
      assume q: "quiet g"
      note keep = quiet_process_item [OF q, unfolded ensures_def, rule_format]
      show "quiet r" using 1(2) q by (auto split: option.splits prod.splits if_splits dest!: 1(1) keep)
    qed
  qed
  then show "quiet g \<Longrightarrow> ensures quiet (process_from env ow k g)" by (simp add: ensures_def)
qed

lemma quiet_async_complete: "quiet g \<Longrightarrow> ensures quiet (on_node_async_complete n seq res g)"
proof -
  have "quiet g \<Longrightarrow> ensures quiet (complete_links n seq res ls g)" for ls g
    by (induction ls arbitrary: g) (auto intro!: quiet_binds)
  then show "quiet g \<Longrightarrow> ensures quiet (on_node_async_complete n seq res g)"
    by (auto simp: on_node_async_complete_def intro!: quiet_looks quiet_binds)
qed

lemma quiet_run_invoke: "quiet g \<Longrightarrow> ensures quiet (run_invoke env i g)"
  by (cases i) (auto simp: run_invoke_def intro!: quiet_add_link quiet_remove_link quiet_remove_link_done quiet_clear_buffers
      quiet_link_remove quiet_link_remove_done quiet_node_remove quiet_node_destroy)

lemma quiet_step: "quiet g \<Longrightarrow> ensures quiet (graph_step env act g)"
  by (cases act)
    (auto simp: graph_step_def pinos_link_activate_def link_bind_func_def process_queue_def data_loop_run_def main_loop_run_def mod_queue_def
      intro!: ensures_map quiet_node_new quiet_get_free_port quiet_port_link quiet_clear_buffers quiet.link_work_soft quiet_unbind
      quiet_link_destroy quiet.set_state_soft quiet_node_destroy quiet_async_complete quiet_binds quiet_process_from quiet_run_invoke
      split: work_obj.splits list.splits)

lemma quiet_run: "quiet g \<Longrightarrow> ensures quiet (graph_run env acts g)"
proof (induction acts arbitrary: g)
  case (Cons act acts)
  show ?case
  proof (cases "graph_step env act g")
    case (Some g')
    then have "quiet g'" using quiet_step [OF Cons.prems, of env act] by simp
    then show ?thesis using Cons.IH Some by simp
  qed simp
qed simp

end
