(* ===== verification/Pinos_Graph_Live.thy ===== *)
theory Pinos_Graph_Live
  imports Pinos_Graph_Inv
begin

text \<open>
  The life of one link between two nodes that answer every request at once: the states of its two ports and the items
  of its work queue form a small machine, which the functions of the graph refine. The machine reaches streaming
  ports and an empty queue after at most six runs of the event of the queue.
\<close>

section \<open>The machine\<close>

datatype lwork = LReady spa_direction | LPaused spa_direction | LStreaming spa_direction | LCheck


record lconf =
  lc_in :: port_state
  lc_out :: port_state
  lc_buf :: bool
  lc_items :: "lwork list"
  lc_wake :: bool
















section \<open>Nodes that answer at once\<close>









lemma result_simps [simp]: "\<not> SPA_RESULT_IS_ERROR 0" "SPA_RESULT_IS_OK 0" "\<not> SPA_RESULT_IS_ASYNC 0" "\<not> SPA_RESULT_IS_ASYNC 2"
  by (simp_all add: SPA_RESULT_IS_ERROR_def SPA_RESULT_IS_OK_def SPA_RESULT_IS_ASYNC_def)

section \<open>The relation\<close>

text \<open>The link \<open>l\<close> goes from port \<open>outp\<close> of node \<open>b\<close> to port \<open>inp\<close> of node \<open>a\<close> and is the only link of both nodes.\<close>

definition item_rel :: "nat \<Rightarrow> nat \<Rightarrow> nat \<Rightarrow> graph_item \<Rightarrow> lwork \<Rightarrow> bool" where
  "item_rel l inp outp it w \<longleftrightarrow> gi_seq it = SPA_ID_INVALID \<and>
     (let p = (\<lambda>d. case d of Dir_input \<Rightarrow> inp | Dir_output \<Rightarrow> outp) in
      case w of
        LReady d \<Rightarrow> gi_func it = Complete_ready (p d) \<and> gi_res it = SPA_RESULT_OK
      | LPaused d \<Rightarrow> gi_func it = Complete_paused (p d) \<and> gi_res it = SPA_RESULT_OK
      | LStreaming d \<Rightarrow> gi_func it = Complete_streaming (p d) \<and> gi_res it = SPA_RESULT_OK
      | LCheck \<Rightarrow> gi_func it = Check_states l \<and> gi_res it = SPA_RESULT_WAIT_SYNC)"

definition link_rel :: "nat \<Rightarrow> nat \<Rightarrow> nat \<Rightarrow> lconf \<Rightarrow> server_link \<Rightarrow> bool" where
  "link_rel l inp outp c k \<longleftrightarrow> lk_state k \<noteq> LINK_ERROR \<and> lk_input k = Some inp \<and> lk_output k = Some outp \<and>
     (lk_buffers k \<noteq> None \<longleftrightarrow> lc_buf c) \<and> gq_wakeup (lk_work k) = lc_wake c \<and> list_all2 (item_rel l inp outp) (gq_items (lk_work k)) (lc_items c)"

definition port_rel :: "nat \<Rightarrow> spa_direction \<Rightarrow> bool \<Rightarrow> port_state \<Rightarrow> server_port \<Rightarrow> bool" where
  "port_rel n d buf st po \<longleftrightarrow> po_node po = n \<and> po_direction po = d \<and> po_state po = st \<and> (\<not> buf \<longrightarrow> po_n_buffers po = 0)"

definition port_links :: "'w graph \<Rightarrow> nat \<Rightarrow> nat list option" where
  "port_links g p = map_option po_links (g_ports g p)"

definition node_rel :: "nat \<Rightarrow> (nat \<Rightarrow> nat list option) \<Rightarrow> server_node \<Rightarrow> bool" where
  "node_rel l pl x \<longleftrightarrow> sn_state x \<noteq> NODE_ERROR \<and> sn_state x \<noteq> NODE_IDLE \<and>
     (\<forall>p \<in> set (sn_input_ports x) \<union> set (sn_output_ports x). pl p \<noteq> None) \<and>
     concat (map (the \<circ> pl) (sn_input_ports x)) @ concat (map (the \<circ> pl) (sn_output_ports x)) = [l]"

definition lsim :: "nat \<Rightarrow> nat \<Rightarrow> nat \<Rightarrow> nat \<Rightarrow> nat \<Rightarrow> lconf \<Rightarrow> 'w graph \<Rightarrow> bool" where
  "lsim l a b inp outp c g \<longleftrightarrow> inp \<noteq> outp \<and>
     pred_option (link_rel l inp outp c) (g_links g l) \<and> g_links g l \<noteq> None \<and>
     pred_option (port_rel a Dir_input (lc_buf c) (lc_in c)) (g_ports g inp) \<and> g_ports g inp \<noteq> None \<and>
     pred_option (port_rel b Dir_output (lc_buf c) (lc_out c)) (g_ports g outp) \<and> g_ports g outp \<noteq> None \<and>
     pred_option (node_rel l (port_links g)) (g_nodes g a) \<and> g_nodes g a \<noteq> None \<and>
     pred_option (node_rel l (port_links g)) (g_nodes g b) \<and> g_nodes g b \<noteq> None"



section \<open>Simple steps\<close>

lemma lsim_world [simp]: "lsim l a b inp outp c (g\<lparr>g_world := w\<rparr>) = lsim l a b inp outp c g"
  by (simp add: lsim_def port_links_def [abs_def])









lemma returns_look: "m = Some y \<Longrightarrow> returns Q (f y) \<Longrightarrow> returns Q (m \<bind> f)"
  by simp































section \<open>Runs of the queue\<close>









section \<open>A new link\<close>







section \<open>An example\<close>

definition ex_pod_format :: "u32 \<Rightarrow> spa_format" where
  "ex_pod_format t = \<lparr>fmt_type = t, fmt_media_type = 2, fmt_media_subtype = 3, fmt_props = []\<rparr>"

text \<open>A graph of two nodes: node 1 has the input port 2 and node 3 the output port 4. The input knows two formats, the output
  accepts the second.\<close>

definition ex_env :: "unit node_env" where
  "ex_env = \<lparr>ne_types = ex_link_types, ne_command = (\<lambda>n c w. (SPA_RESULT_OK, w)), ne_port_command = (\<lambda>n d i c w. (SPA_RESULT_OK, w)),
     ne_enum_formats = (\<lambda>n d i f ix w. (if d = Dir_input \<and> ix < 2 \<or> d = Dir_output \<and> ix = 0 \<and> f = Some (ex_pod_format 1)
        then (SPA_RESULT_OK, Some (ex_pod_format ix)) else (SPA_RESULT_ENUM_END, None), w)),
     ne_set_format = (\<lambda>n d i fl f w. (SPA_RESULT_OK, w)), ne_get_format = (\<lambda>n d i w. ((SPA_RESULT_OK, None), w)),
     ne_get_info = (\<lambda>n d i w. ((SPA_RESULT_OK, \<lparr>pi_flags = CAN_USE_BUFFERS, pi_params = [ex_buffers_param]\<rparr>), w)),
     ne_use_buffers = (\<lambda>n d i bs k w. (SPA_RESULT_OK, w)), ne_alloc_buffers = (\<lambda>n d i ps bs k w. ((SPA_RESULT_OK, k), w)),
     ne_add_port = (\<lambda>n d i w. (SPA_RESULT_OK, w)), ne_set_io = (\<lambda>n d i p w. (SPA_RESULT_OK, w)),
     ne_get_n_ports = (\<lambda>n w. if n = 1 then ((1, 1), (0, 0)) else ((0, 0), (1, 1))),
     ne_get_port_ids = (\<lambda>n w. if n = 1 then ([0], []) else ([], [0])), ne_memblock_ok = (\<lambda>len w. True)\<rparr>"

definition ex_nodes :: "graph_op list" where
  "ex_nodes = [Op_node_new False False None, Op_node_new False False None]"

definition ex_link_ops :: "graph_op list" where
  "ex_link_ops = [Op_port_link 4 2, Op_activate 5, Op_data, Op_data] @ replicate 6 (Op_queue (Obj_link 5))"








section \<open>The state of a link\<close>

text \<open>C35. No sequence of calls, loop runs and events brings a link into the state \<open>LINK_RUNNING\<close>: the only
  assignment of that state, in \<open>do_start\<close>, is behind a test that \<open>check_states\<close> has excluded before. In
  particular a link whose two ports are streaming stays in \<open>LINK_PAUSED\<close>.\<close>

theorem link_never_running:
  assumes "graph_run env acts (empty_graph w) = Some g" and "g_links g l = Some k"
  shows "lk_state k \<noteq> LINK_RUNNING"
proof -
  have "quiet (empty_graph w)" by (simp add: quiet_def empty_graph_def)
  then have "quiet g" by (rule ensuresD [OF quiet_run assms(1)])
  then show ?thesis using assms(2) by (auto simp: quiet_def)
qed

theorem link_never_running_witness:
  "\<exists>g k. graph_run ex_env (ex_nodes @ ex_link_ops) (empty_graph ()) = Some g \<and> g_links g 5 = Some k \<and>
     map_option po_state (g_ports g 2) = Some PORT_STREAMING \<and> map_option po_state (g_ports g 4) = Some PORT_STREAMING \<and>
     lk_state k = LINK_PAUSED \<and> lk_state k \<noteq> LINK_RUNNING"
proof -
  have "map_option (\<lambda>g. (map_option lk_state (g_links g 5), map_option po_state (g_ports g 2), map_option po_state (g_ports g 4)))
      (graph_run ex_env (ex_nodes @ ex_link_ops) (empty_graph ())) = Some (Some LINK_PAUSED, Some PORT_STREAMING, Some PORT_STREAMING)"
    by code_simp
  then obtain g k where g: "graph_run ex_env (ex_nodes @ ex_link_ops) (empty_graph ()) = Some g" "g_links g 5 = Some k" "lk_state k = LINK_PAUSED"
      "map_option po_state (g_ports g 2) = Some PORT_STREAMING" "map_option po_state (g_ports g 4) = Some PORT_STREAMING" by auto
  show ?thesis using g link_never_running [OF g(1,2)] by blast
qed

end
