(* ===== verification/Pinos_Graph_Flow.thy ===== *)
theory Pinos_Graph_Flow
  imports Pinos_Graph_Live
begin

text \<open>
  The flow of buffers over the links, in the data loop (\<^verbatim>\<open>do_pull\<close>, \<^verbatim>\<open>on_node_have_output\<close>,
  \<^verbatim>\<open>on_node_reuse_buffer\<close> of \<^verbatim>\<open>pinos/server/node.c\<close>). What a node does when it is asked to
  process is a parameter that may change the whole graph; the properties ask that it only writes io areas. The recursion
  of \<open>do_pull\<close> has fuel, one for every node on the way: it returns when the links have no cycle, and on a cycle of
  nodes that all need buffers no fuel is enough.
\<close>

section \<open>Operations\<close>

record 'w flow_env =
  fe_process_input :: "nat \<Rightarrow> 'w graph \<Rightarrow> spa_result \<times> 'w graph"
  fe_process_output :: "nat \<Rightarrow> 'w graph \<Rightarrow> spa_result \<times> 'w graph"

text \<open>The links of one input port that needs a buffer; \<open>pull\<close> is the recursive call for the node at the other end.\<close>

fun pull_links ::
  "(nat \<Rightarrow> 'w graph \<Rightarrow> (spa_result \<times> 'w graph) option) \<Rightarrow> 'w flow_env \<Rightarrow> nat \<Rightarrow> nat list \<Rightarrow> spa_result \<times> bool \<Rightarrow> 'w graph \<Rightarrow>
   ((spa_result \<times> bool) \<times> 'w graph) option" where
  "pull_links pull env p [] st g = Some (st, g)"
| "pull_links pull env p (l # ls) st g = do {
     k \<leftarrow> g_links g l;
     case (lk_rt_input k, lk_rt_output k) of
       (Some _, Some q) \<Rightarrow> do {
         ip \<leftarrow> g_ports g p;
         g1 \<leftarrow> mod_port q (\<lambda>po. po\<lparr>po_io := po_io ip\<rparr>) g;
         g2 \<leftarrow> mod_port p (\<lambda>po. po\<lparr>po_io := (po_io po)\<lparr>io_buffer_id := SPA_ID_INVALID\<rparr>\<rparr>) g1;
         op \<leftarrow> g_ports g2 q;
         let (res, g3) = fe_process_output env (po_node op) g2;
         if res = SPA_RESULT_NEED_BUFFER
         then do { (res', g4) \<leftarrow> pull (po_node op) g3; pull_links pull env p ls (res', snd st) g4 }
         else if res = SPA_RESULT_HAVE_BUFFER
         then do {
           op' \<leftarrow> g_ports g3 q;
           g4 \<leftarrow> mod_port p (\<lambda>po. po\<lparr>po_io := po_io op'\<rparr>) g3;
           pull_links pull env p ls (res, True) g4 }
         else pull_links pull env p ls (res, snd st) g3 }
     | _ \<Rightarrow> pull_links pull env p ls st g }"

fun pull_ports ::
  "(nat \<Rightarrow> 'w graph \<Rightarrow> (spa_result \<times> 'w graph) option) \<Rightarrow> 'w flow_env \<Rightarrow> nat list \<Rightarrow> spa_result \<times> bool \<Rightarrow> 'w graph \<Rightarrow>
   ((spa_result \<times> bool) \<times> 'w graph) option" where
  "pull_ports pull env [] st g = Some (st, g)"
| "pull_ports pull env (p # ps) st g = do {
     po \<leftarrow> g_ports g p;
     if io_status (po_io po) \<noteq> SPA_RESULT_NEED_BUFFER then pull_ports pull env ps st g
     else do { (st1, g1) \<leftarrow> pull_links pull env p (po_rt_links po) st g; pull_ports pull env ps st1 g1 } }"

fun do_pull :: "nat \<Rightarrow> 'w flow_env \<Rightarrow> nat \<Rightarrow> 'w graph \<Rightarrow> (spa_result \<times> 'w graph) option" where
  "do_pull 0 env n g = None"
| "do_pull (Suc fuel) env n g = do {
     x \<leftarrow> g_nodes g n;
     ((res, have_output), g1) \<leftarrow> pull_ports (do_pull fuel env) env (sn_input_ports x) (SPA_RESULT_OK, False) g;
     Some (if have_output then fe_process_input env n g1 else (res, g1)) }"

definition on_node_need_input :: "nat \<Rightarrow> 'w flow_env \<Rightarrow> nat \<Rightarrow> 'w graph \<Rightarrow> 'w graph option" where
  "on_node_need_input fuel env n g = map_option snd (do_pull fuel env n g)"

text \<open>Output of a node is given to all its links.\<close>

fun push_links :: "'w flow_env \<Rightarrow> nat \<Rightarrow> nat list \<Rightarrow> 'w graph \<Rightarrow> 'w graph option" where
  "push_links env p [] g = Some g"
| "push_links env p (l # ls) g = do {
     k \<leftarrow> g_links g l;
     case (lk_rt_input k, lk_rt_output k) of
       (Some q, Some _) \<Rightarrow> do {
         op \<leftarrow> g_ports g p;
         g1 \<leftarrow> mod_port q (\<lambda>po. po\<lparr>po_io := po_io op\<rparr>) g;
         ip \<leftarrow> g_ports g1 q;
         push_links env p ls (snd (fe_process_input env (po_node ip) g1)) }
     | _ \<Rightarrow> push_links env p ls g }"

fun push_ports :: "'w flow_env \<Rightarrow> nat list \<Rightarrow> 'w graph \<Rightarrow> 'w graph option" where
  "push_ports env [] g = Some g"
| "push_ports env (p # ps) g = do {
     po \<leftarrow> g_ports g p;
     if io_buffer_id (po_io po) = SPA_ID_INVALID then push_ports env ps g
     else do {
       g1 \<leftarrow> push_links env p (po_rt_links po) g;
       g2 \<leftarrow> mod_port p (\<lambda>po. po\<lparr>po_io := (po_io po)\<lparr>io_status := SPA_RESULT_NEED_BUFFER\<rparr>\<rparr>) g1;
       push_ports env ps g2 } }"

definition on_node_have_output :: "'w flow_env \<Rightarrow> nat \<Rightarrow> 'w graph \<Rightarrow> 'w graph option" where
  "on_node_have_output env n g = do {
     x \<leftarrow> g_nodes g n;
     g1 \<leftarrow> push_ports env (sn_output_ports x) g;
     Some (snd (fe_process_output env n g1)) }"

text \<open>The id of the port that the buffer comes from is not looked at.\<close>

fun reuse_links :: "u32 \<Rightarrow> nat list \<Rightarrow> 'w graph \<Rightarrow> 'w graph option" where
  "reuse_links i [] g = Some g"
| "reuse_links i (l # ls) g = do {
     k \<leftarrow> g_links g l;
     case (lk_rt_input k, lk_rt_output k) of
       (Some _, Some q) \<Rightarrow> do {
         g1 \<leftarrow> mod_port q (\<lambda>po. po\<lparr>po_io := (po_io po)\<lparr>io_buffer_id := i\<rparr>\<rparr>) g;
         reuse_links i ls g1 }
     | _ \<Rightarrow> reuse_links i ls g }"

fun reuse_ports :: "u32 \<Rightarrow> nat list \<Rightarrow> 'w graph \<Rightarrow> 'w graph option" where
  "reuse_ports i [] g = Some g"
| "reuse_ports i (p # ps) g = do {
     po \<leftarrow> g_ports g p;
     g1 \<leftarrow> reuse_links i (po_rt_links po) g;
     reuse_ports i ps g1 }"

definition on_node_reuse_buffer :: "nat \<Rightarrow> u32 \<Rightarrow> u32 \<Rightarrow> 'w graph \<Rightarrow> 'w graph option" where
  "on_node_reuse_buffer n port_id buffer_id g = do { x \<leftarrow> g_nodes g n; reuse_ports buffer_id (sn_input_ports x) g }"


section \<open>Pulling ends when the links have no cycle\<close>

definition no_io :: spa_port_io where
  "no_io = \<lparr>io_status = 0, io_buffer_id = 0, io_min_size = 0, io_max_size = 0\<rparr>"

definition same_flow :: "'w graph \<Rightarrow> 'w graph \<Rightarrow> bool" where
  "same_flow g g' \<longleftrightarrow> g_nodes g' = g_nodes g \<and> g_links g' = g_links g \<and>
     (\<forall>p. map_option (\<lambda>po. po\<lparr>po_io := no_io\<rparr>) (g_ports g' p) = map_option (\<lambda>po. po\<lparr>po_io := no_io\<rparr>) (g_ports g p))"

definition only_io :: "'w flow_env \<Rightarrow> bool" where
  "only_io env \<longleftrightarrow> (\<forall>n g. same_flow g (snd (fe_process_input env n g)) \<and> same_flow g (snd (fe_process_output env n g)))"

text \<open>Node \<open>n\<close> pulls from node \<open>m\<close>.\<close>

definition flow_edges :: "'w graph \<Rightarrow> (nat \<times> nat) set" where
  "flow_edges g = {(m, n). \<exists>x p po l k q op. g_nodes g n = Some x \<and> p \<in> set (sn_input_ports x) \<and> g_ports g p = Some po \<and>
     l \<in> set (po_rt_links po) \<and> g_links g l = Some k \<and> lk_rt_output k = Some q \<and> g_ports g q = Some op \<and> po_node op = m}"

text \<open>Everything that \<open>do_pull\<close> follows is there.\<close>

definition flow_ok :: "'w graph \<Rightarrow> bool" where
  "flow_ok g \<longleftrightarrow> (\<forall>n x p. g_nodes g n = Some x \<longrightarrow> p \<in> set (sn_input_ports x) \<longrightarrow>
     (\<exists>po. g_ports g p = Some po \<and> (\<forall>l \<in> set (po_rt_links po). \<exists>k. g_links g l = Some k \<and>
        (\<forall>q. lk_rt_output k = Some q \<longrightarrow> (\<exists>op. g_ports g q = Some op \<and> g_nodes g (po_node op) \<noteq> None)))))"

lemma same_flow_refl [simp]: "same_flow g g"
  by (simp add: same_flow_def)

lemma same_flow_trans: "same_flow g g' \<Longrightarrow> same_flow g' g'' \<Longrightarrow> same_flow g g''"
  by (simp add: same_flow_def)

lemma same_flow_port:
  assumes "same_flow g g'" and "g_ports g p = Some po"
  obtains po' where "g_ports g' p = Some po'" "po'\<lparr>po_io := no_io\<rparr> = po\<lparr>po_io := no_io\<rparr>"
proof -
  have "map_option (\<lambda>po. po\<lparr>po_io := no_io\<rparr>) (g_ports g' p) = Some (po\<lparr>po_io := no_io\<rparr>)"
    using assms by (simp add: same_flow_def)
  then show thesis using that by (cases "g_ports g' p") simp_all
qed

lemma same_io_fields:
  assumes "po'\<lparr>po_io := no_io\<rparr> = po\<lparr>po_io := no_io\<rparr>"
  shows "po_node po' = po_node po" "po_rt_links po' = po_rt_links po"
proof -
  have "po_node (po'\<lparr>po_io := no_io\<rparr>) = po_node (po\<lparr>po_io := no_io\<rparr>)" "po_rt_links (po'\<lparr>po_io := no_io\<rparr>) = po_rt_links (po\<lparr>po_io := no_io\<rparr>)"
    using assms by simp_all
  then show "po_node po' = po_node po" "po_rt_links po' = po_rt_links po" by simp_all
qed

lemma flow_port: "same_flow g0 g \<Longrightarrow> g_ports g0 p = Some po \<Longrightarrow>
    \<exists>po'. g_ports g p = Some po' \<and> po_node po' = po_node po \<and> po_rt_links po' = po_rt_links po"
  by (elim same_flow_port) (auto dest: same_io_fields)

lemma flow_mod:
  assumes s: "same_flow g0 g" and p: "g_ports g0 p = Some po"
  shows "\<exists>g'. mod_port p (\<lambda>po. po\<lparr>po_io := f po\<rparr>) g = Some g' \<and> same_flow g0 g'"
proof -
  obtain po' where "g_ports g p = Some po'" using flow_port [OF s p] by blast
  then have "\<exists>g'. mod_port p (\<lambda>po. po\<lparr>po_io := f po\<rparr>) g = Some g' \<and> same_flow g g'"
    by (auto simp: same_flow_def mod_port_def)
  then show ?thesis using same_flow_trans [OF s] by blast
qed

lemma flow_call: "only_io env \<Longrightarrow> same_flow g0 g \<Longrightarrow> fe_process_output env n g = (res, g') \<Longrightarrow> same_flow g0 g'"
  unfolding only_io_def using same_flow_trans [of g0 g g'] by (metis snd_conv)

lemma pull_links_returns:
  assumes env: "only_io env" and ok: "g_ports g0 p \<noteq> None"
    and links: "\<And>l. l \<in> set ls \<Longrightarrow> \<exists>k. g_links g0 l = Some k \<and> (\<forall>q. lk_rt_output k = Some q \<longrightarrow>
      (\<exists>op. g_ports g0 q = Some op \<and> (\<forall>g. same_flow g0 g \<longrightarrow> returns (\<lambda>r. same_flow g0 (snd r)) (pull (po_node op) g))))"
  shows "same_flow g0 g \<Longrightarrow> returns (\<lambda>r. same_flow g0 (snd r)) (pull_links pull env p ls st g)"
  using links
proof (induction ls arbitrary: st g)
  case (Cons l ls)
  note IH = Cons.IH [OF _ Cons.prems(2) [OF list.set_intros(2)]]
  obtain k where k: "g_links g0 l = Some k" and q: "\<And>q. lk_rt_output k = Some q \<Longrightarrow> \<exists>op. g_ports g0 q = Some op \<and>
      (\<forall>g. same_flow g0 g \<longrightarrow> returns (\<lambda>r. same_flow g0 (snd r)) (pull (po_node op) g))"
    using Cons.prems(2) [of l] by auto
  have kl: "g_links g l = Some k" using Cons.prems(1) k by (simp add: same_flow_def)
  show ?case
  proof (cases "lk_rt_input k = None \<or> lk_rt_output k = None")
    case True
    then show ?thesis using IH [OF Cons.prems(1)] by (auto simp: kl split: option.splits)
  next
    case False
    then obtain r qq where r: "lk_rt_input k = Some r" and qq: "lk_rt_output k = Some qq" by auto
    obtain op where op: "g_ports g0 qq = Some op"
      and pull: "\<And>g. same_flow g0 g \<Longrightarrow> returns (\<lambda>r. same_flow g0 (snd r)) (pull (po_node op) g)" using q [OF qq] by auto
    obtain ip0 where ip0: "g_ports g0 p = Some ip0" using ok by blast
    obtain ip where ip: "g_ports g p = Some ip" using flow_port [OF Cons.prems(1) ip0] by blast
    obtain g1 where g1: "mod_port qq (\<lambda>po. po\<lparr>po_io := po_io ip\<rparr>) g = Some g1" "same_flow g0 g1"
      using flow_mod [OF Cons.prems(1) op, where f = "\<lambda>_. po_io ip"] by blast
    obtain g2 where g2: "mod_port p (\<lambda>po. po\<lparr>po_io := (po_io po)\<lparr>io_buffer_id := SPA_ID_INVALID\<rparr>\<rparr>) g1 = Some g2" "same_flow g0 g2"
      using flow_mod [OF g1(2) ip0, where f = "\<lambda>po. (po_io po)\<lparr>io_buffer_id := SPA_ID_INVALID\<rparr>"] by blast
    obtain op2 where op2: "g_ports g2 qq = Some op2" "po_node op2 = po_node op" using flow_port [OF g2(2) op] by blast
    obtain res g3 where pr: "fe_process_output env (po_node op) g2 = (res, g3)" by fastforce
    have s3: "same_flow g0 g3" by (rule flow_call [OF env g2(2) pr])
    obtain op3 where op3: "g_ports g3 qq = Some op3" using flow_port [OF s3 op] by blast
    obtain g4 where g4: "mod_port p (\<lambda>po. po\<lparr>po_io := po_io op3\<rparr>) g3 = Some g4" "same_flow g0 g4"
      using flow_mod [OF s3 ip0, where f = "\<lambda>_. po_io op3"] by blast
    obtain res' g5 where g5: "pull (po_node op) g3 = Some (res', g5)" "same_flow g0 g5"
      using pull [OF s3] by (auto simp: returns_def)
    show ?thesis
      using IH [OF s3] IH [OF g4(2)] IH [OF g5(2)] by (simp add: kl r qq ip g1(1) g2(1) op2 pr op3 g4(1) g5(1))
  qed
qed simp

lemma pull_ports_returns:
  assumes env: "only_io env"
    and ports: "\<And>p. p \<in> set ps \<Longrightarrow> \<exists>po. g_ports g0 p = Some po \<and> (\<forall>l \<in> set (po_rt_links po). \<exists>k. g_links g0 l = Some k \<and>
      (\<forall>q. lk_rt_output k = Some q \<longrightarrow> (\<exists>op. g_ports g0 q = Some op \<and>
         (\<forall>g. same_flow g0 g \<longrightarrow> returns (\<lambda>r. same_flow g0 (snd r)) (pull (po_node op) g)))))"
  shows "same_flow g0 g \<Longrightarrow> returns (\<lambda>r. same_flow g0 (snd r)) (pull_ports pull env ps st g)"
  using ports
proof (induction ps arbitrary: st g)
  case (Cons p ps)
  note IH = Cons.IH [OF _ Cons.prems(2) [OF list.set_intros(2)]]
  obtain po where po: "g_ports g0 p = Some po" and links: "\<And>l. l \<in> set (po_rt_links po) \<Longrightarrow> \<exists>k. g_links g0 l = Some k \<and>
      (\<forall>q. lk_rt_output k = Some q \<longrightarrow> (\<exists>op. g_ports g0 q = Some op \<and>
         (\<forall>g. same_flow g0 g \<longrightarrow> returns (\<lambda>r. same_flow g0 (snd r)) (pull (po_node op) g))))"
    using Cons.prems(2) [of p] by auto
  obtain po' where po': "g_ports g p = Some po'" "po_rt_links po' = po_rt_links po"
    using flow_port [OF Cons.prems(1) po] by blast
  obtain st1 g1 where "pull_links pull env p (po_rt_links po) st g = Some (st1, g1)" "same_flow g0 g1"
    using pull_links_returns [OF env _ links Cons.prems(1), where p = p and st = st and ls = "po_rt_links po"] po by (auto simp: returns_def)
  then show ?case using IH [OF Cons.prems(1), where st = st] IH [where g = g1 and st = st1] by (simp add: po')
qed simp


text \<open>The number of nodes that buffers come from, directly or not.\<close>

definition upstream :: "'w graph \<Rightarrow> nat \<Rightarrow> nat set" where
  "upstream g n = {m. (m, n) \<in> (flow_edges g)\<^sup>+}"

lemma upstream_less:
  assumes "acyclic (flow_edges g)" and "finite (flow_edges g)" and e: "(m, n) \<in> flow_edges g"
  shows "card (upstream g m) < card (upstream g n)"
proof (rule psubset_card_mono)
  have "upstream g n \<subseteq> fst ` ((flow_edges g)\<^sup>+)" by (force simp: upstream_def)
  then show "finite (upstream g n)" using assms(2) finite_subset by fastforce
  have "m \<in> upstream g n" "m \<notin> upstream g m" using e assms(1) by (auto simp: upstream_def acyclic_def)
  moreover have "upstream g m \<subseteq> upstream g n" using e by (auto simp: upstream_def intro: trancl_into_trancl)
  ultimately show "upstream g m \<subset> upstream g n" by blast
qed

lemma do_pull_flow:
  assumes env: "only_io env" and ok: "flow_ok g0" and ac: "acyclic (flow_edges g0)" "finite (flow_edges g0)"
  shows "card (upstream g0 n) < fuel \<Longrightarrow> g_nodes g0 n \<noteq> None \<Longrightarrow> same_flow g0 g \<Longrightarrow>
    returns (\<lambda>r. same_flow g0 (snd r)) (do_pull fuel env n g)"
proof (induction fuel arbitrary: n g)
  case (Suc fuel)
  obtain x where x: "g_nodes g0 n = Some x" "g_nodes g n = Some x" using Suc.prems by (auto simp: same_flow_def)
  have "\<exists>po. g_ports g0 p = Some po \<and> (\<forall>l \<in> set (po_rt_links po). \<exists>k. g_links g0 l = Some k \<and>
      (\<forall>q. lk_rt_output k = Some q \<longrightarrow> (\<exists>op. g_ports g0 q = Some op \<and>
        (\<forall>g. same_flow g0 g \<longrightarrow> returns (\<lambda>r. same_flow g0 (snd r)) (do_pull fuel env (po_node op) g)))))"
    if p: "p \<in> set (sn_input_ports x)" for p
  proof -
    obtain po where po: "g_ports g0 p = Some po" and l: "\<And>l. l \<in> set (po_rt_links po) \<Longrightarrow> \<exists>k. g_links g0 l = Some k \<and>
        (\<forall>q. lk_rt_output k = Some q \<longrightarrow> (\<exists>op. g_ports g0 q = Some op \<and> g_nodes g0 (po_node op) \<noteq> None))"
      using ok [unfolded flow_ok_def, THEN spec, THEN spec, THEN spec, THEN mp, THEN mp, OF x(1) p] by blast
    have "\<exists>op. g_ports g0 q = Some op \<and> (\<forall>g. same_flow g0 g \<longrightarrow> returns (\<lambda>r. same_flow g0 (snd r)) (do_pull fuel env (po_node op) g))"
      if lk: "l \<in> set (po_rt_links po)" "g_links g0 l = Some k" "lk_rt_output k = Some q" for l k q
    proof -
      obtain op where op: "g_ports g0 q = Some op" "g_nodes g0 (po_node op) \<noteq> None" using l [OF lk(1)] lk by auto
      have "(po_node op, n) \<in> flow_edges g0" unfolding flow_edges_def using x(1) p po lk op by blast
      from upstream_less [OF ac this] have "card (upstream g0 (po_node op)) < fuel" using Suc.prems(1) by simp
      then show ?thesis using Suc.IH op by blast
    qed
    then show ?thesis using po l by blast
  qed
  from pull_ports_returns [OF env this Suc.prems(3), where st = "(SPA_RESULT_OK, False)" and ps = "sn_input_ports x"]
  obtain st1 g1 where "pull_ports (do_pull fuel env) env (sn_input_ports x) (SPA_RESULT_OK, False) g = Some (st1, g1)" "same_flow g0 g1"
    by (auto simp: returns_def)
  moreover have "same_flow g0 (snd (fe_process_input env n g1))"
    using env same_flow_trans [OF \<open>same_flow g0 g1\<close>] by (simp add: only_io_def)
  ultimately show ?case using x by (simp add: case_prod_beta)
qed simp

text \<open>C36. When the links have no cycle, \<open>do_pull\<close> returns and leaves nodes, ports and links as they are but for the io
  areas: the depth of its recursion is at most the number of nodes that the node gets buffers from, plus one. The links,
  ports and nodes on the way must exist, and the nodes write nothing but io areas and their own state.\<close>

theorem do_pull_returns:
  assumes "only_io env" and "flow_ok g" and "acyclic (flow_edges g)" and "finite (flow_edges g)" and "g_nodes g n \<noteq> None"
  shows "\<exists>res g'. do_pull (card (upstream g n) + 1) env n g = Some (res, g') \<and> same_flow g g'"
  using do_pull_flow [OF assms(1-4) _ assms(5) same_flow_refl, of "card (upstream g n) + 1"] by (auto simp: returns_def)

section \<open>Pulling on a cycle\<close>

text \<open>The first link of the first input port of the node leads to a node of the list, and that port needs a buffer.\<close>

definition first :: "'a list \<Rightarrow> 'a option" where
  "first xs = (case xs of [] \<Rightarrow> None | x # _ \<Rightarrow> Some x)"

definition starving :: "'w graph \<Rightarrow> nat list \<Rightarrow> nat \<Rightarrow> bool" where
  "starving g ns n \<longleftrightarrow> do {
     x \<leftarrow> g_nodes g n;
     p \<leftarrow> first (sn_input_ports x);
     po \<leftarrow> g_ports g p;
     l \<leftarrow> first (po_rt_links po);
     k \<leftarrow> g_links g l;
     r \<leftarrow> lk_rt_input k;
     q \<leftarrow> lk_rt_output k;
     op \<leftarrow> g_ports g q;
     Some (io_status (po_io po) = SPA_RESULT_NEED_BUFFER \<and> po_node op \<in> set ns) } = Some True"

lemma first_Some: "first xs = Some x \<longleftrightarrow> (\<exists>ys. xs = x # ys)"
  by (cases xs) (simp_all add: first_def)

lemma starvingE:
  assumes "starving g ns n"
  obtains x p ps po l ls k r q op where "g_nodes g n = Some x" "sn_input_ports x = p # ps" "g_ports g p = Some po"
    "io_status (po_io po) = SPA_RESULT_NEED_BUFFER" "po_rt_links po = l # ls" "g_links g l = Some k" "lk_rt_input k = Some r"
    "lk_rt_output k = Some q" "g_ports g q = Some op" "po_node op \<in> set ns"
  using assms by (auto simp: starving_def Option.bind_eq_Some_conv first_Some)

text \<open>Ports that need a buffer still need one: the io areas were only written in ways that keep the status of the ports that ask.\<close>

definition needs_buffer :: "'w graph \<Rightarrow> nat \<Rightarrow> bool" where
  "needs_buffer g p \<longleftrightarrow> map_option (\<lambda>po. io_status (po_io po)) (g_ports g p) = Some SPA_RESULT_NEED_BUFFER"

definition still_needs :: "'w graph \<Rightarrow> 'w graph \<Rightarrow> bool" where
  "still_needs g g' \<longleftrightarrow> (\<forall>p. needs_buffer g p \<longrightarrow> needs_buffer g' p)"

lemma starving_same:
  assumes "starving g ns n" and same: "same_flow g g'" and need: "still_needs g g'"
  shows "starving g' ns n"
  using assms(1)
proof (rule starvingE)
  fix x p ps po l ls k r q op
  assume s: "g_nodes g n = Some x" "sn_input_ports x = p # ps" "g_ports g p = Some po"
    "io_status (po_io po) = SPA_RESULT_NEED_BUFFER" "po_rt_links po = l # ls" "g_links g l = Some k" "lk_rt_input k = Some r"
    "lk_rt_output k = Some q" "g_ports g q = Some op" "po_node op \<in> set ns"
  obtain po' where po': "g_ports g' p = Some po'" "po_rt_links po' = po_rt_links po" using flow_port [OF same s(3)] by blast
  obtain op' where op': "g_ports g' q = Some op'" "po_node op' = po_node op" using flow_port [OF same s(9)] by blast
  have "needs_buffer g p" using s(3,4) by (simp add: needs_buffer_def)
  then have "needs_buffer g' p" using need by (simp add: still_needs_def)
  then have "io_status (po_io po') = SPA_RESULT_NEED_BUFFER" using po'(1) by (simp add: needs_buffer_def)
  then show ?thesis using s same po' op' by (simp add: starving_def same_flow_def first_def)
qed

lemma still_needs_mod:
  assumes "mod_port p (\<lambda>po. po\<lparr>po_io := f po\<rparr>) g = Some g'" and "\<And>po. g_ports g p = Some po \<Longrightarrow> io_status (po_io po) = SPA_RESULT_NEED_BUFFER \<Longrightarrow>
      io_status (f po) = SPA_RESULT_NEED_BUFFER"
  shows "same_flow g g'" and "still_needs g g'"
  using assms by (auto simp: mod_port_def same_flow_def still_needs_def needs_buffer_def split: option.splits)

lemma still_needs_trans: "still_needs g g' \<Longrightarrow> still_needs g' g'' \<Longrightarrow> still_needs g g''"
  by (simp add: still_needs_def)

text \<open>The same recursion, cut off: the call at the depth \<open>fuel\<close> returns at once instead of running on.\<close>

fun do_pull_cut :: "nat \<Rightarrow> 'w flow_env \<Rightarrow> nat \<Rightarrow> 'w graph \<Rightarrow> (spa_result \<times> 'w graph) option" where
  "do_pull_cut 0 env n g = Some (SPA_RESULT_NEED_BUFFER, g)"
| "do_pull_cut (Suc fuel) env n g = do {
     x \<leftarrow> g_nodes g n;
     ((res, have_output), g1) \<leftarrow> pull_ports (do_pull_cut fuel env) env (sn_input_ports x) (SPA_RESULT_OK, False) g;
     Some (if have_output then fe_process_input env n g1 else (res, g1)) }"

lemma do_pull_cut_returns:
  assumes env: "only_io env" and ok: "flow_ok g0"
  shows "g_nodes g0 n \<noteq> None \<Longrightarrow> same_flow g0 g \<Longrightarrow> returns (\<lambda>r. same_flow g0 (snd r)) (do_pull_cut fuel env n g)"
proof (induction fuel arbitrary: n g)
  case (Suc fuel)
  obtain x where x: "g_nodes g0 n = Some x" "g_nodes g n = Some x" using Suc.prems by (auto simp: same_flow_def)
  have "\<exists>po. g_ports g0 p = Some po \<and> (\<forall>l \<in> set (po_rt_links po). \<exists>k. g_links g0 l = Some k \<and>
      (\<forall>q. lk_rt_output k = Some q \<longrightarrow> (\<exists>op. g_ports g0 q = Some op \<and>
        (\<forall>g. same_flow g0 g \<longrightarrow> returns (\<lambda>r. same_flow g0 (snd r)) (do_pull_cut fuel env (po_node op) g)))))"
    if p: "p \<in> set (sn_input_ports x)" for p
  proof -
    obtain po where po: "g_ports g0 p = Some po" and l: "\<And>l. l \<in> set (po_rt_links po) \<Longrightarrow> \<exists>k. g_links g0 l = Some k \<and>
        (\<forall>q. lk_rt_output k = Some q \<longrightarrow> (\<exists>op. g_ports g0 q = Some op \<and> g_nodes g0 (po_node op) \<noteq> None))"
      using ok [unfolded flow_ok_def, THEN spec, THEN spec, THEN spec, THEN mp, THEN mp, OF x(1) p] by blast
    have "\<exists>op. g_ports g0 q = Some op \<and> (\<forall>g. same_flow g0 g \<longrightarrow> returns (\<lambda>r. same_flow g0 (snd r)) (do_pull_cut fuel env (po_node op) g))"
      if lk: "l \<in> set (po_rt_links po)" "g_links g0 l = Some k" "lk_rt_output k = Some q" for l k q
    proof -
      obtain op where op: "g_ports g0 q = Some op" "g_nodes g0 (po_node op) \<noteq> None" using l [OF lk(1)] lk by auto
      then show ?thesis using Suc.IH by blast
    qed
    then show ?thesis using po l by blast
  qed
  from pull_ports_returns [OF env this Suc.prems(2), where st = "(SPA_RESULT_OK, False)" and ps = "sn_input_ports x"]
  obtain st1 g1 where "pull_ports (do_pull_cut fuel env) env (sn_input_ports x) (SPA_RESULT_OK, False) g = Some (st1, g1)" "same_flow g0 g1"
    by (auto simp: returns_def)
  moreover have "same_flow g0 (snd (fe_process_input env n g1))"
    using env same_flow_trans [OF \<open>same_flow g0 g1\<close>] by (simp add: only_io_def)
  ultimately show ?case using x by (simp add: case_prod_beta)
qed simp

text \<open>C37. On a cycle of nodes that all need a buffer, \<open>do_pull\<close> never returns: no depth of the recursion is enough, and in
  the code it ends with an overflow of the stack. It is only the depth that makes it fail: cut off at any depth, it returns. The
  nodes of the cycle have no output of their own and ask for a buffer; whatever they and the others write into io areas leaves
  the ports that need a buffer needing one.\<close>

theorem do_pull_cycle:
  assumes "only_io env" and "flow_ok g"
    and "\<And>m h. m \<in> set ns \<Longrightarrow> fst (fe_process_output env m h) = SPA_RESULT_NEED_BUFFER \<and> still_needs h (snd (fe_process_output env m h))"
    and "\<And>m. m \<in> set ns \<Longrightarrow> starving g ns m" and "n \<in> set ns"
  shows "do_pull fuel env n g = None \<and> do_pull_cut fuel env n g \<noteq> None"
proof
  have node: "g_nodes g n \<noteq> None" using assms(4) [OF assms(5)] by (auto elim: starvingE)
  have "returns (\<lambda>r. same_flow g (snd r)) (do_pull_cut fuel env n g)"
    by (rule do_pull_cut_returns [OF assms(1,2) node same_flow_refl])
  then show "do_pull_cut fuel env n g \<noteq> None" by (auto simp: returns_def)
  have "do_pull fuel env n h = None" if "\<And>m. m \<in> set ns \<Longrightarrow> starving h ns m" "n \<in> set ns" for n h
    using that
  proof (induction fuel arbitrary: n h)
    case (Suc fuel)
    obtain x p ps po l ls k r q op where s: "g_nodes h n = Some x" "sn_input_ports x = p # ps" "g_ports h p = Some po"
      "io_status (po_io po) = SPA_RESULT_NEED_BUFFER" "po_rt_links po = l # ls" "g_links h l = Some k" "lk_rt_input k = Some r"
      "lk_rt_output k = Some q" "g_ports h q = Some op" "po_node op \<in> set ns"
      using Suc.prems(1) [OF Suc.prems(2)] by (rule starvingE)
    obtain g1 where g1: "mod_port q (\<lambda>po'. po'\<lparr>po_io := po_io po\<rparr>) h = Some g1" using s(9) by (simp add: mod_port_def)
    note st1 = still_needs_mod [OF g1 s(4)]
    obtain po1 where po1: "g_ports g1 p = Some po1" using flow_port [OF st1(1) s(3)] by blast
    obtain g2 where g2: "mod_port p (\<lambda>po. po\<lparr>po_io := (po_io po)\<lparr>io_buffer_id := SPA_ID_INVALID\<rparr>\<rparr>) g1 = Some g2"
      using po1 by (simp add: mod_port_def)
    have st2: "same_flow g1 g2" "still_needs g1 g2" by (rule still_needs_mod [OF g2]; simp)+
    obtain op2 where op2: "g_ports g2 q = Some op2" "po_node op2 = po_node op"
      using flow_port [OF same_flow_trans [OF st1(1) st2(1)] s(9)] by blast
    obtain g3 where g3: "fe_process_output env (po_node op) g2 = (SPA_RESULT_NEED_BUFFER, g3)" "still_needs g2 g3" "same_flow g2 g3"
      using assms(1) assms(3) [OF s(10), of g2] by (metis only_io_def prod.collapse)
    have "starving g3 ns m" if "m \<in> set ns" for m
      by (rule starving_same [OF Suc.prems(1) [OF that] same_flow_trans [OF same_flow_trans [OF st1(1) st2(1)] g3(3)]
          still_needs_trans [OF still_needs_trans [OF st1(2) st2(2)] g3(2)]])
    then have "do_pull fuel env (po_node op) g3 = None" using Suc.IH s(10) by blast
    then show ?case by (simp add: s g1 g2 op2 g3(1))
  qed simp
  from this [OF assms(4,5)] show "do_pull fuel env n g = None" .
qed

section \<open>Examples\<close>

definition ex_flow_env :: "'w flow_env" where
  "ex_flow_env = \<lparr>fe_process_input = (\<lambda>n g. (SPA_RESULT_OK, g)), fe_process_output = (\<lambda>n g. (SPA_RESULT_NEED_BUFFER, g))\<rparr>"

text \<open>The input port 2 of node 1 and the output port 4 of node 3, with the link 5 between them.\<close>

definition ex_flow_port :: "nat \<Rightarrow> spa_direction \<Rightarrow> server_port" where
  "ex_flow_port n d = \<lparr>po_node = n, po_direction = d, po_port_id = 0, po_state = PORT_STREAMING,
     po_io = no_io\<lparr>io_status := SPA_RESULT_NEED_BUFFER\<rparr>, po_allocated = False, po_buffers = None, po_n_buffers = 0,
     po_links = [5], po_rt_links = [5], po_listeners = [5], po_seq = 0\<rparr>"

definition ex_flow_node :: "nat list \<Rightarrow> nat list \<Rightarrow> server_node" where
  "ex_flow_node ins outs = \<lparr>sn_state = NODE_RUNNING, sn_input_ports = ins, sn_output_ports = outs, sn_n_input_ports = 1,
     sn_n_output_ports = 1, sn_input_map = [], sn_output_map = [], sn_n_used_input_links = 1, sn_n_used_output_links = 1,
     sn_live = False, sn_clock = None, sn_async_init = False, sn_async_listeners = [5], sn_work = \<lparr>gq_items = [], gq_wakeup = False\<rparr>\<rparr>"

definition ex_flow_graph :: "unit graph" where
  "ex_flow_graph = (empty_graph ())\<lparr>g_nodes := [1 \<mapsto> ex_flow_node [2] [], 3 \<mapsto> ex_flow_node [] [4]],
     g_ports := [2 \<mapsto> ex_flow_port 1 Dir_input, 4 \<mapsto> ex_flow_port 3 Dir_output],
     g_links := [5 \<mapsto> (new_server_link 4 2)\<lparr>lk_rt_input := Some 2, lk_rt_output := Some 4\<rparr>]\<rparr>"

lemma ex_flow_edges: "flow_edges ex_flow_graph = {(3, 1)}"
  by (auto simp: flow_edges_def ex_flow_graph_def ex_flow_node_def ex_flow_port_def new_server_link_def split: if_splits)

theorem do_pull_returns_witness:
  "\<exists>res g'. do_pull 2 ex_flow_env 1 ex_flow_graph = Some (res, g') \<and> same_flow ex_flow_graph g'"
proof -
  have env: "only_io (ex_flow_env :: unit flow_env)" by (simp add: only_io_def ex_flow_env_def)
  have ok: "flow_ok ex_flow_graph"
    by (auto simp: flow_ok_def ex_flow_graph_def ex_flow_node_def ex_flow_port_def new_server_link_def split: if_splits)
  have tr: "{(3 :: nat, 1 :: nat)}\<^sup>+ = {(3, 1)}" by (rule trancl_unfold [THEN trans]) (auto dest: tranclD2)
  then have ac: "acyclic (flow_edges ex_flow_graph)" "finite (flow_edges ex_flow_graph)" and up: "upstream ex_flow_graph 1 = {3}"
    by (auto simp: ex_flow_edges acyclic_def upstream_def)
  have "g_nodes ex_flow_graph 1 \<noteq> None" by (simp add: ex_flow_graph_def)
  have two: "card (upstream ex_flow_graph 1) + 1 = 2" by (simp only: up) simp
  show ?thesis
    using do_pull_returns [OF env ok ac \<open>g_nodes ex_flow_graph 1 \<noteq> None\<close>] by (simp only: two)
qed

text \<open>Two nodes with an input and an output port each, linked in both directions by calls of \<open>pinos_port_link\<close>, which refuses only
  a link from a node to itself.\<close>

definition ex_both_env :: "unit node_env" where
  "ex_both_env = ex_env\<lparr>ne_get_n_ports := \<lambda>n w. ((1, 1), (1, 1)), ne_get_port_ids := \<lambda>n w. ([0], [0])\<rparr>"

definition ex_cycle_ops :: "graph_op list" where
  "ex_cycle_ops = [Op_node_new False False None, Op_node_new False False None, Op_port_link 3 5, Op_port_link 6 2, Op_data, Op_data, Op_data, Op_data]"

text \<open>The nodes ask for buffers in the io areas of their ports.\<close>

definition need_buffers :: "'w graph \<Rightarrow> 'w graph" where
  "need_buffers g = g\<lparr>g_ports := \<lambda>p. map_option (\<lambda>po. po\<lparr>po_io := (po_io po)\<lparr>io_status := SPA_RESULT_NEED_BUFFER\<rparr>\<rparr>) (g_ports g p)\<rparr>"

lemma ex_cycle_linked:
  "\<exists>g. graph_run ex_both_env ex_cycle_ops (empty_graph ()) = Some g \<and>
     starving (need_buffers g) [1, 4] 1 \<and> starving (need_buffers g) [1, 4] 4"
proof -
  have "map_option (\<lambda>g. (starving (need_buffers g) [1, 4] 1, starving (need_buffers g) [1, 4] 4))
      (graph_run ex_both_env ex_cycle_ops (empty_graph ())) = Some (True, True)"
    by code_simp
  then show ?thesis by auto
qed

text \<open>The links of that graph.\<close>

definition ex_cycle_graph :: "unit graph" where
  "ex_cycle_graph = (empty_graph ())\<lparr>g_nodes := [1 \<mapsto> ex_flow_node [2] [3], 4 \<mapsto> ex_flow_node [5] [6]],
     g_ports := [2 \<mapsto> (ex_flow_port 1 Dir_input)\<lparr>po_rt_links := [8]\<rparr>, 3 \<mapsto> (ex_flow_port 1 Dir_output)\<lparr>po_rt_links := [7]\<rparr>,
       5 \<mapsto> (ex_flow_port 4 Dir_input)\<lparr>po_rt_links := [7]\<rparr>, 6 \<mapsto> (ex_flow_port 4 Dir_output)\<lparr>po_rt_links := [8]\<rparr>],
     g_links := [7 \<mapsto> (new_server_link 3 5)\<lparr>lk_rt_input := Some 5, lk_rt_output := Some 3\<rparr>,
       8 \<mapsto> (new_server_link 6 2)\<lparr>lk_rt_input := Some 2, lk_rt_output := Some 6\<rparr>]\<rparr>"

theorem do_pull_cycle_witness:
  "\<forall>fuel. do_pull fuel ex_flow_env 1 ex_cycle_graph = None \<and> do_pull_cut fuel ex_flow_env 1 ex_cycle_graph \<noteq> None"
proof
  fix fuel
  have env: "only_io (ex_flow_env :: unit flow_env)" by (simp add: only_io_def ex_flow_env_def)
  have ok: "flow_ok ex_cycle_graph"
    by (auto simp: flow_ok_def ex_cycle_graph_def ex_flow_node_def ex_flow_port_def new_server_link_def split: if_splits)
  have st: "starving ex_cycle_graph [1, 4] m" if "m \<in> set [1, 4]" for m
    using that by (auto simp: starving_def first_def ex_cycle_graph_def ex_flow_node_def ex_flow_port_def new_server_link_def)
  show "do_pull fuel ex_flow_env 1 ex_cycle_graph = None \<and> do_pull_cut fuel ex_flow_env 1 ex_cycle_graph \<noteq> None"
    by (rule do_pull_cycle [OF env ok _ st]) (simp_all add: ex_flow_env_def still_needs_def)
qed

end
