(* ===== verification/Pinos_Loop.thy ===== *)
theory Pinos_Loop
  imports Spa_Pod Spa_Ringbuffer "HOL-Library.Monad_Syntax"
begin

text \<open>
  The event loop of \<^verbatim>\<open>pinos/client/loop.c\<close>: the queue through which one thread has a function run by the
  thread of another loop, and the sources of a loop with the dispatch of the ones that are ready. The queue is a ring
  buffer of \<^verbatim>\<open>InvokeItem\<close> structures, modelled byte by byte at their C layout; a write or a read behind the
  buffer, and an access to a source that was freed, is \<open>None\<close>. The first 32 KiB of items pass through in order; then
  the item that does not fit before the end of the buffer is written over it.
\<close>

section \<open>The queue of calls\<close>

definition DATAS_SIZE :: u32 where "DATAS_SIZE = 4096 * 8"

text \<open>\<^verbatim>\<open>sizeof (InvokeItem)\<close> and the offsets of \<^verbatim>\<open>item_size\<close>, \<^verbatim>\<open>func\<close>, \<^verbatim>\<open>seq\<close>, \<^verbatim>\<open>size\<close>,
  \<^verbatim>\<open>data\<close> and \<^verbatim>\<open>user_data\<close>: 0, 8, 16, 24, 32 and 40.\<close>

definition sizeof_InvokeItem :: u64 where "sizeof_InvokeItem = 48"

text \<open>A call of a function; \<open>ic_async\<close> tells whether it went through the queue.\<close>

record invoke_call =
  ic_func :: u64
  ic_async :: bool
  ic_seq :: u32
  ic_data :: "byte list"
  ic_user_data :: u64

record invoke_loop =
  il_buffer :: spa_ringbuffer
  il_data :: "byte list"
  il_addr :: u64
  il_event :: bool
  il_calls :: "invoke_call list"

definition call_now :: "invoke_call \<Rightarrow> invoke_loop \<Rightarrow> invoke_loop" where
  "call_now c s = s\<lparr>il_calls := il_calls s @ [c]\<rparr>"

text \<open>Where the data of an item goes and how large the item is; \<open>l0\<close> is computed from an end, not from a length.\<close>

definition place_item :: "u32 \<Rightarrow> u32 \<Rightarrow> u32 \<Rightarrow> u64 \<Rightarrow> u64 \<Rightarrow> u64 \<times> u64" where
  "place_item buf_size offset avail sz addr =
     (let l = offset + avail; l0 = (if l > buf_size then buf_size - l else l) in
      if ucast l0 > sizeof_InvokeItem + sz
      then let isz = sizeof_InvokeItem + sz in
        (addr + ucast offset + sizeof_InvokeItem, if ucast l0 < sizeof_InvokeItem + isz then ucast l0 else isz)
      else (addr, ucast (l0 + 1) + sz))"

definition write_item ::
  "nat \<Rightarrow> u64 \<Rightarrow> u32 \<Rightarrow> u64 \<Rightarrow> u64 \<Rightarrow> u64 \<Rightarrow> u64 \<Rightarrow> u64 \<Rightarrow> byte list \<Rightarrow> byte list \<Rightarrow> byte list option" where
  "write_item off func seq sz user_data data item_size addr bytes m = do {
     m1 \<leftarrow> mem_write m (off + 8) (le64 func);
     m2 \<leftarrow> mem_write m1 (off + 16) (le32 seq);
     m3 \<leftarrow> mem_write m2 (off + 24) (le64 sz);
     m4 \<leftarrow> mem_write m3 (off + 40) (le64 user_data);
     m5 \<leftarrow> mem_write m4 (off + 32) (le64 data);
     m6 \<leftarrow> mem_write m5 off (le64 item_size);
     mem_write m6 (unat (data - addr)) bytes }"

definition loop_invoke ::
  "(invoke_call \<Rightarrow> spa_result) \<Rightarrow> bool \<Rightarrow> u64 \<Rightarrow> u32 \<Rightarrow> byte list \<Rightarrow> u64 \<Rightarrow> invoke_loop \<Rightarrow> (spa_result \<times> invoke_loop) option" where
  "loop_invoke result in_thread func seq bytes user_data s =
     (if in_thread
      then let c = \<lparr>ic_func = func, ic_async = False, ic_seq = seq, ic_data = bytes, ic_user_data = user_data\<rparr> in
        Some (result c, call_now c s)
      else case spa_ringbuffer_get_write_index (il_buffer s) of
        (filled, idx) \<Rightarrow>
          let buf_size = rb_size (il_buffer s); avail = buf_size - filled; offset = idx AND rb_mask (il_buffer s);
              sz = of_nat (length bytes) in
          if filled <s 0 \<or> filled > buf_size then Some (SPA_RESULT_ERROR, s)
          else if (scast avail :: u64) < sizeof_InvokeItem then Some (SPA_RESULT_ERROR, s)
          else case place_item buf_size offset avail sz (il_addr s) of
            (data, item_size) \<Rightarrow> do {
              m \<leftarrow> write_item (unat offset) func seq sz user_data data item_size (il_addr s) bytes (il_data s);
              Some (if seq \<noteq> SPA_ID_INVALID then SPA_RESULT_RETURN_ASYNC seq else SPA_RESULT_OK,
                s\<lparr>il_data := m, il_buffer := spa_ringbuffer_write_update (il_buffer s) (idx + ucast item_size), il_event := True\<rparr>) })"

text \<open>The item at an offset and the bytes that its data pointer names.\<close>

definition read_item :: "u64 \<Rightarrow> nat \<Rightarrow> byte list \<Rightarrow> (invoke_call \<times> u64) option" where
  "read_item addr off m = do {
     item_size \<leftarrow> mem_read m off 8;
     func \<leftarrow> mem_read m (off + 8) 8;
     seq \<leftarrow> mem_read m (off + 16) 4;
     sz \<leftarrow> mem_read m (off + 24) 8;
     data \<leftarrow> mem_read m (off + 32) 8;
     user_data \<leftarrow> mem_read m (off + 40) 8;
     bytes \<leftarrow> mem_read m (unat (rd64 data - addr)) (unat (rd64 sz));
     Some (\<lparr>ic_func = rd64 func, ic_async = True, ic_seq = rd32 seq, ic_data = bytes, ic_user_data = rd64 user_data\<rparr>, rd64 item_size) }"

text \<open>The loop of \<^verbatim>\<open>event_func\<close>; the functions called here do not write into the queue of their own loop.\<close>

partial_function (option) event_func :: "invoke_loop \<Rightarrow> invoke_loop option" where
  "event_func s =
     (case spa_ringbuffer_get_read_index (il_buffer s) of
        (avail, index) \<Rightarrow>
          if 0 <s avail
          then (case read_item (il_addr s) (unat (index AND rb_mask (il_buffer s))) (il_data s) of
                  None \<Rightarrow> None
                | Some (c, item_size) \<Rightarrow>
                    event_func ((call_now c s)\<lparr>il_buffer := spa_ringbuffer_read_update (il_buffer s) (index + ucast item_size)\<rparr>))
          else Some s)"

declare event_func.simps [code]

definition new_queue :: "u64 \<Rightarrow> invoke_loop" where
  "new_queue addr =
     \<lparr>il_buffer = snd (spa_ringbuffer_init \<lparr>readindex = 0, writeindex = 0, rb_size = 0, rb_mask = 0\<rparr> DATAS_SIZE),
      il_data = replicate (unat DATAS_SIZE) 0, il_addr = addr, il_event = False, il_calls = []\<rparr>"

text \<open>What other threads and the loop do to the queue.\<close>

datatype queue_op = Q_invoke u64 u32 "byte list" u64 | Q_event

definition queue_step :: "queue_op \<Rightarrow> invoke_loop \<Rightarrow> invoke_loop option" where
  "queue_step act s =
     (case act of
        Q_invoke func seq bytes user \<Rightarrow> map_option snd (loop_invoke (\<lambda>_. SPA_RESULT_OK) False func seq bytes user s)
      | Q_event \<Rightarrow> event_func (s\<lparr>il_event := False\<rparr>))"

section \<open>The first lap\<close>

lemma rd64_le64: "rd64 (le64 w @ xs) = w"
proof -
  have "ucast (ucast w :: u32) OR push_bit 32 (ucast (ucast (drop_bit 32 w) :: u32)) = w"
  proof (rule bit_word_eqI, goal_cases)
    case (1 n)
    then show ?case by (cases "n < 32") (auto simp: bit_simps)
  qed
  then show ?thesis by (simp add: rd64_def le64_def)
qed

lemma rd64_le64' [simp]: "rd64 (le64 w) = w" "rd32 (le32 v) = v"
  using rd64_le64 [of w "[]"] rd32_le32 [of v "[]"] by simp_all

lemma length_le64 [simp]: "length (le64 w) = 8"
  by (simp add: le64_def)

text \<open>An item lies at an offset when its fields and data can be read there; its data follow it.\<close>

definition item_size_of :: "invoke_call \<Rightarrow> nat" where
  "item_size_of c = 48 + length (ic_data c)"

definition item_at :: "u64 \<Rightarrow> byte list \<Rightarrow> nat \<Rightarrow> invoke_call \<Rightarrow> bool" where
  "item_at addr m off c \<longleftrightarrow> ic_async c \<and>
     mem_read m off 8 = Some (le64 (of_nat (item_size_of c))) \<and> mem_read m (off + 8) 8 = Some (le64 (ic_func c)) \<and>
     mem_read m (off + 16) 4 = Some (le32 (ic_seq c)) \<and> mem_read m (off + 24) 8 = Some (le64 (of_nat (length (ic_data c)))) \<and>
     mem_read m (off + 32) 8 = Some (le64 (addr + of_nat (off + 48))) \<and> mem_read m (off + 40) 8 = Some (le64 (ic_user_data c)) \<and>
     mem_read m (off + 48) (length (ic_data c)) = Some (ic_data c)"

fun laid :: "u64 \<Rightarrow> byte list \<Rightarrow> nat \<Rightarrow> invoke_call list \<Rightarrow> bool" where
  "laid addr m off [] \<longleftrightarrow> True"
| "laid addr m off (c # cs) \<longleftrightarrow> item_at addr m off c \<and> laid addr m (off + item_size_of c) cs"

definition items_size :: "invoke_call list \<Rightarrow> nat" where
  "items_size cs = sum_list (map item_size_of cs)"

lemma items_size_simps [simp]: "items_size [] = 0" "items_size (c # cs) = item_size_of c + items_size cs"
  "items_size (as @ bs) = items_size as + items_size bs"
  by (simp_all add: items_size_def)

lemma laid_append: "laid addr m off (as @ bs) \<longleftrightarrow> laid addr m off as \<and> laid addr m (off + items_size as) bs"
  by (induction as arbitrary: off) (simp_all add: add.assoc)

lemma item_at_keep:
  assumes "\<And>o' n. o' + n \<le> hi \<Longrightarrow> mem_read m' o' n = mem_read m o' n" and "off + item_size_of c \<le> hi" and "item_at addr m off c"
  shows "item_at addr m' off c"
  using assms by (simp add: item_at_def item_size_of_def)

lemma laid_keep:
  assumes "\<And>o' n. o' + n \<le> hi \<Longrightarrow> mem_read m' o' n = mem_read m o' n"
  shows "off + items_size cs \<le> hi \<Longrightarrow> laid addr m off cs \<Longrightarrow> laid addr m' off cs"
  by (induction cs arbitrary: off) (use item_at_keep [OF assms] in auto)

lemma write_item_at:
  assumes "off + 48 + length bytes \<le> length m" and "length m \<le> 32768" and "data = addr + of_nat (off + 48)"
  obtains m' where "write_item off func seq (of_nat (length bytes)) user data (of_nat (48 + length bytes)) addr bytes m = Some m'"
    and "length m' = length m" and "item_at addr m' off \<lparr>ic_func = func, ic_async = True, ic_seq = seq, ic_data = bytes, ic_user_data = user\<rparr>"
    and "\<forall>o' n. o' + n \<le> off \<longrightarrow> mem_read m' o' n = mem_read m o' n"
proof -
  have d: "unat (data - addr) = off + 48"
    using assms by (simp add: unsigned_of_nat take_bit_nat_eq_self del: of_nat_add)
  have ex: "\<exists>m'. mem_write x o' b = Some m'" if "o' + length b \<le> length m" "length x = length m" for x :: "byte list" and o' b
    using that by (simp add: mem_write_def)
  obtain m1 where m1: "mem_write m (off + 8) (le64 func) = Some m1" using ex assms(1) by force
  note l1 = mem_write_length [OF m1]
  obtain m2 where m2: "mem_write m1 (off + 16) (le32 seq) = Some m2" using ex [of "off + 16" "le32 seq" m1] assms(1) l1 by auto
  note l2 = mem_write_length [OF m2]
  obtain m3 where m3: "mem_write m2 (off + 24) (le64 (of_nat (length bytes))) = Some m3"
    using ex [of "off + 24" "le64 (of_nat (length bytes))" m2] assms(1) l1 l2 by auto
  note l3 = mem_write_length [OF m3]
  obtain m4 where m4: "mem_write m3 (off + 40) (le64 user) = Some m4" using ex [of "off + 40" "le64 user" m3] assms(1) l1 l2 l3 by auto
  note l4 = mem_write_length [OF m4]
  obtain m5 where m5: "mem_write m4 (off + 32) (le64 data) = Some m5" using ex [of "off + 32" "le64 data" m4] assms(1) l1 l2 l3 l4 by auto
  note l5 = mem_write_length [OF m5]
  obtain m6 where m6: "mem_write m5 off (le64 (of_nat (48 + length bytes))) = Some m6"
    using ex [of off "le64 (of_nat (48 + length bytes))" m5] assms(1) l1 l2 l3 l4 l5 by auto
  note l6 = mem_write_length [OF m6]
  obtain m7 where m7: "mem_write m6 (unat (data - addr)) bytes = Some m7" using ex [of "off + 48" bytes m6] assms(1) l1 l2 l3 l4 l5 l6 d by auto
  note w = m1 m2 m3 m4 m5 m6 m7 [unfolded d]
  note same = mem_read_write_same [OF w(1)] mem_read_write_same [OF w(2)] mem_read_write_same [OF w(3)] mem_read_write_same [OF w(4)]
    mem_read_write_same [OF w(5)] mem_read_write_same [OF w(6)] mem_read_write_same [OF w(7)]
  note keep = mem_read_write_disjoint [OF w(1)] mem_read_write_disjoint [OF w(2)] mem_read_write_disjoint [OF w(3)] mem_read_write_disjoint [OF w(4)]
    mem_read_write_disjoint [OF w(5)] mem_read_write_disjoint [OF w(6)] mem_read_write_disjoint [OF w(7)]
  show thesis
  proof (rule that)
    show "write_item off func seq (of_nat (length bytes)) user data (of_nat (48 + length bytes)) addr bytes m = Some m7"
      using m1 m2 m3 m4 m5 m6 m7 by (simp add: write_item_def)
    show "length m7 = length m" using mem_write_length [OF m7] l1 l2 l3 l4 l5 l6 by simp
    show "item_at addr m7 off \<lparr>ic_func = func, ic_async = True, ic_seq = seq, ic_data = bytes, ic_user_data = user\<rparr>"
      using same assms(3) by (simp add: item_at_def item_size_of_def keep del: of_nat_add)
    show "\<forall>o' n. o' + n \<le> off \<longrightarrow> mem_read m7 o' n = mem_read m o' n" by (simp add: keep)
  qed
qed


text \<open>The queue after \<open>w\<close> bytes were written and \<open>r\<close> bytes read, before its end is reached.\<close>

definition queue_inv :: "u64 \<Rightarrow> nat \<Rightarrow> nat \<Rightarrow> invoke_call list \<Rightarrow> invoke_loop \<Rightarrow> bool" where
  "queue_inv addr w r pend s \<longleftrightarrow>
     il_buffer s = \<lparr>readindex = of_nat r, writeindex = of_nat w, rb_size = 32768, rb_mask = 32767\<rparr> \<and>
     w = r + items_size pend \<and> w \<le> 32768 \<and> length (il_data s) = 32768 \<and> il_addr s = addr \<and> laid addr (il_data s) r pend"

lemma u32_small: "n < 4294967296 \<Longrightarrow> unat (of_nat n :: u32) = n"
  by (simp add: unsigned_of_nat take_bit_nat_eq_self)

lemma u64_small: "n < 18446744073709551616 \<Longrightarrow> unat (of_nat n :: u64) = n"
  by (simp add: unsigned_of_nat take_bit_nat_eq_self)

lemma masked_small: "n < 32768 \<Longrightarrow> (of_nat n :: u32) AND 32767 = of_nat n"
proof -
  assume n: "n < 32768"
  have m: "(32767 :: u32) = mask 15" by (simp add: mask_eq_exp_minus_1)
  have "take_bit 15 (of_nat n :: u32) = of_nat n" using n by (simp add: take_bit_of_nat take_bit_nat_eq_self)
  then show ?thesis unfolding m by (simp add: take_bit_eq_mask)
qed

lemma small_sign:
  assumes "n < 2147483648"
  shows "\<not> (of_nat n :: u32) <s 0" and "0 < n \<Longrightarrow> 0 <s (of_nat n :: u32)"
proof -
  have "sint (of_nat n :: u32) = int n"
    using assms by (simp add: sint_uint unsigned_of_nat take_bit_nat_eq_self signed_take_bit_int_eq_self)
  then show "\<not> (of_nat n :: u32) <s 0" and "0 < n \<Longrightarrow> 0 <s (of_nat n :: u32)" by (simp_all add: word_sless_alt)
qed

lemma place_item_first:
  assumes f: "f \<le> w" "w + 48 + n \<le> 32768" "n \<le> 32672"
  shows "place_item 32768 (of_nat w) (32768 - of_nat f) (of_nat n) addr = (addr + of_nat (w + 48), of_nat (48 + n))"
proof -
  let ?l = "of_nat w + (32768 - of_nat f) :: u32"
  obtain e where e: "w = f + e" using f(1) le_Suc_ex by blast
  have l: "?l = of_nat (32768 + e)" by (simp add: e)
  have ul: "unat (of_nat (32768 + e) :: u32) = 32768 + e" using f e by (intro u32_small) simp
  have l0: "32672 + 96 \<le> unat (if ?l > 32768 then 32768 - ?l else ?l)"
  proof (cases "e = 0")
    case False
    have "?l > 32768" unfolding l word_less_nat_alt ul using False by simp
    moreover have "32768 - ?l = - of_nat e" by (simp add: l)
    moreover have "(- of_nat e :: u32) = of_nat (4294967296 - e)" using f e by (simp add: of_nat_diff)
    then have "unat (- of_nat e :: u32) = 4294967296 - e" using False by (simp only: u32_small)
    ultimately show ?thesis using f e by simp
  qed (simp add: l)
  have sz: "unat (sizeof_InvokeItem + of_nat n :: u64) = 48 + n" "unat (sizeof_InvokeItem + (sizeof_InvokeItem + of_nat n) :: u64) = 96 + n"
    using f u64_small [of "48 + n"] u64_small [of "96 + n"] by (simp_all add: sizeof_InvokeItem_def add.assoc)
  have c: "ucast (if ?l > 32768 then 32768 - ?l else ?l) > sizeof_InvokeItem + (of_nat n :: u64)"
      "\<not> (ucast (if ?l > 32768 then 32768 - ?l else ?l) :: u64) < sizeof_InvokeItem + (sizeof_InvokeItem + of_nat n)"
    using l0 f by (simp_all only: word_less_nat_alt sz unat_ucast_u64)
  have "(ucast (of_nat w :: u32) :: u64) = of_nat w"
    using f by (intro word_unat_eq_iff [THEN iffD2]) (simp add: unat_ucast_u64 u32_small u64_small)
  then show ?thesis unfolding place_item_def Let_def using c by (simp add: sizeof_InvokeItem_def)
qed

lemma queue_invoke:
  assumes i: "queue_inv addr w r pend s" and n: "w + 48 + length bytes \<le> 32768" "length bytes \<le> 32672"
  shows "\<exists>s'. loop_invoke result False func seq bytes user s =
      Some (if seq \<noteq> SPA_ID_INVALID then SPA_RESULT_RETURN_ASYNC seq else SPA_RESULT_OK, s') \<and> il_calls s' = il_calls s \<and> il_event s' \<and>
    queue_inv addr (w + 48 + length bytes) r (pend @ [\<lparr>ic_func = func, ic_async = True, ic_seq = seq, ic_data = bytes, ic_user_data = user\<rparr>]) s'"
proof -
  let ?c = "\<lparr>ic_func = func, ic_async = True, ic_seq = seq, ic_data = bytes, ic_user_data = user\<rparr>"
  let ?f = "items_size pend"
  note b = i [unfolded queue_inv_def]
  have filled: "(of_nat w - of_nat r :: u32) = of_nat ?f" using b by simp
  have f: "?f \<le> w" "?f + 48 \<le> 32768" using b n by simp_all
  have avail: "unat (32768 - of_nat ?f :: u32) = 32768 - ?f"
    using f by (subst unat_sub) (auto simp: word_le_nat_alt u32_small)
  have ok: "\<not> (of_nat ?f :: u32) <s 0" "\<not> (of_nat ?f :: u32) > 32768" "\<not> (scast (32768 - of_nat ?f :: u32) :: u64) < sizeof_InvokeItem"
    using f by (simp_all add: small_sign(1) word_less_nat_alt u32_small unat_scast_u64 avail sizeof_InvokeItem_def)
  have lenm: "w + 48 + length bytes \<le> length (il_data s)" "length (il_data s) \<le> 32768" using b n by simp_all
  obtain m' where m': "write_item w func seq (of_nat (length bytes)) user (addr + of_nat (w + 48)) (of_nat (48 + length bytes)) addr bytes (il_data s) = Some m'"
    and len: "length m' = length (il_data s)" and at: "item_at addr m' w ?c" and keep: "\<forall>o' k. o' + k \<le> w \<longrightarrow> mem_read m' o' k = mem_read (il_data s) o' k"
    by (rule write_item_at [OF lenm refl, where addr = addr and func = func and seq = seq and user = user])
  have idx: "(of_nat w :: u32) + ucast (of_nat (48 + length bytes) :: u64) = of_nat (w + 48 + length bytes)"
  proof -
    have "(ucast (of_nat (48 + length bytes) :: u64) :: u32) = of_nat (48 + length bytes)"
      using n by (intro word_unat_eq_iff [THEN iffD2]) (simp add: unsigned_ucast_eq u64_small u32_small take_bit_nat_eq_self del: of_nat_add)
    then show ?thesis by (simp only: of_nat_add [symmetric] add.assoc)
  qed
  have w: "unat (of_nat w :: u32) = w" "w < 32768" using n by (simp_all add: u32_small)
  have "laid addr m' r (pend @ [?c])"
    using laid_keep [OF keep [rule_format], where off = r and cs = pend] b at by (simp add: laid_append)
  define s' where "s' = s\<lparr>il_data := m', il_buffer := \<lparr>readindex = of_nat r, writeindex = of_nat (w + 48 + length bytes), rb_size = 32768,
    rb_mask = 32767\<rparr>, il_event := True\<rparr>"
  have buf: "il_buffer s = \<lparr>readindex = of_nat r, writeindex = of_nat w, rb_size = 32768, rb_mask = 32767\<rparr>" and addr: "il_addr s = addr"
    using b by simp_all
  have "loop_invoke result False func seq bytes user s =
      Some (if seq \<noteq> SPA_ID_INVALID then SPA_RESULT_RETURN_ASYNC seq else SPA_RESULT_OK, s')"
    by (simp add: loop_invoke_def spa_ringbuffer_get_write_index_def buf addr filled ok masked_small [OF w(2)] place_item_first [OF f(1) n] w(1) m'
        Let_def idx spa_ringbuffer_write_update_def s'_def del: of_nat_add)
  moreover have "queue_inv addr (w + 48 + length bytes) r (pend @ [?c]) s'"
    using b n len \<open>laid addr m' r (pend @ [?c])\<close> by (simp add: queue_inv_def s'_def item_size_of_def)
  ultimately show ?thesis by (auto simp: s'_def)
qed

lemma read_item_at:
  assumes "item_at addr m off c" and "length m \<le> 32768"
  shows "read_item addr off m = Some (c, of_nat (item_size_of c))"
proof -
  have l: "length (ic_data c) \<le> 32768" "off + 48 \<le> 32768"
    using assms by (auto simp: item_at_def mem_read_def split: if_splits)
  have "unat (addr + of_nat (off + 48) - addr) = off + 48" using l by (simp add: u64_small del: of_nat_add)
  moreover have "unat (of_nat (length (ic_data c)) :: u64) = length (ic_data c)" using l by (simp add: u64_small)
  ultimately show ?thesis using assms by (cases c) (simp add: read_item_def item_at_def del: of_nat_add)
qed

text \<open>The event drains the queue.\<close>

lemma queue_drain:
  "queue_inv addr w r pend s \<Longrightarrow> \<exists>s'. event_func s = Some s' \<and> il_calls s' = il_calls s @ pend \<and> queue_inv addr w w [] s'"
proof (induction pend arbitrary: r s)
  case Nil
  then show ?case
    by (intro exI [of _ s], subst event_func.simps) (auto simp: queue_inv_def spa_ringbuffer_get_read_index_def)
next
  case (Cons c cs)
  note b = Cons.prems [unfolded queue_inv_def]
  have sz: "48 \<le> item_size_of c" by (simp add: item_size_of_def)
  have n: "r + item_size_of c \<le> 32768" "r < 32768" using b sz by auto
  have avail: "(of_nat w - of_nat r :: u32) = of_nat (items_size (c # cs))" using b by simp
  have pos: "0 <s (of_nat (items_size (c # cs)) :: u32)" using b sz by (intro small_sign(2)) simp_all
  have it: "read_item addr r (il_data s) = Some (c, of_nat (item_size_of c))" using b by (intro read_item_at) simp_all
  have idx: "(of_nat r :: u32) + ucast (of_nat (item_size_of c) :: u64) = of_nat (r + item_size_of c)"
    using n by (intro word_unat_eq_iff [THEN iffD2]) (simp add: unat_word_ariths unsigned_ucast_eq u64_small u32_small take_bit_nat_eq_self)
  let ?s = "(call_now c s)\<lparr>il_buffer := spa_ringbuffer_read_update (il_buffer s) (of_nat (r + item_size_of c))\<rparr>"
  have "queue_inv addr w (r + item_size_of c) cs ?s"
    using b by (simp add: queue_inv_def call_now_def spa_ringbuffer_read_update_def)
  from Cons.IH [OF this] obtain s' where s': "event_func ?s = Some s'" "il_calls s' = il_calls ?s @ cs" "queue_inv addr w w [] s'" by blast
  have "event_func s = event_func ?s"
    using b n pos it
    by (subst event_func.simps) (simp add: spa_ringbuffer_get_read_index_def avail masked_small u32_small idx del: items_size_simps)
  then show ?case using s' by (auto simp: call_now_def)
qed


section \<open>What goes through and what does not\<close>

definition queue_calls :: "queue_op list \<Rightarrow> invoke_call list" where
  "queue_calls acts = concat (map (\<lambda>act. case act of
     Q_invoke func seq bytes user \<Rightarrow> [\<lparr>ic_func = func, ic_async = True, ic_seq = seq, ic_data = bytes, ic_user_data = user\<rparr>]
   | Q_event \<Rightarrow> []) acts)"

lemma queue_calls_simps [simp]: "queue_calls [] = []"
  "queue_calls (Q_invoke func seq bytes user # acts) =
     \<lparr>ic_func = func, ic_async = True, ic_seq = seq, ic_data = bytes, ic_user_data = user\<rparr> # queue_calls acts"
  "queue_calls (Q_event # acts) = queue_calls acts"
  by (simp_all add: queue_calls_def)

lemma queue_inv_new: "queue_inv addr 0 0 [] (new_queue addr)"
  by (simp add: queue_inv_def new_queue_def spa_ringbuffer_init_def DATAS_SIZE_def)

lemma queue_run:
  assumes "\<forall>c \<in> set (queue_calls acts). length (ic_data c) \<le> 32672"
  shows "queue_inv addr w r pend s \<Longrightarrow> (pend \<noteq> [] \<longrightarrow> il_event s) \<Longrightarrow> w + items_size (queue_calls acts) \<le> 32768 \<Longrightarrow>
    \<exists>s' r' pend'. opt_fold queue_step acts s = Some s' \<and> queue_inv addr (w + items_size (queue_calls acts)) r' pend' s' \<and>
      (pend' \<noteq> [] \<longrightarrow> il_event s') \<and> il_calls s' @ pend' = il_calls s @ pend @ queue_calls acts"
  using assms
proof (induction acts arbitrary: w r pend s)
  case (Cons act acts)
  show ?case
  proof (cases act)
    case (Q_invoke func seq bytes user)
    let ?c = "\<lparr>ic_func = func, ic_async = True, ic_seq = seq, ic_data = bytes, ic_user_data = user\<rparr>"
    have n: "w + 48 + length bytes \<le> 32768" "length bytes \<le> 32672" using Cons.prems Q_invoke by (simp_all add: item_size_of_def)
    obtain res s1 where "loop_invoke (\<lambda>_. SPA_RESULT_OK) False func seq bytes user s = Some (res, s1)" "il_calls s1 = il_calls s"
      and "il_event s1" "queue_inv addr (w + 48 + length bytes) r (pend @ [?c]) s1"
      using queue_invoke [OF Cons.prems(1) n, where result = "\<lambda>_. SPA_RESULT_OK" and func = func and seq = seq and user = user] by blast
    then show ?thesis
      using Cons.IH [of "w + 48 + length bytes" r "pend @ [?c]" s1] Cons.prems Q_invoke by (simp add: queue_step_def item_size_of_def add.assoc)
  next
    case Q_event
    have "queue_inv addr w r pend (s\<lparr>il_event := False\<rparr>)" using Cons.prems(1) by (simp add: queue_inv_def)
    from queue_drain [OF this] obtain s1 where "event_func (s\<lparr>il_event := False\<rparr>) = Some s1" "il_calls s1 = il_calls s @ pend"
      "queue_inv addr w w [] s1" by auto
    then show ?thesis using Cons.IH [of w w "[]" s1] Cons.prems Q_event by (simp add: queue_step_def)
  qed
qed auto

text \<open>C17. Calls from other threads reach the loop: as long as the items written since the loop was made fit into its
  buffer and none of them carries more than 32672 bytes of data, no call and no run of the event fails, the functions that were
  run and those that wait are, in order and with their sequence numbers and data, the ones that were asked for, and the event is
  signalled while one waits. One more run of the event leaves none waiting. The bound on the data leaves out the items that all
  but fill the buffer: with more data the item is given a larger size than it has, and an item of exactly 32768 bytes has its
  data written over its own header, because its room is compared as \<open>l0 > sizeof (InvokeItem) + size\<close>.\<close>

theorem loop_invoke_fifo:
  assumes "items_size (queue_calls acts) \<le> 32768" and "\<forall>c \<in> set (queue_calls acts). length (ic_data c) \<le> 32672"
  shows "\<exists>s pend s'. opt_fold queue_step acts (new_queue addr) = Some s \<and> il_calls s @ pend = queue_calls acts \<and>
    (pend \<noteq> [] \<longrightarrow> il_event s) \<and> queue_step Q_event s = Some s' \<and> il_calls s' = queue_calls acts"
proof -
  have new: "il_calls (new_queue addr) = []" by (simp add: new_queue_def)
  obtain s r pend where s: "opt_fold queue_step acts (new_queue addr) = Some s" "il_calls s @ pend = queue_calls acts" "pend \<noteq> [] \<longrightarrow> il_event s"
    and inv: "queue_inv addr (items_size (queue_calls acts)) r pend s"
    using queue_run [OF assms(2) queue_inv_new [of addr]] assms(1) by (auto simp: new)
  have "queue_inv addr (items_size (queue_calls acts)) r pend (s\<lparr>il_event := False\<rparr>)" using inv by (simp add: queue_inv_def)
  from queue_drain [OF this] show ?thesis using s by (auto simp: queue_step_def)
qed

theorem loop_invoke_fifo_witness:
  "\<exists>s pend s'. opt_fold queue_step [Q_invoke 1 7 [1, 2] 3, Q_event, Q_invoke 4 8 [] 5] (new_queue 4096) = Some s \<and>
    il_calls s @ pend = queue_calls [Q_invoke 1 7 [1, 2] 3, Q_event, Q_invoke 4 8 [] 5] \<and> (pend \<noteq> [] \<longrightarrow> il_event s) \<and>
    queue_step Q_event s = Some s' \<and> map ic_func (il_calls s') = [1, 4] \<and> map ic_data (il_calls s') = [[1, 2], []]"
  using loop_invoke_fifo [of "[Q_invoke 1 7 [1, 2] 3, Q_event, Q_invoke 4 8 [] 5]" 4096] by (fastforce simp: item_size_of_def)

lemma write_item_room:
  assumes "write_item off func seq sz user data item_size addr bytes m = Some m'"
  shows "off + 48 \<le> length m" and "unat (data - addr) + length bytes \<le> length m"
proof -
  have len: "mem_write x o' b = Some y \<Longrightarrow> length y = length x" "mem_write x o' b = Some y \<Longrightarrow> o' + length b \<le> length x" for x y o' b
    by (auto simp: mem_write_def split: if_splits)
  obtain m1 m2 m3 m4 m5 m6 where w: "mem_write m (off + 8) (le64 func) = Some m1" "mem_write m1 (off + 16) (le32 seq) = Some m2"
      "mem_write m2 (off + 24) (le64 sz) = Some m3" "mem_write m3 (off + 40) (le64 user) = Some m4" "mem_write m4 (off + 32) (le64 data) = Some m5"
      "mem_write m5 off (le64 item_size) = Some m6" "mem_write m6 (unat (data - addr)) bytes = Some m'"
    using assms by (auto simp: write_item_def Option.bind_eq_Some_conv)
  have l: "length m6 = length m" "length m3 = length m" using w(1-6) [THEN len(1)] by simp_all
  show "off + 48 \<le> length m" using len(2) [OF w(4)] l by simp
  show "unat (data - addr) + length bytes \<le> length m" using len(2) [OF w(7)] l by simp
qed

text \<open>Once something was written, the room before the end of the buffer is taken from the difference of an end and the size of the
  buffer, a number below zero: as an unsigned number it is larger than any item, so the data go right behind the header.\<close>

lemma place_item_behind:
  assumes w: "0 < w" "w < 32768" and n: "n \<le> 32768"
  shows "fst (place_item 32768 (of_nat w) 32768 (of_nat n) addr) = addr + of_nat (w + 48)"
proof -
  let ?l = "of_nat w + 32768 :: u32"
  have l: "?l = of_nat (32768 + w)" by simp
  have ul: "unat ?l = 32768 + w" unfolding l using w by (intro u32_small) simp
  have big: "?l > 32768" unfolding word_less_nat_alt ul using w by simp
  have "32768 - ?l = of_nat (4294967296 - w)" using w by (simp add: of_nat_diff)
  then have l0: "unat (32768 - ?l) = 4294967296 - w" using w by (simp only: u32_small)
  have "unat (sizeof_InvokeItem + of_nat n :: u64) = 48 + n"
    using n u64_small [of "48 + n"] by (simp add: sizeof_InvokeItem_def add.assoc)
  then have "ucast (32768 - ?l) > sizeof_InvokeItem + (of_nat n :: u64)"
    using w n by (simp only: word_less_nat_alt unat_ucast_u64 l0)
  moreover have "(ucast (of_nat w :: u32) :: u64) = of_nat w"
    using w by (intro word_unat_eq_iff [THEN iffD2]) (simp add: unat_ucast_u64 u32_small u64_small)
  ultimately show ?thesis using big by (simp add: place_item_def Let_def sizeof_InvokeItem_def)
qed

text \<open>C38. The end of the buffer: once something was written, a call whose item does not fit before the end is not wrapped around
  but written behind it, although the queue is empty. This is so when the header does not fit and when only the data do not, for
  data of any length. With items of 56 bytes, such as the ones that put a new link into the lists of its ports, it is the call
  after 585 of them, each run at once.\<close>

theorem loop_invoke_overflow:
  assumes "0 < items_size (queue_calls acts)" and "items_size (queue_calls acts) < 32768"
    and "\<forall>c \<in> set (queue_calls acts). length (ic_data c) \<le> 32672" and "32768 < items_size (queue_calls acts) + 48 + length bytes"
  shows "\<exists>s. opt_fold queue_step (acts @ [Q_event]) (new_queue addr) = Some s \<and> il_calls s = queue_calls acts \<and>
    loop_invoke result False func seq bytes user s = None"
proof -
  let ?w = "items_size (queue_calls acts)"
  have new: "il_calls (new_queue addr) = []" by (simp add: new_queue_def)
  obtain s r pend where s: "opt_fold queue_step acts (new_queue addr) = Some s" "il_calls s @ pend = queue_calls acts"
    and inv: "queue_inv addr ?w r pend s"
    using queue_run [OF assms(3) queue_inv_new [of addr]] assms(2) by (auto simp: new)
  have "queue_inv addr ?w r pend (s\<lparr>il_event := False\<rparr>)" using inv by (simp add: queue_inv_def)
  from queue_drain [OF this] obtain s' where s': "event_func (s\<lparr>il_event := False\<rparr>) = Some s'" "il_calls s' = il_calls s @ pend"
    "queue_inv addr ?w ?w [] s'" by auto
  have buf: "il_buffer s' = \<lparr>readindex = of_nat ?w, writeindex = of_nat ?w, rb_size = 32768, rb_mask = 32767\<rparr>" "length (il_data s') = 32768"
    and ad: "il_addr s' = addr"
    using s'(3) by (simp_all add: queue_inv_def)
  obtain data isz where place: "place_item 32768 (of_nat ?w) 32768 (of_nat (length bytes)) addr = (data, isz)" by force
  have "length bytes \<le> 32768 \<Longrightarrow> data - addr = of_nat (?w + 48)"
    using place_item_behind [OF assms(1,2), of "length bytes" addr] place by simp
  then have pos: "length bytes \<le> 32768 \<Longrightarrow> unat (data - addr) = ?w + 48" using assms(2) u64_small [of "?w + 48"] by simp
  have "write_item ?w func seq (of_nat (length bytes)) user data isz addr bytes (il_data s') = None"
    using write_item_room(2) [of ?w func seq "of_nat (length bytes)" user data isz addr bytes "il_data s'"] pos assms(4) buf(2)
    by (cases "length bytes \<le> 32768"; cases "write_item ?w func seq (of_nat (length bytes)) user data isz addr bytes (il_data s')") auto
  then have "loop_invoke result False func seq bytes user s' = None"
    using assms(2) place ad
    by (simp add: loop_invoke_def spa_ringbuffer_get_write_index_def buf(1) masked_small u32_small Let_def word_sless_alt sizeof_InvokeItem_def)
  then show ?thesis using s s' by (auto simp: queue_step_def opt_fold_append)
qed

theorem loop_invoke_overflow_witness:
  "\<exists>s. opt_fold queue_step (concat (replicate 585 [Q_invoke 1 2 [1, 2, 3, 4, 5, 6, 7, 8] 3, Q_event]) @ [Q_event]) (new_queue 4096) = Some s \<and>
     loop_invoke (\<lambda>_. 0) False 1 2 [1, 2, 3, 4, 5, 6, 7, 8] 3 s = None"
proof -
  let ?c = "\<lparr>ic_func = 1, ic_async = True, ic_seq = 2, ic_data = [1, 2, 3, 4, 5, 6, 7, 8], ic_user_data = 3\<rparr>"
  have calls: "queue_calls (concat (replicate n [Q_invoke 1 2 [1, 2, 3, 4, 5, 6, 7, 8] 3, Q_event])) = replicate n ?c" for n
    by (induction n) simp_all
  have total: "items_size (replicate n ?c) = n * 56" for n by (induction n) (simp_all add: item_size_of_def)
  have len: "\<forall>c \<in> set (replicate n ?c). length (ic_data c) \<le> 32672" for n by (induction n) simp_all
  have room: "0 < items_size (queue_calls (concat (replicate 585 [Q_invoke 1 2 [1, 2, 3, 4, 5, 6, 7, 8] 3, Q_event])))"
    "items_size (queue_calls (concat (replicate 585 [Q_invoke 1 2 [1, 2, 3, 4, 5, 6, 7, 8] 3, Q_event]))) < 32768"
    "32768 < items_size (queue_calls (concat (replicate 585 [Q_invoke 1 2 [1, 2, 3, 4, 5, 6, 7, 8] 3, Q_event]))) + 48 + length [1, 2, 3, 4, 5, 6, 7, 8 :: byte]"
    unfolding calls total by simp_all
  from loop_invoke_overflow [OF room(1,2) len [folded calls] room(3), of 4096 "\<lambda>_. 0" 1 2 3] show ?thesis by blast
qed

end
