(* ===== verification/Pinos_Loop_Sources.thy ===== *)
theory Pinos_Loop_Sources
  imports Pinos_Prelude "HOL-Library.Monad_Syntax"
begin

text \<open>
  The sources of a loop (\<^verbatim>\<open>pinos/client/loop.c\<close>): files, idle sources, events, timers and signals, their
  registration with \<^verbatim>\<open>epoll\<close>, and one iteration, which first marks the sources that are ready and then calls
  them. What the kernel answers (\<open>epoll_ctl\<close>, new file descriptors, the ready sources) is an argument; the counter
  of an event file is part of the source. Reading or writing a source that was freed is \<open>None\<close>.
\<close>

section \<open>State\<close>

datatype source_kind = Source_io | Source_idle | Source_event | Source_timer | Source_signal

record loop_source =
  so_kind :: source_kind
  so_func :: nat
  so_fd :: bool
  so_mask :: u32
  so_rmask :: u32
  so_close :: bool
  so_enabled :: bool
  so_count :: nat
  so_loop :: bool

text \<open>\<open>sl_epoll\<close> are the sources that \<^verbatim>\<open>epoll\<close> watches, with the events it waits for; \<open>sl_calls\<close> records the
  functions that were called.\<close>

record source_loop =
  sl_sources :: "nat \<Rightarrow> loop_source option"
  sl_brk :: nat
  sl_list :: "nat list"
  sl_epoll :: "(nat \<times> u32) list"
  sl_calls :: "(nat \<times> u32) list"

abbreviation (input) SPA_RESULT_ERRNO :: spa_result where "SPA_RESULT_ERRNO \<equiv> - 2"

text \<open>\<^verbatim>\<open>SPA_IO_IN\<close>, \<^verbatim>\<open>OUT\<close>, \<^verbatim>\<open>HUP\<close> and \<^verbatim>\<open>ERR\<close> with the values 1, 2, 4 and 8, and the values of the
  system for the same events: 1, 4, 16 and 8.\<close>

definition IO_IN :: u32 where "IO_IN = 1"

definition io_pairs :: "(u32 \<times> u32) list" where
  "io_pairs = [(1, 1), (2, 4), (8, 8), (4, 16)]"

definition spa_io_to_epoll :: "u32 \<Rightarrow> u32" where
  "spa_io_to_epoll m = foldr (\<lambda>(io, ev) acc. if m AND io \<noteq> 0 then acc OR ev else acc) io_pairs 0"

definition spa_epoll_to_io :: "u32 \<Rightarrow> u32" where
  "spa_epoll_to_io evs = foldr (\<lambda>(io, ev) acc. if evs AND ev \<noteq> 0 then acc OR io else acc) io_pairs 0"

definition mod_source :: "nat \<Rightarrow> (loop_source \<Rightarrow> loop_source) \<Rightarrow> source_loop \<Rightarrow> source_loop option" where
  "mod_source i f s = (case sl_sources s i of None \<Rightarrow> None | Some x \<Rightarrow> Some (s\<lparr>sl_sources := (sl_sources s)(i \<mapsto> f x)\<rparr>))"

section \<open>Operations\<close>

definition loop_add_source :: "bool \<Rightarrow> nat \<Rightarrow> source_loop \<Rightarrow> (spa_result \<times> source_loop) option" where
  "loop_add_source ok i s = do {
     s1 \<leftarrow> mod_source i (\<lambda>x. x\<lparr>so_loop := True\<rparr>) s;
     x \<leftarrow> sl_sources s1 i;
     if so_fd x
     then if ok then Some (SPA_RESULT_OK, s1\<lparr>sl_epoll := sl_epoll s1 @ [(i, spa_io_to_epoll (so_mask x))]\<rparr>)
       else Some (SPA_RESULT_ERRNO, s1)
     else Some (SPA_RESULT_OK, s1) }"

definition loop_update_source :: "bool \<Rightarrow> nat \<Rightarrow> source_loop \<Rightarrow> (spa_result \<times> source_loop) option" where
  "loop_update_source ok i s = do {
     x \<leftarrow> sl_sources s i;
     if so_fd x
     then if ok
       then Some (SPA_RESULT_OK, s\<lparr>sl_epoll := map (\<lambda>(j, m). (j, if j = i then spa_io_to_epoll (so_mask x) else m)) (sl_epoll s)\<rparr>)
       else Some (SPA_RESULT_ERRNO, s)
     else Some (SPA_RESULT_OK, s) }"

definition loop_remove_source :: "nat \<Rightarrow> source_loop \<Rightarrow> source_loop option" where
  "loop_remove_source i s = do {
     x \<leftarrow> sl_sources s i;
     mod_source i (\<lambda>x. x\<lparr>so_loop := False\<rparr>) (if so_fd x then s\<lparr>sl_epoll := filter (\<lambda>(j, m). j \<noteq> i) (sl_epoll s)\<rparr> else s) }"

text \<open>A new source at a new address, at the front of the list.\<close>

definition new_source :: "source_kind \<Rightarrow> nat \<Rightarrow> bool \<Rightarrow> u32 \<Rightarrow> bool \<Rightarrow> bool \<Rightarrow> source_loop \<Rightarrow> (nat \<times> source_loop) option" where
  "new_source kind func fd io_mask close ok s = do {
     let i = sl_brk s;
     let s1 = s\<lparr>sl_brk := i + 1, sl_sources := (sl_sources s)(i \<mapsto>
       \<lparr>so_kind = kind, so_func = func, so_fd = fd, so_mask = io_mask, so_rmask = 0, so_close = close, so_enabled = False, so_count = 0,
        so_loop = True\<rparr>)\<rparr>;
     (_, s2) \<leftarrow> loop_add_source ok i s1;
     Some (i, s2\<lparr>sl_list := i # sl_list s2\<rparr>) }"

definition loop_add_io :: "nat \<Rightarrow> bool \<Rightarrow> u32 \<Rightarrow> bool \<Rightarrow> bool \<Rightarrow> source_loop \<Rightarrow> (nat \<times> source_loop) option" where
  "loop_add_io func fd io_mask close = new_source Source_io func fd io_mask close"

definition loop_update_io :: "bool \<Rightarrow> nat \<Rightarrow> u32 \<Rightarrow> source_loop \<Rightarrow> (spa_result \<times> source_loop) option" where
  "loop_update_io ok i io_mask s = mod_source i (\<lambda>x. x\<lparr>so_mask := io_mask\<rparr>) s \<bind> loop_update_source ok i"

text \<open>Writing to an event file adds to its counter, reading sets it to zero; without a file both only warn.\<close>

definition loop_enable_idle :: "nat \<Rightarrow> bool \<Rightarrow> source_loop \<Rightarrow> source_loop option" where
  "loop_enable_idle i enabled = mod_source i (\<lambda>x.
     (if \<not> so_fd x then x
      else if enabled \<and> \<not> so_enabled x then x\<lparr>so_count := so_count x + 1\<rparr>
      else if \<not> enabled \<and> so_enabled x then x\<lparr>so_count := 0\<rparr>
      else x)\<lparr>so_enabled := enabled\<rparr>)"

definition loop_add_idle :: "bool \<Rightarrow> nat \<Rightarrow> bool \<Rightarrow> bool \<Rightarrow> source_loop \<Rightarrow> (nat \<times> source_loop) option" where
  "loop_add_idle enabled func fd ok s = do {
     (i, s1) \<leftarrow> new_source Source_idle func fd IO_IN True ok s;
     s2 \<leftarrow> (if enabled then loop_enable_idle i True s1 else Some s1);
     Some (i, s2) }"

definition loop_add_event :: "nat \<Rightarrow> bool \<Rightarrow> bool \<Rightarrow> source_loop \<Rightarrow> (nat \<times> source_loop) option" where
  "loop_add_event func fd ok = new_source Source_event func fd IO_IN True ok"

definition loop_signal_event :: "nat \<Rightarrow> source_loop \<Rightarrow> source_loop option" where
  "loop_signal_event i = mod_source i (\<lambda>x. if so_fd x then x\<lparr>so_count := so_count x + 1\<rparr> else x)"

definition loop_add_timer :: "nat \<Rightarrow> bool \<Rightarrow> bool \<Rightarrow> source_loop \<Rightarrow> (nat \<times> source_loop) option" where
  "loop_add_timer func fd ok = new_source Source_timer func fd IO_IN True ok"

definition loop_add_signal :: "nat \<Rightarrow> bool \<Rightarrow> bool \<Rightarrow> source_loop \<Rightarrow> (nat \<times> source_loop) option" where
  "loop_add_signal func fd ok = new_source Source_signal func fd IO_IN True ok"

definition loop_destroy_source :: "nat \<Rightarrow> source_loop \<Rightarrow> source_loop option" where
  "loop_destroy_source i s = do {
     x \<leftarrow> sl_sources s i;
     if i \<notin> set (sl_list s) then None
     else do {
       s1 \<leftarrow> loop_remove_source i (s\<lparr>sl_list := remove1 i (sl_list s)\<rparr>);
       Some (s1\<lparr>sl_sources := (sl_sources s1)(i := None)\<rparr>) } }"

text \<open>\<^verbatim>\<open>source_io_func\<close> and its siblings: idle and file sources leave the file alone, the others read it first.\<close>

definition source_func :: "(nat \<Rightarrow> nat \<Rightarrow> u32 \<Rightarrow> source_loop \<Rightarrow> source_loop option) \<Rightarrow> nat \<Rightarrow> source_loop \<Rightarrow> source_loop option" where
  "source_func cb i s = do {
     x \<leftarrow> sl_sources s i;
     s1 \<leftarrow> (if so_kind x = Source_io \<or> so_kind x = Source_idle then Some s else mod_source i (\<lambda>x. x\<lparr>so_count := 0\<rparr>) s);
     cb (so_func x) i (so_rmask x) (s1\<lparr>sl_calls := sl_calls s1 @ [(i, so_rmask x)]\<rparr>) }"

text \<open>One iteration: \<open>ready\<close> is the answer of \<^verbatim>\<open>epoll_wait\<close>.\<close>

fun set_rmasks :: "(nat \<times> u32) list \<Rightarrow> source_loop \<Rightarrow> source_loop option" where
  "set_rmasks [] s = Some s"
| "set_rmasks ((i, events) # evs) s = do { s1 \<leftarrow> mod_source i (\<lambda>x. x\<lparr>so_rmask := spa_epoll_to_io events\<rparr>) s; set_rmasks evs s1 }"

fun call_sources :: "(nat \<Rightarrow> nat \<Rightarrow> u32 \<Rightarrow> source_loop \<Rightarrow> source_loop option) \<Rightarrow> (nat \<times> u32) list \<Rightarrow> source_loop \<Rightarrow> source_loop option" where
  "call_sources cb [] s = Some s"
| "call_sources cb ((i, events) # evs) s = do {
     x \<leftarrow> sl_sources s i;
     s1 \<leftarrow> (if so_rmask x \<noteq> 0 then source_func cb i s else Some s);
     call_sources cb evs s1 }"

definition loop_iterate ::
  "(nat \<Rightarrow> nat \<Rightarrow> u32 \<Rightarrow> source_loop \<Rightarrow> source_loop option) \<Rightarrow> (nat \<times> u32) list option \<Rightarrow> source_loop \<Rightarrow> (spa_result \<times> source_loop) option" where
  "loop_iterate cb ready s =
     (case ready of
        None \<Rightarrow> Some (SPA_RESULT_ERRNO, s)
      | Some evs \<Rightarrow> do { s1 \<leftarrow> set_rmasks evs s; s2 \<leftarrow> call_sources cb evs s1; Some (SPA_RESULT_OK, s2) })"


section \<open>Sources that are destroyed while the loop runs\<close>

text \<open>A callback that keeps all sources but its own lets the iteration go on.\<close>

definition own_source_only :: "(nat \<Rightarrow> nat \<Rightarrow> u32 \<Rightarrow> source_loop \<Rightarrow> source_loop option) \<Rightarrow> bool" where
  "own_source_only cb \<longleftrightarrow> (\<forall>f i m s. \<exists>s'. cb f i m s = Some s' \<and> (\<forall>j. j \<noteq> i \<longrightarrow> sl_sources s j \<noteq> None \<longrightarrow> sl_sources s' j \<noteq> None))"

lemma set_rmasks_alive:
  "\<forall>i \<in> fst ` set evs. sl_sources s i \<noteq> None \<Longrightarrow> \<exists>s'. set_rmasks evs s = Some s' \<and> (\<forall>j. sl_sources s' j = None \<longleftrightarrow> sl_sources s j = None)"
proof (induction evs arbitrary: s)
  case (Cons ev evs)
  obtain i e where ev: "ev = (i, e)" by force
  obtain x where x: "sl_sources s i = Some x" using Cons.prems ev by auto
  let ?s = "s\<lparr>sl_sources := (sl_sources s)(i \<mapsto> x\<lparr>so_rmask := spa_epoll_to_io e\<rparr>)\<rparr>"
  have keep: "sl_sources ?s j = None \<longleftrightarrow> sl_sources s j = None" for j using x by auto
  have "\<exists>s'. set_rmasks evs ?s = Some s' \<and> (\<forall>j. sl_sources s' j = None \<longleftrightarrow> sl_sources ?s j = None)"
    by (rule Cons.IH) (use Cons.prems keep in auto)
  then show ?case using keep by (simp add: ev mod_source_def x)
qed simp

lemma call_sources_alive:
  assumes "own_source_only cb"
  shows "distinct (map fst evs) \<Longrightarrow> \<forall>i \<in> fst ` set evs. sl_sources s i \<noteq> None \<Longrightarrow> \<exists>s'. call_sources cb evs s = Some s'"
proof (induction evs arbitrary: s)
  case (Cons ev evs)
  obtain i e where ev: "ev = (i, e)" by force
  obtain x where x: "sl_sources s i = Some x" using Cons.prems ev by auto
  have func: "\<exists>s'. source_func cb i s = Some s' \<and> (\<forall>j. j \<noteq> i \<longrightarrow> sl_sources s j \<noteq> None \<longrightarrow> sl_sources s' j \<noteq> None)"
  proof -
    obtain s1 where s1: "(if so_kind x = Source_io \<or> so_kind x = Source_idle then Some s else mod_source i (\<lambda>x. x\<lparr>so_count := 0\<rparr>) s) = Some s1"
      and keep: "\<And>j. sl_sources s1 j = None \<longleftrightarrow> sl_sources s j = None"
      using x by (cases "so_kind x = Source_io \<or> so_kind x = Source_idle") (auto simp: mod_source_def)
    let ?s = "s1\<lparr>sl_calls := sl_calls s1 @ [(i, so_rmask x)]\<rparr>"
    obtain s' where "cb (so_func x) i (so_rmask x) ?s = Some s'" "\<forall>j. j \<noteq> i \<longrightarrow> sl_sources ?s j \<noteq> None \<longrightarrow> sl_sources s' j \<noteq> None"
      using assms unfolding own_source_only_def by blast
    then show ?thesis using s1 keep by (simp add: source_func_def x)
  qed
  obtain s' where s': "(if so_rmask x \<noteq> 0 then source_func cb i s else Some s) = Some s'"
    and keep: "\<And>j. j \<noteq> i \<Longrightarrow> sl_sources s j \<noteq> None \<Longrightarrow> sl_sources s' j \<noteq> None"
    using func by (cases "so_rmask x = 0") auto
  have "\<exists>s''. call_sources cb evs s' = Some s''"
  proof (rule Cons.IH)
    show "distinct (map fst evs)" using Cons.prems by simp
    show "\<forall>j \<in> fst ` set evs. sl_sources s' j \<noteq> None"
    proof
      fix j assume "j \<in> fst ` set evs"
      then show "sl_sources s' j \<noteq> None" using keep [of j] Cons.prems ev by (cases "j = i") auto
    qed
  qed
  then show ?case using x s' by (simp add: ev)
qed simp

lemma loop_iterate_alive:
  assumes "own_source_only cb" and "distinct (map fst evs)" and "\<forall>i \<in> fst ` set evs. sl_sources s i \<noteq> None"
  shows "\<exists>s'. loop_iterate cb (Some evs) s = Some (SPA_RESULT_OK, s')"
proof -
  obtain s1 where s1: "set_rmasks evs s = Some s1" "\<forall>j. sl_sources s1 j = None \<longleftrightarrow> sl_sources s j = None"
    using set_rmasks_alive [OF assms(3)] by blast
  have "\<exists>s'. call_sources cb evs s1 = Some s'"
    using call_sources_alive [OF assms(1,2), of s1] assms(3) s1(2) by blast
  then show ?thesis using s1(1) by (auto simp: loop_iterate_def)
qed

text \<open>A callback that destroys another source that is ready in the same iteration makes the loop read freed memory.\<close>

lemma loop_iterate_destroyed:
  assumes "call_sources cb (evs1) s1 = Some s2" and "set_rmasks (evs1 @ (i, e) # evs2) s = Some s1"
    and "sl_sources s2 i = None"
  shows "loop_iterate cb (Some (evs1 @ (i, e) # evs2)) s = None"
proof -
  have "call_sources cb (xs @ ys) t = call_sources cb xs t \<bind> call_sources cb ys" for xs ys t
  proof (induction xs arbitrary: t)
    case (Cons x xs)
    obtain j e where x: "x = (j, e)" by force
    show ?case
    proof (cases "sl_sources t j")
      case (Some y)
      then show ?thesis using Cons by (cases "if so_rmask y \<noteq> 0 then source_func cb j t else Some t") (simp_all add: x)
    qed (simp add: x)
  qed simp
  then show ?thesis using assms by (simp add: loop_iterate_def)
qed

end
