(* ===== verification/Pinos_Client_Node.thy ===== *)
theory Pinos_Client_Node
  imports Pinos_Native Pinos_Transport Spa_Props
begin

text \<open>
  The node that stands in the server for a node of a client, \<^verbatim>\<open>pinos/server/client-node.c\<close>. Calls of the
  graph become messages of the protocol (\<open>px_sent\<close>, the values that \<^verbatim>\<open>protocol-native.c\<close> marshals) or
  events of the transport; methods of the client and events of the transport become callbacks of the graph. The memory of
  the transport is \<open>px_mem\<close>, the io areas of the graph that the ports point to are \<open>px_ios\<close>: both are
  shared with others. Writing behind an array of the node and using a null pointer is \<open>None\<close>. Formats and
  parameters are the PODs that are sent.
\<close>

section \<open>Types\<close>

text \<open>The ids of the types that both ends register, and the layout of the events and commands made of them.\<close>

record transport_types =
  tt_HaveOutput :: u32
  tt_NeedInput :: u32
  tt_ReuseBuffer :: u32
  tt_AsyncComplete :: u32
  tt_RequestClockUpdate :: u32
  tt_Start :: u32
  tt_Pause :: u32
  tt_ClockUpdate :: u32
  tt_Shared :: u32
  tt_MemPtr :: u32
  tt_MemFd :: u32
  tt_DmaBuf :: u32
  tt_Id :: u32

abbreviation (input) SPA_DIRECTION_INPUT :: u32 where "SPA_DIRECTION_INPUT \<equiv> 0"
abbreviation (input) SPA_DIRECTION_OUTPUT :: u32 where "SPA_DIRECTION_OUTPUT \<equiv> 1"

abbreviation (input) NODE_UPDATE_MAX_INPUTS :: u32 where "NODE_UPDATE_MAX_INPUTS \<equiv> 1"
abbreviation (input) NODE_UPDATE_MAX_OUTPUTS :: u32 where "NODE_UPDATE_MAX_OUTPUTS \<equiv> 2"

abbreviation (input) PORT_UPDATE_POSSIBLE_FORMATS :: u32 where "PORT_UPDATE_POSSIBLE_FORMATS \<equiv> 1"
abbreviation (input) PORT_UPDATE_FORMAT :: u32 where "PORT_UPDATE_FORMAT \<equiv> 2"
abbreviation (input) PORT_UPDATE_PROPS :: u32 where "PORT_UPDATE_PROPS \<equiv> 4"
abbreviation (input) PORT_UPDATE_INFO :: u32 where "PORT_UPDATE_INFO \<equiv> 8"

definition SPA_EVENT_INIT_COMPLEX :: "u32 \<Rightarrow> u32 \<Rightarrow> byte list \<Rightarrow> byte list" where
  "SPA_EVENT_INIT_COMPLEX body_size t rest = le32 body_size @ le32 SPA_POD_TYPE_OBJECT @ le32 0 @ le32 t @ rest"

definition SPA_EVENT_INIT :: "u32 \<Rightarrow> byte list" where
  "SPA_EVENT_INIT t = SPA_EVENT_INIT_COMPLEX 8 t []"

definition SPA_POD_INT_INIT :: "u32 \<Rightarrow> byte list" where
  "SPA_POD_INT_INIT v = le32 4 @ le32 SPA_POD_TYPE_INT @ le32 v"

definition REUSE_BUFFER_INIT :: "u32 \<Rightarrow> u32 \<Rightarrow> u32 \<Rightarrow> byte list" where
  "REUSE_BUFFER_INIT t port_id buffer_id =
     SPA_EVENT_INIT_COMPLEX 32 t (SPA_POD_INT_INIT port_id @ SPA_POD_INT_INIT buffer_id)"

text \<open>Reading a field of an event or command.\<close>

definition pod_word :: "byte list \<Rightarrow> nat \<Rightarrow> u32 option" where
  "pod_word ev off = (if off + 4 \<le> length ev then Some (rd32 (drop off ev)) else None)"

definition SPA_EVENT_TYPE :: "byte list \<Rightarrow> u32 option" where
  "SPA_EVENT_TYPE ev = pod_word ev 12"

section \<open>State\<close>

text \<open>The buffers that the graph hands over: what the node reads of them.\<close>

record shared_mem =
  sm_flags :: u32
  sm_fd :: int
  sm_offset :: u32
  sm_size :: u32

record graph_meta =
  gm_type :: u32
  gm_size :: u32
  gm_data :: "shared_mem option"

record graph_data =
  gd_type :: u32
  gd_flags :: u32
  gd_fd :: int
  gd_mapoffset :: u32
  gd_maxsize :: u32

record graph_buffer =
  gb_id :: u32
  gb_metas :: "graph_meta list"
  gb_datas :: "graph_data list"

record proxy_buffer =
  pb_id :: u32
  pb_metas :: "(u32 \<times> u32) list"
  pb_datas :: "(u32 \<times> u32 \<times> u32 \<times> u32 \<times> u32) list"
  pb_size :: u64

record proxy_port =
  pp_valid :: bool
  pp_info :: port_info
  pp_format :: "pod option"
  pp_formats :: "pod option list"
  pp_io :: "nat option"
  pp_n_buffers :: u32
  pp_buffers :: "proxy_buffer list"

record spa_proxy =
  px_resource :: bool
  px_fds :: "(int \<times> int) option"
  px_data_source :: bool
  px_max_inputs :: u32
  px_n_inputs :: u32
  px_max_outputs :: u32
  px_n_outputs :: u32
  px_in_ports :: "proxy_port list"
  px_out_ports :: "proxy_port list"
  px_seq :: u32
  px_transport :: "pinos_transport option"
  px_mem :: transport_mem
  px_ios :: "nat \<Rightarrow> spa_port_io"
  px_sent :: "server_event list"
  px_wakeups :: nat

abbreviation (input) PX_MAX_PORTS :: nat where "PX_MAX_PORTS \<equiv> 64"
abbreviation (input) PX_MAX_BUFFERS :: nat where "PX_MAX_BUFFERS \<equiv> 64"
abbreviation (input) PX_MAX_METAS :: nat where "PX_MAX_METAS \<equiv> 4"
abbreviation (input) PX_MAX_DATAS :: nat where "PX_MAX_DATAS \<equiv> 4"

definition empty_proxy_buffer :: proxy_buffer where
  "empty_proxy_buffer = \<lparr>pb_id = 0, pb_metas = [], pb_datas = [], pb_size = 0\<rparr>"

definition empty_port_info :: port_info where
  "empty_port_info = \<lparr>pi_flags = 0, pi_rate = 0, pi_maxbuffering = 0, pi_latency = 0, pi_params = [], pi_extra = None\<rparr>"

definition empty_proxy_port :: proxy_port where
  "empty_proxy_port = \<lparr>pp_valid = False, pp_info = empty_port_info, pp_format = None, pp_formats = [], pp_io = None,
     pp_n_buffers = 0, pp_buffers = replicate PX_MAX_BUFFERS empty_proxy_buffer\<rparr>"

text \<open>The node as \<^verbatim>\<open>calloc\<close> and \<^verbatim>\<open>proxy_init\<close> leave it; the result carries the first sequence number.\<close>

definition zero_proxy :: "transport_mem \<Rightarrow> (nat \<Rightarrow> spa_port_io) \<Rightarrow> spa_proxy" where
  "zero_proxy m ios = \<lparr>px_resource = False, px_fds = None, px_data_source = False, px_max_inputs = 0, px_n_inputs = 0,
     px_max_outputs = 0, px_n_outputs = 0, px_in_ports = replicate PX_MAX_PORTS empty_proxy_port,
     px_out_ports = replicate PX_MAX_PORTS empty_proxy_port, px_seq = 0, px_transport = None, px_mem = m, px_ios = ios,
     px_sent = [], px_wakeups = 0\<rparr>"

definition proxy_init :: "spa_proxy \<Rightarrow> spa_result \<times> spa_proxy" where
  "proxy_init px = (SPA_RESULT_RETURN_ASYNC (px_seq px), px\<lparr>px_seq := px_seq px + 1\<rparr>)"

section \<open>Ports\<close>

definition port_list :: "u32 \<Rightarrow> spa_proxy \<Rightarrow> proxy_port list" where
  "port_list d px = (if d = SPA_DIRECTION_INPUT then px_in_ports px else px_out_ports px)"

definition check_port_id :: "u32 \<Rightarrow> u32 \<Rightarrow> bool" where
  "check_port_id d p \<longleftrightarrow> (d = SPA_DIRECTION_INPUT \<and> unat p < PX_MAX_PORTS) \<or> (d = SPA_DIRECTION_OUTPUT \<and> unat p < PX_MAX_PORTS)"

definition check_free_port :: "spa_proxy \<Rightarrow> u32 \<Rightarrow> u32 \<Rightarrow> bool" where
  "check_free_port px d p \<longleftrightarrow> check_port_id d p \<and> \<not> pp_valid (port_list d px ! unat p)"

definition check_port :: "spa_proxy \<Rightarrow> u32 \<Rightarrow> u32 \<Rightarrow> bool" where
  "check_port px d p \<longleftrightarrow> check_port_id d p \<and> pp_valid (port_list d px ! unat p)"

definition mod_proxy_port :: "u32 \<Rightarrow> u32 \<Rightarrow> (proxy_port \<Rightarrow> proxy_port) \<Rightarrow> spa_proxy \<Rightarrow> spa_proxy" where
  "mod_proxy_port d p f px =
     (if d = SPA_DIRECTION_INPUT
      then px\<lparr>px_in_ports := (px_in_ports px)[unat p := f (px_in_ports px ! unat p)]\<rparr>
      else px\<lparr>px_out_ports := (px_out_ports px)[unat p := f (px_out_ports px ! unat p)]\<rparr>)"

definition count_port :: "u32 \<Rightarrow> u32 \<Rightarrow> spa_proxy \<Rightarrow> spa_proxy" where
  "count_port d k px = (if d = SPA_DIRECTION_INPUT then px\<lparr>px_n_inputs := px_n_inputs px + k\<rparr> else px\<lparr>px_n_outputs := px_n_outputs px + k\<rparr>)"

definition proxy_clear_buffers :: "proxy_port \<Rightarrow> proxy_port" where
  "proxy_clear_buffers port = (if pp_n_buffers port \<noteq> 0 then port\<lparr>pp_n_buffers := 0\<rparr> else port)"

text \<open>What an update changes in the port itself; a format that comes with the first update of a port is dropped again.\<close>

definition update_proxy_port ::
  "u32 \<Rightarrow> pod option list \<Rightarrow> pod option \<Rightarrow> port_info option \<Rightarrow> proxy_port \<Rightarrow> proxy_port" where
  "update_proxy_port change_mask formats fmt info port =
     (let port1 = (if change_mask AND PORT_UPDATE_POSSIBLE_FORMATS \<noteq> 0 then port\<lparr>pp_formats := formats\<rparr> else port);
          port2 = (if change_mask AND PORT_UPDATE_FORMAT \<noteq> 0 then port1\<lparr>pp_format := fmt\<rparr> else port1);
          port3 = (case info of
                     Some i \<Rightarrow> if change_mask AND PORT_UPDATE_INFO \<noteq> 0 then port2\<lparr>pp_info := i\<lparr>pi_extra := None\<rparr>\<rparr> else port2
                   | None \<Rightarrow> port2)
      in if pp_valid port3 then port3 else port3\<lparr>pp_format := None, pp_valid := True\<rparr>)"

definition do_update_port ::
  "spa_proxy \<Rightarrow> u32 \<Rightarrow> u32 \<Rightarrow> u32 \<Rightarrow> pod option list \<Rightarrow> pod option \<Rightarrow> port_info option \<Rightarrow> spa_proxy" where
  "do_update_port px d p change_mask formats fmt info =
     (let px1 = mod_proxy_port d p (update_proxy_port change_mask formats fmt info) px in
      if pp_valid (port_list d px ! unat p) then px1 else count_port d 1 px1)"

definition clear_port :: "spa_proxy \<Rightarrow> u32 \<Rightarrow> u32 \<Rightarrow> spa_proxy" where
  "clear_port px d p =
     mod_proxy_port d p proxy_clear_buffers
       (do_update_port px d p (PORT_UPDATE_POSSIBLE_FORMATS OR PORT_UPDATE_FORMAT OR PORT_UPDATE_PROPS OR PORT_UPDATE_INFO) [] None None)"

definition do_uninit_port :: "spa_proxy \<Rightarrow> u32 \<Rightarrow> u32 \<Rightarrow> spa_proxy" where
  "do_uninit_port px d p = mod_proxy_port d p (\<lambda>port. port\<lparr>pp_valid := False\<rparr>) (clear_port (count_port d (- 1) px) d p)"

definition spa_proxy_node_add_port :: "spa_proxy \<Rightarrow> u32 \<Rightarrow> u32 \<Rightarrow> spa_result \<times> spa_proxy" where
  "spa_proxy_node_add_port px d p =
     (if \<not> check_free_port px d p then (SPA_RESULT_INVALID_PORT, px) else (SPA_RESULT_OK, clear_port px d p))"

definition spa_proxy_node_remove_port :: "spa_proxy \<Rightarrow> u32 \<Rightarrow> u32 \<Rightarrow> spa_result \<times> spa_proxy" where
  "spa_proxy_node_remove_port px d p =
     (if \<not> check_port px d p then (SPA_RESULT_INVALID_PORT, px) else (SPA_RESULT_OK, do_uninit_port px d p))"

definition spa_proxy_node_get_n_ports :: "spa_proxy \<Rightarrow> (u32 \<times> u32) \<times> (u32 \<times> u32)" where
  "spa_proxy_node_get_n_ports px = ((px_n_inputs px, px_max_inputs px), (px_n_outputs px, px_max_outputs px))"

text \<open>The ids of the valid ports, as many as fit into the array of \<open>n\<close> elements.\<close>

fun port_ids_from :: "nat \<Rightarrow> proxy_port list \<Rightarrow> nat \<Rightarrow> u32 list" where
  "port_ids_from i [] n = []"
| "port_ids_from i (port # ports) n =
     (if n = 0 then []
      else if pp_valid port then of_nat i # port_ids_from (i + 1) ports (n - 1)
      else port_ids_from (i + 1) ports n)"

definition spa_proxy_node_get_port_ids :: "spa_proxy \<Rightarrow> u32 \<Rightarrow> u32 \<Rightarrow> u32 list \<times> u32 list" where
  "spa_proxy_node_get_port_ids px n_in n_out =
     (port_ids_from 0 (px_in_ports px) (unat n_in), port_ids_from 0 (px_out_ports px) (unat n_out))"

section \<open>Requests to the client\<close>

definition notify :: "server_event list \<Rightarrow> spa_proxy \<Rightarrow> spa_proxy" where
  "notify msgs px = px\<lparr>px_sent := px_sent px @ msgs\<rparr>"

text \<open>Every request takes the next sequence number.\<close>

definition async_request :: "(u32 \<Rightarrow> server_event) \<Rightarrow> spa_proxy \<Rightarrow> spa_result \<times> spa_proxy" where
  "async_request msg px =
     (SPA_RESULT_RETURN_ASYNC (px_seq px), (notify [msg (px_seq px)] px)\<lparr>px_seq := px_seq px + 1\<rparr>)"

definition spa_proxy_node_port_set_format :: "spa_proxy \<Rightarrow> u32 \<Rightarrow> u32 \<Rightarrow> u32 \<Rightarrow> pod option \<Rightarrow> spa_result \<times> spa_proxy" where
  "spa_proxy_node_port_set_format px d p flags fmt =
     (if \<not> check_port px d p then (SPA_RESULT_INVALID_PORT, px)
      else if \<not> px_resource px then (SPA_RESULT_OK, px)
      else async_request (\<lambda>seq. Node_set_format seq d p flags fmt) px)"

definition spa_proxy_node_port_get_format :: "spa_proxy \<Rightarrow> u32 \<Rightarrow> u32 \<Rightarrow> spa_result \<times> pod option" where
  "spa_proxy_node_port_get_format px d p =
     (if \<not> check_port px d p then (SPA_RESULT_INVALID_PORT, None)
      else case pp_format (port_list d px ! unat p) of
             None \<Rightarrow> (SPA_RESULT_NO_FORMAT, None)
           | Some f \<Rightarrow> (SPA_RESULT_OK, Some f))"

definition spa_proxy_node_port_get_info :: "spa_proxy \<Rightarrow> u32 \<Rightarrow> u32 \<Rightarrow> spa_result \<times> port_info option" where
  "spa_proxy_node_port_get_info px d p =
     (if \<not> check_port px d p then (SPA_RESULT_INVALID_PORT, None) else (SPA_RESULT_OK, Some (pp_info (port_list d px ! unat p))))"

definition spa_proxy_node_port_set_io :: "spa_proxy \<Rightarrow> u32 \<Rightarrow> u32 \<Rightarrow> nat option \<Rightarrow> spa_result \<times> spa_proxy" where
  "spa_proxy_node_port_set_io px d p io =
     (if \<not> check_port px d p then (SPA_RESULT_INVALID_PORT, px)
      else (SPA_RESULT_OK, mod_proxy_port d p (\<lambda>port. port\<lparr>pp_io := io\<rparr>) px))"

text \<open>The formats of the port that the filter accepts; \<open>decode\<close> reads the copy that the client sent.\<close>

function proxy_enum_from ::
  "(u64 \<Rightarrow> u64 \<Rightarrow> int) \<Rightarrow> (pod \<Rightarrow> spa_format) \<Rightarrow> pod option list \<Rightarrow> spa_format option \<Rightarrow> u32 \<Rightarrow> nat \<Rightarrow> u32 \<Rightarrow>
   (spa_result \<times> spa_format option) option" where
  "proxy_enum_from fdiff decode formats flt index count matches =
     (if length formats \<le> count then Some (SPA_RESULT_ENUM_END, None)
      else case spa_format_filter fdiff (map_option decode (formats ! count)) flt True of
             None \<Rightarrow> None
           | Some (res, out) \<Rightarrow>
               if res \<noteq> SPA_RESULT_OK then proxy_enum_from fdiff decode formats flt index (count + 1) matches
               else if matches \<noteq> index then proxy_enum_from fdiff decode formats flt index (count + 1) (matches + 1)
               else Some (SPA_RESULT_OK, out))"
  by pat_completeness auto
termination
  by (relation "measure (\<lambda>(fdiff, decode, formats, flt, index, count, matches). length formats - count)") auto

definition spa_proxy_node_port_enum_formats ::
  "(u64 \<Rightarrow> u64 \<Rightarrow> int) \<Rightarrow> (pod \<Rightarrow> spa_format) \<Rightarrow> spa_proxy \<Rightarrow> u32 \<Rightarrow> u32 \<Rightarrow> spa_format option \<Rightarrow> u32 \<Rightarrow>
   (spa_result \<times> spa_format option) option" where
  "spa_proxy_node_port_enum_formats fdiff decode px d p flt index =
     (if \<not> check_port px d p then Some (SPA_RESULT_INVALID_PORT, None)
      else let start = (case flt of None \<Rightarrow> index | Some _ \<Rightarrow> 0) in
        proxy_enum_from fdiff decode (pp_formats (port_list d px ! unat p)) flt index (unat start) start)"

definition spa_proxy_node_port_alloc_buffers :: "spa_proxy \<Rightarrow> u32 \<Rightarrow> u32 \<Rightarrow> spa_result" where
  "spa_proxy_node_port_alloc_buffers px d p =
     (if \<not> check_port px d p then SPA_RESULT_INVALID_PORT
      else if pp_format (port_list d px ! unat p) = None then SPA_RESULT_NO_FORMAT
      else SPA_RESULT_NOT_IMPLEMENTED)"

definition spa_proxy_node_port_send_command :: spa_result where
  "spa_proxy_node_port_send_command = SPA_RESULT_NOT_IMPLEMENTED"

subsection \<open>Buffers\<close>

text \<open>The data blocks of one buffer: memory that can be passed gets a memory id, memory that cannot gets the offset
  \<open>pb_size\<close>, which is only ever increased. The result has the next memory id.\<close>

fun share_datas ::
  "transport_types \<Rightarrow> u32 \<Rightarrow> u32 \<Rightarrow> u32 \<Rightarrow> graph_data list \<Rightarrow> u64 \<Rightarrow>
   (u32 \<times> u32 \<times> u32 \<times> u32 \<times> u32) list \<times> server_event list \<times> u32 \<times> u64" where
  "share_datas tt d p n_mem [] bsize = ([], [], n_mem, bsize)"
| "share_datas tt d p n_mem (x # xs) bsize =
     (if gd_type x = tt_DmaBuf tt \<or> gd_type x = tt_MemFd tt
      then case share_datas tt d p (n_mem + 1) xs bsize of
             (ds, msgs, n', b') \<Rightarrow>
               ((tt_Id tt, n_mem, gd_flags x, gd_mapoffset x, gd_maxsize x) # ds,
                Node_add_mem d p n_mem (gd_type x) (gd_fd x) (gd_flags x) (gd_mapoffset x) (gd_maxsize x) # msgs, n', b')
      else if gd_type x = tt_MemPtr tt
      then case share_datas tt d p n_mem xs (bsize + ucast (gd_maxsize x)) of
             (ds, msgs, n', b') \<Rightarrow> ((gd_type x, ucast bsize, gd_flags x, gd_mapoffset x, gd_maxsize x) # ds, msgs, n', b')
      else case share_datas tt d p n_mem xs bsize of
             (ds, msgs, n', b') \<Rightarrow> ((SPA_ID_INVALID, 0, gd_flags x, gd_mapoffset x, gd_maxsize x) # ds, msgs, n', b'))"

definition find_shared :: "transport_types \<Rightarrow> graph_buffer \<Rightarrow> shared_mem option" where
  "find_shared tt b = (case find (\<lambda>x. gm_type x = tt_Shared tt) (gb_metas b) of None \<Rightarrow> None | Some x \<Rightarrow> gm_data x)"

text \<open>The loop over the buffers; a buffer without shared memory ends it, after the memory of the others was announced.\<close>

fun share_buffers ::
  "transport_types \<Rightarrow> u32 \<Rightarrow> u32 \<Rightarrow> nat \<Rightarrow> u32 \<Rightarrow> graph_buffer list \<Rightarrow> proxy_port \<Rightarrow>
   (bool \<times> node_buffer list \<times> server_event list \<times> proxy_port) option" where
  "share_buffers tt d p i n_mem [] port = Some (True, [], [], port)"
| "share_buffers tt d p i n_mem (b # bs) port =
     (if length (pp_buffers port) \<le> i then None
      else case find_shared tt b of
        None \<Rightarrow> Some (False, [], [], port)
      | Some msh \<Rightarrow>
          if PX_MAX_METAS < length (gb_metas b) \<or> PX_MAX_DATAS < length (gb_datas b) then None
          else
            let mem = Node_add_mem d p n_mem (tt_MemFd tt) (sm_fd msh) (sm_flags msh) (sm_offset msh) (sm_size msh);
                metas = map (\<lambda>x. (gm_type x, gm_size x)) (gb_metas b) in
            (case share_datas tt d p (n_mem + 1) (gb_datas b) (pb_size (pp_buffers port ! i)) of
               (datas, msgs, n_mem', sz) \<Rightarrow>
                 let pb = \<lparr>pb_id = gb_id b, pb_metas = metas, pb_datas = datas, pb_size = sz\<rparr>;
                     mb = \<lparr>nb_mem_id = n_mem, nb_offset = 0, nb_size = sm_size msh, nb_id = gb_id b, nb_metas = metas, nb_datas = datas\<rparr> in
                 (case share_buffers tt d p (i + 1) n_mem' bs (port\<lparr>pp_buffers := (pp_buffers port)[i := pb]\<rparr>) of
                    None \<Rightarrow> None
                  | Some (ok, mbs, msgs', port') \<Rightarrow> Some (ok, mb # mbs, mem # msgs @ msgs', port'))))"

definition spa_proxy_node_port_use_buffers ::
  "transport_types \<Rightarrow> spa_proxy \<Rightarrow> u32 \<Rightarrow> u32 \<Rightarrow> graph_buffer list \<Rightarrow> (spa_result \<times> spa_proxy) option" where
  "spa_proxy_node_port_use_buffers tt px d p buffers =
     (if \<not> check_port px d p then Some (SPA_RESULT_INVALID_PORT, px)
      else if pp_format (port_list d px ! unat p) = None then Some (SPA_RESULT_NO_FORMAT, px)
      else
        let px1 = mod_proxy_port d p (\<lambda>port. (proxy_clear_buffers port)\<lparr>pp_n_buffers := of_nat (length buffers)\<rparr>) px in
        if \<not> px_resource px then Some (SPA_RESULT_OK, px1)
        else (case share_buffers tt d p 0 0 buffers (port_list d px1 ! unat p) of
                None \<Rightarrow> None
              | Some (ok, mbs, msgs, port) \<Rightarrow>
                  let px2 = notify msgs (mod_proxy_port d p (\<lambda>_. port) px1) in
                  if \<not> ok then Some (SPA_RESULT_ERROR, px2)
                  else Some (async_request (\<lambda>seq. Node_use_buffers seq d p mbs) px2)))"

section \<open>Data flow\<close>

definition do_flush :: "spa_proxy \<Rightarrow> spa_proxy" where
  "do_flush px = px\<lparr>px_wakeups := px_wakeups px + 1\<rparr>"

text \<open>The result of \<^verbatim>\<open>pinos_transport_add_event\<close> is not looked at.\<close>

definition px_add_event :: "byte list \<Rightarrow> spa_proxy \<Rightarrow> spa_proxy option" where
  "px_add_event ev px = map_option (\<lambda>(_, m). px\<lparr>px_mem := m\<rparr>) (pinos_transport_add_event (px_transport px) (Some ev) (px_mem px))"

definition px_send_need_input :: "transport_types \<Rightarrow> spa_proxy \<Rightarrow> spa_proxy option" where
  "px_send_need_input tt px = map_option do_flush (px_add_event (SPA_EVENT_INIT (tt_NeedInput tt)) px)"

definition px_send_have_output :: "transport_types \<Rightarrow> spa_proxy \<Rightarrow> spa_proxy option" where
  "px_send_have_output tt px = map_option do_flush (px_add_event (SPA_EVENT_INIT (tt_HaveOutput tt)) px)"

definition spa_proxy_node_send_command :: "transport_types \<Rightarrow> spa_proxy \<Rightarrow> pod \<Rightarrow> (spa_result \<times> spa_proxy) option" where
  "spa_proxy_node_send_command tt px cmd =
     (if \<not> px_resource px then Some (SPA_RESULT_OK, px)
      else case SPA_EVENT_TYPE cmd of
        None \<Rightarrow> None
      | Some t \<Rightarrow>
          let px1 = notify [Node_node_command (px_seq px) cmd] px in
          if t = tt_ClockUpdate tt then Some (SPA_RESULT_OK, px1\<lparr>px_seq := px_seq px1 + 1\<rparr>)
          else (case (if t = tt_Start tt then px_send_need_input tt px1 else Some px1) of
                  None \<Rightarrow> None
                | Some px2 \<Rightarrow> Some (SPA_RESULT_RETURN_ASYNC (px_seq px2), px2\<lparr>px_seq := px_seq px2 + 1\<rparr>)))"

definition spa_proxy_node_port_reuse_buffer :: "transport_types \<Rightarrow> spa_proxy \<Rightarrow> u32 \<Rightarrow> u32 \<Rightarrow> (spa_result \<times> spa_proxy) option" where
  "spa_proxy_node_port_reuse_buffer tt px p buffer_id =
     (if \<not> check_port px SPA_DIRECTION_OUTPUT p then Some (SPA_RESULT_INVALID_PORT, px)
      else map_option (Pair SPA_RESULT_OK) (px_add_event (REUSE_BUFFER_INIT (tt_ReuseBuffer tt) p buffer_id) px))"

text \<open>The io structures of the transport, by the number of the port.\<close>

definition tr_input :: "pinos_transport \<Rightarrow> nat \<Rightarrow> nat" where
  "tr_input tr i = tr_inputs tr + i * sizeof_SpaPortIO"

definition tr_output :: "pinos_transport \<Rightarrow> nat \<Rightarrow> nat" where
  "tr_output tr i = tr_outputs tr + i * sizeof_SpaPortIO"

definition set_tr_io :: "nat \<Rightarrow> spa_port_io \<Rightarrow> transport_mem \<Rightarrow> transport_mem" where
  "set_tr_io a io m = m\<lparr>tm_io := (tm_io m)(a := io)\<rparr>"

text \<open>An index behind the arrays of the transport is outside of them.\<close>

definition get_tr_input :: "pinos_transport option \<Rightarrow> transport_mem \<Rightarrow> nat \<Rightarrow> nat option" where
  "get_tr_input tro m i =
     (case tro of None \<Rightarrow> None | Some tr \<Rightarrow> if i < unat (max_inputs (tm_area m)) then Some (tr_input tr i) else None)"

definition get_tr_output :: "pinos_transport option \<Rightarrow> transport_mem \<Rightarrow> nat \<Rightarrow> nat option" where
  "get_tr_output tro m i =
     (case tro of None \<Rightarrow> None | Some tr \<Rightarrow> if i < unat (max_outputs (tm_area m)) then Some (tr_output tr i) else None)"

fun px_push_inputs :: "nat \<Rightarrow> proxy_port list \<Rightarrow> spa_proxy \<Rightarrow> spa_proxy option" where
  "px_push_inputs i [] px = Some px"
| "px_push_inputs i (port # ports) px =
     (case pp_io port of
        None \<Rightarrow> px_push_inputs (i + 1) ports px
      | Some a \<Rightarrow>
          (case get_tr_input (px_transport px) (px_mem px) i of
             None \<Rightarrow> None
           | Some ti \<Rightarrow>
               px_push_inputs (i + 1) ports
                 (px\<lparr>px_mem := set_tr_io ti (px_ios px a) (px_mem px),
                     px_ios := (px_ios px)(a := (px_ios px a)\<lparr>io_status := SPA_RESULT_OK\<rparr>)\<rparr>)))"

definition spa_proxy_node_process_input :: "transport_types \<Rightarrow> spa_proxy \<Rightarrow> (spa_result \<times> spa_proxy) option" where
  "spa_proxy_node_process_input tt px =
     (case px_push_inputs 0 (px_in_ports px) px of
        None \<Rightarrow> None
      | Some px1 \<Rightarrow> map_option (Pair SPA_RESULT_OK) (px_send_have_output tt px1))"

text \<open>One output port: the buffer that comes back is reported, then the io of the graph and of the transport are swapped.\<close>

definition px_swap_output :: "transport_types \<Rightarrow> nat \<Rightarrow> nat \<Rightarrow> spa_proxy \<Rightarrow> (bool \<times> bool \<times> spa_proxy) option" where
  "px_swap_output tt i a px =
     (let flush = io_buffer_id (px_ios px a) \<noteq> SPA_ID_INVALID in
      case (if flush then px_add_event (REUSE_BUFFER_INIT (tt_ReuseBuffer tt) (of_nat i) (io_buffer_id (px_ios px a))) px else Some px) of
        None \<Rightarrow> None
      | Some px1 \<Rightarrow>
          (case get_tr_output (px_transport px1) (px_mem px1) i of
             None \<Rightarrow> None
           | Some ti \<Rightarrow>
               let io = (px_ios px a)\<lparr>io_buffer_id := SPA_ID_INVALID\<rparr>;
                   tmp = tm_io (px_mem px1) ti in
               Some (io_status io = SPA_RESULT_NEED_BUFFER, flush,
                     px1\<lparr>px_mem := set_tr_io ti io (px_mem px1), px_ios := (px_ios px1)(a := tmp)\<rparr>)))"

fun px_swap_outputs :: "transport_types \<Rightarrow> nat \<Rightarrow> proxy_port list \<Rightarrow> spa_proxy \<Rightarrow> (bool \<times> bool \<times> spa_proxy) option" where
  "px_swap_outputs tt i [] px = Some (False, False, px)"
| "px_swap_outputs tt i (port # ports) px =
     (case pp_io port of
        None \<Rightarrow> px_swap_outputs tt (i + 1) ports px
      | Some a \<Rightarrow>
          (case px_swap_output tt i a px of
             None \<Rightarrow> None
           | Some (need, flush, px1) \<Rightarrow>
               (case px_swap_outputs tt (i + 1) ports px1 of
                  None \<Rightarrow> None
                | Some (need', flush', px2) \<Rightarrow> Some (need \<or> need', flush \<or> flush', px2))))"

definition spa_proxy_node_process_output :: "transport_types \<Rightarrow> spa_proxy \<Rightarrow> (spa_result \<times> spa_proxy) option" where
  "spa_proxy_node_process_output tt px =
     (case px_swap_outputs tt 0 (px_out_ports px) px of
        None \<Rightarrow> None
      | Some (need, flush, px1) \<Rightarrow>
          map_option (Pair SPA_RESULT_HAVE_BUFFER)
            (if need then px_send_need_input tt px1 else if flush then Some (do_flush px1) else Some px1))"

text \<open>Events of the client on the transport. The callback of the graph is the last thing that is done; it is returned.\<close>

datatype graph_callback = Cb_event pod | Cb_have_output | Cb_need_input | Cb_reuse_buffer u32 u32

fun px_pull_outputs :: "nat \<Rightarrow> proxy_port list \<Rightarrow> spa_proxy \<Rightarrow> spa_proxy option" where
  "px_pull_outputs i [] px = Some px"
| "px_pull_outputs i (port # ports) px =
     (case pp_io port of
        None \<Rightarrow> px_pull_outputs (i + 1) ports px
      | Some a \<Rightarrow>
          (case get_tr_output (px_transport px) (px_mem px) i of
             None \<Rightarrow> None
           | Some ti \<Rightarrow> px_pull_outputs (i + 1) ports (px\<lparr>px_ios := (px_ios px)(a := tm_io (px_mem px) ti)\<rparr>)))"

definition px_handle_node_event :: "transport_types \<Rightarrow> spa_proxy \<Rightarrow> byte list \<Rightarrow> (graph_callback option \<times> spa_proxy) option" where
  "px_handle_node_event tt px ev =
     (case SPA_EVENT_TYPE ev of
        None \<Rightarrow> None
      | Some t \<Rightarrow>
          if t = tt_HaveOutput tt then map_option (Pair (Some Cb_have_output)) (px_pull_outputs 0 (px_out_ports px) px)
          else if t = tt_NeedInput tt then Some (Some Cb_need_input, px)
          else if t = tt_ReuseBuffer tt
          then (case (pod_word ev 24, pod_word ev 36) of
                  (Some p, Some b) \<Rightarrow> Some (Some (Cb_reuse_buffer p b), px)
                | _ \<Rightarrow> None)
          else Some (None, px))"

text \<open>One turn of the loop of \<^verbatim>\<open>proxy_on_data_fd_events\<close>: the next event, when there is one.\<close>

definition px_next_event :: "spa_proxy \<Rightarrow> (byte list option \<times> spa_proxy) option" where
  "px_next_event px =
     (case pinos_transport_next_event (px_transport px) True (px_mem px) of
        None \<Rightarrow> None
      | Some (res, tro, _) \<Rightarrow>
          if res \<noteq> SPA_RESULT_OK then Some (None, px\<lparr>px_transport := tro\<rparr>)
          else (case pinos_transport_parse_event tro True (px_mem px) of
                  None \<Rightarrow> None
                | Some (_, m, ev) \<Rightarrow> Some (Some ev, px\<lparr>px_transport := tro, px_mem := m\<rparr>)))"

text \<open>The whole loop, with the callback of the graph as a parameter; \<open>None\<close> also when it does not end.\<close>

partial_function (option) proxy_on_data_fd_events ::
  "transport_types \<Rightarrow> (graph_callback \<Rightarrow> spa_proxy \<Rightarrow> spa_proxy option) \<Rightarrow> spa_proxy \<Rightarrow> spa_proxy option" where
  "proxy_on_data_fd_events tt cb px =
     (case px_next_event px of
        None \<Rightarrow> None
      | Some (None, px1) \<Rightarrow> Some px1
      | Some (Some ev, px1) \<Rightarrow>
          (case px_handle_node_event tt px1 ev of
             None \<Rightarrow> None
           | Some (None, px2) \<Rightarrow> proxy_on_data_fd_events tt cb px2
           | Some (Some c, px2) \<Rightarrow>
               (case cb c px2 of None \<Rightarrow> None | Some px3 \<Rightarrow> proxy_on_data_fd_events tt cb px3)))"

section \<open>Methods of the client\<close>

definition client_node_update :: "spa_proxy \<Rightarrow> u32 \<Rightarrow> u32 \<Rightarrow> u32 \<Rightarrow> spa_proxy" where
  "client_node_update px change_mask max_in max_out =
     (let px1 = (if change_mask AND NODE_UPDATE_MAX_INPUTS \<noteq> 0 then px\<lparr>px_max_inputs := max_in\<rparr> else px) in
      if change_mask AND NODE_UPDATE_MAX_OUTPUTS \<noteq> 0 then px1\<lparr>px_max_outputs := max_out\<rparr> else px1)"

definition client_node_port_update ::
  "spa_proxy \<Rightarrow> u32 \<Rightarrow> u32 \<Rightarrow> u32 \<Rightarrow> pod option list \<Rightarrow> pod option \<Rightarrow> port_info option \<Rightarrow> spa_proxy" where
  "client_node_port_update px d p change_mask formats fmt info =
     (if \<not> check_port_id d p then px
      else if change_mask = 0 then do_uninit_port px d p
      else do_update_port px d p change_mask formats fmt info)"

section \<open>Life of the node\<close>

text \<open>The node was made by \<^verbatim>\<open>pinos_node_new\<close> in between; without a resource it is gone again.\<close>

definition pinos_client_node_new :: "bool \<Rightarrow> bool \<Rightarrow> transport_mem \<Rightarrow> (nat \<Rightarrow> spa_port_io) \<Rightarrow> spa_proxy option" where
  "pinos_client_node_new node_ok resource_ok m ios =
     (if node_ok \<and> resource_ok then Some ((snd (proxy_init (zero_proxy m ios)))\<lparr>px_resource := True\<rparr>) else None)"

text \<open>The two event descriptors; what the client reads is what the server writes.\<close>

definition pinos_client_node_get_fds :: "int \<times> int \<Rightarrow> spa_proxy \<Rightarrow> (int \<times> int) \<times> spa_proxy" where
  "pinos_client_node_get_fds fresh px =
     (let px1 = (if px_fds px = None then px\<lparr>px_fds := Some fresh, px_data_source := True\<rparr> else px) in
      (case px_fds px1 of Some (a, b) \<Rightarrow> (b, a) | None \<Rightarrow> (- 1, - 1), px1))"

text \<open>When the ports of the node are known the transport is made, with room for the largest number of ports, and its
  memory announced.\<close>

definition px_on_initialized :: "bool \<Rightarrow> (int \<times> transport_mem) option \<Rightarrow> u32 \<Rightarrow> u32 \<Rightarrow> u32 \<Rightarrow> u32 \<Rightarrow> spa_proxy \<Rightarrow> spa_proxy option" where
  "px_on_initialized calloc_ok shm max_in max_out n_in n_out px =
     (if \<not> px_resource px then Some px
      else case pinos_transport_new calloc_ok shm max_in max_out of
        Some (Some (tr, m)) \<Rightarrow>
          let m1 = m\<lparr>tm_area := (tm_area m)\<lparr>n_inputs := n_in, n_outputs := n_out\<rparr>\<rparr>;
              info = snd (pinos_transport_get_info tr) in
          Some (notify [Node_transport (ti_memfd info) (ti_offset info) (ti_size info)] (px\<lparr>px_transport := Some tr, px_mem := m1\<rparr>))
      | _ \<Rightarrow> None)"

fun clear_valid_ports :: "u32 \<Rightarrow> nat list \<Rightarrow> spa_proxy \<Rightarrow> spa_proxy" where
  "clear_valid_ports d [] px = px"
| "clear_valid_ports d (i # is) px =
     clear_valid_ports d is (if pp_valid (port_list d px ! i) then clear_port px d (of_nat i) else px)"

definition proxy_clear :: "spa_proxy \<Rightarrow> spa_proxy" where
  "proxy_clear px = clear_valid_ports SPA_DIRECTION_OUTPUT [0..<PX_MAX_PORTS] (clear_valid_ports SPA_DIRECTION_INPUT [0..<PX_MAX_PORTS] px)"

definition client_node_resource_destroy :: "spa_proxy \<Rightarrow> spa_proxy" where
  "client_node_resource_destroy px = px\<lparr>px_resource := False, px_data_source := False\<rparr>"

end
