(* ===== verification/Pinos_Stream.thy ===== *)
theory Pinos_Stream
  imports Pinos_Client_Node "HOL-Library.Monad_Syntax" "HOL-Library.Signed_Division"
begin

text \<open>
  The stream of a client, \<^verbatim>\<open>pinos/client/stream.c\<close>: the other end of a client node. Events of the
  protocol and of the transport change it and are reported to the application as signals; the application answers with
  calls, inside the signals or at any time. What it calls in a signal is the parameter \<open>app\<close>. Methods of the
  server are collected in \<open>st_sent\<close>. A place in shared memory is a file descriptor and an offset in the file.
  The links of the list \<^verbatim>\<open>free\<close> are inside the elements of the array \<^verbatim>\<open>buffer_ids\<close>: the model
  keeps their positions; when the array has to be moved while elements are in the list, these dangle and the result is
  \<open>None\<close>. Not represented: the contents of the properties, the error string, and the destruction of the stream.
\<close>

section \<open>State\<close>

datatype stream_state = STREAM_ERROR | STREAM_UNCONNECTED | STREAM_CONNECTING | STREAM_CONFIGURE | STREAM_READY
  | STREAM_PAUSED | STREAM_STREAMING

fun pinos_stream_state_as_string :: "stream_state \<Rightarrow> string" where
  "pinos_stream_state_as_string STREAM_ERROR = ''error''"
| "pinos_stream_state_as_string STREAM_UNCONNECTED = ''unconnected''"
| "pinos_stream_state_as_string STREAM_CONNECTING = ''connecting''"
| "pinos_stream_state_as_string STREAM_CONFIGURE = ''configure''"
| "pinos_stream_state_as_string STREAM_READY = ''ready''"
| "pinos_stream_state_as_string STREAM_PAUSED = ''paused''"
| "pinos_stream_state_as_string STREAM_STREAMING = ''streaming''"

datatype stream_signal =
    Sig_state_changed stream_state
  | Sig_format_changed "pod option"
  | Sig_add_buffer u32
  | Sig_remove_buffer u32
  | Sig_new_buffer u32
  | Sig_need_buffer

text \<open>What an application calls in a signal.\<close>

datatype stream_call =
    Call_send_buffer u32
  | Call_recycle_buffer u32
  | Call_finish_format spa_result "pod list"

type_synonym shm_loc = "int \<times> u64"

record mem_id =
  mi_id :: u32
  mi_fd :: int
  mi_flags :: u32
  mi_ptr :: "shm_loc option"
  mi_offset :: u32
  mi_size :: u32

datatype data_ptr = Ptr_null | Ptr_raw u32 | Ptr_at shm_loc

record stream_data =
  dt_type :: u32
  dt_flags :: u32
  dt_fd :: "int option"
  dt_mapoffset :: u32
  dt_maxsize :: u32
  dt_data :: data_ptr
  dt_chunk :: shm_loc

record stream_buffer =
  sb_id :: u32
  sb_metas :: "(u32 \<times> u32 \<times> shm_loc) list"
  sb_datas :: "stream_data list"

record buffer_id =
  bi_id :: u32
  bi_used :: bool
  bi_ptr :: shm_loc
  bi_buf :: stream_buffer

record stream =
  st_state :: stream_state
  st_direction :: u32
  st_port_id :: u32
  st_possible_formats :: "pod list"
  st_format :: "pod option"
  st_port_info :: port_info
  st_pending_seq :: u32
  st_fds :: "int \<times> int"
  st_rt_mask :: "u32 option"
  st_timer :: bool
  st_node_proxy :: bool
  st_disconnecting :: bool
  st_trans :: "pinos_transport option"
  st_mem :: transport_mem
  st_mem_ids :: "mem_id list"
  st_mem_array :: pinos_array
  st_buffer_ids :: "buffer_id list"
  st_buffer_array :: pinos_array
  st_in_order :: bool
  st_free :: "nat list"
  st_in_need_buffer :: bool
  st_last_ticks :: u64
  st_last_rate :: u32
  st_last_monotonic :: u64
  st_sent :: "client_method list"
  st_signals :: "stream_signal list"
  st_closed :: "int list"
  st_wakeups :: nat

abbreviation (input) sizeof_MemId :: u64 where "sizeof_MemId \<equiv> 32"
abbreviation (input) sizeof_BufferId :: u64 where "sizeof_BufferId \<equiv> 40"

text \<open>\<^verbatim>\<open>realloc\<close> is assumed to succeed.\<close>

definition pinos_stream_new :: "transport_mem \<Rightarrow> stream option" where
  "pinos_stream_new m = do {
     (_, mems) \<leftarrow> pinos_array_ensure_size (\<lambda>_. True) (pinos_array_init 64) (sizeof_MemId * 64);
     (_, bufs) \<leftarrow> pinos_array_ensure_size (\<lambda>_. True) (pinos_array_init 32) (sizeof_BufferId * 64);
     Some \<lparr>st_state = STREAM_UNCONNECTED, st_direction = SPA_DIRECTION_INPUT, st_port_id = 0, st_possible_formats = [],
       st_format = None, st_port_info = empty_port_info, st_pending_seq = SPA_ID_INVALID, st_fds = (0, 0), st_rt_mask = None,
       st_timer = False, st_node_proxy = False, st_disconnecting = False, st_trans = None, st_mem = m, st_mem_ids = [],
       st_mem_array = mems, st_buffer_ids = [], st_buffer_array = bufs, st_in_order = False, st_free = [],
       st_in_need_buffer = False, st_last_ticks = 0, st_last_rate = 0, st_last_monotonic = 0, st_sent = [], st_signals = [],
       st_closed = [], st_wakeups = 0\<rparr> }"

section \<open>Messages\<close>

definition call_node_proxy :: "client_method \<Rightarrow> stream \<Rightarrow> stream option" where
  "call_node_proxy msg s = (if st_node_proxy s then Some (s\<lparr>st_sent := st_sent s @ [msg]\<rparr>) else None)"

definition add_node_update :: "u32 \<Rightarrow> stream \<Rightarrow> stream option" where
  "add_node_update change_mask s =
     call_node_proxy (Client_node_update change_mask
       (if change_mask AND NODE_UPDATE_MAX_INPUTS \<noteq> 0 \<and> st_direction s = SPA_DIRECTION_INPUT then 1 else 0)
       (if change_mask AND NODE_UPDATE_MAX_OUTPUTS \<noteq> 0 \<and> st_direction s = SPA_DIRECTION_OUTPUT then 1 else 0) None) s"

definition add_port_update :: "u32 \<Rightarrow> stream \<Rightarrow> stream option" where
  "add_port_update change_mask s =
     call_node_proxy (Client_node_port_update (st_direction s) (st_port_id s) change_mask (st_possible_formats s)
       (st_format s) None (Some (st_port_info s))) s"

definition REQUEST_CLOCK_UPDATE_INIT :: "u32 \<Rightarrow> u32 \<Rightarrow> byte list" where
  "REQUEST_CLOCK_UPDATE_INIT t update_mask =
     SPA_EVENT_INIT_COMPLEX 64 t
       (SPA_POD_INT_INIT update_mask @ le32 0 @ (le32 8 @ le32 SPA_POD_TYPE_LONG @ le32 0 @ le32 0) @
        (le32 8 @ le32 SPA_POD_TYPE_LONG @ le32 0 @ le32 0))"

definition ASYNC_COMPLETE_INIT :: "u32 \<Rightarrow> u32 \<Rightarrow> spa_result \<Rightarrow> byte list" where
  "ASYNC_COMPLETE_INIT t seq res =
     SPA_EVENT_INIT_COMPLEX 40 t (SPA_POD_INT_INIT seq @ le32 0 @ SPA_POD_INT_INIT res @ le32 0)"

definition add_request_clock_update :: "transport_types \<Rightarrow> stream \<Rightarrow> stream option" where
  "add_request_clock_update tt = call_node_proxy (Client_node_event (REQUEST_CLOCK_UPDATE_INIT (tt_RequestClockUpdate tt) 1))"

definition add_async_complete :: "transport_types \<Rightarrow> u32 \<Rightarrow> spa_result \<Rightarrow> stream \<Rightarrow> stream option" where
  "add_async_complete tt seq res = call_node_proxy (Client_node_event (ASYNC_COMPLETE_INIT (tt_AsyncComplete tt) seq res))"

definition do_node_init :: "transport_types \<Rightarrow> stream \<Rightarrow> stream option" where
  "do_node_init tt s = do {
     s1 \<leftarrow> add_node_update (NODE_UPDATE_MAX_INPUTS OR NODE_UPDATE_MAX_OUTPUTS) s;
     s2 \<leftarrow> add_port_update (PORT_UPDATE_POSSIBLE_FORMATS OR PORT_UPDATE_INFO)
       (s1\<lparr>st_port_info := (st_port_info s1)\<lparr>pi_flags := 8\<rparr>\<rparr>);
     add_async_complete tt 0 SPA_RESULT_OK s2 }"

section \<open>Memory\<close>

definition find_mem :: "stream \<Rightarrow> u32 \<Rightarrow> nat option" where
  "find_mem s i = find (\<lambda>k. mi_id (st_mem_ids s ! k) = i) [0..<length (st_mem_ids s)]"

definition clear_memid :: "nat \<Rightarrow> stream \<Rightarrow> stream" where
  "clear_memid k s = s\<lparr>st_mem_ids := (st_mem_ids s)[k := (st_mem_ids s ! k)\<lparr>mi_ptr := None\<rparr>],
     st_closed := st_closed s @ [mi_fd (st_mem_ids s ! k)]\<rparr>"

definition clear_mems :: "stream \<Rightarrow> stream" where
  "clear_mems s =
     (let s1 = fold clear_memid [0..<length (st_mem_ids s)] s in
      s1\<lparr>st_mem_ids := [], st_mem_array := (st_mem_array s1)\<lparr>arr_size := 0\<rparr>\<rparr>)"

definition stream_add_mem :: "u32 \<Rightarrow> int \<Rightarrow> u32 \<Rightarrow> u32 \<Rightarrow> u32 \<Rightarrow> stream \<Rightarrow> stream option" where
  "stream_add_mem i memfd flags off sz s =
     (let m = \<lparr>mi_id = i, mi_fd = memfd, mi_flags = flags, mi_ptr = None, mi_offset = off, mi_size = sz\<rparr> in
      case find_mem s i of
        Some k \<Rightarrow> let s1 = clear_memid k s in Some (s1\<lparr>st_mem_ids := (st_mem_ids s1)[k := m]\<rparr>)
      | None \<Rightarrow> do {
          (_, arr) \<leftarrow> pinos_array_add (\<lambda>_. True) (st_mem_array s) sizeof_MemId;
          Some (s\<lparr>st_mem_ids := st_mem_ids s @ [m], st_mem_array := arr\<rparr>) })"

section \<open>Buffers of the application\<close>

text \<open>The position of a buffer in the array.\<close>

definition find_buffer :: "stream \<Rightarrow> u32 \<Rightarrow> nat option" where
  "find_buffer s i =
     (if st_in_order s \<and> unat i < length (st_buffer_ids s) then Some (unat i)
      else find (\<lambda>k. bi_id (st_buffer_ids s ! k) = i) [0..<length (st_buffer_ids s)])"

definition set_used :: "nat \<Rightarrow> bool \<Rightarrow> stream \<Rightarrow> stream" where
  "set_used k u s = s\<lparr>st_buffer_ids := (st_buffer_ids s)[k := (st_buffer_ids s ! k)\<lparr>bi_used := u\<rparr>]\<rparr>"

text \<open>A link that is in the list already must not be inserted, one that is not in the list not removed.\<close>

definition free_append :: "nat \<Rightarrow> stream \<Rightarrow> stream option" where
  "free_append k s = (if k \<in> set (st_free s) then None else Some (s\<lparr>st_free := st_free s @ [k]\<rparr>))"

definition free_remove :: "nat \<Rightarrow> stream \<Rightarrow> stream option" where
  "free_remove k s = (if k \<in> set (st_free s) then Some (s\<lparr>st_free := remove1 k (st_free s)\<rparr>) else None)"

definition st_add_event :: "byte list \<Rightarrow> stream \<Rightarrow> stream option" where
  "st_add_event ev s = map_option (\<lambda>(_, m). s\<lparr>st_mem := m, st_wakeups := st_wakeups s + 1\<rparr>)
     (pinos_transport_add_event (st_trans s) (Some ev) (st_mem s))"

definition st_send_have_output :: "transport_types \<Rightarrow> stream \<Rightarrow> stream option" where
  "st_send_have_output tt = st_add_event (SPA_EVENT_INIT (tt_HaveOutput tt))"

definition pinos_stream_get_empty_buffer :: "stream \<Rightarrow> u32" where
  "pinos_stream_get_empty_buffer s = (case st_free s of [] \<Rightarrow> SPA_ID_INVALID | k # _ \<Rightarrow> bi_id (st_buffer_ids s ! k))"

definition pinos_stream_peek_buffer :: "stream \<Rightarrow> u32 \<Rightarrow> stream_buffer option" where
  "pinos_stream_peek_buffer s i = map_option (\<lambda>k. bi_buf (st_buffer_ids s ! k)) (find_buffer s i)"

definition pinos_stream_recycle_buffer :: "transport_types \<Rightarrow> u32 \<Rightarrow> stream \<Rightarrow> (bool \<times> stream) option" where
  "pinos_stream_recycle_buffer tt i s =
     (case find_buffer s i of
        None \<Rightarrow> Some (False, s)
      | Some k \<Rightarrow>
          if \<not> bi_used (st_buffer_ids s ! k) then Some (False, s)
          else do {
            s1 \<leftarrow> free_append k (set_used k False s);
            s2 \<leftarrow> st_add_event (REUSE_BUFFER_INIT (tt_ReuseBuffer tt) (st_port_id s) i) s1;
            Some (True, s2) })"

definition pinos_stream_send_buffer :: "transport_types \<Rightarrow> u32 \<Rightarrow> stream \<Rightarrow> (bool \<times> stream) option" where
  "pinos_stream_send_buffer tt i s = do {
     a \<leftarrow> get_tr_output (st_trans s) (st_mem s) 0;
     if io_buffer_id (tm_io (st_mem s) a) \<noteq> SPA_ID_INVALID then Some (False, s)
     else case find_buffer s i of
       None \<Rightarrow> Some (True, s)
     | Some k \<Rightarrow>
         if bi_used (st_buffer_ids s ! k) then Some (True, s)
         else do {
           s1 \<leftarrow> free_remove k (set_used k True s);
           let s2 = s1\<lparr>st_mem := set_tr_io a ((tm_io (st_mem s1) a)\<lparr>io_buffer_id := i, io_status := SPA_RESULT_HAVE_BUFFER\<rparr>) (st_mem s1)\<rparr>;
           s3 \<leftarrow> (if st_in_need_buffer s2 then Some s2 else st_send_have_output tt s2);
           Some (True, s3) } }"

text \<open>Taking the buffers away. What the application does in \<^verbatim>\<open>remove_buffer\<close> is left out: it gets the
  signal only.\<close>

definition stream_clear_buffers :: "stream \<Rightarrow> stream" where
  "stream_clear_buffers s =
     s\<lparr>st_signals := st_signals s @ map (\<lambda>b. Sig_remove_buffer (bi_id b)) (st_buffer_ids s), st_buffer_ids := [],
       st_buffer_array := (st_buffer_array s)\<lparr>arr_size := 0\<rparr>, st_in_order := True, st_free := []\<rparr>"

definition pinos_stream_finish_format :: "transport_types \<Rightarrow> spa_result \<Rightarrow> pod list \<Rightarrow> stream \<Rightarrow> stream option" where
  "pinos_stream_finish_format tt res params s = do {
     let s1 = s\<lparr>st_port_info := (st_port_info s)\<lparr>pi_params := params\<rparr>\<rparr>;
     s2 \<leftarrow> (if SPA_RESULT_IS_OK res
            then do {
              sa \<leftarrow> add_port_update ((if params \<noteq> [] then PORT_UPDATE_INFO else 0) OR PORT_UPDATE_FORMAT) s1;
              Some (if st_format sa = None then clear_mems (stream_clear_buffers sa) else sa) }
            else Some s1);
     let s3 = s2\<lparr>st_port_info := (st_port_info s2)\<lparr>pi_params := []\<rparr>\<rparr>;
     s4 \<leftarrow> add_async_complete tt (st_pending_seq s3) res s3;
     Some (s4\<lparr>st_pending_seq := SPA_ID_INVALID\<rparr>) }"

section \<open>Signals\<close>

type_synonym stream_app = "stream_signal \<Rightarrow> stream_call list"

definition stream_do_call :: "transport_types \<Rightarrow> stream_call \<Rightarrow> stream \<Rightarrow> stream option" where
  "stream_do_call tt c s =
     (case c of
        Call_send_buffer i \<Rightarrow> map_option snd (pinos_stream_send_buffer tt i s)
      | Call_recycle_buffer i \<Rightarrow> map_option snd (pinos_stream_recycle_buffer tt i s)
      | Call_finish_format res params \<Rightarrow> pinos_stream_finish_format tt res params s)"

fun stream_do_calls :: "transport_types \<Rightarrow> stream_call list \<Rightarrow> stream \<Rightarrow> stream option" where
  "stream_do_calls tt [] s = Some s"
| "stream_do_calls tt (c # cs) s = do { s1 \<leftarrow> stream_do_call tt c s; stream_do_calls tt cs s1 }"

definition emit :: "transport_types \<Rightarrow> stream_app \<Rightarrow> stream_signal \<Rightarrow> stream \<Rightarrow> stream option" where
  "emit tt app sig s = stream_do_calls tt (app sig) (s\<lparr>st_signals := st_signals s @ [sig]\<rparr>)"

definition stream_set_state :: "transport_types \<Rightarrow> stream_app \<Rightarrow> stream_state \<Rightarrow> stream \<Rightarrow> stream option" where
  "stream_set_state tt app st s =
     (if st_state s \<noteq> st then emit tt app (Sig_state_changed st) (s\<lparr>st_state := st\<rparr>) else Some s)"

definition emit_need_buffer :: "transport_types \<Rightarrow> stream_app \<Rightarrow> stream \<Rightarrow> stream option" where
  "emit_need_buffer tt app s =
     map_option (\<lambda>s. s\<lparr>st_in_need_buffer := False\<rparr>) (emit tt app Sig_need_buffer (s\<lparr>st_in_need_buffer := True\<rparr>))"

section \<open>Events of the transport\<close>

definition stream_reuse_buffer :: "transport_types \<Rightarrow> stream_app \<Rightarrow> u32 \<Rightarrow> stream \<Rightarrow> stream option" where
  "stream_reuse_buffer tt app i s =
     (case find_buffer s i of
        None \<Rightarrow> Some s
      | Some k \<Rightarrow>
          if \<not> bi_used (st_buffer_ids s ! k) then Some s
          else do {
            s1 \<leftarrow> free_append k (set_used k False s);
            emit tt app (Sig_new_buffer i) s1 })"

text \<open>Both loops run while the index is below the count in the shared memory, which stays the same.\<close>

definition clear_io_id :: "nat \<Rightarrow> stream \<Rightarrow> stream" where
  "clear_io_id a s = s\<lparr>st_mem := set_tr_io a ((tm_io (st_mem s) a)\<lparr>io_buffer_id := SPA_ID_INVALID\<rparr>) (st_mem s)\<rparr>"

fun new_inputs :: "transport_types \<Rightarrow> stream_app \<Rightarrow> nat list \<Rightarrow> stream \<Rightarrow> stream option" where
  "new_inputs tt app [] s = Some s"
| "new_inputs tt app (i # is) s = do {
     a \<leftarrow> get_tr_input (st_trans s) (st_mem s) i;
     let b = io_buffer_id (tm_io (st_mem s) a);
     s1 \<leftarrow> (if b = SPA_ID_INVALID then Some s else map_option (clear_io_id a) (emit tt app (Sig_new_buffer b) s));
     new_inputs tt app is s1 }"

fun reuse_outputs :: "transport_types \<Rightarrow> stream_app \<Rightarrow> nat list \<Rightarrow> stream \<Rightarrow> stream option" where
  "reuse_outputs tt app [] s = Some s"
| "reuse_outputs tt app (i # is) s = do {
     a \<leftarrow> get_tr_output (st_trans s) (st_mem s) i;
     let b = io_buffer_id (tm_io (st_mem s) a);
     s1 \<leftarrow> (if b = SPA_ID_INVALID then Some s else map_option (clear_io_id a) (stream_reuse_buffer tt app b s));
     reuse_outputs tt app is s1 }"

definition handle_rtnode_event :: "transport_types \<Rightarrow> stream_app \<Rightarrow> byte list \<Rightarrow> stream \<Rightarrow> stream option" where
  "handle_rtnode_event tt app ev s = do {
     t \<leftarrow> SPA_EVENT_TYPE ev;
     if t = tt_HaveOutput tt
     then (if st_trans s = None then None else new_inputs tt app [0..<unat (n_inputs (tm_area (st_mem s)))] s)
     else if t = tt_NeedInput tt
     then do {
       s1 \<leftarrow> (if st_trans s = None then None else reuse_outputs tt app [0..<unat (n_outputs (tm_area (st_mem s)))] s);
       emit_need_buffer tt app s1 }
     else if t = tt_ReuseBuffer tt
     then do {
       p \<leftarrow> pod_word ev 24;
       b \<leftarrow> pod_word ev 36;
       if p \<noteq> st_port_id s \<or> st_direction s \<noteq> SPA_DIRECTION_OUTPUT then Some s
       else stream_reuse_buffer tt app b s }
     else Some s }"

definition st_next_event :: "stream \<Rightarrow> (byte list option \<times> stream) option" where
  "st_next_event s =
     (case pinos_transport_next_event (st_trans s) True (st_mem s) of
        None \<Rightarrow> None
      | Some (res, tro, _) \<Rightarrow>
          if res \<noteq> SPA_RESULT_OK then Some (None, s\<lparr>st_trans := tro\<rparr>)
          else (case pinos_transport_parse_event tro True (st_mem s) of
                  None \<Rightarrow> None
                | Some (_, m, ev) \<Rightarrow> Some (Some ev, s\<lparr>st_trans := tro, st_mem := m\<rparr>)))"

definition unhandle_socket :: "stream \<Rightarrow> stream" where
  "unhandle_socket s = s\<lparr>st_rt_mask := None, st_timer := False\<rparr>"

partial_function (option) rt_loop :: "transport_types \<Rightarrow> stream_app \<Rightarrow> stream \<Rightarrow> stream option" where
  "rt_loop tt app s =
     (case st_next_event s of
        None \<Rightarrow> None
      | Some (None, s1) \<Rightarrow> Some s1
      | Some (Some ev, s1) \<Rightarrow>
          (case handle_rtnode_event tt app ev s1 of None \<Rightarrow> None | Some s2 \<Rightarrow> rt_loop tt app s2))"

abbreviation (input) IO_IN :: u32 where "IO_IN \<equiv> 1"
abbreviation (input) IO_HUP :: u32 where "IO_HUP \<equiv> 4"
abbreviation (input) IO_ERR :: u32 where "IO_ERR \<equiv> 8"

definition on_rtsocket_condition :: "transport_types \<Rightarrow> stream_app \<Rightarrow> u32 \<Rightarrow> stream \<Rightarrow> stream option" where
  "on_rtsocket_condition tt app io s =
     (if io AND (IO_ERR OR IO_HUP) \<noteq> 0 then Some (unhandle_socket s)
      else if io AND IO_IN \<noteq> 0 then rt_loop tt app s
      else Some s)"

section \<open>Events of the protocol\<close>

text \<open>The source of the socket is there after \<^verbatim>\<open>handle_socket\<close>; updating a missing one is undefined.\<close>

definition update_rt_mask :: "u32 \<Rightarrow> stream \<Rightarrow> stream option" where
  "update_rt_mask io s = (if st_rt_mask s = None then None else Some (s\<lparr>st_rt_mask := Some io\<rparr>))"

definition handle_socket :: "int \<Rightarrow> int \<Rightarrow> stream \<Rightarrow> stream" where
  "handle_socket rfd wfd s = s\<lparr>st_fds := (rfd, wfd), st_rt_mask := Some (IO_ERR OR IO_HUP), st_timer := True\<rparr>"

definition stream_on_timeout :: "transport_types \<Rightarrow> stream \<Rightarrow> stream option" where
  "stream_on_timeout tt = add_request_clock_update tt"

definition pod_long :: "byte list \<Rightarrow> nat \<Rightarrow> u64 option" where
  "pod_long ev off = do { lo \<leftarrow> pod_word ev off; hi \<leftarrow> pod_word ev (off + 4); Some (ucast lo OR push_bit 32 (ucast hi)) }"

text \<open>A clock update of a live node also goes into the properties.\<close>

definition clock_update :: "pod \<Rightarrow> stream \<Rightarrow> stream option" where
  "clock_update cmd s = do {
     flags \<leftarrow> pod_word cmd 136;
     _ \<leftarrow> (if flags AND 1 \<noteq> 0 then pod_long cmd 152 else Some 0);
     ticks \<leftarrow> pod_long cmd 56;
     rate \<leftarrow> pod_word cmd 40;
     monotonic \<leftarrow> pod_long cmd 72;
     Some (s\<lparr>st_last_ticks := ticks, st_last_rate := rate, st_last_monotonic := monotonic\<rparr>) }"

definition handle_node_command :: "transport_types \<Rightarrow> stream_app \<Rightarrow> u32 \<Rightarrow> pod \<Rightarrow> stream \<Rightarrow> stream option" where
  "handle_node_command tt app seq cmd s = do {
     t \<leftarrow> SPA_EVENT_TYPE cmd;
     if t = tt_Pause tt
     then do {
       s1 \<leftarrow> add_async_complete tt seq SPA_RESULT_OK s;
       if st_state s1 = STREAM_STREAMING
       then do { s2 \<leftarrow> update_rt_mask (IO_ERR OR IO_HUP) s1; stream_set_state tt app STREAM_PAUSED s2 }
       else Some s1 }
     else if t = tt_Start tt
     then do {
       s1 \<leftarrow> add_async_complete tt seq SPA_RESULT_OK s;
       if st_state s1 = STREAM_PAUSED
       then do {
         s2 \<leftarrow> update_rt_mask (IO_IN OR IO_ERR OR IO_HUP) s1;
         s3 \<leftarrow> (if st_direction s2 = SPA_DIRECTION_INPUT then Some s2 else emit_need_buffer tt app s2);
         stream_set_state tt app STREAM_STREAMING s3 }
       else Some s1 }
     else if t = tt_ClockUpdate tt then clock_update cmd s
     else add_async_complete tt seq SPA_RESULT_NOT_IMPLEMENTED s }"

definition client_node_done :: "transport_types \<Rightarrow> stream_app \<Rightarrow> int \<Rightarrow> int \<Rightarrow> stream \<Rightarrow> stream option" where
  "client_node_done tt app rfd wfd s = do {
     s1 \<leftarrow> do_node_init tt (handle_socket rfd wfd s);
     stream_set_state tt app STREAM_CONFIGURE s1 }"

definition client_node_set_format :: "transport_types \<Rightarrow> stream_app \<Rightarrow> u32 \<Rightarrow> pod option \<Rightarrow> stream \<Rightarrow> stream option" where
  "client_node_set_format tt app seq fmt s = do {
     s1 \<leftarrow> emit tt app (Sig_format_changed fmt) (s\<lparr>st_format := fmt, st_pending_seq := seq\<rparr>);
     stream_set_state tt app (if fmt \<noteq> None then STREAM_READY else STREAM_CONFIGURE) s1 }"

subsection \<open>Buffers\<close>

definition loc_add :: "shm_loc \<Rightarrow> u64 \<Rightarrow> shm_loc" where
  "loc_add l off = (fst l, snd l + off)"

text \<open>Mapping the memory of a buffer, when it is not mapped; \<open>mmap_ok\<close> is the answer of the kernel.\<close>

definition map_mem :: "(mem_id \<Rightarrow> bool) \<Rightarrow> nat \<Rightarrow> stream \<Rightarrow> (shm_loc \<times> stream) option" where
  "map_mem mmap_ok k s =
     (let m = st_mem_ids s ! k in
      case mi_ptr m of
        Some l \<Rightarrow> Some (l, s)
      | None \<Rightarrow>
          if \<not> mmap_ok m then None
          else let l = (mi_fd m, ucast (mi_offset m)) in Some (l, s\<lparr>st_mem_ids := (st_mem_ids s)[k := m\<lparr>mi_ptr := Some l\<rparr>]\<rparr>))"

fun map_metas :: "shm_loc \<Rightarrow> u64 \<Rightarrow> (u32 \<times> u32) list \<Rightarrow> (u32 \<times> u32 \<times> shm_loc) list \<times> u64" where
  "map_metas base off [] = ([], off)"
| "map_metas base off ((t, sz) # ms) =
     (case map_metas base (off + ucast sz) ms of (ms', off') \<Rightarrow> ((t, sz, loc_add base off) # ms', off'))"

text \<open>The data blocks; an unknown memory id is a null pointer. The file descriptor of other types was not sent.\<close>

fun map_datas ::
  "transport_types \<Rightarrow> stream \<Rightarrow> shm_loc \<Rightarrow> u64 \<Rightarrow> (u32 \<times> u32 \<times> u32 \<times> u32 \<times> u32) list \<Rightarrow> stream_data list option" where
  "map_datas tt s base off [] = Some []"
| "map_datas tt s base off ((t, d, fl, mo, sz) # ds) = do {
     let chunk = loc_add base off;
     x \<leftarrow> (if t = tt_Id tt
           then do {
             k \<leftarrow> find_mem s d;
             Some \<lparr>dt_type = tt_MemFd tt, dt_flags = fl, dt_fd = Some (mi_fd (st_mem_ids s ! k)), dt_mapoffset = mo, dt_maxsize = sz,
                   dt_data = Ptr_null, dt_chunk = chunk\<rparr> }
           else if t = tt_MemPtr tt
           then Some \<lparr>dt_type = t, dt_flags = fl, dt_fd = Some (- 1), dt_mapoffset = mo, dt_maxsize = sz,
                      dt_data = Ptr_at (loc_add base (scast d)), dt_chunk = chunk\<rparr>
           else Some \<lparr>dt_type = t, dt_flags = fl, dt_fd = None, dt_mapoffset = mo, dt_maxsize = sz, dt_data = Ptr_raw d,
                      dt_chunk = chunk\<rparr>);
     xs \<leftarrow> map_datas tt s base (off + 12) ds;
     Some (x # xs) }"

text \<open>A new element of the array. When it moves, the links of the list \<^verbatim>\<open>free\<close> must not be in it.\<close>

definition add_buffer_id :: "buffer_id \<Rightarrow> stream \<Rightarrow> stream option" where
  "add_buffer_id b s = do {
     (_, arr) \<leftarrow> pinos_array_add (\<lambda>_. True) (st_buffer_array s) sizeof_BufferId;
     if arr_alloc arr \<noteq> arr_alloc (st_buffer_array s) \<and> st_free s \<noteq> [] then None
     else Some (s\<lparr>st_buffer_ids := st_buffer_ids s @ [b], st_buffer_array := arr\<rparr>) }"

definition use_one_buffer ::
  "transport_types \<Rightarrow> stream_app \<Rightarrow> (mem_id \<Rightarrow> bool) \<Rightarrow> node_buffer \<Rightarrow> stream \<Rightarrow> stream option" where
  "use_one_buffer tt app mmap_ok nb s =
     (case find_mem s (nb_mem_id nb) of
        None \<Rightarrow> Some s
      | Some k \<Rightarrow>
          (case map_mem mmap_ok k s of
             None \<Rightarrow> Some s
           | Some (base, s1) \<Rightarrow> do {
               let n = length (st_buffer_ids s1);
               let p = loc_add base (ucast (nb_offset nb));
               let (metas, off) = map_metas p 0 (nb_metas nb);
               datas \<leftarrow> map_datas tt s1 p off (nb_datas nb);
               s2 \<leftarrow> add_buffer_id \<lparr>bi_id = nb_id nb, bi_used = (st_direction s1 \<noteq> SPA_DIRECTION_OUTPUT), bi_ptr = p,
                 bi_buf = \<lparr>sb_id = nb_id nb, sb_metas = metas, sb_datas = datas\<rparr>\<rparr> s1;
               s3 \<leftarrow> (if st_direction s1 = SPA_DIRECTION_OUTPUT then free_append n s2 else Some s2);
               emit tt app (Sig_add_buffer (nb_id nb)) (if nb_id nb \<noteq> of_nat n then s3\<lparr>st_in_order := False\<rparr> else s3) }))"

fun use_buffer_list ::
  "transport_types \<Rightarrow> stream_app \<Rightarrow> (mem_id \<Rightarrow> bool) \<Rightarrow> node_buffer list \<Rightarrow> stream \<Rightarrow> stream option" where
  "use_buffer_list tt app mmap_ok [] s = Some s"
| "use_buffer_list tt app mmap_ok (nb # nbs) s = do {
     s1 \<leftarrow> use_one_buffer tt app mmap_ok nb s;
     use_buffer_list tt app mmap_ok nbs s1 }"

definition client_node_use_buffers ::
  "transport_types \<Rightarrow> stream_app \<Rightarrow> (mem_id \<Rightarrow> bool) \<Rightarrow> u32 \<Rightarrow> node_buffer list \<Rightarrow> stream \<Rightarrow> stream option" where
  "client_node_use_buffers tt app mmap_ok seq buffers s = do {
     s1 \<leftarrow> use_buffer_list tt app mmap_ok buffers (stream_clear_buffers s);
     s2 \<leftarrow> add_async_complete tt seq SPA_RESULT_OK s1;
     if buffers \<noteq> [] then stream_set_state tt app STREAM_PAUSED s2
     else stream_set_state tt app STREAM_READY (clear_mems s2) }"

definition client_node_transport :: "transport_mem option \<Rightarrow> int \<Rightarrow> u32 \<Rightarrow> u32 \<Rightarrow> stream \<Rightarrow> stream" where
  "client_node_transport mapped memfd off sz s =
     (if memfd = - 1 then s
      else s\<lparr>st_trans := pinos_transport_new_from_info True mapped \<lparr>ti_memfd = memfd, ti_offset = off, ti_size = sz\<rparr>,
              st_mem := (case mapped of Some m \<Rightarrow> m | None \<Rightarrow> st_mem s)\<rparr>)"

text \<open>The table of the events; adding and removing ports, properties and port commands are only logged.\<close>

definition client_node_dispatch ::
  "transport_types \<Rightarrow> stream_app \<Rightarrow> (mem_id \<Rightarrow> bool) \<Rightarrow> transport_mem option \<Rightarrow> server_event \<Rightarrow> stream \<Rightarrow> stream option" where
  "client_node_dispatch tt app mmap_ok mapped msg s =
     (case msg of
        Node_done rfd wfd \<Rightarrow> client_node_done tt app rfd wfd s
      | Node_set_format seq d p flags fmt \<Rightarrow> client_node_set_format tt app seq fmt s
      | Node_add_mem d p i t fd flags off sz \<Rightarrow> stream_add_mem i fd flags off sz s
      | Node_use_buffers seq d p buffers \<Rightarrow> client_node_use_buffers tt app mmap_ok seq buffers s
      | Node_node_command seq cmd \<Rightarrow> handle_node_command tt app seq cmd s
      | Node_transport fd off sz \<Rightarrow> Some (client_node_transport mapped fd off sz s)
      | _ \<Rightarrow> Some s)"

section \<open>Connecting\<close>

definition on_node_proxy_destroy :: "transport_types \<Rightarrow> stream_app \<Rightarrow> stream \<Rightarrow> stream option" where
  "on_node_proxy_destroy tt app s =
     stream_set_state tt app STREAM_UNCONNECTED (s\<lparr>st_disconnecting := False, st_node_proxy := False\<rparr>)"

text \<open>\<open>proxy_ok\<close>: whether \<^verbatim>\<open>pinos_proxy_new\<close> delivers a proxy.\<close>

definition pinos_stream_connect ::
  "transport_types \<Rightarrow> stream_app \<Rightarrow> bool \<Rightarrow> bool \<Rightarrow> pod list \<Rightarrow> stream \<Rightarrow> (bool \<times> stream) option" where
  "pinos_stream_connect tt app proxy_ok inp formats s = do {
     s1 \<leftarrow> stream_set_state tt app STREAM_CONNECTING
       (s\<lparr>st_direction := (if inp then SPA_DIRECTION_INPUT else SPA_DIRECTION_OUTPUT), st_port_id := 0, st_possible_formats := formats\<rparr>);
     Some (proxy_ok, s1\<lparr>st_node_proxy := proxy_ok\<rparr>) }"

definition pinos_stream_disconnect :: "stream \<Rightarrow> stream option" where
  "pinos_stream_disconnect s = call_node_proxy Client_node_destroy (unhandle_socket (s\<lparr>st_disconnecting := True\<rparr>))"

definition sdiv_u64 :: "u64 \<Rightarrow> int \<Rightarrow> u64" where
  "sdiv_u64 a n = word_of_int (sint a sdiv n)"

text \<open>The time of the stream at the monotonic time \<open>now\<close>: ticks and rate.\<close>

definition pinos_stream_get_time :: "u64 \<Rightarrow> stream \<Rightarrow> u64 \<times> u32" where
  "pinos_stream_get_time now s =
     (let elapsed = sdiv_u64 (now - st_last_monotonic s) 1000 in
      (st_last_ticks s + sdiv_u64 (elapsed * scast (st_last_rate s)) 1000000, st_last_rate s))"

end
