(* ===== verification/Pinos_Stream_Flow.thy ===== *)
theory Pinos_Stream_Flow
  imports Pinos_Stream "HOL-Library.Multiset"
begin

text \<open>
  A client node and the stream at its other end, in one session after the buffers are agreed on: the memory of the
  transport is one, every handler and call is one step, and the steps of both sides interleave. The graph holds the
  buffers of \<open>se_held\<close>. Shown: on an output stream no step fails and every buffer is in at most one place, when the inputs
  that a buffer is pushed to are done with it when they return.
\<close>

section \<open>Sessions\<close>

record session =
  se_proxy :: spa_proxy
  se_stream :: stream
  se_held :: "u32 list"

definition on_stream :: "(stream \<Rightarrow> stream option) \<Rightarrow> session \<Rightarrow> session option" where
  "on_stream f se = do {
     s \<leftarrow> f ((se_stream se)\<lparr>st_mem := px_mem (se_proxy se)\<rparr>);
     Some (se\<lparr>se_stream := s, se_proxy := (se_proxy se)\<lparr>px_mem := st_mem s\<rparr>\<rparr>) }"

definition valid_id :: "u32 \<Rightarrow> u32 list" where
  "valid_id b = (if b = SPA_ID_INVALID then [] else [b])"

text \<open>As in \<open>do_pull\<close>: the graph puts the io of the input into that of the output, asks for output and takes it.\<close>

definition sv_pull :: "transport_types \<Rightarrow> u32 \<Rightarrow> spa_result \<Rightarrow> session \<Rightarrow> session option" where
  "sv_pull tt b st se = do {
     let px = se_proxy se;
     a \<leftarrow> pp_io (px_out_ports px ! 0);
     (_, px1) \<leftarrow> spa_proxy_node_process_output tt
       (px\<lparr>px_ios := (px_ios px)(a := (px_ios px a)\<lparr>io_status := st, io_buffer_id := b\<rparr>)\<rparr>);
     Some (se\<lparr>se_proxy := px1, se_held := remove1 b (se_held se) @ valid_id (io_buffer_id (px_ios px1 a))\<rparr>) }"

text \<open>\<open>on_node_have_output\<close> for a node with one port: the buffer of its io is given to the input of every link, one after
  the other. An input may keep the buffer until it gives it back (a sink that queues it) or be done with it when
  \<open>process_input\<close> returns: \<open>keeps\<close> says which, one entry per link, and every input that keeps the buffer makes the graph hold
  it. Whatever the inputs do, the id stays in the io of the output port, where \<open>process_output\<close> finds it and reports the
  buffer as reusable.\<close>

definition sv_have_output :: "transport_types \<Rightarrow> bool list \<Rightarrow> session \<Rightarrow> session option" where
  "sv_have_output tt keeps se = do {
     let px = se_proxy se;
     a \<leftarrow> pp_io (px_out_ports px ! 0);
     let io = px_ios px a;
     let b = io_buffer_id io;
     let se1 = (if b = SPA_ID_INVALID then se
                else se\<lparr>se_proxy := px\<lparr>px_ios := (px_ios px)(a := io\<lparr>io_status := SPA_RESULT_NEED_BUFFER\<rparr>)\<rparr>,
                  se_held := se_held se @ map (\<lambda>_. b) (filter id keeps)\<rparr>);
     (_, px1) \<leftarrow> spa_proxy_node_process_output tt (se_proxy se1);
     Some (se1\<lparr>se_proxy := px1\<rparr>) }"

definition sv_event :: "transport_types \<Rightarrow> bool list \<Rightarrow> session \<Rightarrow> session option" where
  "sv_event tt keeps se = do {
     (ev, px1) \<leftarrow> px_next_event (se_proxy se);
     (case ev of
        None \<Rightarrow> Some (se\<lparr>se_proxy := px1\<rparr>)
      | Some e \<Rightarrow> do {
          (cb, px2) \<leftarrow> px_handle_node_event tt px1 e;
          let se1 = se\<lparr>se_proxy := px2\<rparr>;
          if cb = Some Cb_have_output then sv_have_output tt keeps se1 else Some se1 }) }"

definition sv_reuse :: "transport_types \<Rightarrow> u32 \<Rightarrow> session \<Rightarrow> session option" where
  "sv_reuse tt b se = do {
     (_, px) \<leftarrow> spa_proxy_node_port_reuse_buffer tt (se_proxy se) 0 b;
     Some (se\<lparr>se_proxy := px, se_held := remove1 b (se_held se)\<rparr>) }"

definition sv_command :: "transport_types \<Rightarrow> pod \<Rightarrow> session \<Rightarrow> session option" where
  "sv_command tt cmd se = do { (_, px) \<leftarrow> spa_proxy_node_send_command tt (se_proxy se) cmd; Some (se\<lparr>se_proxy := px\<rparr>) }"

text \<open>One turn of the loop of the stream, when its socket is listened to.\<close>

definition cl_event :: "transport_types \<Rightarrow> stream_app \<Rightarrow> stream \<Rightarrow> stream option" where
  "cl_event tt app s = do {
     io \<leftarrow> st_rt_mask s;
     if io AND IO_IN = 0 then Some s
     else do {
       (ev, s1) \<leftarrow> st_next_event s;
       case ev of None \<Rightarrow> Some s1 | Some e \<Rightarrow> handle_rtnode_event tt app e s1 } }"

text \<open>The oldest message of the protocol arrives.\<close>

definition cl_message :: "transport_types \<Rightarrow> stream_app \<Rightarrow> session \<Rightarrow> session option" where
  "cl_message tt app se =
     (case px_sent (se_proxy se) of
        [] \<Rightarrow> Some se
      | msg # rest \<Rightarrow>
          on_stream (client_node_dispatch tt app (\<lambda>_. True) None msg) (se\<lparr>se_proxy := (se_proxy se)\<lparr>px_sent := rest\<rparr>\<rparr>))"

datatype session_act =
    Sv_pull u32 spa_result
  | Sv_reuse u32
  | Sv_event "bool list"
  | Sv_command pod
  | Cl_event stream_app
  | Cl_message stream_app
  | Cl_send u32

definition session_step :: "transport_types \<Rightarrow> session_act \<Rightarrow> session \<Rightarrow> session option" where
  "session_step tt act se =
     (case act of
        Sv_pull b st \<Rightarrow> sv_pull tt b st se
      | Sv_reuse b \<Rightarrow> sv_reuse tt b se
      | Sv_event keeps \<Rightarrow> sv_event tt keeps se
      | Sv_command cmd \<Rightarrow> sv_command tt cmd se
      | Cl_event app \<Rightarrow> on_stream (cl_event tt app) se
      | Cl_message app \<Rightarrow> cl_message tt app se
      | Cl_send i \<Rightarrow> on_stream (\<lambda>s. map_option snd (pinos_stream_send_buffer tt i s)) se)"

text \<open>The graph gives back what it holds, and the inputs that a buffer is pushed to are done with it when they return (see
  \<open>sv_have_output\<close>: the code reports a pushed buffer as reusable whether or not they are); the commands are Start and Pause,
  the application of an output stream sends buffers, with any ids.\<close>

definition sends_only :: "stream_app \<Rightarrow> bool" where
  "sends_only app \<longleftrightarrow> (\<forall>sig. \<forall>c \<in> set (app sig). \<exists>i. c = Call_send_buffer i)"

definition session_allowed :: "transport_types \<Rightarrow> session_act \<Rightarrow> session \<Rightarrow> bool" where
  "session_allowed tt act se =
     (case act of
        Sv_pull b st \<Rightarrow> b = SPA_ID_INVALID \<or> b \<in> set (se_held se)
      | Sv_reuse b \<Rightarrow> b \<in> set (se_held se)
      | Sv_event keeps \<Rightarrow> True \<notin> set keeps
      | Sv_command cmd \<Rightarrow> cmd \<in> {SPA_EVENT_INIT (tt_Start tt), SPA_EVENT_INIT (tt_Pause tt)}
      | Cl_event app \<Rightarrow> sends_only app
      | Cl_message app \<Rightarrow> sends_only app
      | _ \<Rightarrow> True)"

inductive session_reach :: "transport_types \<Rightarrow> session \<Rightarrow> session \<Rightarrow> bool" for tt :: transport_types and se0 :: session where
  reach_start: "session_reach tt se0 se0"
| reach_step: "session_reach tt se0 se \<Longrightarrow> session_allowed tt act se \<Longrightarrow> session_step tt act se = Some se' \<Longrightarrow> session_reach tt se0 se'"

section \<open>The rings of events\<close>

definition ends_apart :: "pinos_transport \<Rightarrow> bool" where
  "ends_apart tr \<longleftrightarrow> input_buffer tr \<noteq> output_buffer tr \<and> input_data tr \<noteq> output_data tr"

definition rt_ring :: "ring \<Rightarrow> byte list list \<Rightarrow> bool" where
  "rt_ring r evs \<longleftrightarrow> rb_wf r \<and> rb_contents r = concat evs \<and> (\<forall>ev \<in> set evs. event_ok ev)"

lemma add_event_ring:
  assumes q: "rt_ring (out_ring tr m) evs" and ev: "event_ok ev" and apart: "ends_apart tr"
  obtains res m' evs' where "pinos_transport_add_event (Some tr) (Some ev) m = Some (res, m')"
    and "evs' = evs \<or> evs' = evs @ [ev]" and "rt_ring (out_ring tr m') evs'" and "in_ring tr m' = in_ring tr m"
    and "tm_io m' = tm_io m" and "tm_area m' = tm_area m"
proof (cases "length (rb_contents (out_ring tr m)) + length ev \<le> rb_capacity (out_ring tr m)")
  case True
  have wf: "rb_wf (out_ring tr m)" using q by (simp add: rt_ring_def)
  obtain rb' data' where put: "rb_put ev (out_ring tr m) = Some (rb', data')"
    and add: "pinos_transport_add_event (Some tr) (Some ev) m =
      Some (SPA_RESULT_OK, m\<lparr>tm_data := (tm_data m)(output_data tr := data'), tm_rb := (tm_rb m)(output_buffer tr := rb')\<rparr>)"
      (is "_ = Some (_, ?m)")
    using add_event_room [OF wf ev True] by auto
  have "out_ring tr ?m = (rb', data')" by (simp add: out_ring_def)
  moreover have "rb_wf (rb', data') \<and> rb_contents (rb', data') = rb_contents (out_ring tr m) @ ev"
    using ring.put_ok [OF wf True] put by auto
  ultimately have "rt_ring (out_ring tr ?m) (evs @ [ev])" using q ev by (auto simp: rt_ring_def)
  then show ?thesis using that [OF add, of "evs @ [ev]"] apart by (auto simp: in_ring_def ends_apart_def)
next
  case False
  then show ?thesis using that [OF add_event_full] q ev by (auto simp: rt_ring_def not_le)
qed

lemma no_event_ring:
  assumes "rt_ring (in_ring tr m) []"
  shows "pinos_transport_next_event (Some tr) True m =
    Some (SPA_RESULT_ENUM_END, Some (tr\<lparr>current_index := readindex (tm_rb m (input_buffer tr))\<rparr>), [])"
  using next_event_empty [of tr m] assms by (simp add: rt_ring_def)

lemma next_event_ring:
  assumes q: "rt_ring (in_ring tr m) (ev # evs)" and apart: "ends_apart tr"
  obtains tr' m' where "pinos_transport_next_event (Some tr) True m = Some (SPA_RESULT_OK, Some tr', take sizeof_SpaEvent ev)"
    and "pinos_transport_parse_event (Some tr') True m = Some (SPA_RESULT_OK, m', ev)"
    and "tr' = tr\<lparr>current_index := current_index tr', current := current tr'\<rparr>"
    and "rt_ring (in_ring tr m') evs" and "out_ring tr m' = out_ring tr m" and "tm_io m' = tm_io m" and "tm_area m' = tm_area m"
proof -
  let ?tr = "tr\<lparr>current_index := readindex (tm_rb m (input_buffer tr)), current := take sizeof_SpaEvent ev\<rparr>"
  let ?m = "m\<lparr>tm_rb := (tm_rb m)(input_buffer tr := fst (rb_skip (length ev) (in_ring tr m)))\<rparr>"
  have c: "rb_wf (in_ring tr m)" "rb_contents (in_ring tr m) = ev @ concat evs" "event_ok ev" "\<forall>e \<in> set evs. event_ok e"
    using q by (auto simp: rt_ring_def)
  have "pinos_transport_next_event (Some tr) True m = Some (SPA_RESULT_OK, Some ?tr, take sizeof_SpaEvent ev)"
    using next_event_some [OF c(1-3)] by simp
  moreover have "pinos_transport_parse_event (Some ?tr) True m = Some (SPA_RESULT_OK, ?m, ev)"
    using parse_event_some [of ?tr m ev "concat evs"] c by simp
  moreover have "rt_ring (in_ring tr ?m) evs"
    using ring.skip_prefix [OF c(1,2)] c(4) by (simp add: rt_ring_def in_ring_skip)
  moreover have "out_ring tr ?m = out_ring tr m" using apart by (simp add: out_ring_def ends_apart_def)
  ultimately show ?thesis by (intro that [of ?tr ?m]) auto
qed

section \<open>Events\<close>

lemma reuse_event [simp]:
  "SPA_EVENT_TYPE (REUSE_BUFFER_INIT t p b) = Some t"
  "pod_word (REUSE_BUFFER_INIT t p b) 24 = Some p" "pod_word (REUSE_BUFFER_INIT t p b) 36 = Some b"
  using rd32_le32 [of b "[]"]
  by (simp_all add: SPA_EVENT_TYPE_def REUSE_BUFFER_INIT_def SPA_EVENT_INIT_COMPLEX_def pod_word_def SPA_POD_INT_INIT_def drop_append)

lemma plain_event [simp]: "SPA_EVENT_TYPE (SPA_EVENT_INIT t) = Some t"
  using rd32_le32 [of t "[]"]
  by (simp add: SPA_EVENT_TYPE_def SPA_EVENT_INIT_def SPA_EVENT_INIT_COMPLEX_def pod_word_def drop_append)

lemma events_ok [simp]: "event_ok (SPA_EVENT_INIT t)" "event_ok (REUSE_BUFFER_INIT t p b)"
  by (simp_all add: event_ok_def SPA_EVENT_INIT_def REUSE_BUFFER_INIT_def SPA_EVENT_INIT_COMPLEX_def SPA_POD_INT_INIT_def)

definition reuse_ids :: "transport_types \<Rightarrow> byte list list \<Rightarrow> u32 list" where
  "reuse_ids tt evs = concat (map (\<lambda>e. if SPA_EVENT_TYPE e = Some (tt_ReuseBuffer tt) then [the (pod_word e 36)] else []) evs)"

lemma reuse_ids_simps [simp]:
  "reuse_ids tt [] = []" "reuse_ids tt (evs @ evs') = reuse_ids tt evs @ reuse_ids tt evs'"
  "reuse_ids tt (e # evs) = (if SPA_EVENT_TYPE e = Some (tt_ReuseBuffer tt) then [the (pod_word e 36)] else []) @ reuse_ids tt evs"
  by (simp_all add: reuse_ids_def)

section \<open>Every buffer in one place\<close>

text \<open>The two ends of a transport, as seen from the end \<open>ts\<close> of the server.\<close>

definition two_ends :: "pinos_transport \<Rightarrow> pinos_transport \<Rightarrow> bool" where
  "two_ends ts tc \<longleftrightarrow> ends_apart ts \<and> input_buffer tc = output_buffer ts \<and> input_data tc = output_data ts \<and>
     output_buffer tc = input_buffer ts \<and> output_data tc = input_data ts \<and> tr_outputs tc = tr_outputs ts"

lemma two_ends_rings:
  assumes "two_ends ts tc"
  shows "in_ring tc m = out_ring ts m" "out_ring tc m = in_ring ts m" "ends_apart tc" "tr_output tc i = tr_output ts i"
  using assms by (auto simp: two_ends_def in_ring_def out_ring_def ends_apart_def tr_output_def)

definition out_id :: "pinos_transport \<Rightarrow> transport_mem \<Rightarrow> u32" where
  "out_id ts m = io_buffer_id (tm_io m (tr_output ts 0))"

definition buffer_ids :: "nat \<Rightarrow> u32 set" where
  "buffer_ids n = of_nat ` {..<n}"

text \<open>The transport with the events \<open>evs\<close> to the client and \<open>evc\<close> to the server; the buffers are free (\<open>fr\<close>), in
  the io of the transport, on the way back to the client, or held by the graph.\<close>

definition flow_ok ::
  "transport_types \<Rightarrow> nat \<Rightarrow> pinos_transport \<Rightarrow> u32 list \<Rightarrow> u32 list \<Rightarrow> byte list list \<Rightarrow> byte list list \<Rightarrow> transport_mem \<Rightarrow> bool" where
  "flow_ok tt n ts fr held evs evc m \<longleftrightarrow>
     rt_ring (out_ring ts m) evs \<and> rt_ring (in_ring ts m) evc \<and>
     set evs \<subseteq> insert (SPA_EVENT_INIT (tt_NeedInput tt)) (range (REUSE_BUFFER_INIT (tt_ReuseBuffer tt) 0)) \<and>
     set evc \<subseteq> {SPA_EVENT_INIT (tt_HaveOutput tt)} \<and>
     max_outputs (tm_area m) \<noteq> 0 \<and> n_outputs (tm_area m) = 1 \<and>
     distinct (fr @ valid_id (out_id ts m) @ reuse_ids tt evs @ held) \<and>
     set (fr @ valid_id (out_id ts m) @ reuse_ids tt evs @ held) \<subseteq> buffer_ids n"

definition stream_ok :: "nat \<Rightarrow> pinos_transport \<Rightarrow> stream \<Rightarrow> bool" where
  "stream_ok n ts s \<longleftrightarrow>
     st_direction s = SPA_DIRECTION_OUTPUT \<and> st_port_id s = 0 \<and> st_in_order s \<and> length (st_buffer_ids s) = n \<and>
     (\<forall>k < n. bi_id (st_buffer_ids s ! k) = of_nat k) \<and> distinct (st_free s) \<and> set (st_free s) = {k. k < n \<and> \<not> bi_used (st_buffer_ids s ! k)} \<and>
     (\<exists>tc. st_trans s = Some tc \<and> two_ends ts tc)"

definition free_ids :: "stream \<Rightarrow> u32 list" where
  "free_ids s = map of_nat (st_free s)"

definition client_ok ::
  "transport_types \<Rightarrow> nat \<Rightarrow> pinos_transport \<Rightarrow> u32 list \<Rightarrow> byte list list \<Rightarrow> stream \<Rightarrow> bool" where
  "client_ok tt n ts held evs s \<longleftrightarrow> stream_ok n ts s \<and> (\<exists>evc. flow_ok tt n ts (free_ids s) held evs evc (st_mem s))"

lemma client_okI:
  "stream_ok n ts s \<Longrightarrow> flow_ok tt n ts (free_ids s) held evs evc (st_mem s) \<Longrightarrow> client_ok tt n ts held evs s"
  by (auto simp: client_ok_def)

lemma client_okE:
  assumes "client_ok tt n ts held evs s"
  obtains evc tc where "stream_ok n ts s" and "flow_ok tt n ts (free_ids s) held evs evc (st_mem s)"
    and "st_trans s = Some tc" and "two_ends ts tc"
  using assms by (auto simp: client_ok_def stream_ok_def)

text \<open>What the handlers of a session leave alone.\<close>

definition same_setup :: "stream \<Rightarrow> stream \<Rightarrow> bool" where
  "same_setup s s' \<longleftrightarrow> st_node_proxy s' = st_node_proxy s \<and> st_rt_mask s' = st_rt_mask s \<and> st_state s' = st_state s"

lemma same_setup_refl [simp]: "same_setup s s"
  and same_setup_trans: "same_setup s s1 \<Longrightarrow> same_setup s1 s2 \<Longrightarrow> same_setup s s2"
  by (auto simp: same_setup_def)

lemma buffer_id_nth:
  assumes "n < 2 ^ 32" and "i \<in> buffer_ids n"
  shows "unat i < n" "of_nat (unat i) = i"
  using assms by (auto simp: buffer_ids_def unat_of_nat take_bit_nat_eq_self)

lemma find_buffer_ok: "stream_ok n ts s \<Longrightarrow> unat i < n \<Longrightarrow> find_buffer s i = Some (unat i)"
  by (simp add: find_buffer_def stream_ok_def)

lemma find_buffer_Some:
  assumes "stream_ok n ts s" and "n < 2 ^ 32" and "find_buffer s i = Some k"
  shows "k < n" and "i = of_nat k"
  using assms by (auto simp: find_buffer_def stream_ok_def find_Some_iff split: if_splits)

lemma free_ids_iff:
  assumes "stream_ok n ts s" and "n < 2 ^ 32" and "k < n"
  shows "of_nat k \<in> set (free_ids s) \<longleftrightarrow> \<not> bi_used (st_buffer_ids s ! k)"
proof -
  have "of_nat k \<in> set (free_ids s) \<longleftrightarrow> (\<exists>j < n. \<not> bi_used (st_buffer_ids s ! j) \<and> (of_nat k :: u32) = of_nat j)"
    using assms(1) by (auto simp: free_ids_def stream_ok_def)
  moreover have "j < n \<Longrightarrow> (of_nat k :: u32) = of_nat j \<longleftrightarrow> k = j" for j
    using assms(2,3) by (auto simp: word_of_nat_eq_iff take_bit_nat_eq_self)
  ultimately show ?thesis using assms(3) by auto
qed

lemma set_tr_io_simps [simp]:
  "out_ring tr (set_tr_io a io m) = out_ring tr m" "in_ring tr (set_tr_io a io m) = in_ring tr m"
  "tm_area (set_tr_io a io m) = tm_area m" "tm_io (set_tr_io a io m) = (tm_io m)(a := io)"
  by (simp_all add: set_tr_io_def out_ring_def in_ring_def)

lemma valid_id_simps [simp]: "valid_id SPA_ID_INVALID = []" "b \<noteq> SPA_ID_INVALID \<Longrightarrow> valid_id b = [b]"
  by (simp_all add: valid_id_def)

lemma sub_mset_distinct:
  assumes "mset xs \<subseteq># mset ys" and "distinct ys" and "set ys \<subseteq> A"
  shows "distinct xs" and "set xs \<subseteq> A"
proof -
  obtain rest where "mset ys = mset xs + mset rest" using assms(1) by (metis mset_subset_eq_exists_conv ex_mset)
  then have "mset ys = mset (xs @ rest)" by simp
  then have "distinct (xs @ rest)" "set (xs @ rest) \<subseteq> A" using assms(2,3) mset_eq_imp_distinct_iff mset_eq_setD by metis+
  then show "distinct xs" "set xs \<subseteq> A" by simp_all
qed

lemmas flow_ok_places = flow_ok_def [THEN iffD1, THEN conjunct2, THEN conjunct2, THEN conjunct2, THEN conjunct2, THEN conjunct2, THEN conjunct2]

text \<open>Buffers change places.\<close>

lemma flow_ok_move:
  assumes ok: "flow_ok tt n ts fr held evs evc m"
    and same: "out_ring ts m' = out_ring ts m" "in_ring ts m' = in_ring ts m" "tm_area m' = tm_area m"
    and toks: "mset (fr' @ valid_id (out_id ts m') @ held') \<subseteq># mset (fr @ valid_id (out_id ts m) @ held)"
  shows "flow_ok tt n ts fr' held' evs evc m'"
proof -
  let ?new = "fr' @ valid_id (out_id ts m') @ reuse_ids tt evs @ held'"
    and ?old = "fr @ valid_id (out_id ts m) @ reuse_ids tt evs @ held"
  have "mset (fr' @ valid_id (out_id ts m') @ held') + mset (reuse_ids tt evs) \<subseteq>#
      mset (fr @ valid_id (out_id ts m) @ held) + mset (reuse_ids tt evs)"
    using toks by (rule subset_mset.add_right_mono)
  then have sub: "mset ?new \<subseteq># mset ?old" by (simp add: ac_simps)
  have "distinct ?old" "set ?old \<subseteq> buffer_ids n" using flow_ok_places [OF ok] by simp_all
  note sub_mset_distinct [OF sub this]
  moreover have "rt_ring (out_ring ts m) evs" "rt_ring (in_ring ts m) evc"
      "set evs \<subseteq> insert (SPA_EVENT_INIT (tt_NeedInput tt)) (range (REUSE_BUFFER_INIT (tt_ReuseBuffer tt) 0))"
      "set evc \<subseteq> {SPA_EVENT_INIT (tt_HaveOutput tt)}" "max_outputs (tm_area m) \<noteq> 0" "n_outputs (tm_area m) = 1"
    using ok unfolding flow_ok_def by blast+
  ultimately show ?thesis unfolding flow_ok_def same by blast
qed

lemma flow_ok_client_event:
  assumes ok: "flow_ok tt n ts fr held evs evc m" and ends: "two_ends ts tc"
  obtains res m' evc' where "pinos_transport_add_event (Some tc) (Some (SPA_EVENT_INIT (tt_HaveOutput tt))) m = Some (res, m')"
    and "flow_ok tt n ts fr held evs evc' m'" and "tm_io m' = tm_io m" and "tm_area m' = tm_area m"
proof -
  let ?ev = "SPA_EVENT_INIT (tt_HaveOutput tt)"
  have q: "rt_ring (out_ring tc m) evc" using ok two_ends_rings [OF ends] by (simp add: flow_ok_def)
  obtain res m' evc' where add: "pinos_transport_add_event (Some tc) (Some ?ev) m = Some (res, m')"
    and e: "evc' = evc \<or> evc' = evc @ [?ev]" and r: "rt_ring (out_ring tc m') evc'" "in_ring tc m' = in_ring tc m"
    and m: "tm_io m' = tm_io m" "tm_area m' = tm_area m"
    using add_event_ring [OF q events_ok(1) two_ends_rings(3) [OF ends]] by blast
  have "set evc' \<subseteq> {?ev}" using ok e by (auto simp: flow_ok_def)
  then have "flow_ok tt n ts fr held evs evc' m'"
    using ok r m two_ends_rings(1,2) [OF ends] by (auto simp: flow_ok_def out_id_def)
  then show ?thesis using that add m by blast
qed

lemma flow_ok_server_event:
  assumes ok: "flow_ok tt n ts fr held evs evc m" and apart: "ends_apart ts" and types: "tt_NeedInput tt \<noteq> tt_ReuseBuffer tt"
    and ev: "ev = SPA_EVENT_INIT (tt_NeedInput tt) \<and> held' = held \<or>
      (\<exists>b. ev = REUSE_BUFFER_INIT (tt_ReuseBuffer tt) 0 b \<and> mset held = add_mset b (mset held'))"
  obtains res m' evs' where "pinos_transport_add_event (Some ts) (Some ev) m = Some (res, m')"
    and "flow_ok tt n ts fr held' evs' evc m'" and "tm_io m' = tm_io m" and "tm_area m' = tm_area m"
proof -
  have q: "rt_ring (out_ring ts m) evs" using ok by (simp add: flow_ok_def)
  have "event_ok ev" using ev by auto
  then obtain res m' evs' where add: "pinos_transport_add_event (Some ts) (Some ev) m = Some (res, m')"
    and e: "evs' = evs \<or> evs' = evs @ [ev]" and r: "rt_ring (out_ring ts m') evs'" "in_ring ts m' = in_ring ts m"
    and m: "tm_io m' = tm_io m" "tm_area m' = tm_area m"
    using add_event_ring [OF q _ apart] by metis
  have form: "set evs' \<subseteq> insert (SPA_EVENT_INIT (tt_NeedInput tt)) (range (REUSE_BUFFER_INIT (tt_ReuseBuffer tt) 0))"
    using ok e ev by (auto simp: flow_ok_def)
  have out: "out_id ts m' = out_id ts m" using m by (simp add: out_id_def)
  let ?toks = "\<lambda>es h. fr @ valid_id (out_id ts m) @ reuse_ids tt es @ h"
  have "mset (?toks evs' held') \<subseteq># mset (?toks evs held)"
  proof -
    have "mset (reuse_ids tt evs' @ held') \<subseteq># mset (reuse_ids tt evs @ held)"
      using e ev types by auto
    then show ?thesis using subset_mset.add_left_mono by force
  qed
  moreover have "distinct (?toks evs held)" "set (?toks evs held) \<subseteq> buffer_ids n" using flow_ok_places [OF ok] by simp_all
  ultimately have "distinct (?toks evs' held')" "set (?toks evs' held') \<subseteq> buffer_ids n" by (rule sub_mset_distinct)+
  then have "flow_ok tt n ts fr held' evs' evc m'"
    using ok r m form out by (simp add: flow_ok_def)
  then show ?thesis using that add m by blast
qed

section \<open>The client\<close>

lemma stream_ok_upd [simp]:
  "stream_ok n ts (s\<lparr>st_mem := m\<rparr>) = stream_ok n ts s" "stream_ok n ts (s\<lparr>st_wakeups := w\<rparr>) = stream_ok n ts s"
  "stream_ok n ts (s\<lparr>st_signals := sg\<rparr>) = stream_ok n ts s" "stream_ok n ts (s\<lparr>st_in_need_buffer := b\<rparr>) = stream_ok n ts s"
  "stream_ok n ts (s\<lparr>st_rt_mask := io\<rparr>) = stream_ok n ts s" "stream_ok n ts (s\<lparr>st_state := st\<rparr>) = stream_ok n ts s"
  "stream_ok n ts (s\<lparr>st_sent := x\<rparr>) = stream_ok n ts s"
  by (simp_all add: stream_ok_def)

lemma free_ids_upd [simp]:
  "free_ids (s\<lparr>st_mem := m\<rparr>) = free_ids s" "free_ids (s\<lparr>st_wakeups := w\<rparr>) = free_ids s" "free_ids (s\<lparr>st_signals := sg\<rparr>) = free_ids s"
  "free_ids (s\<lparr>st_in_need_buffer := b\<rparr>) = free_ids s" "free_ids (s\<lparr>st_rt_mask := io\<rparr>) = free_ids s" "free_ids (s\<lparr>st_state := st\<rparr>) = free_ids s"
  "free_ids (s\<lparr>st_sent := x\<rparr>) = free_ids s"
  by (simp_all add: free_ids_def)

lemma client_ok_upd [simp]:
  "client_ok tt n ts held evs (s\<lparr>st_signals := sg\<rparr>) = client_ok tt n ts held evs s"
  "client_ok tt n ts held evs (s\<lparr>st_in_need_buffer := b\<rparr>) = client_ok tt n ts held evs s"
  "client_ok tt n ts held evs (s\<lparr>st_rt_mask := io\<rparr>) = client_ok tt n ts held evs s"
  "client_ok tt n ts held evs (s\<lparr>st_state := st\<rparr>) = client_ok tt n ts held evs s"
  "client_ok tt n ts held evs (s\<lparr>st_sent := x\<rparr>) = client_ok tt n ts held evs s"
  by (simp_all add: client_ok_def)

text \<open>Taking a free buffer out of the list, and putting one back.\<close>

lemma take_free:
  assumes ok: "stream_ok n ts s" and k: "k < n" "\<not> bi_used (st_buffer_ids s ! k)"
  obtains s' where "free_remove k (set_used k True s) = Some s'" and "stream_ok n ts s'" and "st_mem s' = st_mem s"
    and "mset (free_ids s) = add_mset (of_nat k) (mset (free_ids s'))" and "same_setup s s'"
    and "st_in_need_buffer s' = st_in_need_buffer s" and "st_trans s' = st_trans s"
proof -
  let ?s = "(set_used k True s)\<lparr>st_free := remove1 k (st_free s)\<rparr>"
  have mem: "k \<in> set (st_free s)" using ok k by (simp add: stream_ok_def)
  have "free_remove k (set_used k True s) = Some ?s" using mem by (simp add: free_remove_def set_used_def)
  moreover have "stream_ok n ts ?s"
    using ok k by (auto simp: stream_ok_def set_used_def nth_list_update)
  moreover have "mset (free_ids s) = add_mset (of_nat k) (mset (free_ids ?s))"
  proof -
    have "mset (st_free s) = add_mset k (mset (remove1 k (st_free s)))" using mem by simp
    then have "image_mset of_nat (mset (st_free s)) = add_mset (of_nat k) (image_mset of_nat (mset (remove1 k (st_free s))))"
      by (metis image_mset_add_mset)
    then show ?thesis by (simp add: free_ids_def)
  qed
  ultimately show ?thesis using that [of ?s] by (simp add: set_used_def same_setup_def)
qed

lemma put_free:
  assumes ok: "stream_ok n ts s" and k: "k < n" "bi_used (st_buffer_ids s ! k)"
  obtains s' where "free_append k (set_used k False s) = Some s'" and "stream_ok n ts s'" and "st_mem s' = st_mem s"
    and "mset (free_ids s') = add_mset (of_nat k) (mset (free_ids s))" and "same_setup s s'"
    and "st_in_need_buffer s' = st_in_need_buffer s" and "st_trans s' = st_trans s"
proof -
  let ?s = "(set_used k False s)\<lparr>st_free := st_free s @ [k]\<rparr>"
  have mem: "k \<notin> set (st_free s)" using ok k by (simp add: stream_ok_def)
  have "free_append k (set_used k False s) = Some ?s" using mem by (simp add: free_append_def set_used_def)
  moreover have "stream_ok n ts ?s"
    using ok k mem by (auto simp: stream_ok_def set_used_def nth_list_update)
  ultimately show ?thesis using that [of ?s] by (simp add: set_used_def free_ids_def same_setup_def)
qed

lemma out_place:
  assumes "st_trans s = Some tc" and "two_ends ts tc" and "flow_ok tt n ts fr held evs evc (st_mem s)"
  shows "get_tr_output (st_trans s) (st_mem s) 0 = Some (tr_output ts 0)"
  using assms by (simp add: get_tr_output_def flow_ok_def two_ends_rings unat_gt_0)

lemma small_ids:
  assumes "k < n" and "n < 2 ^ 32"
  shows "(of_nat k :: u32) \<noteq> SPA_ID_INVALID"
proof -
  have "unat (of_nat k :: u32) = k" using assms by (simp add: unat_of_nat take_bit_nat_eq_self)
  moreover have "unat (SPA_ID_INVALID :: u32) = 2 ^ 32 - 1" by simp
  ultimately show ?thesis using assms by (metis Suc_diff_1 less_antisym not_less_eq zero_less_power zero_less_numeral less_Suc_eq_le leD)
qed

text \<open>Sending: when the io is taken nothing happens; otherwise a free buffer moves into it.\<close>

lemma send_blocked:
  assumes "get_tr_output (st_trans s) (st_mem s) 0 = Some (tr_output ts 0)" and "out_id ts (st_mem s) \<noteq> SPA_ID_INVALID"
  shows "pinos_stream_send_buffer tt i s = Some (False, s)"
  using assms by (simp add: pinos_stream_send_buffer_def out_id_def)

lemma send_ok:
  assumes ok: "client_ok tt n ts held evs s" and n: "n < 2 ^ 32"
  obtains b s' where "pinos_stream_send_buffer tt i s = Some (b, s')" and "client_ok tt n ts held evs s'"
    and "same_setup s s'" and "st_in_need_buffer s' = st_in_need_buffer s"
proof -
  obtain evc tc where st: "stream_ok n ts s" and fl: "flow_ok tt n ts (free_ids s) held evs evc (st_mem s)"
    and tc: "st_trans s = Some tc" and ends: "two_ends ts tc"
    using ok by (rule client_okE)
  note place = out_place [OF tc ends fl]
  show ?thesis
  proof (cases "out_id ts (st_mem s) = SPA_ID_INVALID \<and> (\<exists>k. find_buffer s i = Some k \<and> \<not> bi_used (st_buffer_ids s ! k))")
    case False
    then have "\<exists>b. pinos_stream_send_buffer tt i s = Some (b, s)"
      using place by (auto simp: pinos_stream_send_buffer_def out_id_def split: option.split)
    then show ?thesis using that ok by auto
  next
    case True
    then obtain k where k: "find_buffer s i = Some k" "\<not> bi_used (st_buffer_ids s ! k)" and out: "out_id ts (st_mem s) = SPA_ID_INVALID"
      by auto
    have kn: "k < n" "i = of_nat k" using find_buffer_Some [OF st n k(1)] .
    obtain s1 where s1: "free_remove k (set_used k True s) = Some s1" "stream_ok n ts s1" "st_mem s1 = st_mem s"
        "mset (free_ids s) = add_mset (of_nat k) (mset (free_ids s1))" "same_setup s s1"
        "st_in_need_buffer s1 = st_in_need_buffer s" "st_trans s1 = st_trans s"
      using take_free [OF st kn(1) k(2)] by blast
    let ?m = "set_tr_io (tr_output ts 0) ((tm_io (st_mem s) (tr_output ts 0))\<lparr>io_buffer_id := i, io_status := SPA_RESULT_HAVE_BUFFER\<rparr>) (st_mem s)"
    let ?s2 = "s1\<lparr>st_mem := ?m\<rparr>"
    have i: "i \<noteq> SPA_ID_INVALID" using small_ids [OF kn(1) n] kn(2) by simp
    have outm: "out_id ts ?m = i" by (simp add: out_id_def)
    have fl2: "flow_ok tt n ts (free_ids s1) held evs evc ?m"
    proof (rule flow_ok_move [OF fl])
      show "mset (free_ids s1 @ valid_id (out_id ts ?m) @ held) \<subseteq># mset (free_ids s @ valid_id (out_id ts (st_mem s)) @ held)"
        unfolding outm out using i s1(4) kn(2) by simp
    qed simp_all
    have send: "pinos_stream_send_buffer tt i s = do {
        s3 \<leftarrow> (if st_in_need_buffer s then Some ?s2 else st_send_have_output tt ?s2); Some (True, s3) }"
      using place out k s1(1,3,6) by (simp add: pinos_stream_send_buffer_def out_id_def)
    obtain res m' evc' where add: "pinos_transport_add_event (Some tc) (Some (SPA_EVENT_INIT (tt_HaveOutput tt))) ?m = Some (res, m')"
      and fl3: "flow_ok tt n ts (free_ids s1) held evs evc' m'"
      using flow_ok_client_event [OF fl2 ends] by metis
    let ?s3 = "s1\<lparr>st_mem := m', st_wakeups := st_wakeups s1 + 1\<rparr>"
    have c2: "client_ok tt n ts held evs ?s2" using s1(2) fl2 by (intro client_okI) simp_all
    have c3: "client_ok tt n ts held evs ?s3" using s1(2) fl3 by (intro client_okI) simp_all
    have ev: "st_send_have_output tt ?s2 = Some ?s3"
      using add s1(7) tc by (simp add: st_send_have_output_def st_add_event_def)
    have same: "same_setup s ?s2" "same_setup s ?s3" "st_in_need_buffer ?s2 = st_in_need_buffer s"
        "st_in_need_buffer ?s3 = st_in_need_buffer s"
      using s1(5,6) by (simp_all add: same_setup_def)
    show ?thesis
    proof (cases "st_in_need_buffer s")
      case True
      then have "pinos_stream_send_buffer tt i s = Some (True, ?s2)" unfolding send by simp
      then show ?thesis using c2 same(1,3) by (rule that)
    next
      case False
      then have "pinos_stream_send_buffer tt i s = Some (True, ?s3)" unfolding send ev by simp
      then show ?thesis using c3 same(2,4) by (rule that)
    qed
  qed
qed

lemma calls_ok:
  assumes "client_ok tt n ts held evs s" and n: "n < 2 ^ 32" and "\<forall>c \<in> set cs. \<exists>i. c = Call_send_buffer i"
  shows "\<exists>s'. stream_do_calls tt cs s = Some s' \<and> client_ok tt n ts held evs s' \<and> same_setup s s'"
  using assms(1,3)
proof (induction cs arbitrary: s)
  case (Cons c cs)
  obtain i where c: "c = Call_send_buffer i" using Cons.prems(2) by auto
  obtain b s1 where s1: "pinos_stream_send_buffer tt i s = Some (b, s1)" "client_ok tt n ts held evs s1" "same_setup s s1"
    using send_ok [OF Cons.prems(1) n] by metis
  then obtain s2 where "stream_do_calls tt cs s1 = Some s2" "client_ok tt n ts held evs s2" "same_setup s1 s2"
    using Cons.IH [of s1] Cons.prems(2) by auto
  then show ?case using s1 c same_setup_trans by (auto simp: stream_do_call_def)
qed simp

lemma calls_blocked:
  assumes "get_tr_output (st_trans s) (st_mem s) 0 = Some (tr_output ts 0)" and "out_id ts (st_mem s) \<noteq> SPA_ID_INVALID"
    and "\<forall>c \<in> set cs. \<exists>i. c = Call_send_buffer i"
  shows "stream_do_calls tt cs s = Some s"
  using assms(3)
proof (induction cs)
  case (Cons c cs)
  then obtain i where "c = Call_send_buffer i" by auto
  then show ?case using Cons send_blocked [OF assms(1,2)] by (simp add: stream_do_call_def)
qed simp

lemma emit_ok:
  assumes "client_ok tt n ts held evs s" and "n < 2 ^ 32" and "sends_only app"
  obtains s' where "emit tt app sig s = Some s'" and "client_ok tt n ts held evs s'" and "same_setup s s'"
proof -
  have "client_ok tt n ts held evs (s\<lparr>st_signals := st_signals s @ [sig]\<rparr>)" using assms(1) by simp
  from calls_ok [OF this assms(2), of "app sig"] assms(3)
  obtain s' where "stream_do_calls tt (app sig) (s\<lparr>st_signals := st_signals s @ [sig]\<rparr>) = Some s'"
      "client_ok tt n ts held evs s'" "same_setup (s\<lparr>st_signals := st_signals s @ [sig]\<rparr>) s'"
    by (auto simp: sends_only_def)
  then show ?thesis using that by (simp add: emit_def same_setup_def)
qed

lemma set_state_ok:
  assumes "client_ok tt n ts held evs s" and "n < 2 ^ 32" and "sends_only app"
  obtains s' where "stream_set_state tt app st s = Some s'" and "client_ok tt n ts held evs s'"
    and "st_node_proxy s' = st_node_proxy s" and "st_rt_mask s' = st_rt_mask s"
proof (cases "st_state s = st")
  case False
  obtain s' where "emit tt app (Sig_state_changed st) (s\<lparr>st_state := st\<rparr>) = Some s'" "client_ok tt n ts held evs s'"
      "same_setup (s\<lparr>st_state := st\<rparr>) s'"
    using emit_ok [of tt n ts held evs "s\<lparr>st_state := st\<rparr>"] assms by auto
  then show ?thesis using that False by (simp add: stream_set_state_def same_setup_def)
qed (use that assms(1) in \<open>auto simp: stream_set_state_def\<close>)

lemma need_buffer_ok:
  assumes "client_ok tt n ts held evs s" and "n < 2 ^ 32" and "sends_only app"
  obtains s' where "emit_need_buffer tt app s = Some s'" and "client_ok tt n ts held evs s'" and "same_setup s s'"
proof -
  obtain s' where "emit tt app Sig_need_buffer (s\<lparr>st_in_need_buffer := True\<rparr>) = Some s'" "client_ok tt n ts held evs s'"
      "same_setup (s\<lparr>st_in_need_buffer := True\<rparr>) s'"
    using emit_ok [of tt n ts held evs "s\<lparr>st_in_need_buffer := True\<rparr>"] assms by auto
  then show ?thesis using that [of "s'\<lparr>st_in_need_buffer := False\<rparr>"] by (simp add: emit_need_buffer_def same_setup_def)
qed

text \<open>A buffer that is nowhere else becomes free again.\<close>

lemma reuse_finds:
  assumes st: "stream_ok n ts s" and n: "n < 2 ^ 32" and b: "b \<in> buffer_ids n" "b \<notin> set (free_ids s)"
  shows "find_buffer s b = Some (unat b)" and "unat b < n" and "bi_used (st_buffer_ids s ! unat b)"
  using buffer_id_nth [OF n b(1)] find_buffer_ok [OF st] free_ids_iff [OF st n, of "unat b"] b(2) by auto

lemma reuse_ok:
  assumes ok: "client_ok tt n ts (b # held) evs s" and n: "n < 2 ^ 32" and app: "sends_only app"
  obtains s' where "stream_reuse_buffer tt app b s = Some s'" and "client_ok tt n ts held evs s'" and "same_setup s s'"
proof -
  obtain evc tc where st: "stream_ok n ts s" and fl: "flow_ok tt n ts (free_ids s) (b # held) evs evc (st_mem s)"
    using ok by (rule client_okE)
  have b: "b \<in> buffer_ids n" "b \<notin> set (free_ids s)" using flow_ok_places [OF fl] by auto
  note found = reuse_finds [OF st n b]
  obtain s1 where s1: "free_append (unat b) (set_used (unat b) False s) = Some s1" "stream_ok n ts s1" "st_mem s1 = st_mem s"
      "mset (free_ids s1) = add_mset (of_nat (unat b)) (mset (free_ids s))" "same_setup s s1"
    using put_free [OF st found(2,3)] by metis
  have "flow_ok tt n ts (free_ids s1) held evs evc (st_mem s1)"
    by (rule flow_ok_move [OF fl]) (use s1(3,4) in \<open>simp_all add: ucast_id\<close>)
  then have "client_ok tt n ts held evs s1" using s1(2) by (intro client_okI)
  then obtain s' where "emit tt app (Sig_new_buffer b) s1 = Some s'" "client_ok tt n ts held evs s'" "same_setup s1 s'"
    using emit_ok [OF _ n app] by metis
  then show ?thesis using that found(1,3) s1(1,5) same_setup_trans by (auto simp: stream_reuse_buffer_def)
qed

text \<open>A buffer that the server has not fetched comes back from the io; what is sent in the signal is refused.\<close>

lemma reuse_outputs_ok:
  assumes ok: "client_ok tt n ts held evs s" and n: "n < 2 ^ 32" and app: "sends_only app"
  obtains s' where "reuse_outputs tt app [0] s = Some s'" and "client_ok tt n ts held evs s'" and "same_setup s s'"
proof -
  obtain evc tc where st: "stream_ok n ts s" and fl: "flow_ok tt n ts (free_ids s) held evs evc (st_mem s)"
    and tc: "st_trans s = Some tc" and ends: "two_ends ts tc"
    using ok by (rule client_okE)
  note place = out_place [OF tc ends fl]
  let ?b = "out_id ts (st_mem s)"
  show ?thesis
  proof (cases "?b = SPA_ID_INVALID")
    case True
    then show ?thesis using that [of s] place ok by (simp add: out_id_def)
  next
    case False
    have b: "?b \<in> buffer_ids n" "?b \<notin> set (free_ids s)" using flow_ok_places [OF fl] False by auto
    note found = reuse_finds [OF st n b]
    obtain s1 where s1: "free_append (unat ?b) (set_used (unat ?b) False s) = Some s1" "stream_ok n ts s1" "st_mem s1 = st_mem s"
        "mset (free_ids s1) = add_mset (of_nat (unat ?b)) (mset (free_ids s))" "same_setup s s1" "st_trans s1 = st_trans s"
      using put_free [OF st found(2,3)] by metis
    let ?s2 = "s1\<lparr>st_signals := st_signals s1 @ [Sig_new_buffer ?b]\<rparr>"
    have "stream_do_calls tt (app (Sig_new_buffer ?b)) ?s2 = Some ?s2"
      by (rule calls_blocked [of _ ts]) (use place s1 False app in \<open>simp_all add: sends_only_def\<close>)
    then have "stream_reuse_buffer tt app ?b s = Some ?s2"
      using found(1,3) s1(1) by (simp add: stream_reuse_buffer_def emit_def)
    then have run: "reuse_outputs tt app [0] s = Some (clear_io_id (tr_output ts 0) ?s2)"
      using place False by (simp add: out_id_def)
    let ?m = "st_mem (clear_io_id (tr_output ts 0) ?s2)"
    have out: "out_id ts ?m = SPA_ID_INVALID" by (simp add: clear_io_id_def out_id_def)
    have "flow_ok tt n ts (free_ids s1) held evs evc ?m"
    proof (rule flow_ok_move [OF fl])
      show "mset (free_ids s1 @ valid_id (out_id ts ?m) @ held) \<subseteq># mset (free_ids s @ valid_id ?b @ held)"
        unfolding out using s1(4) False by (simp add: ucast_id)
    qed (simp_all add: clear_io_id_def s1(3))
    then have "client_ok tt n ts held evs (clear_io_id (tr_output ts 0) ?s2)"
      using s1(2) by (intro client_okI) (simp_all add: clear_io_id_def)
    then show ?thesis using that [OF run] s1(5) by (simp add: same_setup_def clear_io_id_def)
  qed
qed

lemma need_input_ok:
  assumes ok: "client_ok tt n ts held evs s" and n: "n < 2 ^ 32" and app: "sends_only app"
    and types: "tt_NeedInput tt \<noteq> tt_HaveOutput tt"
  obtains s' where "handle_rtnode_event tt app (SPA_EVENT_INIT (tt_NeedInput tt)) s = Some s'" and "client_ok tt n ts held evs s'"
    and "same_setup s s'"
proof -
  have base: "st_trans s \<noteq> None" "n_outputs (tm_area (st_mem s)) = 1"
    using ok by (auto simp: client_ok_def stream_ok_def flow_ok_def)
  obtain s1 where s1: "reuse_outputs tt app [0] s = Some s1" "client_ok tt n ts held evs s1" "same_setup s s1"
    using reuse_outputs_ok [OF ok n app] by metis
  obtain s2 where s2: "emit_need_buffer tt app s1 = Some s2" "client_ok tt n ts held evs s2" "same_setup s1 s2"
    using need_buffer_ok [OF s1(2) n app] by metis
  have "handle_rtnode_event tt app (SPA_EVENT_INIT (tt_NeedInput tt)) s = Some s2"
    using base s1(1) s2(1) types by (auto simp: handle_rtnode_event_def)
  then show ?thesis using that s2(2) same_setup_trans [OF s1(3) s2(3)] by blast
qed

lemma reuse_event_ok:
  assumes ok: "client_ok tt n ts (b # held) evs s" and n: "n < 2 ^ 32" and app: "sends_only app"
    and types: "tt_ReuseBuffer tt \<noteq> tt_HaveOutput tt" "tt_ReuseBuffer tt \<noteq> tt_NeedInput tt"
  obtains s' where "handle_rtnode_event tt app (REUSE_BUFFER_INIT (tt_ReuseBuffer tt) 0 b) s = Some s'"
    and "client_ok tt n ts held evs s'" and "same_setup s s'"
proof -
  have "st_port_id s = 0 \<and> st_direction s = SPA_DIRECTION_OUTPUT" using ok by (simp add: client_ok_def stream_ok_def)
  then have "handle_rtnode_event tt app (REUSE_BUFFER_INIT (tt_ReuseBuffer tt) 0 b) s = stream_reuse_buffer tt app b s"
    using types by (simp add: handle_rtnode_event_def)
  then show ?thesis using reuse_ok [OF ok n app] that by metis
qed

definition types_ok :: "transport_types \<Rightarrow> bool" where
  "types_ok tt \<longleftrightarrow> distinct [tt_HaveOutput tt, tt_NeedInput tt, tt_ReuseBuffer tt]"

text \<open>One turn of the receive loop of the stream.\<close>

lemma client_next:
  assumes ok: "client_ok tt n ts held (e # evs) s"
  obtains s1 where "st_next_event s = Some (Some e, s1)" and "same_setup s s1"
    and "client_ok tt n ts (reuse_ids tt [e] @ held) evs s1"
proof -
  obtain evc tc where st: "stream_ok n ts s" and fl: "flow_ok tt n ts (free_ids s) held (e # evs) evc (st_mem s)"
    and tc: "st_trans s = Some tc" and ends: "two_ends ts tc"
    using ok by (rule client_okE)
  have q: "rt_ring (in_ring tc (st_mem s)) (e # evs)" using fl two_ends_rings [OF ends] by (simp add: flow_ok_def)
  obtain tc' m' where nx: "pinos_transport_next_event (Some tc) True (st_mem s) = Some (SPA_RESULT_OK, Some tc', take sizeof_SpaEvent e)"
    and ps: "pinos_transport_parse_event (Some tc') True (st_mem s) = Some (SPA_RESULT_OK, m', e)"
    and tc': "tc' = tc\<lparr>current_index := current_index tc', current := current tc'\<rparr>"
    and r: "rt_ring (in_ring tc m') evs" "out_ring tc m' = out_ring tc (st_mem s)" and io: "tm_io m' = tm_io (st_mem s)"
    and area: "tm_area m' = tm_area (st_mem s)"
    using next_event_ring [OF q two_ends_rings(3) [OF ends]] by metis
  let ?s1 = "s\<lparr>st_trans := Some tc', st_mem := m'\<rparr>"
  have "two_ends ts tc'" using ends by (subst tc') (simp add: two_ends_def)
  then have "stream_ok n ts ?s1" using st by (simp add: stream_ok_def)
  moreover have "flow_ok tt n ts (free_ids s) (reuse_ids tt [e] @ held) evs evc m'"
  proof -
    have "distinct (free_ids s @ valid_id (out_id ts m') @ reuse_ids tt evs @ reuse_ids tt [e] @ held)"
        "set (free_ids s @ valid_id (out_id ts m') @ reuse_ids tt evs @ reuse_ids tt [e] @ held) \<subseteq> buffer_ids n"
      using flow_ok_places [OF fl] io by (auto simp: out_id_def)
    then show ?thesis
      unfolding flow_ok_def using fl r area two_ends_rings(1,2) [OF ends] by (simp add: flow_ok_def)
  qed
  ultimately have "client_ok tt n ts (reuse_ids tt [e] @ held) evs ?s1" by (intro client_okI) (simp_all add: free_ids_def)
  then show ?thesis using that [of ?s1] nx ps tc by (simp add: st_next_event_def same_setup_def)
qed

lemma client_no_next:
  assumes ok: "client_ok tt n ts held [] s"
  obtains s1 where "st_next_event s = Some (None, s1)" and "same_setup s s1" and "client_ok tt n ts held [] s1"
proof -
  obtain evc tc where st: "stream_ok n ts s" and fl: "flow_ok tt n ts (free_ids s) held [] evc (st_mem s)"
    and tc: "st_trans s = Some tc" and ends: "two_ends ts tc"
    using ok by (rule client_okE)
  let ?tc = "tc\<lparr>current_index := readindex (tm_rb (st_mem s) (input_buffer tc))\<rparr>"
  have "rt_ring (in_ring tc (st_mem s)) []" using fl two_ends_rings [OF ends] by (simp add: flow_ok_def)
  note no_event_ring [OF this]
  moreover have "two_ends ts ?tc" using ends by (simp add: two_ends_def)
  then have "client_ok tt n ts held [] (s\<lparr>st_trans := Some ?tc\<rparr>)"
    using st fl by (intro client_okI [where evc = evc]) (simp_all add: stream_ok_def free_ids_def)
  ultimately show ?thesis using that tc by (simp add: st_next_event_def same_setup_def)
qed

lemma cl_event_ok:
  assumes ok: "client_ok tt n ts held evs s" and n: "n < 2 ^ 32" and app: "sends_only app" and types: "types_ok tt"
    and mask: "st_rt_mask s \<noteq> None"
  obtains s' evs' where "cl_event tt app s = Some s'" and "client_ok tt n ts held evs' s'" and "same_setup s s'"
proof -
  obtain io where io: "st_rt_mask s = Some io" using mask by auto
  show ?thesis
  proof (cases "io AND IO_IN = 0")
    case True
    then show ?thesis using that [of s evs] io ok by (simp add: cl_event_def)
  next
    case False
    show ?thesis
    proof (cases evs)
      case Nil
      then obtain s1 where "st_next_event s = Some (None, s1)" "same_setup s s1" "client_ok tt n ts held [] s1"
        using client_no_next ok by metis
      then show ?thesis using that io False by (simp add: cl_event_def)
    next
      case (Cons e es)
      obtain s1 where s1: "st_next_event s = Some (Some e, s1)" "same_setup s s1" "client_ok tt n ts (reuse_ids tt [e] @ held) es s1"
        using client_next ok Cons by metis
      have form: "e = SPA_EVENT_INIT (tt_NeedInput tt) \<or> (\<exists>b. e = REUSE_BUFFER_INIT (tt_ReuseBuffer tt) 0 b)"
        using ok Cons by (auto simp: client_ok_def flow_ok_def)
      have t: "tt_NeedInput tt \<noteq> tt_HaveOutput tt" "tt_ReuseBuffer tt \<noteq> tt_HaveOutput tt" "tt_ReuseBuffer tt \<noteq> tt_NeedInput tt"
        using types by (auto simp: types_ok_def)
      obtain s2 where "handle_rtnode_event tt app e s1 = Some s2" "client_ok tt n ts held es s2" "same_setup s1 s2"
      proof (cases "e = SPA_EVENT_INIT (tt_NeedInput tt)")
        case True
        then have "client_ok tt n ts held es s1" using s1(3) t(3) by simp
        then show ?thesis using need_input_ok [OF _ n app t(1)] that True by metis
      next
        case False
        then obtain b where "e = REUSE_BUFFER_INIT (tt_ReuseBuffer tt) 0 b" using form by auto
        then show ?thesis using s1(3) reuse_event_ok [OF _ n app t(2,3)] that by simp metis
      qed
      then show ?thesis using that io False s1(1,2) same_setup_trans by (simp add: cl_event_def)
    qed
  qed
qed

text \<open>Commands of the server.\<close>

lemma command_ok:
  assumes ok: "client_ok tt n ts held evs s" and n: "n < 2 ^ 32" and app: "sends_only app"
    and up: "st_node_proxy s" "st_rt_mask s \<noteq> None"
    and cmd: "cmd \<in> {SPA_EVENT_INIT (tt_Start tt), SPA_EVENT_INIT (tt_Pause tt)}"
  obtains s' where "handle_node_command tt app seq cmd s = Some s'" and "client_ok tt n ts held evs s'"
    and "st_node_proxy s'" and "st_rt_mask s' \<noteq> None"
proof -
  let ?c = "\<lambda>s. client_ok tt n ts held evs s \<and> st_node_proxy s \<and> st_rt_mask s \<noteq> None"
  let ?s1 = "s\<lparr>st_sent := st_sent s @ [Client_node_event (ASYNC_COMPLETE_INIT (tt_AsyncComplete tt) seq SPA_RESULT_OK)]\<rparr>"
  have a: "add_async_complete tt seq SPA_RESULT_OK s = Some ?s1"
    using up(1) by (simp add: add_async_complete_def call_node_proxy_def)
  have state: "?c x \<Longrightarrow> \<exists>s'. stream_set_state tt app st x = Some s' \<and> ?c s'" for st x
    using set_state_ok [OF _ n app, of tt ts held evs x st] by metis
  have mask: "\<exists>x. update_rt_mask io ?s1 = Some x \<and> ?c x \<and> st_direction x = st_direction s" for io
    using ok up by (simp add: update_rt_mask_def)
  have need: "?c x \<Longrightarrow> \<exists>s'. (if st_direction x = SPA_DIRECTION_INPUT then Some x else emit_need_buffer tt app x) = Some s' \<and> ?c s'" for x
  proof (cases "st_direction x = SPA_DIRECTION_INPUT")
    case False
    assume x: "?c x"
    obtain s' where "emit_need_buffer tt app x = Some s'" "client_ok tt n ts held evs s'" "same_setup x s'"
      using need_buffer_ok [OF _ n app] x by metis
    then show ?thesis using x False by (simp add: same_setup_def)
  qed simp
  have c1: "?c ?s1" using ok up by simp
  have "\<exists>s'. handle_node_command tt app seq cmd s = Some s' \<and> ?c s'"
  proof (cases "cmd = SPA_EVENT_INIT (tt_Pause tt)")
    case True
    obtain x where x: "update_rt_mask (IO_ERR OR IO_HUP) ?s1 = Some x" "?c x" using mask by blast
    obtain y where "stream_set_state tt app STREAM_PAUSED x = Some y" "?c y" using state [OF x(2)] by blast
    then show ?thesis using True a x(1) c1 by (simp add: handle_node_command_def)
  next
    case False
    then have cmd: "cmd = SPA_EVENT_INIT (tt_Start tt)" "tt_Start tt \<noteq> tt_Pause tt" using cmd by auto
    obtain x where x: "update_rt_mask (IO_IN OR IO_ERR OR IO_HUP) ?s1 = Some x" "?c x" using mask by blast
    obtain y where y: "(if st_direction x = SPA_DIRECTION_INPUT then Some x else emit_need_buffer tt app x) = Some y" "?c y"
      using need [OF x(2)] by blast
    obtain z where "stream_set_state tt app STREAM_STREAMING y = Some z" "?c z" using state [OF y(2)] by blast
    then show ?thesis using cmd a x(1) y(1) c1 by (simp add: handle_node_command_def)
  qed
  then show ?thesis using that by blast
qed

section \<open>The server\<close>

text \<open>A node with one output port, whose io area is at \<open>a\<close>.\<close>

definition proxy_ok :: "transport_types \<Rightarrow> pinos_transport \<Rightarrow> nat \<Rightarrow> spa_proxy \<Rightarrow> bool" where
  "proxy_ok tt ts a px \<longleftrightarrow> px_transport px = Some ts \<and> ends_apart ts \<and>
     (\<exists>p ps. px_out_ports px = p # ps \<and> pp_valid p \<and> pp_io p = Some a \<and> (\<forall>q \<in> set ps. pp_io q = None)) \<and>
     (\<forall>msg \<in> set (px_sent px). \<exists>seq cmd. msg = Node_node_command seq cmd \<and> cmd \<in> {SPA_EVENT_INIT (tt_Start tt), SPA_EVENT_INIT (tt_Pause tt)})"

lemma add_event_io:
  "pinos_transport_add_event tro (Some ev) (set_tr_io a io m) =
     map_option (\<lambda>(res, m'). (res, set_tr_io a io m')) (pinos_transport_add_event tro (Some ev) m)"
  by (simp add: pinos_transport_add_event_def set_tr_io_def Let_def split: option.split prod.split)

lemma no_io_ports:
  assumes "\<forall>q \<in> set ps. pp_io q = None"
  shows "px_swap_outputs tt i ps px = Some (False, False, px)" "px_pull_outputs i ps px = Some px"
  using assms by (induction ps arbitrary: i) auto

lemma process_output_ok:
  assumes px: "proxy_ok tt ts a px" and types: "types_ok tt"
    and fl: "flow_ok tt n ts fr (valid_id (io_buffer_id (px_ios px a)) @ held) evs evc
      (set_tr_io (tr_output ts 0) ((px_ios px a)\<lparr>io_buffer_id := SPA_ID_INVALID\<rparr>) (px_mem px))"
  obtains px' evs' where "spa_proxy_node_process_output tt px = Some (SPA_RESULT_HAVE_BUFFER, px')"
    and "flow_ok tt n ts fr held evs' evc (px_mem px')" and "px_ios px' a = tm_io (px_mem px) (tr_output ts 0)"
    and "proxy_ok tt ts a px'"
proof -
  let ?b = "io_buffer_id (px_ios px a)" and ?io = "(px_ios px a)\<lparr>io_buffer_id := SPA_ID_INVALID\<rparr>" and ?ti = "tr_output ts 0"
  let ?ios = "(px_ios px)(a := tm_io (px_mem px) ?ti)"
  have apart: "ends_apart ts" and tr: "px_transport px = Some ts" using px by (auto simp: proxy_ok_def)
  have max: "get_tr_output (Some ts) m' 0 = Some ?ti" if "tm_area m' = tm_area (px_mem px)" for m'
    using fl that by (simp add: get_tr_output_def flow_ok_def unat_gt_0)
  have t: "tt_NeedInput tt \<noteq> tt_ReuseBuffer tt" using types by (auto simp: types_ok_def)
  \<comment> \<open>The report of the buffer and the swap.\<close>
  obtain m1 evs1 where swap: "px_swap_output tt 0 a px =
      Some (io_status ?io = SPA_RESULT_NEED_BUFFER, ?b \<noteq> SPA_ID_INVALID, px\<lparr>px_mem := m1, px_ios := ?ios\<rparr>)"
    and fl1: "flow_ok tt n ts fr held evs1 evc m1"
  proof (cases "?b = SPA_ID_INVALID")
    case True
    then show ?thesis using that [of "set_tr_io ?ti ?io (px_mem px)" evs] fl tr max by (simp add: px_swap_output_def)
  next
    case False
    let ?ev = "REUSE_BUFFER_INIT (tt_ReuseBuffer tt) 0 ?b"
    have "mset (valid_id ?b @ held) = add_mset ?b (mset held)" using False by simp
    then obtain res m' evs' where add: "pinos_transport_add_event (Some ts) (Some ?ev) (set_tr_io ?ti ?io (px_mem px)) = Some (res, m')"
      and fl': "flow_ok tt n ts fr held evs' evc m'"
      using flow_ok_server_event [OF fl apart t, of ?ev held] by metis
    obtain m0 where m0: "pinos_transport_add_event (Some ts) (Some ?ev) (px_mem px) = Some (res, m0)" "m' = set_tr_io ?ti ?io m0"
      using add by (auto simp: add_event_io)
    obtain evs0 where "rt_ring (out_ring ts (px_mem px)) evs0" using fl by (auto simp: flow_ok_def)
    then have m0': "tm_io m0 = tm_io (px_mem px)" "tm_area m0 = tm_area (px_mem px)"
      using add_event_ring [OF _ events_ok(2) apart] m0(1) by (metis option.inject prod.inject)+
    show ?thesis
      using that [OF _ fl'] False m0 m0' tr max by (simp add: px_swap_output_def px_add_event_def)
  qed
  let ?px = "px\<lparr>px_mem := m1, px_ios := ?ios\<rparr>"
  have swaps: "px_swap_outputs tt 0 (px_out_ports px) px = Some (io_status ?io = SPA_RESULT_NEED_BUFFER, ?b \<noteq> SPA_ID_INVALID, ?px)"
    using px swap by (auto simp: proxy_ok_def no_io_ports)
  obtain res m2 evs2 where m2: "pinos_transport_add_event (Some ts) (Some (SPA_EVENT_INIT (tt_NeedInput tt))) m1 = Some (res, m2)"
      "flow_ok tt n ts fr held evs2 evc m2"
    using flow_ok_server_event [OF fl1 apart t, of "SPA_EVENT_INIT (tt_NeedInput tt)" held] by metis
  have need: "px_send_need_input tt ?px = Some (do_flush (?px\<lparr>px_mem := m2\<rparr>))"
    using m2(1) tr by (simp add: px_send_need_input_def px_add_event_def)
  have keep: "proxy_ok tt ts a (x\<lparr>px_mem := m, px_ios := io\<rparr>)" "proxy_ok tt ts a (do_flush (x\<lparr>px_mem := m, px_ios := io\<rparr>))"
      "proxy_ok tt ts a (do_flush (x\<lparr>px_ios := io, px_mem := m\<rparr>))"
    if "proxy_ok tt ts a x" for x m io using that by (simp_all add: proxy_ok_def do_flush_def)
  show ?thesis
  proof (cases "io_status ?io = SPA_RESULT_NEED_BUFFER")
    case True
    let ?px' = "do_flush (px\<lparr>px_ios := ?ios, px_mem := m2\<rparr>)"
    have "spa_proxy_node_process_output tt px = Some (SPA_RESULT_HAVE_BUFFER, ?px')"
      using True swaps need by (simp add: spa_proxy_node_process_output_def)
    then show ?thesis by (rule that [of _ evs2]) (simp_all add: m2(2) keep [OF px], simp_all add: do_flush_def m2(2))
  next
    case False
    let ?px' = "if ?b = SPA_ID_INVALID then ?px else do_flush ?px"
    have "spa_proxy_node_process_output tt px = Some (SPA_RESULT_HAVE_BUFFER, ?px')"
      using False swaps by (simp add: spa_proxy_node_process_output_def)
    then show ?thesis by (rule that [of _ evs1]) (use fl1 keep [OF px] in \<open>simp_all add: do_flush_def\<close>)
  qed
qed

lemma ends_upd [simp]:
  "out_ring (ts\<lparr>current_index := i, current := c\<rparr>) m = out_ring ts m" "ends_apart (ts\<lparr>current_index := i, current := c\<rparr>) = ends_apart ts"
  "tr_output (ts\<lparr>current_index := i, current := c\<rparr>) k = tr_output ts k" "two_ends (ts\<lparr>current_index := i, current := c\<rparr>) tc = two_ends ts tc"
  "out_id (ts\<lparr>current_index := i, current := c\<rparr>) m = out_id ts m"
  "flow_ok tt n (ts\<lparr>current_index := i, current := c\<rparr>) fr held evs evc m = flow_ok tt n ts fr held evs evc m"
  "stream_ok n (ts\<lparr>current_index := i, current := c\<rparr>) s = stream_ok n ts s"
proof -
  show *: "out_ring (ts\<lparr>current_index := i, current := c\<rparr>) m = out_ring ts m" "ends_apart (ts\<lparr>current_index := i, current := c\<rparr>) = ends_apart ts"
      "tr_output (ts\<lparr>current_index := i, current := c\<rparr>) k = tr_output ts k" "two_ends (ts\<lparr>current_index := i, current := c\<rparr>) tc = two_ends ts tc" for m k tc
    by (simp_all add: out_ring_def ends_apart_def tr_output_def two_ends_def)
  show o: "out_id (ts\<lparr>current_index := i, current := c\<rparr>) m = out_id ts m" by (simp add: out_id_def *)
  show "flow_ok tt n (ts\<lparr>current_index := i, current := c\<rparr>) fr held evs evc m = flow_ok tt n ts fr held evs evc m"
    by (simp add: flow_ok_def * o)
  show "stream_ok n (ts\<lparr>current_index := i, current := c\<rparr>) s = stream_ok n ts s" by (simp add: stream_ok_def *)
qed

definition session_inv :: "transport_types \<Rightarrow> nat \<Rightarrow> nat \<Rightarrow> session \<Rightarrow> bool" where
  "session_inv tt n a se \<longleftrightarrow> (\<exists>ts evs evc. proxy_ok tt ts a (se_proxy se) \<and> stream_ok n ts (se_stream se) \<and>
     flow_ok tt n ts (free_ids (se_stream se)) (se_held se) evs evc (px_mem (se_proxy se)) \<and>
     st_node_proxy (se_stream se) \<and> st_rt_mask (se_stream se) \<noteq> None)"

lemma session_invE:
  assumes "session_inv tt n a se"
  obtains ts evs evc where "proxy_ok tt ts a (se_proxy se)" and "stream_ok n ts (se_stream se)"
    and "flow_ok tt n ts (free_ids (se_stream se)) (se_held se) evs evc (px_mem (se_proxy se))"
    and "st_node_proxy (se_stream se)" and "st_rt_mask (se_stream se) \<noteq> None"
  using assms by (auto simp: session_inv_def)

lemma session_inv_at:
  assumes "proxy_ok tt ts a (se_proxy se)" and "stream_ok n ts (se_stream se)"
    and "flow_ok tt n ts (free_ids (se_stream se)) (se_held se) evs evc (px_mem (se_proxy se))"
    and "st_node_proxy (se_stream se)" and "st_rt_mask (se_stream se) \<noteq> None"
  shows "session_inv tt n a se"
  unfolding session_inv_def using assms by blast

lemma session_invI:
  assumes "proxy_ok tt ts a px" and "stream_ok n ts s" and "flow_ok tt n ts (free_ids s) held evs evc (px_mem px)"
    and "st_node_proxy s" and "st_rt_mask s \<noteq> None"
  shows "session_inv tt n a \<lparr>se_proxy = px, se_stream = s, se_held = held\<rparr>"
  using assms by (auto simp: session_inv_def)

lemma sv_pull_ok:
  assumes inv: "session_inv tt n a se" and types: "types_ok tt" and n: "n < 2 ^ 32" and b: "b = SPA_ID_INVALID \<or> b \<in> set (se_held se)"
  shows "\<exists>se'. sv_pull tt b st se = Some se' \<and> session_inv tt n a se'"
proof -
  obtain ts evs evc where px: "proxy_ok tt ts a (se_proxy se)" and st: "stream_ok n ts (se_stream se)"
    and fl: "flow_ok tt n ts (free_ids (se_stream se)) (se_held se) evs evc (px_mem (se_proxy se))"
    and up: "st_node_proxy (se_stream se)" "st_rt_mask (se_stream se) \<noteq> None"
    using inv by (rule session_invE)
  let ?px = "se_proxy se" and ?fr = "free_ids (se_stream se)" and ?held = "remove1 b (se_held se)"
  let ?io = "(px_ios ?px a)\<lparr>io_status := st, io_buffer_id := b\<rparr>"
  let ?pz = "?px\<lparr>px_ios := (px_ios ?px)(a := ?io)\<rparr>"
  let ?out = "valid_id (out_id ts (px_mem ?px))"
  have px0: "proxy_ok tt ts a ?pz" using px by (simp add: proxy_ok_def)
  have io: "pp_io (px_out_ports ?px ! 0) = Some a" using px by (auto simp: proxy_ok_def)
  have inv_id: "SPA_ID_INVALID \<notin> set (se_held se)"
    using flow_ok_places [OF fl] small_ids [OF _ n] by (auto simp: buffer_ids_def)
  let ?mz = "set_tr_io (tr_output ts 0) ((px_ios ?pz a)\<lparr>io_buffer_id := SPA_ID_INVALID\<rparr>) (px_mem ?pz)"
  have out0: "out_id ts ?mz = SPA_ID_INVALID" by (simp add: out_id_def)
  have "mset (?fr @ valid_id (out_id ts ?mz) @ valid_id (io_buffer_id (px_ios ?pz a)) @ ?out @ ?held) \<subseteq># mset (?fr @ ?out @ se_held se)"
    unfolding out0 by (cases "b = SPA_ID_INVALID") (use b inv_id in \<open>simp_all add: remove1_idem\<close>)
  from flow_ok_move [OF fl _ _ _ this]
  have "flow_ok tt n ts ?fr (valid_id (io_buffer_id (px_ios ?pz a)) @ ?out @ ?held) evs evc ?mz" by simp
  then obtain px' evs' where run: "spa_proxy_node_process_output tt ?pz = Some (SPA_RESULT_HAVE_BUFFER, px')"
    and fl': "flow_ok tt n ts ?fr (?out @ ?held) evs' evc (px_mem px')"
    and io': "px_ios px' a = tm_io (px_mem ?pz) (tr_output ts 0)" and px': "proxy_ok tt ts a px'"
    using process_output_ok [OF px0 types, of n ?fr "?out @ ?held"] by metis
  have id: "valid_id (io_buffer_id (px_ios px' a)) = ?out" using io' by (simp add: out_id_def)
  have "flow_ok tt n ts ?fr (?held @ ?out) evs' evc (px_mem px')"
    by (rule flow_ok_move [OF fl']) simp_all
  then have "session_inv tt n a \<lparr>se_proxy = px', se_stream = se_stream se, se_held = ?held @ ?out\<rparr>"
    by (rule session_invI [OF px' st _ up])
  moreover have "sv_pull tt b st se = Some \<lparr>se_proxy = px', se_stream = se_stream se, se_held = ?held @ ?out\<rparr>"
    using io run id by (cases se) (simp add: sv_pull_def)
  ultimately show ?thesis by blast
qed

lemma sv_have_output_ok:
  assumes px: "proxy_ok tt ts a (se_proxy se)" and types: "types_ok tt"
    and fl: "flow_ok tt n ts fr (se_held se) evs evc (px_mem (se_proxy se))"
    and io: "px_ios (se_proxy se) a = tm_io (px_mem (se_proxy se)) (tr_output ts 0)" and keeps: "True \<notin> set keeps"
  shows "\<exists>px' evs'. sv_have_output tt keeps se = Some (se\<lparr>se_proxy := px'\<rparr>) \<and> proxy_ok tt ts a px' \<and>
    flow_ok tt n ts fr (se_held se) evs' evc (px_mem px')"
proof -
  let ?q = "se_proxy se"
  let ?io = "px_ios ?q a"
  let ?px = "if io_buffer_id ?io = SPA_ID_INVALID then ?q else ?q\<lparr>px_ios := (px_ios ?q)(a := ?io\<lparr>io_status := SPA_RESULT_NEED_BUFFER\<rparr>)\<rparr>"
  have px1: "proxy_ok tt ts a ?px" using px by (simp add: proxy_ok_def)
  have p0: "pp_io (px_out_ports ?q ! 0) = Some a" using px by (auto simp: proxy_ok_def)
  have none: "filter id keeps = []" using keeps by (auto simp: filter_empty_conv)
  have b: "io_buffer_id (px_ios ?px a) = out_id ts (px_mem ?q)" using io by (simp add: out_id_def)
  let ?mz = "set_tr_io (tr_output ts 0) ((px_ios ?px a)\<lparr>io_buffer_id := SPA_ID_INVALID\<rparr>) (px_mem ?px)"
  have out0: "out_id ts ?mz = SPA_ID_INVALID" by (simp add: out_id_def)
  have "flow_ok tt n ts fr (valid_id (io_buffer_id (px_ios ?px a)) @ se_held se) evs evc ?mz"
  proof (rule flow_ok_move [OF fl])
    show "mset (fr @ valid_id (out_id ts ?mz) @ valid_id (io_buffer_id (px_ios ?px a)) @ se_held se) \<subseteq>#
        mset (fr @ valid_id (out_id ts (px_mem ?q)) @ se_held se)"
      unfolding out0 b by simp
  qed simp_all
  then obtain px' evs' where "spa_proxy_node_process_output tt ?px = Some (SPA_RESULT_HAVE_BUFFER, px')"
      "flow_ok tt n ts fr (se_held se) evs' evc (px_mem px')" "proxy_ok tt ts a px'"
    using process_output_ok [OF px1 types, of n fr "se_held se"] by metis
  moreover have "sv_have_output tt keeps se = map_option (\<lambda>(_, px'). se\<lparr>se_proxy := px'\<rparr>) (spa_proxy_node_process_output tt ?px)"
    using p0 none by (cases "spa_proxy_node_process_output tt ?px") (auto simp: sv_have_output_def Let_def)
  ultimately show ?thesis by auto
qed

lemma server_no_next:
  assumes px: "proxy_ok tt ts a px" and fl: "flow_ok tt n ts fr held evs [] (px_mem px)"
  obtains i c where "px_next_event px = Some (None, px\<lparr>px_transport := Some (ts\<lparr>current_index := i, current := c\<rparr>), px_mem := px_mem px\<rparr>)"
proof -
  let ?i = "readindex (tm_rb (px_mem px) (input_buffer ts))"
  have "rt_ring (in_ring ts (px_mem px)) []" using fl by (simp add: flow_ok_def)
  then have "px_next_event px = Some (None, px\<lparr>px_transport := Some (ts\<lparr>current_index := ?i, current := current ts\<rparr>), px_mem := px_mem px\<rparr>)"
    using no_event_ring [of ts "px_mem px"] px by (simp add: px_next_event_def proxy_ok_def)
  then show ?thesis by (rule that)
qed

lemma server_next:
  assumes px: "proxy_ok tt ts a px" and fl: "flow_ok tt n ts fr held evs (e # evc) (px_mem px)"
  obtains i c m where "px_next_event px = Some (Some e, px\<lparr>px_transport := Some (ts\<lparr>current_index := i, current := c\<rparr>), px_mem := m\<rparr>)"
    and "flow_ok tt n ts fr held evs evc m" and "tm_io m = tm_io (px_mem px)" and "tm_area m = tm_area (px_mem px)"
proof -
  have tr: "px_transport px = Some ts" "ends_apart ts" using px by (auto simp: proxy_ok_def)
  have q: "rt_ring (in_ring ts (px_mem px)) (e # evc)" using fl unfolding flow_ok_def by blast
  obtain ts' m where nx: "pinos_transport_next_event (Some ts) True (px_mem px) = Some (SPA_RESULT_OK, Some ts', take sizeof_SpaEvent e)"
    and ps: "pinos_transport_parse_event (Some ts') True (px_mem px) = Some (SPA_RESULT_OK, m, e)"
    and ts': "ts' = ts\<lparr>current_index := current_index ts', current := current ts'\<rparr>"
    and r: "rt_ring (in_ring ts m) evc" "out_ring ts m = out_ring ts (px_mem px)" "tm_io m = tm_io (px_mem px)" "tm_area m = tm_area (px_mem px)"
    using next_event_ring [OF q tr(2)] by metis
  have "flow_ok tt n ts fr held evs evc m"
    using fl r by (simp add: flow_ok_def out_id_def)
  moreover have "px_next_event px = Some (Some e, px\<lparr>px_transport := Some ts', px_mem := m\<rparr>)"
    using nx ps tr(1) by (simp add: px_next_event_def)
  ultimately show ?thesis using that r(3,4) ts' by metis
qed

lemma proxy_ok_next:
  "proxy_ok tt ts a px \<Longrightarrow> proxy_ok tt (ts\<lparr>current_index := i, current := c\<rparr>) a
     (px\<lparr>px_transport := Some (ts\<lparr>current_index := i, current := c\<rparr>), px_mem := m\<rparr>)"
  by (auto simp: proxy_ok_def)

lemma sv_event_ok:
  assumes inv: "session_inv tt n a se" and types: "types_ok tt" and keeps: "True \<notin> set keeps"
  shows "\<exists>se'. sv_event tt keeps se = Some se' \<and> session_inv tt n a se'"
proof -
  obtain ts evs evc where px: "proxy_ok tt ts a (se_proxy se)" and st: "stream_ok n ts (se_stream se)"
    and fl: "flow_ok tt n ts (free_ids (se_stream se)) (se_held se) evs evc (px_mem (se_proxy se))"
    and up: "st_node_proxy (se_stream se)" "st_rt_mask (se_stream se) \<noteq> None"
    using inv by (rule session_invE)
  show ?thesis
  proof (cases evc)
    case Nil
    obtain i c where nx: "px_next_event (se_proxy se) =
        Some (None, (se_proxy se)\<lparr>px_transport := Some (ts\<lparr>current_index := i, current := c\<rparr>), px_mem := px_mem (se_proxy se)\<rparr>)" (is "_ = Some (_, ?px1)")
      using server_no_next [OF px] fl Nil by metis
    let ?ts = "ts\<lparr>current_index := i, current := c\<rparr>"
    have "proxy_ok tt ?ts a ?px1" using proxy_ok_next [OF px] .
    moreover have "stream_ok n ?ts (se_stream se)" "flow_ok tt n ?ts (free_ids (se_stream se)) (se_held se) evs evc (px_mem ?px1)"
      using st fl by simp_all
    ultimately have "session_inv tt n a (se\<lparr>se_proxy := ?px1\<rparr>)"
      using up by (intro session_inv_at [where ts = ?ts]) simp_all
    moreover have "sv_event tt keeps se = Some (se\<lparr>se_proxy := ?px1\<rparr>)" using nx by (simp add: sv_event_def)
    ultimately show ?thesis by blast
  next
    case (Cons e es)
    obtain i c m where nx: "px_next_event (se_proxy se) =
        Some (Some e, (se_proxy se)\<lparr>px_transport := Some (ts\<lparr>current_index := i, current := c\<rparr>), px_mem := m\<rparr>)" (is "_ = Some (_, ?px1)")
      and fl1: "flow_ok tt n ts (free_ids (se_stream se)) (se_held se) evs es m"
      and m: "tm_io m = tm_io (px_mem (se_proxy se))" "tm_area m = tm_area (px_mem (se_proxy se))"
      using server_next [OF px] fl Cons by metis
    let ?ts = "ts\<lparr>current_index := i, current := c\<rparr>"
    have px1: "proxy_ok tt ?ts a ?px1" using proxy_ok_next [OF px] .
    have e: "e = SPA_EVENT_INIT (tt_HaveOutput tt)" using fl Cons by (auto simp: flow_ok_def)
    let ?px2 = "?px1\<lparr>px_ios := (px_ios ?px1)(a := tm_io m (tr_output ?ts 0))\<rparr>"
    have px2: "proxy_ok tt ?ts a ?px2" using px1 by (simp add: proxy_ok_def)
    have fl2: "flow_ok tt n ?ts (free_ids (se_stream se)) (se_held se) evs es (px_mem ?px2)" using fl1 by simp
    have "get_tr_output (Some ?ts) m 0 = Some (tr_output ?ts 0)"
      using fl1 by (simp add: get_tr_output_def flow_ok_def unat_gt_0)
    then have h: "px_handle_node_event tt ?px1 e = Some (Some Cb_have_output, ?px2)"
      using px1 e by (auto simp: px_handle_node_event_def proxy_ok_def no_io_ports)
    obtain px' evs' where out: "sv_have_output tt keeps (se\<lparr>se_proxy := ?px2\<rparr>) = Some (se\<lparr>se_proxy := px'\<rparr>)" "proxy_ok tt ?ts a px'"
        "flow_ok tt n ?ts (free_ids (se_stream se)) (se_held se) evs' es (px_mem px')"
      using sv_have_output_ok [of tt ?ts a "se\<lparr>se_proxy := ?px2\<rparr>" n "free_ids (se_stream se)" evs es keeps] px2 types fl2 keeps by auto
    have "sv_event tt keeps se = Some (se\<lparr>se_proxy := px'\<rparr>)" using nx h out(1) by (simp add: sv_event_def)
    moreover have "session_inv tt n a (se\<lparr>se_proxy := px'\<rparr>)"
      using st out(2,3) up by (intro session_inv_at [where ts = ?ts]) simp_all
    ultimately show ?thesis by blast
  qed
qed

lemma sv_reuse_ok:
  assumes inv: "session_inv tt n a se" and types: "types_ok tt" and b: "b \<in> set (se_held se)"
  shows "\<exists>se'. sv_reuse tt b se = Some se' \<and> session_inv tt n a se'"
proof -
  obtain ts evs evc where px: "proxy_ok tt ts a (se_proxy se)" and st: "stream_ok n ts (se_stream se)"
    and fl: "flow_ok tt n ts (free_ids (se_stream se)) (se_held se) evs evc (px_mem (se_proxy se))"
    and up: "st_node_proxy (se_stream se)" "st_rt_mask (se_stream se) \<noteq> None"
    using inv by (rule session_invE)
  have tr: "px_transport (se_proxy se) = Some ts" "ends_apart ts" "check_port (se_proxy se) SPA_DIRECTION_OUTPUT 0"
    using px by (auto simp: proxy_ok_def check_port_def check_port_id_def port_list_def)
  have t: "tt_NeedInput tt \<noteq> tt_ReuseBuffer tt" using types by (auto simp: types_ok_def)
  let ?ev = "REUSE_BUFFER_INIT (tt_ReuseBuffer tt) 0 b"
  have "mset (se_held se) = add_mset b (mset (remove1 b (se_held se)))" using b by simp
  then obtain res m evs' where m: "pinos_transport_add_event (Some ts) (Some ?ev) (px_mem (se_proxy se)) = Some (res, m)"
      "flow_ok tt n ts (free_ids (se_stream se)) (remove1 b (se_held se)) evs' evc m"
    using flow_ok_server_event [OF fl tr(2) t, of ?ev "remove1 b (se_held se)"] by metis
  let ?px = "(se_proxy se)\<lparr>px_mem := m\<rparr>"
  have "sv_reuse tt b se = Some (se\<lparr>se_proxy := ?px, se_held := remove1 b (se_held se)\<rparr>)"
    using m(1) tr by (simp add: sv_reuse_def spa_proxy_node_port_reuse_buffer_def px_add_event_def)
  moreover have "proxy_ok tt ts a ?px" using px by (simp add: proxy_ok_def)
  then have "session_inv tt n a (se\<lparr>se_proxy := ?px, se_held := remove1 b (se_held se)\<rparr>)"
    unfolding session_inv_def using st m(2) up by auto
  ultimately show ?thesis by blast
qed

lemma sv_command_ok:
  assumes inv: "session_inv tt n a se" and types: "types_ok tt"
    and cmd: "cmd \<in> {SPA_EVENT_INIT (tt_Start tt), SPA_EVENT_INIT (tt_Pause tt)}"
  shows "\<exists>se'. sv_command tt cmd se = Some se' \<and> session_inv tt n a se'"
proof -
  obtain ts evs evc where px: "proxy_ok tt ts a (se_proxy se)" and st: "stream_ok n ts (se_stream se)"
    and fl: "flow_ok tt n ts (free_ids (se_stream se)) (se_held se) evs evc (px_mem (se_proxy se))"
    and up: "st_node_proxy (se_stream se)" "st_rt_mask (se_stream se) \<noteq> None"
    using inv by (rule session_invE)
  have tr: "px_transport (se_proxy se) = Some ts" "ends_apart ts" using px by (auto simp: proxy_ok_def)
  have t: "tt_NeedInput tt \<noteq> tt_ReuseBuffer tt" using types by (auto simp: types_ok_def)
  let ?px1 = "notify [Node_node_command (px_seq (se_proxy se)) cmd] (se_proxy se)"
  have px1: "proxy_ok tt ts a ?px1" using px cmd by (auto simp: proxy_ok_def notify_def)
  obtain res m evs' where m: "pinos_transport_add_event (Some ts) (Some (SPA_EVENT_INIT (tt_NeedInput tt))) (px_mem (se_proxy se)) = Some (res, m)"
      "flow_ok tt n ts (free_ids (se_stream se)) (se_held se) evs' evc m"
    using flow_ok_server_event [OF fl tr(2) t, of "SPA_EVENT_INIT (tt_NeedInput tt)" "se_held se"] by metis
  have need: "px_send_need_input tt ?px1 = Some (do_flush (?px1\<lparr>px_mem := m\<rparr>))"
    using m(1) tr by (simp add: px_send_need_input_def px_add_event_def notify_def)
  have fin: "session_inv tt n a (se\<lparr>se_proxy := x\<lparr>px_seq := q\<rparr>\<rparr>)"
    if "proxy_ok tt ts a x" "flow_ok tt n ts (free_ids (se_stream se)) (se_held se) es evc (px_mem x)" for x q es
  proof -
    have "proxy_ok tt ts a (x\<lparr>px_seq := q\<rparr>)" using that(1) by (simp add: proxy_ok_def)
    then show ?thesis unfolding session_inv_def using that(2) st up by auto
  qed
  have f1: "flow_ok tt n ts (free_ids (se_stream se)) (se_held se) evs evc (px_mem ?px1)" using fl by (simp add: notify_def)
  have px2: "proxy_ok tt ts a (do_flush (?px1\<lparr>px_mem := m\<rparr>))" using px1 by (simp add: proxy_ok_def do_flush_def)
  have f2: "flow_ok tt n ts (free_ids (se_stream se)) (se_held se) evs' evc (px_mem (do_flush (?px1\<lparr>px_mem := m\<rparr>)))"
    using m(2) by (simp add: do_flush_def)
  obtain t where ty: "SPA_EVENT_TYPE cmd = Some t" using cmd by auto
  have "\<exists>x q es. sv_command tt cmd se = Some (se\<lparr>se_proxy := x\<lparr>px_seq := q\<rparr>\<rparr>) \<and> proxy_ok tt ts a x \<and>
      flow_ok tt n ts (free_ids (se_stream se)) (se_held se) es evc (px_mem x)"
  proof (cases "px_resource (se_proxy se)")
    case False
    have "sv_command tt cmd se = Some (se\<lparr>se_proxy := (se_proxy se)\<lparr>px_seq := px_seq (se_proxy se)\<rparr>\<rparr>)"
      using False by (simp add: sv_command_def spa_proxy_node_send_command_def)
    then show ?thesis using px fl by blast
  next
    case True
    let ?x = "if t \<noteq> tt_ClockUpdate tt \<and> t = tt_Start tt then do_flush (?px1\<lparr>px_mem := m\<rparr>) else ?px1"
    have "sv_command tt cmd se = Some (se\<lparr>se_proxy := ?x\<lparr>px_seq := px_seq ?x + 1\<rparr>\<rparr>)"
      using True ty need by (simp add: sv_command_def spa_proxy_node_send_command_def Let_def)
    moreover have "\<exists>es. proxy_ok tt ts a ?x \<and> flow_ok tt n ts (free_ids (se_stream se)) (se_held se) es evc (px_mem ?x)"
      using px1 f1 px2 f2 by auto
    ultimately show ?thesis by blast
  qed
  then show ?thesis using fin by blast
qed

section \<open>Every step\<close>

lemma on_stream_ok:
  assumes inv: "session_inv tt n a se"
    and f: "\<And>s ts evs. client_ok tt n ts (se_held se) evs s \<Longrightarrow> st_node_proxy s \<Longrightarrow> st_rt_mask s \<noteq> None \<Longrightarrow>
      \<exists>s' evs'. f s = Some s' \<and> client_ok tt n ts (se_held se) evs' s' \<and> st_node_proxy s' \<and> st_rt_mask s' \<noteq> None"
  shows "\<exists>se'. on_stream f se = Some se' \<and> session_inv tt n a se'"
proof -
  obtain ts evs evc where px: "proxy_ok tt ts a (se_proxy se)" and st: "stream_ok n ts (se_stream se)"
    and fl: "flow_ok tt n ts (free_ids (se_stream se)) (se_held se) evs evc (px_mem (se_proxy se))"
    and up: "st_node_proxy (se_stream se)" "st_rt_mask (se_stream se) \<noteq> None"
    using inv by (rule session_invE)
  let ?s = "(se_stream se)\<lparr>st_mem := px_mem (se_proxy se)\<rparr>"
  have "client_ok tt n ts (se_held se) evs ?s" using st fl by (intro client_okI) simp_all
  from f [OF this] up obtain s' evs' where s': "f ?s = Some s'" "client_ok tt n ts (se_held se) evs' s'" "st_node_proxy s'"
      "st_rt_mask s' \<noteq> None"
    by auto
  then obtain evc' where "stream_ok n ts s'" "flow_ok tt n ts (free_ids s') (se_held se) evs' evc' (st_mem s')"
    by (auto simp: client_ok_def)
  moreover have "proxy_ok tt ts a ((se_proxy se)\<lparr>px_mem := st_mem s'\<rparr>)" using px by (simp add: proxy_ok_def)
  ultimately have "session_inv tt n a (se\<lparr>se_stream := s', se_proxy := (se_proxy se)\<lparr>px_mem := st_mem s'\<rparr>\<rparr>)"
    using s'(3,4) by (intro session_inv_at [where ts = ts]) simp_all
  then show ?thesis using s'(1) by (simp add: on_stream_def)
qed

lemma cl_message_ok:
  assumes inv: "session_inv tt n a se" and n: "n < 2 ^ 32" and app: "sends_only app"
  shows "\<exists>se'. cl_message tt app se = Some se' \<and> session_inv tt n a se'"
proof (cases "px_sent (se_proxy se)")
  case Nil
  then show ?thesis using inv by (simp add: cl_message_def)
next
  case (Cons msg rest)
  let ?se = "se\<lparr>se_proxy := (se_proxy se)\<lparr>px_sent := rest\<rparr>\<rparr>"
  obtain ts where "proxy_ok tt ts a (se_proxy se)" using inv by (auto simp: session_inv_def)
  then obtain seq cmd where msg: "msg = Node_node_command seq cmd" "cmd \<in> {SPA_EVENT_INIT (tt_Start tt), SPA_EVENT_INIT (tt_Pause tt)}"
    using Cons by (auto simp: proxy_ok_def)
  have drop: "proxy_ok tt ts a x \<Longrightarrow> px_sent x = msg # rest \<Longrightarrow> proxy_ok tt ts a (x\<lparr>px_sent := rest\<rparr>)" for ts x
    by (simp add: proxy_ok_def)
  have "session_inv tt n a ?se"
  proof (rule session_invE [OF inv])
    fix ts evs evc
    assume "proxy_ok tt ts a (se_proxy se)" "stream_ok n ts (se_stream se)" "st_node_proxy (se_stream se)" "st_rt_mask (se_stream se) \<noteq> None"
      "flow_ok tt n ts (free_ids (se_stream se)) (se_held se) evs evc (px_mem (se_proxy se))"
    then show ?thesis using drop Cons by (intro session_inv_at [where ts = ts]) simp_all
  qed
  moreover have "client_node_dispatch tt app (\<lambda>_. True) None msg = handle_node_command tt app seq cmd"
    using msg(1) by (simp add: client_node_dispatch_def fun_eq_iff)
  ultimately have "\<exists>se'. on_stream (client_node_dispatch tt app (\<lambda>_. True) None msg) ?se = Some se' \<and> session_inv tt n a se'"
  proof (intro on_stream_ok)
    fix s ts evs
    assume s: "client_ok tt n ts (se_held ?se) evs s" "st_node_proxy s" "st_rt_mask s \<noteq> None"
    obtain s' where "handle_node_command tt app seq cmd s = Some s'" "client_ok tt n ts (se_held ?se) evs s'" "st_node_proxy s'"
        "st_rt_mask s' \<noteq> None"
      using command_ok [OF s(1) n app s(2,3) msg(2)] by metis
    then show "\<exists>s' evs'. client_node_dispatch tt app (\<lambda>_. True) None msg s = Some s' \<and> client_ok tt n ts (se_held ?se) evs' s' \<and>
        st_node_proxy s' \<and> st_rt_mask s' \<noteq> None"
      using msg(1) by (auto simp: client_node_dispatch_def)
  qed
  then show ?thesis using Cons by (simp add: cl_message_def)
qed

lemma session_step_ok:
  assumes inv: "session_inv tt n a se" and types: "types_ok tt" and n: "n < 2 ^ 32" and act: "session_allowed tt act se"
  shows "\<exists>se'. session_step tt act se = Some se' \<and> session_inv tt n a se'"
proof (cases act)
  case (Sv_pull b st)
  then show ?thesis using sv_pull_ok [OF inv types n] act by (simp add: session_step_def session_allowed_def)
next
  case (Sv_reuse b)
  then show ?thesis using sv_reuse_ok [OF inv types] act by (simp add: session_step_def session_allowed_def)
next
  case (Sv_event keeps)
  then show ?thesis using sv_event_ok [OF inv types] act by (simp add: session_step_def session_allowed_def)
next
  case (Sv_command cmd)
  then show ?thesis using sv_command_ok [OF inv types] act by (simp add: session_step_def session_allowed_def)
next
  case (Cl_event app)
  then have app: "sends_only app" using act by (simp add: session_allowed_def)
  have "\<exists>se'. on_stream (cl_event tt app) se = Some se' \<and> session_inv tt n a se'"
  proof (rule on_stream_ok [OF inv])
    fix s ts evs
    assume s: "client_ok tt n ts (se_held se) evs s" "st_node_proxy s" "st_rt_mask s \<noteq> None"
    obtain s' evs' where "cl_event tt app s = Some s'" "client_ok tt n ts (se_held se) evs' s'" "same_setup s s'"
      using cl_event_ok [OF s(1) n app types s(3)] by metis
    then show "\<exists>s' evs'. cl_event tt app s = Some s' \<and> client_ok tt n ts (se_held se) evs' s' \<and> st_node_proxy s' \<and> st_rt_mask s' \<noteq> None"
      using s(2,3) by (auto simp: same_setup_def)
  qed
  then show ?thesis using Cl_event by (simp add: session_step_def)
next
  case (Cl_message app)
  then show ?thesis using cl_message_ok [OF inv n] act by (simp add: session_step_def session_allowed_def)
next
  case (Cl_send i)
  have "\<exists>se'. on_stream (\<lambda>s. map_option snd (pinos_stream_send_buffer tt i s)) se = Some se' \<and> session_inv tt n a se'"
  proof (rule on_stream_ok [OF inv])
    fix s ts evs
    assume s: "client_ok tt n ts (se_held se) evs s" "st_node_proxy s" "st_rt_mask s \<noteq> None"
    obtain b s' where "pinos_stream_send_buffer tt i s = Some (b, s')" "client_ok tt n ts (se_held se) evs s'" "same_setup s s'"
      using send_ok [OF s(1) n] by metis
    then show "\<exists>s' evs'. map_option snd (pinos_stream_send_buffer tt i s) = Some s' \<and> client_ok tt n ts (se_held se) evs' s' \<and>
        st_node_proxy s' \<and> st_rt_mask s' \<noteq> None"
      using s(2,3) by (auto simp: same_setup_def)
  qed
  then show ?thesis using Cl_send by (simp add: session_step_def)
qed

lemma session_reach_inv:
  assumes "session_reach tt se0 se" and "session_inv tt n a se0" and "types_ok tt" and "n < 2 ^ 32"
  shows "session_inv tt n a se"
  using assms(1)
proof induction
  case reach_start
  then show ?case using assms(2) .
next
  case (reach_step se act se')
  from session_step_ok [OF reach_step.IH assms(3,4) reach_step.hyps(2)] show ?case using reach_step.hyps(3) by auto
qed

text \<open>Where the buffers are: free in the client, in the io of the transport, held by the graph.\<close>

definition session_places :: "session \<Rightarrow> u32 list" where
  "session_places se =
     free_ids (se_stream se) @
     (case px_transport (se_proxy se) of None \<Rightarrow> [] | Some ts \<Rightarrow> valid_id (out_id ts (px_mem (se_proxy se)))) @ se_held se"

lemma session_places_distinct:
  assumes "session_inv tt n a se"
  shows "distinct (session_places se)" "set (session_places se) \<subseteq> buffer_ids n"
proof -
  obtain ts evs evc where px: "proxy_ok tt ts a (se_proxy se)"
    and fl: "flow_ok tt n ts (free_ids (se_stream se)) (se_held se) evs evc (px_mem (se_proxy se))"
    using assms by (rule session_invE)
  have "px_transport (se_proxy se) = Some ts" using px by (simp add: proxy_ok_def)
  then show "distinct (session_places se)" "set (session_places se) \<subseteq> buffer_ids n"
    using flow_ok_places [OF fl] by (auto simp: session_places_def)
qed

end
