(* ===== verification/Pinos_Stream_Buffers.thy ===== *)
theory Pinos_Stream_Buffers
  imports Pinos_Stream
begin

text \<open>
  How buffers come to a client: the messages of \<open>spa_proxy_node_port_use_buffers\<close>, delivered to the stream in order,
  give it the same buffers at the same places of the shared memory.
\<close>

section \<open>Delivery\<close>

fun deliver ::
  "transport_types \<Rightarrow> stream_app \<Rightarrow> (mem_id \<Rightarrow> bool) \<Rightarrow> transport_mem option \<Rightarrow> server_event list \<Rightarrow> stream \<Rightarrow> stream option" where
  "deliver tt app mmap_ok mapped [] s = Some s"
| "deliver tt app mmap_ok mapped (msg # msgs) s = do {
     s1 \<leftarrow> client_node_dispatch tt app mmap_ok mapped msg s;
     deliver tt app mmap_ok mapped msgs s1 }"

lemma deliver_append:
  "deliver tt app mm mp (xs @ ys) s = do { s1 \<leftarrow> deliver tt app mm mp xs s; deliver tt app mm mp ys s1 }"
proof (induction xs arbitrary: s)
  case (Cons x xs)
  then show ?case by (cases "client_node_dispatch tt app mm mp x s") simp_all
qed simp

section \<open>What the server sends\<close>

text \<open>The memory of a buffer: the shared block, then that of its data blocks.\<close>

definition shared_data :: "transport_types \<Rightarrow> graph_buffer \<Rightarrow> graph_data" where
  "shared_data tt b = (let sh = the (find_shared tt b) in
     \<lparr>gd_type = tt_MemFd tt, gd_flags = sm_flags sh, gd_fd = sm_fd sh, gd_mapoffset = sm_offset sh, gd_maxsize = sm_size sh\<rparr>)"

definition buffer_mems :: "transport_types \<Rightarrow> graph_buffer \<Rightarrow> graph_data list" where
  "buffer_mems tt b = shared_data tt b # gb_datas b"

definition buffer_ok :: "transport_types \<Rightarrow> graph_buffer \<Rightarrow> bool" where
  "buffer_ok tt b \<longleftrightarrow> find_shared tt b \<noteq> None \<and> length (gb_metas b) \<le> PX_MAX_METAS \<and> length (gb_datas b) \<le> PX_MAX_DATAS \<and>
     (\<forall>x \<in> set (gb_datas b). gd_type x = tt_DmaBuf tt \<or> gd_type x = tt_MemFd tt)"

definition mem_msgs :: "u32 \<Rightarrow> u32 \<Rightarrow> nat \<Rightarrow> graph_data list \<Rightarrow> server_event list" where
  "mem_msgs d p k xs =
     map2 (\<lambda>j x. Node_add_mem d p (of_nat j) (gd_type x) (gd_fd x) (gd_flags x) (gd_mapoffset x) (gd_maxsize x)) [k..<k + length xs] xs"

definition id_datas :: "transport_types \<Rightarrow> nat \<Rightarrow> graph_data list \<Rightarrow> (u32 \<times> u32 \<times> u32 \<times> u32 \<times> u32) list" where
  "id_datas tt k xs = map2 (\<lambda>j x. (tt_Id tt, of_nat j, gd_flags x, gd_mapoffset x, gd_maxsize x)) [k..<k + length xs] xs"

lemma upt_step: "[k..<k + length (x # xs)] = k # [k + 1..<(k + 1) + length xs]"
  by (simp add: upt_rec)

lemma mem_msgs_simps [simp]:
  "mem_msgs d p k [] = []"
  "mem_msgs d p k (x # xs) =
     Node_add_mem d p (of_nat k) (gd_type x) (gd_fd x) (gd_flags x) (gd_mapoffset x) (gd_maxsize x) # mem_msgs d p (k + 1) xs"
  unfolding mem_msgs_def upt_step by simp_all

lemma id_datas_simps [simp]:
  "id_datas tt k [] = []"
  "id_datas tt k (x # xs) = (tt_Id tt, of_nat k, gd_flags x, gd_mapoffset x, gd_maxsize x) # id_datas tt (k + 1) xs"
  unfolding id_datas_def upt_step by simp_all

lemma mem_msgs_append: "mem_msgs d p k (xs @ ys) = mem_msgs d p k xs @ mem_msgs d p (k + length xs) ys"
  by (induction xs arbitrary: k) simp_all

lemma share_datas_fds:
  assumes "\<forall>x \<in> set xs. gd_type x = tt_DmaBuf tt \<or> gd_type x = tt_MemFd tt"
  shows "share_datas tt d p (of_nat k) xs sz = (id_datas tt k xs, mem_msgs d p k xs, of_nat (k + length xs), sz)"
  using assms
proof (induction xs arbitrary: k)
  case (Cons x xs)
  have "(of_nat k + 1 :: u32) = of_nat (k + 1)" by simp
  with Cons.IH [of "k + 1"] Cons.prems show ?case by (simp del: of_nat_Suc of_nat_add)
qed simp

fun sent_buffers :: "transport_types \<Rightarrow> nat \<Rightarrow> graph_buffer list \<Rightarrow> node_buffer list" where
  "sent_buffers tt k [] = []"
| "sent_buffers tt k (b # bs) =
     \<lparr>nb_mem_id = of_nat k, nb_offset = 0, nb_size = gd_maxsize (shared_data tt b), nb_id = gb_id b,
      nb_metas = map (\<lambda>x. (gm_type x, gm_size x)) (gb_metas b), nb_datas = id_datas tt (k + 1) (gb_datas b)\<rparr>
     # sent_buffers tt (k + length (buffer_mems tt b)) bs"

lemma share_buffers_ok:
  assumes "\<forall>b \<in> set bs. buffer_ok tt b" and "i + length bs \<le> length (pp_buffers port)"
  shows "\<exists>port'. share_buffers tt d p i (of_nat k) bs port =
    Some (True, sent_buffers tt k bs, mem_msgs d p k (concat (map (buffer_mems tt) bs)), port') \<and>
    pp_valid port' = pp_valid port \<and> pp_io port' = pp_io port \<and> pp_format port' = pp_format port"
  using assms
proof (induction bs arbitrary: i k port)
  case (Cons b bs)
  obtain sh where sh: "find_shared tt b = Some sh" using Cons.prems(1) by (auto simp: buffer_ok_def)
  have lens: "\<not> length (pp_buffers port) \<le> i" "\<not> PX_MAX_METAS < length (gb_metas b)" "\<not> PX_MAX_DATAS < length (gb_datas b)"
    using Cons.prems by (auto simp: buffer_ok_def)
  let ?metas = "map (\<lambda>x. (gm_type x, gm_size x)) (gb_metas b)"
  let ?sz = "pb_size (pp_buffers port ! i)"
  let ?port = "port\<lparr>pp_buffers := (pp_buffers port)[i := \<lparr>pb_id = gb_id b, pb_metas = ?metas, pb_datas = id_datas tt (k + 1) (gb_datas b), pb_size = ?sz\<rparr>]\<rparr>"
  have "\<forall>x \<in> set (gb_datas b). gd_type x = tt_DmaBuf tt \<or> gd_type x = tt_MemFd tt"
    using Cons.prems(1) by (simp add: buffer_ok_def)
  from share_datas_fds [OF this, of d p "k + 1" ?sz]
  have ds: "share_datas tt d p (of_nat k + 1) (gb_datas b) ?sz =
      (id_datas tt (k + 1) (gb_datas b), mem_msgs d p (k + 1) (gb_datas b), of_nat (k + length (buffer_mems tt b)), ?sz)"
    by (simp add: buffer_mems_def algebra_simps)
  obtain port' where port': "share_buffers tt d p (i + 1) (of_nat (k + length (buffer_mems tt b))) bs ?port =
      Some (True, sent_buffers tt (k + length (buffer_mems tt b)) bs,
        mem_msgs d p (k + length (buffer_mems tt b)) (concat (map (buffer_mems tt) bs)), port')"
    "pp_valid port' = pp_valid port" "pp_io port' = pp_io port" "pp_format port' = pp_format port"
    using Cons.IH [of "i + 1" ?port "k + length (buffer_mems tt b)"] Cons.prems by auto
  have "share_buffers tt d p i (of_nat k) (b # bs) port =
      (case share_buffers tt d p (i + 1) (of_nat (k + length (buffer_mems tt b))) bs ?port of
         None \<Rightarrow> None
       | Some (ok, mbs, msgs', port') \<Rightarrow>
           Some (ok, \<lparr>nb_mem_id = of_nat k, nb_offset = 0, nb_size = sm_size sh, nb_id = gb_id b, nb_metas = ?metas,
                      nb_datas = id_datas tt (k + 1) (gb_datas b)\<rparr> # mbs,
             Node_add_mem d p (of_nat k) (tt_MemFd tt) (sm_fd sh) (sm_flags sh) (sm_offset sh) (sm_size sh)
               # mem_msgs d p (k + 1) (gb_datas b) @ msgs', port'))"
    using sh lens ds by (simp add: Let_def del: of_nat_add of_nat_Suc split: option.split)
  then show ?case
    using sh port'(2-4) unfolding port'(1) by (simp add: mem_msgs_append shared_data_def [of tt b] buffer_mems_def [of tt b] del: share_buffers.simps)
qed simp

section \<open>What the client makes of it\<close>

text \<open>A buffer as the client is to see it: the metadata and the chunk headers at their places in the shared block, the
  data in its own memory.\<close>

fun view_datas :: "transport_types \<Rightarrow> shm_loc \<Rightarrow> u64 \<Rightarrow> graph_data list \<Rightarrow> stream_data list" where
  "view_datas tt base off [] = []"
| "view_datas tt base off (x # xs) =
     \<lparr>dt_type = tt_MemFd tt, dt_flags = gd_flags x, dt_fd = Some (gd_fd x), dt_mapoffset = gd_mapoffset x, dt_maxsize = gd_maxsize x,
      dt_data = Ptr_null, dt_chunk = loc_add base off\<rparr> # view_datas tt base (off + 12) xs"

definition shared_loc :: "transport_types \<Rightarrow> graph_buffer \<Rightarrow> shm_loc" where
  "shared_loc tt b = (gd_fd (shared_data tt b), ucast (gd_mapoffset (shared_data tt b)))"

definition meta_offset :: "graph_meta list \<Rightarrow> nat \<Rightarrow> u64" where
  "meta_offset ms i = sum_list (map (\<lambda>x. ucast (gm_size x)) (take i ms))"

definition client_view :: "transport_types \<Rightarrow> u32 \<Rightarrow> graph_buffer \<Rightarrow> buffer_id" where
  "client_view tt d b =
     (let base = shared_loc tt b; ms = gb_metas b in
      \<lparr>bi_id = gb_id b, bi_used = (d \<noteq> SPA_DIRECTION_OUTPUT), bi_ptr = base,
       bi_buf = \<lparr>sb_id = gb_id b,
         sb_metas = map (\<lambda>i. (gm_type (ms ! i), gm_size (ms ! i), loc_add base (meta_offset ms i))) [0..<length ms],
         sb_datas = map (\<lambda>i. let x = gb_datas b ! i in
           \<lparr>dt_type = tt_MemFd tt, dt_flags = gd_flags x, dt_fd = Some (gd_fd x), dt_mapoffset = gd_mapoffset x,
            dt_maxsize = gd_maxsize x, dt_data = Ptr_null, dt_chunk = loc_add base (meta_offset ms (length ms) + 12 * of_nat i)\<rparr>)
           [0..<length (gb_datas b)]\<rparr>\<rparr>)"

lemma upt_Suc_map: "[0..<Suc n] = 0 # map Suc [0..<n]"
  by (simp add: upt_conv_Cons map_Suc_upt del: upt_Suc)

lemma map_metas_places:
  "map_metas base off (map (\<lambda>x. (gm_type x, gm_size x)) ms) =
     (map (\<lambda>i. (gm_type (ms ! i), gm_size (ms ! i), loc_add base (off + meta_offset ms i))) [0..<length ms],
      off + meta_offset ms (length ms))"
proof (induction ms arbitrary: off)
  case (Cons x ms)
  then show ?case
    by (simp add: upt_Suc_map meta_offset_def o_def add.assoc del: upt_Suc)
qed (simp add: meta_offset_def)

lemma view_datas_places:
  "view_datas tt base off xs = map (\<lambda>i. let x = xs ! i in
     \<lparr>dt_type = tt_MemFd tt, dt_flags = gd_flags x, dt_fd = Some (gd_fd x), dt_mapoffset = gd_mapoffset x,
      dt_maxsize = gd_maxsize x, dt_data = Ptr_null, dt_chunk = loc_add base (off + 12 * of_nat i)\<rparr>) [0..<length xs]"
proof (induction xs arbitrary: off)
  case (Cons x xs)
  then show ?case by (simp add: upt_Suc_map o_def Let_def algebra_simps del: upt_Suc)
qed simp

text \<open>The memory table of the client holds the memory \<open>ms\<close>, numbered from 0.\<close>

definition mems_are :: "graph_data list \<Rightarrow> stream \<Rightarrow> bool" where
  "mems_are ms s \<longleftrightarrow> length (st_mem_ids s) = length ms \<and>
     (\<forall>j < length ms. mi_id (st_mem_ids s ! j) = of_nat j \<and> mi_fd (st_mem_ids s ! j) = gd_fd (ms ! j) \<and>
        mi_offset (st_mem_ids s ! j) = gd_mapoffset (ms ! j) \<and>
        mi_ptr (st_mem_ids s ! j) \<in> {None, Some (gd_fd (ms ! j), ucast (gd_mapoffset (ms ! j)))}) \<and>
     array_ok (st_mem_array s) \<and> unat (arr_size (st_mem_array s)) = 32 * length ms"

lemma of_nat_u32_inj: "j < 2 ^ 32 \<Longrightarrow> k < 2 ^ 32 \<Longrightarrow> (of_nat j :: u32) = of_nat k \<longleftrightarrow> j = k"
  by (simp add: word_of_nat_eq_iff take_bit_nat_eq_self)

lemma find_upt:
  assumes "j < n" and "P j" and "\<And>k. k < n \<Longrightarrow> P k \<Longrightarrow> k = j"
  shows "find P [0..<n] = Some j"
proof -
  have "find P [0..<n] \<noteq> None" using assms(1,2) by (auto simp: find_None_iff)
  then obtain k where k: "find P [0..<n] = Some k" by auto
  then have "k < n \<and> P k" by (auto simp: find_Some_iff)
  then show ?thesis using k assms(3) by auto
qed

lemma find_mem_at:
  assumes "mems_are ms s" and "length ms < 2 ^ 32" and "j < length ms"
  shows "find_mem s (of_nat j) = Some j"
  unfolding find_mem_def using assms of_nat_u32_inj [of _ j] by (intro find_upt) (auto simp: mems_are_def)

lemma find_mem_new:
  assumes "mems_are ms s" and "length ms < 2 ^ 32"
  shows "find_mem s (of_nat (length ms)) = None"
  unfolding find_mem_def using assms of_nat_u32_inj [of _ "length ms"] by (auto simp: mems_are_def find_None_iff)

lemma add_mem_ok:
  assumes ms: "mems_are ms s" and len: "length ms < 2 ^ 20"
  shows "\<exists>ids arr. stream_add_mem (of_nat (length ms)) (gd_fd x) (gd_flags x) (gd_mapoffset x) (gd_maxsize x) s =
    Some (s\<lparr>st_mem_ids := ids, st_mem_array := arr\<rparr>) \<and> mems_are (ms @ [x]) (s\<lparr>st_mem_ids := ids, st_mem_array := arr\<rparr>)"
proof -
  let ?arr = "st_mem_array s"
  have arr: "array_ok ?arr" "unat (arr_size ?arr) = 32 * length ms" using ms by (auto simp: mems_are_def)
  obtain arr' where arr': "pinos_array_add (\<lambda>_. True) ?arr 32 = Some (Some (arr_size ?arr), arr')" "array_ok arr'"
      "unat (arr_size arr') = unat (arr_size ?arr) + unat (32 :: u64)"
    using array_add_ok [OF arr(1), of 32 "\<lambda>_. True"] arr(2) len by auto
  let ?m = "\<lparr>mi_id = of_nat (length ms), mi_fd = gd_fd x, mi_flags = gd_flags x, mi_ptr = None, mi_offset = gd_mapoffset x, mi_size = gd_maxsize x\<rparr>"
  have "stream_add_mem (of_nat (length ms)) (gd_fd x) (gd_flags x) (gd_mapoffset x) (gd_maxsize x) s =
      Some (s\<lparr>st_mem_ids := st_mem_ids s @ [?m], st_mem_array := arr'\<rparr>)"
    using find_mem_new [OF ms] len arr'(1) by (simp add: stream_add_mem_def)
  moreover have "mems_are (ms @ [x]) (s\<lparr>st_mem_ids := st_mem_ids s @ [?m], st_mem_array := arr'\<rparr>)"
    using ms arr arr'(2,3) by (auto simp: mems_are_def nth_append less_Suc_eq)
  ultimately show ?thesis by blast
qed

lemma deliver_mems:
  assumes "mems_are ms s" and "length ms + length xs < 2 ^ 20"
  shows "\<exists>ids arr. deliver tt app mm mp (mem_msgs d p (length ms) xs) s = Some (s\<lparr>st_mem_ids := ids, st_mem_array := arr\<rparr>) \<and>
    mems_are (ms @ xs) (s\<lparr>st_mem_ids := ids, st_mem_array := arr\<rparr>)"
  using assms
proof (induction xs arbitrary: ms s)
  case Nil
  then show ?case by (intro exI [of _ "st_mem_ids s"] exI [of _ "st_mem_array s"]) simp
next
  case (Cons x xs)
  obtain ids arr where 1: "stream_add_mem (of_nat (length ms)) (gd_fd x) (gd_flags x) (gd_mapoffset x) (gd_maxsize x) s =
      Some (s\<lparr>st_mem_ids := ids, st_mem_array := arr\<rparr>)" "mems_are (ms @ [x]) (s\<lparr>st_mem_ids := ids, st_mem_array := arr\<rparr>)"
    using add_mem_ok [OF Cons.prems(1)] Cons.prems(2) by fastforce
  obtain ids' arr' where 2: "deliver tt app mm mp (mem_msgs d p (length (ms @ [x])) xs) (s\<lparr>st_mem_ids := ids, st_mem_array := arr\<rparr>) =
      Some (s\<lparr>st_mem_ids := ids', st_mem_array := arr'\<rparr>)" "mems_are ((ms @ [x]) @ xs) (s\<lparr>st_mem_ids := ids', st_mem_array := arr'\<rparr>)"
    using Cons.IH [OF 1(2)] Cons.prems(2) by auto
  then show ?case using 1(1) by (auto simp: client_node_dispatch_def)
qed

lemma map_datas_view:
  assumes "mems_are (pre @ xs @ post) s" and "length (pre @ xs @ post) < 2 ^ 32"
  shows "map_datas tt s base off (id_datas tt (length pre) xs) = Some (view_datas tt base off xs)"
  using assms
proof (induction xs arbitrary: pre off)
  case (Cons x xs)
  have 1: "find_mem s (of_nat (length pre)) = Some (length pre)" using find_mem_at [OF Cons.prems] by simp
  have 2: "mi_fd (st_mem_ids s ! length pre) = gd_fd x"
    using Cons.prems(1) by (auto simp: mems_are_def nth_append dest!: spec [of _ "length pre"])
  show ?case using Cons.IH [of "pre @ [x]"] Cons.prems 1 2 by (simp add: Let_def)
qed simp

text \<open>The stream has exactly the buffers \<open>bs\<close>.\<close>

definition bufs_are :: "transport_types \<Rightarrow> graph_buffer list \<Rightarrow> stream \<Rightarrow> bool" where
  "bufs_are tt bs s \<longleftrightarrow> st_buffer_ids s = map (client_view tt (st_direction s)) bs \<and> st_in_order s \<and>
     st_free s = (if st_direction s = SPA_DIRECTION_OUTPUT then [0..<length bs] else []) \<and>
     unat (arr_size (st_buffer_array s)) = 40 * length bs \<and> 2560 \<le> unat (arr_alloc (st_buffer_array s))"

lemma add_buffer_id_ok:
  assumes "unat (arr_size (st_buffer_array s)) = 40 * k" and "2560 \<le> unat (arr_alloc (st_buffer_array s))" and "k < 64"
  shows "\<exists>arr. add_buffer_id b s = Some (s\<lparr>st_buffer_ids := st_buffer_ids s @ [b], st_buffer_array := arr\<rparr>) \<and>
    unat (arr_size arr) = 40 * (k + 1) \<and> arr_alloc arr = arr_alloc (st_buffer_array s)"
proof -
  let ?a = "st_buffer_array s"
  have sz: "unat (arr_size ?a + 40) = 40 * (k + 1)"
    using assms(1,3) by (subst unat_add_lem [THEN iffD1]) simp_all
  then have "\<not> arr_alloc ?a < arr_size ?a + 40" using assms(2,3) by (simp add: word_less_nat_alt)
  then have "pinos_array_add (\<lambda>_. True) ?a 40 = Some (Some (arr_size ?a), ?a\<lparr>arr_size := arr_size ?a + 40\<rparr>)"
    by (simp add: pinos_array_add_def pinos_array_ensure_size_def)
  then have "add_buffer_id b s = Some (s\<lparr>st_buffer_ids := st_buffer_ids s @ [b], st_buffer_array := ?a\<lparr>arr_size := arr_size ?a + 40\<rparr>\<rparr>)"
    by (simp add: add_buffer_id_def)
  then show ?thesis using sz by (intro exI [of _ "?a\<lparr>arr_size := arr_size ?a + 40\<rparr>"]) simp
qed

lemma map_mem_ok:
  assumes "mems_are ms s" and "j < length ms"
  shows "\<exists>ids. map_mem (\<lambda>_. True) j s = Some ((gd_fd (ms ! j), ucast (gd_mapoffset (ms ! j))), s\<lparr>st_mem_ids := ids\<rparr>) \<and>
    mems_are ms (s\<lparr>st_mem_ids := ids\<rparr>)"
proof (cases "mi_ptr (st_mem_ids s ! j)")
  case None
  let ?m = "st_mem_ids s ! j"
  let ?ids = "(st_mem_ids s)[j := ?m\<lparr>mi_ptr := Some (mi_fd ?m, ucast (mi_offset ?m))\<rparr>]"
  have "mems_are ms (s\<lparr>st_mem_ids := ?ids\<rparr>)" using assms by (auto simp: mems_are_def nth_list_update)
  moreover have "mi_fd ?m = gd_fd (ms ! j)" "mi_offset ?m = gd_mapoffset (ms ! j)" using assms by (auto simp: mems_are_def)
  ultimately show ?thesis using None by (intro exI [of _ ?ids]) (simp add: map_mem_def Let_def)
next
  case (Some l)
  then show ?thesis using assms by (intro exI [of _ "st_mem_ids s"]) (auto simp: map_mem_def mems_are_def)
qed

text \<open>Nothing but the signals, the buffers and the memory table changes.\<close>

definition buffers_only :: "stream \<Rightarrow> stream \<Rightarrow> bool" where
  "buffers_only s s' \<longleftrightarrow> (\<exists>ids bufs arr ord fr sig.
     s' = s\<lparr>st_mem_ids := ids, st_buffer_ids := bufs, st_buffer_array := arr, st_in_order := ord, st_free := fr, st_signals := sig\<rparr>)"

lemma buffers_only_trans:
  assumes "buffers_only s s1" and "buffers_only s1 s2"
  shows "buffers_only s s2"
proof -
  obtain a b c d e f where 1: "s1 = s\<lparr>st_mem_ids := a, st_buffer_ids := b, st_buffer_array := c, st_in_order := d, st_free := e, st_signals := f\<rparr>"
    using assms(1) by (auto simp: buffers_only_def)
  obtain a b c d e f where 2: "s2 = s1\<lparr>st_mem_ids := a, st_buffer_ids := b, st_buffer_array := c, st_in_order := d, st_free := e, st_signals := f\<rparr>"
    using assms(2) by (auto simp: buffers_only_def)
  have "s2 = s\<lparr>st_mem_ids := a, st_buffer_ids := b, st_buffer_array := c, st_in_order := d, st_free := e, st_signals := f\<rparr>"
    unfolding 2 1 by simp
  then show ?thesis unfolding buffers_only_def by blast
qed

lemma buffers_only_same:
  assumes "buffers_only s s'"
  shows "st_direction s' = st_direction s" "st_mem_array s' = st_mem_array s" "st_state s' = st_state s"
    "st_node_proxy s' = st_node_proxy s" "st_trans s' = st_trans s" "st_mem s' = st_mem s" "st_rt_mask s' = st_rt_mask s"
    "st_port_id s' = st_port_id s"
  using assms by (auto simp: buffers_only_def)

lemma loc_add_0 [simp]: "loc_add l 0 = l"
  by (simp add: loc_add_def)

lemma use_one_ok:
  assumes ms: "mems_are (pre @ buffer_mems tt b @ post) s" "length (pre @ buffer_mems tt b @ post) < 2 ^ 20"
    and bs: "bufs_are tt bs s" "length bs < 64" "gb_id b = of_nat (length bs)"
    and app: "app (Sig_add_buffer (gb_id b)) = []"
  shows "\<exists>s'. use_one_buffer tt app (\<lambda>_. True)
      \<lparr>nb_mem_id = of_nat (length pre), nb_offset = 0, nb_size = sz, nb_id = gb_id b,
       nb_metas = map (\<lambda>x. (gm_type x, gm_size x)) (gb_metas b), nb_datas = id_datas tt (length pre + 1) (gb_datas b)\<rparr> s = Some s' \<and>
    mems_are (pre @ buffer_mems tt b @ post) s' \<and> bufs_are tt (bs @ [b]) s' \<and> buffers_only s s'"
proof -
  let ?ms = "pre @ buffer_mems tt b @ post"
  let ?metas = "map (\<lambda>x. (gm_type x, gm_size x)) (gb_metas b)"
  have at: "?ms ! length pre = shared_data tt b" "length pre < length ?ms" by (simp_all add: buffer_mems_def nth_append)
  have fm: "find_mem s (of_nat (length pre)) = Some (length pre)" using find_mem_at [OF ms(1) _ at(2)] ms(2) by simp
  obtain ids where mm: "map_mem (\<lambda>_. True) (length pre) s = Some (shared_loc tt b, s\<lparr>st_mem_ids := ids\<rparr>)"
      "mems_are ?ms (s\<lparr>st_mem_ids := ids\<rparr>)"
    using map_mem_ok [OF ms(1) at(2)] unfolding at(1) by (auto simp: shared_loc_def)
  let ?s1 = "s\<lparr>st_mem_ids := ids\<rparr>"
  obtain metas off where mt: "map_metas (shared_loc tt b) 0 ?metas = (metas, off)" by (cases "map_metas (shared_loc tt b) 0 ?metas")
  have "mems_are ((pre @ [shared_data tt b]) @ gb_datas b @ post) ?s1" using mm(2) by (simp add: buffer_mems_def)
  from map_datas_view [OF this] ms(2)
  have md: "map_datas tt ?s1 (shared_loc tt b) off (id_datas tt (length pre + 1) (gb_datas b)) =
      Some (view_datas tt (shared_loc tt b) off (gb_datas b))"
    by (simp add: buffer_mems_def)
  let ?b = "client_view tt (st_direction s) b"
  have view: "\<lparr>bi_id = gb_id b, bi_used = (st_direction s \<noteq> SPA_DIRECTION_OUTPUT), bi_ptr = shared_loc tt b,
      bi_buf = \<lparr>sb_id = gb_id b, sb_metas = metas, sb_datas = view_datas tt (shared_loc tt b) off (gb_datas b)\<rparr>\<rparr> = ?b"
    using mt by (simp add: client_view_def map_metas_places view_datas_places Let_def)
  have sz: "unat (arr_size (st_buffer_array ?s1)) = 40 * length bs" "2560 \<le> unat (arr_alloc (st_buffer_array ?s1))"
    and bufs: "st_buffer_ids s = map (client_view tt (st_direction s)) bs" and ord: "st_in_order s"
    and fr: "st_free s = (if st_direction s = SPA_DIRECTION_OUTPUT then [0..<length bs] else [])"
    using bs(1) by (simp_all add: bufs_are_def)
  obtain arr where arr: "add_buffer_id ?b ?s1 = Some (?s1\<lparr>st_buffer_ids := st_buffer_ids s @ [?b], st_buffer_array := arr\<rparr>)"
      "unat (arr_size arr) = 40 * (length bs + 1)" "2560 \<le> unat (arr_alloc arr)"
    using add_buffer_id_ok [OF sz bs(2), of ?b] sz(2) by auto
  let ?fr = "if st_direction s = SPA_DIRECTION_OUTPUT then [0..<length (bs @ [b])] else []"
  let ?s' = "s\<lparr>st_mem_ids := ids, st_buffer_ids := st_buffer_ids s @ [?b], st_buffer_array := arr, st_free := ?fr,
     st_signals := st_signals s @ [Sig_add_buffer (gb_id b)]\<rparr>"
  have "use_one_buffer tt app (\<lambda>_. True)
      \<lparr>nb_mem_id = of_nat (length pre), nb_offset = 0, nb_size = sz, nb_id = gb_id b,
       nb_metas = ?metas, nb_datas = id_datas tt (length pre + 1) (gb_datas b)\<rparr> s = Some ?s'"
    using fm mm(1) mt md view arr(1) fr bufs bs(3) app
    by (simp add: use_one_buffer_def Let_def emit_def free_append_def del: id_datas_simps)
  moreover have "mems_are ?ms ?s'" using mm(2) by (simp add: mems_are_def)
  moreover have "bufs_are tt (bs @ [b]) ?s'" using bufs ord arr(2,3) by (simp add: bufs_are_def)
  moreover have "buffers_only s ?s'"
    unfolding buffers_only_def by (intro exI [of _ "st_in_order s"] exI) simp
  ultimately show ?thesis by blast
qed

lemma use_list_ok:
  assumes "mems_are (pre @ concat (map (buffer_mems tt) bs2)) s" "length (pre @ concat (map (buffer_mems tt) bs2)) < 2 ^ 20"
    and "bufs_are tt bs1 s" "length (bs1 @ bs2) \<le> 64" "\<forall>k < length (bs1 @ bs2). gb_id ((bs1 @ bs2) ! k) = of_nat k"
    and app: "\<forall>b \<in> set bs2. app (Sig_add_buffer (gb_id b)) = []"
  shows "\<exists>s'. use_buffer_list tt app (\<lambda>_. True) (sent_buffers tt (length pre) bs2) s = Some s' \<and>
    mems_are (pre @ concat (map (buffer_mems tt) bs2)) s' \<and> bufs_are tt (bs1 @ bs2) s' \<and> buffers_only s s'"
  using assms
proof (induction bs2 arbitrary: pre bs1 s)
  case Nil
  have "buffers_only s s"
    unfolding buffers_only_def
    by (intro exI [of _ "st_mem_ids s"] exI [of _ "st_buffer_ids s"] exI [of _ "st_buffer_array s"] exI [of _ "st_in_order s"]
        exI [of _ "st_free s"] exI [of _ "st_signals s"]) simp
  with Nil show ?case by simp
next
  case (Cons b bs2)
  let ?post = "concat (map (buffer_mems tt) bs2)"
  have "gb_id b = of_nat (length bs1)" using Cons.prems(5) by (auto dest!: spec [of _ "length bs1"])
  then have "\<exists>s1. use_one_buffer tt app (\<lambda>_. True)
      \<lparr>nb_mem_id = of_nat (length pre), nb_offset = 0, nb_size = gd_maxsize (shared_data tt b), nb_id = gb_id b,
       nb_metas = map (\<lambda>x. (gm_type x, gm_size x)) (gb_metas b), nb_datas = id_datas tt (length pre + 1) (gb_datas b)\<rparr> s = Some s1 \<and>
    mems_are (pre @ buffer_mems tt b @ ?post) s1 \<and> bufs_are tt (bs1 @ [b]) s1 \<and> buffers_only s s1"
    using Cons.prems by (intro use_one_ok) simp_all
  then obtain s1 where s1: "use_one_buffer tt app (\<lambda>_. True)
      \<lparr>nb_mem_id = of_nat (length pre), nb_offset = 0, nb_size = gd_maxsize (shared_data tt b), nb_id = gb_id b,
       nb_metas = map (\<lambda>x. (gm_type x, gm_size x)) (gb_metas b), nb_datas = id_datas tt (length pre + 1) (gb_datas b)\<rparr> s = Some s1"
    "mems_are (pre @ buffer_mems tt b @ ?post) s1" "bufs_are tt (bs1 @ [b]) s1" "buffers_only s s1"
    by blast
  obtain s' where "use_buffer_list tt app (\<lambda>_. True) (sent_buffers tt (length (pre @ buffer_mems tt b)) bs2) s1 = Some s'"
    "mems_are ((pre @ buffer_mems tt b) @ ?post) s'" "bufs_are tt ((bs1 @ [b]) @ bs2) s'" "buffers_only s1 s'"
    using Cons.IH [of "pre @ buffer_mems tt b" s1 "bs1 @ [b]"] s1(2,3) Cons.prems by auto
  then show ?case using s1(1) buffers_only_trans [OF s1(4)] by auto
qed

lemma clear_buffers_are:
  assumes "2560 \<le> unat (arr_alloc (st_buffer_array s))"
  shows "bufs_are tt [] (stream_clear_buffers s)"
  using assms by (simp add: bufs_are_def stream_clear_buffers_def)

section \<open>The whole exchange\<close>

lemma total_mems:
  assumes "\<forall>b \<in> set bs. buffer_ok tt b" and "length bs \<le> 64"
  shows "length (concat (map (buffer_mems tt) bs)) \<le> 320"
proof -
  have "length (concat (map (buffer_mems tt) bs)) \<le> 5 * length bs"
    using assms(1) by (induction bs) (auto simp: buffer_ok_def buffer_mems_def)
  then show ?thesis using assms(2) by simp
qed

lemma emit_silent: "app sig = [] \<Longrightarrow> emit tt app sig s = Some (s\<lparr>st_signals := st_signals s @ [sig]\<rparr>)"
  by (simp add: emit_def)

lemma set_state_silent:
  assumes "app (Sig_state_changed st) = []"
  shows "\<exists>sig. stream_set_state tt app st s = Some (s\<lparr>st_state := st, st_signals := sig\<rparr>)"
proof (cases "st_state s = st")
  case True
  then show ?thesis by (intro exI [of _ "st_signals s"]) (simp add: stream_set_state_def)
next
  case False
  then show ?thesis using assms by (auto simp: stream_set_state_def emit_silent)
qed

text \<open>A client whose tables are empty and whose application makes no calls while the buffers come.\<close>

definition stream_waits :: "u32 \<Rightarrow> stream \<Rightarrow> bool" where
  "stream_waits d s \<longleftrightarrow> st_direction s = d \<and> st_node_proxy s \<and> st_mem_ids s = [] \<and> array_ok (st_mem_array s) \<and>
     arr_size (st_mem_array s) = 0 \<and> 2560 \<le> unat (arr_alloc (st_buffer_array s))"

definition quiet :: "stream_app \<Rightarrow> bool" where
  "quiet app \<longleftrightarrow> (\<forall>i. app (Sig_add_buffer i) = []) \<and> (\<forall>st. app (Sig_state_changed st) = []) \<and>
     (\<forall>f. app (Sig_format_changed f) = [])"

lemma use_buffers_delivered:
  assumes s: "stream_waits d s" and app: "quiet app" and ok: "\<forall>b \<in> set bs. buffer_ok tt b" and len: "bs \<noteq> []" "length bs \<le> 64"
    and ids: "\<forall>k < length bs. gb_id (bs ! k) = of_nat k"
  shows "\<exists>s'. deliver tt app (\<lambda>_. True) mp
      (mem_msgs d p 0 (concat (map (buffer_mems tt) bs)) @ [Node_use_buffers seq d p (sent_buffers tt 0 bs)]) s = Some s' \<and>
    bufs_are tt bs s' \<and> st_direction s' = d \<and> st_state s' = STREAM_PAUSED \<and>
    st_sent s' = st_sent s @ [Client_node_event (ASYNC_COMPLETE_INIT (tt_AsyncComplete tt) seq SPA_RESULT_OK)] \<and>
    st_node_proxy s' \<and> st_trans s' = st_trans s \<and> st_rt_mask s' = st_rt_mask s \<and> st_port_id s' = st_port_id s"
proof -
  let ?ms = "concat (map (buffer_mems tt) bs)"
  have lm: "length ?ms \<le> 320" by (rule total_mems [OF ok len(2)])
  have "mems_are [] s" using s by (simp add: stream_waits_def mems_are_def)
  from deliver_mems [OF this, of ?ms tt app "\<lambda>_. True" mp d p] lm obtain mids arr
    where 1: "deliver tt app (\<lambda>_. True) mp (mem_msgs d p 0 ?ms) s = Some (s\<lparr>st_mem_ids := mids, st_mem_array := arr\<rparr>)"
      "mems_are ?ms (s\<lparr>st_mem_ids := mids, st_mem_array := arr\<rparr>)"
    by auto
  let ?s1 = "stream_clear_buffers (s\<lparr>st_mem_ids := mids, st_mem_array := arr\<rparr>)"
  have m1: "mems_are ?ms ?s1" using 1(2) by (simp add: mems_are_def stream_clear_buffers_def)
  have b1: "bufs_are tt [] ?s1" by (rule clear_buffers_are) (use s in \<open>simp add: stream_waits_def\<close>)
  obtain s2 where s2: "use_buffer_list tt app (\<lambda>_. True) (sent_buffers tt 0 bs) ?s1 = Some s2" "bufs_are tt bs s2" "buffers_only ?s1 s2"
    using use_list_ok [of "[]" tt bs ?s1 "[]" app] m1 b1 lm len ids app by (auto simp: quiet_def)
  have d2: "st_direction s2 = d" "st_node_proxy s2" "st_sent s2 = st_sent s" "st_trans s2 = st_trans s"
    "st_rt_mask s2 = st_rt_mask s" "st_port_id s2 = st_port_id s"
    using s2(3) s by (auto simp: buffers_only_def stream_clear_buffers_def stream_waits_def)
  let ?ev = "Client_node_event (ASYNC_COMPLETE_INIT (tt_AsyncComplete tt) seq SPA_RESULT_OK)"
  obtain sig where sig: "stream_set_state tt app STREAM_PAUSED (s2\<lparr>st_sent := st_sent s2 @ [?ev]\<rparr>) =
      Some ((s2\<lparr>st_sent := st_sent s2 @ [?ev]\<rparr>)\<lparr>st_state := STREAM_PAUSED, st_signals := sig\<rparr>)"
    using set_state_silent app by (metis quiet_def)
  have "sent_buffers tt 0 bs \<noteq> []" using len(1) by (cases bs) simp_all
  then have "client_node_use_buffers tt app (\<lambda>_. True) seq (sent_buffers tt 0 bs) (s\<lparr>st_mem_ids := mids, st_mem_array := arr\<rparr>) =
      Some ((s2\<lparr>st_sent := st_sent s2 @ [?ev]\<rparr>)\<lparr>st_state := STREAM_PAUSED, st_signals := sig\<rparr>)"
    using s2(1) d2(2) sig by (simp add: client_node_use_buffers_def add_async_complete_def call_node_proxy_def)
  then have "deliver tt app (\<lambda>_. True) mp (mem_msgs d p 0 ?ms @ [Node_use_buffers seq d p (sent_buffers tt 0 bs)]) s =
      Some ((s2\<lparr>st_sent := st_sent s2 @ [?ev]\<rparr>)\<lparr>st_state := STREAM_PAUSED, st_signals := sig\<rparr>)"
    using 1(1) by (simp add: deliver_append client_node_dispatch_def)
  then show ?thesis using s2(2) d2 by (simp add: bufs_are_def)
qed

text \<open>A port of the node that can be given the buffers.\<close>

definition port_takes :: "u32 \<Rightarrow> u32 \<Rightarrow> graph_buffer list \<Rightarrow> spa_proxy \<Rightarrow> bool" where
  "port_takes d p bs px \<longleftrightarrow> px_resource px \<and> check_port px d p \<and> unat p < length (port_list d px) \<and>
     pp_format (port_list d px ! unat p) \<noteq> None \<and> length bs \<le> length (pp_buffers (port_list d px ! unat p))"

lemma port_list_mod: "unat p < length (port_list d px) \<Longrightarrow> port_list d (mod_proxy_port d p f px) ! unat p = f (port_list d px ! unat p)"
  by (simp add: port_list_def mod_proxy_port_def split: if_splits)

lemma mod_port_same [simp]: "px_seq (mod_proxy_port d p f px) = px_seq px" "px_sent (mod_proxy_port d p f px) = px_sent px"
  "px_resource (mod_proxy_port d p f px) = px_resource px"
  by (simp_all add: mod_proxy_port_def)

lemma use_buffers_sends:
  assumes px: "port_takes d p bs px" and ok: "\<forall>b \<in> set bs. buffer_ok tt b"
  shows "\<exists>px'. spa_proxy_node_port_use_buffers tt px d p bs = Some (SPA_RESULT_RETURN_ASYNC (px_seq px), px') \<and>
    px_seq px' = px_seq px + 1 \<and>
    px_sent px' = px_sent px @ mem_msgs d p 0 (concat (map (buffer_mems tt) bs)) @ [Node_use_buffers (px_seq px) d p (sent_buffers tt 0 bs)] \<and>
    px_transport px' = px_transport px \<and> px_mem px' = px_mem px \<and>
    (\<exists>port. port_list d px' = (port_list d px)[unat p := port] \<and> pp_valid port \<and> pp_io port = pp_io (port_list d px ! unat p))"
proof -
  let ?f = "\<lambda>port. (proxy_clear_buffers port)\<lparr>pp_n_buffers := of_nat (length bs)\<rparr>"
  let ?port = "?f (port_list d px ! unat p)"
  have "length bs \<le> length (pp_buffers ?port)" using px by (simp add: port_takes_def proxy_clear_buffers_def)
  with share_buffers_ok [OF ok, of 0 ?port d p 0] obtain port' where sh:
    "share_buffers tt d p 0 0 bs ?port = Some (True, sent_buffers tt 0 bs, mem_msgs d p 0 (concat (map (buffer_mems tt) bs)), port')"
    "pp_valid port' = pp_valid ?port" "pp_io port' = pp_io ?port"
    by auto
  have at: "port_list d (mod_proxy_port d p ?f px) ! unat p = ?port" by (rule port_list_mod) (use px in \<open>simp add: port_takes_def\<close>)
  have "spa_proxy_node_port_use_buffers tt px d p bs = Some (async_request (\<lambda>seq. Node_use_buffers seq d p (sent_buffers tt 0 bs))
      (notify (mem_msgs d p 0 (concat (map (buffer_mems tt) bs))) (mod_proxy_port d p (\<lambda>_. port') (mod_proxy_port d p ?f px))))"
    using px sh(1) by (auto simp: spa_proxy_node_port_use_buffers_def port_takes_def at Let_def)
  moreover have "pp_valid ?port" "pp_io ?port = pp_io (port_list d px ! unat p)"
    using px by (simp_all add: port_takes_def check_port_def proxy_clear_buffers_def)
  ultimately show ?thesis
    using sh(2,3) by (auto simp: async_request_def notify_def mod_proxy_port_def port_list_def)
qed

text \<open>Type ids for examples.\<close>

definition stream_types :: transport_types where
  "stream_types = \<lparr>tt_HaveOutput = 1, tt_NeedInput = 2, tt_ReuseBuffer = 3, tt_AsyncComplete = 4, tt_RequestClockUpdate = 5, tt_Start = 6,
     tt_Pause = 7, tt_ClockUpdate = 8, tt_Shared = 110, tt_MemPtr = 10, tt_MemFd = 112, tt_DmaBuf = 12, tt_Id = 13\<rparr>"

end
