(* ===== verification/Pinos_Stream_Session.thy ===== *)
theory Pinos_Stream_Session
  imports Pinos_Stream_Flow Pinos_Stream_Buffers
begin

text \<open>
  A client node and a stream from their creation to the first buffer: both sides run their own operations on the messages of
  the other, then the session of \<^verbatim>\<open>Pinos_Stream_Flow\<close> begins. Everything it assumes is thereby established by the
  code itself.
\<close>

section \<open>The server reads\<close>

definition client_node_dispatch_method :: "client_method \<Rightarrow> spa_proxy \<Rightarrow> spa_proxy" where
  "client_node_dispatch_method msg px =
     (case msg of
        Client_node_update cm mi mo props \<Rightarrow> client_node_update px cm mi mo
      | Client_node_port_update d p cm formats fmt props info \<Rightarrow> client_node_port_update px d p cm (map Some formats) fmt info
      | _ \<Rightarrow> px)"

definition serve :: "client_method list \<Rightarrow> spa_proxy \<Rightarrow> spa_proxy" where
  "serve msgs px = fold client_node_dispatch_method msgs px"

text \<open>All messages of one side reach the other.\<close>

definition to_server :: "spa_proxy \<times> stream \<Rightarrow> spa_proxy \<times> stream" where
  "to_server c = (serve (st_sent (snd c)) (fst c), (snd c)\<lparr>st_sent := []\<rparr>)"

definition to_client ::
  "transport_types \<Rightarrow> stream_app \<Rightarrow> transport_mem option \<Rightarrow> spa_proxy \<times> stream \<Rightarrow> (spa_proxy \<times> stream) option" where
  "to_client tt app mapped c = do {
     s \<leftarrow> deliver tt app (\<lambda>_. True) mapped (px_sent (fst c)) (snd c);
     Some ((fst c)\<lparr>px_sent := []\<rparr>, s) }"

section \<open>Opening\<close>

text \<open>The node is made, the stream connects, is told of its descriptors and announces itself and its port; the node is
  initialized when this has arrived, which makes the transport.\<close>

definition open_node ::
  "transport_types \<Rightarrow> stream_app \<Rightarrow> transport_mem \<Rightarrow> (nat \<Rightarrow> spa_port_io) \<Rightarrow> int \<times> transport_mem \<Rightarrow> int \<times> int \<Rightarrow> pod list \<Rightarrow>
   (spa_proxy \<times> stream) option" where
  "open_node tt app m ios shm ef formats = do {
     px \<leftarrow> pinos_client_node_new True True m ios;
     s \<leftarrow> pinos_stream_new m;
     (_, s1) \<leftarrow> pinos_stream_connect tt app True False formats s;
     let px1 = notify [Node_done (fst ef) (snd ef)] px;
     c \<leftarrow> to_client tt app None (px1, s1);
     let (px2, s2) = to_server c;
     px3 \<leftarrow> px_on_initialized True (Some shm) (px_max_inputs px2) (px_max_outputs px2) (px_n_inputs px2) (px_n_outputs px2) px2;
     to_client tt app (Some (px_mem px3)) (px3, s2) }"

text \<open>The port gets its io area and the format, the application agrees.\<close>

definition open_format ::
  "transport_types \<Rightarrow> stream_app \<Rightarrow> nat \<Rightarrow> pod \<Rightarrow> pod list \<Rightarrow> spa_proxy \<times> stream \<Rightarrow> (spa_proxy \<times> stream) option" where
  "open_format tt app a fmt params c = do {
     let px1 = snd (spa_proxy_node_port_set_io (fst c) SPA_DIRECTION_OUTPUT 0 (Some a));
     let px2 = snd (spa_proxy_node_port_set_format px1 SPA_DIRECTION_OUTPUT 0 0 (Some fmt));
     c1 \<leftarrow> to_client tt app None (px2, snd c);
     s \<leftarrow> pinos_stream_finish_format tt SPA_RESULT_OK params (snd c1);
     Some (to_server (fst c1, s)) }"

definition open_buffers ::
  "transport_types \<Rightarrow> stream_app \<Rightarrow> graph_buffer list \<Rightarrow> spa_proxy \<times> stream \<Rightarrow> (spa_proxy \<times> stream) option" where
  "open_buffers tt app bs c = do {
     (_, px) \<leftarrow> spa_proxy_node_port_use_buffers tt (fst c) SPA_DIRECTION_OUTPUT 0 bs;
     to_client tt app None (px, snd c) }"

definition open_session ::
  "transport_types \<Rightarrow> stream_app \<Rightarrow> transport_mem \<Rightarrow> (nat \<Rightarrow> spa_port_io) \<Rightarrow> int \<times> transport_mem \<Rightarrow> int \<times> int \<Rightarrow> pod list \<Rightarrow>
   nat \<Rightarrow> pod \<Rightarrow> pod list \<Rightarrow> graph_buffer list \<Rightarrow> session option" where
  "open_session tt app m ios shm ef formats a fmt params bs = do {
     c \<leftarrow> open_node tt app m ios shm ef formats;
     c1 \<leftarrow> open_format tt app a fmt params c;
     c2 \<leftarrow> open_buffers tt app bs c1;
     Some \<lparr>se_proxy = fst c2, se_stream = snd c2, se_held = []\<rparr> }"

section \<open>The node\<close>

text \<open>A node with one output port.\<close>

definition one_port :: "nat option \<Rightarrow> spa_proxy \<Rightarrow> bool" where
  "one_port io px \<longleftrightarrow> px_resource px \<and> (\<exists>p. px_out_ports px = p # replicate 63 empty_proxy_port \<and> pp_valid p \<and> pp_io p = io \<and>
     length (pp_buffers p) = 64)"

definition port0 :: "spa_proxy \<Rightarrow> proxy_port" where
  "port0 px = px_out_ports px ! 0"

lemma replicate_64: "replicate 64 x = x # replicate 63 x"
  using replicate_Suc [of 63 x] by simp

lemma one_port_mod:
  assumes "one_port io px" and "pp_valid (f (port0 px))" and "length (pp_buffers (f (port0 px))) = 64"
  shows "one_port (pp_io (f (port0 px))) (mod_proxy_port SPA_DIRECTION_OUTPUT 0 f px)"
  using assms by (auto simp: one_port_def port0_def mod_proxy_port_def)

lemma one_port_upd [simp]:
  "one_port io (px\<lparr>px_sent := x\<rparr>) = one_port io px" "one_port io (px\<lparr>px_seq := q\<rparr>) = one_port io px"
  "one_port io (px\<lparr>px_transport := t\<rparr>) = one_port io px" "one_port io (px\<lparr>px_mem := m\<rparr>) = one_port io px"
  "port0 (px\<lparr>px_sent := x\<rparr>) = port0 px" "port0 (px\<lparr>px_seq := q\<rparr>) = port0 px"
  by (simp_all add: one_port_def port0_def)

lemma one_port_check:
  assumes "one_port io px"
  shows "check_port px SPA_DIRECTION_OUTPUT 0" "px_resource px" "port_list SPA_DIRECTION_OUTPUT px ! 0 = port0 px"
    "length (port_list SPA_DIRECTION_OUTPUT px) = 64" "pp_io (port0 px) = io" "length (pp_buffers (port0 px)) = 64"
    "pp_valid (port0 px)"
  using assms by (auto simp: one_port_def check_port_def check_port_id_def port_list_def port0_def)

lemma port0_mod: "one_port io px \<Longrightarrow> port0 (mod_proxy_port SPA_DIRECTION_OUTPUT 0 f px) = f (port0 px)"
  by (auto simp: one_port_def port0_def mod_proxy_port_def)

lemma mod_port_rest [simp]: "px_transport (mod_proxy_port d p f px) = px_transport px" "px_mem (mod_proxy_port d p f px) = px_mem px"
  by (simp_all add: mod_proxy_port_def)

section \<open>Every stage\<close>

text \<open>The stream between the stages: an output stream with its socket, no memory and no buffers.\<close>

definition stream_up :: "stream \<Rightarrow> bool" where
  "stream_up s \<longleftrightarrow> stream_waits SPA_DIRECTION_OUTPUT s \<and> st_port_id s = 0 \<and> st_rt_mask s \<noteq> None \<and> st_sent s = []"

lemma quiet_state:
  assumes "quiet app"
  shows "\<exists>sig. stream_set_state tt app st s = Some (s\<lparr>st_state := st, st_signals := sig\<rparr>)"
  using set_state_silent assms by (simp add: quiet_def)

lemma new_stream:
  obtains s where "pinos_stream_new m = Some s" and "st_mem_ids s = []" and "array_ok (st_mem_array s)" and "arr_size (st_mem_array s) = 0"
    and "2560 \<le> unat (arr_alloc (st_buffer_array s))" and "st_sent s = []" and "st_format s = None" and "st_port_id s = 0"
proof -
  have "array_grow 64 2048 = Some 2048" "array_grow 32 2560 = Some 4096" by (simp_all add: array_grow_step array_grow_done)
  then show ?thesis
    using that by (simp add: pinos_stream_new_def pinos_array_ensure_size_def pinos_array_init_def array_ok_def)
qed

lemma stage_connect:
  assumes app: "quiet app"
  obtains s s1 where "pinos_stream_new m = Some s" and "pinos_stream_connect tt app True False formats s = Some (True, s1)"
    and "stream_waits SPA_DIRECTION_OUTPUT s1" and "st_port_id s1 = 0" and "st_sent s1 = []" and "st_format s1 = None"
    and "st_possible_formats s1 = formats"
proof -
  obtain s where s: "pinos_stream_new m = Some s" "st_mem_ids s = []" "array_ok (st_mem_array s)" "arr_size (st_mem_array s) = 0"
    "2560 \<le> unat (arr_alloc (st_buffer_array s))" "st_sent s = []" "st_format s = None" "st_port_id s = 0"
    by (rule new_stream)
  obtain sig where "stream_set_state tt app STREAM_CONNECTING (s\<lparr>st_direction := 1, st_port_id := 0, st_possible_formats := formats\<rparr>) =
      Some (s\<lparr>st_direction := 1, st_port_id := 0, st_possible_formats := formats, st_state := STREAM_CONNECTING, st_signals := sig\<rparr>)"
    using set_state_silent [of app STREAM_CONNECTING] app by (fastforce simp: quiet_def)
  then show ?thesis using that [OF s(1)] s by (simp add: pinos_stream_connect_def stream_waits_def)
qed

lemma stage_done:
  assumes app: "quiet app" and s: "stream_waits SPA_DIRECTION_OUTPUT s" "st_port_id s = 0" "st_sent s = []" "st_format s = None"
  obtains s1 info where "client_node_done tt app rfd wfd s = Some s1" and "stream_up (s1\<lparr>st_sent := []\<rparr>)"
    and "st_sent s1 = [Client_node_update 3 0 1 None,
      Client_node_port_update 1 0 9 (st_possible_formats s) None None (Some info),
      Client_node_event (ASYNC_COMPLETE_INIT (tt_AsyncComplete tt) 0 SPA_RESULT_OK)]"
proof -
  let ?info = "(st_port_info s)\<lparr>pi_flags := 8\<rparr>"
  let ?msgs = "[Client_node_update 3 0 1 None,
      Client_node_port_update 1 0 9 (st_possible_formats s) None None (Some ?info),
      Client_node_event (ASYNC_COMPLETE_INIT (tt_AsyncComplete tt) 0 SPA_RESULT_OK)]"
  have up: "st_node_proxy s" "st_direction s = 1" using s(1) by (simp_all add: stream_waits_def)
  have "do_node_init tt (handle_socket rfd wfd s) =
      Some ((handle_socket rfd wfd s)\<lparr>st_port_info := ?info, st_sent := ?msgs\<rparr>)"
    using up s by (simp add: do_node_init_def add_node_update_def add_port_update_def add_async_complete_def call_node_proxy_def
        handle_socket_def)
  moreover obtain sig where "stream_set_state tt app STREAM_CONFIGURE ((handle_socket rfd wfd s)\<lparr>st_port_info := ?info, st_sent := ?msgs\<rparr>) =
      Some ((handle_socket rfd wfd s)\<lparr>st_port_info := ?info, st_sent := ?msgs, st_state := STREAM_CONFIGURE, st_signals := sig\<rparr>)"
    using set_state_silent [of app STREAM_CONFIGURE] app by (fastforce simp: quiet_def)
  ultimately have "client_node_done tt app rfd wfd s =
      Some ((handle_socket rfd wfd s)\<lparr>st_port_info := ?info, st_sent := ?msgs, st_state := STREAM_CONFIGURE, st_signals := sig\<rparr>)"
    by (simp add: client_node_done_def)
  then show ?thesis using that s by (simp add: stream_up_def stream_waits_def handle_socket_def)
qed

text \<open>What the node makes of it.\<close>

lemma stage_announce:
  assumes "px = serve [Client_node_update 3 0 1 None, Client_node_port_update 1 0 9 formats None None (Some info), Client_node_event ev]
     ((snd (proxy_init (zero_proxy m ios)))\<lparr>px_resource := True\<rparr>)"
  shows "one_port None px" and "px_sent px = []" and "px_max_inputs px = 0" and "px_max_outputs px = 1" and "px_n_outputs px = 1"
  unfolding assms
  by (simp_all add: one_port_def serve_def client_node_dispatch_method_def client_node_update_def client_node_port_update_def
      check_port_id_def do_update_port_def mod_proxy_port_def count_port_def port_list_def proxy_init_def zero_proxy_def replicate_64
      update_proxy_port_def empty_proxy_port_def Let_def)

text \<open>The transport.\<close>

lemma reset_one: "reset_port_io base 1 io base = (io base)\<lparr>io_status := SPA_RESULT_OK, io_buffer_id := SPA_ID_INVALID\<rparr>"
  by (simp add: reset_port_io_def)

lemma stage_transport:
  assumes px: "one_port None px" "px_sent px = []" and data: "\<And>a. length (tm_data m a) = 4096"
  obtains ts m1 off sz tc where "px_on_initialized True (Some (fd, m)) 0 1 n_in 1 px =
      Some (px\<lparr>px_transport := Some ts, px_mem := m1, px_sent := [Node_transport fd off sz]\<rparr>)"
    and "pinos_transport_new_from_info True (Some m1) \<lparr>ti_memfd = fd, ti_offset = off, ti_size = sz\<rparr> = Some tc"
    and "two_ends ts tc" and "rt_ring (out_ring ts m1) []" and "rt_ring (in_ring ts m1) []"
    and "max_outputs (tm_area m1) = 1" and "n_outputs (tm_area m1) = 1" and "out_id ts m1 = SPA_ID_INVALID"
proof -
  obtain ts m0 where new: "pinos_transport_new True (Some (fd, m)) 0 1 = Some (Some (ts, m0))"
    by (simp add: pinos_transport_new_def Let_def)
  have area: "tm_area m0 = \<lparr>max_inputs = 0, n_inputs = 0, max_outputs = 1, n_outputs = 0\<rparr>" and fd: "mb_fd (tr_mem ts) = fd"
    and io: "tm_io m0 (tr_outputs ts) = (tm_io m (tr_outputs ts))\<lparr>io_status := SPA_RESULT_OK, io_buffer_id := SPA_ID_INVALID\<rparr>"
    and apart: "ends_apart ts"
    using new by (auto simp: pinos_transport_new_def transport_reset_area_def transport_setup_area_def Let_def reset_one ends_apart_def
        reset_port_io_def INPUT_BUFFER_SIZE_def)
  let ?m1 = "m0\<lparr>tm_area := (tm_area m0)\<lparr>n_inputs := n_in, n_outputs := 1\<rparr>\<rparr>"
  let ?off = "of_nat (tr_offset ts) :: u32" and ?sz = "of_nat (mb_size (tr_mem ts)) :: u32"
  obtain tc0 where tc0: "pinos_transport_new_from_info True (Some m0) \<lparr>ti_memfd = fd, ti_offset = ?off, ti_size = ?sz\<rparr> = Some tc0"
    by (simp add: pinos_transport_new_from_info_def Let_def)
  have tc: "pinos_transport_new_from_info True (Some ?m1) \<lparr>ti_memfd = fd, ti_offset = ?off, ti_size = ?sz\<rparr> = Some tc0"
    using tc0 by (simp add: pinos_transport_new_from_info_def transport_setup_area_def Let_def)
  have two: "two_ends ts tc0"
    using new tc0 area by (auto simp: two_ends_def pinos_transport_new_def pinos_transport_new_from_info_def transport_setup_area_def Let_def
        transport_reset_area_def ends_apart_def INPUT_BUFFER_SIZE_def)
  have rings: "in_ring ts ?m1 = in_ring ts m0" "out_ring ts ?m1 = out_ring ts m0" by (simp_all add: in_ring_def out_ring_def)
  have "px_on_initialized True (Some (fd, m)) 0 1 n_in 1 px =
      Some (px\<lparr>px_transport := Some ts, px_mem := ?m1, px_sent := [Node_transport fd ?off ?sz]\<rparr>)"
    using new px one_port_check(2) [OF px(1)]
    by (simp add: px_on_initialized_def notify_def pinos_transport_get_info_def fd Let_def)
  moreover have "rt_ring (out_ring ts ?m1) []" "rt_ring (in_ring ts ?m1) []"
    using new_transport_ends [OF new tc0 data] by (simp_all add: rings rt_ring_def)
  ultimately show ?thesis using that tc two area io by (simp add: out_id_def tr_output_def)
qed

text \<open>The format.\<close>

lemma stage_format:
  assumes px: "one_port None px" "px_sent px = []" and s: "stream_up s" and app: "quiet app"
  obtains px' s' where "open_format tt app a fmt params (px, s) = Some (px', s')" and "one_port (Some a) px'"
    and "pp_format (port0 px') = Some fmt" and "px_sent px' = []" and "px_transport px' = px_transport px" and "px_mem px' = px_mem px"
    and "stream_up s'" and "st_trans s' = st_trans s"
proof -
  let ?px1 = "mod_proxy_port SPA_DIRECTION_OUTPUT 0 (\<lambda>port. port\<lparr>pp_io := Some a\<rparr>) px"
  have valid: "pp_valid (port0 px)" "length (pp_buffers (port0 px)) = 64" using one_port_check [OF px(1)] by auto
  have p1: "one_port (Some a) ?px1" using one_port_mod [OF px(1), of "\<lambda>port. port\<lparr>pp_io := Some a\<rparr>"] valid by simp
  have io: "snd (spa_proxy_node_port_set_io px SPA_DIRECTION_OUTPUT 0 (Some a)) = ?px1"
    using one_port_check(1) [OF px(1)] by (simp add: spa_proxy_node_port_set_io_def)
  let ?px2 = "?px1\<lparr>px_sent := [Node_set_format (px_seq px) 1 0 0 (Some fmt)], px_seq := px_seq px + 1\<rparr>"
  have fm: "snd (spa_proxy_node_port_set_format ?px1 SPA_DIRECTION_OUTPUT 0 0 (Some fmt)) = ?px2"
    using one_port_check(1,2) [OF p1] px(2) by (simp add: spa_proxy_node_port_set_format_def async_request_def notify_def)
  obtain sig where "stream_set_state tt app STREAM_READY (s\<lparr>st_format := Some fmt, st_pending_seq := px_seq px, st_signals := st_signals s @ [Sig_format_changed (Some fmt)]\<rparr>) =
      Some (s\<lparr>st_format := Some fmt, st_pending_seq := px_seq px, st_state := STREAM_READY, st_signals := sig\<rparr>)"
    using quiet_state [OF app, of tt STREAM_READY "s\<lparr>st_format := Some fmt, st_pending_seq := px_seq px,
      st_signals := st_signals s @ [Sig_format_changed (Some fmt)]\<rparr>"] by auto
  then have dl: "to_client tt app None (?px2, s) =
      Some (?px2\<lparr>px_sent := []\<rparr>, s\<lparr>st_format := Some fmt, st_pending_seq := px_seq px, st_state := STREAM_READY, st_signals := sig\<rparr>)"
    using app by (simp add: to_client_def client_node_dispatch_def client_node_set_format_def emit_silent quiet_def)
  let ?s1 = "s\<lparr>st_format := Some fmt, st_pending_seq := px_seq px, st_state := STREAM_READY, st_signals := sig\<rparr>"
  let ?mask = "(if params \<noteq> [] then PORT_UPDATE_INFO else 0) OR PORT_UPDATE_FORMAT"
  let ?msgs = "[Client_node_port_update 1 0 ?mask (st_possible_formats s) (Some fmt) None (Some ((st_port_info s)\<lparr>pi_params := params\<rparr>)),
    Client_node_event (ASYNC_COMPLETE_INIT (tt_AsyncComplete tt) (px_seq px) SPA_RESULT_OK)]"
  let ?s2 = "?s1\<lparr>st_port_info := (st_port_info s)\<lparr>pi_params := []\<rparr>, st_pending_seq := SPA_ID_INVALID, st_sent := ?msgs\<rparr>"
  have up: "st_node_proxy s" "st_direction s = 1" "st_port_id s = 0" "st_sent s = []"
    using s by (auto simp: stream_up_def stream_waits_def)
  have fin: "pinos_stream_finish_format tt SPA_RESULT_OK params ?s1 = Some ?s2"
    using up by (simp add: pinos_stream_finish_format_def add_port_update_def add_async_complete_def call_node_proxy_def SPA_RESULT_IS_OK_def)
  let ?f = "update_proxy_port ?mask (map Some (st_possible_formats s)) (Some fmt) (Some ((st_port_info s)\<lparr>pi_params := params\<rparr>))"
  have f: "pp_valid (?f (port0 ?px1))" "pp_io (?f (port0 ?px1)) = Some a" "length (pp_buffers (?f (port0 ?px1))) = 64" "pp_format (?f (port0 ?px1)) = Some fmt"
    using one_port_check [OF p1] by (simp_all add: update_proxy_port_def Let_def)
  have "serve ?msgs (?px2\<lparr>px_sent := []\<rparr>) = mod_proxy_port SPA_DIRECTION_OUTPUT 0 ?f (?px2\<lparr>px_sent := []\<rparr>)"
    using one_port_check [OF p1]
    by (simp add: serve_def client_node_dispatch_method_def client_node_port_update_def check_port_id_def do_update_port_def port_list_def)
  then have "open_format tt app a fmt params (px, s) = Some (mod_proxy_port SPA_DIRECTION_OUTPUT 0 ?f (?px2\<lparr>px_sent := []\<rparr>), ?s2\<lparr>st_sent := []\<rparr>)"
    using io fm dl fin by (simp add: open_format_def to_server_def Let_def)
  moreover have "one_port (Some a) (?px2\<lparr>px_sent := []\<rparr>)" using p1 by simp
  ultimately show ?thesis
    using that one_port_mod [of "Some a" "?px2\<lparr>px_sent := []\<rparr>" ?f] port0_mod [of "Some a" "?px2\<lparr>px_sent := []\<rparr>" ?f] f s
    by (simp add: stream_up_def stream_waits_def)
qed

text \<open>The buffers.\<close>

definition buffers_ok :: "transport_types \<Rightarrow> graph_buffer list \<Rightarrow> bool" where
  "buffers_ok tt bs \<longleftrightarrow> bs \<noteq> [] \<and> length bs \<le> 64 \<and> (\<forall>b \<in> set bs. buffer_ok tt b) \<and> (\<forall>k < length bs. gb_id (bs ! k) = of_nat k)"

lemma stage_buffers:
  assumes px: "one_port (Some a) px" "pp_format (port0 px) \<noteq> None" "px_sent px = []" and s: "stream_up s" and app: "quiet app"
    and bs: "buffers_ok tt bs" and tr: "px_transport px = Some ts" "st_trans s = Some tc" "two_ends ts tc"
  obtains px' s' where "open_buffers tt app bs (px, s) = Some (px', s')" and "proxy_ok tt ts a px'" and "px_mem px' = px_mem px"
    and "stream_ok (length bs) ts s'" and "free_ids s' = map of_nat [0..<length bs]" and "st_node_proxy s'" and "st_rt_mask s' \<noteq> None"
proof -
  have b: "bs \<noteq> []" "length bs \<le> 64" "\<forall>b \<in> set bs. buffer_ok tt b" "\<forall>k < length bs. gb_id (bs ! k) = of_nat k"
    using bs by (simp_all add: buffers_ok_def)
  have "port_takes SPA_DIRECTION_OUTPUT 0 bs px"
    using one_port_check [OF px(1)] px(2) b(2) by (simp add: port_takes_def)
  from use_buffers_sends [OF this b(3)] obtain px' port where px': "spa_proxy_node_port_use_buffers tt px SPA_DIRECTION_OUTPUT 0 bs =
      Some (SPA_RESULT_RETURN_ASYNC (px_seq px), px')"
    "px_sent px' = mem_msgs SPA_DIRECTION_OUTPUT 0 0 (concat (map (buffer_mems tt) bs)) @
      [Node_use_buffers (px_seq px) SPA_DIRECTION_OUTPUT 0 (sent_buffers tt 0 bs)]"
    "px_transport px' = px_transport px" "px_mem px' = px_mem px"
    "px_out_ports px' = (px_out_ports px)[0 := port]" "pp_valid port" "pp_io port = pp_io (port0 px)"
    using px(3) one_port_check(3) [OF px(1)] by (auto simp: port_list_def)
  have waits: "stream_waits SPA_DIRECTION_OUTPUT s" using s by (simp add: stream_up_def)
  from use_buffers_delivered [OF waits app b(3,1,2,4), of None 0 "px_seq px"] px'(2)
  obtain s' where s': "deliver tt app (\<lambda>_. True) None (px_sent px') s = Some s'" "bufs_are tt bs s'" "st_direction s' = SPA_DIRECTION_OUTPUT"
      "st_node_proxy s'" "st_trans s' = st_trans s" "st_rt_mask s' = st_rt_mask s" "st_port_id s' = st_port_id s"
    by auto
  have open': "open_buffers tt app bs (px, s) = Some (px'\<lparr>px_sent := []\<rparr>, s')"
    using px'(1) s'(1) by (simp add: open_buffers_def to_client_def)
  have "proxy_ok tt ts a (px'\<lparr>px_sent := []\<rparr>)"
    using px px' tr(1,3) by (auto simp: proxy_ok_def two_ends_def one_port_def port0_def empty_proxy_port_def)
  moreover have "bi_id (client_view tt d b) = gb_id b" "bi_used (client_view tt d b) = (d \<noteq> SPA_DIRECTION_OUTPUT)" for d b
    by (simp_all add: client_view_def Let_def)
  then have "stream_ok (length bs) ts s'"
    using s' s tr(2,3) b(4) by (auto simp: stream_ok_def bufs_are_def stream_up_def)
  moreover have "free_ids s' = map of_nat [0..<length bs]" using s'(2,3) by (simp add: free_ids_def bufs_are_def)
  ultimately show ?thesis using that open' px'(4) s' s by (simp add: stream_up_def)
qed

section \<open>The session\<close>

lemma open_node_ok:
  assumes app: "quiet app" and data: "\<And>a. length (tm_data m1 a) = 4096" and fd: "fd \<noteq> - 1"
  obtains px s ts tc where "open_node tt app m ios (fd, m1) ef formats = Some (px, s)" and "one_port None px" and "px_sent px = []"
    and "stream_up s" and "px_transport px = Some ts" and "st_trans s = Some tc" and "two_ends ts tc"
    and "rt_ring (out_ring ts (px_mem px)) []" and "rt_ring (in_ring ts (px_mem px)) []"
    and "max_outputs (tm_area (px_mem px)) = 1" and "n_outputs (tm_area (px_mem px)) = 1" and "out_id ts (px_mem px) = SPA_ID_INVALID"
proof -
  let ?px0 = "(snd (proxy_init (zero_proxy m ios)))\<lparr>px_resource := True\<rparr>"
  have new: "pinos_client_node_new True True m ios = Some ?px0" by (simp add: pinos_client_node_new_def)
  obtain s0 s1 where s1: "pinos_stream_new m = Some s0" "pinos_stream_connect tt app True False formats s0 = Some (True, s1)"
    "stream_waits SPA_DIRECTION_OUTPUT s1" "st_port_id s1 = 0" "st_sent s1 = []" "st_format s1 = None" "st_possible_formats s1 = formats"
    by (rule stage_connect [OF app])
  obtain s2 info where s2: "client_node_done tt app (fst ef) (snd ef) s1 = Some s2" "stream_up (s2\<lparr>st_sent := []\<rparr>)"
    "st_sent s2 = [Client_node_update 3 0 1 None, Client_node_port_update 1 0 9 (st_possible_formats s1) None None (Some info),
      Client_node_event (ASYNC_COMPLETE_INIT (tt_AsyncComplete tt) 0 SPA_RESULT_OK)]"
    by (rule stage_done [OF app s1(3-6)])
  have sent: "px_sent ?px0 = []" by (simp add: proxy_init_def zero_proxy_def)
  then have "?px0\<lparr>px_sent := []\<rparr> = ?px0" by simp
  then have c: "to_client tt app None (notify [Node_done (fst ef) (snd ef)] ?px0, s1) = Some (?px0, s2)"
    using sent s2(1) by (simp add: to_client_def notify_def client_node_dispatch_def)
  let ?s2 = "s2\<lparr>st_sent := []\<rparr>"
  define px2 where "px2 = serve (st_sent s2) ?px0"
  note px2 = stage_announce [OF px2_def [unfolded s2(3)]]
  obtain ts m2 off sz tc where init: "px_on_initialized True (Some (fd, m1)) 0 1 (px_n_inputs px2) 1 px2 =
      Some (px2\<lparr>px_transport := Some ts, px_mem := m2, px_sent := [Node_transport fd off sz]\<rparr>)"
    and tc: "pinos_transport_new_from_info True (Some m2) \<lparr>ti_memfd = fd, ti_offset = off, ti_size = sz\<rparr> = Some tc"
    and ends: "two_ends ts tc" "rt_ring (out_ring ts m2) []" "rt_ring (in_ring ts m2) []" "max_outputs (tm_area m2) = 1"
      "n_outputs (tm_area m2) = 1" "out_id ts m2 = SPA_ID_INVALID"
    by (rule stage_transport [OF px2(1,2) data])
  let ?px3 = "px2\<lparr>px_transport := Some ts, px_mem := m2, px_sent := [Node_transport fd off sz]\<rparr>"
  let ?s3 = "?s2\<lparr>st_trans := Some tc, st_mem := m2\<rparr>"
  have "to_client tt app (Some m2) (?px3, ?s2) = Some (?px3\<lparr>px_sent := []\<rparr>, ?s3)"
    using fd tc by (simp add: to_client_def client_node_dispatch_def client_node_transport_def)
  then have "open_node tt app m ios (fd, m1) ef formats = Some (?px3\<lparr>px_sent := []\<rparr>, ?s3)"
    using new s1(1,2) c px2(3,4,5) init by (simp add: open_node_def to_server_def px2_def [symmetric])
  then show ?thesis using that [of _ ?s3 ts tc] px2 s2(2) ends by (simp add: stream_up_def stream_waits_def)
qed

lemma distinct_buffer_ids:
  assumes "n < 2 ^ 32"
  shows "distinct (map of_nat [0..<n] :: u32 list)" "set (map of_nat [0..<n]) \<subseteq> buffer_ids n"
  using assms of_nat_u32_inj by (auto simp: distinct_map inj_on_def buffer_ids_def)

lemma open_session_ok:
  assumes app: "quiet app" and data: "\<And>a. length (tm_data m1 a) = 4096" and fd: "fd \<noteq> - 1" and bs: "buffers_ok tt bs"
  obtains se where "open_session tt app m ios (fd, m1) ef formats a fmt params bs = Some se"
    and "session_inv tt (length bs) a se" and "session_places se = map of_nat [0..<length bs]"
proof -
  obtain px s ts tc where node: "open_node tt app m ios (fd, m1) ef formats = Some (px, s)" and px: "one_port None px" "px_sent px = []"
    and s: "stream_up s" and tr: "px_transport px = Some ts" "st_trans s = Some tc" "two_ends ts tc"
    and ends: "rt_ring (out_ring ts (px_mem px)) []" "rt_ring (in_ring ts (px_mem px)) []" "max_outputs (tm_area (px_mem px)) = 1"
      "n_outputs (tm_area (px_mem px)) = 1" "out_id ts (px_mem px) = SPA_ID_INVALID"
    by (rule open_node_ok [OF app data fd])
  obtain px1 s1 where fm: "open_format tt app a fmt params (px, s) = Some (px1, s1)" and px1: "one_port (Some a) px1"
    "pp_format (port0 px1) = Some fmt" "px_sent px1 = []" "px_transport px1 = px_transport px" "px_mem px1 = px_mem px"
    and s1: "stream_up s1" "st_trans s1 = st_trans s"
    by (rule stage_format [OF px s app])
  have "pp_format (port0 px1) \<noteq> None" "px_transport px1 = Some ts" "st_trans s1 = Some tc" using px1 s1 tr by auto
  then obtain px2 s2 where bf: "open_buffers tt app bs (px1, s1) = Some (px2, s2)" and px2: "proxy_ok tt ts a px2" "px_mem px2 = px_mem px1"
    and s2: "stream_ok (length bs) ts s2" "free_ids s2 = map of_nat [0..<length bs]" "st_node_proxy s2" "st_rt_mask s2 \<noteq> None"
    by (rule stage_buffers [OF px1(1) _ px1(3) s1(1) app bs _ _ tr(3)])
  let ?se = "\<lparr>se_proxy = px2, se_stream = s2, se_held = []\<rparr>"
  have "open_session tt app m ios (fd, m1) ef formats a fmt params bs = Some ?se"
    using node fm bf by (simp add: open_session_def)
  moreover have "length bs < 2 ^ 32" using bs by (simp add: buffers_ok_def)
  then have "flow_ok tt (length bs) ts (free_ids s2) [] [] [] (px_mem px2)"
    using ends distinct_buffer_ids [of "length bs"] px2(2) px1(5) s2(2) by (simp add: flow_ok_def)
  then have "session_inv tt (length bs) a ?se" using px2(1) s2 by (intro session_invI)
  moreover have "session_places ?se = map of_nat [0..<length bs]"
    using px2 px1(5) s2(2) ends(5) by (simp add: session_places_def proxy_ok_def)
  ultimately show ?thesis by (rule that)
qed

text \<open>C1. Every buffer has one owner. A client node and an output stream that are opened by their own operations (the node is
  made, the stream connects and announces its port, the transport is made and mapped, the format is agreed on and 1 to 64
  buffers are shared) start with all buffers free in the client, in order. From then on, whatever the order in which the graph
  pulls, gives buffers back and sends Start and Pause, both sides handle events and messages, and the application sends buffers
  with any ids, at any time or in its signals: no step fails or is undefined, and no buffer is in two of the places free list,
  io area of the transport and graph. One thing is asked of the inputs that a buffer is pushed to when the client says that it
  has output (\<open>session_allowed\<close>): they are done with it when \<^verbatim>\<open>process_input\<close> returns. An input that keeps the pushed buffer, as
  a sink that queues it does, is left out, because the code then gives the buffer two owners
  (shown at the end of this theory). A buffer that is pulled may be kept and given back at any time.\<close>

theorem stream_buffers_owned_once:
  assumes "quiet app" and "\<And>x. length (tm_data m1 x) = 4096" and "fd \<noteq> - 1" and "buffers_ok tt bs" and "types_ok tt"
  shows "\<exists>se0. open_session tt app m ios (fd, m1) ef formats a fmt params bs = Some se0 \<and>
    session_places se0 = map of_nat [0..<length bs] \<and>
    (\<forall>se. session_reach tt se0 se \<longrightarrow> distinct (session_places se) \<and> set (session_places se) \<subseteq> of_nat ` {..<length bs} \<and>
       (\<forall>act. session_allowed tt act se \<longrightarrow> session_step tt act se \<noteq> None))"
proof -
  obtain se0 where se0: "open_session tt app m ios (fd, m1) ef formats a fmt params bs = Some se0"
    "session_inv tt (length bs) a se0" "session_places se0 = map of_nat [0..<length bs]"
    by (rule open_session_ok [OF assms(1-4)])
  have n: "length bs < 2 ^ 32" using assms(4) by (simp add: buffers_ok_def)
  have "distinct (session_places se) \<and> set (session_places se) \<subseteq> of_nat ` {..<length bs} \<and>
      (\<forall>act. session_allowed tt act se \<longrightarrow> session_step tt act se \<noteq> None)" if r: "session_reach tt se0 se" for se
  proof -
    have inv: "session_inv tt (length bs) a se" by (rule session_reach_inv [OF r se0(2) assms(5) n])
    show ?thesis
      using session_places_distinct [OF inv] session_step_ok [OF inv assms(5) n] by (fastforce simp: buffer_ids_def)
  qed
  then show ?thesis using se0(1,3) by blast
qed

definition demo_buffers :: "graph_buffer list" where
  "demo_buffers = map (\<lambda>i. \<lparr>gb_id = of_nat i,
     gb_metas = [\<lparr>gm_type = 110, gm_size = 16, gm_data = Some \<lparr>sm_flags = 0, sm_fd = 5, sm_offset = of_nat (i * 4124), sm_size = 4124\<rparr>\<rparr>],
     gb_datas = [\<lparr>gd_type = 112, gd_flags = 0, gd_fd = 5, gd_mapoffset = of_nat (i * 4124 + 28), gd_maxsize = 4096\<rparr>]\<rparr>) [0, 1]"

theorem stream_buffers_owned_once_witness:
  "\<exists>se0 se. open_session stream_types (\<lambda>_. []) demo_mem (tm_io demo_mem) (7, demo_mem) (8, 9) [] 0 [] [] demo_buffers = Some se0 \<and>
     session_places se0 = [0, 1] \<and> session_step stream_types (Sv_command (SPA_EVENT_INIT (tt_Start stream_types))) se0 = Some se \<and>
     distinct (session_places se)"
proof -
  have pre: "quiet (\<lambda>_. [])" "\<And>x. length (tm_data demo_mem x) = 4096" "(7 :: int) \<noteq> - 1" "types_ok stream_types"
    by (simp_all add: quiet_def demo_mem_def types_ok_def stream_types_def)
  have len: "length demo_buffers = 2" by (simp add: demo_buffers_def)
  have "k < 2 \<Longrightarrow> gb_id (demo_buffers ! k) = of_nat k" for k by (cases k) (auto simp: demo_buffers_def)
  then have bs: "buffers_ok stream_types demo_buffers"
    by (auto simp: buffers_ok_def len) (auto simp: demo_buffers_def buffer_ok_def find_shared_def stream_types_def)
  obtain se0 where se0: "open_session stream_types (\<lambda>_. []) demo_mem (tm_io demo_mem) (7, demo_mem) (8, 9) [] 0 [] [] demo_buffers = Some se0"
    "session_places se0 = map of_nat [0..<2]"
    and r: "\<And>se. session_reach stream_types se0 se \<Longrightarrow> distinct (session_places se) \<and>
       (\<forall>act. session_allowed stream_types act se \<longrightarrow> session_step stream_types act se \<noteq> None)"
    using stream_buffers_owned_once [OF pre(1-3) bs pre(4), of demo_mem "tm_io demo_mem" "(8, 9)" "[]" 0 "[]" "[]"] len by auto
  let ?act = "Sv_command (SPA_EVENT_INIT (tt_Start stream_types))"
  have act: "session_allowed stream_types ?act se0" by (simp add: session_allowed_def)
  then obtain se where se: "session_step stream_types ?act se0 = Some se" using r [OF reach_start] by blast
  have "session_reach stream_types se0 se" by (rule reach_step [OF reach_start act se])
  then show ?thesis using se0 se r by (simp add: upt_rec)
qed

section \<open>A pushed buffer that is kept\<close>

lemma event_lengths: "length (SPA_EVENT_INIT t) = 16" "length (REUSE_BUFFER_INIT t p b) = 40"
  by (simp_all add: SPA_EVENT_INIT_def REUSE_BUFFER_INIT_def SPA_EVENT_INIT_COMPLEX_def SPA_POD_INT_INIT_def)

lemma add_event_room_ring:
  assumes q: "rt_ring (out_ring tr m) evs" and ev: "event_ok ev"
    and room: "length (concat evs) + length ev \<le> rb_capacity (out_ring tr m)"
  obtains m' where "pinos_transport_add_event (Some tr) (Some ev) m = Some (SPA_RESULT_OK, m')"
    and "rt_ring (out_ring tr m') (evs @ [ev])" and "rb_capacity (out_ring tr m') = rb_capacity (out_ring tr m)"
    and "tm_io m' = tm_io m" and "tm_area m' = tm_area m"
proof -
  have wf: "rb_wf (out_ring tr m)" "rb_contents (out_ring tr m) = concat evs" using q by (simp_all add: rt_ring_def)
  have r: "length (rb_contents (out_ring tr m)) + length ev \<le> rb_capacity (out_ring tr m)" using room wf(2) by simp
  obtain rb' data' where put: "rb_put ev (out_ring tr m) = Some (rb', data')"
    and add: "pinos_transport_add_event (Some tr) (Some ev) m =
      Some (SPA_RESULT_OK, m\<lparr>tm_data := (tm_data m)(output_data tr := data'), tm_rb := (tm_rb m)(output_buffer tr := rb')\<rparr>)"
      (is "_ = Some (_, ?m)")
    using add_event_room [OF wf(1) ev r] by auto
  have o: "out_ring tr ?m = (rb', data')" by (simp add: out_ring_def)
  have "rb_wf (rb', data') \<and> rb_contents (rb', data') = rb_contents (out_ring tr m) @ ev \<and>
      rb_capacity (rb', data') = rb_capacity (out_ring tr m)"
    using ring.put_ok [OF wf(1) r] put by auto
  then show ?thesis using that [OF add] o q ev by (auto simp: rt_ring_def)
qed

text \<open>C39. A buffer that an input keeps gets a second owner. When a node has a buffer for its links, \<^verbatim>\<open>on_node_have_output\<close> gives
  the buffer to the inputs and then asks the node for output; a client node finds the id still in its io area and
  adds the event \<open>ReuseBuffer\<close> for it, whether or not an input has kept the buffer to give it back later. So the graph holds the
  buffer and the client is told that it may fill it again. It is asked for the next buffer at once. (The ring has room for the
  two events.)\<close>

theorem kept_buffer_reported_reusable:
  assumes px: "px_transport (se_proxy se) = Some ts" "px_out_ports (se_proxy se) = p # ps" "pp_io p = Some a" "\<forall>q \<in> set ps. pp_io q = None"
    and b: "io_buffer_id (px_ios (se_proxy se) a) = b" "b \<noteq> SPA_ID_INVALID" and kept: "True \<in> set keeps"
    and ring: "rt_ring (out_ring ts (px_mem (se_proxy se))) evs"
      "length (concat evs) + 56 \<le> rb_capacity (out_ring ts (px_mem (se_proxy se)))"
    and area: "max_outputs (tm_area (px_mem (se_proxy se))) \<noteq> 0"
  shows "\<exists>se'. sv_have_output tt keeps se = Some se' \<and> b \<in> set (se_held se') \<and>
    rt_ring (out_ring ts (px_mem (se_proxy se'))) (evs @ [REUSE_BUFFER_INIT (tt_ReuseBuffer tt) 0 b, SPA_EVENT_INIT (tt_NeedInput tt)])"
proof -
  let ?px = "(se_proxy se)\<lparr>px_ios := (px_ios (se_proxy se))(a := (px_ios (se_proxy se) a)\<lparr>io_status := SPA_RESULT_NEED_BUFFER\<rparr>)\<rparr>"
  let ?reuse = "REUSE_BUFFER_INIT (tt_ReuseBuffer tt) 0 b" and ?need = "SPA_EVENT_INIT (tt_NeedInput tt)" and ?ti = "tr_output ts 0"
  let ?io = "(px_ios (se_proxy se) a)\<lparr>io_status := SPA_RESULT_NEED_BUFFER, io_buffer_id := SPA_ID_INVALID\<rparr>"
  obtain m1 where m1: "pinos_transport_add_event (Some ts) (Some ?reuse) (px_mem (se_proxy se)) = Some (SPA_RESULT_OK, m1)"
      "rt_ring (out_ring ts m1) (evs @ [?reuse])" "rb_capacity (out_ring ts m1) = rb_capacity (out_ring ts (px_mem (se_proxy se)))"
      "tm_area m1 = tm_area (px_mem (se_proxy se))"
    by (rule add_event_room_ring [OF ring(1) events_ok(2), of _ 0 b]) (use ring(2) in \<open>simp_all add: event_lengths\<close>)
  let ?m1 = "set_tr_io ?ti ?io m1"
  obtain m2 where m2: "pinos_transport_add_event (Some ts) (Some ?need) ?m1 = Some (SPA_RESULT_OK, m2)"
      "rt_ring (out_ring ts m2) ((evs @ [?reuse]) @ [?need])"
    by (rule add_event_room_ring [of ts ?m1 "evs @ [?reuse]" ?need]) (use m1(2,3) ring(2) in \<open>simp_all add: event_lengths\<close>)
  let ?ios = "(px_ios ?px)(a := tm_io m1 ?ti)"
  have "get_tr_output (Some ts) m1 0 = Some ?ti" using area m1(4) by (simp add: get_tr_output_def unat_gt_0)
  then have "px_swap_output tt 0 a ?px = Some (True, True, ?px\<lparr>px_mem := ?m1, px_ios := ?ios\<rparr>)"
    using px(1) b m1(1) by (simp add: px_swap_output_def px_add_event_def)
  then have "px_swap_outputs tt 0 (px_out_ports ?px) ?px = Some (True, True, ?px\<lparr>px_mem := ?m1, px_ios := ?ios\<rparr>)"
    using px(2-4) by (simp add: no_io_ports)
  then have out: "spa_proxy_node_process_output tt ?px =
      Some (SPA_RESULT_HAVE_BUFFER, do_flush (?px\<lparr>px_mem := m2, px_ios := ?ios\<rparr>))"
    using m2(1) px(1) by (simp add: spa_proxy_node_process_output_def px_send_need_input_def px_add_event_def do_flush_def)
  have "b \<in> set (map (\<lambda>_. b) (filter id keeps))" using kept by auto
  then show ?thesis using out m2(2) px(2,3) b by (simp add: sv_have_output_def Let_def do_flush_def)
qed

definition push_session :: session where
  "push_session = \<lparr>se_proxy = (zero_proxy (demo_mem\<lparr>tm_area := \<lparr>max_inputs = 0, n_inputs = 0, max_outputs = 1, n_outputs = 1\<rparr>,
       tm_rb := \<lambda>_. \<lparr>readindex = 0, writeindex = 0, rb_size = 4096, rb_mask = 4095\<rparr>\<rparr>) (tm_io demo_mem))
     \<lparr>px_transport := Some demo_transport, px_out_ports := [empty_proxy_port\<lparr>pp_io := Some 0\<rparr>]\<rparr>,
     se_stream = the (pinos_stream_new demo_mem), se_held = []\<rparr>"

theorem kept_buffer_reported_reusable_witness:
  "\<exists>se'. sv_have_output stream_types [False, True] push_session = Some se' \<and> 0 \<in> set (se_held se') \<and>
    rt_ring (out_ring demo_transport (px_mem (se_proxy se')))
      ([] @ [REUSE_BUFFER_INIT (tt_ReuseBuffer stream_types) 0 0, SPA_EVENT_INIT (tt_NeedInput stream_types)])"
proof -
  have "\<exists>k \<le> 30. (4096 :: nat) = 2 ^ k" by (rule exI [of _ 12]) simp
  then have "rb_wf (out_ring demo_transport (px_mem (se_proxy push_session)))"
    by (simp add: out_ring_def push_session_def zero_proxy_def demo_mem_def)
  then have "rt_ring (out_ring demo_transport (px_mem (se_proxy push_session))) []"
    by (simp add: rt_ring_def out_ring_def push_session_def zero_proxy_def demo_mem_def)
  then show ?thesis
    by (intro kept_buffer_reported_reusable [where p = "empty_proxy_port\<lparr>pp_io := Some 0\<rparr>" and ps = "[]" and a = 0])
      (simp_all add: push_session_def zero_proxy_def demo_mem_def out_ring_def)
qed

end
