(* ===== verification/Pinos_Link_Stream.thy ===== *)
theory Pinos_Link_Stream
  imports Pinos_Link_Alloc Pinos_Stream_Buffers
begin

text \<open>
  The buffers of a link at a client: what \<^verbatim>\<open>alloc_buffers\<close> lays out in one block of shared memory is given to a
  client node with \<^verbatim>\<open>port_use_buffers\<close>, and the stream finds the metadata, chunk headers and data at the places
  where the server has them.
\<close>

section \<open>Buffers of a link\<close>

text \<open>The buffer with the description of its part of the block, as \<^verbatim>\<open>alloc_buffers\<close> writes it, when the block is the
  file \<open>fd\<close>.\<close>

definition shared_buffer :: "link_types \<Rightarrow> int \<Rightarrow> link_buffer \<Rightarrow> graph_buffer" where
  "shared_buffer lt fd lb =
     \<lparr>gb_id = lb_id lb,
      gb_metas = map (\<lambda>m. \<lparr>gm_type = lm_type m, gm_size = lm_size m,
        gm_data = (if lm_type m = lt_Shared lt
          then Some \<lparr>sm_flags = 0, sm_fd = fd, sm_offset = msh_offset (hd (lb_shared lb)), sm_size = msh_size (hd (lb_shared lb))\<rparr>
          else None)\<rparr>) (lb_metas lb),
      gb_datas = map (\<lambda>x. \<lparr>gd_type = ld_type x, gd_flags = 0, gd_fd = fd, gd_mapoffset = ld_mapoffset x, gd_maxsize = ld_maxsize x\<rparr>)
        (lb_datas lb)\<rparr>"

text \<open>Where the two sides have a buffer: its id, type, size and place of the metadata; file, offset and size of the data and
  the place of the chunk header.\<close>

type_synonym buffer_places = "u32 \<times> (u32 \<times> u32 \<times> shm_loc) list \<times> (int option \<times> u32 \<times> u32 \<times> shm_loc) list"

definition server_places :: "int \<Rightarrow> link_buffer \<Rightarrow> buffer_places" where
  "server_places fd lb = (lb_id lb, map (\<lambda>m. (lm_type m, lm_size m, (fd, lm_data m))) (lb_metas lb),
     map (\<lambda>x. (Some fd, ld_mapoffset x, ld_maxsize x, (fd, ld_chunk x))) (lb_datas lb))"

definition client_places :: "buffer_id \<Rightarrow> buffer_places" where
  "client_places b = (bi_id b, sb_metas (bi_buf b),
     map (\<lambda>x. (dt_fd x, dt_mapoffset x, dt_maxsize x, dt_chunk x)) (sb_datas (bi_buf b)))"

abbreviation link_metas :: "link_types \<Rightarrow> meta_desc list" where
  "link_metas lt \<equiv> [\<lparr>md_type = lt_Shared lt, md_size = ucast sizeof_SpaMetaShared\<rparr>]"

lemma place_datas_length [simp]: "length (place_datas lt cdp ddp ds) = length ds"
  by (induction lt cdp ddp ds rule: place_datas.induct) simp_all

lemma place_datas_chunk: "k < length ds \<Longrightarrow> ld_chunk (place_datas lt cdp ddp ds ! k) = cdp + sizeof_SpaChunk * of_nat k"
  by (induction lt cdp ddp ds arbitrary: k rule: place_datas.induct) (auto simp: nth_Cons' algebra_simps of_nat_diff)

lemma place_datas_type: "\<forall>x \<in> set ds. 0 < fst x \<Longrightarrow> x \<in> set (place_datas lt cdp ddp ds) \<Longrightarrow> ld_type x = lt_MemFd lt"
  by (induction lt cdp ddp ds rule: place_datas.induct) auto

lemma ucast_small_back: "unat (w :: u64) < 2 ^ 32 \<Longrightarrow> (ucast (ucast w :: u32) :: u64) = w"
  by (rule word_unat_eq_iff [THEN iffD2]) (simp only: unat_ucast_u64 unat_scast_small)

lemma shared_buffer_ok:
  assumes "lt_Shared lt = tt_Shared tt" and "lt_MemFd lt = tt_MemFd tt" and "length datas \<le> 4" and "\<forall>x \<in> set datas. 0 < fst x"
  shows "buffer_ok tt (shared_buffer lt fd (place_buffer lt (link_metas lt) datas ds i))"
  using assms place_datas_type [OF assms(4)]
  by (fastforce simp: buffer_ok_def shared_buffer_def place_buffer_def Let_def find_shared_def)

lemma places_agree:
  assumes "lt_Shared lt = tt_Shared tt" and small: "unat (ds * ucast i :: u64) < 2 ^ 32"
  shows "client_places (client_view tt d (shared_buffer lt fd (place_buffer lt (link_metas lt) datas ds i))) =
    server_places fd (place_buffer lt (link_metas lt) datas ds i)"
proof -
  let ?lb = "place_buffer lt (link_metas lt) datas ds i"
  let ?p = "ds * ucast i + ucast (ucast sizeof_SpaMetaShared :: u32) :: u64"
  have base: "shared_loc tt (shared_buffer lt fd ?lb) = (fd, ds * ucast i)"
    using assms by (simp add: shared_loc_def shared_data_def find_shared_def shared_buffer_def place_buffer_def Let_def ucast_small_back)
  have datas: "lb_datas ?lb = place_datas lt ?p (?p + sizeof_SpaChunk * of_nat (length datas)) datas"
    by (simp add: place_buffer_def Let_def)
  have metas: "lb_metas ?lb = [\<lparr>lm_type = lt_Shared lt, lm_data = ds * ucast i, lm_size = ucast sizeof_SpaMetaShared\<rparr>]"
    "lb_id ?lb = i" by (simp_all add: place_buffer_def Let_def)
  show ?thesis
    unfolding client_places_def server_places_def client_view_def Let_def base
    by (auto simp: shared_buffer_def metas datas meta_offset_def loc_add_def place_datas_chunk sizeof_SpaChunk_def o_def
        intro!: nth_equalityI)
qed

text \<open>C3. What the server lays out is what the client finds. The buffers that \<^verbatim>\<open>alloc_buffers\<close> makes, at most 64
  of at most 4 data blocks in a block smaller than 4 GiB, are accepted by the port of a client node; when the messages it
  sends are delivered, in order, to a stream that has no memory and no buffers, every one is handled, the stream is paused,
  reports success under the sequence number of the request, and has the same buffers: ids, types and sizes, and the
  metadata, chunk headers and data of each at the same offsets of the same file. On an output stream all are free, in order.\<close>

theorem link_buffers_reach_client:
  assumes alloc: "alloc_buffers True lt n params datas = Some (bufs, blen)"
    and size: "unat n * (16 + 12 * length datas + data_bytes datas) < 2 ^ 32" "0 < n" "unat n \<le> 64" "length datas \<le> 4"
    and data: "\<forall>x \<in> set datas. 0 < fst x"
    and types: "lt_Shared lt = tt_Shared tt" "lt_MemFd lt = tt_MemFd tt"
    and px: "port_takes d p (map (shared_buffer lt fd) bufs) px" "px_sent px = []"
    and st: "stream_waits d s" "quiet app"
  shows "\<exists>px' s'. spa_proxy_node_port_use_buffers tt px d p (map (shared_buffer lt fd) bufs) =
      Some (SPA_RESULT_RETURN_ASYNC (px_seq px), px') \<and>
    deliver tt app (\<lambda>_. True) mp (px_sent px') s = Some s' \<and>
    map client_places (st_buffer_ids s') = map (server_places fd) bufs \<and>
    st_free s' = (if d = SPA_DIRECTION_OUTPUT then [0..<unat n] else []) \<and> st_state s' = STREAM_PAUSED \<and>
    st_sent s' = st_sent s @ [Client_node_event (ASYNC_COMPLETE_INIT (tt_AsyncComplete tt) (px_seq px) SPA_RESULT_OK)]"
proof -
  let ?d = "16 + 12 * length datas + data_bytes datas"
  let ?ds = "buffer_data_size (link_metas lt) (map fst datas)"
  let ?bs = "map (shared_buffer lt fd) bufs"
  have bufs: "bufs = map (place_buffer lt (link_metas lt) datas ?ds) (map of_nat [0..<unat n])"
    using alloc by (auto simp: alloc_buffers_def Let_def split: bind_splits dest!: alloc_metas_shared)
  have len: "length ?bs = unat n" by (simp add: bufs)
  have ok: "\<forall>b \<in> set ?bs. buffer_ok tt b" using shared_buffer_ok [OF types size(4) data] by (auto simp: bufs)
  have ids: "\<forall>k < length ?bs. gb_id (?bs ! k) = of_nat k" by (simp add: bufs shared_buffer_def place_buffer_def Let_def)
  have "?d \<le> unat n * ?d" using size(2) by (simp add: word_less_nat_alt)
  then have "?d < 2 ^ 32" using size(1) by linarith
  then have ds: "unat ?ds = ?d" by (intro buffer_data_size_bytes) simp
  have small: "unat (?ds * ucast i) < 2 ^ 32" if "i \<in> set (map of_nat [0..<unat n])" for i :: u32
  proof -
    have "unat i \<le> unat n" using that size(3) by (auto simp: unsigned_of_nat take_bit_nat_eq_self)
    then have "unat i * ?d < 2 ^ 32" using le_less_trans [OF mult_le_mono1 size(1)] by blast
    moreover from this have "?d * unat i mod 2 ^ 64 = unat i * ?d" by (subst mult.commute) simp
    ultimately show ?thesis using ds by (simp add: unat_word_ariths(2) unat_ucast_u64)
  qed
  obtain px' where px': "spa_proxy_node_port_use_buffers tt px d p ?bs = Some (SPA_RESULT_RETURN_ASYNC (px_seq px), px')"
    "px_sent px' = mem_msgs d p 0 (concat (map (buffer_mems tt) ?bs)) @ [Node_use_buffers (px_seq px) d p (sent_buffers tt 0 ?bs)]"
    using use_buffers_sends [OF px(1) ok] px(2) by auto
  have "?bs \<noteq> []" "length ?bs \<le> 64" using len size(2,3) by (auto simp: word_less_nat_alt)
  from use_buffers_delivered [OF st ok this ids, of mp p "px_seq px"] obtain s' where s':
    "deliver tt app (\<lambda>_. True) mp (px_sent px') s = Some s'" "bufs_are tt ?bs s'" "st_direction s' = d" "st_state s' = STREAM_PAUSED"
    "st_sent s' = st_sent s @ [Client_node_event (ASYNC_COMPLETE_INIT (tt_AsyncComplete tt) (px_seq px) SPA_RESULT_OK)]"
    unfolding px'(2) by blast
  have "map client_places (st_buffer_ids s') = map (server_places fd) bufs"
    using s'(2,3) places_agree [OF types(1) small, of _ d fd] by (simp add: bufs_are_def bufs)
  then show ?thesis using px'(1) s' len by (simp add: bufs_are_def)
qed

text \<open>A stream that connects is such a stream.\<close>

lemma new_stream_waits:
  assumes "quiet app"
  shows "\<exists>s s1. pinos_stream_new m = Some s \<and> pinos_stream_connect tt app True inp formats s = Some (True, s1) \<and>
    stream_waits (if inp then SPA_DIRECTION_INPUT else SPA_DIRECTION_OUTPUT) s1"
proof -
  have g: "array_grow 64 2048 = Some 2048" "array_grow 32 2560 = Some 4096" by (simp_all add: array_grow_step array_grow_done)
  obtain s where s: "pinos_stream_new m = Some s" "st_mem_ids s = []" "array_ok (st_mem_array s)" "arr_size (st_mem_array s) = 0"
    "2560 \<le> unat (arr_alloc (st_buffer_array s))"
    using g by (simp add: pinos_stream_new_def pinos_array_ensure_size_def pinos_array_init_def array_ok_def)
  let ?d = "if inp then SPA_DIRECTION_INPUT else SPA_DIRECTION_OUTPUT"
  obtain sig where "stream_set_state tt app STREAM_CONNECTING (s\<lparr>st_direction := ?d, st_port_id := 0, st_possible_formats := formats\<rparr>) =
      Some (s\<lparr>st_direction := ?d, st_port_id := 0, st_possible_formats := formats, st_state := STREAM_CONNECTING, st_signals := sig\<rparr>)"
    using set_state_silent [of app STREAM_CONNECTING] assms by (fastforce simp: quiet_def)
  then show ?thesis using s by (simp add: pinos_stream_connect_def stream_waits_def)
qed

definition ex_proxy :: spa_proxy where
  "ex_proxy = (zero_proxy demo_mem (tm_io demo_mem))\<lparr>px_resource := True,
     px_out_ports := empty_proxy_port\<lparr>pp_valid := True, pp_format := Some []\<rparr> # replicate 63 empty_proxy_port\<rparr>"

theorem link_buffers_reach_client_witness:
  "\<exists>bufs blen px' s s1 s'. alloc_buffers True ex_link_types 2 [ex_buffers_param] [(4096, 4)] = Some (bufs, blen) \<and>
     pinos_stream_new demo_mem = Some s \<and> pinos_stream_connect stream_types (\<lambda>_. []) True False [] s = Some (True, s1) \<and>
     spa_proxy_node_port_use_buffers stream_types ex_proxy 1 0 (map (shared_buffer ex_link_types 7) bufs) =
       Some (SPA_RESULT_RETURN_ASYNC 0, px') \<and>
     deliver stream_types (\<lambda>_. []) (\<lambda>_. True) None (px_sent px') s1 = Some s' \<and>
     map client_places (st_buffer_ids s') = map (server_places 7) bufs \<and> st_free s' = [0, 1]"
proof -
  have "\<exists>bufs blen. alloc_buffers True ex_link_types 2 [ex_buffers_param] [(4096, 4)] = Some (bufs, blen)"
    by (simp add: alloc_buffers_def Let_def ex_link_types_def ex_buffers_param_def alloc_metas_object_params)
  then obtain bufs blen where alloc: "alloc_buffers True ex_link_types 2 [ex_buffers_param] [(4096, 4)] = Some (bufs, blen)" by blast
  have q: "quiet (\<lambda>_. [])" by (simp add: quiet_def)
  obtain s s1 where s: "pinos_stream_new demo_mem = Some s" "pinos_stream_connect stream_types (\<lambda>_. []) True False [] s = Some (True, s1)"
    "stream_waits 1 s1"
    using new_stream_waits [OF q, of demo_mem stream_types False "[]"] by auto
  have "length bufs = 2" using alloc by (auto simp: alloc_buffers_def Let_def split: bind_splits dest!: alloc_metas_shared)
  then have px: "port_takes 1 0 (map (shared_buffer ex_link_types 7) bufs) ex_proxy"
    by (simp add: port_takes_def ex_proxy_def port_list_def check_port_def check_port_id_def empty_proxy_port_def)
  have sent: "px_sent ex_proxy = []" "px_seq ex_proxy = 0" by (simp_all add: ex_proxy_def zero_proxy_def)
  have types: "lt_Shared ex_link_types = tt_Shared stream_types" "lt_MemFd ex_link_types = tt_MemFd stream_types"
    by (simp_all add: ex_link_types_def stream_types_def)
  have "[0..<2] = [0, 1 :: nat]" by (simp add: upt_rec)
  with link_buffers_reach_client [OF alloc _ _ _ _ _ types px sent(1) s(3) q, of None] s(1,2) alloc
  show ?thesis unfolding sent(2) by (auto simp: data_bytes_def)
qed

end
