(* ===== verification/Pinos_Stream_Input.thy ===== *)
theory Pinos_Stream_Input
  imports Pinos_Stream_Flow Pinos_Stream_Buffers
begin

text \<open>
  The buffers of an input stream. The flag \<^verbatim>\<open>used\<close> of a buffer is set when the buffers arrive and cleared by
  \<^verbatim>\<open>pinos_stream_recycle_buffer\<close>; a new delivery of the buffer does not set it.
\<close>

definition recycles_only :: "stream_app \<Rightarrow> bool" where
  "recycles_only app \<longleftrightarrow> (\<forall>sig. \<forall>c \<in> set (app sig). \<exists>i. c = Call_recycle_buffer i)"

text \<open>The events of the transport, one after the other.\<close>

fun handle_rtnode_events :: "transport_types \<Rightarrow> stream_app \<Rightarrow> byte list list \<Rightarrow> stream \<Rightarrow> stream option" where
  "handle_rtnode_events tt app [] s = Some s"
| "handle_rtnode_events tt app (ev # evs) s = do { s1 \<leftarrow> handle_rtnode_event tt app ev s; handle_rtnode_events tt app evs s1 }"

text \<open>The buffers keep their ids, and no buffer becomes used.\<close>

definition not_more_used :: "stream \<Rightarrow> stream \<Rightarrow> bool" where
  "not_more_used s s' \<longleftrightarrow> st_in_order s' = st_in_order s \<and> map bi_id (st_buffer_ids s') = map bi_id (st_buffer_ids s) \<and>
     (\<forall>k < length (st_buffer_ids s). bi_used (st_buffer_ids s' ! k) \<longrightarrow> bi_used (st_buffer_ids s ! k))"

lemma not_more_used_trans: "not_more_used s s1 \<Longrightarrow> not_more_used s1 s2 \<Longrightarrow> not_more_used s s2"
  by (auto simp: not_more_used_def dest: map_eq_imp_length_eq)

lemma not_more_used_same:
  "st_in_order s' = st_in_order s \<Longrightarrow> st_buffer_ids s' = st_buffer_ids s \<Longrightarrow> not_more_used s s'"
  by (simp add: not_more_used_def)

lemma not_more_used_find:
  assumes "not_more_used s s'"
  shows "find_buffer s' i = find_buffer s i"
proof -
  have len: "length (st_buffer_ids s') = length (st_buffer_ids s)" using assms by (auto simp: not_more_used_def dest: map_eq_imp_length_eq)
  have "bi_id (st_buffer_ids s' ! k) = bi_id (st_buffer_ids s ! k)" if "k < length (st_buffer_ids s)" for k
    using assms that len nth_map [of k "st_buffer_ids s'" bi_id] nth_map [of k "st_buffer_ids s" bi_id] by (simp add: not_more_used_def)
  then have "find (\<lambda>k. bi_id (st_buffer_ids s' ! k) = i) [0..<length (st_buffer_ids s)] =
      find (\<lambda>k. bi_id (st_buffer_ids s ! k) = i) [0..<length (st_buffer_ids s)]"
    by (intro find_cong) auto
  then show ?thesis using assms len by (simp add: find_buffer_def not_more_used_def)
qed

lemma find_buffer_bound: "find_buffer s i = Some k \<Longrightarrow> k < length (st_buffer_ids s)"
  by (auto simp: find_buffer_def find_Some_iff split: if_splits)

lemma unuse_ok: "not_more_used s (set_used k False s)"
proof -
  let ?xs = "st_buffer_ids s" and ?ys = "st_buffer_ids (set_used k False s)"
  have "bi_id (?ys ! j) = bi_id (?xs ! j) \<and> (bi_used (?ys ! j) \<longrightarrow> bi_used (?xs ! j))" if "j < length ?xs" for j
    using that by (cases "j = k") (simp_all add: set_used_def)
  moreover from this have "map bi_id ?ys = map bi_id ?xs" by (intro nth_equalityI) (simp_all add: set_used_def)
  ultimately show ?thesis by (simp add: not_more_used_def set_used_def)
qed

lemma add_event_used: "st_add_event ev s = Some s' \<Longrightarrow> not_more_used s s'"
  by (auto simp: st_add_event_def not_more_used_same)

lemma free_append_used: "free_append k s = Some s' \<Longrightarrow> not_more_used s s'"
  by (auto simp: free_append_def not_more_used_same split: if_splits)

lemma recycle_used:
  assumes "pinos_stream_recycle_buffer tt i s = Some (b, s')"
  shows "not_more_used s s'"
  using assms
  by (auto simp: pinos_stream_recycle_buffer_def not_more_used_same split: option.splits if_splits bind_splits
      dest!: add_event_used free_append_used intro: not_more_used_trans unuse_ok)

lemma calls_used:
  assumes "\<forall>c \<in> set cs. \<exists>i. c = Call_recycle_buffer i" and "stream_do_calls tt cs s = Some s'"
  shows "not_more_used s s'"
  using assms
proof (induction cs arbitrary: s)
  case (Cons c cs)
  then obtain i s1 where c: "c = Call_recycle_buffer i" "stream_do_call tt (Call_recycle_buffer i) s = Some s1" "stream_do_calls tt cs s1 = Some s'"
    by (auto split: bind_splits)
  then obtain b where "pinos_stream_recycle_buffer tt i s = Some (b, s1)" by (auto simp: stream_do_call_def)
  then have "not_more_used s s1" by (rule recycle_used)
  moreover have "not_more_used s1 s'" using Cons.IH [of s1] Cons.prems(1) c(3) by simp
  ultimately show ?case by (rule not_more_used_trans)
qed (simp add: not_more_used_same)

lemma emit_used:
  assumes "recycles_only app" and "emit tt app sig s = Some s'"
  shows "not_more_used s s'"
  using assms calls_used [of "app sig" tt "s\<lparr>st_signals := st_signals s @ [sig]\<rparr>" s']
  by (auto simp: emit_def recycles_only_def not_more_used_def)

lemma clear_io_used: "not_more_used s (clear_io_id a s)"
  by (simp add: clear_io_id_def not_more_used_same)

lemma new_inputs_used: "recycles_only app \<Longrightarrow> new_inputs tt app is s = Some s' \<Longrightarrow> not_more_used s s'"
proof (induction "is" arbitrary: s)
  case (Cons i "is")
  then obtain a s1 where "(if io_buffer_id (tm_io (st_mem s) a) = SPA_ID_INVALID then Some s
      else map_option (clear_io_id a) (emit tt app (Sig_new_buffer (io_buffer_id (tm_io (st_mem s) a))) s)) = Some s1"
    "new_inputs tt app is s1 = Some s'"
    by (auto simp: Let_def split: bind_splits)
  then show ?case
    using Cons.IH [OF Cons.prems(1)] emit_used [OF Cons.prems(1)] clear_io_used not_more_used_trans by (auto split: if_splits) blast+
qed (simp add: not_more_used_same)

lemma reuse_used:
  assumes "recycles_only app" and "stream_reuse_buffer tt app i s = Some s'"
  shows "not_more_used s s'"
proof (cases "\<exists>k. find_buffer s i = Some k \<and> bi_used (st_buffer_ids s ! k)")
  case True
  then obtain k s1 where "find_buffer s i = Some k" "free_append k (set_used k False s) = Some s1" "emit tt app (Sig_new_buffer i) s1 = Some s'"
    using assms(2) by (auto simp: stream_reuse_buffer_def split: bind_splits)
  then show ?thesis by (meson free_append_used emit_used [OF assms(1)] unuse_ok not_more_used_trans)
next
  case False
  then have "s' = s" using assms(2) by (auto simp: stream_reuse_buffer_def split: option.splits)
  then show ?thesis by (simp add: not_more_used_same)
qed

lemma reuse_outputs_used: "recycles_only app \<Longrightarrow> reuse_outputs tt app is s = Some s' \<Longrightarrow> not_more_used s s'"
proof (induction "is" arbitrary: s)
  case (Cons i "is")
  then obtain a s1 where "(if io_buffer_id (tm_io (st_mem s) a) = SPA_ID_INVALID then Some s
      else map_option (clear_io_id a) (stream_reuse_buffer tt app (io_buffer_id (tm_io (st_mem s) a)) s)) = Some s1"
    "reuse_outputs tt app is s1 = Some s'"
    by (auto simp: Let_def split: bind_splits)
  then show ?case
    using Cons.IH [OF Cons.prems(1)] reuse_used [OF Cons.prems(1)] clear_io_used not_more_used_trans by (auto split: if_splits) blast+
qed (simp add: not_more_used_same)

lemma need_buffer_used:
  assumes "recycles_only app" and "emit_need_buffer tt app s = Some s'"
  shows "not_more_used s s'"
proof -
  obtain s1 where "emit tt app Sig_need_buffer (s\<lparr>st_in_need_buffer := True\<rparr>) = Some s1" "s' = s1\<lparr>st_in_need_buffer := False\<rparr>"
    using assms(2) by (auto simp: emit_need_buffer_def)
  then show ?thesis using emit_used [OF assms(1)] by (fastforce simp: not_more_used_def)
qed

lemma event_used:
  assumes "recycles_only app" and "handle_rtnode_event tt app ev s = Some s'"
  shows "not_more_used s s'"
proof -
  obtain t where t: "SPA_EVENT_TYPE ev = Some t" using assms(2) by (auto simp: handle_rtnode_event_def split: bind_splits)
  consider (out) "t = tt_HaveOutput tt" | (need) "t \<noteq> tt_HaveOutput tt" "t = tt_NeedInput tt"
    | (rest) "t \<noteq> tt_HaveOutput tt" "t \<noteq> tt_NeedInput tt"
    by blast
  then show ?thesis
  proof cases
    case out
    then show ?thesis using assms t by (auto simp: handle_rtnode_event_def split: if_splits dest: new_inputs_used)
  next
    case need
    then obtain s1 where "reuse_outputs tt app [0..<unat (n_outputs (tm_area (st_mem s)))] s = Some s1" "emit_need_buffer tt app s1 = Some s'"
      using assms(2) t by (auto simp: handle_rtnode_event_def split: if_splits bind_splits)
    then show ?thesis by (meson reuse_outputs_used need_buffer_used assms(1) not_more_used_trans)
  next
    case rest
    then have "s' = s \<or> (\<exists>b. stream_reuse_buffer tt app b s = Some s')"
      using assms(2) t by (auto simp: handle_rtnode_event_def split: if_splits bind_splits)
    then show ?thesis using reuse_used [OF assms(1)] by (auto intro: not_more_used_same)
  qed
qed

lemma events_used: "recycles_only app \<Longrightarrow> handle_rtnode_events tt app evs s = Some s' \<Longrightarrow> not_more_used s s'"
proof (induction evs arbitrary: s)
  case (Cons ev evs)
  then show ?case by (auto split: bind_splits intro: not_more_used_trans event_used)
qed (simp add: not_more_used_same)

text \<open>C40. A buffer of an input stream goes back to the server once. When an application has recycled a buffer, then, whatever
  events of the transport follow, and also when they deliver the same buffer again, recycling it a second time is refused and
  changes nothing: no event is sent, so the server waits for the buffer until new buffers are agreed on. The application makes no
  other calls that take a buffer than recycling in its signals.\<close>

theorem stream_recycle_once:
  assumes r: "pinos_stream_recycle_buffer tt i s = Some (True, s1)" and app: "recycles_only app"
    and evs: "handle_rtnode_events tt app evs s1 = Some s2"
  shows "pinos_stream_recycle_buffer tt i s2 = Some (False, s2)"
proof -
  obtain k where k: "find_buffer s i = Some k" using r by (auto simp: pinos_stream_recycle_buffer_def split: option.splits)
  have bound: "k < length (st_buffer_ids s)" by (rule find_buffer_bound [OF k])
  obtain s0 where s0: "free_append k (set_used k False s) = Some s0" "st_add_event (REUSE_BUFFER_INIT (tt_ReuseBuffer tt) (st_port_id s) i) s0 = Some s1"
    using r k by (auto simp: pinos_stream_recycle_buffer_def split: if_splits bind_splits)
  have u: "not_more_used (set_used k False s) s2"
    by (meson s0 free_append_used add_event_used events_used [OF app evs] not_more_used_trans)
  moreover have "\<not> bi_used (st_buffer_ids (set_used k False s) ! k)" "k < length (st_buffer_ids (set_used k False s))"
    using bound by (simp_all add: set_used_def)
  ultimately have "\<not> bi_used (st_buffer_ids s2 ! k)" by (auto simp: not_more_used_def)
  moreover have "find_buffer s2 i = Some k"
    using k not_more_used_find [OF not_more_used_trans [OF unuse_ok u]] by simp
  ultimately show ?thesis by (simp add: pinos_stream_recycle_buffer_def)
qed

text \<open>One buffer, delivered twice: the second time the recycling fails.\<close>

definition input_stream :: stream where
  "input_stream = (the (pinos_stream_new demo_mem))\<lparr>st_buffer_ids := [client_view stream_types SPA_DIRECTION_INPUT
     \<lparr>gb_id = 0, gb_metas = [\<lparr>gm_type = 110, gm_size = 16, gm_data = Some \<lparr>sm_flags = 0, sm_fd = 5, sm_offset = 0, sm_size = 28\<rparr>\<rparr>],
       gb_datas = []\<rparr>], st_in_order := True, st_trans := Some demo_transport,
     st_mem := demo_mem\<lparr>tm_area := \<lparr>max_inputs = 1, n_inputs = 1, max_outputs = 0, n_outputs = 0\<rparr>\<rparr>\<rparr>"

theorem stream_recycle_once_witness:
  "\<exists>s1 s2. pinos_stream_recycle_buffer stream_types 0 input_stream = Some (True, s1) \<and>
     handle_rtnode_events stream_types (\<lambda>_. []) [SPA_EVENT_INIT (tt_HaveOutput stream_types)] s1 = Some s2 \<and>
     Sig_new_buffer 0 \<in> set (st_signals s2) \<and> pinos_stream_recycle_buffer stream_types 0 s2 = Some (False, s2)"
proof -
  have "array_grow 64 2048 = Some 2048" "array_grow 32 2560 = Some 4096" by (simp_all add: array_grow_step array_grow_done)
  then have new: "st_free input_stream = []" "st_signals input_stream = []" "st_port_id input_stream = 0"
    by (simp_all add: input_stream_def pinos_stream_new_def pinos_array_ensure_size_def pinos_array_init_def)
  let ?m = "st_mem input_stream" and ?ev = "REUSE_BUFFER_INIT (tt_ReuseBuffer stream_types) 0 0"
  have buf: "st_in_order input_stream" "length (st_buffer_ids input_stream) = 1" "bi_used (st_buffer_ids input_stream ! 0)"
    "st_trans input_stream = Some demo_transport"
    by (simp_all add: input_stream_def client_view_def Let_def)
  have "avail < SPA_POD_SIZE ?ev" if "avail = 4" for avail :: u32
    using that by (simp add: REUSE_BUFFER_INIT_def SPA_EVENT_INIT_COMPLEX_def SPA_POD_SIZE_def rd32_le32)
  then have full: "pinos_transport_add_event (Some demo_transport) (Some ?ev) ?m = Some (SPA_RESULT_ERROR, ?m)"
    by (simp add: pinos_transport_add_event_def Let_def spa_ringbuffer_get_write_index_def input_stream_def demo_mem_def demo_ring_def)
  let ?s1 = "(set_used 0 False input_stream)\<lparr>st_free := [0], st_wakeups := st_wakeups input_stream + 1\<rparr>"
  have r: "pinos_stream_recycle_buffer stream_types 0 input_stream = Some (True, ?s1)"
    using new buf full
    by (simp add: pinos_stream_recycle_buffer_def find_buffer_def free_append_def st_add_event_def set_used_def)
  have io: "get_tr_input (Some demo_transport) ?m 0 = Some (tr_input demo_transport 0)" "io_buffer_id (tm_io ?m a) = 0" "n_inputs (tm_area ?m) = 1" for a
    by (simp_all add: get_tr_input_def input_stream_def demo_mem_def)
  let ?s2 = "clear_io_id (tr_input demo_transport 0) (?s1\<lparr>st_signals := [Sig_new_buffer 0]\<rparr>)"
  have e: "handle_rtnode_events stream_types (\<lambda>_. []) [SPA_EVENT_INIT (tt_HaveOutput stream_types)] ?s1 = Some ?s2"
    using new buf io by (simp add: handle_rtnode_event_def set_used_def emit_def plain_event)
  have "recycles_only (\<lambda>_. [])" by (simp add: recycles_only_def)
  from stream_recycle_once [OF r this e] show ?thesis using r e by (auto simp: clear_io_id_def)
qed

end
