(* ===== verification/Spec2Isabelle.thy ===== *)
theory Spec2Isabelle
  imports Spa_Ringbuffer Pinos_Transport Pinos_Native_Events Pinos_Work_Queue Spa_Props Spa_Audiotestsrc Spa_Volume Spa_Audiomixer
    Pinos_Graph_Flow Pinos_Loop Pinos_Loop_Sources Pinos_Stream_Session Pinos_Link_Stream Pinos_Stream_Input
begin

text \<open>
  Pinos is a server that moves media between nodes. A node has ports, a link joins an output port to an input port; the
  server negotiates a format for the link, allocates or adopts buffers, and then moves buffer ids, not data, from node to
  node in a real-time loop. Nodes are plugins (SPA) or clients in other processes. A client talks to the server over a
  socket (packets of serialised values with file descriptors beside them) and, for the flow of buffers, over a block of
  shared memory with two rings of events. This development models that core as Isabelle functions, part by part, and proves
  what makes each part correct, and what goes wrong where the code does not do what it means to.

  \<^bold>\<open>Conventions.\<close> C integers are words of their width; a struct is a record, an enum or a tagged union a datatype. A result
  code is a signed 32-bit word, as in the code. \<open>None\<close> is a behaviour that C leaves undefined (an access out of bounds, a
  null pointer, a list node inserted twice) or a loop that does not end; so a theorem that a function gives \<open>Some\<close> says that
  it ends and is defined. What the code calls and does not contain (system calls, the application of a stream, the plugin
  behind a node) is an argument. Loops that may not end are \<^verbatim>\<open>partial_function (option)\<close>, and that they return is proved
  on its own; fuel is used only in \<open>transport_drain\<close> (one unit more than there are events is enough), in the runs of the link
  (six runs of its work queue) and where a theorem names the depth (\<open>do_pull\<close>: the nodes upstream, plus one).

  \<^bold>\<open>Ground.\<close> \<^verbatim>\<open>Pinos_Prelude\<close>: widths, result codes and the macros that classify them (\<^verbatim>\<open>spa/include/spa/defs.h\<close>), memory
  as bytes, conversions between words and numbers. \<^verbatim>\<open>Spa_List\<close>: the intrusive lists of \<^verbatim>\<open>spa/list.h\<close> on an explicit store,
  with the predicate that a chain of nodes is a list. \<^verbatim>\<open>Pinos_Map\<close>: \<^verbatim>\<open>pinos/client/array.h\<close> and the id allocator
  \<^verbatim>\<open>map.h\<close>, which agrees with a partial map on the ids in use. \<^verbatim>\<open>Pinos_Type_Map\<close>: the two tables of type names (\<^verbatim>\<open>pinos/client/mapper.c\<close>,
  \<^verbatim>\<open>spa/lib/mapper.c\<close>), both instances of one interface: ids in the order of first use, and back to the names.

  \<^bold>\<open>Between processes.\<close> \<^verbatim>\<open>Spa_Ringbuffer\<close>: \<^verbatim>\<open>spa/ringbuffer.h\<close> as a queue of bytes, and one writer with one reader under
  every interleaving. \<^verbatim>\<open>Pinos_Transport\<close>: \<^verbatim>\<open>pinos/client/transport.c\<close>, its layout and its events in both directions.
  \<^verbatim>\<open>Pinos_Connection\<close>: \<^verbatim>\<open>pinos/client/connection.c\<close>, packets over a socket that delivers in pieces. \<^verbatim>\<open>Spa_Pod\<close>: the builder
  and iterator of serialised values; \<^verbatim>\<open>Pinos_Pod_Remap\<close>: the translation of type ids in them. \<^verbatim>\<open>Pinos_Native\<close>,
  \<^verbatim>\<open>Pinos_Native_Correct\<close>, \<^verbatim>\<open>Pinos_Native_Events\<close>: the marshalling and demarshalling of every method and event
  (\<^verbatim>\<open>protocol-native.c\<close> of client and server) and their round trips, over the connection and the type maps, for messages that fit
  into the page that \<^verbatim>\<open>write_pod\<close> reserves; what the encoding loses (null strings, the upper half of 64-bit numbers, long error
  texts) is written out in \<open>method_received\<close> and \<open>event_received\<close>.
  \<^verbatim>\<open>Pinos_Loop\<close>: the queue of \<^verbatim>\<open>pinos/client/loop.c\<close> through which threads run functions in each other's loop, byte by
  byte; \<^verbatim>\<open>Pinos_Loop_Sources\<close>: the sources of a loop and the dispatch of one iteration.

  \<^bold>\<open>The graph.\<close> \<^verbatim>\<open>Pinos_Work_Queue\<close>: \<^verbatim>\<open>pinos/server/work-queue.c\<close> on its node lists, refined to a list of items, with
  callbacks that use the queue. \<^verbatim>\<open>Pinos_Graph\<close>, \<^verbatim>\<open>Pinos_Graph_Ops\<close>: nodes, ports and links of \<^verbatim>\<open>node.c\<close>, \<^verbatim>\<open>port.c\<close>,
  \<^verbatim>\<open>link.c\<close> and \<^verbatim>\<open>core.c\<close> with their states, the negotiation of formats and buffers and the calls that the main loop and the
  data loop run for each other. \<^verbatim>\<open>Pinos_Graph_Inv\<close>: partial and total correctness rules for these operations.
  \<^verbatim>\<open>Pinos_Graph_Live\<close>: a link between unlinked ports of nodes that answer at once, one of whose formats meet, reaches streaming;
  no link ever reaches the state RUNNING. \<^verbatim>\<open>Pinos_Graph_Flow\<close>: the callbacks of the data loop, termination of the pull and its
  endless recursion on cycles. \<^verbatim>\<open>Pinos_Link_Alloc\<close>: the shared block with the buffers of a link (\<^verbatim>\<open>alloc_buffers\<close>); a query
  of a parameter whose value has another type than the code asks for is undefined, as it shifts the arguments.
  \<^verbatim>\<open>Spa_Props\<close>: the filtering of properties and formats (\<^verbatim>\<open>spa/lib/props.c\<close>, \<^verbatim>\<open>format.c\<close>); ranges of rectangles are not
  intersected, which is shown.

  \<^bold>\<open>Nodes.\<close> \<^verbatim>\<open>Spa_Node\<close>: buffers, port io and formats that nodes share, with the interface of a pool of buffers.
  \<^verbatim>\<open>Spa_Samples\<close>: samples in blocks and the loops over two blocks. \<^verbatim>\<open>Spa_Audiotestsrc\<close>, \<^verbatim>\<open>Spa_Volume\<close>,
  \<^verbatim>\<open>Spa_Audiomixer\<close>: the three audio nodes, whole: parameters, formats, buffers, commands and processing.

  \<^bold>\<open>Clients.\<close> \<^verbatim>\<open>Pinos_Client_Node\<close>: the node in the server that stands for a client (\<^verbatim>\<open>pinos/server/client-node.c\<close>).
  \<^verbatim>\<open>Pinos_Stream\<close>: the stream in the client (\<^verbatim>\<open>pinos/client/stream.c\<close>). \<^verbatim>\<open>Pinos_Stream_Flow\<close>: both in one session on one
  transport; every buffer keeps one owner as long as no input keeps a buffer that is pushed to it. \<^verbatim>\<open>Pinos_Stream_Buffers\<close>: the messages that share buffers, delivered.
  \<^verbatim>\<open>Pinos_Link_Stream\<close>: from \<^verbatim>\<open>alloc_buffers\<close> in the server to the buffers of the stream. \<^verbatim>\<open>Pinos_Stream_Session\<close>: node and
  stream from their creation; the session theorem then assumes only what the two sides did themselves and, of the graph, that
  it gives back what it holds; a pushed buffer that an input keeps is shown to get two owners.
  \<^verbatim>\<open>Pinos_Stream_Input\<close>: input streams can recycle a buffer only once.

  \<^bold>\<open>How the parts meet.\<close> The transport uses the ring through the locale of byte queues; the protocol uses the connection, the
  values and the type maps; the graph uses the work queue and calls its nodes through a record of operations; the client node
  is such a node, sends the messages of the protocol and the events of the transport, and the stream receives both. The
  messages of a session are a list in order, which the connection and the protocol implement.

  \<^bold>\<open>Assumed.\<close> Allocations succeed unless a definition takes the answer as an argument. The calls between the two loops are
  queues in the graph; \<^verbatim>\<open>loop.c\<close> implements them until its buffer wraps, for items that do not all but fill it
  (shown in \<^verbatim>\<open>Pinos_Loop\<close>). There is
  one data loop. Listeners other than those of \<^verbatim>\<open>link.c\<close> only observe. Shared memory that both sides map is one value, and
  accesses to it interleave at the granularity of ring operations and of whole handlers.

  \<^bold>\<open>Not modelled.\<close> The contents of property dictionaries and error strings; info messages and subscriptions (\<^verbatim>\<open>context.c\<close>,
  \<^verbatim>\<open>introspect.c\<close>, \<^verbatim>\<open>proxy.c\<close>); loading of modules, the daemon and its configuration; the modules (policy on top of the graph's
  operations); D-Bus, rtkit and GStreamer glue; the nodes that drive devices or codecs (ALSA, V4L2, Xv, ffmpeg, libva), whose
  behaviour is that of a driver or library outside the repository; the video test source, the same node as the audio one with
  drawing instead of samples; tools, examples and tests. Freeing memory is modelled only where something can still use it.
\<close>

end
